(* ===== verification/Py_Prelude.thy ===== *)
theory Py_Prelude
  imports Main "HOL-Library.Word"
begin

unbundle bit_operations_syntax

text \<open>
  Shared prelude: the pieces of Python the components of \<open>src/hedra\<close> rely on.

  \<^item> a byte is an \<open>8 word\<close>, so \<open>bytes\<close>/\<open>bytearray\<close> values are range-checked by their
    type; Python's unbounded integers are \<open>int\<close> (or \<open>nat\<close> where they cannot be
    negative);
  \<^item> every exception a modelled operation can raise is a constructor of
    \<open>py_error\<close>, and a fallible operation returns \<open>py_error + 'a\<close>;
  \<^item> sequence indexing and slicing follow Python, negative bounds included;
  \<^item> \<open>struct.Struct(">H")\<close> and its kin are big-endian packers of fixed width with
    \<open>struct.error\<close> outside their range.

  The collection \<open>wire_simps\<close> holds the rewrite rules the wire-format theories share.
\<close>

named_theorems wire_simps
  \<open>rewrite rules for packing, unpacking and slicing byte strings\<close>

type_synonym byte = "8 word"
type_synonym bytes = "byte list"

datatype py_error =
    ValueError
  | TypeError
  | IndexError
  | KeyError
  | AttributeError
  | AssertionError
  | StructError
  | HPACKDecodingError
  | OversizedHeaderListError
  | InvalidTableSizeError
  | GenericException string

type_synonym 'a res = "py_error + 'a"

section \<open>Results\<close>

lemma sum_case_Inr_iff [simp]:
  "(case r of Inl e \<Rightarrow> Inl e | Inr v \<Rightarrow> f v) = Inr y \<longleftrightarrow> (\<exists>v. r = Inr v \<and> f v = Inr y)"
  by (cases r) auto

section \<open>Python indexing and slicing\<close>

definition py_index :: "'a list \<Rightarrow> int \<Rightarrow> 'a res" where
  "py_index xs i =
     (if 0 \<le> i
      then (if nat i < length xs then Inr (xs ! nat i) else Inl IndexError)
      else (if nat (- i) \<le> length xs then Inr (xs ! (length xs - nat (- i))) else Inl IndexError))"

definition clamp_bound :: "nat \<Rightarrow> int \<Rightarrow> nat" where
  "clamp_bound n i =
     (if i < 0 then nat (max 0 (int n + i)) else min n (nat i))"

definition py_slice :: "'a list \<Rightarrow> int \<Rightarrow> int \<Rightarrow> 'a list" where
  "py_slice xs lo hi =
     (let n = length xs; a = clamp_bound n lo; b = clamp_bound n hi
      in take (b - a) (drop a xs))"

lemma py_index_nonneg [simp]:
  "0 \<le> i \<Longrightarrow> nat i < length xs \<Longrightarrow> py_index xs i = Inr (xs ! nat i)"
  by (simp add: py_index_def)

lemma py_slice_prefix [wire_simps]:
  "py_slice (xs @ ys) (int (length xs)) (int (length xs + length ys)) = ys"
  by (simp add: py_slice_def clamp_bound_def)

lemma py_slice_nat:
  "a \<le> b \<Longrightarrow> b \<le> length xs \<Longrightarrow> py_slice xs (int a) (int b) = take (b - a) (drop a xs)"
  by (cases "a = length xs") (simp_all add: py_slice_def clamp_bound_def Let_def)

lemma py_slice_mid:
  "py_slice (as @ bs @ cs) (int (length as)) (int (length as) + int (length bs)) = bs"
  using py_slice_nat [of "length as" "length as + length bs" "as @ bs @ cs"] by simp

section \<open>Big-endian integers of fixed width\<close>

fun be_bytes :: "nat \<Rightarrow> nat \<Rightarrow> bytes" where
  "be_bytes 0 v = []"
| "be_bytes (Suc n) v = be_bytes n (v div 256) @ [word_of_nat (v mod 256)]"

definition be_value :: "bytes \<Rightarrow> nat" where
  "be_value bs = foldl (\<lambda>a b. a * 256 + unat b) 0 bs"

lemma be_value_Nil [simp]: "be_value [] = 0"
  by (simp add: be_value_def)

lemma be_value_snoc [simp]: "be_value (bs @ [b]) = be_value bs * 256 + unat b"
  by (simp add: be_value_def)

lemma length_be_bytes [simp]: "length (be_bytes n v) = n"
  by (induction n arbitrary: v) auto

lemma unat_word_of_nat_byte [simp]: "v < 256 \<Longrightarrow> unat (word_of_nat v :: byte) = v"
  by (simp add: unat_of_nat take_bit_nat_eq_self)

lemma unat_byte_less [simp]: "unat (b :: byte) < 256"
  using unsigned_less [of b, where ?'a = nat] by simp

lemma be_value_be_bytes [simp]: "v < 256 ^ n \<Longrightarrow> be_value (be_bytes n v) = v"
proof (induction n arbitrary: v)
  case (Suc n)
  then have "v div 256 < 256 ^ n"
    by (simp add: less_mult_imp_div_less mult.commute)
  with Suc.IH show ?case by simp
qed simp

lemma be_bytes_be_value [simp]: "be_bytes (length bs) (be_value bs) = bs"
proof (induction bs rule: rev_induct)
  case (snoc b bs)
  have "(be_value bs * 256 + unat b) div 256 = be_value bs"
    and "(be_value bs * 256 + unat b) mod 256 = unat b"
    using unat_byte_less [of b] by (simp_all add: div_plus_div_distrib_dvd_left)
  with snoc show ?case by simp
qed simp

lemma be_value_bound: "be_value bs < 256 ^ length bs"
proof (induction bs rule: rev_induct)
  case (snoc b bs)
  then have "be_value bs * 256 + unat b < (be_value bs + 1) * 256"
    using unat_byte_less [of b] by simp
  also have "\<dots> \<le> 256 ^ length bs * 256"
    using snoc by (intro mult_le_mono1) simp
  finally show ?case by (simp add: mult.commute)
qed simp

text \<open>\<open>struct.Struct.pack\<close> of one unsigned big-endian field of \<open>n\<close> bytes.\<close>

definition pack_be :: "nat \<Rightarrow> int \<Rightarrow> bytes res" where
  "pack_be n v = (if 0 \<le> v \<and> v < 256 ^ n then Inr (be_bytes n (nat v)) else Inl StructError)"

text \<open>\<open>struct.Struct.unpack\<close> wants exactly as many bytes as the format has.\<close>

definition unpack_be :: "nat \<Rightarrow> bytes \<Rightarrow> int res" where
  "unpack_be n bs = (if length bs = n then Inr (int (be_value bs)) else Inl StructError)"

lemma pack_be_ok [wire_simps]:
  "0 \<le> v \<Longrightarrow> v < 256 ^ n \<Longrightarrow> pack_be n v = Inr (be_bytes n (nat v))"
  by (simp add: pack_be_def)

lemma unpack_pack_be:
  assumes "pack_be n v = Inr bs"
  shows "unpack_be n bs = Inr v \<and> length bs = n"
proof -
  from assms have v: "0 \<le> v" "v < 256 ^ n" and bs: "bs = be_bytes n (nat v)"
    by (auto simp: pack_be_def split: if_splits)
  from v have "nat v < 256 ^ n" by (simp add: nat_less_iff)
  with v bs show ?thesis by (simp add: unpack_be_def)
qed

end
