(* ===== verification/Hpack_Integer.thy ===== *)
theory Hpack_Integer
  imports Py_Prelude
begin

unbundle bit_operations_syntax

text \<open>
  HPACK prefixed integers: \<open>encode_integer\<close> and \<open>decode_integer\<close> of
  \<open>core/engines/types/common/encoder.py\<close>. The \<open>while\<close> loop of the encoder is the function
  \<open>encode_integer_loop\<close>; the \<open>while True\<close> loop of the decoder, which ends by \<open>break\<close> or by
  the \<open>IndexError\<close> of \<open>data[index]\<close>, is \<open>decode_integer_loop\<close> on the bytes not yet read,
  with \<open>None\<close> for the \<open>IndexError\<close> that the \<open>try\<close> turns into \<open>HPACKDecodingError\<close>.
\<close>

section \<open>Definitions\<close>

text \<open>\<open>_PREFIX_BIT_MAX_NUMBERS\<close>: the numbers \<open>2 ** i - 1\<close> for \<open>i\<close> below 9.\<close>

definition PREFIX_BIT_MAX_NUMBERS :: "int list" where
  "PREFIX_BIT_MAX_NUMBERS = map (\<lambda>i. 2 ^ i - 1) [0..<9]"

text \<open>\<open>bytearray(elements)\<close> raises \<open>ValueError\<close> for an element outside \<open>range(256)\<close>.\<close>

definition bytearray_of :: "int list \<Rightarrow> bytes res" where
  "bytearray_of xs =
     (if list_all (\<lambda>x. 0 \<le> x \<and> x < 256) xs then Inr (map word_of_int xs) else Inl ValueError)"

function encode_integer_loop :: "int \<Rightarrow> int list" where
  "encode_integer_loop i =
     (if i \<ge> 128 then ((i AND 127) + 128) # encode_integer_loop (drop_bit 7 i) else [i])"
  by pat_completeness auto
termination
  by (relation "measure nat") (auto simp: drop_bit_eq_div)

declare encode_integer_loop.simps [simp del]

definition encode_integer :: "int \<Rightarrow> int \<Rightarrow> bytes res" where
  "encode_integer integer prefix_bits =
     (if integer < 0 then Inl ValueError
      else if prefix_bits < 1 \<or> prefix_bits > 8 then Inl ValueError
      else
        (let max_number = PREFIX_BIT_MAX_NUMBERS ! nat prefix_bits
         in if integer < max_number then bytearray_of [integer]
            else bytearray_of (max_number # encode_integer_loop (integer - max_number))))"

fun decode_integer_loop :: "bytes \<Rightarrow> nat \<Rightarrow> int \<Rightarrow> int \<Rightarrow> (int \<times> int) option" where
  "decode_integer_loop [] shift number index = None"
| "decode_integer_loop (next_byte # rest) shift number index =
     (if uint next_byte \<ge> 128
      then decode_integer_loop rest (shift + 7)
             (number + push_bit shift (uint next_byte - 128)) (index + 1)
      else Some (number + push_bit shift (uint next_byte), index + 1))"

definition decode_integer :: "bytes \<Rightarrow> int \<Rightarrow> (int \<times> int) res" where
  "decode_integer data prefix_bits =
     (if prefix_bits < 1 \<or> prefix_bits > 8 then Inl ValueError
      else
        (let max_number = PREFIX_BIT_MAX_NUMBERS ! nat prefix_bits;
             mask' = drop_bit (nat (8 - prefix_bits)) (255 :: int)
         in case data of
              [] \<Rightarrow> Inl HPACKDecodingError
            | first # rest \<Rightarrow>
                (let number = uint first AND mask'
                 in if number = max_number
                    then (case decode_integer_loop rest 0 number 1 of
                            None \<Rightarrow> Inl HPACKDecodingError
                          | Some r \<Rightarrow> Inr r)
                    else Inr (number, 1))))"

section \<open>Arithmetic of the prefix\<close>

lemma prefix_cases:
  "1 \<le> (p::int) \<Longrightarrow> p \<le> 8 \<Longrightarrow>
     p = 1 \<or> p = 2 \<or> p = 3 \<or> p = 4 \<or> p = 5 \<or> p = 6 \<or> p = 7 \<or> p = 8"
  by arith

lemma PREFIX_BIT_MAX_NUMBERS_nth:
  "p < 9 \<Longrightarrow> PREFIX_BIT_MAX_NUMBERS ! p = 2 ^ p - 1"
  by (simp add: PREFIX_BIT_MAX_NUMBERS_def)

lemma prefix_mask:
  "1 \<le> p \<Longrightarrow> p \<le> 8 \<Longrightarrow> drop_bit (nat (8 - p)) (255 :: int) = mask (nat p)"
  using prefix_cases [of p] by (auto simp: drop_bit_eq_div mask_eq_exp_minus_1)

lemma and_prefix_mask: "(x::int) AND mask n = x mod 2 ^ n"
  by (simp add: take_bit_eq_mod flip: take_bit_eq_mask)

lemma and_127: "(i::int) AND 127 = i mod 128"
  using and_prefix_mask [of i 7] by (simp add: mask_eq_exp_minus_1)

lemma uint_byte_bounds [simp]: "0 \<le> uint (b::byte)" "uint (b::byte) < 256"
  using uint_lt2p [of b] by simp_all

lemma uint_word_of_int_byte [simp]:
  "0 \<le> x \<Longrightarrow> x < 256 \<Longrightarrow> uint (word_of_int x :: byte) = x"
  by (simp add: take_bit_int_eq_self unsigned_of_int)

lemma encode_integer_loop_ne [simp]: "encode_integer_loop i \<noteq> []"
  by (subst encode_integer_loop.simps) simp

lemma encode_integer_loop_range:
  "0 \<le> i \<Longrightarrow> list_all (\<lambda>x. 0 \<le> x \<and> x < 256) (encode_integer_loop i)"
proof (induction i rule: encode_integer_loop.induct)
  case (1 i)
  show ?case
  proof (cases "i \<ge> 128")
    case True
    with 1 have "list_all (\<lambda>x. 0 \<le> x \<and> x < 256) (encode_integer_loop (drop_bit 7 i))"
      by (simp add: drop_bit_eq_div)
    moreover have "0 \<le> i mod 128" "i mod 128 < 128" by simp_all
    ultimately show ?thesis
      using True by (simp add: encode_integer_loop.simps [of i] and_127)
  next
    case False
    with 1 show ?thesis by (simp add: encode_integer_loop.simps [of i])
  qed
qed

section \<open>Round trip\<close>

lemma decode_encode_loop:
  "0 \<le> i \<Longrightarrow>
     decode_integer_loop (map word_of_int (encode_integer_loop i) @ rest) shift number index =
       Some (number + push_bit shift i, index + int (length (encode_integer_loop i)))"
proof (induction i arbitrary: shift number index rule: encode_integer_loop.induct)
  case (1 i)
  show ?case
  proof (cases "i \<ge> 128")
    case True
    have m: "0 \<le> i mod 128" "i mod 128 < 128" by simp_all
    have u: "uint (word_of_int (i mod 128 + 128) :: byte) = i mod 128 + 128"
      by (rule uint_word_of_int_byte) (use m in linarith)+
    have split: "push_bit shift (i mod 128) + push_bit (shift + 7) (i div 128) = push_bit shift i"
    proof -
      have "push_bit shift (i mod 128) + push_bit (shift + 7) (i div 128)
              = (i mod 128 + i div 128 * 128) * 2 ^ shift"
        unfolding push_bit_eq_mult power_add distrib_right by (simp only: mult_ac) simp
      also have "\<dots> = push_bit shift i"
        by (simp only: mod_div_mult_eq push_bit_eq_mult)
      finally show ?thesis .
    qed
    from True 1 have "decode_integer_loop
          (map word_of_int (encode_integer_loop (drop_bit 7 i)) @ rest) (shift + 7)
          (number + push_bit shift (i mod 128)) (index + 1) =
        Some (number + push_bit shift (i mod 128) + push_bit (shift + 7) (drop_bit 7 i),
              index + 1 + int (length (encode_integer_loop (drop_bit 7 i))))"
      by (simp add: drop_bit_eq_div)
    with True m u split show ?thesis
      by (simp add: encode_integer_loop.simps [of i] and_127 drop_bit_eq_div add.assoc)
  next
    case False
    with 1 show ?thesis
      by (simp add: encode_integer_loop.simps [of i])
  qed
qed

lemma encode_integer_ok:
  assumes "0 \<le> n" "1 \<le> p" "p \<le> 8"
  shows "encode_integer n p = Inr (
     if n < 2 ^ nat p - 1 then [word_of_int n]
     else word_of_int (2 ^ nat p - 1) # map word_of_int (encode_integer_loop (n - (2 ^ nat p - 1))))"
proof -
  have "(2::int) ^ nat p \<le> 256"
    using prefix_cases [OF assms(2,3)] by auto
  with assms encode_integer_loop_range [of "n - (2 ^ nat p - 1)"] show ?thesis
    by (simp add: encode_integer_def bytearray_of_def PREFIX_BIT_MAX_NUMBERS_nth)
qed

text \<open>
  The encoder of header blocks sets flag bits above the prefix in the first byte
  (\<open>field[0] |= 0x80\<close>); decoding ignores them.
\<close>

lemma uint_or_high_mod:
  assumes "take_bit n (hi :: byte) = 0"
  shows "uint (b OR hi) mod 2 ^ n = uint b mod 2 ^ n"
proof -
  have "take_bit n (uint hi) = uint (take_bit n hi)"
    by (simp add: unsigned_take_bit_eq)
  with assms have "take_bit n (uint (b OR hi)) = take_bit n (uint b)"
    by (simp add: unsigned_or_eq)
  then show ?thesis by (simp add: take_bit_eq_mod)
qed

lemma decode_integer_high_bits:
  assumes "1 \<le> p" "p \<le> 8" "take_bit (nat p) hi = 0"
  shows "decode_integer ((b OR hi) # bs) p = decode_integer (b # bs) p"
  using assms
  by (simp add: decode_integer_def prefix_mask and_prefix_mask uint_or_high_mod)

lemma decode_encode_integer:
  assumes n: "0 \<le> n" and p: "1 \<le> p" "p \<le> 8" and enc: "encode_integer n p = Inr bs"
  shows "decode_integer (bs @ rest) p = Inr (n, int (length bs))"
proof -
  have P: "(2::int) ^ nat p \<le> 256" "(2::int) \<le> 2 ^ nat p"
    using prefix_cases [OF p] by auto
  have M: "PREFIX_BIT_MAX_NUMBERS ! nat p = 2 ^ nat p - 1"
    using p by (simp add: PREFIX_BIT_MAX_NUMBERS_nth)
  show ?thesis
  proof (cases "n < 2 ^ nat p - 1")
    case True
    with n p enc have "bs = [word_of_int n]" by (simp add: encode_integer_ok)
    with True n p P M show ?thesis
      by (simp add: decode_integer_def prefix_mask and_prefix_mask)
  next
    case False
    define m :: int where "m = 2 ^ nat p - 1"
    from P m_def have m: "0 \<le> m" "m < 256" "m < 2 ^ nat p" by auto
    then have mm: "m mod 2 ^ nat p = m" by simp
    from False n p enc have "bs = word_of_int m # map word_of_int (encode_integer_loop (n - m))"
      by (simp only: encode_integer_ok m_def if_False sum.inject)
    with False p m mm M show ?thesis
      by (simp add: decode_integer_def prefix_mask and_prefix_mask decode_encode_loop
          flip: m_def)
  qed
qed

section \<open>Bytes consumed\<close>

lemma decode_integer_loop_consumed:
  "decode_integer_loop bs shift number index = Some (n, i) \<Longrightarrow>
     index < i \<and> i \<le> index + int (length bs)"
proof (induction bs arbitrary: shift number index)
  case (Cons b bs)
  then show ?case by (fastforce split: if_splits)
qed simp

lemma decode_integer_consumed:
  "decode_integer bs p = Inr (n, i) \<Longrightarrow> 1 \<le> i \<and> i \<le> int (length bs)"
  by (auto simp: decode_integer_def Let_def split: if_splits list.splits option.splits
      dest: decode_integer_loop_consumed)

end
