(* ===== verification/Header_Table.thy ===== *)
theory Header_Table
  imports Py_Prelude
begin

text \<open>
  The combined static and dynamic HPACK header table:
  \<open>core/engines/types/common/hpack/table.py\<close>.

  A stored name or value is a Python buffer: \<open>bytes\<close> (\<open>PyBytes\<close>) or the read-only
  \<open>memoryview\<close> slice (\<open>PyView\<close>) the decoder of \<open>decoder.py\<close> stores for a literal that is
  not Huffman coded. Both compare by content, which \<open>raw\<close> gives.

  \<open>get_by_index\<close> is decorated with \<open>functools.lru_cache(maxsize=4096)\<close>: one cache for the
  class, keyed by the table object and the index. The cache is explicit state
  (\<open>gbi_cache\<close>, most recently used first) and a table object is named by a number.
  \<open>table_entry_size\<close> is cached too, but it depends on its arguments only and both kinds
  of buffer are hashable, so its cache is not observable.
\<close>

section \<open>Data\<close>

datatype buf = PyBytes bytes | PyView bytes

primrec raw :: "buf \<Rightarrow> bytes" where
  "raw (PyBytes bs) = bs"
| "raw (PyView bs) = bs"

type_synonym entry = "buf \<times> buf"

text \<open>A Python bytes literal.\<close>

definition b_lit :: "string \<Rightarrow> bytes" where
  "b_lit s = map of_char s"

definition STATIC_TABLE :: "(bytes \<times> bytes) list" where
  "STATIC_TABLE = map (\<lambda>(n, v). (b_lit n, b_lit v))
     [('':authority'', ''''),
      ('':method'', ''GET''),
      ('':method'', ''POST''),
      ('':path'', ''/''),
      ('':path'', ''/index.html''),
      ('':scheme'', ''http''),
      ('':scheme'', ''https''),
      ('':status'', ''200''),
      ('':status'', ''204''),
      ('':status'', ''206''),
      ('':status'', ''304''),
      ('':status'', ''400''),
      ('':status'', ''404''),
      ('':status'', ''500''),
      (''accept-charset'', ''''),
      (''accept-encoding'', ''gzip, deflate''),
      (''accept-language'', ''''),
      (''accept-ranges'', ''''),
      (''accept'', ''''),
      (''access-control-allow-origin'', ''''),
      (''age'', ''''),
      (''allow'', ''''),
      (''authorization'', ''''),
      (''cache-control'', ''''),
      (''content-disposition'', ''''),
      (''content-encoding'', ''''),
      (''content-language'', ''''),
      (''content-length'', ''''),
      (''content-location'', ''''),
      (''content-range'', ''''),
      (''content-type'', ''''),
      (''cookie'', ''''),
      (''date'', ''''),
      (''etag'', ''''),
      (''expect'', ''''),
      (''expires'', ''''),
      (''from'', ''''),
      (''host'', ''''),
      (''if-match'', ''''),
      (''if-modified-since'', ''''),
      (''if-none-match'', ''''),
      (''if-range'', ''''),
      (''if-unmodified-since'', ''''),
      (''last-modified'', ''''),
      (''link'', ''''),
      (''location'', ''''),
      (''max-forwards'', ''''),
      (''proxy-authenticate'', ''''),
      (''proxy-authorization'', ''''),
      (''range'', ''''),
      (''referer'', ''''),
      (''refresh'', ''''),
      (''retry-after'', ''''),
      (''server'', ''''),
      (''set-cookie'', ''''),
      (''strict-transport-security'', ''''),
      (''transfer-encoding'', ''''),
      (''user-agent'', ''''),
      (''vary'', ''''),
      (''via'', ''''),
      (''www-authenticate'', '''')]"

definition STATIC_TABLE_LENGTH :: int where
  "STATIC_TABLE_LENGTH = int (length STATIC_TABLE)"

text \<open>
  \<open>_build_static_table_mapping\<close>: \<open>setdefault\<close> keeps the first index of a name, the inner
  dictionary takes the last index of a value.
\<close>

type_synonym static_mapping = "bytes \<rightharpoonup> int \<times> (bytes \<rightharpoonup> int)"

fun build_static_table_mapping ::
    "int \<Rightarrow> (bytes \<times> bytes) list \<Rightarrow> static_mapping \<Rightarrow> static_mapping" where
  "build_static_table_mapping index [] m = m"
| "build_static_table_mapping index ((name, val) # rest) m =
     (let (first, values) = (case m name of None \<Rightarrow> (index, Map.empty) | Some r \<Rightarrow> r)
      in build_static_table_mapping (index + 1) rest
           (m(name \<mapsto> (first, values(val \<mapsto> index)))))"

definition STATIC_TABLE_MAPPING :: static_mapping where
  "STATIC_TABLE_MAPPING = build_static_table_mapping 1 STATIC_TABLE Map.empty"

text \<open>The table object; \<open>dynamic_entries\<close> is the deque, newest entry first.\<close>

record header_table =
  maxsize :: int
  current_size :: int
  resized :: bool
  dynamic_entries :: "entry list"

definition HeaderTable_init :: header_table where
  "HeaderTable_init =
     \<lparr>maxsize = 4096, current_size = 0, resized = False, dynamic_entries = []\<rparr>"

section \<open>Operations\<close>

definition table_entry_size :: "buf \<Rightarrow> buf \<Rightarrow> int" where
  "table_entry_size name val = 32 + int (length (raw name)) + int (length (raw val))"

definition get_by_index_raw :: "header_table \<Rightarrow> int \<Rightarrow> entry option res" where
  "get_by_index_raw t index =
     (let index = index - 1
      in if index < STATIC_TABLE_LENGTH
         then (case py_index STATIC_TABLE index of
                 Inl e \<Rightarrow> Inl e
               | Inr (n, v) \<Rightarrow> Inr (Some (PyBytes n, PyBytes v)))
         else (let index = index - STATIC_TABLE_LENGTH
               in if index < int (length (dynamic_entries t))
                  then Inr (Some (dynamic_entries t ! nat index))
                  else Inr None))"

type_synonym gbi_key = "nat \<times> int"
type_synonym gbi_cache = "(gbi_key \<times> entry option) list"

definition GBI_CACHE_SIZE :: nat where
  "GBI_CACHE_SIZE = 4096"

text \<open>
  A call through the cache: a hit returns the stored value and moves it to the front; a miss
  runs the body, stores its value in front and drops the least recently used value when
  there are more than 4096. An exception is not stored.
\<close>

definition get_by_index ::
    "nat \<Rightarrow> header_table \<Rightarrow> gbi_cache \<Rightarrow> int \<Rightarrow> gbi_cache \<times> entry option res" where
  "get_by_index self t cache index =
     (case map_of cache (self, index) of
        Some r \<Rightarrow> (((self, index), r) # filter (\<lambda>(k, _). k \<noteq> (self, index)) cache, Inr r)
      | None \<Rightarrow>
          (case get_by_index_raw t index of
             Inl e \<Rightarrow> (cache, Inl e)
           | Inr r \<Rightarrow> (take GBI_CACHE_SIZE (((self, index), r) # cache), Inr r)))"

text \<open>
  The loop of \<open>_shrink\<close>: pop the oldest entry while the size is over the limit. Popping
  from an empty deque raises \<open>IndexError\<close>, the third component.
\<close>

function shrink_loop :: "int \<Rightarrow> entry list \<Rightarrow> int \<Rightarrow> entry list \<times> int \<times> py_error option" where
  "shrink_loop limit es cursize =
     (if cursize > limit
      then (if es = [] then (es, cursize, Some IndexError)
            else (let (name, val) = last es
                  in shrink_loop limit (butlast es) (cursize - table_entry_size name val)))
      else (es, cursize, None))"
  by pat_completeness auto
termination
  by (relation "measure (\<lambda>(limit, es, cursize). length es)") auto

declare shrink_loop.simps [simp del]

definition shrink :: "header_table \<Rightarrow> header_table \<times> py_error option" where
  "shrink t =
     (case shrink_loop (maxsize t) (dynamic_entries t) (current_size t) of
        (es, cursize, None) \<Rightarrow> (t\<lparr>dynamic_entries := es, current_size := cursize\<rparr>, None)
      | (es, _, Some e) \<Rightarrow> (t\<lparr>dynamic_entries := es\<rparr>, Some e))"

definition table_add :: "header_table \<Rightarrow> buf \<Rightarrow> buf \<Rightarrow> header_table \<times> py_error option" where
  "table_add t name val =
     (let size = table_entry_size name val
      in if size > maxsize t
         then (t\<lparr>dynamic_entries := [], current_size := 0\<rparr>, None)
         else shrink (t\<lparr>dynamic_entries := (name, val) # dynamic_entries t,
                        current_size := current_size t + size\<rparr>))"

fun search_dynamic ::
    "entry list \<Rightarrow> int \<Rightarrow> bytes \<Rightarrow> bytes \<Rightarrow> (int \<times> buf \<times> buf option) option \<Rightarrow>
     (int \<times> buf \<times> buf option) option" where
  "search_dynamic [] i name val partial = partial"
| "search_dynamic ((n, v) # rest) i name val partial =
     (if raw n = name
      then (if raw v = val then Some (i, n, Some v)
            else search_dynamic rest (i + 1) name val
                   (if partial = None then Some (i, n, None) else partial))
      else search_dynamic rest (i + 1) name val partial)"

definition table_search ::
    "header_table \<Rightarrow> bytes \<Rightarrow> bytes \<Rightarrow> (int \<times> buf \<times> buf option) option" where
  "table_search t name val =
     (let offset = STATIC_TABLE_LENGTH + 1
      in case STATIC_TABLE_MAPPING name of
           Some (first, values) \<Rightarrow>
             (case values val of
                Some index \<Rightarrow> Some (index, PyBytes name, Some (PyBytes val))
              | None \<Rightarrow> search_dynamic (dynamic_entries t) offset name val
                          (Some (first, PyBytes name, None)))
         | None \<Rightarrow> search_dynamic (dynamic_entries t) offset name val None)"

definition set_maxsize :: "header_table \<Rightarrow> int \<Rightarrow> header_table \<times> py_error option" where
  "set_maxsize t newmax =
     (let oldmax = maxsize t;
          t1 = t\<lparr>maxsize := newmax, resized := (newmax \<noteq> oldmax)\<rparr>
      in if newmax \<le> 0 then (t1\<lparr>dynamic_entries := [], current_size := 0\<rparr>, None)
         else if oldmax > newmax then shrink t1
         else (t1, None))"

section \<open>The dynamic table as a bounded list\<close>

text \<open>
  The abstract dynamic table is the list of its name/value pairs, newest first. Both
  \<open>add\<close> and a change of \<open>maxsize\<close> keep the longest prefix that fits (\<open>fit\<close>).
\<close>

type_synonym field = "bytes \<times> bytes"

definition field_size :: "field \<Rightarrow> int" where
  "field_size f = 32 + int (length (fst f)) + int (length (snd f))"

definition fields_size :: "field list \<Rightarrow> int" where
  "fields_size fs = sum_list (map field_size fs)"

fun fit :: "int \<Rightarrow> field list \<Rightarrow> field list" where
  "fit limit [] = []"
| "fit limit (f # fs) = (if field_size f \<le> limit then f # fit (limit - field_size f) fs else [])"

definition raw_entry :: "entry \<Rightarrow> field" where
  "raw_entry e = (raw (fst e), raw (snd e))"

definition content :: "header_table \<Rightarrow> field list" where
  "content t = map raw_entry (dynamic_entries t)"

definition ht_inv :: "header_table \<Rightarrow> bool" where
  "ht_inv t \<longleftrightarrow> current_size t = fields_size (content t) \<and> current_size t \<le> max 0 (maxsize t)"

lemma raw_entry_simps [simp]:
  "raw_entry (n, v) = (raw n, raw v)"
  "fst (raw_entry e) = raw (fst e)" "snd (raw_entry e) = raw (snd e)"
  by (simp_all add: raw_entry_def)

lemma raw_entry_eq [simp]: "raw_entry e = (n, v) \<longleftrightarrow> raw (fst e) = n \<and> raw (snd e) = v"
  by (simp add: raw_entry_def)

lemma table_entry_size_field [simp]: "table_entry_size n v = field_size (raw n, raw v)"
  by (simp add: table_entry_size_def field_size_def)

lemma field_size_pos [simp]: "0 < field_size f"
  by (simp add: field_size_def)

lemma fields_size_simps [simp]:
  "fields_size [] = 0"
  "fields_size (f # fs) = field_size f + fields_size fs"
  "fields_size (fs @ gs) = fields_size fs + fields_size gs"
  by (simp_all add: fields_size_def)

lemma fields_size_nonneg [simp]: "0 \<le> fields_size fs"
  by (induction fs) (simp_all add: less_imp_le)

lemma fit_all: "fields_size fs \<le> limit \<Longrightarrow> fit limit fs = fs"
proof (induction fs arbitrary: limit)
  case (Cons f fs)
  from Cons.prems have "field_size f + fields_size fs \<le> limit" by simp
  with fields_size_nonneg [of fs]
  have "field_size f \<le> limit" "fields_size fs \<le> limit - field_size f" by linarith+
  with Cons.IH show ?case by simp
qed simp

lemma fit_snoc: "\<not> fields_size (fs @ [f]) \<le> limit \<Longrightarrow> fit limit (fs @ [f]) = fit limit fs"
  by (induction fs arbitrary: limit) auto

lemma fit_nonpos: "limit \<le> 0 \<Longrightarrow> fit limit fs = []"
  using field_size_pos by (cases fs) (auto simp: not_le intro: le_less_trans)

lemma fit_size: "0 \<le> limit \<Longrightarrow> fields_size (fit limit fs) \<le> limit"
proof (induction fs arbitrary: limit)
  case (Cons f fs)
  show ?case
  proof (cases "field_size f \<le> limit")
    case True
    with Cons.IH [of "limit - field_size f"]
    have "fields_size (fit (limit - field_size f) fs) \<le> limit - field_size f" by simp
    with True show ?thesis by simp
  qed (use Cons.prems in simp)
qed simp

lemma fit_prefix: "\<exists>rest. fs = fit limit fs @ rest"
proof (induction fs arbitrary: limit)
  case (Cons f fs)
  then show ?case
    by (cases "field_size f \<le> limit") (fastforce simp del: append.simps(1))+
qed simp

lemma shrink_loop_fit:
  assumes "cursize = fields_size (map raw_entry es)" and "0 \<le> limit"
  shows "\<exists>es'. shrink_loop limit es cursize = (es', fields_size (map raw_entry es'), None) \<and>
           map raw_entry es' = fit limit (map raw_entry es)"
  using assms
proof (induction es arbitrary: cursize rule: rev_induct)
  case Nil
  then show ?case by (simp add: shrink_loop.simps)
next
  case (snoc e es)
  show ?case
  proof (cases "cursize > limit")
    case True
    obtain n v where e: "e = (n, v)" by (cases e)
    from snoc.prems True have "fit limit (map raw_entry (es @ [e])) = fit limit (map raw_entry es)"
      using fit_snoc [of "map raw_entry es" "raw_entry e" limit] by simp
    moreover have "shrink_loop limit (es @ [e]) cursize
        = shrink_loop limit es (fields_size (map raw_entry es))"
      using True snoc.prems(1) by (subst shrink_loop.simps) (simp add: e)
    ultimately show ?thesis
      using snoc.IH [OF refl snoc.prems(2)] by auto
  next
    case False
    with snoc.prems have "fit limit (map raw_entry (es @ [e])) = map raw_entry (es @ [e])"
      by (intro fit_all) simp
    with False snoc.prems show ?thesis
      by (simp add: shrink_loop.simps [of limit "es @ [e]"])
  qed
qed

lemma shrink_fit:
  assumes "current_size t = fields_size (content t)" and "0 \<le> maxsize t"
  shows "\<exists>t'. shrink t = (t', None) \<and> content t' = fit (maxsize t) (content t) \<and>
           maxsize t' = maxsize t \<and> resized t' = resized t \<and> ht_inv t'"
proof -
  obtain es' where es': "shrink_loop (maxsize t) (dynamic_entries t) (current_size t)
      = (es', fields_size (map raw_entry es'), None)"
    "map raw_entry es' = fit (maxsize t) (content t)"
    using shrink_loop_fit [OF assms(1) [unfolded content_def] assms(2)]
    by (auto simp: content_def)
  with assms(2) fit_size [of "maxsize t" "content t"] show ?thesis
    by (auto simp: shrink_def content_def ht_inv_def)
qed

lemma ht_inv_init [simp]: "ht_inv HeaderTable_init"
  by (simp add: ht_inv_def HeaderTable_init_def content_def)

lemma content_init [simp]: "content HeaderTable_init = []"
  by (simp add: HeaderTable_init_def content_def)

lemma table_add_fit:
  assumes "ht_inv t"
  shows "\<exists>t'. table_add t n v = (t', None) \<and> ht_inv t' \<and> maxsize t' = maxsize t \<and>
           resized t' = resized t \<and>
           content t' = fit (maxsize t) ((raw n, raw v) # content t)"
proof (cases "field_size (raw n, raw v) > maxsize t")
  case True
  then show ?thesis
    by (simp add: table_add_def ht_inv_def content_def)
next
  case False
  let ?t = "t\<lparr>dynamic_entries := (n, v) # dynamic_entries t,
              current_size := current_size t + field_size (raw n, raw v)\<rparr>"
  have c: "content ?t = (raw n, raw v) # content t"
    by (simp add: content_def)
  have "0 \<le> maxsize t"
    using False field_size_pos [of "(raw n, raw v)"] by linarith
  then have "0 \<le> maxsize ?t" by simp
  moreover have "current_size ?t = fields_size (content ?t)"
    using assms c by (simp add: ht_inv_def)
  ultimately show ?thesis
    using False shrink_fit [of ?t] c by (auto simp: table_add_def)
qed

lemma set_maxsize_fit:
  assumes "ht_inv t"
  shows "\<exists>t'. set_maxsize t newmax = (t', None) \<and> ht_inv t' \<and> maxsize t' = newmax \<and>
           resized t' = (newmax \<noteq> maxsize t) \<and> content t' = fit newmax (content t)"
proof -
  let ?t = "t\<lparr>maxsize := newmax, resized := (newmax \<noteq> maxsize t)\<rparr>"
  have c: "content ?t = content t" by (simp add: content_def)
  consider "newmax \<le> 0" | "0 < newmax" "newmax < maxsize t" | "0 < newmax" "maxsize t \<le> newmax"
    by linarith
  then show ?thesis
  proof cases
    case 1
    then show ?thesis
      by (simp add: set_maxsize_def ht_inv_def content_def fit_nonpos)
  next
    case 2
    with assms c have "\<exists>t'. shrink ?t = (t', None) \<and> content t' = fit newmax (content t) \<and>
        maxsize t' = newmax \<and> resized t' = (newmax \<noteq> maxsize t) \<and> ht_inv t'"
      using shrink_fit [of ?t] by (simp add: ht_inv_def)
    with 2 show ?thesis by (auto simp: set_maxsize_def)
  next
    case 3
    with assms have "fields_size (content t) \<le> newmax" by (auto simp: ht_inv_def)
    with 3 assms c show ?thesis
      by (auto simp: set_maxsize_def ht_inv_def fit_all)
  qed
qed

section \<open>The static mapping agrees with the static table\<close>

definition value_ok :: "(bytes \<times> bytes) list \<Rightarrow> bytes \<times> bytes \<Rightarrow> int option \<Rightarrow> bool" where
  "value_ok tab f oi =
     (case oi of
        None \<Rightarrow> f \<notin> set tab
      | Some i \<Rightarrow> 1 \<le> i \<and> i \<le> int (length tab) \<and> tab ! nat (i - 1) = f)"

definition mapping_entry_ok :: "(bytes \<times> bytes) list \<Rightarrow> bytes \<Rightarrow> int \<times> (bytes \<rightharpoonup> int) \<Rightarrow> bool" where
  "mapping_entry_ok tab n r \<longleftrightarrow>
     1 \<le> fst r \<and> fst r \<le> int (length tab) \<and> fst (tab ! nat (fst r - 1)) = n \<and>
     (\<forall>v. value_ok tab (n, v) (snd r v))"

definition mapping_ok :: "(bytes \<times> bytes) list \<Rightarrow> static_mapping \<Rightarrow> bool" where
  "mapping_ok tab m \<longleftrightarrow>
     (\<forall>n. case m n of None \<Rightarrow> n \<notin> fst ` set tab | Some r \<Rightarrow> mapping_entry_ok tab n r)"

lemma nth_append_index:
  "1 \<le> i \<Longrightarrow> i \<le> int (length xs) \<Longrightarrow> (xs @ ys) ! nat (i - 1) = xs ! nat (i - 1)"
  by (subst nth_append) (simp add: nat_less_iff)

lemma value_ok_other: "value_ok tab f oi \<Longrightarrow> f \<noteq> g \<Longrightarrow> value_ok (tab @ [g]) f oi"
  by (cases oi) (auto simp: value_ok_def nth_append_index)

lemma value_ok_last: "value_ok (tab @ [f]) f (Some (int (length tab) + 1))"
  by (simp add: value_ok_def)

lemma mapping_entry_other:
  assumes "mapping_entry_ok tab n r" and "n \<noteq> n'"
  shows "mapping_entry_ok (tab @ [(n', v)]) n r"
  using assms by (simp add: mapping_entry_ok_def nth_append_index value_ok_other)

lemma mapping_entry_update:
  assumes "mapping_entry_ok tab n r"
  shows "mapping_entry_ok (tab @ [(n, v)]) n (fst r, (snd r)(v \<mapsto> int (length tab) + 1))"
  using assms by (simp add: mapping_entry_ok_def nth_append_index value_ok_other value_ok_last)

lemma mapping_entry_new:
  assumes "n \<notin> fst ` set tab"
  shows "mapping_entry_ok (tab @ [(n, v)]) n (int (length tab) + 1, [v \<mapsto> int (length tab) + 1])"
  using assms by (force simp: mapping_entry_ok_def value_ok_def)

lemma mapping_ok_step:
  assumes ok: "mapping_ok tab m"
    and r: "r = (case m n of None \<Rightarrow> (int (length tab) + 1, Map.empty) | Some r \<Rightarrow> r)"
  shows "mapping_ok (tab @ [(n, v)]) (m(n \<mapsto> (fst r, (snd r)(v \<mapsto> int (length tab) + 1))))"
  unfolding mapping_ok_def
proof
  fix n'
  have old: "case m n' of None \<Rightarrow> n' \<notin> fst ` set tab | Some r \<Rightarrow> mapping_entry_ok tab n' r"
    using ok by (simp add: mapping_ok_def)
  show "case (m(n \<mapsto> (fst r, (snd r)(v \<mapsto> int (length tab) + 1)))) n' of
          None \<Rightarrow> n' \<notin> fst ` set (tab @ [(n, v)])
        | Some r \<Rightarrow> mapping_entry_ok (tab @ [(n, v)]) n' r"
  proof (cases "n' = n")
    case True
    with old r show ?thesis
      by (cases "m n") (auto simp: mapping_entry_new intro: mapping_entry_update)
  next
    case False
    with old show ?thesis
      by (auto simp: mapping_entry_other split: option.splits)
  qed
qed

lemma build_mapping_ok:
  "mapping_ok tab m \<Longrightarrow> index = int (length tab) + 1 \<Longrightarrow>
     mapping_ok (tab @ xs) (build_static_table_mapping index xs m)"
proof (induction xs arbitrary: tab m index)
  case (Cons x xs)
  obtain n v where x: "x = (n, v)" by (cases x)
  let ?r = "case m n of None \<Rightarrow> (index, Map.empty) | Some r \<Rightarrow> r"
  define m' where "m' = m(n \<mapsto> (fst ?r, (snd ?r)(v \<mapsto> index)))"
  have "mapping_ok (tab @ [(n, v)]) m'"
    unfolding m'_def Cons.prems(2) by (rule mapping_ok_step [OF Cons.prems(1) refl])
  from Cons.IH [OF this, of "index + 1"] Cons.prems(2)
  have "mapping_ok (tab @ x # xs) (build_static_table_mapping (index + 1) xs m')"
    by (simp add: x)
  then show ?case
    by (simp add: x case_prod_beta m'_def)
qed simp

lemma static_mapping_ok: "mapping_ok STATIC_TABLE STATIC_TABLE_MAPPING"
proof -
  have "mapping_ok [] Map.empty" by (simp add: mapping_ok_def)
  from build_mapping_ok [OF this, of 1 STATIC_TABLE] show ?thesis
    by (simp add: STATIC_TABLE_MAPPING_def)
qed

lemma static_mapping_None: "STATIC_TABLE_MAPPING n = None \<Longrightarrow> n \<notin> fst ` set STATIC_TABLE"
  using static_mapping_ok [unfolded mapping_ok_def, rule_format, of n] by simp

lemma static_mapping_Some:
  "STATIC_TABLE_MAPPING n = Some r \<Longrightarrow> mapping_entry_ok STATIC_TABLE n r"
  using static_mapping_ok [unfolded mapping_ok_def, rule_format, of n] by simp

section \<open>Searching and looking up\<close>

lemma STATIC_TABLE_LENGTH_eq: "STATIC_TABLE_LENGTH = 61"
  by (simp add: STATIC_TABLE_LENGTH_def STATIC_TABLE_def)

lemma get_static:
  "1 \<le> i \<Longrightarrow> i \<le> STATIC_TABLE_LENGTH \<Longrightarrow>
     get_by_index_raw t i =
       Inr (Some (PyBytes (fst (STATIC_TABLE ! nat (i - 1))), PyBytes (snd (STATIC_TABLE ! nat (i - 1)))))"
  by (simp add: get_by_index_raw_def STATIC_TABLE_LENGTH_def split: prod.split)

lemma get_dynamic:
  "j < length (dynamic_entries t) \<Longrightarrow>
     get_by_index_raw t (STATIC_TABLE_LENGTH + 1 + int j) = Inr (Some (dynamic_entries t ! j))"
  by (simp add: get_by_index_raw_def STATIC_TABLE_LENGTH_eq)

lemma search_dynamic_cases:
  "search_dynamic es i name val partial = r \<Longrightarrow>
     (\<exists>j < length es. r = Some (i + int j, fst (es ! j), Some (snd (es ! j))) \<and>
         raw_entry (es ! j) = (name, val))
   \<or> ((name, val) \<notin> raw_entry ` set es \<and>
       (if partial = None
        then (r = None \<and> (\<forall>e \<in> set es. raw (fst e) \<noteq> name)) \<or>
             (\<exists>j < length es. r = Some (i + int j, fst (es ! j), None) \<and> raw (fst (es ! j)) = name)
        else r = partial))"
proof (induction es arbitrary: i partial)
  case (Cons e es)
  obtain n v where e: "e = (n, v)" by (cases e)
  consider (hit) "raw n = name" "raw v = val" | (name) "raw n = name" "raw v \<noteq> val"
    | (other) "raw n \<noteq> name" by blast
  then show ?case
  proof cases
    case hit
    with Cons.prems e show ?thesis by (intro disjI1 exI [of _ 0]) simp
  next
    case name
    let ?p = "if partial = None then Some (i, n, None) else partial"
    from name Cons.prems e have "search_dynamic es (i + 1) name val ?p = r" by simp
    from Cons.IH [OF this] show ?thesis
    proof (elim disjE exE conjE)
      fix j assume "j < length es" "r = Some (i + 1 + int j, fst (es ! j), Some (snd (es ! j)))"
        "raw_entry (es ! j) = (name, val)"
      then show ?thesis by (intro disjI1 exI [of _ "Suc j"]) simp
    next
      assume "(name, val) \<notin> raw_entry ` set es"
        "if ?p = None then (r = None \<and> (\<forall>e \<in> set es. raw (fst e) \<noteq> name)) \<or>
             (\<exists>j < length es. r = Some (i + 1 + int j, fst (es ! j), None) \<and> raw (fst (es ! j)) = name)
        else r = ?p"
      with name e show ?thesis
        by (intro disjI2) (auto split: if_splits intro: exI [of _ 0])
    qed
  next
    case other
    with Cons.prems e have "search_dynamic es (i + 1) name val partial = r" by simp
    from Cons.IH [OF this] show ?thesis
    proof (elim disjE exE conjE)
      fix j assume "j < length es" "r = Some (i + 1 + int j, fst (es ! j), Some (snd (es ! j)))"
        "raw_entry (es ! j) = (name, val)"
      then show ?thesis by (intro disjI1 exI [of _ "Suc j"]) simp
    next
      assume "(name, val) \<notin> raw_entry ` set es"
        "if partial = None then (r = None \<and> (\<forall>e \<in> set es. raw (fst e) \<noteq> name)) \<or>
             (\<exists>j < length es. r = Some (i + 1 + int j, fst (es ! j), None) \<and> raw (fst (es ! j)) = name)
        else r = partial"
      with other e show ?thesis
        by (intro disjI2) (auto split: if_splits intro: exI [of _ "Suc j" for j])
    qed
  qed
qed auto

text \<open>
  What \<open>search\<close> answers, against what the index names: a perfect match is an index that
  \<open>get_by_index\<close> maps back to exactly the field, a partial match one that maps back to the
  name, and no match means that neither table has the name.
\<close>

definition index_names :: "header_table \<Rightarrow> int \<Rightarrow> (field \<Rightarrow> bool) \<Rightarrow> bool" where
  "index_names t i P \<longleftrightarrow>
     1 \<le> i \<and> (\<exists>e. get_by_index_raw t i = Inr (Some e) \<and> P (raw_entry e))"

lemma index_names_static:
  "1 \<le> i \<Longrightarrow> i \<le> STATIC_TABLE_LENGTH \<Longrightarrow> P (STATIC_TABLE ! nat (i - 1)) \<Longrightarrow> index_names t i P"
  by (simp add: index_names_def get_static)

lemma index_names_dynamic:
  "j < length (dynamic_entries t) \<Longrightarrow> P (raw_entry (dynamic_entries t ! j)) \<Longrightarrow>
     index_names t (STATIC_TABLE_LENGTH + 1 + int j) P"
  by (simp add: index_names_def get_dynamic) (simp add: STATIC_TABLE_LENGTH_def)

lemma table_search_spec:
  "case table_search t n v of
     None \<Rightarrow> n \<notin> fst ` (set STATIC_TABLE \<union> set (content t))
   | Some (i, n', None) \<Rightarrow>
       raw n' = n \<and> index_names t i (\<lambda>f. fst f = n) \<and> (n, v) \<notin> set STATIC_TABLE \<union> set (content t)
   | Some (i, n', Some v') \<Rightarrow> raw n' = n \<and> raw v' = v \<and> index_names t i (\<lambda>f. f = (n, v))"
proof -
  let ?off = "STATIC_TABLE_LENGTH + 1"
  let ?dyn = "search_dynamic (dynamic_entries t) ?off n v"
  show ?thesis
  proof (cases "STATIC_TABLE_MAPPING n")
    case None
    then have st: "n \<notin> fst ` set STATIC_TABLE" by (rule static_mapping_None)
    then have "(n, v) \<notin> set STATIC_TABLE" by force
    moreover have "table_search t n v = ?dyn None" using None by (simp add: table_search_def)
    moreover note search_dynamic_cases [of "dynamic_entries t" ?off n v None, OF refl]
    ultimately show ?thesis using st
      by (auto simp: content_def image_Un image_image intro!: index_names_dynamic)
  next
    case (Some r)
    then have ok: "mapping_entry_ok STATIC_TABLE n r" by (rule static_mapping_Some)
    then have vok: "value_ok STATIC_TABLE (n, v) (snd r v)" by (simp add: mapping_entry_ok_def)
    show ?thesis
    proof (cases "snd r v")
      case None
      with vok have "(n, v) \<notin> set STATIC_TABLE" by (simp add: value_ok_def)
      moreover have "index_names t (fst r) (\<lambda>f. fst f = n)"
        using ok by (auto simp: mapping_entry_ok_def STATIC_TABLE_LENGTH_def
            intro!: index_names_static)
      ultimately show ?thesis
        using Some None search_dynamic_cases [of "dynamic_entries t" ?off n v
            "Some (fst r, PyBytes n, None)", OF refl]
        by (auto simp: table_search_def content_def case_prod_beta intro!: index_names_dynamic)
    next
      case (Some i)
      with vok have "index_names t i (\<lambda>f. f = (n, v))"
        by (auto simp: value_ok_def STATIC_TABLE_LENGTH_def intro!: index_names_static)
      with Some \<open>STATIC_TABLE_MAPPING n = Some r\<close> show ?thesis
        by (simp add: table_search_def case_prod_beta)
    qed
  qed
qed

end
