(* ===== verification/Header_Store.thy ===== *)
theory Header_Store
  imports Header_Table
begin

text \<open>
  The interface between the HPACK header table and its two clients, the encoder and the
  decoder. Each side keeps a table of its own; what the protocol needs is that the two
  tables stay in step. The locale names the operations the clients call and the laws the
  table promises; \<open>sync\<close> is the relation the clients maintain.
\<close>

locale header_store =
  fixes inv :: "'t \<Rightarrow> bool"
    and fields :: "'t \<Rightarrow> field list"
    and capacity :: "'t \<Rightarrow> int"
    and field_of :: "'e \<Rightarrow> field"
    and lookup :: "'t \<Rightarrow> int \<Rightarrow> 'e option"
    and insert :: "'t \<Rightarrow> 'e \<Rightarrow> 't"
    and resize :: "'t \<Rightarrow> int \<Rightarrow> 't"
  assumes inv_insert: "inv t \<Longrightarrow> inv (insert t e)"
    and inv_resize: "inv t \<Longrightarrow> inv (resize t m)"
    and capacity_insert: "inv t \<Longrightarrow> capacity (insert t e) = capacity t"
    and capacity_resize: "inv t \<Longrightarrow> capacity (resize t m) = m"
    and fields_insert: "inv t \<Longrightarrow> fields (insert t e) = fit (capacity t) (field_of e # fields t)"
    and fields_resize: "inv t \<Longrightarrow> fields (resize t m) = fit m (fields t)"
    and lookup_fields: "inv t \<Longrightarrow> inv u \<Longrightarrow> fields t = fields u \<Longrightarrow>
          map_option field_of (lookup t i) = map_option field_of (lookup u i)"
begin

definition sync :: "'t \<Rightarrow> 't \<Rightarrow> bool" where
  "sync t u \<longleftrightarrow> inv t \<and> inv u \<and> fields t = fields u \<and> capacity t = capacity u"

lemma sync_insert:
  "sync t u \<Longrightarrow> field_of e = field_of e' \<Longrightarrow> sync (insert t e) (insert u e')"
  by (simp add: sync_def inv_insert capacity_insert fields_insert)

lemma sync_resize: "sync t u \<Longrightarrow> sync (resize t m) (resize u m)"
  by (simp add: sync_def inv_resize capacity_resize fields_resize)

lemma sync_lookup:
  "sync t u \<Longrightarrow> lookup t i = Some e \<Longrightarrow> \<exists>e'. lookup u i = Some e' \<and> field_of e' = field_of e"
  using lookup_fields [of t u i] by (cases "lookup u i") (auto simp: sync_def)

lemma fields_resize_same: "inv t \<Longrightarrow> fields_size (fields t) \<le> m \<Longrightarrow> fields (resize t m) = fields t"
  by (simp add: fields_resize fit_all)

end

section \<open>The header table is such a store\<close>

definition store_insert :: "header_table \<Rightarrow> entry \<Rightarrow> header_table" where
  "store_insert t e = fst (table_add t (fst e) (snd e))"

definition store_resize :: "header_table \<Rightarrow> int \<Rightarrow> header_table" where
  "store_resize t m = fst (set_maxsize t m)"

definition store_lookup :: "header_table \<Rightarrow> int \<Rightarrow> entry option" where
  "store_lookup t i = (case get_by_index_raw t i of Inl _ \<Rightarrow> None | Inr r \<Rightarrow> r)"

lemma store_lookup_content:
  assumes "content t = content u"
  shows "map_option raw_entry (store_lookup t i) = map_option raw_entry (store_lookup u i)"
proof (cases "i - 1 < STATIC_TABLE_LENGTH")
  case True
  then show ?thesis by (simp add: store_lookup_def get_by_index_raw_def)
next
  case False
  let ?j = "nat (i - 1 - STATIC_TABLE_LENGTH)"
  have len: "length (dynamic_entries t) = length (dynamic_entries u)"
    using assms unfolding content_def by (rule map_eq_imp_length_eq)
  have "raw_entry (dynamic_entries t ! ?j) = raw_entry (dynamic_entries u ! ?j)"
    if "?j < length (dynamic_entries t)"
    using assms that len by (metis content_def nth_map)
  with False len show ?thesis
    by (simp add: store_lookup_def get_by_index_raw_def nat_less_iff Let_def)
qed

lemma table_add_store: "ht_inv t \<Longrightarrow> table_add t n v = (store_insert t (n, v), None)"
  using table_add_fit [of t n v] by (auto simp: store_insert_def)

lemma set_maxsize_store: "ht_inv t \<Longrightarrow> set_maxsize t m = (store_resize t m, None)"
  using set_maxsize_fit [of t m] by (auto simp: store_resize_def)

interpretation hs: header_store ht_inv content maxsize raw_entry store_lookup store_insert store_resize
proof unfold_locales
  fix t e m
  assume inv: "ht_inv t"
  obtain t' where t': "table_add t (fst e) (snd e) = (t', None)" "ht_inv t'" "maxsize t' = maxsize t"
    "content t' = fit (maxsize t) (raw_entry e # content t)"
    using table_add_fit [OF inv, of "fst e" "snd e"] by (auto simp: raw_entry_def)
  then show "ht_inv (store_insert t e)" "maxsize (store_insert t e) = maxsize t"
    "content (store_insert t e) = fit (maxsize t) (raw_entry e # content t)"
    by (simp_all add: store_insert_def)
  obtain t' where "set_maxsize t m = (t', None)" "ht_inv t'" "maxsize t' = m"
    "content t' = fit m (content t)"
    using set_maxsize_fit [OF inv, of m] by auto
  then show "ht_inv (store_resize t m)" "maxsize (store_resize t m) = m"
    "content (store_resize t m) = fit m (content t)"
    by (simp_all add: store_resize_def)
qed (rule store_lookup_content)

end
