(* ===== verification/Huffman_Codes.thy ===== *)
theory Huffman_Codes
  imports Py_Prelude
begin

unbundle bit_operations_syntax

text \<open>
  The Huffman code of HPACK (\<open>core/engines/types/common/hpack/constants.py\<close>) and the
  encoder built on it (\<open>hpack/huffman_encoder.py\<close>). The encoder accumulates one big integer
  and prints it in hexadecimal; a hexadecimal string is the list of its digits' values,
  on which \<open>rstrip('L')\<close> has nothing to strip.
\<close>

section \<open>The code\<close>

definition REQUEST_CODES :: "nat list" where
  "REQUEST_CODES =
     [0x1ff8, 0x7fffd8, 0xfffffe2, 0xfffffe3, 0xfffffe4, 0xfffffe5, 0xfffffe6, 0xfffffe7,
      0xfffffe8, 0xffffea, 0x3ffffffc, 0xfffffe9, 0xfffffea, 0x3ffffffd, 0xfffffeb, 0xfffffec,
      0xfffffed, 0xfffffee, 0xfffffef, 0xffffff0, 0xffffff1, 0xffffff2, 0x3ffffffe, 0xffffff3,
      0xffffff4, 0xffffff5, 0xffffff6, 0xffffff7, 0xffffff8, 0xffffff9, 0xffffffa, 0xffffffb,
      0x14, 0x3f8, 0x3f9, 0xffa, 0x1ff9, 0x15, 0xf8, 0x7fa,
      0x3fa, 0x3fb, 0xf9, 0x7fb, 0xfa, 0x16, 0x17, 0x18,
      0x0, 0x1, 0x2, 0x19, 0x1a, 0x1b, 0x1c, 0x1d,
      0x1e, 0x1f, 0x5c, 0xfb, 0x7ffc, 0x20, 0xffb, 0x3fc,
      0x1ffa, 0x21, 0x5d, 0x5e, 0x5f, 0x60, 0x61, 0x62,
      0x63, 0x64, 0x65, 0x66, 0x67, 0x68, 0x69, 0x6a,
      0x6b, 0x6c, 0x6d, 0x6e, 0x6f, 0x70, 0x71, 0x72,
      0xfc, 0x73, 0xfd, 0x1ffb, 0x7fff0, 0x1ffc, 0x3ffc, 0x22,
      0x7ffd, 0x3, 0x23, 0x4, 0x24, 0x5, 0x25, 0x26,
      0x27, 0x6, 0x74, 0x75, 0x28, 0x29, 0x2a, 0x7,
      0x2b, 0x76, 0x2c, 0x8, 0x9, 0x2d, 0x77, 0x78,
      0x79, 0x7a, 0x7b, 0x7ffe, 0x7fc, 0x3ffd, 0x1ffd, 0xffffffc,
      0xfffe6, 0x3fffd2, 0xfffe7, 0xfffe8, 0x3fffd3, 0x3fffd4, 0x3fffd5, 0x7fffd9,
      0x3fffd6, 0x7fffda, 0x7fffdb, 0x7fffdc, 0x7fffdd, 0x7fffde, 0xffffeb, 0x7fffdf,
      0xffffec, 0xffffed, 0x3fffd7, 0x7fffe0, 0xffffee, 0x7fffe1, 0x7fffe2, 0x7fffe3,
      0x7fffe4, 0x1fffdc, 0x3fffd8, 0x7fffe5, 0x3fffd9, 0x7fffe6, 0x7fffe7, 0xffffef,
      0x3fffda, 0x1fffdd, 0xfffe9, 0x3fffdb, 0x3fffdc, 0x7fffe8, 0x7fffe9, 0x1fffde,
      0x7fffea, 0x3fffdd, 0x3fffde, 0xfffff0, 0x1fffdf, 0x3fffdf, 0x7fffeb, 0x7fffec,
      0x1fffe0, 0x1fffe1, 0x3fffe0, 0x1fffe2, 0x7fffed, 0x3fffe1, 0x7fffee, 0x7fffef,
      0xfffea, 0x3fffe2, 0x3fffe3, 0x3fffe4, 0x7ffff0, 0x3fffe5, 0x3fffe6, 0x7ffff1,
      0x3ffffe0, 0x3ffffe1, 0xfffeb, 0x7fff1, 0x3fffe7, 0x7ffff2, 0x3fffe8, 0x1ffffec,
      0x3ffffe2, 0x3ffffe3, 0x3ffffe4, 0x7ffffde, 0x7ffffdf, 0x3ffffe5, 0xfffff1, 0x1ffffed,
      0x7fff2, 0x1fffe3, 0x3ffffe6, 0x7ffffe0, 0x7ffffe1, 0x3ffffe7, 0x7ffffe2, 0xfffff2,
      0x1fffe4, 0x1fffe5, 0x3ffffe8, 0x3ffffe9, 0xffffffd, 0x7ffffe3, 0x7ffffe4, 0x7ffffe5,
      0xfffec, 0xfffff3, 0xfffed, 0x1fffe6, 0x3fffe9, 0x1fffe7, 0x1fffe8, 0x7ffff3,
      0x3fffea, 0x3fffeb, 0x1ffffee, 0x1ffffef, 0xfffff4, 0xfffff5, 0x3ffffea, 0x7ffff4,
      0x3ffffeb, 0x7ffffe6, 0x3ffffec, 0x3ffffed, 0x7ffffe7, 0x7ffffe8, 0x7ffffe9, 0x7ffffea,
      0x7ffffeb, 0xffffffe, 0x7ffffec, 0x7ffffed, 0x7ffffee, 0x7ffffef, 0x7fffff0, 0x3ffffee,
      0x3fffffff]"

definition REQUEST_CODES_LENGTH :: "nat list" where
  "REQUEST_CODES_LENGTH =
     [13, 23, 28, 28, 28, 28, 28, 28, 28, 24, 30, 28, 28, 30, 28, 28,
      28, 28, 28, 28, 28, 28, 30, 28, 28, 28, 28, 28, 28, 28, 28, 28,
      6, 10, 10, 12, 13, 6, 8, 11, 10, 10, 8, 11, 8, 6, 6, 6,
      5, 5, 5, 6, 6, 6, 6, 6, 6, 6, 7, 8, 15, 6, 12, 10,
      13, 6, 7, 7, 7, 7, 7, 7, 7, 7, 7, 7, 7, 7, 7, 7,
      7, 7, 7, 7, 7, 7, 7, 7, 8, 7, 8, 13, 19, 13, 14, 6,
      15, 5, 6, 5, 6, 5, 6, 6, 6, 5, 7, 7, 6, 6, 6, 5,
      6, 7, 6, 5, 5, 6, 7, 7, 7, 7, 7, 15, 11, 14, 13, 28,
      20, 22, 20, 20, 22, 22, 22, 23, 22, 23, 23, 23, 23, 23, 24, 23,
      24, 24, 22, 23, 24, 23, 23, 23, 23, 21, 22, 23, 22, 23, 23, 24,
      22, 21, 20, 22, 22, 23, 23, 21, 23, 22, 22, 24, 21, 22, 23, 23,
      21, 21, 22, 21, 23, 22, 23, 23, 20, 22, 22, 22, 23, 22, 22, 23,
      26, 26, 20, 19, 22, 23, 22, 25, 26, 26, 26, 27, 27, 26, 24, 25,
      19, 21, 26, 27, 27, 26, 27, 24, 21, 21, 26, 26, 28, 27, 27, 27,
      20, 24, 20, 21, 22, 21, 21, 23, 22, 22, 25, 25, 24, 24, 26, 23,
      26, 27, 26, 26, 27, 27, 27, 27, 27, 28, 27, 27, 27, 27, 27, 26,
      30]"

section \<open>The encoder\<close>

text \<open>One round of the \<open>for\<close> loop over \<open>(final_num, final_int_len)\<close>.\<close>

definition encode_byte :: "nat list \<Rightarrow> nat list \<Rightarrow> nat \<times> nat \<Rightarrow> byte \<Rightarrow> nat \<times> nat" where
  "encode_byte code_list lengths st b =
     (let (final_num, final_int_len) = st;
          bin_int_len = lengths ! unat b;
          bin_int = code_list ! unat b AND (2 ^ (bin_int_len + 1) - 1)
      in (push_bit bin_int_len final_num OR bin_int, final_int_len + bin_int_len))"

text \<open>\<open>hex(n)[2:]\<close>: the digits of \<open>n\<close>, with no leading zero but for 0 itself.\<close>

fun hex_digits :: "nat \<Rightarrow> nat list" where
  "hex_digits n = (if n < 16 then [n] else hex_digits (n div 16) @ [n mod 16])"

declare hex_digits.simps [simp del]

text \<open>\<open>bytes.fromhex\<close> raises \<open>ValueError\<close> on an odd number of digits.\<close>

fun bytes_fromhex :: "nat list \<Rightarrow> bytes res" where
  "bytes_fromhex [] = Inr []"
| "bytes_fromhex [d] = Inl ValueError"
| "bytes_fromhex (d # e # ds) =
     (case bytes_fromhex ds of Inl x \<Rightarrow> Inl x | Inr bs \<Rightarrow> Inr (word_of_nat (16 * d + e) # bs))"

definition huffman_encode :: "nat list \<Rightarrow> nat list \<Rightarrow> bytes \<Rightarrow> bytes res" where
  "huffman_encode code_list lengths bytes_to_encode =
     (if bytes_to_encode = [] then Inr []
      else
        (let (final_num, final_int_len) = foldl (encode_byte code_list lengths) (0, 0) bytes_to_encode;
             bits_to_be_padded = (8 - (final_int_len mod 8)) mod 8;
             final_num = push_bit bits_to_be_padded final_num OR (push_bit bits_to_be_padded 1 - 1);
             digits = hex_digits final_num;
             digits = (if length digits mod 2 \<noteq> 0 then 0 # digits else digits);
             total_bytes = (final_int_len + bits_to_be_padded) div 8;
             expected_digits = total_bytes * 2;
             digits = (if length digits \<noteq> expected_digits
                       then replicate (expected_digits - length digits) 0 @ digits else digits)
         in bytes_fromhex digits))"

section \<open>Numbers as bit strings\<close>

fun nat_bits :: "nat \<Rightarrow> nat \<Rightarrow> bool list" where
  "nat_bits 0 v = []"
| "nat_bits (Suc n) v = nat_bits n (v div 2) @ [odd v]"

definition bits_nat :: "bool list \<Rightarrow> nat" where
  "bits_nat bs = foldl (\<lambda>a b. a * 2 + of_bool b) 0 bs"

lemma length_nat_bits [simp]: "length (nat_bits n v) = n"
  by (induction n arbitrary: v) auto

lemma bits_nat_Nil [simp]: "bits_nat [] = 0"
  by (simp add: bits_nat_def)

lemma bits_nat_snoc [simp]: "bits_nat (bs @ [b]) = bits_nat bs * 2 + of_bool b"
  by (simp add: bits_nat_def)

lemma nat_bits_bits_nat [simp]: "nat_bits (length bs) (bits_nat bs) = bs"
  by (induction bs rule: rev_induct) auto

lemma bits_nat_append: "bits_nat (as @ bs) = bits_nat as * 2 ^ length bs + bits_nat bs"
proof (induction bs rule: rev_induct)
  case (snoc b bs)
  have "bits_nat (as @ bs @ [b]) = bits_nat (as @ bs) * 2 + of_bool b"
    using bits_nat_snoc [of "as @ bs" b] by simp
  with snoc show ?case by (simp add: algebra_simps)
qed simp

lemma bits_nat_bound: "bits_nat bs < 2 ^ length bs"
  by (induction bs rule: rev_induct) auto

lemma bits_nat_nat_bits: "v < 2 ^ n \<Longrightarrow> bits_nat (nat_bits n v) = v"
proof (induction n arbitrary: v)
  case (Suc n)
  then have "v div 2 < 2 ^ n" by auto
  with Suc.IH have "bits_nat (nat_bits (Suc n) v) = v div 2 * 2 + of_bool (odd v)" by simp
  also have "of_bool (odd v) = v mod 2" by (simp add: mod_2_eq_odd)
  finally show ?case by simp
qed simp

lemma bits_nat_inject: "length as = length bs \<Longrightarrow> bits_nat as = bits_nat bs \<Longrightarrow> as = bs"
  by (metis nat_bits_bits_nat)

lemma nat_bits_append:
  assumes "x < 2 ^ a" "y < 2 ^ b"
  shows "nat_bits (a + b) (x * 2 ^ b + y) = nat_bits a x @ nat_bits b y"
proof (rule bits_nat_inject)
  have "x * 2 ^ b + y < (x + 1) * 2 ^ b" using assms(2) by simp
  also have "\<dots> \<le> 2 ^ a * 2 ^ b" using assms(1) by (intro mult_le_mono1) simp
  finally have "x * 2 ^ b + y < 2 ^ (a + b)" by (simp add: power_add)
  with assms show "bits_nat (nat_bits (a + b) (x * 2 ^ b + y)) = bits_nat (nat_bits a x @ nat_bits b y)"
    by (simp add: bits_nat_append bits_nat_nat_bits)
qed simp

lemma nat_bits_ones: "nat_bits n (2 ^ n - 1) = replicate n True"
proof (rule bits_nat_inject)
  have "bits_nat (replicate n True) = 2 ^ n - 1"
  proof (induction n)
    case (Suc n)
    have "replicate (Suc n) True = replicate n True @ [True]"
      by (simp add: replicate_append_same)
    moreover have "(1::nat) \<le> 2 ^ n" by simp
    ultimately show ?case using Suc bits_nat_snoc [of "replicate n True" True]
      by (simp only: power_Suc of_bool_eq)
  qed simp
  then show "bits_nat (nat_bits n (2 ^ n - 1)) = bits_nat (replicate n True)"
    by (simp add: bits_nat_nat_bits)
qed simp

lemma push_or_nat:
  assumes "y < 2 ^ n"
  shows "push_bit n x OR y = x * 2 ^ n + (y :: nat)"
proof -
  from assms have "take_bit n y = y" by (simp add: take_bit_nat_eq_self)
  moreover have "push_bit n x AND take_bit n y = 0"
    by (auto simp: bit_eq_iff bit_simps)
  ultimately have "push_bit n x AND y = 0" by simp
  then show ?thesis by (simp add: push_bit_eq_mult flip: disjunctive_add_eq_or)
qed

section \<open>What the encoder emits\<close>

text \<open>The code of one byte, the code of a string, and the bits of a byte string.\<close>

definition code_bits :: "nat \<Rightarrow> bool list" where
  "code_bits k = nat_bits (REQUEST_CODES_LENGTH ! k) (REQUEST_CODES ! k)"

definition codes_bits :: "bytes \<Rightarrow> bool list" where
  "codes_bits xs = concat (map (\<lambda>b. code_bits (unat b)) xs)"

definition bits_of_bytes :: "bytes \<Rightarrow> bool list" where
  "bits_of_bytes bs = concat (map (\<lambda>b. nat_bits 8 (unat b)) bs)"

definition pad_length_of :: "nat \<Rightarrow> nat" where
  "pad_length_of n = (8 - n mod 8) mod 8"

lemma code_tables_length: "length REQUEST_CODES = 257" "length REQUEST_CODES_LENGTH = 257"
  by (simp_all add: REQUEST_CODES_def REQUEST_CODES_LENGTH_def)

text \<open>Every code fits its length.\<close>

lemma code_fits_all: "list_all2 (\<lambda>c l. c < 2 ^ l) REQUEST_CODES REQUEST_CODES_LENGTH"
  by (simp add: REQUEST_CODES_def REQUEST_CODES_LENGTH_def)

lemma code_fits: "k < 257 \<Longrightarrow> REQUEST_CODES ! k < 2 ^ (REQUEST_CODES_LENGTH ! k)"
  using code_fits_all by (simp add: list_all2_conv_all_nth code_tables_length)

lemma unat_lt_257 [simp]: "unat (b :: byte) < 257"
  using unat_byte_less [of b] by linarith

lemma foldl_encode_byte:
  "foldl (encode_byte REQUEST_CODES REQUEST_CODES_LENGTH) (0, 0) xs =
     (bits_nat (codes_bits xs), length (codes_bits xs))"
proof (induction xs rule: rev_induct)
  case (snoc b xs)
  let ?c = "REQUEST_CODES ! unat b" and ?l = "REQUEST_CODES_LENGTH ! unat b"
  have c: "?c < 2 ^ ?l" by (rule code_fits) simp
  then have "take_bit (?l + 1) ?c = ?c" by (intro take_bit_nat_eq_self) simp
  then have "?c AND (2 ^ (?l + 1) - 1) = ?c"
    by (simp only: take_bit_eq_mask mask_eq_exp_minus_1)
  with c have "encode_byte REQUEST_CODES REQUEST_CODES_LENGTH
      (bits_nat (codes_bits xs), length (codes_bits xs)) b =
      (bits_nat (codes_bits xs) * 2 ^ ?l + ?c, length (codes_bits xs) + ?l)"
    by (simp add: encode_byte_def push_or_nat Let_def)
  moreover have "codes_bits (xs @ [b]) = codes_bits xs @ nat_bits ?l ?c"
    by (simp add: codes_bits_def code_bits_def)
  ultimately show ?case
    using snoc c by (simp add: bits_nat_append bits_nat_nat_bits)
qed (simp add: codes_bits_def)

text \<open>Hexadecimal digits and the bytes they make.\<close>

definition hex_value :: "nat list \<Rightarrow> nat" where
  "hex_value ds = foldl (\<lambda>a d. a * 16 + d) 0 ds"

lemma hex_value_snoc [simp]: "hex_value [] = 0" "hex_value (ds @ [d]) = hex_value ds * 16 + d"
  by (simp_all add: hex_value_def)

lemma hex_value_append: "hex_value (as @ bs) = hex_value as * 16 ^ length bs + hex_value bs"
proof (induction bs rule: rev_induct)
  case (snoc d ds)
  then show ?case using hex_value_snoc(2) [of "as @ ds" d] by (simp add: algebra_simps)
qed simp

lemma hex_value_zeros [simp]: "hex_value (replicate n 0) = 0"
  by (induction n) (simp_all add: hex_value_def)

lemma hex_value_0_Cons [simp]: "hex_value (0 # ds) = hex_value ds"
  by (simp add: hex_value_def)

lemma hex_digits_value: "hex_value (hex_digits n) = n"
proof (induction n rule: hex_digits.induct)
  case (1 n)
  show ?case
  proof (cases "n < 16")
    case True
    then show ?thesis by (simp add: hex_digits.simps hex_value_def)
  next
    case False
    with 1 show ?thesis by (subst hex_digits.simps) simp
  qed
qed

lemma hex_digits_small: "\<forall>d \<in> set (hex_digits n). d < 16"
proof (induction n rule: hex_digits.induct)
  case (1 n)
  then show ?case by (subst hex_digits.simps) auto
qed

lemma hex_digits_length: "n < 16 ^ k \<Longrightarrow> 0 < k \<Longrightarrow> length (hex_digits n) \<le> k"
proof (induction n arbitrary: k rule: hex_digits.induct)
  case (1 n)
  show ?case
  proof (cases "n < 16")
    case True
    with 1 show ?thesis by (simp add: hex_digits.simps)
  next
    case False
    with 1 obtain j where k: "k = Suc j" "0 < j" by (cases k; cases "k - 1"; auto)
    with 1 False have "length (hex_digits (n div 16)) \<le> j"
      by (simp add: less_mult_imp_div_less mult.commute)
    with False k show ?thesis by (subst hex_digits.simps) simp
  qed
qed

lemma be_value_Cons: "be_value (b # bs) = unat b * 256 ^ length bs + be_value bs"
proof (induction bs rule: rev_induct)
  case (snoc c bs)
  have "be_value (b # bs @ [c]) = be_value (b # bs) * 256 + unat c"
    using be_value_snoc [of "b # bs" c] by simp
  also have "\<dots> = unat b * 256 ^ length (bs @ [c]) + be_value (bs @ [c])"
    using snoc by (simp add: algebra_simps)
  finally show ?case .
qed (simp add: be_value_def)

lemma bytes_fromhex_ok:
  assumes "even (length ds)" "\<forall>d \<in> set ds. d < 16"
  shows "\<exists>bs. bytes_fromhex ds = Inr bs \<and> length bs * 2 = length ds \<and> be_value bs = hex_value ds"
  using assms
proof (induction ds rule: bytes_fromhex.induct)
  case (3 d e ds)
  then obtain bs where bs: "bytes_fromhex ds = Inr bs" "length bs * 2 = length ds"
    "be_value bs = hex_value ds" by auto
  have "hex_value ([d, e] @ ds) = (16 * d + e) * 256 ^ length bs + hex_value ds"
  proof -
    have "(16::nat) ^ length ds = 256 ^ length bs"
      by (simp add: mult.commute [of _ 2] power_mult flip: bs(2))
    then show ?thesis unfolding hex_value_append by (simp add: hex_value_def)
  qed
  moreover have "unat (word_of_nat (16 * d + e) :: byte) = 16 * d + e"
    using "3.prems" by (intro unat_word_of_nat_byte) auto
  ultimately show ?case using bs
    by (simp add: be_value_Cons del: of_nat_add of_nat_mult of_nat_numeral)
qed auto

lemma be_value_unique:
  "length as = length bs \<Longrightarrow> be_value as = be_value bs \<Longrightarrow> as = bs"
  by (metis be_bytes_be_value)

lemma bits_of_bytes_simps [simp]:
  "bits_of_bytes [] = []"
  "bits_of_bytes (b # bs) = nat_bits 8 (unat b) @ bits_of_bytes bs"
  "bits_of_bytes (as @ bs) = bits_of_bytes as @ bits_of_bytes bs"
  by (simp_all add: bits_of_bytes_def)

lemma length_bits_of_bytes [simp]: "length (bits_of_bytes bs) = 8 * length bs"
  by (induction bs) auto

lemma bits_nat_bits_of_bytes: "bits_nat (bits_of_bytes bs) = be_value bs"
proof (induction bs)
  case (Cons b bs)
  have "(2::nat) ^ (8 * length bs) = 256 ^ length bs" by (simp add: power_mult)
  with Cons show ?case
    by (simp add: bits_nat_append bits_nat_nat_bits be_value_Cons)
qed simp

lemma pad_length_of_dvd: "8 dvd n + pad_length_of n"
proof (cases "n mod 8 = 0")
  case False
  have "n mod 8 < 8" by simp
  with False have "pad_length_of n = 8 - n mod 8" by (simp add: pad_length_of_def)
  then have "n + pad_length_of n = 8 * (n div 8) + 8"
    using div_mult_mod_eq [of n 8] \<open>n mod 8 < 8\<close> by linarith
  then show ?thesis by simp
qed (simp add: pad_length_of_def mod_eq_0_iff_dvd)

lemma codes_bits_nonempty: "xs \<noteq> [] \<Longrightarrow> codes_bits xs \<noteq> []"
proof -
  have "list_all (\<lambda>l. 0 < l) REQUEST_CODES_LENGTH" by (simp add: REQUEST_CODES_LENGTH_def)
  then have "0 < REQUEST_CODES_LENGTH ! unat b" for b :: byte
    unfolding list_all_length code_tables_length by simp
  then have "code_bits (unat b) \<noteq> []" for b :: byte
    by (simp add: code_bits_def flip: length_greater_0_conv)
  then show "xs \<noteq> [] \<Longrightarrow> codes_bits xs \<noteq> []"
    by (cases xs) (simp_all add: codes_bits_def)
qed

text \<open>
  The encoder never raises, and the bits of what it returns are the codes of the bytes in
  order, padded with ones to a whole number of octets.
\<close>

lemma huffman_encode_bits:
  "\<exists>bs. huffman_encode REQUEST_CODES REQUEST_CODES_LENGTH xs = Inr bs \<and>
     bits_of_bytes bs =
       codes_bits xs @ replicate (pad_length_of (length (codes_bits xs))) True"
proof (cases "xs = []")
  case True
  then show ?thesis by (simp add: huffman_encode_def codes_bits_def pad_length_of_def)
next
  case False
  let ?cs = "codes_bits xs"
  define p where "p = pad_length_of (length ?cs)"
  define t where "t = (length ?cs + p) div 8"
  define stream where "stream = ?cs @ replicate p True"
  have len: "length stream = 8 * t"
    using pad_length_of_dvd [of "length ?cs"] by (simp add: stream_def t_def p_def)
  have t: "0 < t" using codes_bits_nonempty [OF False] len by (cases t) (auto simp: stream_def)
  have num: "push_bit p (bits_nat ?cs) OR (push_bit p 1 - 1) = bits_nat stream"
    using push_or_nat [of "2 ^ p - 1" p "bits_nat ?cs"]
    by (simp add: stream_def bits_nat_append push_bit_eq_mult bits_nat_nat_bits
        flip: nat_bits_ones)
  define ds where "ds = hex_digits (bits_nat stream)"
  define ds1 where "ds1 = (if length ds mod 2 \<noteq> 0 then 0 # ds else ds)"
  define ds2 where "ds2 = (if length ds1 \<noteq> t * 2 then replicate (t * 2 - length ds1) 0 @ ds1 else ds1)"
  have "(2::nat) ^ (8 * t) = 16 ^ (t * 2)"
    unfolding mult.commute [of t 2] power_mult by simp
  then have "bits_nat stream < 16 ^ (t * 2)"
    using bits_nat_bound [of stream] by (simp only: len)
  then have "length ds \<le> t * 2" using t hex_digits_length [of _ "t * 2"] by (simp add: ds_def)
  then have "length ds1 \<le> t * 2" 
    by (cases "length ds = t * 2") (auto simp: ds1_def)
  then have l2: "length ds2 = t * 2" by (simp add: ds2_def)
  have "hex_value ds1 = bits_nat stream" by (simp add: ds1_def ds_def hex_digits_value)
  then have v2: "hex_value ds2 = bits_nat stream" by (simp add: ds2_def hex_value_append)
  have "\<forall>d \<in> set ds2. d < 16" using hex_digits_small [of "bits_nat stream"]
    by (auto simp: ds2_def ds1_def ds_def)
  then obtain bs where bs: "bytes_fromhex ds2 = Inr bs" "length bs = t" "be_value bs = bits_nat stream"
    using bytes_fromhex_ok [of ds2] l2 v2 by auto
  have "huffman_encode REQUEST_CODES REQUEST_CODES_LENGTH xs = bytes_fromhex ds2"
    using False unfolding huffman_encode_def foldl_encode_byte
    by (simp only: Let_def prod.case if_False num ds2_def ds1_def ds_def t_def
        flip: pad_length_of_def p_def)
  moreover have "bits_of_bytes bs = stream"
    by (rule bits_nat_inject) (simp_all add: bits_nat_bits_of_bytes bs len)
  ultimately show ?thesis using bs by (simp add: stream_def p_def)
qed

end
