(* ===== verification/Huffman_Paths.thy ===== *)
theory Huffman_Paths
  imports Huffman_Codes
begin

unbundle bit_operations_syntax

text \<open>
  Proof data for the nibble automaton of \<open>hpack/huffman_table.py\<close>. State \<open>s\<close> of the table
  stands for the bits read since the last complete code: a path of \<open>node_path_len ! s\<close> bits
  with the value \<open>node_path_val ! s\<close>. An entry of the table is right (\<open>entry_ok\<close>) when reading
  its nibble after the path of its node gives the code of the emitted byte, if any,
  followed by the path of the next state; a failing entry is one that completes the code of
  the end-of-string symbol 256. The collection \<open>huffman_lookup\<close> has the table look-ups as
  rewrite rules.
\<close>

named_theorems huffman_lookup \<open>look-ups in the constant tables\<close>

definition node_path_len :: "nat list" where
  "node_path_len =
     [0, 1, 2, 3, 4, 4, 3, 4, 4, 2, 3, 4, 4, 5, 5, 3,
      4, 5, 5, 4, 5, 5, 1, 2, 3, 4, 5, 5, 4, 5, 5, 3,
      4, 5, 5, 4, 5, 5, 6, 6, 2, 3, 4, 5, 6, 6, 5, 6,
      6, 4, 5, 6, 6, 5, 6, 6, 3, 4, 5, 6, 6, 5, 6, 6,
      4, 5, 6, 6, 5, 6, 7, 7, 6, 7, 7, 8, 9, 9, 8, 9,
      10, 9, 10, 11, 10, 11, 12, 12, 11, 12, 12, 13, 13, 14, 14, 15,
      16, 17, 18, 18, 19, 17, 18, 19, 19, 18, 19, 19, 20, 20, 16, 17,
      18, 19, 20, 20, 19, 20, 20, 18, 19, 20, 21, 20, 21, 21, 19, 20,
      21, 21, 20, 21, 21, 17, 18, 19, 20, 21, 21, 20, 21, 21, 19, 20,
      21, 21, 20, 21, 22, 22, 21, 22, 22, 18, 19, 20, 21, 22, 22, 21,
      22, 22, 20, 21, 22, 22, 21, 22, 22, 19, 20, 21, 22, 22, 21, 22,
      23, 22, 23, 23, 20, 21, 22, 23, 23, 22, 23, 23, 24, 24, 21, 22,
      23, 24, 25, 25, 24, 25, 25, 23, 24, 25, 25, 24, 25, 25, 26, 22,
      23, 24, 25, 26, 26, 25, 26, 26, 24, 25, 26, 26, 25, 26, 26, 23,
      24, 25, 26, 27, 26, 27, 27, 25, 26, 27, 27, 26, 27, 27, 24, 25,
      26, 27, 27, 26, 27, 27, 25, 26, 27, 27, 26, 27, 27, 28, 29, 29]"

definition node_path_val :: "nat list" where
  "node_path_val =
     [0, 0, 0, 0, 0, 1, 1, 2, 3, 1,
      2, 4, 5, 10, 11, 3, 6, 12, 13, 7,
      14, 15, 1, 2, 4, 8, 16, 17, 9, 18,
      19, 5, 10, 20, 21, 11, 22, 23, 46, 47,
      3, 6, 12, 24, 48, 49, 25, 50, 51, 13,
      26, 52, 53, 27, 54, 55, 7, 14, 28, 56,
      57, 29, 58, 59, 15, 30, 60, 61, 31, 62,
      124, 125, 63, 126, 127, 254, 508, 509, 255, 510,
      1021, 511, 1022, 2045, 1023, 2046, 4092, 4093, 2047, 4094,
      4095, 8190, 8191, 16382, 16383, 32767, 65534, 131068, 262136, 262137,
      524275, 131069, 262138, 524276, 524277, 262139, 524278, 524279, 1048558, 1048559,
      65535, 131070, 262140, 524280, 1048560, 1048561, 524281, 1048562, 1048563, 262141,
      524282, 1048564, 2097129, 1048565, 2097130, 2097131, 524283, 1048566, 2097132, 2097133,
      1048567, 2097134, 2097135, 131071, 262142, 524284, 1048568, 2097136, 2097137, 1048569,
      2097138, 2097139, 524285, 1048570, 2097140, 2097141, 1048571, 2097142, 4194284, 4194285,
      2097143, 4194286, 4194287, 262143, 524286, 1048572, 2097144, 4194288, 4194289, 2097145,
      4194290, 4194291, 1048573, 2097146, 4194292, 4194293, 2097147, 4194294, 4194295, 524287,
      1048574, 2097148, 4194296, 4194297, 2097149, 4194298, 8388597, 4194299, 8388598, 8388599,
      1048575, 2097150, 4194300, 8388600, 8388601, 4194301, 8388602, 8388603, 16777206, 16777207,
      2097151, 4194302, 8388604, 16777208, 33554416, 33554417, 16777209, 33554418, 33554419, 8388605,
      16777210, 33554420, 33554421, 16777211, 33554422, 33554423, 67108847, 4194303, 8388606, 16777212,
      33554424, 67108848, 67108849, 33554425, 67108850, 67108851, 16777213, 33554426, 67108852, 67108853,
      33554427, 67108854, 67108855, 8388607, 16777214, 33554428, 67108856, 134217713, 67108857, 134217714,
      134217715, 33554429, 67108858, 134217716, 134217717, 67108859, 134217718, 134217719, 16777215, 33554430,
      67108860, 134217720, 134217721, 67108861, 134217722, 134217723, 33554431, 67108862, 134217724, 134217725,
      67108863, 134217726, 134217727, 268435455, 536870910, 536870911]"

lemma path_len_lookup [huffman_lookup]:
  "node_path_len ! 0 = 0" "node_path_len ! 1 = 1" "node_path_len ! 2 = 2"
  "node_path_len ! 3 = 3" "node_path_len ! 4 = 4" "node_path_len ! 5 = 4"
  "node_path_len ! 6 = 3" "node_path_len ! 7 = 4" "node_path_len ! 8 = 4"
  "node_path_len ! 9 = 2" "node_path_len ! 10 = 3" "node_path_len ! 11 = 4"
  "node_path_len ! 12 = 4" "node_path_len ! 13 = 5" "node_path_len ! 14 = 5"
  "node_path_len ! 15 = 3" "node_path_len ! 16 = 4" "node_path_len ! 17 = 5"
  "node_path_len ! 18 = 5" "node_path_len ! 19 = 4" "node_path_len ! 20 = 5"
  "node_path_len ! 21 = 5" "node_path_len ! 22 = 1" "node_path_len ! 23 = 2"
  "node_path_len ! 24 = 3" "node_path_len ! 25 = 4" "node_path_len ! 26 = 5"
  "node_path_len ! 27 = 5" "node_path_len ! 28 = 4" "node_path_len ! 29 = 5"
  "node_path_len ! 30 = 5" "node_path_len ! 31 = 3" "node_path_len ! 32 = 4"
  "node_path_len ! 33 = 5" "node_path_len ! 34 = 5" "node_path_len ! 35 = 4"
  "node_path_len ! 36 = 5" "node_path_len ! 37 = 5" "node_path_len ! 38 = 6"
  "node_path_len ! 39 = 6" "node_path_len ! 40 = 2" "node_path_len ! 41 = 3"
  "node_path_len ! 42 = 4" "node_path_len ! 43 = 5" "node_path_len ! 44 = 6"
  "node_path_len ! 45 = 6" "node_path_len ! 46 = 5" "node_path_len ! 47 = 6"
  "node_path_len ! 48 = 6" "node_path_len ! 49 = 4" "node_path_len ! 50 = 5"
  "node_path_len ! 51 = 6" "node_path_len ! 52 = 6" "node_path_len ! 53 = 5"
  "node_path_len ! 54 = 6" "node_path_len ! 55 = 6" "node_path_len ! 56 = 3"
  "node_path_len ! 57 = 4" "node_path_len ! 58 = 5" "node_path_len ! 59 = 6"
  "node_path_len ! 60 = 6" "node_path_len ! 61 = 5" "node_path_len ! 62 = 6"
  "node_path_len ! 63 = 6" "node_path_len ! 64 = 4" "node_path_len ! 65 = 5"
  "node_path_len ! 66 = 6" "node_path_len ! 67 = 6" "node_path_len ! 68 = 5"
  "node_path_len ! 69 = 6" "node_path_len ! 70 = 7" "node_path_len ! 71 = 7"
  "node_path_len ! 72 = 6" "node_path_len ! 73 = 7" "node_path_len ! 74 = 7"
  "node_path_len ! 75 = 8" "node_path_len ! 76 = 9" "node_path_len ! 77 = 9"
  "node_path_len ! 78 = 8" "node_path_len ! 79 = 9" "node_path_len ! 80 = 10"
  "node_path_len ! 81 = 9" "node_path_len ! 82 = 10" "node_path_len ! 83 = 11"
  "node_path_len ! 84 = 10" "node_path_len ! 85 = 11" "node_path_len ! 86 = 12"
  "node_path_len ! 87 = 12" "node_path_len ! 88 = 11" "node_path_len ! 89 = 12"
  "node_path_len ! 90 = 12" "node_path_len ! 91 = 13" "node_path_len ! 92 = 13"
  "node_path_len ! 93 = 14" "node_path_len ! 94 = 14" "node_path_len ! 95 = 15"
  "node_path_len ! 96 = 16" "node_path_len ! 97 = 17" "node_path_len ! 98 = 18"
  "node_path_len ! 99 = 18" "node_path_len ! 100 = 19" "node_path_len ! 101 = 17"
  "node_path_len ! 102 = 18" "node_path_len ! 103 = 19" "node_path_len ! 104 = 19"
  "node_path_len ! 105 = 18" "node_path_len ! 106 = 19" "node_path_len ! 107 = 19"
  "node_path_len ! 108 = 20" "node_path_len ! 109 = 20" "node_path_len ! 110 = 16"
  "node_path_len ! 111 = 17" "node_path_len ! 112 = 18" "node_path_len ! 113 = 19"
  "node_path_len ! 114 = 20" "node_path_len ! 115 = 20" "node_path_len ! 116 = 19"
  "node_path_len ! 117 = 20" "node_path_len ! 118 = 20" "node_path_len ! 119 = 18"
  "node_path_len ! 120 = 19" "node_path_len ! 121 = 20" "node_path_len ! 122 = 21"
  "node_path_len ! 123 = 20" "node_path_len ! 124 = 21" "node_path_len ! 125 = 21"
  "node_path_len ! 126 = 19" "node_path_len ! 127 = 20" "node_path_len ! 128 = 21"
  "node_path_len ! 129 = 21" "node_path_len ! 130 = 20" "node_path_len ! 131 = 21"
  "node_path_len ! 132 = 21" "node_path_len ! 133 = 17" "node_path_len ! 134 = 18"
  "node_path_len ! 135 = 19" "node_path_len ! 136 = 20" "node_path_len ! 137 = 21"
  "node_path_len ! 138 = 21" "node_path_len ! 139 = 20" "node_path_len ! 140 = 21"
  "node_path_len ! 141 = 21" "node_path_len ! 142 = 19" "node_path_len ! 143 = 20"
  "node_path_len ! 144 = 21" "node_path_len ! 145 = 21" "node_path_len ! 146 = 20"
  "node_path_len ! 147 = 21" "node_path_len ! 148 = 22" "node_path_len ! 149 = 22"
  "node_path_len ! 150 = 21" "node_path_len ! 151 = 22" "node_path_len ! 152 = 22"
  "node_path_len ! 153 = 18" "node_path_len ! 154 = 19" "node_path_len ! 155 = 20"
  "node_path_len ! 156 = 21" "node_path_len ! 157 = 22" "node_path_len ! 158 = 22"
  "node_path_len ! 159 = 21" "node_path_len ! 160 = 22" "node_path_len ! 161 = 22"
  "node_path_len ! 162 = 20" "node_path_len ! 163 = 21" "node_path_len ! 164 = 22"
  "node_path_len ! 165 = 22" "node_path_len ! 166 = 21" "node_path_len ! 167 = 22"
  "node_path_len ! 168 = 22" "node_path_len ! 169 = 19" "node_path_len ! 170 = 20"
  "node_path_len ! 171 = 21" "node_path_len ! 172 = 22" "node_path_len ! 173 = 22"
  "node_path_len ! 174 = 21" "node_path_len ! 175 = 22" "node_path_len ! 176 = 23"
  "node_path_len ! 177 = 22" "node_path_len ! 178 = 23" "node_path_len ! 179 = 23"
  "node_path_len ! 180 = 20" "node_path_len ! 181 = 21" "node_path_len ! 182 = 22"
  "node_path_len ! 183 = 23" "node_path_len ! 184 = 23" "node_path_len ! 185 = 22"
  "node_path_len ! 186 = 23" "node_path_len ! 187 = 23" "node_path_len ! 188 = 24"
  "node_path_len ! 189 = 24" "node_path_len ! 190 = 21" "node_path_len ! 191 = 22"
  "node_path_len ! 192 = 23" "node_path_len ! 193 = 24" "node_path_len ! 194 = 25"
  "node_path_len ! 195 = 25" "node_path_len ! 196 = 24" "node_path_len ! 197 = 25"
  "node_path_len ! 198 = 25" "node_path_len ! 199 = 23" "node_path_len ! 200 = 24"
  "node_path_len ! 201 = 25" "node_path_len ! 202 = 25" "node_path_len ! 203 = 24"
  "node_path_len ! 204 = 25" "node_path_len ! 205 = 25" "node_path_len ! 206 = 26"
  "node_path_len ! 207 = 22" "node_path_len ! 208 = 23" "node_path_len ! 209 = 24"
  "node_path_len ! 210 = 25" "node_path_len ! 211 = 26" "node_path_len ! 212 = 26"
  "node_path_len ! 213 = 25" "node_path_len ! 214 = 26" "node_path_len ! 215 = 26"
  "node_path_len ! 216 = 24" "node_path_len ! 217 = 25" "node_path_len ! 218 = 26"
  "node_path_len ! 219 = 26" "node_path_len ! 220 = 25" "node_path_len ! 221 = 26"
  "node_path_len ! 222 = 26" "node_path_len ! 223 = 23" "node_path_len ! 224 = 24"
  "node_path_len ! 225 = 25" "node_path_len ! 226 = 26" "node_path_len ! 227 = 27"
  "node_path_len ! 228 = 26" "node_path_len ! 229 = 27" "node_path_len ! 230 = 27"
  "node_path_len ! 231 = 25" "node_path_len ! 232 = 26" "node_path_len ! 233 = 27"
  "node_path_len ! 234 = 27" "node_path_len ! 235 = 26" "node_path_len ! 236 = 27"
  "node_path_len ! 237 = 27" "node_path_len ! 238 = 24" "node_path_len ! 239 = 25"
  "node_path_len ! 240 = 26" "node_path_len ! 241 = 27" "node_path_len ! 242 = 27"
  "node_path_len ! 243 = 26" "node_path_len ! 244 = 27" "node_path_len ! 245 = 27"
  "node_path_len ! 246 = 25" "node_path_len ! 247 = 26" "node_path_len ! 248 = 27"
  "node_path_len ! 249 = 27" "node_path_len ! 250 = 26" "node_path_len ! 251 = 27"
  "node_path_len ! 252 = 27" "node_path_len ! 253 = 28" "node_path_len ! 254 = 29"
  "node_path_len ! 255 = 29"
  by (simp_all add: node_path_len_def)

lemma path_val_lookup [huffman_lookup]:
  "node_path_val ! 0 = 0" "node_path_val ! 1 = 0" "node_path_val ! 2 = 0"
  "node_path_val ! 3 = 0" "node_path_val ! 4 = 0" "node_path_val ! 5 = 1"
  "node_path_val ! 6 = 1" "node_path_val ! 7 = 2" "node_path_val ! 8 = 3"
  "node_path_val ! 9 = 1" "node_path_val ! 10 = 2" "node_path_val ! 11 = 4"
  "node_path_val ! 12 = 5" "node_path_val ! 13 = 10" "node_path_val ! 14 = 11"
  "node_path_val ! 15 = 3" "node_path_val ! 16 = 6" "node_path_val ! 17 = 12"
  "node_path_val ! 18 = 13" "node_path_val ! 19 = 7" "node_path_val ! 20 = 14"
  "node_path_val ! 21 = 15" "node_path_val ! 22 = 1" "node_path_val ! 23 = 2"
  "node_path_val ! 24 = 4" "node_path_val ! 25 = 8" "node_path_val ! 26 = 16"
  "node_path_val ! 27 = 17" "node_path_val ! 28 = 9" "node_path_val ! 29 = 18"
  "node_path_val ! 30 = 19" "node_path_val ! 31 = 5" "node_path_val ! 32 = 10"
  "node_path_val ! 33 = 20" "node_path_val ! 34 = 21" "node_path_val ! 35 = 11"
  "node_path_val ! 36 = 22" "node_path_val ! 37 = 23" "node_path_val ! 38 = 46"
  "node_path_val ! 39 = 47" "node_path_val ! 40 = 3" "node_path_val ! 41 = 6"
  "node_path_val ! 42 = 12" "node_path_val ! 43 = 24" "node_path_val ! 44 = 48"
  "node_path_val ! 45 = 49" "node_path_val ! 46 = 25" "node_path_val ! 47 = 50"
  "node_path_val ! 48 = 51" "node_path_val ! 49 = 13" "node_path_val ! 50 = 26"
  "node_path_val ! 51 = 52" "node_path_val ! 52 = 53" "node_path_val ! 53 = 27"
  "node_path_val ! 54 = 54" "node_path_val ! 55 = 55" "node_path_val ! 56 = 7"
  "node_path_val ! 57 = 14" "node_path_val ! 58 = 28" "node_path_val ! 59 = 56"
  "node_path_val ! 60 = 57" "node_path_val ! 61 = 29" "node_path_val ! 62 = 58"
  "node_path_val ! 63 = 59" "node_path_val ! 64 = 15" "node_path_val ! 65 = 30"
  "node_path_val ! 66 = 60" "node_path_val ! 67 = 61" "node_path_val ! 68 = 31"
  "node_path_val ! 69 = 62" "node_path_val ! 70 = 124" "node_path_val ! 71 = 125"
  "node_path_val ! 72 = 63" "node_path_val ! 73 = 126" "node_path_val ! 74 = 127"
  "node_path_val ! 75 = 254" "node_path_val ! 76 = 508" "node_path_val ! 77 = 509"
  "node_path_val ! 78 = 255" "node_path_val ! 79 = 510" "node_path_val ! 80 = 1021"
  "node_path_val ! 81 = 511" "node_path_val ! 82 = 1022" "node_path_val ! 83 = 2045"
  "node_path_val ! 84 = 1023" "node_path_val ! 85 = 2046" "node_path_val ! 86 = 4092"
  "node_path_val ! 87 = 4093" "node_path_val ! 88 = 2047" "node_path_val ! 89 = 4094"
  "node_path_val ! 90 = 4095" "node_path_val ! 91 = 8190" "node_path_val ! 92 = 8191"
  "node_path_val ! 93 = 16382" "node_path_val ! 94 = 16383" "node_path_val ! 95 = 32767"
  "node_path_val ! 96 = 65534" "node_path_val ! 97 = 131068" "node_path_val ! 98 = 262136"
  "node_path_val ! 99 = 262137" "node_path_val ! 100 = 524275" "node_path_val ! 101 = 131069"
  "node_path_val ! 102 = 262138" "node_path_val ! 103 = 524276" "node_path_val ! 104 = 524277"
  "node_path_val ! 105 = 262139" "node_path_val ! 106 = 524278" "node_path_val ! 107 = 524279"
  "node_path_val ! 108 = 1048558" "node_path_val ! 109 = 1048559" "node_path_val ! 110 = 65535"
  "node_path_val ! 111 = 131070" "node_path_val ! 112 = 262140" "node_path_val ! 113 = 524280"
  "node_path_val ! 114 = 1048560" "node_path_val ! 115 = 1048561" "node_path_val ! 116 = 524281"
  "node_path_val ! 117 = 1048562" "node_path_val ! 118 = 1048563" "node_path_val ! 119 = 262141"
  "node_path_val ! 120 = 524282" "node_path_val ! 121 = 1048564" "node_path_val ! 122 = 2097129"
  "node_path_val ! 123 = 1048565" "node_path_val ! 124 = 2097130" "node_path_val ! 125 = 2097131"
  "node_path_val ! 126 = 524283" "node_path_val ! 127 = 1048566" "node_path_val ! 128 = 2097132"
  "node_path_val ! 129 = 2097133" "node_path_val ! 130 = 1048567" "node_path_val ! 131 = 2097134"
  "node_path_val ! 132 = 2097135" "node_path_val ! 133 = 131071" "node_path_val ! 134 = 262142"
  "node_path_val ! 135 = 524284" "node_path_val ! 136 = 1048568" "node_path_val ! 137 = 2097136"
  "node_path_val ! 138 = 2097137" "node_path_val ! 139 = 1048569" "node_path_val ! 140 = 2097138"
  "node_path_val ! 141 = 2097139" "node_path_val ! 142 = 524285" "node_path_val ! 143 = 1048570"
  "node_path_val ! 144 = 2097140" "node_path_val ! 145 = 2097141" "node_path_val ! 146 = 1048571"
  "node_path_val ! 147 = 2097142" "node_path_val ! 148 = 4194284" "node_path_val ! 149 = 4194285"
  "node_path_val ! 150 = 2097143" "node_path_val ! 151 = 4194286" "node_path_val ! 152 = 4194287"
  "node_path_val ! 153 = 262143" "node_path_val ! 154 = 524286" "node_path_val ! 155 = 1048572"
  "node_path_val ! 156 = 2097144" "node_path_val ! 157 = 4194288" "node_path_val ! 158 = 4194289"
  "node_path_val ! 159 = 2097145" "node_path_val ! 160 = 4194290" "node_path_val ! 161 = 4194291"
  "node_path_val ! 162 = 1048573" "node_path_val ! 163 = 2097146" "node_path_val ! 164 = 4194292"
  "node_path_val ! 165 = 4194293" "node_path_val ! 166 = 2097147" "node_path_val ! 167 = 4194294"
  "node_path_val ! 168 = 4194295" "node_path_val ! 169 = 524287" "node_path_val ! 170 = 1048574"
  "node_path_val ! 171 = 2097148" "node_path_val ! 172 = 4194296" "node_path_val ! 173 = 4194297"
  "node_path_val ! 174 = 2097149" "node_path_val ! 175 = 4194298" "node_path_val ! 176 = 8388597"
  "node_path_val ! 177 = 4194299" "node_path_val ! 178 = 8388598" "node_path_val ! 179 = 8388599"
  "node_path_val ! 180 = 1048575" "node_path_val ! 181 = 2097150" "node_path_val ! 182 = 4194300"
  "node_path_val ! 183 = 8388600" "node_path_val ! 184 = 8388601" "node_path_val ! 185 = 4194301"
  "node_path_val ! 186 = 8388602" "node_path_val ! 187 = 8388603" "node_path_val ! 188 = 16777206"
  "node_path_val ! 189 = 16777207" "node_path_val ! 190 = 2097151" "node_path_val ! 191 = 4194302"
  "node_path_val ! 192 = 8388604" "node_path_val ! 193 = 16777208" "node_path_val ! 194 = 33554416"
  "node_path_val ! 195 = 33554417" "node_path_val ! 196 = 16777209" "node_path_val ! 197 = 33554418"
  "node_path_val ! 198 = 33554419" "node_path_val ! 199 = 8388605" "node_path_val ! 200 = 16777210"
  "node_path_val ! 201 = 33554420" "node_path_val ! 202 = 33554421" "node_path_val ! 203 = 16777211"
  "node_path_val ! 204 = 33554422" "node_path_val ! 205 = 33554423" "node_path_val ! 206 = 67108847"
  "node_path_val ! 207 = 4194303" "node_path_val ! 208 = 8388606" "node_path_val ! 209 = 16777212"
  "node_path_val ! 210 = 33554424" "node_path_val ! 211 = 67108848" "node_path_val ! 212 = 67108849"
  "node_path_val ! 213 = 33554425" "node_path_val ! 214 = 67108850" "node_path_val ! 215 = 67108851"
  "node_path_val ! 216 = 16777213" "node_path_val ! 217 = 33554426" "node_path_val ! 218 = 67108852"
  "node_path_val ! 219 = 67108853" "node_path_val ! 220 = 33554427" "node_path_val ! 221 = 67108854"
  "node_path_val ! 222 = 67108855" "node_path_val ! 223 = 8388607" "node_path_val ! 224 = 16777214"
  "node_path_val ! 225 = 33554428" "node_path_val ! 226 = 67108856" "node_path_val ! 227 = 134217713"
  "node_path_val ! 228 = 67108857" "node_path_val ! 229 = 134217714" "node_path_val ! 230 = 134217715"
  "node_path_val ! 231 = 33554429" "node_path_val ! 232 = 67108858" "node_path_val ! 233 = 134217716"
  "node_path_val ! 234 = 134217717" "node_path_val ! 235 = 67108859" "node_path_val ! 236 = 134217718"
  "node_path_val ! 237 = 134217719" "node_path_val ! 238 = 16777215" "node_path_val ! 239 = 33554430"
  "node_path_val ! 240 = 67108860" "node_path_val ! 241 = 134217720" "node_path_val ! 242 = 134217721"
  "node_path_val ! 243 = 67108861" "node_path_val ! 244 = 134217722" "node_path_val ! 245 = 134217723"
  "node_path_val ! 246 = 33554431" "node_path_val ! 247 = 67108862" "node_path_val ! 248 = 134217724"
  "node_path_val ! 249 = 134217725" "node_path_val ! 250 = 67108863" "node_path_val ! 251 = 134217726"
  "node_path_val ! 252 = 134217727" "node_path_val ! 253 = 268435455" "node_path_val ! 254 = 536870910"
  "node_path_val ! 255 = 536870911"
  by (simp_all add: node_path_val_def)

lemma code_len_lookup [huffman_lookup]:
  "REQUEST_CODES_LENGTH ! 0 = 13" "REQUEST_CODES_LENGTH ! 1 = 23" "REQUEST_CODES_LENGTH ! 2 = 28"
  "REQUEST_CODES_LENGTH ! 3 = 28" "REQUEST_CODES_LENGTH ! 4 = 28" "REQUEST_CODES_LENGTH ! 5 = 28"
  "REQUEST_CODES_LENGTH ! 6 = 28" "REQUEST_CODES_LENGTH ! 7 = 28" "REQUEST_CODES_LENGTH ! 8 = 28"
  "REQUEST_CODES_LENGTH ! 9 = 24" "REQUEST_CODES_LENGTH ! 10 = 30" "REQUEST_CODES_LENGTH ! 11 = 28"
  "REQUEST_CODES_LENGTH ! 12 = 28" "REQUEST_CODES_LENGTH ! 13 = 30" "REQUEST_CODES_LENGTH ! 14 = 28"
  "REQUEST_CODES_LENGTH ! 15 = 28" "REQUEST_CODES_LENGTH ! 16 = 28" "REQUEST_CODES_LENGTH ! 17 = 28"
  "REQUEST_CODES_LENGTH ! 18 = 28" "REQUEST_CODES_LENGTH ! 19 = 28" "REQUEST_CODES_LENGTH ! 20 = 28"
  "REQUEST_CODES_LENGTH ! 21 = 28" "REQUEST_CODES_LENGTH ! 22 = 30" "REQUEST_CODES_LENGTH ! 23 = 28"
  "REQUEST_CODES_LENGTH ! 24 = 28" "REQUEST_CODES_LENGTH ! 25 = 28" "REQUEST_CODES_LENGTH ! 26 = 28"
  "REQUEST_CODES_LENGTH ! 27 = 28" "REQUEST_CODES_LENGTH ! 28 = 28" "REQUEST_CODES_LENGTH ! 29 = 28"
  "REQUEST_CODES_LENGTH ! 30 = 28" "REQUEST_CODES_LENGTH ! 31 = 28" "REQUEST_CODES_LENGTH ! 32 = 6"
  "REQUEST_CODES_LENGTH ! 33 = 10" "REQUEST_CODES_LENGTH ! 34 = 10" "REQUEST_CODES_LENGTH ! 35 = 12"
  "REQUEST_CODES_LENGTH ! 36 = 13" "REQUEST_CODES_LENGTH ! 37 = 6" "REQUEST_CODES_LENGTH ! 38 = 8"
  "REQUEST_CODES_LENGTH ! 39 = 11" "REQUEST_CODES_LENGTH ! 40 = 10" "REQUEST_CODES_LENGTH ! 41 = 10"
  "REQUEST_CODES_LENGTH ! 42 = 8" "REQUEST_CODES_LENGTH ! 43 = 11" "REQUEST_CODES_LENGTH ! 44 = 8"
  "REQUEST_CODES_LENGTH ! 45 = 6" "REQUEST_CODES_LENGTH ! 46 = 6" "REQUEST_CODES_LENGTH ! 47 = 6"
  "REQUEST_CODES_LENGTH ! 48 = 5" "REQUEST_CODES_LENGTH ! 49 = 5" "REQUEST_CODES_LENGTH ! 50 = 5"
  "REQUEST_CODES_LENGTH ! 51 = 6" "REQUEST_CODES_LENGTH ! 52 = 6" "REQUEST_CODES_LENGTH ! 53 = 6"
  "REQUEST_CODES_LENGTH ! 54 = 6" "REQUEST_CODES_LENGTH ! 55 = 6" "REQUEST_CODES_LENGTH ! 56 = 6"
  "REQUEST_CODES_LENGTH ! 57 = 6" "REQUEST_CODES_LENGTH ! 58 = 7" "REQUEST_CODES_LENGTH ! 59 = 8"
  "REQUEST_CODES_LENGTH ! 60 = 15" "REQUEST_CODES_LENGTH ! 61 = 6" "REQUEST_CODES_LENGTH ! 62 = 12"
  "REQUEST_CODES_LENGTH ! 63 = 10" "REQUEST_CODES_LENGTH ! 64 = 13" "REQUEST_CODES_LENGTH ! 65 = 6"
  "REQUEST_CODES_LENGTH ! 66 = 7" "REQUEST_CODES_LENGTH ! 67 = 7" "REQUEST_CODES_LENGTH ! 68 = 7"
  "REQUEST_CODES_LENGTH ! 69 = 7" "REQUEST_CODES_LENGTH ! 70 = 7" "REQUEST_CODES_LENGTH ! 71 = 7"
  "REQUEST_CODES_LENGTH ! 72 = 7" "REQUEST_CODES_LENGTH ! 73 = 7" "REQUEST_CODES_LENGTH ! 74 = 7"
  "REQUEST_CODES_LENGTH ! 75 = 7" "REQUEST_CODES_LENGTH ! 76 = 7" "REQUEST_CODES_LENGTH ! 77 = 7"
  "REQUEST_CODES_LENGTH ! 78 = 7" "REQUEST_CODES_LENGTH ! 79 = 7" "REQUEST_CODES_LENGTH ! 80 = 7"
  "REQUEST_CODES_LENGTH ! 81 = 7" "REQUEST_CODES_LENGTH ! 82 = 7" "REQUEST_CODES_LENGTH ! 83 = 7"
  "REQUEST_CODES_LENGTH ! 84 = 7" "REQUEST_CODES_LENGTH ! 85 = 7" "REQUEST_CODES_LENGTH ! 86 = 7"
  "REQUEST_CODES_LENGTH ! 87 = 7" "REQUEST_CODES_LENGTH ! 88 = 8" "REQUEST_CODES_LENGTH ! 89 = 7"
  "REQUEST_CODES_LENGTH ! 90 = 8" "REQUEST_CODES_LENGTH ! 91 = 13" "REQUEST_CODES_LENGTH ! 92 = 19"
  "REQUEST_CODES_LENGTH ! 93 = 13" "REQUEST_CODES_LENGTH ! 94 = 14" "REQUEST_CODES_LENGTH ! 95 = 6"
  "REQUEST_CODES_LENGTH ! 96 = 15" "REQUEST_CODES_LENGTH ! 97 = 5" "REQUEST_CODES_LENGTH ! 98 = 6"
  "REQUEST_CODES_LENGTH ! 99 = 5" "REQUEST_CODES_LENGTH ! 100 = 6" "REQUEST_CODES_LENGTH ! 101 = 5"
  "REQUEST_CODES_LENGTH ! 102 = 6" "REQUEST_CODES_LENGTH ! 103 = 6" "REQUEST_CODES_LENGTH ! 104 = 6"
  "REQUEST_CODES_LENGTH ! 105 = 5" "REQUEST_CODES_LENGTH ! 106 = 7" "REQUEST_CODES_LENGTH ! 107 = 7"
  "REQUEST_CODES_LENGTH ! 108 = 6" "REQUEST_CODES_LENGTH ! 109 = 6" "REQUEST_CODES_LENGTH ! 110 = 6"
  "REQUEST_CODES_LENGTH ! 111 = 5" "REQUEST_CODES_LENGTH ! 112 = 6" "REQUEST_CODES_LENGTH ! 113 = 7"
  "REQUEST_CODES_LENGTH ! 114 = 6" "REQUEST_CODES_LENGTH ! 115 = 5" "REQUEST_CODES_LENGTH ! 116 = 5"
  "REQUEST_CODES_LENGTH ! 117 = 6" "REQUEST_CODES_LENGTH ! 118 = 7" "REQUEST_CODES_LENGTH ! 119 = 7"
  "REQUEST_CODES_LENGTH ! 120 = 7" "REQUEST_CODES_LENGTH ! 121 = 7" "REQUEST_CODES_LENGTH ! 122 = 7"
  "REQUEST_CODES_LENGTH ! 123 = 15" "REQUEST_CODES_LENGTH ! 124 = 11" "REQUEST_CODES_LENGTH ! 125 = 14"
  "REQUEST_CODES_LENGTH ! 126 = 13" "REQUEST_CODES_LENGTH ! 127 = 28" "REQUEST_CODES_LENGTH ! 128 = 20"
  "REQUEST_CODES_LENGTH ! 129 = 22" "REQUEST_CODES_LENGTH ! 130 = 20" "REQUEST_CODES_LENGTH ! 131 = 20"
  "REQUEST_CODES_LENGTH ! 132 = 22" "REQUEST_CODES_LENGTH ! 133 = 22" "REQUEST_CODES_LENGTH ! 134 = 22"
  "REQUEST_CODES_LENGTH ! 135 = 23" "REQUEST_CODES_LENGTH ! 136 = 22" "REQUEST_CODES_LENGTH ! 137 = 23"
  "REQUEST_CODES_LENGTH ! 138 = 23" "REQUEST_CODES_LENGTH ! 139 = 23" "REQUEST_CODES_LENGTH ! 140 = 23"
  "REQUEST_CODES_LENGTH ! 141 = 23" "REQUEST_CODES_LENGTH ! 142 = 24" "REQUEST_CODES_LENGTH ! 143 = 23"
  "REQUEST_CODES_LENGTH ! 144 = 24" "REQUEST_CODES_LENGTH ! 145 = 24" "REQUEST_CODES_LENGTH ! 146 = 22"
  "REQUEST_CODES_LENGTH ! 147 = 23" "REQUEST_CODES_LENGTH ! 148 = 24" "REQUEST_CODES_LENGTH ! 149 = 23"
  "REQUEST_CODES_LENGTH ! 150 = 23" "REQUEST_CODES_LENGTH ! 151 = 23" "REQUEST_CODES_LENGTH ! 152 = 23"
  "REQUEST_CODES_LENGTH ! 153 = 21" "REQUEST_CODES_LENGTH ! 154 = 22" "REQUEST_CODES_LENGTH ! 155 = 23"
  "REQUEST_CODES_LENGTH ! 156 = 22" "REQUEST_CODES_LENGTH ! 157 = 23" "REQUEST_CODES_LENGTH ! 158 = 23"
  "REQUEST_CODES_LENGTH ! 159 = 24" "REQUEST_CODES_LENGTH ! 160 = 22" "REQUEST_CODES_LENGTH ! 161 = 21"
  "REQUEST_CODES_LENGTH ! 162 = 20" "REQUEST_CODES_LENGTH ! 163 = 22" "REQUEST_CODES_LENGTH ! 164 = 22"
  "REQUEST_CODES_LENGTH ! 165 = 23" "REQUEST_CODES_LENGTH ! 166 = 23" "REQUEST_CODES_LENGTH ! 167 = 21"
  "REQUEST_CODES_LENGTH ! 168 = 23" "REQUEST_CODES_LENGTH ! 169 = 22" "REQUEST_CODES_LENGTH ! 170 = 22"
  "REQUEST_CODES_LENGTH ! 171 = 24" "REQUEST_CODES_LENGTH ! 172 = 21" "REQUEST_CODES_LENGTH ! 173 = 22"
  "REQUEST_CODES_LENGTH ! 174 = 23" "REQUEST_CODES_LENGTH ! 175 = 23" "REQUEST_CODES_LENGTH ! 176 = 21"
  "REQUEST_CODES_LENGTH ! 177 = 21" "REQUEST_CODES_LENGTH ! 178 = 22" "REQUEST_CODES_LENGTH ! 179 = 21"
  "REQUEST_CODES_LENGTH ! 180 = 23" "REQUEST_CODES_LENGTH ! 181 = 22" "REQUEST_CODES_LENGTH ! 182 = 23"
  "REQUEST_CODES_LENGTH ! 183 = 23" "REQUEST_CODES_LENGTH ! 184 = 20" "REQUEST_CODES_LENGTH ! 185 = 22"
  "REQUEST_CODES_LENGTH ! 186 = 22" "REQUEST_CODES_LENGTH ! 187 = 22" "REQUEST_CODES_LENGTH ! 188 = 23"
  "REQUEST_CODES_LENGTH ! 189 = 22" "REQUEST_CODES_LENGTH ! 190 = 22" "REQUEST_CODES_LENGTH ! 191 = 23"
  "REQUEST_CODES_LENGTH ! 192 = 26" "REQUEST_CODES_LENGTH ! 193 = 26" "REQUEST_CODES_LENGTH ! 194 = 20"
  "REQUEST_CODES_LENGTH ! 195 = 19" "REQUEST_CODES_LENGTH ! 196 = 22" "REQUEST_CODES_LENGTH ! 197 = 23"
  "REQUEST_CODES_LENGTH ! 198 = 22" "REQUEST_CODES_LENGTH ! 199 = 25" "REQUEST_CODES_LENGTH ! 200 = 26"
  "REQUEST_CODES_LENGTH ! 201 = 26" "REQUEST_CODES_LENGTH ! 202 = 26" "REQUEST_CODES_LENGTH ! 203 = 27"
  "REQUEST_CODES_LENGTH ! 204 = 27" "REQUEST_CODES_LENGTH ! 205 = 26" "REQUEST_CODES_LENGTH ! 206 = 24"
  "REQUEST_CODES_LENGTH ! 207 = 25" "REQUEST_CODES_LENGTH ! 208 = 19" "REQUEST_CODES_LENGTH ! 209 = 21"
  "REQUEST_CODES_LENGTH ! 210 = 26" "REQUEST_CODES_LENGTH ! 211 = 27" "REQUEST_CODES_LENGTH ! 212 = 27"
  "REQUEST_CODES_LENGTH ! 213 = 26" "REQUEST_CODES_LENGTH ! 214 = 27" "REQUEST_CODES_LENGTH ! 215 = 24"
  "REQUEST_CODES_LENGTH ! 216 = 21" "REQUEST_CODES_LENGTH ! 217 = 21" "REQUEST_CODES_LENGTH ! 218 = 26"
  "REQUEST_CODES_LENGTH ! 219 = 26" "REQUEST_CODES_LENGTH ! 220 = 28" "REQUEST_CODES_LENGTH ! 221 = 27"
  "REQUEST_CODES_LENGTH ! 222 = 27" "REQUEST_CODES_LENGTH ! 223 = 27" "REQUEST_CODES_LENGTH ! 224 = 20"
  "REQUEST_CODES_LENGTH ! 225 = 24" "REQUEST_CODES_LENGTH ! 226 = 20" "REQUEST_CODES_LENGTH ! 227 = 21"
  "REQUEST_CODES_LENGTH ! 228 = 22" "REQUEST_CODES_LENGTH ! 229 = 21" "REQUEST_CODES_LENGTH ! 230 = 21"
  "REQUEST_CODES_LENGTH ! 231 = 23" "REQUEST_CODES_LENGTH ! 232 = 22" "REQUEST_CODES_LENGTH ! 233 = 22"
  "REQUEST_CODES_LENGTH ! 234 = 25" "REQUEST_CODES_LENGTH ! 235 = 25" "REQUEST_CODES_LENGTH ! 236 = 24"
  "REQUEST_CODES_LENGTH ! 237 = 24" "REQUEST_CODES_LENGTH ! 238 = 26" "REQUEST_CODES_LENGTH ! 239 = 23"
  "REQUEST_CODES_LENGTH ! 240 = 26" "REQUEST_CODES_LENGTH ! 241 = 27" "REQUEST_CODES_LENGTH ! 242 = 26"
  "REQUEST_CODES_LENGTH ! 243 = 26" "REQUEST_CODES_LENGTH ! 244 = 27" "REQUEST_CODES_LENGTH ! 245 = 27"
  "REQUEST_CODES_LENGTH ! 246 = 27" "REQUEST_CODES_LENGTH ! 247 = 27" "REQUEST_CODES_LENGTH ! 248 = 27"
  "REQUEST_CODES_LENGTH ! 249 = 28" "REQUEST_CODES_LENGTH ! 250 = 27" "REQUEST_CODES_LENGTH ! 251 = 27"
  "REQUEST_CODES_LENGTH ! 252 = 27" "REQUEST_CODES_LENGTH ! 253 = 27" "REQUEST_CODES_LENGTH ! 254 = 27"
  "REQUEST_CODES_LENGTH ! 255 = 26" "REQUEST_CODES_LENGTH ! 256 = 30"
  by (simp_all add: REQUEST_CODES_LENGTH_def)

lemma code_val_lookup [huffman_lookup]:
  "REQUEST_CODES ! 0 = 8184" "REQUEST_CODES ! 1 = 8388568" "REQUEST_CODES ! 2 = 268435426"
  "REQUEST_CODES ! 3 = 268435427" "REQUEST_CODES ! 4 = 268435428" "REQUEST_CODES ! 5 = 268435429"
  "REQUEST_CODES ! 6 = 268435430" "REQUEST_CODES ! 7 = 268435431" "REQUEST_CODES ! 8 = 268435432"
  "REQUEST_CODES ! 9 = 16777194" "REQUEST_CODES ! 10 = 1073741820" "REQUEST_CODES ! 11 = 268435433"
  "REQUEST_CODES ! 12 = 268435434" "REQUEST_CODES ! 13 = 1073741821" "REQUEST_CODES ! 14 = 268435435"
  "REQUEST_CODES ! 15 = 268435436" "REQUEST_CODES ! 16 = 268435437" "REQUEST_CODES ! 17 = 268435438"
  "REQUEST_CODES ! 18 = 268435439" "REQUEST_CODES ! 19 = 268435440" "REQUEST_CODES ! 20 = 268435441"
  "REQUEST_CODES ! 21 = 268435442" "REQUEST_CODES ! 22 = 1073741822" "REQUEST_CODES ! 23 = 268435443"
  "REQUEST_CODES ! 24 = 268435444" "REQUEST_CODES ! 25 = 268435445" "REQUEST_CODES ! 26 = 268435446"
  "REQUEST_CODES ! 27 = 268435447" "REQUEST_CODES ! 28 = 268435448" "REQUEST_CODES ! 29 = 268435449"
  "REQUEST_CODES ! 30 = 268435450" "REQUEST_CODES ! 31 = 268435451" "REQUEST_CODES ! 32 = 20"
  "REQUEST_CODES ! 33 = 1016" "REQUEST_CODES ! 34 = 1017" "REQUEST_CODES ! 35 = 4090"
  "REQUEST_CODES ! 36 = 8185" "REQUEST_CODES ! 37 = 21" "REQUEST_CODES ! 38 = 248"
  "REQUEST_CODES ! 39 = 2042" "REQUEST_CODES ! 40 = 1018" "REQUEST_CODES ! 41 = 1019"
  "REQUEST_CODES ! 42 = 249" "REQUEST_CODES ! 43 = 2043" "REQUEST_CODES ! 44 = 250"
  "REQUEST_CODES ! 45 = 22" "REQUEST_CODES ! 46 = 23" "REQUEST_CODES ! 47 = 24"
  "REQUEST_CODES ! 48 = 0" "REQUEST_CODES ! 49 = 1" "REQUEST_CODES ! 50 = 2"
  "REQUEST_CODES ! 51 = 25" "REQUEST_CODES ! 52 = 26" "REQUEST_CODES ! 53 = 27"
  "REQUEST_CODES ! 54 = 28" "REQUEST_CODES ! 55 = 29" "REQUEST_CODES ! 56 = 30"
  "REQUEST_CODES ! 57 = 31" "REQUEST_CODES ! 58 = 92" "REQUEST_CODES ! 59 = 251"
  "REQUEST_CODES ! 60 = 32764" "REQUEST_CODES ! 61 = 32" "REQUEST_CODES ! 62 = 4091"
  "REQUEST_CODES ! 63 = 1020" "REQUEST_CODES ! 64 = 8186" "REQUEST_CODES ! 65 = 33"
  "REQUEST_CODES ! 66 = 93" "REQUEST_CODES ! 67 = 94" "REQUEST_CODES ! 68 = 95"
  "REQUEST_CODES ! 69 = 96" "REQUEST_CODES ! 70 = 97" "REQUEST_CODES ! 71 = 98"
  "REQUEST_CODES ! 72 = 99" "REQUEST_CODES ! 73 = 100" "REQUEST_CODES ! 74 = 101"
  "REQUEST_CODES ! 75 = 102" "REQUEST_CODES ! 76 = 103" "REQUEST_CODES ! 77 = 104"
  "REQUEST_CODES ! 78 = 105" "REQUEST_CODES ! 79 = 106" "REQUEST_CODES ! 80 = 107"
  "REQUEST_CODES ! 81 = 108" "REQUEST_CODES ! 82 = 109" "REQUEST_CODES ! 83 = 110"
  "REQUEST_CODES ! 84 = 111" "REQUEST_CODES ! 85 = 112" "REQUEST_CODES ! 86 = 113"
  "REQUEST_CODES ! 87 = 114" "REQUEST_CODES ! 88 = 252" "REQUEST_CODES ! 89 = 115"
  "REQUEST_CODES ! 90 = 253" "REQUEST_CODES ! 91 = 8187" "REQUEST_CODES ! 92 = 524272"
  "REQUEST_CODES ! 93 = 8188" "REQUEST_CODES ! 94 = 16380" "REQUEST_CODES ! 95 = 34"
  "REQUEST_CODES ! 96 = 32765" "REQUEST_CODES ! 97 = 3" "REQUEST_CODES ! 98 = 35"
  "REQUEST_CODES ! 99 = 4" "REQUEST_CODES ! 100 = 36" "REQUEST_CODES ! 101 = 5"
  "REQUEST_CODES ! 102 = 37" "REQUEST_CODES ! 103 = 38" "REQUEST_CODES ! 104 = 39"
  "REQUEST_CODES ! 105 = 6" "REQUEST_CODES ! 106 = 116" "REQUEST_CODES ! 107 = 117"
  "REQUEST_CODES ! 108 = 40" "REQUEST_CODES ! 109 = 41" "REQUEST_CODES ! 110 = 42"
  "REQUEST_CODES ! 111 = 7" "REQUEST_CODES ! 112 = 43" "REQUEST_CODES ! 113 = 118"
  "REQUEST_CODES ! 114 = 44" "REQUEST_CODES ! 115 = 8" "REQUEST_CODES ! 116 = 9"
  "REQUEST_CODES ! 117 = 45" "REQUEST_CODES ! 118 = 119" "REQUEST_CODES ! 119 = 120"
  "REQUEST_CODES ! 120 = 121" "REQUEST_CODES ! 121 = 122" "REQUEST_CODES ! 122 = 123"
  "REQUEST_CODES ! 123 = 32766" "REQUEST_CODES ! 124 = 2044" "REQUEST_CODES ! 125 = 16381"
  "REQUEST_CODES ! 126 = 8189" "REQUEST_CODES ! 127 = 268435452" "REQUEST_CODES ! 128 = 1048550"
  "REQUEST_CODES ! 129 = 4194258" "REQUEST_CODES ! 130 = 1048551" "REQUEST_CODES ! 131 = 1048552"
  "REQUEST_CODES ! 132 = 4194259" "REQUEST_CODES ! 133 = 4194260" "REQUEST_CODES ! 134 = 4194261"
  "REQUEST_CODES ! 135 = 8388569" "REQUEST_CODES ! 136 = 4194262" "REQUEST_CODES ! 137 = 8388570"
  "REQUEST_CODES ! 138 = 8388571" "REQUEST_CODES ! 139 = 8388572" "REQUEST_CODES ! 140 = 8388573"
  "REQUEST_CODES ! 141 = 8388574" "REQUEST_CODES ! 142 = 16777195" "REQUEST_CODES ! 143 = 8388575"
  "REQUEST_CODES ! 144 = 16777196" "REQUEST_CODES ! 145 = 16777197" "REQUEST_CODES ! 146 = 4194263"
  "REQUEST_CODES ! 147 = 8388576" "REQUEST_CODES ! 148 = 16777198" "REQUEST_CODES ! 149 = 8388577"
  "REQUEST_CODES ! 150 = 8388578" "REQUEST_CODES ! 151 = 8388579" "REQUEST_CODES ! 152 = 8388580"
  "REQUEST_CODES ! 153 = 2097116" "REQUEST_CODES ! 154 = 4194264" "REQUEST_CODES ! 155 = 8388581"
  "REQUEST_CODES ! 156 = 4194265" "REQUEST_CODES ! 157 = 8388582" "REQUEST_CODES ! 158 = 8388583"
  "REQUEST_CODES ! 159 = 16777199" "REQUEST_CODES ! 160 = 4194266" "REQUEST_CODES ! 161 = 2097117"
  "REQUEST_CODES ! 162 = 1048553" "REQUEST_CODES ! 163 = 4194267" "REQUEST_CODES ! 164 = 4194268"
  "REQUEST_CODES ! 165 = 8388584" "REQUEST_CODES ! 166 = 8388585" "REQUEST_CODES ! 167 = 2097118"
  "REQUEST_CODES ! 168 = 8388586" "REQUEST_CODES ! 169 = 4194269" "REQUEST_CODES ! 170 = 4194270"
  "REQUEST_CODES ! 171 = 16777200" "REQUEST_CODES ! 172 = 2097119" "REQUEST_CODES ! 173 = 4194271"
  "REQUEST_CODES ! 174 = 8388587" "REQUEST_CODES ! 175 = 8388588" "REQUEST_CODES ! 176 = 2097120"
  "REQUEST_CODES ! 177 = 2097121" "REQUEST_CODES ! 178 = 4194272" "REQUEST_CODES ! 179 = 2097122"
  "REQUEST_CODES ! 180 = 8388589" "REQUEST_CODES ! 181 = 4194273" "REQUEST_CODES ! 182 = 8388590"
  "REQUEST_CODES ! 183 = 8388591" "REQUEST_CODES ! 184 = 1048554" "REQUEST_CODES ! 185 = 4194274"
  "REQUEST_CODES ! 186 = 4194275" "REQUEST_CODES ! 187 = 4194276" "REQUEST_CODES ! 188 = 8388592"
  "REQUEST_CODES ! 189 = 4194277" "REQUEST_CODES ! 190 = 4194278" "REQUEST_CODES ! 191 = 8388593"
  "REQUEST_CODES ! 192 = 67108832" "REQUEST_CODES ! 193 = 67108833" "REQUEST_CODES ! 194 = 1048555"
  "REQUEST_CODES ! 195 = 524273" "REQUEST_CODES ! 196 = 4194279" "REQUEST_CODES ! 197 = 8388594"
  "REQUEST_CODES ! 198 = 4194280" "REQUEST_CODES ! 199 = 33554412" "REQUEST_CODES ! 200 = 67108834"
  "REQUEST_CODES ! 201 = 67108835" "REQUEST_CODES ! 202 = 67108836" "REQUEST_CODES ! 203 = 134217694"
  "REQUEST_CODES ! 204 = 134217695" "REQUEST_CODES ! 205 = 67108837" "REQUEST_CODES ! 206 = 16777201"
  "REQUEST_CODES ! 207 = 33554413" "REQUEST_CODES ! 208 = 524274" "REQUEST_CODES ! 209 = 2097123"
  "REQUEST_CODES ! 210 = 67108838" "REQUEST_CODES ! 211 = 134217696" "REQUEST_CODES ! 212 = 134217697"
  "REQUEST_CODES ! 213 = 67108839" "REQUEST_CODES ! 214 = 134217698" "REQUEST_CODES ! 215 = 16777202"
  "REQUEST_CODES ! 216 = 2097124" "REQUEST_CODES ! 217 = 2097125" "REQUEST_CODES ! 218 = 67108840"
  "REQUEST_CODES ! 219 = 67108841" "REQUEST_CODES ! 220 = 268435453" "REQUEST_CODES ! 221 = 134217699"
  "REQUEST_CODES ! 222 = 134217700" "REQUEST_CODES ! 223 = 134217701" "REQUEST_CODES ! 224 = 1048556"
  "REQUEST_CODES ! 225 = 16777203" "REQUEST_CODES ! 226 = 1048557" "REQUEST_CODES ! 227 = 2097126"
  "REQUEST_CODES ! 228 = 4194281" "REQUEST_CODES ! 229 = 2097127" "REQUEST_CODES ! 230 = 2097128"
  "REQUEST_CODES ! 231 = 8388595" "REQUEST_CODES ! 232 = 4194282" "REQUEST_CODES ! 233 = 4194283"
  "REQUEST_CODES ! 234 = 33554414" "REQUEST_CODES ! 235 = 33554415" "REQUEST_CODES ! 236 = 16777204"
  "REQUEST_CODES ! 237 = 16777205" "REQUEST_CODES ! 238 = 67108842" "REQUEST_CODES ! 239 = 8388596"
  "REQUEST_CODES ! 240 = 67108843" "REQUEST_CODES ! 241 = 134217702" "REQUEST_CODES ! 242 = 67108844"
  "REQUEST_CODES ! 243 = 67108845" "REQUEST_CODES ! 244 = 134217703" "REQUEST_CODES ! 245 = 134217704"
  "REQUEST_CODES ! 246 = 134217705" "REQUEST_CODES ! 247 = 134217706" "REQUEST_CODES ! 248 = 134217707"
  "REQUEST_CODES ! 249 = 268435454" "REQUEST_CODES ! 250 = 134217708" "REQUEST_CODES ! 251 = 134217709"
  "REQUEST_CODES ! 252 = 134217710" "REQUEST_CODES ! 253 = 134217711" "REQUEST_CODES ! 254 = 134217712"
  "REQUEST_CODES ! 255 = 67108846" "REQUEST_CODES ! 256 = 1073741823"
  by (simp_all add: REQUEST_CODES_def)

section \<open>Checking a block of the table\<close>

definition entry_ok :: "nat \<Rightarrow> nat \<Rightarrow> nat \<times> nat \<times> nat \<Rightarrow> bool" where
  "entry_ok s n e =
     (case e of (s', flags, out) \<Rightarrow>
        (if flags = 4
         then 30 \<le> node_path_len ! s + 4 \<and>
              (node_path_val ! s * 16 + n) div 2 ^ (node_path_len ! s + 4 - 30) = 1073741823
         else flags < 4 \<and> s' < 256 \<and> out < 256 \<and>
              (if flags = 2 \<or> flags = 3
               then node_path_len ! s + 4 = REQUEST_CODES_LENGTH ! out + node_path_len ! s' \<and>
                    node_path_val ! s * 16 + n =
                      REQUEST_CODES ! out * 2 ^ (node_path_len ! s') + node_path_val ! s'
               else node_path_len ! s + 4 = node_path_len ! s' \<and>
                    node_path_val ! s * 16 + n = node_path_val ! s') \<and>
              (if flags = 1 \<or> flags = 3
               then node_path_len ! s' < 8 \<and> node_path_val ! s' + 1 = 2 ^ (node_path_len ! s')
               else \<not> (node_path_len ! s' < 8 \<and> node_path_val ! s' + 1 = 2 ^ (node_path_len ! s')))))"

fun entries_ok :: "nat \<Rightarrow> nat \<Rightarrow> (nat \<times> nat \<times> nat) list \<Rightarrow> bool" where
  "entries_ok s n [] = True"
| "entries_ok s n (e # es) =
     (entry_ok s n e \<and> (if n = 15 then entries_ok (s + 1) 0 es else entries_ok s (n + 1) es))"

end
