(* ===== verification/Huffman_Prefix.thy ===== *)
theory Huffman_Prefix
  imports Huffman_Paths
begin

text \<open>
  The HPACK code is prefix-free, and the path of a state of the automaton never contains a
  complete code. Both are computed from the constant tables: read as an interval of 30-bit
  numbers, the codes in the order \<open>code_order\<close> tile the whole range one after another;
  each path is a proper prefix of the code named in \<open>path_witness\<close>.
\<close>

definition code_order :: "nat list" where
  "code_order =
     [48, 49, 50, 97, 99, 101, 105, 111, 115, 116, 32, 37, 45, 46, 47, 51,
      52, 53, 54, 55, 56, 57, 61, 65, 95, 98, 100, 102, 103, 104, 108, 109,
      110, 112, 114, 117, 58, 66, 67, 68, 69, 70, 71, 72, 73, 74, 75, 76,
      77, 78, 79, 80, 81, 82, 83, 84, 85, 86, 87, 89, 106, 107, 113, 118,
      119, 120, 121, 122, 38, 42, 44, 59, 88, 90, 33, 34, 40, 41, 63, 39,
      43, 124, 35, 62, 0, 36, 64, 91, 93, 126, 94, 125, 60, 96, 123, 92,
      195, 208, 128, 130, 131, 162, 184, 194, 224, 226, 153, 161, 167, 172, 176, 177,
      179, 209, 216, 217, 227, 229, 230, 129, 132, 133, 134, 136, 146, 154, 156, 160,
      163, 164, 169, 170, 173, 178, 181, 185, 186, 187, 189, 190, 196, 198, 228, 232,
      233, 1, 135, 137, 138, 139, 140, 141, 143, 147, 149, 150, 151, 152, 155, 157,
      158, 165, 166, 168, 174, 175, 180, 182, 183, 188, 191, 197, 231, 239, 9, 142,
      144, 145, 148, 159, 171, 206, 215, 225, 236, 237, 199, 207, 234, 235, 192, 193,
      200, 201, 202, 205, 210, 213, 218, 219, 238, 240, 242, 243, 255, 203, 204, 211,
      212, 214, 221, 222, 223, 241, 244, 245, 246, 247, 248, 250, 251, 252, 253, 254,
      2, 3, 4, 5, 6, 7, 8, 11, 12, 14, 15, 16, 17, 18, 19, 20,
      21, 23, 24, 25, 26, 27, 28, 29, 30, 31, 127, 220, 249, 10, 13, 22,
      256]"

definition path_witness :: "nat list" where
  "path_witness =
     [0, 32, 48, 48, 48, 50, 99, 99, 105, 32, 32, 115, 32, 32, 45, 47,
      47, 47, 52, 54, 54, 56, 0, 58, 61, 61, 61, 95, 100, 100, 103, 58,
      108, 108, 110, 58, 114, 58, 58, 67, 0, 69, 69, 69, 69, 71, 73, 73,
      75, 77, 77, 77, 79, 81, 81, 83, 0, 85, 85, 85, 87, 106, 106, 113,
      0, 119, 119, 121, 0, 38, 38, 44, 0, 88, 0, 33, 33, 40, 0, 39,
      39, 0, 35, 35, 0, 0, 0, 64, 1, 93, 1, 94, 1, 60, 1, 1,
      92, 92, 92, 128, 128, 131, 131, 131, 184, 153, 224, 153, 153, 167, 1, 129,
      176, 176, 176, 179, 216, 216, 227, 129, 129, 129, 129, 133, 133, 136, 154, 154,
      154, 160, 164, 164, 170, 1, 1, 178, 178, 178, 185, 187, 187, 190, 1, 198,
      198, 232, 1, 1, 1, 137, 139, 139, 141, 2, 147, 147, 147, 147, 150, 152,
      152, 157, 165, 165, 165, 168, 175, 175, 182, 2, 9, 188, 188, 197, 9, 9,
      9, 144, 144, 148, 2, 171, 171, 171, 215, 199, 236, 199, 199, 234, 2, 192,
      192, 192, 192, 200, 202, 202, 210, 203, 218, 218, 238, 203, 242, 203, 203, 2,
      211, 211, 211, 211, 214, 222, 222, 241, 245, 245, 245, 247, 250, 250, 252, 2,
      2, 2, 2, 2, 4, 4, 6, 8, 8, 8, 12, 15, 15, 17, 10, 19,
      19, 19, 21, 24, 24, 26, 10, 28, 28, 30, 10, 127, 10, 10, 10, 22]"

section \<open>Prefix-freeness\<close>

definition code_width :: "nat \<Rightarrow> nat" where
  "code_width k = 2 ^ (30 - REQUEST_CODES_LENGTH ! k)"

definition code_start :: "nat \<Rightarrow> nat" where
  "code_start k = REQUEST_CODES ! k * code_width k"

fun tiles :: "nat \<Rightarrow> nat list \<Rightarrow> bool" where
  "tiles lo [] = True"
| "tiles lo (k # ks) = (code_start k = lo \<and> REQUEST_CODES_LENGTH ! k \<le> 30 \<and> tiles (lo + code_width k) ks)"

lemma code_order_tiles: "tiles 0 code_order"
  by (simp add: code_order_def code_start_def code_width_def huffman_lookup del: One_nat_def)

lemma tiles_lower: "tiles lo ks \<Longrightarrow> k \<in> set ks \<Longrightarrow> lo \<le> code_start k"
  by (induction ks arbitrary: lo) (auto dest: add_leD1)

lemma code_width_pos [simp]: "0 < code_width k"
  by (simp add: code_width_def)

lemma tiles_distinct: "tiles lo ks \<Longrightarrow> distinct ks"
proof (induction ks arbitrary: lo)
  case (Cons k ks)
  have "lo + code_width k \<le> code_start m" if "m \<in> set ks" for m
    using Cons.prems that by (auto dest: tiles_lower)
  moreover have "code_start k < lo + code_width k" using Cons.prems by simp
  ultimately have "k \<notin> set ks" by fastforce
  with Cons show ?case by auto
qed simp

lemma code_order_set: "k < 257 \<Longrightarrow> k \<in> set code_order"
proof -
  have "list_all (\<lambda>k. k < 257) code_order" "length code_order = 257"
    by (simp_all add: code_order_def)
  then have "set code_order \<subseteq> {..<257}" "card (set code_order) = 257"
    using tiles_distinct [OF code_order_tiles] by (auto simp: list_all_iff distinct_card)
  then have "set code_order = {..<257}" by (intro card_subset_eq) simp_all
  then show "k < 257 \<Longrightarrow> k \<in> set code_order" by simp
qed

lemma tiles_disjoint:
  "tiles lo ks \<Longrightarrow> i \<in> set ks \<Longrightarrow> j \<in> set ks \<Longrightarrow>
     code_start i \<le> code_start j \<Longrightarrow> code_start j < code_start i + code_width i \<Longrightarrow> i = j"
proof (induction ks arbitrary: lo)
  case (Cons k ks)
  have low: "lo + code_width k \<le> code_start m" if "m \<in> set ks" for m
    using Cons.prems(1) that by (auto dest: tiles_lower)
  consider "i = k" "j = k" | "i = k" "j \<in> set ks" | "i \<in> set ks" "j = k" | "i \<in> set ks" "j \<in> set ks"
    using Cons.prems by auto
  then show ?case
  proof cases
    case 2
    with low [of j] Cons.prems show ?thesis by auto
  next
    case 3
    have "code_start k < lo + code_width k" using Cons.prems(1) by simp
    with 3 low [of i] Cons.prems(4) have False by simp
    then show ?thesis ..
  next
    case 4
    with Cons show ?thesis by auto
  qed simp
qed simp

lemma tiles_len: "tiles lo ks \<Longrightarrow> k \<in> set ks \<Longrightarrow> REQUEST_CODES_LENGTH ! k \<le> 30"
  by (induction ks arbitrary: lo) auto

lemma code_len_le: "k < 257 \<Longrightarrow> REQUEST_CODES_LENGTH ! k \<le> 30"
  using tiles_len [OF code_order_tiles code_order_set] .

lemma bits_nat_code_bits: "k < 257 \<Longrightarrow> bits_nat (code_bits k) = REQUEST_CODES ! k"
  by (simp add: code_bits_def bits_nat_nat_bits code_fits)

lemma length_code_bits [simp]: "length (code_bits k) = REQUEST_CODES_LENGTH ! k"
  by (simp add: code_bits_def)

lemma code_prefix_eq:
  assumes i: "i < 257" and j: "j < 257" and eq: "code_bits j = code_bits i @ r"
  shows "i = j"
proof -
  let ?li = "REQUEST_CODES_LENGTH ! i" and ?lj = "REQUEST_CODES_LENGTH ! j"
  have lj: "?lj = ?li + length r" using eq by (metis length_append length_code_bits)
  have "?lj \<le> 30" by (rule code_len_le [OF j])
  then have w: "code_width i = code_width j * 2 ^ length r"
    by (simp add: code_width_def lj flip: power_add)
  have "REQUEST_CODES ! j = REQUEST_CODES ! i * 2 ^ length r + bits_nat r"
    using bits_nat_append [of "code_bits i" r] i j by (simp add: bits_nat_code_bits flip: eq)
  then have s: "code_start j = code_start i + bits_nat r * code_width j"
    by (simp add: code_start_def w algebra_simps)
  have "bits_nat r * code_width j < code_width i"
    unfolding w using bits_nat_bound [of r] by (simp add: mult.commute)
  with s show ?thesis
    by (intro tiles_disjoint [OF code_order_tiles code_order_set [OF i] code_order_set [OF j]])
      simp_all
qed

lemma codes_prefix_free:
  assumes "i < 257" "j < 257" "code_bits i @ r = code_bits j @ r'"
  shows "i = j"
proof -
  from assms(3) obtain us where "code_bits j = code_bits i @ us \<or> code_bits i = code_bits j @ us"
    unfolding append_eq_append_conv2 by metis
  then show ?thesis using code_prefix_eq assms(1,2) by metis
qed

section \<open>Paths\<close>

definition node_path :: "nat \<Rightarrow> bool list" where
  "node_path s = nat_bits (node_path_len ! s) (node_path_val ! s)"

definition witness_ok :: "nat \<times> nat \<times> nat \<Rightarrow> bool" where
  "witness_ok lvw =
     (case lvw of (l, v, w) \<Rightarrow> w < 257 \<and> v < 2 ^ l \<and> l < REQUEST_CODES_LENGTH ! w \<and>
        REQUEST_CODES ! w div 2 ^ (REQUEST_CODES_LENGTH ! w - l) = v)"

lemma path_witness_all:
  "list_all witness_ok (zip node_path_len (zip node_path_val path_witness))"
  by (simp add: node_path_len_def node_path_val_def path_witness_def witness_ok_def huffman_lookup
      del: One_nat_def)

lemma path_tables_length:
  "length node_path_len = 256" "length node_path_val = 256" "length path_witness = 256"
  by (simp_all add: node_path_len_def node_path_val_def path_witness_def)

lemma path_witness_ok:
  "s < 256 \<Longrightarrow> witness_ok (node_path_len ! s, node_path_val ! s, path_witness ! s)"
  using path_witness_all by (simp add: list_all_length path_tables_length)

lemma path_fits: "s < 256 \<Longrightarrow> node_path_val ! s < 2 ^ (node_path_len ! s)"
  using path_witness_ok [of s] by (simp add: witness_ok_def)

lemma path_extends:
  assumes "s < 256"
  obtains w r where "w < 257" "code_bits w = node_path s @ r" "r \<noteq> []"
proof -
  let ?l = "node_path_len ! s" and ?v = "node_path_val ! s" and ?w = "path_witness ! s"
  let ?L = "REQUEST_CODES_LENGTH ! ?w" and ?C = "REQUEST_CODES ! ?w"
  from path_witness_ok [OF assms] have w: "?w < 257" "?v < 2 ^ ?l" "?l < ?L" "?C div 2 ^ (?L - ?l) = ?v"
    by (simp_all add: witness_ok_def)
  have "?C = ?v * 2 ^ (?L - ?l) + ?C mod 2 ^ (?L - ?l)"
    using div_mult_mod_eq [of ?C "2 ^ (?L - ?l)"] w(4) by simp
  then have "code_bits ?w = node_path s @ nat_bits (?L - ?l) (?C mod 2 ^ (?L - ?l))"
    using nat_bits_append [OF w(2), of "?C mod 2 ^ (?L - ?l)" "?L - ?l"] w(3)
    by (simp add: code_bits_def node_path_def)
  moreover have "nat_bits (?L - ?l) x \<noteq> []" for x
    using w(3) by (simp flip: length_greater_0_conv)
  ultimately show ?thesis using w(1) that by blast
qed

lemma path_no_code:
  assumes "s < 256" "k < 257"
  shows "node_path s \<noteq> code_bits k @ r"
proof
  assume eq: "node_path s = code_bits k @ r"
  obtain w r' where w: "w < 257" "code_bits w = node_path s @ r'" "r' \<noteq> []"
    using path_extends [OF assms(1)] .
  with eq have "code_bits w = code_bits k @ (r @ r')" by simp
  then have "k = w" by (rule code_prefix_eq [OF assms(2) w(1)])
  with \<open>code_bits w = code_bits k @ (r @ r')\<close> w(3) show False by simp
qed

end
