(* ===== verification/Huffman_Table_0.thy ===== *)
theory Huffman_Table_0
  imports Py_Prelude
begin

text \<open>
  Nodes 0 to 63 of \<open>HUFFMAN_TABLE\<close> (\<open>hpack/huffman_table.py\<close>), in blocks of eight nodes of
  sixteen entries: the next state, the flags and the byte to emit. The flags are
  \<open>HUFFMAN_COMPLETE = 1\<close>, \<open>HUFFMAN_EMIT_SYMBOL = 2\<close> and \<open>HUFFMAN_FAIL = 4\<close>; the table's
  \<open>HUFFMAN_COMPLETE | HUFFMAN_EMIT_SYMBOL\<close> is 3.
\<close>

type_synonym huffman_entry = "nat \<times> nat \<times> nat"

definition huffman_nodes_0 :: "huffman_entry list" where
  "huffman_nodes_0 =
    [(4, 0, 0), (5, 0, 0), (7, 0, 0), (8, 0, 0), (11, 0, 0), (12, 0, 0), (16, 0, 0), (19, 0, 0),
     (25, 0, 0), (28, 0, 0), (32, 0, 0), (35, 0, 0), (42, 0, 0), (49, 0, 0), (57, 0, 0), (64, 1, 0),
     (0, 3, 48), (0, 3, 49), (0, 3, 50), (0, 3, 97), (0, 3, 99), (0, 3, 101), (0, 3, 105), (0, 3, 111),
     (0, 3, 115), (0, 3, 116), (13, 0, 0), (14, 0, 0), (17, 0, 0), (18, 0, 0), (20, 0, 0), (21, 0, 0),
     (1, 2, 48), (22, 3, 48), (1, 2, 49), (22, 3, 49), (1, 2, 50), (22, 3, 50), (1, 2, 97), (22, 3, 97),
     (1, 2, 99), (22, 3, 99), (1, 2, 101), (22, 3, 101), (1, 2, 105), (22, 3, 105), (1, 2, 111), (22, 3, 111),
     (2, 2, 48), (9, 2, 48), (23, 2, 48), (40, 3, 48), (2, 2, 49), (9, 2, 49), (23, 2, 49), (40, 3, 49),
     (2, 2, 50), (9, 2, 50), (23, 2, 50), (40, 3, 50), (2, 2, 97), (9, 2, 97), (23, 2, 97), (40, 3, 97),
     (3, 2, 48), (6, 2, 48), (10, 2, 48), (15, 2, 48), (24, 2, 48), (31, 2, 48), (41, 2, 48), (56, 3, 48),
     (3, 2, 49), (6, 2, 49), (10, 2, 49), (15, 2, 49), (24, 2, 49), (31, 2, 49), (41, 2, 49), (56, 3, 49),
     (3, 2, 50), (6, 2, 50), (10, 2, 50), (15, 2, 50), (24, 2, 50), (31, 2, 50), (41, 2, 50), (56, 3, 50),
     (3, 2, 97), (6, 2, 97), (10, 2, 97), (15, 2, 97), (24, 2, 97), (31, 2, 97), (41, 2, 97), (56, 3, 97),
     (2, 2, 99), (9, 2, 99), (23, 2, 99), (40, 3, 99), (2, 2, 101), (9, 2, 101), (23, 2, 101), (40, 3, 101),
     (2, 2, 105), (9, 2, 105), (23, 2, 105), (40, 3, 105), (2, 2, 111), (9, 2, 111), (23, 2, 111), (40, 3, 111),
     (3, 2, 99), (6, 2, 99), (10, 2, 99), (15, 2, 99), (24, 2, 99), (31, 2, 99), (41, 2, 99), (56, 3, 99),
     (3, 2, 101), (6, 2, 101), (10, 2, 101), (15, 2, 101), (24, 2, 101), (31, 2, 101), (41, 2, 101), (56, 3, 101)]"

definition huffman_nodes_8 :: "huffman_entry list" where
  "huffman_nodes_8 =
    [(3, 2, 105), (6, 2, 105), (10, 2, 105), (15, 2, 105), (24, 2, 105), (31, 2, 105), (41, 2, 105), (56, 3, 105),
     (3, 2, 111), (6, 2, 111), (10, 2, 111), (15, 2, 111), (24, 2, 111), (31, 2, 111), (41, 2, 111), (56, 3, 111),
     (1, 2, 115), (22, 3, 115), (1, 2, 116), (22, 3, 116), (0, 3, 32), (0, 3, 37), (0, 3, 45), (0, 3, 46),
     (0, 3, 47), (0, 3, 51), (0, 3, 52), (0, 3, 53), (0, 3, 54), (0, 3, 55), (0, 3, 56), (0, 3, 57),
     (2, 2, 115), (9, 2, 115), (23, 2, 115), (40, 3, 115), (2, 2, 116), (9, 2, 116), (23, 2, 116), (40, 3, 116),
     (1, 2, 32), (22, 3, 32), (1, 2, 37), (22, 3, 37), (1, 2, 45), (22, 3, 45), (1, 2, 46), (22, 3, 46),
     (3, 2, 115), (6, 2, 115), (10, 2, 115), (15, 2, 115), (24, 2, 115), (31, 2, 115), (41, 2, 115), (56, 3, 115),
     (3, 2, 116), (6, 2, 116), (10, 2, 116), (15, 2, 116), (24, 2, 116), (31, 2, 116), (41, 2, 116), (56, 3, 116),
     (2, 2, 32), (9, 2, 32), (23, 2, 32), (40, 3, 32), (2, 2, 37), (9, 2, 37), (23, 2, 37), (40, 3, 37),
     (2, 2, 45), (9, 2, 45), (23, 2, 45), (40, 3, 45), (2, 2, 46), (9, 2, 46), (23, 2, 46), (40, 3, 46),
     (3, 2, 32), (6, 2, 32), (10, 2, 32), (15, 2, 32), (24, 2, 32), (31, 2, 32), (41, 2, 32), (56, 3, 32),
     (3, 2, 37), (6, 2, 37), (10, 2, 37), (15, 2, 37), (24, 2, 37), (31, 2, 37), (41, 2, 37), (56, 3, 37),
     (3, 2, 45), (6, 2, 45), (10, 2, 45), (15, 2, 45), (24, 2, 45), (31, 2, 45), (41, 2, 45), (56, 3, 45),
     (3, 2, 46), (6, 2, 46), (10, 2, 46), (15, 2, 46), (24, 2, 46), (31, 2, 46), (41, 2, 46), (56, 3, 46),
     (1, 2, 47), (22, 3, 47), (1, 2, 51), (22, 3, 51), (1, 2, 52), (22, 3, 52), (1, 2, 53), (22, 3, 53),
     (1, 2, 54), (22, 3, 54), (1, 2, 55), (22, 3, 55), (1, 2, 56), (22, 3, 56), (1, 2, 57), (22, 3, 57)]"

definition huffman_nodes_16 :: "huffman_entry list" where
  "huffman_nodes_16 =
    [(2, 2, 47), (9, 2, 47), (23, 2, 47), (40, 3, 47), (2, 2, 51), (9, 2, 51), (23, 2, 51), (40, 3, 51),
     (2, 2, 52), (9, 2, 52), (23, 2, 52), (40, 3, 52), (2, 2, 53), (9, 2, 53), (23, 2, 53), (40, 3, 53),
     (3, 2, 47), (6, 2, 47), (10, 2, 47), (15, 2, 47), (24, 2, 47), (31, 2, 47), (41, 2, 47), (56, 3, 47),
     (3, 2, 51), (6, 2, 51), (10, 2, 51), (15, 2, 51), (24, 2, 51), (31, 2, 51), (41, 2, 51), (56, 3, 51),
     (3, 2, 52), (6, 2, 52), (10, 2, 52), (15, 2, 52), (24, 2, 52), (31, 2, 52), (41, 2, 52), (56, 3, 52),
     (3, 2, 53), (6, 2, 53), (10, 2, 53), (15, 2, 53), (24, 2, 53), (31, 2, 53), (41, 2, 53), (56, 3, 53),
     (2, 2, 54), (9, 2, 54), (23, 2, 54), (40, 3, 54), (2, 2, 55), (9, 2, 55), (23, 2, 55), (40, 3, 55),
     (2, 2, 56), (9, 2, 56), (23, 2, 56), (40, 3, 56), (2, 2, 57), (9, 2, 57), (23, 2, 57), (40, 3, 57),
     (3, 2, 54), (6, 2, 54), (10, 2, 54), (15, 2, 54), (24, 2, 54), (31, 2, 54), (41, 2, 54), (56, 3, 54),
     (3, 2, 55), (6, 2, 55), (10, 2, 55), (15, 2, 55), (24, 2, 55), (31, 2, 55), (41, 2, 55), (56, 3, 55),
     (3, 2, 56), (6, 2, 56), (10, 2, 56), (15, 2, 56), (24, 2, 56), (31, 2, 56), (41, 2, 56), (56, 3, 56),
     (3, 2, 57), (6, 2, 57), (10, 2, 57), (15, 2, 57), (24, 2, 57), (31, 2, 57), (41, 2, 57), (56, 3, 57),
     (26, 0, 0), (27, 0, 0), (29, 0, 0), (30, 0, 0), (33, 0, 0), (34, 0, 0), (36, 0, 0), (37, 0, 0),
     (43, 0, 0), (46, 0, 0), (50, 0, 0), (53, 0, 0), (58, 0, 0), (61, 0, 0), (65, 0, 0), (68, 1, 0),
     (0, 3, 61), (0, 3, 65), (0, 3, 95), (0, 3, 98), (0, 3, 100), (0, 3, 102), (0, 3, 103), (0, 3, 104),
     (0, 3, 108), (0, 3, 109), (0, 3, 110), (0, 3, 112), (0, 3, 114), (0, 3, 117), (38, 0, 0), (39, 0, 0)]"

definition huffman_nodes_24 :: "huffman_entry list" where
  "huffman_nodes_24 =
    [(1, 2, 61), (22, 3, 61), (1, 2, 65), (22, 3, 65), (1, 2, 95), (22, 3, 95), (1, 2, 98), (22, 3, 98),
     (1, 2, 100), (22, 3, 100), (1, 2, 102), (22, 3, 102), (1, 2, 103), (22, 3, 103), (1, 2, 104), (22, 3, 104),
     (2, 2, 61), (9, 2, 61), (23, 2, 61), (40, 3, 61), (2, 2, 65), (9, 2, 65), (23, 2, 65), (40, 3, 65),
     (2, 2, 95), (9, 2, 95), (23, 2, 95), (40, 3, 95), (2, 2, 98), (9, 2, 98), (23, 2, 98), (40, 3, 98),
     (3, 2, 61), (6, 2, 61), (10, 2, 61), (15, 2, 61), (24, 2, 61), (31, 2, 61), (41, 2, 61), (56, 3, 61),
     (3, 2, 65), (6, 2, 65), (10, 2, 65), (15, 2, 65), (24, 2, 65), (31, 2, 65), (41, 2, 65), (56, 3, 65),
     (3, 2, 95), (6, 2, 95), (10, 2, 95), (15, 2, 95), (24, 2, 95), (31, 2, 95), (41, 2, 95), (56, 3, 95),
     (3, 2, 98), (6, 2, 98), (10, 2, 98), (15, 2, 98), (24, 2, 98), (31, 2, 98), (41, 2, 98), (56, 3, 98),
     (2, 2, 100), (9, 2, 100), (23, 2, 100), (40, 3, 100), (2, 2, 102), (9, 2, 102), (23, 2, 102), (40, 3, 102),
     (2, 2, 103), (9, 2, 103), (23, 2, 103), (40, 3, 103), (2, 2, 104), (9, 2, 104), (23, 2, 104), (40, 3, 104),
     (3, 2, 100), (6, 2, 100), (10, 2, 100), (15, 2, 100), (24, 2, 100), (31, 2, 100), (41, 2, 100), (56, 3, 100),
     (3, 2, 102), (6, 2, 102), (10, 2, 102), (15, 2, 102), (24, 2, 102), (31, 2, 102), (41, 2, 102), (56, 3, 102),
     (3, 2, 103), (6, 2, 103), (10, 2, 103), (15, 2, 103), (24, 2, 103), (31, 2, 103), (41, 2, 103), (56, 3, 103),
     (3, 2, 104), (6, 2, 104), (10, 2, 104), (15, 2, 104), (24, 2, 104), (31, 2, 104), (41, 2, 104), (56, 3, 104),
     (1, 2, 108), (22, 3, 108), (1, 2, 109), (22, 3, 109), (1, 2, 110), (22, 3, 110), (1, 2, 112), (22, 3, 112),
     (1, 2, 114), (22, 3, 114), (1, 2, 117), (22, 3, 117), (0, 3, 58), (0, 3, 66), (0, 3, 67), (0, 3, 68)]"

definition huffman_nodes_32 :: "huffman_entry list" where
  "huffman_nodes_32 =
    [(2, 2, 108), (9, 2, 108), (23, 2, 108), (40, 3, 108), (2, 2, 109), (9, 2, 109), (23, 2, 109), (40, 3, 109),
     (2, 2, 110), (9, 2, 110), (23, 2, 110), (40, 3, 110), (2, 2, 112), (9, 2, 112), (23, 2, 112), (40, 3, 112),
     (3, 2, 108), (6, 2, 108), (10, 2, 108), (15, 2, 108), (24, 2, 108), (31, 2, 108), (41, 2, 108), (56, 3, 108),
     (3, 2, 109), (6, 2, 109), (10, 2, 109), (15, 2, 109), (24, 2, 109), (31, 2, 109), (41, 2, 109), (56, 3, 109),
     (3, 2, 110), (6, 2, 110), (10, 2, 110), (15, 2, 110), (24, 2, 110), (31, 2, 110), (41, 2, 110), (56, 3, 110),
     (3, 2, 112), (6, 2, 112), (10, 2, 112), (15, 2, 112), (24, 2, 112), (31, 2, 112), (41, 2, 112), (56, 3, 112),
     (2, 2, 114), (9, 2, 114), (23, 2, 114), (40, 3, 114), (2, 2, 117), (9, 2, 117), (23, 2, 117), (40, 3, 117),
     (1, 2, 58), (22, 3, 58), (1, 2, 66), (22, 3, 66), (1, 2, 67), (22, 3, 67), (1, 2, 68), (22, 3, 68),
     (3, 2, 114), (6, 2, 114), (10, 2, 114), (15, 2, 114), (24, 2, 114), (31, 2, 114), (41, 2, 114), (56, 3, 114),
     (3, 2, 117), (6, 2, 117), (10, 2, 117), (15, 2, 117), (24, 2, 117), (31, 2, 117), (41, 2, 117), (56, 3, 117),
     (2, 2, 58), (9, 2, 58), (23, 2, 58), (40, 3, 58), (2, 2, 66), (9, 2, 66), (23, 2, 66), (40, 3, 66),
     (2, 2, 67), (9, 2, 67), (23, 2, 67), (40, 3, 67), (2, 2, 68), (9, 2, 68), (23, 2, 68), (40, 3, 68),
     (3, 2, 58), (6, 2, 58), (10, 2, 58), (15, 2, 58), (24, 2, 58), (31, 2, 58), (41, 2, 58), (56, 3, 58),
     (3, 2, 66), (6, 2, 66), (10, 2, 66), (15, 2, 66), (24, 2, 66), (31, 2, 66), (41, 2, 66), (56, 3, 66),
     (3, 2, 67), (6, 2, 67), (10, 2, 67), (15, 2, 67), (24, 2, 67), (31, 2, 67), (41, 2, 67), (56, 3, 67),
     (3, 2, 68), (6, 2, 68), (10, 2, 68), (15, 2, 68), (24, 2, 68), (31, 2, 68), (41, 2, 68), (56, 3, 68)]"

definition huffman_nodes_40 :: "huffman_entry list" where
  "huffman_nodes_40 =
    [(44, 0, 0), (45, 0, 0), (47, 0, 0), (48, 0, 0), (51, 0, 0), (52, 0, 0), (54, 0, 0), (55, 0, 0),
     (59, 0, 0), (60, 0, 0), (62, 0, 0), (63, 0, 0), (66, 0, 0), (67, 0, 0), (69, 0, 0), (72, 1, 0),
     (0, 3, 69), (0, 3, 70), (0, 3, 71), (0, 3, 72), (0, 3, 73), (0, 3, 74), (0, 3, 75), (0, 3, 76),
     (0, 3, 77), (0, 3, 78), (0, 3, 79), (0, 3, 80), (0, 3, 81), (0, 3, 82), (0, 3, 83), (0, 3, 84),
     (1, 2, 69), (22, 3, 69), (1, 2, 70), (22, 3, 70), (1, 2, 71), (22, 3, 71), (1, 2, 72), (22, 3, 72),
     (1, 2, 73), (22, 3, 73), (1, 2, 74), (22, 3, 74), (1, 2, 75), (22, 3, 75), (1, 2, 76), (22, 3, 76),
     (2, 2, 69), (9, 2, 69), (23, 2, 69), (40, 3, 69), (2, 2, 70), (9, 2, 70), (23, 2, 70), (40, 3, 70),
     (2, 2, 71), (9, 2, 71), (23, 2, 71), (40, 3, 71), (2, 2, 72), (9, 2, 72), (23, 2, 72), (40, 3, 72),
     (3, 2, 69), (6, 2, 69), (10, 2, 69), (15, 2, 69), (24, 2, 69), (31, 2, 69), (41, 2, 69), (56, 3, 69),
     (3, 2, 70), (6, 2, 70), (10, 2, 70), (15, 2, 70), (24, 2, 70), (31, 2, 70), (41, 2, 70), (56, 3, 70),
     (3, 2, 71), (6, 2, 71), (10, 2, 71), (15, 2, 71), (24, 2, 71), (31, 2, 71), (41, 2, 71), (56, 3, 71),
     (3, 2, 72), (6, 2, 72), (10, 2, 72), (15, 2, 72), (24, 2, 72), (31, 2, 72), (41, 2, 72), (56, 3, 72),
     (2, 2, 73), (9, 2, 73), (23, 2, 73), (40, 3, 73), (2, 2, 74), (9, 2, 74), (23, 2, 74), (40, 3, 74),
     (2, 2, 75), (9, 2, 75), (23, 2, 75), (40, 3, 75), (2, 2, 76), (9, 2, 76), (23, 2, 76), (40, 3, 76),
     (3, 2, 73), (6, 2, 73), (10, 2, 73), (15, 2, 73), (24, 2, 73), (31, 2, 73), (41, 2, 73), (56, 3, 73),
     (3, 2, 74), (6, 2, 74), (10, 2, 74), (15, 2, 74), (24, 2, 74), (31, 2, 74), (41, 2, 74), (56, 3, 74)]"

definition huffman_nodes_48 :: "huffman_entry list" where
  "huffman_nodes_48 =
    [(3, 2, 75), (6, 2, 75), (10, 2, 75), (15, 2, 75), (24, 2, 75), (31, 2, 75), (41, 2, 75), (56, 3, 75),
     (3, 2, 76), (6, 2, 76), (10, 2, 76), (15, 2, 76), (24, 2, 76), (31, 2, 76), (41, 2, 76), (56, 3, 76),
     (1, 2, 77), (22, 3, 77), (1, 2, 78), (22, 3, 78), (1, 2, 79), (22, 3, 79), (1, 2, 80), (22, 3, 80),
     (1, 2, 81), (22, 3, 81), (1, 2, 82), (22, 3, 82), (1, 2, 83), (22, 3, 83), (1, 2, 84), (22, 3, 84),
     (2, 2, 77), (9, 2, 77), (23, 2, 77), (40, 3, 77), (2, 2, 78), (9, 2, 78), (23, 2, 78), (40, 3, 78),
     (2, 2, 79), (9, 2, 79), (23, 2, 79), (40, 3, 79), (2, 2, 80), (9, 2, 80), (23, 2, 80), (40, 3, 80),
     (3, 2, 77), (6, 2, 77), (10, 2, 77), (15, 2, 77), (24, 2, 77), (31, 2, 77), (41, 2, 77), (56, 3, 77),
     (3, 2, 78), (6, 2, 78), (10, 2, 78), (15, 2, 78), (24, 2, 78), (31, 2, 78), (41, 2, 78), (56, 3, 78),
     (3, 2, 79), (6, 2, 79), (10, 2, 79), (15, 2, 79), (24, 2, 79), (31, 2, 79), (41, 2, 79), (56, 3, 79),
     (3, 2, 80), (6, 2, 80), (10, 2, 80), (15, 2, 80), (24, 2, 80), (31, 2, 80), (41, 2, 80), (56, 3, 80),
     (2, 2, 81), (9, 2, 81), (23, 2, 81), (40, 3, 81), (2, 2, 82), (9, 2, 82), (23, 2, 82), (40, 3, 82),
     (2, 2, 83), (9, 2, 83), (23, 2, 83), (40, 3, 83), (2, 2, 84), (9, 2, 84), (23, 2, 84), (40, 3, 84),
     (3, 2, 81), (6, 2, 81), (10, 2, 81), (15, 2, 81), (24, 2, 81), (31, 2, 81), (41, 2, 81), (56, 3, 81),
     (3, 2, 82), (6, 2, 82), (10, 2, 82), (15, 2, 82), (24, 2, 82), (31, 2, 82), (41, 2, 82), (56, 3, 82),
     (3, 2, 83), (6, 2, 83), (10, 2, 83), (15, 2, 83), (24, 2, 83), (31, 2, 83), (41, 2, 83), (56, 3, 83),
     (3, 2, 84), (6, 2, 84), (10, 2, 84), (15, 2, 84), (24, 2, 84), (31, 2, 84), (41, 2, 84), (56, 3, 84)]"

definition huffman_nodes_56 :: "huffman_entry list" where
  "huffman_nodes_56 =
    [(0, 3, 85), (0, 3, 86), (0, 3, 87), (0, 3, 89), (0, 3, 106), (0, 3, 107), (0, 3, 113), (0, 3, 118),
     (0, 3, 119), (0, 3, 120), (0, 3, 121), (0, 3, 122), (70, 0, 0), (71, 0, 0), (73, 0, 0), (74, 1, 0),
     (1, 2, 85), (22, 3, 85), (1, 2, 86), (22, 3, 86), (1, 2, 87), (22, 3, 87), (1, 2, 89), (22, 3, 89),
     (1, 2, 106), (22, 3, 106), (1, 2, 107), (22, 3, 107), (1, 2, 113), (22, 3, 113), (1, 2, 118), (22, 3, 118),
     (2, 2, 85), (9, 2, 85), (23, 2, 85), (40, 3, 85), (2, 2, 86), (9, 2, 86), (23, 2, 86), (40, 3, 86),
     (2, 2, 87), (9, 2, 87), (23, 2, 87), (40, 3, 87), (2, 2, 89), (9, 2, 89), (23, 2, 89), (40, 3, 89),
     (3, 2, 85), (6, 2, 85), (10, 2, 85), (15, 2, 85), (24, 2, 85), (31, 2, 85), (41, 2, 85), (56, 3, 85),
     (3, 2, 86), (6, 2, 86), (10, 2, 86), (15, 2, 86), (24, 2, 86), (31, 2, 86), (41, 2, 86), (56, 3, 86),
     (3, 2, 87), (6, 2, 87), (10, 2, 87), (15, 2, 87), (24, 2, 87), (31, 2, 87), (41, 2, 87), (56, 3, 87),
     (3, 2, 89), (6, 2, 89), (10, 2, 89), (15, 2, 89), (24, 2, 89), (31, 2, 89), (41, 2, 89), (56, 3, 89),
     (2, 2, 106), (9, 2, 106), (23, 2, 106), (40, 3, 106), (2, 2, 107), (9, 2, 107), (23, 2, 107), (40, 3, 107),
     (2, 2, 113), (9, 2, 113), (23, 2, 113), (40, 3, 113), (2, 2, 118), (9, 2, 118), (23, 2, 118), (40, 3, 118),
     (3, 2, 106), (6, 2, 106), (10, 2, 106), (15, 2, 106), (24, 2, 106), (31, 2, 106), (41, 2, 106), (56, 3, 106),
     (3, 2, 107), (6, 2, 107), (10, 2, 107), (15, 2, 107), (24, 2, 107), (31, 2, 107), (41, 2, 107), (56, 3, 107),
     (3, 2, 113), (6, 2, 113), (10, 2, 113), (15, 2, 113), (24, 2, 113), (31, 2, 113), (41, 2, 113), (56, 3, 113),
     (3, 2, 118), (6, 2, 118), (10, 2, 118), (15, 2, 118), (24, 2, 118), (31, 2, 118), (41, 2, 118), (56, 3, 118)]"

end
