(* ===== verification/Huffman_Check_0.thy ===== *)
theory Huffman_Check_0
  imports Huffman_Paths Huffman_Table_0
begin

text \<open>Every entry of nodes 0 to 63 of the table is right.\<close>

lemma huffman_nodes_0_ok: "entries_ok 0 0 huffman_nodes_0"
  by (simp add: huffman_nodes_0_def entry_ok_def huffman_lookup del: One_nat_def)

lemma huffman_nodes_8_ok: "entries_ok 8 0 huffman_nodes_8"
  by (simp add: huffman_nodes_8_def entry_ok_def huffman_lookup del: One_nat_def)

lemma huffman_nodes_16_ok: "entries_ok 16 0 huffman_nodes_16"
  by (simp add: huffman_nodes_16_def entry_ok_def huffman_lookup del: One_nat_def)

lemma huffman_nodes_24_ok: "entries_ok 24 0 huffman_nodes_24"
  by (simp add: huffman_nodes_24_def entry_ok_def huffman_lookup del: One_nat_def)

lemma huffman_nodes_32_ok: "entries_ok 32 0 huffman_nodes_32"
  by (simp add: huffman_nodes_32_def entry_ok_def huffman_lookup del: One_nat_def)

lemma huffman_nodes_40_ok: "entries_ok 40 0 huffman_nodes_40"
  by (simp add: huffman_nodes_40_def entry_ok_def huffman_lookup del: One_nat_def)

lemma huffman_nodes_48_ok: "entries_ok 48 0 huffman_nodes_48"
  by (simp add: huffman_nodes_48_def entry_ok_def huffman_lookup del: One_nat_def)

lemma huffman_nodes_56_ok: "entries_ok 56 0 huffman_nodes_56"
  by (simp add: huffman_nodes_56_def entry_ok_def huffman_lookup del: One_nat_def)

end
