(* ===== verification/Huffman_Table_1.thy ===== *)
theory Huffman_Table_1
  imports Huffman_Table_0
begin

text \<open>Nodes 64 to 127 of \<open>HUFFMAN_TABLE\<close> (\<open>hpack/huffman_table.py\<close>).\<close>

definition huffman_nodes_64 :: "huffman_entry list" where
  "huffman_nodes_64 =
    [(1, 2, 119), (22, 3, 119), (1, 2, 120), (22, 3, 120), (1, 2, 121), (22, 3, 121), (1, 2, 122), (22, 3, 122),
     (0, 3, 38), (0, 3, 42), (0, 3, 44), (0, 3, 59), (0, 3, 88), (0, 3, 90), (75, 0, 0), (78, 0, 0),
     (2, 2, 119), (9, 2, 119), (23, 2, 119), (40, 3, 119), (2, 2, 120), (9, 2, 120), (23, 2, 120), (40, 3, 120),
     (2, 2, 121), (9, 2, 121), (23, 2, 121), (40, 3, 121), (2, 2, 122), (9, 2, 122), (23, 2, 122), (40, 3, 122),
     (3, 2, 119), (6, 2, 119), (10, 2, 119), (15, 2, 119), (24, 2, 119), (31, 2, 119), (41, 2, 119), (56, 3, 119),
     (3, 2, 120), (6, 2, 120), (10, 2, 120), (15, 2, 120), (24, 2, 120), (31, 2, 120), (41, 2, 120), (56, 3, 120),
     (3, 2, 121), (6, 2, 121), (10, 2, 121), (15, 2, 121), (24, 2, 121), (31, 2, 121), (41, 2, 121), (56, 3, 121),
     (3, 2, 122), (6, 2, 122), (10, 2, 122), (15, 2, 122), (24, 2, 122), (31, 2, 122), (41, 2, 122), (56, 3, 122),
     (1, 2, 38), (22, 3, 38), (1, 2, 42), (22, 3, 42), (1, 2, 44), (22, 3, 44), (1, 2, 59), (22, 3, 59),
     (1, 2, 88), (22, 3, 88), (1, 2, 90), (22, 3, 90), (76, 0, 0), (77, 0, 0), (79, 0, 0), (81, 0, 0),
     (2, 2, 38), (9, 2, 38), (23, 2, 38), (40, 3, 38), (2, 2, 42), (9, 2, 42), (23, 2, 42), (40, 3, 42),
     (2, 2, 44), (9, 2, 44), (23, 2, 44), (40, 3, 44), (2, 2, 59), (9, 2, 59), (23, 2, 59), (40, 3, 59),
     (3, 2, 38), (6, 2, 38), (10, 2, 38), (15, 2, 38), (24, 2, 38), (31, 2, 38), (41, 2, 38), (56, 3, 38),
     (3, 2, 42), (6, 2, 42), (10, 2, 42), (15, 2, 42), (24, 2, 42), (31, 2, 42), (41, 2, 42), (56, 3, 42),
     (3, 2, 44), (6, 2, 44), (10, 2, 44), (15, 2, 44), (24, 2, 44), (31, 2, 44), (41, 2, 44), (56, 3, 44),
     (3, 2, 59), (6, 2, 59), (10, 2, 59), (15, 2, 59), (24, 2, 59), (31, 2, 59), (41, 2, 59), (56, 3, 59)]"

definition huffman_nodes_72 :: "huffman_entry list" where
  "huffman_nodes_72 =
    [(2, 2, 88), (9, 2, 88), (23, 2, 88), (40, 3, 88), (2, 2, 90), (9, 2, 90), (23, 2, 90), (40, 3, 90),
     (0, 3, 33), (0, 3, 34), (0, 3, 40), (0, 3, 41), (0, 3, 63), (80, 0, 0), (82, 0, 0), (84, 0, 0),
     (3, 2, 88), (6, 2, 88), (10, 2, 88), (15, 2, 88), (24, 2, 88), (31, 2, 88), (41, 2, 88), (56, 3, 88),
     (3, 2, 90), (6, 2, 90), (10, 2, 90), (15, 2, 90), (24, 2, 90), (31, 2, 90), (41, 2, 90), (56, 3, 90),
     (1, 2, 33), (22, 3, 33), (1, 2, 34), (22, 3, 34), (1, 2, 40), (22, 3, 40), (1, 2, 41), (22, 3, 41),
     (1, 2, 63), (22, 3, 63), (0, 3, 39), (0, 3, 43), (0, 3, 124), (83, 0, 0), (85, 0, 0), (88, 0, 0),
     (2, 2, 33), (9, 2, 33), (23, 2, 33), (40, 3, 33), (2, 2, 34), (9, 2, 34), (23, 2, 34), (40, 3, 34),
     (2, 2, 40), (9, 2, 40), (23, 2, 40), (40, 3, 40), (2, 2, 41), (9, 2, 41), (23, 2, 41), (40, 3, 41),
     (3, 2, 33), (6, 2, 33), (10, 2, 33), (15, 2, 33), (24, 2, 33), (31, 2, 33), (41, 2, 33), (56, 3, 33),
     (3, 2, 34), (6, 2, 34), (10, 2, 34), (15, 2, 34), (24, 2, 34), (31, 2, 34), (41, 2, 34), (56, 3, 34),
     (3, 2, 40), (6, 2, 40), (10, 2, 40), (15, 2, 40), (24, 2, 40), (31, 2, 40), (41, 2, 40), (56, 3, 40),
     (3, 2, 41), (6, 2, 41), (10, 2, 41), (15, 2, 41), (24, 2, 41), (31, 2, 41), (41, 2, 41), (56, 3, 41),
     (2, 2, 63), (9, 2, 63), (23, 2, 63), (40, 3, 63), (1, 2, 39), (22, 3, 39), (1, 2, 43), (22, 3, 43),
     (1, 2, 124), (22, 3, 124), (0, 3, 35), (0, 3, 62), (86, 0, 0), (87, 0, 0), (89, 0, 0), (90, 0, 0),
     (3, 2, 63), (6, 2, 63), (10, 2, 63), (15, 2, 63), (24, 2, 63), (31, 2, 63), (41, 2, 63), (56, 3, 63),
     (2, 2, 39), (9, 2, 39), (23, 2, 39), (40, 3, 39), (2, 2, 43), (9, 2, 43), (23, 2, 43), (40, 3, 43)]"

definition huffman_nodes_80 :: "huffman_entry list" where
  "huffman_nodes_80 =
    [(3, 2, 39), (6, 2, 39), (10, 2, 39), (15, 2, 39), (24, 2, 39), (31, 2, 39), (41, 2, 39), (56, 3, 39),
     (3, 2, 43), (6, 2, 43), (10, 2, 43), (15, 2, 43), (24, 2, 43), (31, 2, 43), (41, 2, 43), (56, 3, 43),
     (2, 2, 124), (9, 2, 124), (23, 2, 124), (40, 3, 124), (1, 2, 35), (22, 3, 35), (1, 2, 62), (22, 3, 62),
     (0, 3, 0), (0, 3, 36), (0, 3, 64), (0, 3, 91), (0, 3, 93), (0, 3, 126), (91, 0, 0), (92, 0, 0),
     (3, 2, 124), (6, 2, 124), (10, 2, 124), (15, 2, 124), (24, 2, 124), (31, 2, 124), (41, 2, 124), (56, 3, 124),
     (2, 2, 35), (9, 2, 35), (23, 2, 35), (40, 3, 35), (2, 2, 62), (9, 2, 62), (23, 2, 62), (40, 3, 62),
     (3, 2, 35), (6, 2, 35), (10, 2, 35), (15, 2, 35), (24, 2, 35), (31, 2, 35), (41, 2, 35), (56, 3, 35),
     (3, 2, 62), (6, 2, 62), (10, 2, 62), (15, 2, 62), (24, 2, 62), (31, 2, 62), (41, 2, 62), (56, 3, 62),
     (1, 2, 0), (22, 3, 0), (1, 2, 36), (22, 3, 36), (1, 2, 64), (22, 3, 64), (1, 2, 91), (22, 3, 91),
     (1, 2, 93), (22, 3, 93), (1, 2, 126), (22, 3, 126), (0, 3, 94), (0, 3, 125), (93, 0, 0), (94, 0, 0),
     (2, 2, 0), (9, 2, 0), (23, 2, 0), (40, 3, 0), (2, 2, 36), (9, 2, 36), (23, 2, 36), (40, 3, 36),
     (2, 2, 64), (9, 2, 64), (23, 2, 64), (40, 3, 64), (2, 2, 91), (9, 2, 91), (23, 2, 91), (40, 3, 91),
     (3, 2, 0), (6, 2, 0), (10, 2, 0), (15, 2, 0), (24, 2, 0), (31, 2, 0), (41, 2, 0), (56, 3, 0),
     (3, 2, 36), (6, 2, 36), (10, 2, 36), (15, 2, 36), (24, 2, 36), (31, 2, 36), (41, 2, 36), (56, 3, 36),
     (3, 2, 64), (6, 2, 64), (10, 2, 64), (15, 2, 64), (24, 2, 64), (31, 2, 64), (41, 2, 64), (56, 3, 64),
     (3, 2, 91), (6, 2, 91), (10, 2, 91), (15, 2, 91), (24, 2, 91), (31, 2, 91), (41, 2, 91), (56, 3, 91)]"

definition huffman_nodes_88 :: "huffman_entry list" where
  "huffman_nodes_88 =
    [(2, 2, 93), (9, 2, 93), (23, 2, 93), (40, 3, 93), (2, 2, 126), (9, 2, 126), (23, 2, 126), (40, 3, 126),
     (1, 2, 94), (22, 3, 94), (1, 2, 125), (22, 3, 125), (0, 3, 60), (0, 3, 96), (0, 3, 123), (95, 0, 0),
     (3, 2, 93), (6, 2, 93), (10, 2, 93), (15, 2, 93), (24, 2, 93), (31, 2, 93), (41, 2, 93), (56, 3, 93),
     (3, 2, 126), (6, 2, 126), (10, 2, 126), (15, 2, 126), (24, 2, 126), (31, 2, 126), (41, 2, 126), (56, 3, 126),
     (2, 2, 94), (9, 2, 94), (23, 2, 94), (40, 3, 94), (2, 2, 125), (9, 2, 125), (23, 2, 125), (40, 3, 125),
     (1, 2, 60), (22, 3, 60), (1, 2, 96), (22, 3, 96), (1, 2, 123), (22, 3, 123), (96, 0, 0), (110, 0, 0),
     (3, 2, 94), (6, 2, 94), (10, 2, 94), (15, 2, 94), (24, 2, 94), (31, 2, 94), (41, 2, 94), (56, 3, 94),
     (3, 2, 125), (6, 2, 125), (10, 2, 125), (15, 2, 125), (24, 2, 125), (31, 2, 125), (41, 2, 125), (56, 3, 125),
     (2, 2, 60), (9, 2, 60), (23, 2, 60), (40, 3, 60), (2, 2, 96), (9, 2, 96), (23, 2, 96), (40, 3, 96),
     (2, 2, 123), (9, 2, 123), (23, 2, 123), (40, 3, 123), (97, 0, 0), (101, 0, 0), (111, 0, 0), (133, 0, 0),
     (3, 2, 60), (6, 2, 60), (10, 2, 60), (15, 2, 60), (24, 2, 60), (31, 2, 60), (41, 2, 60), (56, 3, 60),
     (3, 2, 96), (6, 2, 96), (10, 2, 96), (15, 2, 96), (24, 2, 96), (31, 2, 96), (41, 2, 96), (56, 3, 96),
     (3, 2, 123), (6, 2, 123), (10, 2, 123), (15, 2, 123), (24, 2, 123), (31, 2, 123), (41, 2, 123), (56, 3, 123),
     (98, 0, 0), (99, 0, 0), (102, 0, 0), (105, 0, 0), (112, 0, 0), (119, 0, 0), (134, 0, 0), (153, 0, 0),
     (0, 3, 92), (0, 3, 195), (0, 3, 208), (100, 0, 0), (103, 0, 0), (104, 0, 0), (106, 0, 0), (107, 0, 0),
     (113, 0, 0), (116, 0, 0), (120, 0, 0), (126, 0, 0), (135, 0, 0), (142, 0, 0), (154, 0, 0), (169, 0, 0)]"

definition huffman_nodes_96 :: "huffman_entry list" where
  "huffman_nodes_96 =
    [(1, 2, 92), (22, 3, 92), (1, 2, 195), (22, 3, 195), (1, 2, 208), (22, 3, 208), (0, 3, 128), (0, 3, 130),
     (0, 3, 131), (0, 3, 162), (0, 3, 184), (0, 3, 194), (0, 3, 224), (0, 3, 226), (108, 0, 0), (109, 0, 0),
     (2, 2, 92), (9, 2, 92), (23, 2, 92), (40, 3, 92), (2, 2, 195), (9, 2, 195), (23, 2, 195), (40, 3, 195),
     (2, 2, 208), (9, 2, 208), (23, 2, 208), (40, 3, 208), (1, 2, 128), (22, 3, 128), (1, 2, 130), (22, 3, 130),
     (3, 2, 92), (6, 2, 92), (10, 2, 92), (15, 2, 92), (24, 2, 92), (31, 2, 92), (41, 2, 92), (56, 3, 92),
     (3, 2, 195), (6, 2, 195), (10, 2, 195), (15, 2, 195), (24, 2, 195), (31, 2, 195), (41, 2, 195), (56, 3, 195),
     (3, 2, 208), (6, 2, 208), (10, 2, 208), (15, 2, 208), (24, 2, 208), (31, 2, 208), (41, 2, 208), (56, 3, 208),
     (2, 2, 128), (9, 2, 128), (23, 2, 128), (40, 3, 128), (2, 2, 130), (9, 2, 130), (23, 2, 130), (40, 3, 130),
     (3, 2, 128), (6, 2, 128), (10, 2, 128), (15, 2, 128), (24, 2, 128), (31, 2, 128), (41, 2, 128), (56, 3, 128),
     (3, 2, 130), (6, 2, 130), (10, 2, 130), (15, 2, 130), (24, 2, 130), (31, 2, 130), (41, 2, 130), (56, 3, 130),
     (1, 2, 131), (22, 3, 131), (1, 2, 162), (22, 3, 162), (1, 2, 184), (22, 3, 184), (1, 2, 194), (22, 3, 194),
     (1, 2, 224), (22, 3, 224), (1, 2, 226), (22, 3, 226), (0, 3, 153), (0, 3, 161), (0, 3, 167), (0, 3, 172),
     (2, 2, 131), (9, 2, 131), (23, 2, 131), (40, 3, 131), (2, 2, 162), (9, 2, 162), (23, 2, 162), (40, 3, 162),
     (2, 2, 184), (9, 2, 184), (23, 2, 184), (40, 3, 184), (2, 2, 194), (9, 2, 194), (23, 2, 194), (40, 3, 194),
     (3, 2, 131), (6, 2, 131), (10, 2, 131), (15, 2, 131), (24, 2, 131), (31, 2, 131), (41, 2, 131), (56, 3, 131),
     (3, 2, 162), (6, 2, 162), (10, 2, 162), (15, 2, 162), (24, 2, 162), (31, 2, 162), (41, 2, 162), (56, 3, 162)]"

definition huffman_nodes_104 :: "huffman_entry list" where
  "huffman_nodes_104 =
    [(3, 2, 184), (6, 2, 184), (10, 2, 184), (15, 2, 184), (24, 2, 184), (31, 2, 184), (41, 2, 184), (56, 3, 184),
     (3, 2, 194), (6, 2, 194), (10, 2, 194), (15, 2, 194), (24, 2, 194), (31, 2, 194), (41, 2, 194), (56, 3, 194),
     (2, 2, 224), (9, 2, 224), (23, 2, 224), (40, 3, 224), (2, 2, 226), (9, 2, 226), (23, 2, 226), (40, 3, 226),
     (1, 2, 153), (22, 3, 153), (1, 2, 161), (22, 3, 161), (1, 2, 167), (22, 3, 167), (1, 2, 172), (22, 3, 172),
     (3, 2, 224), (6, 2, 224), (10, 2, 224), (15, 2, 224), (24, 2, 224), (31, 2, 224), (41, 2, 224), (56, 3, 224),
     (3, 2, 226), (6, 2, 226), (10, 2, 226), (15, 2, 226), (24, 2, 226), (31, 2, 226), (41, 2, 226), (56, 3, 226),
     (2, 2, 153), (9, 2, 153), (23, 2, 153), (40, 3, 153), (2, 2, 161), (9, 2, 161), (23, 2, 161), (40, 3, 161),
     (2, 2, 167), (9, 2, 167), (23, 2, 167), (40, 3, 167), (2, 2, 172), (9, 2, 172), (23, 2, 172), (40, 3, 172),
     (3, 2, 153), (6, 2, 153), (10, 2, 153), (15, 2, 153), (24, 2, 153), (31, 2, 153), (41, 2, 153), (56, 3, 153),
     (3, 2, 161), (6, 2, 161), (10, 2, 161), (15, 2, 161), (24, 2, 161), (31, 2, 161), (41, 2, 161), (56, 3, 161),
     (3, 2, 167), (6, 2, 167), (10, 2, 167), (15, 2, 167), (24, 2, 167), (31, 2, 167), (41, 2, 167), (56, 3, 167),
     (3, 2, 172), (6, 2, 172), (10, 2, 172), (15, 2, 172), (24, 2, 172), (31, 2, 172), (41, 2, 172), (56, 3, 172),
     (114, 0, 0), (115, 0, 0), (117, 0, 0), (118, 0, 0), (121, 0, 0), (123, 0, 0), (127, 0, 0), (130, 0, 0),
     (136, 0, 0), (139, 0, 0), (143, 0, 0), (146, 0, 0), (155, 0, 0), (162, 0, 0), (170, 0, 0), (180, 0, 0),
     (0, 3, 176), (0, 3, 177), (0, 3, 179), (0, 3, 209), (0, 3, 216), (0, 3, 217), (0, 3, 227), (0, 3, 229),
     (0, 3, 230), (122, 0, 0), (124, 0, 0), (125, 0, 0), (128, 0, 0), (129, 0, 0), (131, 0, 0), (132, 0, 0)]"

definition huffman_nodes_112 :: "huffman_entry list" where
  "huffman_nodes_112 =
    [(1, 2, 176), (22, 3, 176), (1, 2, 177), (22, 3, 177), (1, 2, 179), (22, 3, 179), (1, 2, 209), (22, 3, 209),
     (1, 2, 216), (22, 3, 216), (1, 2, 217), (22, 3, 217), (1, 2, 227), (22, 3, 227), (1, 2, 229), (22, 3, 229),
     (2, 2, 176), (9, 2, 176), (23, 2, 176), (40, 3, 176), (2, 2, 177), (9, 2, 177), (23, 2, 177), (40, 3, 177),
     (2, 2, 179), (9, 2, 179), (23, 2, 179), (40, 3, 179), (2, 2, 209), (9, 2, 209), (23, 2, 209), (40, 3, 209),
     (3, 2, 176), (6, 2, 176), (10, 2, 176), (15, 2, 176), (24, 2, 176), (31, 2, 176), (41, 2, 176), (56, 3, 176),
     (3, 2, 177), (6, 2, 177), (10, 2, 177), (15, 2, 177), (24, 2, 177), (31, 2, 177), (41, 2, 177), (56, 3, 177),
     (3, 2, 179), (6, 2, 179), (10, 2, 179), (15, 2, 179), (24, 2, 179), (31, 2, 179), (41, 2, 179), (56, 3, 179),
     (3, 2, 209), (6, 2, 209), (10, 2, 209), (15, 2, 209), (24, 2, 209), (31, 2, 209), (41, 2, 209), (56, 3, 209),
     (2, 2, 216), (9, 2, 216), (23, 2, 216), (40, 3, 216), (2, 2, 217), (9, 2, 217), (23, 2, 217), (40, 3, 217),
     (2, 2, 227), (9, 2, 227), (23, 2, 227), (40, 3, 227), (2, 2, 229), (9, 2, 229), (23, 2, 229), (40, 3, 229),
     (3, 2, 216), (6, 2, 216), (10, 2, 216), (15, 2, 216), (24, 2, 216), (31, 2, 216), (41, 2, 216), (56, 3, 216),
     (3, 2, 217), (6, 2, 217), (10, 2, 217), (15, 2, 217), (24, 2, 217), (31, 2, 217), (41, 2, 217), (56, 3, 217),
     (3, 2, 227), (6, 2, 227), (10, 2, 227), (15, 2, 227), (24, 2, 227), (31, 2, 227), (41, 2, 227), (56, 3, 227),
     (3, 2, 229), (6, 2, 229), (10, 2, 229), (15, 2, 229), (24, 2, 229), (31, 2, 229), (41, 2, 229), (56, 3, 229),
     (1, 2, 230), (22, 3, 230), (0, 3, 129), (0, 3, 132), (0, 3, 133), (0, 3, 134), (0, 3, 136), (0, 3, 146),
     (0, 3, 154), (0, 3, 156), (0, 3, 160), (0, 3, 163), (0, 3, 164), (0, 3, 169), (0, 3, 170), (0, 3, 173)]"

definition huffman_nodes_120 :: "huffman_entry list" where
  "huffman_nodes_120 =
    [(2, 2, 230), (9, 2, 230), (23, 2, 230), (40, 3, 230), (1, 2, 129), (22, 3, 129), (1, 2, 132), (22, 3, 132),
     (1, 2, 133), (22, 3, 133), (1, 2, 134), (22, 3, 134), (1, 2, 136), (22, 3, 136), (1, 2, 146), (22, 3, 146),
     (3, 2, 230), (6, 2, 230), (10, 2, 230), (15, 2, 230), (24, 2, 230), (31, 2, 230), (41, 2, 230), (56, 3, 230),
     (2, 2, 129), (9, 2, 129), (23, 2, 129), (40, 3, 129), (2, 2, 132), (9, 2, 132), (23, 2, 132), (40, 3, 132),
     (3, 2, 129), (6, 2, 129), (10, 2, 129), (15, 2, 129), (24, 2, 129), (31, 2, 129), (41, 2, 129), (56, 3, 129),
     (3, 2, 132), (6, 2, 132), (10, 2, 132), (15, 2, 132), (24, 2, 132), (31, 2, 132), (41, 2, 132), (56, 3, 132),
     (2, 2, 133), (9, 2, 133), (23, 2, 133), (40, 3, 133), (2, 2, 134), (9, 2, 134), (23, 2, 134), (40, 3, 134),
     (2, 2, 136), (9, 2, 136), (23, 2, 136), (40, 3, 136), (2, 2, 146), (9, 2, 146), (23, 2, 146), (40, 3, 146),
     (3, 2, 133), (6, 2, 133), (10, 2, 133), (15, 2, 133), (24, 2, 133), (31, 2, 133), (41, 2, 133), (56, 3, 133),
     (3, 2, 134), (6, 2, 134), (10, 2, 134), (15, 2, 134), (24, 2, 134), (31, 2, 134), (41, 2, 134), (56, 3, 134),
     (3, 2, 136), (6, 2, 136), (10, 2, 136), (15, 2, 136), (24, 2, 136), (31, 2, 136), (41, 2, 136), (56, 3, 136),
     (3, 2, 146), (6, 2, 146), (10, 2, 146), (15, 2, 146), (24, 2, 146), (31, 2, 146), (41, 2, 146), (56, 3, 146),
     (1, 2, 154), (22, 3, 154), (1, 2, 156), (22, 3, 156), (1, 2, 160), (22, 3, 160), (1, 2, 163), (22, 3, 163),
     (1, 2, 164), (22, 3, 164), (1, 2, 169), (22, 3, 169), (1, 2, 170), (22, 3, 170), (1, 2, 173), (22, 3, 173),
     (2, 2, 154), (9, 2, 154), (23, 2, 154), (40, 3, 154), (2, 2, 156), (9, 2, 156), (23, 2, 156), (40, 3, 156),
     (2, 2, 160), (9, 2, 160), (23, 2, 160), (40, 3, 160), (2, 2, 163), (9, 2, 163), (23, 2, 163), (40, 3, 163)]"

end
