(* ===== verification/Huffman_Check_1.thy ===== *)
theory Huffman_Check_1
  imports Huffman_Paths Huffman_Table_1
begin

text \<open>Every entry of nodes 64 to 127 of the table is right.\<close>

lemma huffman_nodes_64_ok: "entries_ok 64 0 huffman_nodes_64"
  by (simp add: huffman_nodes_64_def entry_ok_def huffman_lookup del: One_nat_def)

lemma huffman_nodes_72_ok: "entries_ok 72 0 huffman_nodes_72"
  by (simp add: huffman_nodes_72_def entry_ok_def huffman_lookup del: One_nat_def)

lemma huffman_nodes_80_ok: "entries_ok 80 0 huffman_nodes_80"
  by (simp add: huffman_nodes_80_def entry_ok_def huffman_lookup del: One_nat_def)

lemma huffman_nodes_88_ok: "entries_ok 88 0 huffman_nodes_88"
  by (simp add: huffman_nodes_88_def entry_ok_def huffman_lookup del: One_nat_def)

lemma huffman_nodes_96_ok: "entries_ok 96 0 huffman_nodes_96"
  by (simp add: huffman_nodes_96_def entry_ok_def huffman_lookup del: One_nat_def)

lemma huffman_nodes_104_ok: "entries_ok 104 0 huffman_nodes_104"
  by (simp add: huffman_nodes_104_def entry_ok_def huffman_lookup del: One_nat_def)

lemma huffman_nodes_112_ok: "entries_ok 112 0 huffman_nodes_112"
  by (simp add: huffman_nodes_112_def entry_ok_def huffman_lookup del: One_nat_def)

lemma huffman_nodes_120_ok: "entries_ok 120 0 huffman_nodes_120"
  by (simp add: huffman_nodes_120_def entry_ok_def huffman_lookup del: One_nat_def)

end
