(* ===== verification/Huffman_Table_2.thy ===== *)
theory Huffman_Table_2
  imports Huffman_Table_0
begin

text \<open>Nodes 128 to 191 of \<open>HUFFMAN_TABLE\<close> (\<open>hpack/huffman_table.py\<close>).\<close>

definition huffman_nodes_128 :: "huffman_entry list" where
  "huffman_nodes_128 =
    [(3, 2, 154), (6, 2, 154), (10, 2, 154), (15, 2, 154), (24, 2, 154), (31, 2, 154), (41, 2, 154), (56, 3, 154),
     (3, 2, 156), (6, 2, 156), (10, 2, 156), (15, 2, 156), (24, 2, 156), (31, 2, 156), (41, 2, 156), (56, 3, 156),
     (3, 2, 160), (6, 2, 160), (10, 2, 160), (15, 2, 160), (24, 2, 160), (31, 2, 160), (41, 2, 160), (56, 3, 160),
     (3, 2, 163), (6, 2, 163), (10, 2, 163), (15, 2, 163), (24, 2, 163), (31, 2, 163), (41, 2, 163), (56, 3, 163),
     (2, 2, 164), (9, 2, 164), (23, 2, 164), (40, 3, 164), (2, 2, 169), (9, 2, 169), (23, 2, 169), (40, 3, 169),
     (2, 2, 170), (9, 2, 170), (23, 2, 170), (40, 3, 170), (2, 2, 173), (9, 2, 173), (23, 2, 173), (40, 3, 173),
     (3, 2, 164), (6, 2, 164), (10, 2, 164), (15, 2, 164), (24, 2, 164), (31, 2, 164), (41, 2, 164), (56, 3, 164),
     (3, 2, 169), (6, 2, 169), (10, 2, 169), (15, 2, 169), (24, 2, 169), (31, 2, 169), (41, 2, 169), (56, 3, 169),
     (3, 2, 170), (6, 2, 170), (10, 2, 170), (15, 2, 170), (24, 2, 170), (31, 2, 170), (41, 2, 170), (56, 3, 170),
     (3, 2, 173), (6, 2, 173), (10, 2, 173), (15, 2, 173), (24, 2, 173), (31, 2, 173), (41, 2, 173), (56, 3, 173),
     (137, 0, 0), (138, 0, 0), (140, 0, 0), (141, 0, 0), (144, 0, 0), (145, 0, 0), (147, 0, 0), (150, 0, 0),
     (156, 0, 0), (159, 0, 0), (163, 0, 0), (166, 0, 0), (171, 0, 0), (174, 0, 0), (181, 0, 0), (190, 0, 0),
     (0, 3, 178), (0, 3, 181), (0, 3, 185), (0, 3, 186), (0, 3, 187), (0, 3, 189), (0, 3, 190), (0, 3, 196),
     (0, 3, 198), (0, 3, 228), (0, 3, 232), (0, 3, 233), (148, 0, 0), (149, 0, 0), (151, 0, 0), (152, 0, 0),
     (1, 2, 178), (22, 3, 178), (1, 2, 181), (22, 3, 181), (1, 2, 185), (22, 3, 185), (1, 2, 186), (22, 3, 186),
     (1, 2, 187), (22, 3, 187), (1, 2, 189), (22, 3, 189), (1, 2, 190), (22, 3, 190), (1, 2, 196), (22, 3, 196)]"

definition huffman_nodes_136 :: "huffman_entry list" where
  "huffman_nodes_136 =
    [(2, 2, 178), (9, 2, 178), (23, 2, 178), (40, 3, 178), (2, 2, 181), (9, 2, 181), (23, 2, 181), (40, 3, 181),
     (2, 2, 185), (9, 2, 185), (23, 2, 185), (40, 3, 185), (2, 2, 186), (9, 2, 186), (23, 2, 186), (40, 3, 186),
     (3, 2, 178), (6, 2, 178), (10, 2, 178), (15, 2, 178), (24, 2, 178), (31, 2, 178), (41, 2, 178), (56, 3, 178),
     (3, 2, 181), (6, 2, 181), (10, 2, 181), (15, 2, 181), (24, 2, 181), (31, 2, 181), (41, 2, 181), (56, 3, 181),
     (3, 2, 185), (6, 2, 185), (10, 2, 185), (15, 2, 185), (24, 2, 185), (31, 2, 185), (41, 2, 185), (56, 3, 185),
     (3, 2, 186), (6, 2, 186), (10, 2, 186), (15, 2, 186), (24, 2, 186), (31, 2, 186), (41, 2, 186), (56, 3, 186),
     (2, 2, 187), (9, 2, 187), (23, 2, 187), (40, 3, 187), (2, 2, 189), (9, 2, 189), (23, 2, 189), (40, 3, 189),
     (2, 2, 190), (9, 2, 190), (23, 2, 190), (40, 3, 190), (2, 2, 196), (9, 2, 196), (23, 2, 196), (40, 3, 196),
     (3, 2, 187), (6, 2, 187), (10, 2, 187), (15, 2, 187), (24, 2, 187), (31, 2, 187), (41, 2, 187), (56, 3, 187),
     (3, 2, 189), (6, 2, 189), (10, 2, 189), (15, 2, 189), (24, 2, 189), (31, 2, 189), (41, 2, 189), (56, 3, 189),
     (3, 2, 190), (6, 2, 190), (10, 2, 190), (15, 2, 190), (24, 2, 190), (31, 2, 190), (41, 2, 190), (56, 3, 190),
     (3, 2, 196), (6, 2, 196), (10, 2, 196), (15, 2, 196), (24, 2, 196), (31, 2, 196), (41, 2, 196), (56, 3, 196),
     (1, 2, 198), (22, 3, 198), (1, 2, 228), (22, 3, 228), (1, 2, 232), (22, 3, 232), (1, 2, 233), (22, 3, 233),
     (0, 3, 1), (0, 3, 135), (0, 3, 137), (0, 3, 138), (0, 3, 139), (0, 3, 140), (0, 3, 141), (0, 3, 143),
     (2, 2, 198), (9, 2, 198), (23, 2, 198), (40, 3, 198), (2, 2, 228), (9, 2, 228), (23, 2, 228), (40, 3, 228),
     (2, 2, 232), (9, 2, 232), (23, 2, 232), (40, 3, 232), (2, 2, 233), (9, 2, 233), (23, 2, 233), (40, 3, 233)]"

definition huffman_nodes_144 :: "huffman_entry list" where
  "huffman_nodes_144 =
    [(3, 2, 198), (6, 2, 198), (10, 2, 198), (15, 2, 198), (24, 2, 198), (31, 2, 198), (41, 2, 198), (56, 3, 198),
     (3, 2, 228), (6, 2, 228), (10, 2, 228), (15, 2, 228), (24, 2, 228), (31, 2, 228), (41, 2, 228), (56, 3, 228),
     (3, 2, 232), (6, 2, 232), (10, 2, 232), (15, 2, 232), (24, 2, 232), (31, 2, 232), (41, 2, 232), (56, 3, 232),
     (3, 2, 233), (6, 2, 233), (10, 2, 233), (15, 2, 233), (24, 2, 233), (31, 2, 233), (41, 2, 233), (56, 3, 233),
     (1, 2, 1), (22, 3, 1), (1, 2, 135), (22, 3, 135), (1, 2, 137), (22, 3, 137), (1, 2, 138), (22, 3, 138),
     (1, 2, 139), (22, 3, 139), (1, 2, 140), (22, 3, 140), (1, 2, 141), (22, 3, 141), (1, 2, 143), (22, 3, 143),
     (2, 2, 1), (9, 2, 1), (23, 2, 1), (40, 3, 1), (2, 2, 135), (9, 2, 135), (23, 2, 135), (40, 3, 135),
     (2, 2, 137), (9, 2, 137), (23, 2, 137), (40, 3, 137), (2, 2, 138), (9, 2, 138), (23, 2, 138), (40, 3, 138),
     (3, 2, 1), (6, 2, 1), (10, 2, 1), (15, 2, 1), (24, 2, 1), (31, 2, 1), (41, 2, 1), (56, 3, 1),
     (3, 2, 135), (6, 2, 135), (10, 2, 135), (15, 2, 135), (24, 2, 135), (31, 2, 135), (41, 2, 135), (56, 3, 135),
     (3, 2, 137), (6, 2, 137), (10, 2, 137), (15, 2, 137), (24, 2, 137), (31, 2, 137), (41, 2, 137), (56, 3, 137),
     (3, 2, 138), (6, 2, 138), (10, 2, 138), (15, 2, 138), (24, 2, 138), (31, 2, 138), (41, 2, 138), (56, 3, 138),
     (2, 2, 139), (9, 2, 139), (23, 2, 139), (40, 3, 139), (2, 2, 140), (9, 2, 140), (23, 2, 140), (40, 3, 140),
     (2, 2, 141), (9, 2, 141), (23, 2, 141), (40, 3, 141), (2, 2, 143), (9, 2, 143), (23, 2, 143), (40, 3, 143),
     (3, 2, 139), (6, 2, 139), (10, 2, 139), (15, 2, 139), (24, 2, 139), (31, 2, 139), (41, 2, 139), (56, 3, 139),
     (3, 2, 140), (6, 2, 140), (10, 2, 140), (15, 2, 140), (24, 2, 140), (31, 2, 140), (41, 2, 140), (56, 3, 140)]"

definition huffman_nodes_152 :: "huffman_entry list" where
  "huffman_nodes_152 =
    [(3, 2, 141), (6, 2, 141), (10, 2, 141), (15, 2, 141), (24, 2, 141), (31, 2, 141), (41, 2, 141), (56, 3, 141),
     (3, 2, 143), (6, 2, 143), (10, 2, 143), (15, 2, 143), (24, 2, 143), (31, 2, 143), (41, 2, 143), (56, 3, 143),
     (157, 0, 0), (158, 0, 0), (160, 0, 0), (161, 0, 0), (164, 0, 0), (165, 0, 0), (167, 0, 0), (168, 0, 0),
     (172, 0, 0), (173, 0, 0), (175, 0, 0), (177, 0, 0), (182, 0, 0), (185, 0, 0), (191, 0, 0), (207, 0, 0),
     (0, 3, 147), (0, 3, 149), (0, 3, 150), (0, 3, 151), (0, 3, 152), (0, 3, 155), (0, 3, 157), (0, 3, 158),
     (0, 3, 165), (0, 3, 166), (0, 3, 168), (0, 3, 174), (0, 3, 175), (0, 3, 180), (0, 3, 182), (0, 3, 183),
     (1, 2, 147), (22, 3, 147), (1, 2, 149), (22, 3, 149), (1, 2, 150), (22, 3, 150), (1, 2, 151), (22, 3, 151),
     (1, 2, 152), (22, 3, 152), (1, 2, 155), (22, 3, 155), (1, 2, 157), (22, 3, 157), (1, 2, 158), (22, 3, 158),
     (2, 2, 147), (9, 2, 147), (23, 2, 147), (40, 3, 147), (2, 2, 149), (9, 2, 149), (23, 2, 149), (40, 3, 149),
     (2, 2, 150), (9, 2, 150), (23, 2, 150), (40, 3, 150), (2, 2, 151), (9, 2, 151), (23, 2, 151), (40, 3, 151),
     (3, 2, 147), (6, 2, 147), (10, 2, 147), (15, 2, 147), (24, 2, 147), (31, 2, 147), (41, 2, 147), (56, 3, 147),
     (3, 2, 149), (6, 2, 149), (10, 2, 149), (15, 2, 149), (24, 2, 149), (31, 2, 149), (41, 2, 149), (56, 3, 149),
     (3, 2, 150), (6, 2, 150), (10, 2, 150), (15, 2, 150), (24, 2, 150), (31, 2, 150), (41, 2, 150), (56, 3, 150),
     (3, 2, 151), (6, 2, 151), (10, 2, 151), (15, 2, 151), (24, 2, 151), (31, 2, 151), (41, 2, 151), (56, 3, 151),
     (2, 2, 152), (9, 2, 152), (23, 2, 152), (40, 3, 152), (2, 2, 155), (9, 2, 155), (23, 2, 155), (40, 3, 155),
     (2, 2, 157), (9, 2, 157), (23, 2, 157), (40, 3, 157), (2, 2, 158), (9, 2, 158), (23, 2, 158), (40, 3, 158)]"

definition huffman_nodes_160 :: "huffman_entry list" where
  "huffman_nodes_160 =
    [(3, 2, 152), (6, 2, 152), (10, 2, 152), (15, 2, 152), (24, 2, 152), (31, 2, 152), (41, 2, 152), (56, 3, 152),
     (3, 2, 155), (6, 2, 155), (10, 2, 155), (15, 2, 155), (24, 2, 155), (31, 2, 155), (41, 2, 155), (56, 3, 155),
     (3, 2, 157), (6, 2, 157), (10, 2, 157), (15, 2, 157), (24, 2, 157), (31, 2, 157), (41, 2, 157), (56, 3, 157),
     (3, 2, 158), (6, 2, 158), (10, 2, 158), (15, 2, 158), (24, 2, 158), (31, 2, 158), (41, 2, 158), (56, 3, 158),
     (1, 2, 165), (22, 3, 165), (1, 2, 166), (22, 3, 166), (1, 2, 168), (22, 3, 168), (1, 2, 174), (22, 3, 174),
     (1, 2, 175), (22, 3, 175), (1, 2, 180), (22, 3, 180), (1, 2, 182), (22, 3, 182), (1, 2, 183), (22, 3, 183),
     (2, 2, 165), (9, 2, 165), (23, 2, 165), (40, 3, 165), (2, 2, 166), (9, 2, 166), (23, 2, 166), (40, 3, 166),
     (2, 2, 168), (9, 2, 168), (23, 2, 168), (40, 3, 168), (2, 2, 174), (9, 2, 174), (23, 2, 174), (40, 3, 174),
     (3, 2, 165), (6, 2, 165), (10, 2, 165), (15, 2, 165), (24, 2, 165), (31, 2, 165), (41, 2, 165), (56, 3, 165),
     (3, 2, 166), (6, 2, 166), (10, 2, 166), (15, 2, 166), (24, 2, 166), (31, 2, 166), (41, 2, 166), (56, 3, 166),
     (3, 2, 168), (6, 2, 168), (10, 2, 168), (15, 2, 168), (24, 2, 168), (31, 2, 168), (41, 2, 168), (56, 3, 168),
     (3, 2, 174), (6, 2, 174), (10, 2, 174), (15, 2, 174), (24, 2, 174), (31, 2, 174), (41, 2, 174), (56, 3, 174),
     (2, 2, 175), (9, 2, 175), (23, 2, 175), (40, 3, 175), (2, 2, 180), (9, 2, 180), (23, 2, 180), (40, 3, 180),
     (2, 2, 182), (9, 2, 182), (23, 2, 182), (40, 3, 182), (2, 2, 183), (9, 2, 183), (23, 2, 183), (40, 3, 183),
     (3, 2, 175), (6, 2, 175), (10, 2, 175), (15, 2, 175), (24, 2, 175), (31, 2, 175), (41, 2, 175), (56, 3, 175),
     (3, 2, 180), (6, 2, 180), (10, 2, 180), (15, 2, 180), (24, 2, 180), (31, 2, 180), (41, 2, 180), (56, 3, 180)]"

definition huffman_nodes_168 :: "huffman_entry list" where
  "huffman_nodes_168 =
    [(3, 2, 182), (6, 2, 182), (10, 2, 182), (15, 2, 182), (24, 2, 182), (31, 2, 182), (41, 2, 182), (56, 3, 182),
     (3, 2, 183), (6, 2, 183), (10, 2, 183), (15, 2, 183), (24, 2, 183), (31, 2, 183), (41, 2, 183), (56, 3, 183),
     (0, 3, 188), (0, 3, 191), (0, 3, 197), (0, 3, 231), (0, 3, 239), (176, 0, 0), (178, 0, 0), (179, 0, 0),
     (183, 0, 0), (184, 0, 0), (186, 0, 0), (187, 0, 0), (192, 0, 0), (199, 0, 0), (208, 0, 0), (223, 0, 0),
     (1, 2, 188), (22, 3, 188), (1, 2, 191), (22, 3, 191), (1, 2, 197), (22, 3, 197), (1, 2, 231), (22, 3, 231),
     (1, 2, 239), (22, 3, 239), (0, 3, 9), (0, 3, 142), (0, 3, 144), (0, 3, 145), (0, 3, 148), (0, 3, 159),
     (2, 2, 188), (9, 2, 188), (23, 2, 188), (40, 3, 188), (2, 2, 191), (9, 2, 191), (23, 2, 191), (40, 3, 191),
     (2, 2, 197), (9, 2, 197), (23, 2, 197), (40, 3, 197), (2, 2, 231), (9, 2, 231), (23, 2, 231), (40, 3, 231),
     (3, 2, 188), (6, 2, 188), (10, 2, 188), (15, 2, 188), (24, 2, 188), (31, 2, 188), (41, 2, 188), (56, 3, 188),
     (3, 2, 191), (6, 2, 191), (10, 2, 191), (15, 2, 191), (24, 2, 191), (31, 2, 191), (41, 2, 191), (56, 3, 191),
     (3, 2, 197), (6, 2, 197), (10, 2, 197), (15, 2, 197), (24, 2, 197), (31, 2, 197), (41, 2, 197), (56, 3, 197),
     (3, 2, 231), (6, 2, 231), (10, 2, 231), (15, 2, 231), (24, 2, 231), (31, 2, 231), (41, 2, 231), (56, 3, 231),
     (2, 2, 239), (9, 2, 239), (23, 2, 239), (40, 3, 239), (1, 2, 9), (22, 3, 9), (1, 2, 142), (22, 3, 142),
     (1, 2, 144), (22, 3, 144), (1, 2, 145), (22, 3, 145), (1, 2, 148), (22, 3, 148), (1, 2, 159), (22, 3, 159),
     (3, 2, 239), (6, 2, 239), (10, 2, 239), (15, 2, 239), (24, 2, 239), (31, 2, 239), (41, 2, 239), (56, 3, 239),
     (2, 2, 9), (9, 2, 9), (23, 2, 9), (40, 3, 9), (2, 2, 142), (9, 2, 142), (23, 2, 142), (40, 3, 142)]"

definition huffman_nodes_176 :: "huffman_entry list" where
  "huffman_nodes_176 =
    [(3, 2, 9), (6, 2, 9), (10, 2, 9), (15, 2, 9), (24, 2, 9), (31, 2, 9), (41, 2, 9), (56, 3, 9),
     (3, 2, 142), (6, 2, 142), (10, 2, 142), (15, 2, 142), (24, 2, 142), (31, 2, 142), (41, 2, 142), (56, 3, 142),
     (2, 2, 144), (9, 2, 144), (23, 2, 144), (40, 3, 144), (2, 2, 145), (9, 2, 145), (23, 2, 145), (40, 3, 145),
     (2, 2, 148), (9, 2, 148), (23, 2, 148), (40, 3, 148), (2, 2, 159), (9, 2, 159), (23, 2, 159), (40, 3, 159),
     (3, 2, 144), (6, 2, 144), (10, 2, 144), (15, 2, 144), (24, 2, 144), (31, 2, 144), (41, 2, 144), (56, 3, 144),
     (3, 2, 145), (6, 2, 145), (10, 2, 145), (15, 2, 145), (24, 2, 145), (31, 2, 145), (41, 2, 145), (56, 3, 145),
     (3, 2, 148), (6, 2, 148), (10, 2, 148), (15, 2, 148), (24, 2, 148), (31, 2, 148), (41, 2, 148), (56, 3, 148),
     (3, 2, 159), (6, 2, 159), (10, 2, 159), (15, 2, 159), (24, 2, 159), (31, 2, 159), (41, 2, 159), (56, 3, 159),
     (0, 3, 171), (0, 3, 206), (0, 3, 215), (0, 3, 225), (0, 3, 236), (0, 3, 237), (188, 0, 0), (189, 0, 0),
     (193, 0, 0), (196, 0, 0), (200, 0, 0), (203, 0, 0), (209, 0, 0), (216, 0, 0), (224, 0, 0), (238, 0, 0),
     (1, 2, 171), (22, 3, 171), (1, 2, 206), (22, 3, 206), (1, 2, 215), (22, 3, 215), (1, 2, 225), (22, 3, 225),
     (1, 2, 236), (22, 3, 236), (1, 2, 237), (22, 3, 237), (0, 3, 199), (0, 3, 207), (0, 3, 234), (0, 3, 235),
     (2, 2, 171), (9, 2, 171), (23, 2, 171), (40, 3, 171), (2, 2, 206), (9, 2, 206), (23, 2, 206), (40, 3, 206),
     (2, 2, 215), (9, 2, 215), (23, 2, 215), (40, 3, 215), (2, 2, 225), (9, 2, 225), (23, 2, 225), (40, 3, 225),
     (3, 2, 171), (6, 2, 171), (10, 2, 171), (15, 2, 171), (24, 2, 171), (31, 2, 171), (41, 2, 171), (56, 3, 171),
     (3, 2, 206), (6, 2, 206), (10, 2, 206), (15, 2, 206), (24, 2, 206), (31, 2, 206), (41, 2, 206), (56, 3, 206)]"

definition huffman_nodes_184 :: "huffman_entry list" where
  "huffman_nodes_184 =
    [(3, 2, 215), (6, 2, 215), (10, 2, 215), (15, 2, 215), (24, 2, 215), (31, 2, 215), (41, 2, 215), (56, 3, 215),
     (3, 2, 225), (6, 2, 225), (10, 2, 225), (15, 2, 225), (24, 2, 225), (31, 2, 225), (41, 2, 225), (56, 3, 225),
     (2, 2, 236), (9, 2, 236), (23, 2, 236), (40, 3, 236), (2, 2, 237), (9, 2, 237), (23, 2, 237), (40, 3, 237),
     (1, 2, 199), (22, 3, 199), (1, 2, 207), (22, 3, 207), (1, 2, 234), (22, 3, 234), (1, 2, 235), (22, 3, 235),
     (3, 2, 236), (6, 2, 236), (10, 2, 236), (15, 2, 236), (24, 2, 236), (31, 2, 236), (41, 2, 236), (56, 3, 236),
     (3, 2, 237), (6, 2, 237), (10, 2, 237), (15, 2, 237), (24, 2, 237), (31, 2, 237), (41, 2, 237), (56, 3, 237),
     (2, 2, 199), (9, 2, 199), (23, 2, 199), (40, 3, 199), (2, 2, 207), (9, 2, 207), (23, 2, 207), (40, 3, 207),
     (2, 2, 234), (9, 2, 234), (23, 2, 234), (40, 3, 234), (2, 2, 235), (9, 2, 235), (23, 2, 235), (40, 3, 235),
     (3, 2, 199), (6, 2, 199), (10, 2, 199), (15, 2, 199), (24, 2, 199), (31, 2, 199), (41, 2, 199), (56, 3, 199),
     (3, 2, 207), (6, 2, 207), (10, 2, 207), (15, 2, 207), (24, 2, 207), (31, 2, 207), (41, 2, 207), (56, 3, 207),
     (3, 2, 234), (6, 2, 234), (10, 2, 234), (15, 2, 234), (24, 2, 234), (31, 2, 234), (41, 2, 234), (56, 3, 234),
     (3, 2, 235), (6, 2, 235), (10, 2, 235), (15, 2, 235), (24, 2, 235), (31, 2, 235), (41, 2, 235), (56, 3, 235),
     (194, 0, 0), (195, 0, 0), (197, 0, 0), (198, 0, 0), (201, 0, 0), (202, 0, 0), (204, 0, 0), (205, 0, 0),
     (210, 0, 0), (213, 0, 0), (217, 0, 0), (220, 0, 0), (225, 0, 0), (231, 0, 0), (239, 0, 0), (246, 0, 0),
     (0, 3, 192), (0, 3, 193), (0, 3, 200), (0, 3, 201), (0, 3, 202), (0, 3, 205), (0, 3, 210), (0, 3, 213),
     (0, 3, 218), (0, 3, 219), (0, 3, 238), (0, 3, 240), (0, 3, 242), (0, 3, 243), (0, 3, 255), (206, 0, 0)]"

end
