(* ===== verification/Huffman_Check_2.thy ===== *)
theory Huffman_Check_2
  imports Huffman_Paths Huffman_Table_2
begin

text \<open>Every entry of nodes 128 to 191 of the table is right.\<close>

lemma huffman_nodes_128_ok: "entries_ok 128 0 huffman_nodes_128"
  by (simp add: huffman_nodes_128_def entry_ok_def huffman_lookup del: One_nat_def)

lemma huffman_nodes_136_ok: "entries_ok 136 0 huffman_nodes_136"
  by (simp add: huffman_nodes_136_def entry_ok_def huffman_lookup del: One_nat_def)

lemma huffman_nodes_144_ok: "entries_ok 144 0 huffman_nodes_144"
  by (simp add: huffman_nodes_144_def entry_ok_def huffman_lookup del: One_nat_def)

lemma huffman_nodes_152_ok: "entries_ok 152 0 huffman_nodes_152"
  by (simp add: huffman_nodes_152_def entry_ok_def huffman_lookup del: One_nat_def)

lemma huffman_nodes_160_ok: "entries_ok 160 0 huffman_nodes_160"
  by (simp add: huffman_nodes_160_def entry_ok_def huffman_lookup del: One_nat_def)

lemma huffman_nodes_168_ok: "entries_ok 168 0 huffman_nodes_168"
  by (simp add: huffman_nodes_168_def entry_ok_def huffman_lookup del: One_nat_def)

lemma huffman_nodes_176_ok: "entries_ok 176 0 huffman_nodes_176"
  by (simp add: huffman_nodes_176_def entry_ok_def huffman_lookup del: One_nat_def)

lemma huffman_nodes_184_ok: "entries_ok 184 0 huffman_nodes_184"
  by (simp add: huffman_nodes_184_def entry_ok_def huffman_lookup del: One_nat_def)

end
