(* ===== verification/Huffman_Table_3.thy ===== *)
theory Huffman_Table_3
  imports Huffman_Table_0
begin

text \<open>Nodes 192 to 255 of \<open>HUFFMAN_TABLE\<close> (\<open>hpack/huffman_table.py\<close>).\<close>

definition huffman_nodes_192 :: "huffman_entry list" where
  "huffman_nodes_192 =
    [(1, 2, 192), (22, 3, 192), (1, 2, 193), (22, 3, 193), (1, 2, 200), (22, 3, 200), (1, 2, 201), (22, 3, 201),
     (1, 2, 202), (22, 3, 202), (1, 2, 205), (22, 3, 205), (1, 2, 210), (22, 3, 210), (1, 2, 213), (22, 3, 213),
     (2, 2, 192), (9, 2, 192), (23, 2, 192), (40, 3, 192), (2, 2, 193), (9, 2, 193), (23, 2, 193), (40, 3, 193),
     (2, 2, 200), (9, 2, 200), (23, 2, 200), (40, 3, 200), (2, 2, 201), (9, 2, 201), (23, 2, 201), (40, 3, 201),
     (3, 2, 192), (6, 2, 192), (10, 2, 192), (15, 2, 192), (24, 2, 192), (31, 2, 192), (41, 2, 192), (56, 3, 192),
     (3, 2, 193), (6, 2, 193), (10, 2, 193), (15, 2, 193), (24, 2, 193), (31, 2, 193), (41, 2, 193), (56, 3, 193),
     (3, 2, 200), (6, 2, 200), (10, 2, 200), (15, 2, 200), (24, 2, 200), (31, 2, 200), (41, 2, 200), (56, 3, 200),
     (3, 2, 201), (6, 2, 201), (10, 2, 201), (15, 2, 201), (24, 2, 201), (31, 2, 201), (41, 2, 201), (56, 3, 201),
     (2, 2, 202), (9, 2, 202), (23, 2, 202), (40, 3, 202), (2, 2, 205), (9, 2, 205), (23, 2, 205), (40, 3, 205),
     (2, 2, 210), (9, 2, 210), (23, 2, 210), (40, 3, 210), (2, 2, 213), (9, 2, 213), (23, 2, 213), (40, 3, 213),
     (3, 2, 202), (6, 2, 202), (10, 2, 202), (15, 2, 202), (24, 2, 202), (31, 2, 202), (41, 2, 202), (56, 3, 202),
     (3, 2, 205), (6, 2, 205), (10, 2, 205), (15, 2, 205), (24, 2, 205), (31, 2, 205), (41, 2, 205), (56, 3, 205),
     (3, 2, 210), (6, 2, 210), (10, 2, 210), (15, 2, 210), (24, 2, 210), (31, 2, 210), (41, 2, 210), (56, 3, 210),
     (3, 2, 213), (6, 2, 213), (10, 2, 213), (15, 2, 213), (24, 2, 213), (31, 2, 213), (41, 2, 213), (56, 3, 213),
     (1, 2, 218), (22, 3, 218), (1, 2, 219), (22, 3, 219), (1, 2, 238), (22, 3, 238), (1, 2, 240), (22, 3, 240),
     (1, 2, 242), (22, 3, 242), (1, 2, 243), (22, 3, 243), (1, 2, 255), (22, 3, 255), (0, 3, 203), (0, 3, 204)]"

definition huffman_nodes_200 :: "huffman_entry list" where
  "huffman_nodes_200 =
    [(2, 2, 218), (9, 2, 218), (23, 2, 218), (40, 3, 218), (2, 2, 219), (9, 2, 219), (23, 2, 219), (40, 3, 219),
     (2, 2, 238), (9, 2, 238), (23, 2, 238), (40, 3, 238), (2, 2, 240), (9, 2, 240), (23, 2, 240), (40, 3, 240),
     (3, 2, 218), (6, 2, 218), (10, 2, 218), (15, 2, 218), (24, 2, 218), (31, 2, 218), (41, 2, 218), (56, 3, 218),
     (3, 2, 219), (6, 2, 219), (10, 2, 219), (15, 2, 219), (24, 2, 219), (31, 2, 219), (41, 2, 219), (56, 3, 219),
     (3, 2, 238), (6, 2, 238), (10, 2, 238), (15, 2, 238), (24, 2, 238), (31, 2, 238), (41, 2, 238), (56, 3, 238),
     (3, 2, 240), (6, 2, 240), (10, 2, 240), (15, 2, 240), (24, 2, 240), (31, 2, 240), (41, 2, 240), (56, 3, 240),
     (2, 2, 242), (9, 2, 242), (23, 2, 242), (40, 3, 242), (2, 2, 243), (9, 2, 243), (23, 2, 243), (40, 3, 243),
     (2, 2, 255), (9, 2, 255), (23, 2, 255), (40, 3, 255), (1, 2, 203), (22, 3, 203), (1, 2, 204), (22, 3, 204),
     (3, 2, 242), (6, 2, 242), (10, 2, 242), (15, 2, 242), (24, 2, 242), (31, 2, 242), (41, 2, 242), (56, 3, 242),
     (3, 2, 243), (6, 2, 243), (10, 2, 243), (15, 2, 243), (24, 2, 243), (31, 2, 243), (41, 2, 243), (56, 3, 243),
     (3, 2, 255), (6, 2, 255), (10, 2, 255), (15, 2, 255), (24, 2, 255), (31, 2, 255), (41, 2, 255), (56, 3, 255),
     (2, 2, 203), (9, 2, 203), (23, 2, 203), (40, 3, 203), (2, 2, 204), (9, 2, 204), (23, 2, 204), (40, 3, 204),
     (3, 2, 203), (6, 2, 203), (10, 2, 203), (15, 2, 203), (24, 2, 203), (31, 2, 203), (41, 2, 203), (56, 3, 203),
     (3, 2, 204), (6, 2, 204), (10, 2, 204), (15, 2, 204), (24, 2, 204), (31, 2, 204), (41, 2, 204), (56, 3, 204),
     (211, 0, 0), (212, 0, 0), (214, 0, 0), (215, 0, 0), (218, 0, 0), (219, 0, 0), (221, 0, 0), (222, 0, 0),
     (226, 0, 0), (228, 0, 0), (232, 0, 0), (235, 0, 0), (240, 0, 0), (243, 0, 0), (247, 0, 0), (250, 0, 0)]"

definition huffman_nodes_208 :: "huffman_entry list" where
  "huffman_nodes_208 =
    [(0, 3, 211), (0, 3, 212), (0, 3, 214), (0, 3, 221), (0, 3, 222), (0, 3, 223), (0, 3, 241), (0, 3, 244),
     (0, 3, 245), (0, 3, 246), (0, 3, 247), (0, 3, 248), (0, 3, 250), (0, 3, 251), (0, 3, 252), (0, 3, 253),
     (1, 2, 211), (22, 3, 211), (1, 2, 212), (22, 3, 212), (1, 2, 214), (22, 3, 214), (1, 2, 221), (22, 3, 221),
     (1, 2, 222), (22, 3, 222), (1, 2, 223), (22, 3, 223), (1, 2, 241), (22, 3, 241), (1, 2, 244), (22, 3, 244),
     (2, 2, 211), (9, 2, 211), (23, 2, 211), (40, 3, 211), (2, 2, 212), (9, 2, 212), (23, 2, 212), (40, 3, 212),
     (2, 2, 214), (9, 2, 214), (23, 2, 214), (40, 3, 214), (2, 2, 221), (9, 2, 221), (23, 2, 221), (40, 3, 221),
     (3, 2, 211), (6, 2, 211), (10, 2, 211), (15, 2, 211), (24, 2, 211), (31, 2, 211), (41, 2, 211), (56, 3, 211),
     (3, 2, 212), (6, 2, 212), (10, 2, 212), (15, 2, 212), (24, 2, 212), (31, 2, 212), (41, 2, 212), (56, 3, 212),
     (3, 2, 214), (6, 2, 214), (10, 2, 214), (15, 2, 214), (24, 2, 214), (31, 2, 214), (41, 2, 214), (56, 3, 214),
     (3, 2, 221), (6, 2, 221), (10, 2, 221), (15, 2, 221), (24, 2, 221), (31, 2, 221), (41, 2, 221), (56, 3, 221),
     (2, 2, 222), (9, 2, 222), (23, 2, 222), (40, 3, 222), (2, 2, 223), (9, 2, 223), (23, 2, 223), (40, 3, 223),
     (2, 2, 241), (9, 2, 241), (23, 2, 241), (40, 3, 241), (2, 2, 244), (9, 2, 244), (23, 2, 244), (40, 3, 244),
     (3, 2, 222), (6, 2, 222), (10, 2, 222), (15, 2, 222), (24, 2, 222), (31, 2, 222), (41, 2, 222), (56, 3, 222),
     (3, 2, 223), (6, 2, 223), (10, 2, 223), (15, 2, 223), (24, 2, 223), (31, 2, 223), (41, 2, 223), (56, 3, 223),
     (3, 2, 241), (6, 2, 241), (10, 2, 241), (15, 2, 241), (24, 2, 241), (31, 2, 241), (41, 2, 241), (56, 3, 241),
     (3, 2, 244), (6, 2, 244), (10, 2, 244), (15, 2, 244), (24, 2, 244), (31, 2, 244), (41, 2, 244), (56, 3, 244)]"

definition huffman_nodes_216 :: "huffman_entry list" where
  "huffman_nodes_216 =
    [(1, 2, 245), (22, 3, 245), (1, 2, 246), (22, 3, 246), (1, 2, 247), (22, 3, 247), (1, 2, 248), (22, 3, 248),
     (1, 2, 250), (22, 3, 250), (1, 2, 251), (22, 3, 251), (1, 2, 252), (22, 3, 252), (1, 2, 253), (22, 3, 253),
     (2, 2, 245), (9, 2, 245), (23, 2, 245), (40, 3, 245), (2, 2, 246), (9, 2, 246), (23, 2, 246), (40, 3, 246),
     (2, 2, 247), (9, 2, 247), (23, 2, 247), (40, 3, 247), (2, 2, 248), (9, 2, 248), (23, 2, 248), (40, 3, 248),
     (3, 2, 245), (6, 2, 245), (10, 2, 245), (15, 2, 245), (24, 2, 245), (31, 2, 245), (41, 2, 245), (56, 3, 245),
     (3, 2, 246), (6, 2, 246), (10, 2, 246), (15, 2, 246), (24, 2, 246), (31, 2, 246), (41, 2, 246), (56, 3, 246),
     (3, 2, 247), (6, 2, 247), (10, 2, 247), (15, 2, 247), (24, 2, 247), (31, 2, 247), (41, 2, 247), (56, 3, 247),
     (3, 2, 248), (6, 2, 248), (10, 2, 248), (15, 2, 248), (24, 2, 248), (31, 2, 248), (41, 2, 248), (56, 3, 248),
     (2, 2, 250), (9, 2, 250), (23, 2, 250), (40, 3, 250), (2, 2, 251), (9, 2, 251), (23, 2, 251), (40, 3, 251),
     (2, 2, 252), (9, 2, 252), (23, 2, 252), (40, 3, 252), (2, 2, 253), (9, 2, 253), (23, 2, 253), (40, 3, 253),
     (3, 2, 250), (6, 2, 250), (10, 2, 250), (15, 2, 250), (24, 2, 250), (31, 2, 250), (41, 2, 250), (56, 3, 250),
     (3, 2, 251), (6, 2, 251), (10, 2, 251), (15, 2, 251), (24, 2, 251), (31, 2, 251), (41, 2, 251), (56, 3, 251),
     (3, 2, 252), (6, 2, 252), (10, 2, 252), (15, 2, 252), (24, 2, 252), (31, 2, 252), (41, 2, 252), (56, 3, 252),
     (3, 2, 253), (6, 2, 253), (10, 2, 253), (15, 2, 253), (24, 2, 253), (31, 2, 253), (41, 2, 253), (56, 3, 253),
     (0, 3, 254), (227, 0, 0), (229, 0, 0), (230, 0, 0), (233, 0, 0), (234, 0, 0), (236, 0, 0), (237, 0, 0),
     (241, 0, 0), (242, 0, 0), (244, 0, 0), (245, 0, 0), (248, 0, 0), (249, 0, 0), (251, 0, 0), (252, 0, 0)]"

definition huffman_nodes_224 :: "huffman_entry list" where
  "huffman_nodes_224 =
    [(1, 2, 254), (22, 3, 254), (0, 3, 2), (0, 3, 3), (0, 3, 4), (0, 3, 5), (0, 3, 6), (0, 3, 7),
     (0, 3, 8), (0, 3, 11), (0, 3, 12), (0, 3, 14), (0, 3, 15), (0, 3, 16), (0, 3, 17), (0, 3, 18),
     (2, 2, 254), (9, 2, 254), (23, 2, 254), (40, 3, 254), (1, 2, 2), (22, 3, 2), (1, 2, 3), (22, 3, 3),
     (1, 2, 4), (22, 3, 4), (1, 2, 5), (22, 3, 5), (1, 2, 6), (22, 3, 6), (1, 2, 7), (22, 3, 7),
     (3, 2, 254), (6, 2, 254), (10, 2, 254), (15, 2, 254), (24, 2, 254), (31, 2, 254), (41, 2, 254), (56, 3, 254),
     (2, 2, 2), (9, 2, 2), (23, 2, 2), (40, 3, 2), (2, 2, 3), (9, 2, 3), (23, 2, 3), (40, 3, 3),
     (3, 2, 2), (6, 2, 2), (10, 2, 2), (15, 2, 2), (24, 2, 2), (31, 2, 2), (41, 2, 2), (56, 3, 2),
     (3, 2, 3), (6, 2, 3), (10, 2, 3), (15, 2, 3), (24, 2, 3), (31, 2, 3), (41, 2, 3), (56, 3, 3),
     (2, 2, 4), (9, 2, 4), (23, 2, 4), (40, 3, 4), (2, 2, 5), (9, 2, 5), (23, 2, 5), (40, 3, 5),
     (2, 2, 6), (9, 2, 6), (23, 2, 6), (40, 3, 6), (2, 2, 7), (9, 2, 7), (23, 2, 7), (40, 3, 7),
     (3, 2, 4), (6, 2, 4), (10, 2, 4), (15, 2, 4), (24, 2, 4), (31, 2, 4), (41, 2, 4), (56, 3, 4),
     (3, 2, 5), (6, 2, 5), (10, 2, 5), (15, 2, 5), (24, 2, 5), (31, 2, 5), (41, 2, 5), (56, 3, 5),
     (3, 2, 6), (6, 2, 6), (10, 2, 6), (15, 2, 6), (24, 2, 6), (31, 2, 6), (41, 2, 6), (56, 3, 6),
     (3, 2, 7), (6, 2, 7), (10, 2, 7), (15, 2, 7), (24, 2, 7), (31, 2, 7), (41, 2, 7), (56, 3, 7),
     (1, 2, 8), (22, 3, 8), (1, 2, 11), (22, 3, 11), (1, 2, 12), (22, 3, 12), (1, 2, 14), (22, 3, 14),
     (1, 2, 15), (22, 3, 15), (1, 2, 16), (22, 3, 16), (1, 2, 17), (22, 3, 17), (1, 2, 18), (22, 3, 18)]"

definition huffman_nodes_232 :: "huffman_entry list" where
  "huffman_nodes_232 =
    [(2, 2, 8), (9, 2, 8), (23, 2, 8), (40, 3, 8), (2, 2, 11), (9, 2, 11), (23, 2, 11), (40, 3, 11),
     (2, 2, 12), (9, 2, 12), (23, 2, 12), (40, 3, 12), (2, 2, 14), (9, 2, 14), (23, 2, 14), (40, 3, 14),
     (3, 2, 8), (6, 2, 8), (10, 2, 8), (15, 2, 8), (24, 2, 8), (31, 2, 8), (41, 2, 8), (56, 3, 8),
     (3, 2, 11), (6, 2, 11), (10, 2, 11), (15, 2, 11), (24, 2, 11), (31, 2, 11), (41, 2, 11), (56, 3, 11),
     (3, 2, 12), (6, 2, 12), (10, 2, 12), (15, 2, 12), (24, 2, 12), (31, 2, 12), (41, 2, 12), (56, 3, 12),
     (3, 2, 14), (6, 2, 14), (10, 2, 14), (15, 2, 14), (24, 2, 14), (31, 2, 14), (41, 2, 14), (56, 3, 14),
     (2, 2, 15), (9, 2, 15), (23, 2, 15), (40, 3, 15), (2, 2, 16), (9, 2, 16), (23, 2, 16), (40, 3, 16),
     (2, 2, 17), (9, 2, 17), (23, 2, 17), (40, 3, 17), (2, 2, 18), (9, 2, 18), (23, 2, 18), (40, 3, 18),
     (3, 2, 15), (6, 2, 15), (10, 2, 15), (15, 2, 15), (24, 2, 15), (31, 2, 15), (41, 2, 15), (56, 3, 15),
     (3, 2, 16), (6, 2, 16), (10, 2, 16), (15, 2, 16), (24, 2, 16), (31, 2, 16), (41, 2, 16), (56, 3, 16),
     (3, 2, 17), (6, 2, 17), (10, 2, 17), (15, 2, 17), (24, 2, 17), (31, 2, 17), (41, 2, 17), (56, 3, 17),
     (3, 2, 18), (6, 2, 18), (10, 2, 18), (15, 2, 18), (24, 2, 18), (31, 2, 18), (41, 2, 18), (56, 3, 18),
     (0, 3, 19), (0, 3, 20), (0, 3, 21), (0, 3, 23), (0, 3, 24), (0, 3, 25), (0, 3, 26), (0, 3, 27),
     (0, 3, 28), (0, 3, 29), (0, 3, 30), (0, 3, 31), (0, 3, 127), (0, 3, 220), (0, 3, 249), (253, 0, 0),
     (1, 2, 19), (22, 3, 19), (1, 2, 20), (22, 3, 20), (1, 2, 21), (22, 3, 21), (1, 2, 23), (22, 3, 23),
     (1, 2, 24), (22, 3, 24), (1, 2, 25), (22, 3, 25), (1, 2, 26), (22, 3, 26), (1, 2, 27), (22, 3, 27)]"

definition huffman_nodes_240 :: "huffman_entry list" where
  "huffman_nodes_240 =
    [(2, 2, 19), (9, 2, 19), (23, 2, 19), (40, 3, 19), (2, 2, 20), (9, 2, 20), (23, 2, 20), (40, 3, 20),
     (2, 2, 21), (9, 2, 21), (23, 2, 21), (40, 3, 21), (2, 2, 23), (9, 2, 23), (23, 2, 23), (40, 3, 23),
     (3, 2, 19), (6, 2, 19), (10, 2, 19), (15, 2, 19), (24, 2, 19), (31, 2, 19), (41, 2, 19), (56, 3, 19),
     (3, 2, 20), (6, 2, 20), (10, 2, 20), (15, 2, 20), (24, 2, 20), (31, 2, 20), (41, 2, 20), (56, 3, 20),
     (3, 2, 21), (6, 2, 21), (10, 2, 21), (15, 2, 21), (24, 2, 21), (31, 2, 21), (41, 2, 21), (56, 3, 21),
     (3, 2, 23), (6, 2, 23), (10, 2, 23), (15, 2, 23), (24, 2, 23), (31, 2, 23), (41, 2, 23), (56, 3, 23),
     (2, 2, 24), (9, 2, 24), (23, 2, 24), (40, 3, 24), (2, 2, 25), (9, 2, 25), (23, 2, 25), (40, 3, 25),
     (2, 2, 26), (9, 2, 26), (23, 2, 26), (40, 3, 26), (2, 2, 27), (9, 2, 27), (23, 2, 27), (40, 3, 27),
     (3, 2, 24), (6, 2, 24), (10, 2, 24), (15, 2, 24), (24, 2, 24), (31, 2, 24), (41, 2, 24), (56, 3, 24),
     (3, 2, 25), (6, 2, 25), (10, 2, 25), (15, 2, 25), (24, 2, 25), (31, 2, 25), (41, 2, 25), (56, 3, 25),
     (3, 2, 26), (6, 2, 26), (10, 2, 26), (15, 2, 26), (24, 2, 26), (31, 2, 26), (41, 2, 26), (56, 3, 26),
     (3, 2, 27), (6, 2, 27), (10, 2, 27), (15, 2, 27), (24, 2, 27), (31, 2, 27), (41, 2, 27), (56, 3, 27),
     (1, 2, 28), (22, 3, 28), (1, 2, 29), (22, 3, 29), (1, 2, 30), (22, 3, 30), (1, 2, 31), (22, 3, 31),
     (1, 2, 127), (22, 3, 127), (1, 2, 220), (22, 3, 220), (1, 2, 249), (22, 3, 249), (254, 0, 0), (255, 0, 0),
     (2, 2, 28), (9, 2, 28), (23, 2, 28), (40, 3, 28), (2, 2, 29), (9, 2, 29), (23, 2, 29), (40, 3, 29),
     (2, 2, 30), (9, 2, 30), (23, 2, 30), (40, 3, 30), (2, 2, 31), (9, 2, 31), (23, 2, 31), (40, 3, 31)]"

definition huffman_nodes_248 :: "huffman_entry list" where
  "huffman_nodes_248 =
    [(3, 2, 28), (6, 2, 28), (10, 2, 28), (15, 2, 28), (24, 2, 28), (31, 2, 28), (41, 2, 28), (56, 3, 28),
     (3, 2, 29), (6, 2, 29), (10, 2, 29), (15, 2, 29), (24, 2, 29), (31, 2, 29), (41, 2, 29), (56, 3, 29),
     (3, 2, 30), (6, 2, 30), (10, 2, 30), (15, 2, 30), (24, 2, 30), (31, 2, 30), (41, 2, 30), (56, 3, 30),
     (3, 2, 31), (6, 2, 31), (10, 2, 31), (15, 2, 31), (24, 2, 31), (31, 2, 31), (41, 2, 31), (56, 3, 31),
     (2, 2, 127), (9, 2, 127), (23, 2, 127), (40, 3, 127), (2, 2, 220), (9, 2, 220), (23, 2, 220), (40, 3, 220),
     (2, 2, 249), (9, 2, 249), (23, 2, 249), (40, 3, 249), (0, 3, 10), (0, 3, 13), (0, 3, 22), (0, 4, 0),
     (3, 2, 127), (6, 2, 127), (10, 2, 127), (15, 2, 127), (24, 2, 127), (31, 2, 127), (41, 2, 127), (56, 3, 127),
     (3, 2, 220), (6, 2, 220), (10, 2, 220), (15, 2, 220), (24, 2, 220), (31, 2, 220), (41, 2, 220), (56, 3, 220),
     (3, 2, 249), (6, 2, 249), (10, 2, 249), (15, 2, 249), (24, 2, 249), (31, 2, 249), (41, 2, 249), (56, 3, 249),
     (1, 2, 10), (22, 3, 10), (1, 2, 13), (22, 3, 13), (1, 2, 22), (22, 3, 22), (0, 4, 0), (0, 4, 0),
     (2, 2, 10), (9, 2, 10), (23, 2, 10), (40, 3, 10), (2, 2, 13), (9, 2, 13), (23, 2, 13), (40, 3, 13),
     (2, 2, 22), (9, 2, 22), (23, 2, 22), (40, 3, 22), (0, 4, 0), (0, 4, 0), (0, 4, 0), (0, 4, 0),
     (3, 2, 10), (6, 2, 10), (10, 2, 10), (15, 2, 10), (24, 2, 10), (31, 2, 10), (41, 2, 10), (56, 3, 10),
     (3, 2, 13), (6, 2, 13), (10, 2, 13), (15, 2, 13), (24, 2, 13), (31, 2, 13), (41, 2, 13), (56, 3, 13),
     (3, 2, 22), (6, 2, 22), (10, 2, 22), (15, 2, 22), (24, 2, 22), (31, 2, 22), (41, 2, 22), (56, 3, 22),
     (0, 4, 0), (0, 4, 0), (0, 4, 0), (0, 4, 0), (0, 4, 0), (0, 4, 0), (0, 4, 0), (0, 4, 0)]"

end
