(* ===== verification/Huffman_Check_3.thy ===== *)
theory Huffman_Check_3
  imports Huffman_Paths Huffman_Table_3
begin

text \<open>Every entry of nodes 192 to 255 of the table is right.\<close>

lemma huffman_nodes_192_ok: "entries_ok 192 0 huffman_nodes_192"
  by (simp add: huffman_nodes_192_def entry_ok_def huffman_lookup del: One_nat_def)

lemma huffman_nodes_200_ok: "entries_ok 200 0 huffman_nodes_200"
  by (simp add: huffman_nodes_200_def entry_ok_def huffman_lookup del: One_nat_def)

lemma huffman_nodes_208_ok: "entries_ok 208 0 huffman_nodes_208"
  by (simp add: huffman_nodes_208_def entry_ok_def huffman_lookup del: One_nat_def)

lemma huffman_nodes_216_ok: "entries_ok 216 0 huffman_nodes_216"
  by (simp add: huffman_nodes_216_def entry_ok_def huffman_lookup del: One_nat_def)

lemma huffman_nodes_224_ok: "entries_ok 224 0 huffman_nodes_224"
  by (simp add: huffman_nodes_224_def entry_ok_def huffman_lookup del: One_nat_def)

lemma huffman_nodes_232_ok: "entries_ok 232 0 huffman_nodes_232"
  by (simp add: huffman_nodes_232_def entry_ok_def huffman_lookup del: One_nat_def)

lemma huffman_nodes_240_ok: "entries_ok 240 0 huffman_nodes_240"
  by (simp add: huffman_nodes_240_def entry_ok_def huffman_lookup del: One_nat_def)

lemma huffman_nodes_248_ok: "entries_ok 248 0 huffman_nodes_248"
  by (simp add: huffman_nodes_248_def entry_ok_def huffman_lookup del: One_nat_def)

end
