(* ===== verification/Huffman_Decoder.thy ===== *)
theory Huffman_Decoder
  imports Huffman_Prefix Huffman_Check_0 Huffman_Check_1 Huffman_Check_2 Huffman_Check_3
begin

unbundle bit_operations_syntax

text \<open>
  \<open>decode_huffman\<close> of \<open>hpack/huffman_table.py\<close>: the nibble automaton over the 4096 entries of
  \<open>HUFFMAN_TABLE\<close>, and its correctness. It accepts exactly the padded code strings and
  returns the string they encode, so it inverts the encoder of \<open>hpack/huffman_encoder.py\<close>
  and nothing else decodes.
\<close>

section \<open>Definitions\<close>

definition HUFFMAN_COMPLETE :: nat where "HUFFMAN_COMPLETE = 1"

definition HUFFMAN_EMIT_SYMBOL :: nat where "HUFFMAN_EMIT_SYMBOL = push_bit 1 1"

definition HUFFMAN_FAIL :: nat where "HUFFMAN_FAIL = push_bit 2 1"

definition HUFFMAN_TABLE :: "huffman_entry list" where
  "HUFFMAN_TABLE =
     huffman_nodes_0 @ huffman_nodes_8 @ huffman_nodes_16 @ huffman_nodes_24 @
     huffman_nodes_32 @ huffman_nodes_40 @ huffman_nodes_48 @ huffman_nodes_56 @
     huffman_nodes_64 @ huffman_nodes_72 @ huffman_nodes_80 @ huffman_nodes_88 @
     huffman_nodes_96 @ huffman_nodes_104 @ huffman_nodes_112 @ huffman_nodes_120 @
     huffman_nodes_128 @ huffman_nodes_136 @ huffman_nodes_144 @ huffman_nodes_152 @
     huffman_nodes_160 @ huffman_nodes_168 @ huffman_nodes_176 @ huffman_nodes_184 @
     huffman_nodes_192 @ huffman_nodes_200 @ huffman_nodes_208 @ huffman_nodes_216 @
     huffman_nodes_224 @ huffman_nodes_232 @ huffman_nodes_240 @ huffman_nodes_248"

text \<open>One half of the unrolled loop body: a nibble through the table.\<close>

definition huffman_nibble :: "nat \<Rightarrow> nat \<Rightarrow> bytes \<Rightarrow> (nat \<times> nat \<times> bytes) res" where
  "huffman_nibble state nibble decoded_bytes =
     (case py_index HUFFMAN_TABLE (int (state * 16 + nibble)) of
        Inl e \<Rightarrow> Inl e
      | Inr (state', flags, output_byte) \<Rightarrow>
          (if flags AND HUFFMAN_FAIL \<noteq> 0 then Inl HPACKDecodingError
           else Inr (state', flags,
                  if flags AND HUFFMAN_EMIT_SYMBOL \<noteq> 0
                  then decoded_bytes @ [word_of_nat output_byte] else decoded_bytes)))"

fun decode_huffman_loop :: "bytes \<Rightarrow> nat \<Rightarrow> nat \<Rightarrow> bytes \<Rightarrow> (nat \<times> bytes) res" where
  "decode_huffman_loop [] state flags decoded_bytes = Inr (flags, decoded_bytes)"
| "decode_huffman_loop (input_byte # rest) state flags decoded_bytes =
     (case huffman_nibble state (unat (drop_bit 4 input_byte)) decoded_bytes of
        Inl e \<Rightarrow> Inl e
      | Inr (state, flags, decoded_bytes) \<Rightarrow>
          (case huffman_nibble state (unat (input_byte AND 0x0F)) decoded_bytes of
             Inl e \<Rightarrow> Inl e
           | Inr (state, flags, decoded_bytes) \<Rightarrow>
               decode_huffman_loop rest state flags decoded_bytes))"

definition decode_huffman :: "bytes \<Rightarrow> bytes res" where
  "decode_huffman huffman_string =
     (if huffman_string = [] then Inr []
      else
        (case decode_huffman_loop huffman_string 0 0 [] of
           Inl e \<Rightarrow> Inl e
         | Inr (flags, decoded_bytes) \<Rightarrow>
             (if flags AND HUFFMAN_COMPLETE = 0 then Inl HPACKDecodingError
              else Inr decoded_bytes)))"

section \<open>The whole table is right\<close>

lemma entries_ok_nth:
  "entries_ok s n es \<Longrightarrow> n < 16 \<Longrightarrow> i < length es \<Longrightarrow>
     entry_ok ((16 * s + n + i) div 16) ((16 * s + n + i) mod 16) (es ! i)"
proof (induction es arbitrary: s n i)
  case (Cons e es)
  show ?case
  proof (cases i)
    case 0
    with Cons.prems show ?thesis by simp
  next
    case (Suc j)
    show ?thesis
    proof (cases "n = 15")
      case True
      then have "16 * s + n + i = 16 * (s + 1) + 0 + j" using Suc by simp
      with True Cons.prems Suc Cons.IH [of "s + 1" 0 j] show ?thesis
        by (simp only: nth_Cons_Suc entries_ok.simps if_True list.size)
    next
      case False
      with Cons.prems Suc Cons.IH [of s "n + 1" j] show ?thesis by simp
    qed
  qed
qed simp

lemma entries_ok_append:
  "entries_ok s 0 (as @ bs)" if "entries_ok s 0 as" "length as = 128" "entries_ok (s + 8) 0 bs"
proof -
  have *: "entries_ok s n (as @ bs)"
    if "entries_ok s n as" "16 * s + n + length as = 16 * t" "n < 16" "entries_ok t 0 bs" "as \<noteq> []"
    for s n t as
    using that
  proof (induction as arbitrary: s n)
    case (Cons a as)
    show ?case
    proof (cases "as = []")
      case True
      with Cons.prems have "n = 15" "t = s + 1" by (simp_all) presburger+
      with True Cons.prems show ?thesis by simp
    next
      case False
      with Cons.prems show ?thesis
        using Cons.IH [of "s + 1" 0] Cons.IH [of s "n + 1"] by (cases "n = 15") auto
    qed
  qed simp
  from that show ?thesis by (intro * [of s 0 as "s + 8"]) auto
qed

lemma huffman_nodes_length:
  "length huffman_nodes_0 = 128" "length huffman_nodes_8 = 128" "length huffman_nodes_16 = 128"
  "length huffman_nodes_24 = 128" "length huffman_nodes_32 = 128" "length huffman_nodes_40 = 128"
  "length huffman_nodes_48 = 128" "length huffman_nodes_56 = 128" "length huffman_nodes_64 = 128"
  "length huffman_nodes_72 = 128" "length huffman_nodes_80 = 128" "length huffman_nodes_88 = 128"
  "length huffman_nodes_96 = 128" "length huffman_nodes_104 = 128" "length huffman_nodes_112 = 128"
  "length huffman_nodes_120 = 128" "length huffman_nodes_128 = 128" "length huffman_nodes_136 = 128"
  "length huffman_nodes_144 = 128" "length huffman_nodes_152 = 128" "length huffman_nodes_160 = 128"
  "length huffman_nodes_168 = 128" "length huffman_nodes_176 = 128" "length huffman_nodes_184 = 128"
  "length huffman_nodes_192 = 128" "length huffman_nodes_200 = 128" "length huffman_nodes_208 = 128"
  "length huffman_nodes_216 = 128" "length huffman_nodes_224 = 128" "length huffman_nodes_232 = 128"
  "length huffman_nodes_240 = 128" "length huffman_nodes_248 = 128"
  by (simp_all add: huffman_nodes_0_def huffman_nodes_8_def huffman_nodes_16_def huffman_nodes_24_def
      huffman_nodes_32_def huffman_nodes_40_def huffman_nodes_48_def huffman_nodes_56_def
      huffman_nodes_64_def huffman_nodes_72_def huffman_nodes_80_def huffman_nodes_88_def
      huffman_nodes_96_def huffman_nodes_104_def huffman_nodes_112_def huffman_nodes_120_def
      huffman_nodes_128_def huffman_nodes_136_def huffman_nodes_144_def huffman_nodes_152_def
      huffman_nodes_160_def huffman_nodes_168_def huffman_nodes_176_def huffman_nodes_184_def
      huffman_nodes_192_def huffman_nodes_200_def huffman_nodes_208_def huffman_nodes_216_def
      huffman_nodes_224_def huffman_nodes_232_def huffman_nodes_240_def huffman_nodes_248_def)

lemmas huffman_nodes_ok =
  huffman_nodes_0_ok huffman_nodes_8_ok huffman_nodes_16_ok huffman_nodes_24_ok
  huffman_nodes_32_ok huffman_nodes_40_ok huffman_nodes_48_ok huffman_nodes_56_ok
  huffman_nodes_64_ok huffman_nodes_72_ok huffman_nodes_80_ok huffman_nodes_88_ok
  huffman_nodes_96_ok huffman_nodes_104_ok huffman_nodes_112_ok huffman_nodes_120_ok
  huffman_nodes_128_ok huffman_nodes_136_ok huffman_nodes_144_ok huffman_nodes_152_ok
  huffman_nodes_160_ok huffman_nodes_168_ok huffman_nodes_176_ok huffman_nodes_184_ok
  huffman_nodes_192_ok huffman_nodes_200_ok huffman_nodes_208_ok huffman_nodes_216_ok
  huffman_nodes_224_ok huffman_nodes_232_ok huffman_nodes_240_ok huffman_nodes_248_ok

lemma HUFFMAN_TABLE_ok: "entries_ok 0 0 HUFFMAN_TABLE"
  unfolding HUFFMAN_TABLE_def
  by (intro entries_ok_append huffman_nodes_length; simp add: huffman_nodes_ok)

lemma length_HUFFMAN_TABLE: "length HUFFMAN_TABLE = 4096"
  by (simp add: HUFFMAN_TABLE_def huffman_nodes_length)

lemma table_entry_ok:
  "s < 256 \<Longrightarrow> n < 16 \<Longrightarrow> entry_ok s n (HUFFMAN_TABLE ! (s * 16 + n))"
  using entries_ok_nth [OF HUFFMAN_TABLE_ok, of "s * 16 + n"]
  by (simp add: length_HUFFMAN_TABLE)

section \<open>One nibble\<close>

lemma flag_cases: "(f::nat) < 4 \<Longrightarrow> f = 0 \<or> f = 1 \<or> f = 2 \<or> f = 3"
  by arith

lemma flag_tests:
  "f < 4 \<Longrightarrow> f AND HUFFMAN_FAIL = 0"
  "f < 4 \<Longrightarrow> f AND HUFFMAN_EMIT_SYMBOL \<noteq> 0 \<longleftrightarrow> f = 2 \<or> f = 3"
  "f < 4 \<Longrightarrow> f AND HUFFMAN_COMPLETE = 0 \<longleftrightarrow> \<not> (f = 1 \<or> f = 3)"
  using flag_cases [of f]
  by (auto simp: HUFFMAN_FAIL_def HUFFMAN_EMIT_SYMBOL_def HUFFMAN_COMPLETE_def)

lemma flag_fail: "4 AND HUFFMAN_FAIL \<noteq> 0"
  by (simp add: HUFFMAN_FAIL_def)

definition all_ones :: "bool list \<Rightarrow> bool" where
  "all_ones bs \<longleftrightarrow> length bs < 8 \<and> bs = replicate (length bs) True"

lemma all_ones_path:
  assumes "s < 256"
  shows "all_ones (node_path s) \<longleftrightarrow>
     node_path_len ! s < 8 \<and> node_path_val ! s + 1 = 2 ^ (node_path_len ! s)"
proof -
  let ?l = "node_path_len ! s" and ?v = "node_path_val ! s"
  have "nat_bits ?l ?v = nat_bits ?l (2 ^ ?l - 1) \<longleftrightarrow> ?v = 2 ^ ?l - 1"
  proof
    assume "nat_bits ?l ?v = nat_bits ?l (2 ^ ?l - 1)"
    then have "bits_nat (nat_bits ?l ?v) = bits_nat (nat_bits ?l (2 ^ ?l - 1))" by simp
    then show "?v = 2 ^ ?l - 1" using path_fits [OF assms] by (simp add: bits_nat_nat_bits)
  qed simp
  moreover have "(?v = 2 ^ ?l - 1) = (?v + 1 = 2 ^ ?l)"
    using one_le_power [of "2::nat" ?l] by auto
  ultimately show ?thesis
    by (simp add: all_ones_def node_path_def flip: nat_bits_ones)
qed

lemma eos_code: "code_bits 256 = replicate 30 True"
  using nat_bits_ones [of 30] by (simp add: code_bits_def huffman_lookup)

text \<open>What an entry of the table says about the bits read.\<close>

lemma nibble_fail:
  assumes s: "s < 256" and n: "n < 16" and e: "HUFFMAN_TABLE ! (s * 16 + n) = (s', 4, out)"
  shows "\<exists>r. node_path s @ nat_bits 4 n = code_bits 256 @ r"
proof -
  let ?l = "node_path_len ! s" and ?v = "node_path_val ! s"
  from table_entry_ok [OF s n] e have "30 \<le> ?l + 4" by (simp add: entry_ok_def)
  then obtain d where d: "?l + 4 = 30 + d" using le_Suc_ex by blast
  with table_entry_ok [OF s n] e have ok: "(?v * 16 + n) div 2 ^ d = 2 ^ 30 - 1"
    by (simp add: entry_ok_def)
  have "node_path s @ nat_bits 4 n = nat_bits (?l + 4) (?v * 2 ^ 4 + n)"
    unfolding node_path_def by (rule nat_bits_append [symmetric]) (use path_fits [OF s] n in auto)
  also have "?v * 2 ^ 4 + n = (2 ^ 30 - 1) * 2 ^ d + (?v * 16 + n) mod 2 ^ d"
    using div_mult_mod_eq [of "?v * 16 + n" "2 ^ d"] ok by simp
  also have "nat_bits (?l + 4) \<dots> = nat_bits 30 (2 ^ 30 - 1) @ nat_bits d ((?v * 16 + n) mod 2 ^ d)"
    unfolding d by (rule nat_bits_append) simp_all
  finally show ?thesis unfolding nat_bits_ones eos_code by blast
qed

lemma nibble_ok:
  assumes s: "s < 256" and n: "n < 16" and e: "HUFFMAN_TABLE ! (s * 16 + n) = (s', f, out)" and f: "f \<noteq> 4"
  shows "f < 4" "s' < 256" "out < 256"
    "node_path s @ nat_bits 4 n = (if f = 2 \<or> f = 3 then code_bits out else []) @ node_path s'"
    "(f = 1 \<or> f = 3) \<longleftrightarrow> all_ones (node_path s')"
proof -
  let ?l = "node_path_len ! s" and ?v = "node_path_val ! s"
  note ok = table_entry_ok [OF s n, unfolded e entry_ok_def prod.case if_not_P [OF f]]
  from ok show f4: "f < 4" and s': "s' < 256" and out: "out < 256" by blast+
  from ok show "(f = 1 \<or> f = 3) \<longleftrightarrow> all_ones (node_path s')"
    unfolding all_ones_path [OF s'] by (auto split: if_splits)
  have "node_path s @ nat_bits 4 n = nat_bits (?l + 4) (?v * 2 ^ 4 + n)"
    unfolding node_path_def by (rule nat_bits_append [symmetric]) (use path_fits [OF s] n in auto)
  moreover have "?v * 2 ^ 4 + n = ?v * 16 + n" by simp
  ultimately have *: "node_path s @ nat_bits 4 n = nat_bits (?l + 4) (?v * 16 + n)" by metis
  show "node_path s @ nat_bits 4 n = (if f = 2 \<or> f = 3 then code_bits out else []) @ node_path s'"
  proof (cases "f = 2 \<or> f = 3")
    case True
    with ok have "?l + 4 = REQUEST_CODES_LENGTH ! out + node_path_len ! s'"
      "?v * 16 + n = REQUEST_CODES ! out * 2 ^ (node_path_len ! s') + node_path_val ! s'" by auto
    with True * show ?thesis
      using nat_bits_append [OF code_fits [of out] path_fits [OF s']] out
      by (simp add: code_bits_def node_path_def)
  next
    case False
    with ok have "?l + 4 = node_path_len ! s'" "?v * 16 + n = node_path_val ! s'" by auto
    with False * show ?thesis by (simp add: node_path_def)
  qed
qed

lemma huffman_nibble_eq:
  assumes "s < 256" "n < 16"
  shows "huffman_nibble s n dec =
     (case HUFFMAN_TABLE ! (s * 16 + n) of (s', f, out) \<Rightarrow>
        if f = 4 then Inl HPACKDecodingError
        else Inr (s', f, if f = 2 \<or> f = 3 then dec @ [word_of_nat out] else dec))"
proof -
  obtain s' f out where e: "HUFFMAN_TABLE ! (s * 16 + n) = (s', f, out)" by (cases "HUFFMAN_TABLE ! (s * 16 + n)")
  have i: "s * 16 + n < 4096" using assms by linarith
  then have "py_index HUFFMAN_TABLE (int (s * 16 + n)) = Inr (s', f, out)"
    using e by (subst py_index_nonneg) (simp_all only: length_HUFFMAN_TABLE nat_int of_nat_0_le_iff)
  then show ?thesis
    using e nibble_ok(1) [OF assms e] flag_tests [of f] flag_fail
    by (cases "f = 4") (simp_all add: huffman_nibble_def del: of_nat_add of_nat_mult)
qed

section \<open>The loop\<close>

lemma byte_nibbles:
  fixes b :: byte
  shows "unat (drop_bit 4 b) < 16" "unat (b AND 0x0F) < 16"
    "nat_bits 8 (unat b) = nat_bits 4 (unat (drop_bit 4 b)) @ nat_bits 4 (unat (b AND 0x0F))"
proof -
  have hi: "unat (drop_bit 4 b) = unat b div 16" 
    unfolding unat_drop_bit_eq by (simp add: drop_bit_eq_div)
  have "b AND 0x0F = take_bit 4 b" by (simp add: take_bit_eq_mask mask_eq_exp_minus_1)
  then have lo: "unat (b AND 0x0F) = unat b mod 16"
    by (simp only: unsigned_take_bit_eq) (simp add: take_bit_eq_mod)
  show h: "unat (drop_bit 4 b) < 16" and l: "unat (b AND 0x0F) < 16"
    unfolding hi lo by (rule less_mult_imp_div_less) simp_all
  have "unat b = unat (drop_bit 4 b) * 2 ^ 4 + unat (b AND 0x0F)"
    unfolding hi lo using div_mult_mod_eq [of "unat b" 16] by simp
  then show "nat_bits 8 (unat b) = nat_bits 4 (unat (drop_bit 4 b)) @ nat_bits 4 (unat (b AND 0x0F))"
    using nat_bits_append [of "unat (drop_bit 4 b)" 4 "unat (b AND 0x0F)" 4] h l by simp
qed

lemma codes_bits_simps [simp]:
  "codes_bits [] = []"
  "codes_bits (b # bs) = code_bits (unat b) @ codes_bits bs"
  "codes_bits (as @ bs) = codes_bits as @ codes_bits bs"
  by (simp_all add: codes_bits_def)

text \<open>A nibble that is accepted consumes bits of the stream (soundness).\<close>

lemma nibble_sound:
  assumes "s < 256" "n < 16" "huffman_nibble s n dec = Inr (s', f, dec')"
  obtains ys where "s' < 256" "dec' = dec @ ys" "node_path s @ nat_bits 4 n = codes_bits ys @ node_path s'"
    "f AND HUFFMAN_COMPLETE \<noteq> 0 \<longleftrightarrow> all_ones (node_path s')"
proof -
  obtain s'' f' out where e: "HUFFMAN_TABLE ! (s * 16 + n) = (s'', f', out)"
    by (cases "HUFFMAN_TABLE ! (s * 16 + n)")
  from assms e have f': "f' \<noteq> 4" and eq: "s'' = s'" "f' = f"
    "dec' = (if f = 2 \<or> f = 3 then dec @ [word_of_nat out] else dec)"
    by (auto simp: huffman_nibble_eq split: if_splits)
  note ok = nibble_ok [OF assms(1,2) e f', unfolded eq]
  show ?thesis
  proof (cases "f = 2 \<or> f = 3")
    case True
    with ok eq show ?thesis
      by (intro that [of "[word_of_nat out]"]) (simp_all add: flag_tests)
  next
    case False
    with ok eq show ?thesis
      by (intro that [of "[]"]) (simp_all add: flag_tests)
  qed
qed

lemma decode_loop_sound:
  "s < 256 \<Longrightarrow> decode_huffman_loop bs s f dec = Inr (f', dec') \<Longrightarrow>
     \<exists>ys s'. s' < 256 \<and> dec' = dec @ ys \<and>
       node_path s @ bits_of_bytes bs = codes_bits ys @ node_path s' \<and>
       (bs \<noteq> [] \<longrightarrow> (f' AND HUFFMAN_COMPLETE \<noteq> 0 \<longleftrightarrow> all_ones (node_path s')))"
proof (induction bs arbitrary: s f dec)
  case Nil
  then show ?case by (intro exI [of _ "[]"] exI [of _ s]) simp
next
  case (Cons b bs)
  let ?h = "unat (drop_bit 4 b)" and ?l = "unat (b AND 0x0F)"
  from Cons.prems(2) obtain s1 f1 d1 s2 f2 d2 where
    n1: "huffman_nibble s ?h dec = Inr (s1, f1, d1)" and
    n2: "huffman_nibble s1 ?l d1 = Inr (s2, f2, d2)" and
    rest: "decode_huffman_loop bs s2 f2 d2 = Inr (f', dec')"
    by auto
  obtain y1 where y1: "s1 < 256" "d1 = dec @ y1" "node_path s @ nat_bits 4 ?h = codes_bits y1 @ node_path s1"
    using nibble_sound [OF Cons.prems(1) byte_nibbles(1) n1] by metis
  obtain y2 where y2: "s2 < 256" "d2 = d1 @ y2" "node_path s1 @ nat_bits 4 ?l = codes_bits y2 @ node_path s2"
    "f2 AND HUFFMAN_COMPLETE \<noteq> 0 \<longleftrightarrow> all_ones (node_path s2)"
    using nibble_sound [OF y1(1) byte_nibbles(2) n2] by metis
  obtain ys s' where ys: "s' < 256" "dec' = d2 @ ys"
    "node_path s2 @ bits_of_bytes bs = codes_bits ys @ node_path s'"
    "bs \<noteq> [] \<longrightarrow> (f' AND HUFFMAN_COMPLETE \<noteq> 0 \<longleftrightarrow> all_ones (node_path s'))"
    using Cons.IH [OF y2(1) rest] by blast
  have "node_path s @ bits_of_bytes (b # bs) = codes_bits (y1 @ y2 @ ys) @ node_path s'"
    using y1(3) y2(3) ys(3) by (simp add: byte_nibbles(3)) (metis append.assoc)
  moreover have "f' AND HUFFMAN_COMPLETE \<noteq> 0 \<longleftrightarrow> all_ones (node_path s')"
  proof (cases "bs = []")
    case True
    with rest ys(3) y2 have "f' = f2" "node_path s2 = codes_bits ys @ node_path s'" by simp_all
    moreover have "ys = []"
      using \<open>node_path s2 = _\<close> path_no_code [OF y2(1) unat_lt_257] by (cases ys) auto
    ultimately show ?thesis using y2(4) by simp
  qed (use ys(4) in simp)
  ultimately show ?case using ys y1 y2 by (intro exI [of _ "y1 @ y2 @ ys"] exI [of _ s']) simp
qed

text \<open>A nibble of a padded code stream is accepted and emits what the stream says (completeness).\<close>

lemma code_not_ones:
  assumes "k < 256"
  shows "replicate m True \<noteq> code_bits k @ r"
proof
  assume eq: "replicate m True = code_bits k @ r"
  then have "set (code_bits k) \<subseteq> {True}"
    by (metis Un_subset_iff set_append set_replicate_conv_if empty_subsetI order_refl)
  then have "code_bits k = replicate (REQUEST_CODES_LENGTH ! k) True"
    by (metis length_code_bits replicate_eqI singletonD subsetD)
  moreover have "REQUEST_CODES_LENGTH ! k \<le> 30" using assms by (intro code_len_le) simp
  ultimately have "code_bits 256 = code_bits k @ replicate (30 - REQUEST_CODES_LENGTH ! k) True"
    by (simp add: eos_code flip: replicate_add)
  then have "k = 256" using assms by (intro code_prefix_eq [of k 256]) auto
  with assms show False by simp
qed

lemma stream_head:
  assumes "k < 257" "code_bits k @ r = codes_bits ys @ replicate m True" "m < 8"
  obtains y ys' where "ys = y # ys'" "unat y = k" "r = codes_bits ys' @ replicate m True"
proof (cases ys)
  case Nil
  with assms(2) have ones: "replicate m True = code_bits k @ r" by simp
  show ?thesis
  proof (cases "k = 256")
    case True
    with ones have "length (replicate m True) = 30 + length r" by (simp add: eos_code)
    with assms(3) show ?thesis by simp
  next
    case False
    with assms(1) ones code_not_ones [of k m r] show ?thesis by simp
  qed
next
  case (Cons y ys')
  with assms(2) have "code_bits k @ r = code_bits (unat y) @ (codes_bits ys' @ replicate m True)"
    by simp
  moreover from this have "k = unat y" by (rule codes_prefix_free [OF assms(1) unat_lt_257])
  ultimately show ?thesis using Cons that by simp
qed

lemma nibble_complete:
  assumes s: "s < 256" and n: "n < 16" and m: "m < 8"
    and str: "node_path s @ nat_bits 4 n @ rest = codes_bits ys @ replicate m True"
  obtains s' f ys1 ys2 where "huffman_nibble s n dec = Inr (s', f, dec @ ys1)" "s' < 256"
    "ys = ys1 @ ys2" "node_path s' @ rest = codes_bits ys2 @ replicate m True"
    "f AND HUFFMAN_COMPLETE \<noteq> 0 \<longleftrightarrow> all_ones (node_path s')"
proof -
  obtain s' f out where e: "HUFFMAN_TABLE ! (s * 16 + n) = (s', f, out)"
    by (cases "HUFFMAN_TABLE ! (s * 16 + n)")
  have "f \<noteq> 4"
  proof
    assume "f = 4"
    with nibble_fail [OF s n] e obtain r where r: "node_path s @ nat_bits 4 n = code_bits 256 @ r"
      by blast
    with str have eq: "code_bits 256 @ (r @ rest) = codes_bits ys @ replicate m True"
      by (metis append.assoc)
    have "unat (y :: byte) \<noteq> 256" for y by (metis unat_byte_less less_irrefl)
    moreover have "(256::nat) < 257" by simp
    ultimately show False by (metis stream_head [OF _ eq m])
  qed
  note ok = nibble_ok [OF s n e this]
  show ?thesis
  proof (cases "f = 2 \<or> f = 3")
    case True
    then have p: "node_path s @ nat_bits 4 n = code_bits out @ node_path s'" using ok(4) by simp
    have "code_bits out @ (node_path s' @ rest) = (node_path s @ nat_bits 4 n) @ rest"
      unfolding p by simp
    also have "\<dots> = codes_bits ys @ replicate m True" using str by simp
    finally have eq: "code_bits out @ (node_path s' @ rest) = codes_bits ys @ replicate m True" .
    have "out < 257" using ok(3) by simp
    then obtain y ys' where y: "ys = y # ys'" "unat y = out"
      "node_path s' @ rest = codes_bits ys' @ replicate m True"
      by (rule stream_head [OF _ eq m])
    from y(2) have "word_of_nat out = y" by (simp flip: y(2))
    with True y ok e \<open>f \<noteq> 4\<close> show ?thesis
      by (intro that [of s' f "[y]" ys']) (simp_all add: huffman_nibble_eq [OF s n] flag_tests)
  next
    case False
    then have p: "node_path s @ nat_bits 4 n = node_path s'" using ok(4) by simp
    have "node_path s' @ rest = codes_bits ys @ replicate m True" using str by (simp flip: p)
    with False ok e \<open>f \<noteq> 4\<close> show ?thesis
      by (intro that [of s' f "[]" ys]) (simp_all add: huffman_nibble_eq [OF s n] flag_tests)
  qed
qed

lemma decode_loop_complete:
  assumes "s < 256" "m < 8" "node_path s @ bits_of_bytes bs = codes_bits ys @ replicate m True"
  shows "\<exists>f'. decode_huffman_loop bs s f dec = Inr (f', dec @ ys) \<and>
           (bs \<noteq> [] \<longrightarrow> f' AND HUFFMAN_COMPLETE \<noteq> 0)"
  using assms
proof (induction bs arbitrary: s f dec ys)
  case Nil
  then have "ys = []" using path_no_code [OF Nil(1) unat_lt_257] by (cases ys) auto
  then show ?case by simp
next
  case (Cons b bs)
  let ?h = "unat (drop_bit 4 b)" and ?l = "unat (b AND 0x0F)"
  have str: "node_path s @ nat_bits 4 ?h @ (nat_bits 4 ?l @ bits_of_bytes bs) =
      codes_bits ys @ replicate m True"
    using Cons.prems(3) by (simp add: byte_nibbles(3))
  obtain s1 f1 y1 z1 where n1: "huffman_nibble s ?h dec = Inr (s1, f1, dec @ y1)" "s1 < 256"
    "ys = y1 @ z1" "node_path s1 @ (nat_bits 4 ?l @ bits_of_bytes bs) = codes_bits z1 @ replicate m True"
    using nibble_complete [OF Cons.prems(1) byte_nibbles(1) Cons.prems(2) str] by metis
  obtain s2 f2 y2 z2 where n2: "huffman_nibble s1 ?l (dec @ y1) = Inr (s2, f2, (dec @ y1) @ y2)" "s2 < 256"
    "z1 = y2 @ z2" "node_path s2 @ bits_of_bytes bs = codes_bits z2 @ replicate m True"
    "f2 AND HUFFMAN_COMPLETE \<noteq> 0 \<longleftrightarrow> all_ones (node_path s2)"
    using nibble_complete [OF n1(2) byte_nibbles(2) Cons.prems(2) n1(4)] by metis
  obtain f' where f': "decode_huffman_loop bs s2 f2 ((dec @ y1) @ y2) = Inr (f', ((dec @ y1) @ y2) @ z2)"
    "bs \<noteq> [] \<longrightarrow> f' AND HUFFMAN_COMPLETE \<noteq> 0"
    using Cons.IH [OF n2(2) Cons.prems(2) n2(4)] by blast
  have "f' AND HUFFMAN_COMPLETE \<noteq> 0"
  proof (cases "bs = []")
    case True
    with n2(4) have p: "node_path s2 = codes_bits z2 @ replicate m True" by simp
    then have "z2 = []" using path_no_code [OF n2(2) unat_lt_257] by (cases z2) auto
    with p Cons.prems(2) have "all_ones (node_path s2)" by (simp add: all_ones_def)
    with n2(5) f'(1) True show ?thesis by simp
  qed (use f'(2) in simp)
  with n1 n2 f'(1) show ?case by simp
qed

text \<open>The automaton accepts exactly the code strings padded with fewer than eight ones.\<close>

lemma decode_huffman_iff:
  "decode_huffman bs = Inr xs \<longleftrightarrow>
     (\<exists>m < 8. bits_of_bytes bs = codes_bits xs @ replicate m True)"
proof
  assume d: "decode_huffman bs = Inr xs"
  show "\<exists>m < 8. bits_of_bytes bs = codes_bits xs @ replicate m True"
  proof (cases "bs = []")
    case False
    with d obtain f where f: "decode_huffman_loop bs 0 0 [] = Inr (f, xs)" "f AND HUFFMAN_COMPLETE \<noteq> 0"
      by (auto simp: decode_huffman_def split: if_splits)
    obtain ys s' where "xs = ys" "node_path 0 @ bits_of_bytes bs = codes_bits ys @ node_path s'"
      "all_ones (node_path s')"
      using decode_loop_sound [OF _ f(1)] False f(2) by auto
    moreover have "node_path 0 = []" by (simp add: node_path_def huffman_lookup)
    ultimately show ?thesis unfolding all_ones_def by (metis append_Nil)
  qed (use d in \<open>simp add: decode_huffman_def\<close>)
next
  assume "\<exists>m < 8. bits_of_bytes bs = codes_bits xs @ replicate m True"
  then obtain m where m: "m < 8" "bits_of_bytes bs = codes_bits xs @ replicate m True" by blast
  show "decode_huffman bs = Inr xs"
  proof (cases "bs = []")
    case True
    with m codes_bits_nonempty [of xs] show ?thesis by (auto simp: decode_huffman_def)
  next
    case False
    have "node_path 0 = []" by (simp add: node_path_def huffman_lookup)
    with decode_loop_complete [of 0 m bs xs 0 "[]"] m False show ?thesis
      by (auto simp: decode_huffman_def)
  qed
qed

text \<open>Padding is determined by the length, so the bytes are determined by the string.\<close>

lemma bits_of_bytes_inject: "bits_of_bytes as = bits_of_bytes bs \<Longrightarrow> as = bs"
proof -
  assume eq: "bits_of_bytes as = bits_of_bytes bs"
  then have "8 * length as = 8 * length bs" by (metis length_bits_of_bytes)
  moreover have "be_value as = be_value bs" using eq by (metis bits_nat_bits_of_bytes)
  ultimately show "as = bs" by (intro be_value_unique) simp_all
qed

lemma pad_length_unique:
  assumes "m < 8" "8 dvd n + m"
  shows "m = pad_length_of n"
proof -
  have "pad_length_of n < 8" by (simp add: pad_length_of_def)
  moreover have "int 8 dvd int (n + m) - int (n + pad_length_of n)"
    using assms(2) pad_length_of_dvd [of n] by (intro dvd_diff) (simp_all only: of_nat_dvd_iff)
  then obtain k where "int m - int (pad_length_of n) = 8 * k" by (auto simp: dvd_def)
  ultimately show ?thesis using assms(1) by arith
qed

lemma huffman_inverse:
  "decode_huffman bs = Inr xs \<longleftrightarrow> huffman_encode REQUEST_CODES REQUEST_CODES_LENGTH xs = Inr bs"
proof -
  let ?p = "pad_length_of (length (codes_bits xs))"
  obtain es where es: "huffman_encode REQUEST_CODES REQUEST_CODES_LENGTH xs = Inr es"
    "bits_of_bytes es = codes_bits xs @ replicate ?p True"
    using huffman_encode_bits [of xs] by blast
  have "?p < 8" by (simp add: pad_length_of_def)
  moreover have "m = ?p" if "m < 8" "bits_of_bytes bs = codes_bits xs @ replicate m True" for m
  proof (rule pad_length_unique [OF that(1)])
    have "8 * length bs = length (codes_bits xs) + m"
      using arg_cong [OF that(2), of length] by simp
    then show "8 dvd length (codes_bits xs) + m" by (metis dvd_triv_left)
  qed
  ultimately show ?thesis
    unfolding decode_huffman_iff using es bits_of_bytes_inject [of es bs] by auto
qed

lemma huffman_encode_total:
  obtains bs where "huffman_encode REQUEST_CODES REQUEST_CODES_LENGTH xs = Inr bs" "decode_huffman bs = Inr xs"
  using huffman_encode_bits [of xs] huffman_inverse [of _ xs] by blast

end
