(* ===== verification/Hpack_Decoder.thy ===== *)
theory Hpack_Decoder
  imports Hpack_Integer Header_Store Huffman_Decoder
begin

unbundle bit_operations_syntax

text \<open>
  The HPACK decoder used on responses: \<open>decode_integer\<close> and class \<open>Decoder\<close> of
  \<open>core/engines/types/common/decoder.py\<close>, and \<open>DeferredHeaders.parse\<close> of
  \<open>http2/events/deferred_headers_event.py\<close>.

  The decoder works on slices of \<open>memoryview(data)\<close>. \<open>decode_integer\<close> is decorated with
  \<open>functools.lru_cache\<close>, which hashes its arguments: a view of \<open>bytes\<close> is hashable, a view
  of a \<open>bytearray\<close> is writable and its hash raises \<open>ValueError\<close>. The flag \<open>writable\<close> says
  which of the two the block is; the cached value depends on the arguments only, so the
  cache has no other effect. The state of a decoding run is the header table, a shared
  object named by \<open>self\<close>, and the cache of \<open>HeaderTable.get_by_index\<close>.
\<close>

section \<open>Definitions\<close>

definition decode_integer_view :: "bool \<Rightarrow> bytes \<Rightarrow> nat \<Rightarrow> (int \<times> int) res" where
  "decode_integer_view writable data prefix_bits =
     (if writable then Inl ValueError
      else if prefix_bits > 8 then Inl IndexError
      else
        (let max_number = PREFIX_BIT_MAX_NUMBERS ! prefix_bits;
             mask' = drop_bit (8 - prefix_bits) (255 :: int)
         in case data of
              [] \<Rightarrow> Inl HPACKDecodingError
            | first # rest \<Rightarrow>
                (let number = uint first AND mask'
                 in if number = max_number
                    then (case decode_integer_loop rest 0 number 1 of
                            None \<Rightarrow> Inl HPACKDecodingError
                          | Some r \<Rightarrow> Inr r)
                    else Inr (number, 1))))"

record dec_state =
  dec_table :: header_table
  dec_cache :: gbi_cache

text \<open>\<open>self.header_table.get_by_index(index)\<close> in a decoding run.\<close>

definition dec_lookup :: "nat \<Rightarrow> dec_state \<Rightarrow> int \<Rightarrow> dec_state \<times> entry option res" where
  "dec_lookup self st index =
     (case get_by_index self (dec_table st) (dec_cache st) index of
        (cache, r) \<Rightarrow> (st\<lparr>dec_cache := cache\<rparr>, r))"

text \<open>
  A length-prefixed string: the view of its bytes, or the \<open>bytes\<close> that \<open>decode_huffman\<close>
  returns, with the length of the string and of its prefix. A slice past the end of the
  data is shorter than the length, as in Python.
\<close>

definition decode_string :: "bool \<Rightarrow> bytes \<Rightarrow> (buf \<times> int \<times> int) res" where
  "decode_string writable data =
     (case decode_integer_view writable data 7 of
        Inl err \<Rightarrow> Inl err
      | Inr (len, consumed) \<Rightarrow>
          (let s = py_slice data consumed (consumed + len)
           in if hd data AND 0x80 \<noteq> 0
              then (case decode_huffman s of
                      Inl err \<Rightarrow> Inl err
                    | Inr s \<Rightarrow> Inr (PyBytes s, len, consumed))
              else Inr (PyView s, len, consumed)))"

text \<open>The part of \<open>_decode_literal\<close> after the name: the value, and the insertion.\<close>

definition decode_value ::
    "dec_state \<Rightarrow> bool \<Rightarrow> bytes \<Rightarrow> bool \<Rightarrow> buf \<Rightarrow> int \<Rightarrow> dec_state \<times> (entry \<times> int) res" where
  "decode_value st writable data should_index name total_consumed =
     (case decode_string writable data of
        Inl err \<Rightarrow> (st, Inl err)
      | Inr (val, len, consumed) \<Rightarrow>
          (let total_consumed = total_consumed + (len + consumed)
           in if should_index
              then (case table_add (dec_table st) name val of
                      (t, Some err) \<Rightarrow> (st\<lparr>dec_table := t\<rparr>, Inl err)
                    | (t, None) \<Rightarrow> (st\<lparr>dec_table := t\<rparr>, Inr ((name, val), total_consumed)))
              else (st, Inr ((name, val), total_consumed))))"

definition decode_literal ::
    "nat \<Rightarrow> dec_state \<Rightarrow> bool \<Rightarrow> bytes \<Rightarrow> bool \<Rightarrow> dec_state \<times> (entry \<times> int) res" where
  "decode_literal self st writable data should_index =
     (let indexed_name = (if should_index then hd data AND 0x3F else hd data AND 0x0F);
          name_len = (if should_index then 6 else 4)
      in if indexed_name \<noteq> 0
         then
           (case decode_integer_view writable data name_len of
              Inl err \<Rightarrow> (st, Inl err)
            | Inr (index, consumed) \<Rightarrow>
                (case dec_lookup self st index of
                   (st, Inl err) \<Rightarrow> (st, Inl err)
                 | (st, Inr None) \<Rightarrow> (st, Inl TypeError)
                 | (st, Inr (Some e)) \<Rightarrow>
                     decode_value st writable (drop (nat consumed) data) should_index (fst e) consumed))
         else
           (let data = drop 1 data
            in case decode_string writable data of
                 Inl err \<Rightarrow> (st, Inl err)
               | Inr (name, len, consumed) \<Rightarrow>
                   decode_value st writable (drop (nat (consumed + len)) data) should_index name
                     (consumed + len + 1)))"

text \<open>One round of the loop of \<open>Decoder.decode\<close>, on the data from \<open>current_index\<close> on.\<close>

definition decode_field ::
    "nat \<Rightarrow> dec_state \<Rightarrow> bool \<Rightarrow> bytes \<Rightarrow> dec_state \<times> (entry option \<times> int) res" where
  "decode_field self st writable data =
     (let current = hd data
      in if current AND 0x80 \<noteq> 0
         then (case decode_integer_view writable data 7 of
                 Inl err \<Rightarrow> (st, Inl err)
               | Inr (index, consumed) \<Rightarrow>
                   (case dec_lookup self st index of
                      (st, Inl err) \<Rightarrow> (st, Inl err)
                    | (st, Inr header) \<Rightarrow> (st, Inr (header, consumed))))
         else if current AND 0x40 \<noteq> 0
         then (case decode_literal self st writable data True of
                 (st, Inl err) \<Rightarrow> (st, Inl err)
               | (st, Inr (header, consumed)) \<Rightarrow> (st, Inr (Some header, consumed)))
         else if current AND 0x20 \<noteq> 0
         then (case decode_integer_view writable data 5 of
                 Inl err \<Rightarrow> (st, Inl err)
               | Inr (new_size, consumed) \<Rightarrow>
                   (case set_maxsize (dec_table st) new_size of
                      (t, Some err) \<Rightarrow> (st\<lparr>dec_table := t\<rparr>, Inl err)
                    | (t, None) \<Rightarrow> (st\<lparr>dec_table := t\<rparr>, Inr (None, consumed))))
         else (case decode_literal self st writable data False of
                 (st, Inl err) \<Rightarrow> (st, Inl err)
               | (st, Inr (header, consumed)) \<Rightarrow> (st, Inr (Some header, consumed))))"

section \<open>Every round consumes input\<close>

lemma decode_integer_view_consumed:
  "decode_integer_view w data p = Inr (n, i) \<Longrightarrow> 1 \<le> i"
  by (auto simp: decode_integer_view_def Let_def split: if_splits list.splits option.splits
      dest: decode_integer_loop_consumed)

lemma decode_integer_loop_nonneg:
  "decode_integer_loop bs shift number index = Some (n, i) \<Longrightarrow> 0 \<le> number \<Longrightarrow> 0 \<le> n"
proof (induction bs arbitrary: shift number index)
  case (Cons b bs)
  have "0 \<le> push_bit shift (uint b)" by (simp add: push_bit_eq_mult)
  moreover have "uint b \<ge> 128 \<Longrightarrow> 0 \<le> push_bit shift (uint b - 128)" by (simp add: push_bit_eq_mult)
  ultimately show ?case using Cons by (auto split: if_splits)
qed simp

lemma decode_integer_view_nonneg:
  "decode_integer_view w data p = Inr (n, i) \<Longrightarrow> 0 \<le> n"
  by (auto simp: decode_integer_view_def Let_def PREFIX_BIT_MAX_NUMBERS_nth
      split: if_splits list.splits option.splits elim!: decode_integer_loop_nonneg)

lemma decode_string_consumed:
  "decode_string w data = Inr (b, len, i) \<Longrightarrow> 1 \<le> i \<and> 0 \<le> len"
  by (auto simp: decode_string_def Let_def split: if_splits
      dest: decode_integer_view_consumed decode_integer_view_nonneg)

lemma decode_value_consumed:
  "decode_value st w data si name tot = (st', Inr (h, c)) \<Longrightarrow> tot < c"
  by (auto simp: decode_value_def Let_def split: sum.splits prod.splits option.splits if_splits
      dest!: decode_string_consumed)

lemma decode_literal_consumed:
  assumes "decode_literal self st w data si = (st', Inr (h, c))"
  shows "1 \<le> c"
  using assms
  by (auto simp: decode_literal_def Let_def split: sum.splits prod.splits option.splits if_splits
      dest!: decode_string_consumed decode_value_consumed decode_integer_view_consumed)

lemma decode_field_consumed:
  assumes "decode_field self st w data = (st', Inr (h, c))"
  shows "1 \<le> c"
  using assms
  by (auto simp: decode_field_def Let_def split: sum.splits prod.splits option.splits if_splits
      dest: decode_integer_view_consumed decode_literal_consumed)

section \<open>The loop\<close>

function decode_loop ::
    "nat \<Rightarrow> bool \<Rightarrow> dec_state \<Rightarrow> bytes \<Rightarrow> entry list \<Rightarrow> dec_state \<times> entry list res" where
  "decode_loop self writable st data headers =
     (if data = [] then (st, Inr headers)
      else (case decode_field self st writable data of
              (st, Inl err) \<Rightarrow> (st, Inl err)
            | (st, Inr (header, consumed)) \<Rightarrow>
                decode_loop self writable st (drop (nat consumed) data)
                  (case header of None \<Rightarrow> headers | Some h \<Rightarrow> headers @ [h])))"
  by pat_completeness auto
termination
  by (relation "measure (\<lambda>(self, w, st, data, headers). length data)")
    (auto dest!: decode_field_consumed [OF sym])

declare decode_loop.simps [simp del]

definition dec_decode :: "nat \<Rightarrow> dec_state \<Rightarrow> bool \<Rightarrow> bytes \<Rightarrow> dec_state \<times> entry list res" where
  "dec_decode self st writable data = decode_loop self writable st data []"

end
