(* ===== verification/Deferred_Headers.thy ===== *)
theory Deferred_Headers
  imports Hpack_Decoder "HOL-Library.AList"
begin

unbundle bit_operations_syntax

text \<open>
  \<open>DeferredHeaders.parse\<close> of \<open>http2/events/deferred_headers_event.py\<close>: decode the raw block
  of a HEADERS frame against the header table the event was created with (the table of the
  stream's encoder), then split the list of fields into the status code and a dictionary.

  A decoded name or value is \<open>bytes\<close> (\<open>PyBytes\<close>, from the static table or a Huffman string)
  or a \<open>memoryview\<close> (\<open>PyView\<close>, from a literal without Huffman coding). Both compare equal to
  \<open>bytes\<close> with the same content, only \<open>bytes\<close> have \<open>decode\<close>, \<open>startswith\<close> and \<open>strip\<close>.
\<close>

section \<open>\<open>int(v.decode("ascii", errors="ignore"))\<close>\<close>

definition is_space :: "byte \<Rightarrow> bool" where
  "is_space b \<longleftrightarrow> 9 \<le> b \<and> b \<le> 13 \<or> b = 32"

definition decode_ascii_ignore :: "bytes \<Rightarrow> bytes" where
  "decode_ascii_ignore bs = filter (\<lambda>b. b < 128) bs"

definition strip_by :: "(byte \<Rightarrow> bool) \<Rightarrow> bytes \<Rightarrow> bytes" where
  "strip_by P bs = rev (dropWhile P (rev (dropWhile P bs)))"

text \<open>Decimal digits, with single underscores between digits.\<close>

fun int_digits :: "bool \<Rightarrow> int \<Rightarrow> bytes \<Rightarrow> int option" where
  "int_digits after_digit acc [] = (if after_digit then Some acc else None)"
| "int_digits after_digit acc (b # bs) =
     (if 48 \<le> b \<and> b \<le> 57 then int_digits True (acc * 10 + (uint b - 48)) bs
      else if b = 95 \<and> after_digit then int_digits False acc bs
      else None)"

definition py_int :: "bytes \<Rightarrow> int res" where
  "py_int bs =
     (let s = strip_by is_space bs;
          r = (case s of
                 [] \<Rightarrow> None
               | b # rest \<Rightarrow>
                   if b = 45 then map_option uminus (int_digits False 0 rest)
                   else if b = 43 then int_digits False 0 rest
                   else int_digits False 0 s)
      in case r of None \<Rightarrow> Inl ValueError | Some n \<Rightarrow> Inr n)"

section \<open>Parsing\<close>

type_synonym headers_dict = "(bytes \<times> buf) list"

fun parse_headers :: "entry list \<Rightarrow> int option \<Rightarrow> headers_dict \<Rightarrow> (int option \<times> headers_dict) res" where
  "parse_headers [] status_code d = Inr (status_code, d)"
| "parse_headers ((k, v) # headers) status_code d =
     (if raw k = b_lit '':status''
      then (case v of
              PyView _ \<Rightarrow> Inl AttributeError
            | PyBytes s \<Rightarrow>
                (case py_int (decode_ascii_ignore s) of
                   Inl err \<Rightarrow> Inl err
                 | Inr n \<Rightarrow> parse_headers headers (Some n) d))
      else (case k of
              PyView _ \<Rightarrow> Inl AttributeError
            | PyBytes s \<Rightarrow>
                if take 1 s = b_lit '':''
                then parse_headers headers status_code (AList.update (strip_by (\<lambda>b. b = 58) s) v d)
                else parse_headers headers status_code (AList.update s v d)))"

text \<open>
  \<open>writable\<close> says whether the raw block is a \<open>bytearray\<close>; \<open>self\<close> names the table object.
  Assigning the table its own \<open>maxsize\<close> comes first.
\<close>

definition parse_deferred ::
    "nat \<Rightarrow> dec_state \<Rightarrow> bool \<Rightarrow> bytes \<Rightarrow> dec_state \<times> (int option \<times> headers_dict) res" where
  "parse_deferred self st writable raw_headers =
     (case set_maxsize (dec_table st) (maxsize (dec_table st)) of
        (t, Some err) \<Rightarrow> (st\<lparr>dec_table := t\<rparr>, Inl err)
      | (t, None) \<Rightarrow>
          (case dec_decode self (st\<lparr>dec_table := t\<rparr>) writable raw_headers of
             (st, Inl _) \<Rightarrow> (st, Inr (Some 400, []))
           | (st, Inr headers) \<Rightarrow> (st, parse_headers headers None [])))"

section \<open>A block in a bytearray\<close>

lemma decode_literal_writable: "\<exists>err. decode_literal self st True data si = (st, Inl err)"
  by (simp add: decode_literal_def decode_integer_view_def decode_string_def Let_def)

lemma decode_field_writable: "\<exists>err. decode_field self st True data = (st, Inl err)"
proof -
  obtain e1 e2 where "decode_literal self st True data True = (st, Inl e1)"
    "decode_literal self st True data False = (st, Inl e2)"
    using decode_literal_writable by metis
  then show ?thesis
    by (simp add: decode_field_def decode_integer_view_def Let_def)
qed

lemma dec_decode_writable:
  assumes "data \<noteq> []"
  shows "\<exists>err. dec_decode self st True data = (st, Inl err)"
proof -
  obtain err where "decode_field self st True data = (st, Inl err)"
    using decode_field_writable by blast
  with assms show ?thesis
    by (simp add: dec_decode_def decode_loop.simps [of self True st data])
qed

lemma set_maxsize_same:
  assumes "ht_inv t"
  shows "\<exists>t'. set_maxsize t (maxsize t) = (t', None) \<and> ht_inv t' \<and> maxsize t' = maxsize t \<and>
           content t' = content t \<and> \<not> resized t'"
proof -
  obtain t' where t': "set_maxsize t (maxsize t) = (t', None)" "ht_inv t'" "maxsize t' = maxsize t"
    "\<not> resized t'" "content t' = fit (maxsize t) (content t)"
    using set_maxsize_fit [OF assms, of "maxsize t"] by auto
  have "fit (maxsize t) (content t) = content t"
  proof (cases "maxsize t \<le> 0")
    case True
    with assms have "fields_size (content t) \<le> 0" by (simp add: ht_inv_def)
    moreover have "0 < fields_size (f # fs)" for f fs
      using field_size_pos [of f] fields_size_nonneg [of fs] unfolding fields_size_simps by linarith
    ultimately have "content t = []"
      by (cases "content t") (simp, metis not_less)
    with t'(5) show ?thesis by simp
  next
    case False
    with assms show ?thesis by (intro fit_all) (auto simp: ht_inv_def)
  qed
  with t' show ?thesis by auto
qed

section \<open>A block whose strings are bytes\<close>

text \<open>What the loop computes on \<open>bytes\<close> fields: the last status, and the last value of each name.\<close>

definition statuses :: "field list \<Rightarrow> bytes list" where
  "statuses fs = map snd (filter (\<lambda>f. fst f = b_lit '':status'') fs)"

definition plain_name :: "bytes \<Rightarrow> bytes" where
  "plain_name n = (if take 1 n = b_lit '':'' then strip_by (\<lambda>b. b = 58) n else n)"

definition plain_fields :: "field list \<Rightarrow> (bytes \<times> buf) list" where
  "plain_fields fs =
     map (\<lambda>f. (plain_name (fst f), PyBytes (snd f))) (filter (\<lambda>f. fst f \<noteq> b_lit '':status'') fs)"

lemma parse_headers_bytes:
  assumes "\<forall>s \<in> set (statuses fs). \<exists>c. py_int (decode_ascii_ignore s) = Inr c"
  shows "\<exists>d'. parse_headers (map (\<lambda>f. (PyBytes (fst f), PyBytes (snd f))) fs) sc d =
     Inr (if statuses fs = [] then sc
          else Some (projr (py_int (decode_ascii_ignore (last (statuses fs))))), d') \<and>
     map_of d' = map_of d ++ map_of (rev (plain_fields fs))"
  using assms
proof (induction fs arbitrary: sc d)
  case Nil
  then show ?case by (simp add: statuses_def plain_fields_def)
next
  case (Cons f fs)
  obtain n v where f: "f = (n, v)" by (cases f)
  show ?case
  proof (cases "n = b_lit '':status''")
    case True
    then have st: "statuses (f # fs) = v # statuses fs" "plain_fields (f # fs) = plain_fields fs"
      by (simp_all add: statuses_def plain_fields_def f)
    with Cons.prems obtain c where c: "py_int (decode_ascii_ignore v) = Inr c" by auto
    from Cons.IH [of "Some c" d] Cons.prems st True c show ?thesis by (auto simp: f)
  next
    case False
    let ?d = "AList.update (plain_name n) (PyBytes v) d"
    from False have st: "statuses (f # fs) = statuses fs"
      "plain_fields (f # fs) = (plain_name n, PyBytes v) # plain_fields fs"
      by (simp_all add: statuses_def plain_fields_def f)
    have "parse_headers (map (\<lambda>f. (PyBytes (fst f), PyBytes (snd f))) (f # fs)) sc d =
        parse_headers (map (\<lambda>f. (PyBytes (fst f), PyBytes (snd f))) fs) sc ?d"
      using False by (simp add: f plain_name_def)
    moreover have "map_of ?d ++ map_of (rev (plain_fields fs)) =
        map_of d ++ map_of (rev (plain_fields (f # fs)))"
      by (simp add: st(2) update_conv')
    moreover note Cons.IH [of sc ?d, OF Cons.prems [unfolded st(1)]]
    ultimately show ?thesis unfolding st(1) by (simp only:)
  qed
qed

end
