(* ===== verification/Stream_Reader.thy ===== *)
theory Stream_Reader
  imports Deferred_Headers
begin

text \<open>
  The stream reader of the TCP connections
  (\<open>core/engines/types/common/protocols/shared/reader.py\<close>). A reader holds its buffer and what the
  transport will still deliver, in order; only a read that waits takes the next arrival. (Bytes that
  arrive while the buffer is not empty and no read waits give the same results as bytes that arrive with
  the segment before, see \<open>take_line_append\<close> and \<open>read_append\<close>.) A read ends with a result, an exception, a wait that nothing
  ends, or a loop without \<open>await\<close> that never ends.
\<close>

section \<open>State\<close>

datatype arrival = Data bytes | Eof | Error py_error

text \<open>\<open>transport\<close>: None without a transport, else whether it can be paused.\<close>

record reader =
  rd_limit :: nat
  rd_buffer :: bytes
  rd_eof :: bool
  rd_exception :: "py_error option"
  rd_transport :: "bool option"
  rd_paused :: bool
  rd_arrivals :: "arrival list"

datatype 'a read_end = Got 'a | Raises py_error | Waits | Spins

definition DEFAULT_LIMIT :: nat where
  "DEFAULT_LIMIT = 65536"

definition Reader :: "nat \<Rightarrow> arrival list \<Rightarrow> reader res" where
  "Reader limit arrivals =
     (if limit = 0 then Inl ValueError
      else Inr \<lparr>rd_limit = limit, rd_buffer = [], rd_eof = False, rd_exception = None, rd_transport = None, rd_paused = False,
                rd_arrivals = arrivals\<rparr>)"

section \<open>The side of the transport\<close>

definition set_transport :: "bool \<Rightarrow> reader \<Rightarrow> reader" where
  "set_transport pausable r = r\<lparr>rd_transport := Some pausable\<rparr>"

definition set_exception :: "py_error \<Rightarrow> reader \<Rightarrow> reader" where
  "set_exception e r = r\<lparr>rd_exception := Some e\<rparr>"

definition feed_eof :: "reader \<Rightarrow> reader" where
  "feed_eof r = r\<lparr>rd_eof := True\<rparr>"

definition at_eof :: "reader \<Rightarrow> bool" where
  "at_eof r \<longleftrightarrow> rd_eof r \<and> rd_buffer r = []"

definition feed_data :: "bytes \<Rightarrow> reader \<Rightarrow> reader res" where
  "feed_data data r =
     (if rd_eof r then Inl AssertionError
      else if data = [] then Inr r
      else
        (let r = r\<lparr>rd_buffer := rd_buffer r @ data\<rparr>
         in Inr (if \<not> rd_paused r \<and> length (rd_buffer r) > 2 * rd_limit r
                 then (case rd_transport r of
                         None \<Rightarrow> r
                       | Some True \<Rightarrow> r\<lparr>rd_paused := True\<rparr>
                       | Some False \<Rightarrow> r\<lparr>rd_transport := None\<rparr>)
                 else r)))"

definition maybe_resume_transport :: "reader \<Rightarrow> reader" where
  "maybe_resume_transport r = (if rd_paused r \<and> length (rd_buffer r) \<le> rd_limit r then r\<lparr>rd_paused := False\<rparr> else r)"

section \<open>Waiting\<close>

text \<open>
  The future of a waiting read is resolved by the next data that is not empty, by the end of the
  stream, or gets the exception of the transport. Data after the end fails in the transport and wakes
  nobody.
\<close>

fun await_arrival :: "arrival list \<Rightarrow> reader \<Rightarrow> reader \<times> unit read_end" where
  "await_arrival [] r = (r\<lparr>rd_arrivals := []\<rparr>, Waits)"
| "await_arrival (Data d # as) r =
     (if rd_eof r \<or> d = [] then await_arrival as r
      else (case feed_data d r of Inl e \<Rightarrow> (r, Raises e) | Inr r \<Rightarrow> (r\<lparr>rd_arrivals := as\<rparr>, Got ())))"
| "await_arrival (Eof # as) r = ((feed_eof r)\<lparr>rd_arrivals := as\<rparr>, Got ())"
| "await_arrival (Error e # as) r = ((set_exception e r)\<lparr>rd_arrivals := as\<rparr>, Raises e)"

definition await_data :: "reader \<Rightarrow> reader \<times> unit read_end" where
  "await_data r = await_arrival (rd_arrivals r) (r\<lparr>rd_paused := False\<rparr>)"

definition wait_for_data :: "reader \<Rightarrow> reader \<times> unit read_end" where
  "wait_for_data r = (if rd_eof r then (r, Raises AssertionError) else await_data r)"

section \<open>Reads\<close>

text \<open>Position of a separator.\<close>

fun find_sub :: "bytes \<Rightarrow> bytes \<Rightarrow> nat option" where
  "find_sub sep [] = (if sep = [] then Some 0 else None)"
| "find_sub sep (b # bs) = (if take (length sep) (b # bs) = sep then Some 0 else map_option Suc (find_sub sep bs))"

definition cut :: "nat \<Rightarrow> reader \<Rightarrow> reader \<times> bytes" where
  "cut n r = (maybe_resume_transport (r\<lparr>rd_buffer := drop n (rd_buffer r)\<rparr>), take n (rd_buffer r))"

definition clear :: "reader \<Rightarrow> reader \<times> bytes" where
  "clear r = (r\<lparr>rd_buffer := []\<rparr>, rd_buffer r)"

text \<open>\<open>read\<close>: one wait at most; a negative \<open>n\<close> counts from the end of the buffer, as in any slice.\<close>

definition read_some :: "int \<Rightarrow> reader \<Rightarrow> reader \<times> bytes read_end" where
  "read_some n r =
     (case (if rd_buffer r = [] \<and> \<not> rd_eof r then wait_for_data r else (r, Got ())) of
        (r, Got _) \<Rightarrow> (case cut (length (py_slice (rd_buffer r) 0 n)) r of (r, data) \<Rightarrow> (r, Got data))
      | (r, Raises e) \<Rightarrow> (r, Raises e)
      | (r, Waits) \<Rightarrow> (r, Waits)
      | (r, Spins) \<Rightarrow> (r, Spins))"

text \<open>The line that \<open>readline_fast\<close> and the loop of \<open>read_headers\<close> take: all of the buffer without a separator.\<close>

definition take_line :: "bytes \<Rightarrow> reader \<Rightarrow> reader \<times> bytes" where
  "take_line sep r =
     (case find_sub sep (rd_buffer r) of
        None \<Rightarrow> clear r
      | Some i \<Rightarrow> cut (i + length sep) r)"

definition next_line :: "bytes \<Rightarrow> reader \<Rightarrow> reader \<times> bytes read_end" where
  "next_line sep r =
     (case rd_exception r of
        Some e \<Rightarrow> (r, Raises e)
      | None \<Rightarrow>
          (case (if rd_buffer r = [] then await_data r else (r, Got ())) of
             (r, Got _) \<Rightarrow> (case take_line sep r of (r, chunk) \<Rightarrow> (r, Got chunk))
           | (r, Raises e) \<Rightarrow> (r, Raises e)
           | (r, Waits) \<Rightarrow> (r, Waits)
           | (r, Spins) \<Rightarrow> (r, Spins)))"

definition readline_fast :: "reader \<Rightarrow> reader \<times> bytes read_end" where
  "readline_fast r = next_line [10] r"

text \<open>
  \<open>readuntil\<close>. One pass over a buffer that is not empty, or one before and one after the wait: a buffer
  that is not empty is searched again without waiting, so the loop never ends.
\<close>

definition search_buffer :: "bytes \<Rightarrow> reader \<Rightarrow> (reader \<times> bytes read_end) option" where
  "search_buffer sep r =
     (if length sep \<le> length (rd_buffer r)
      then (case find_sub sep (rd_buffer r) of
              Some i \<Rightarrow>
                Some (if i > rd_limit r then (r, Raises (GenericException ''LimitOverrunError''))
                      else (case cut (i + length sep) r of (r, chunk) \<Rightarrow> (r, Got chunk)))
            | None \<Rightarrow>
                if length (rd_buffer r) + 1 - length sep > rd_limit r
                then Some (r, Raises (GenericException ''LimitOverrunError'')) else None)
      else None)"

definition connection_closed :: py_error where
  "connection_closed = GenericException ''Connection closed.''"

definition readuntil :: "bytes \<Rightarrow> reader \<Rightarrow> reader \<times> bytes read_end" where
  "readuntil sep r =
     (case rd_exception r of
        Some e \<Rightarrow> (r, Raises e)
      | None \<Rightarrow>
          (case search_buffer sep r of
             Some x \<Rightarrow> x
           | None \<Rightarrow>
               if rd_eof r then (fst (clear r), Raises connection_closed)
               else if rd_buffer r \<noteq> [] then (r, Spins)
               else (case wait_for_data r of
                       (r, Got _) \<Rightarrow>
                         (case search_buffer sep r of
                            Some x \<Rightarrow> x
                          | None \<Rightarrow>
                              if rd_eof r then (fst (clear r), Raises connection_closed) else (r, Spins))
                     | (r, Raises e) \<Rightarrow> (r, Raises e)
                     | (r, Waits) \<Rightarrow> (r, Waits)
                     | (r, Spins) \<Rightarrow> (r, Spins))))"

section \<open>Segments\<close>

lemma find_sub_bound: "find_sub sep bs = Some i \<Longrightarrow> i + length sep \<le> length bs \<and> take (length sep) (drop i bs) = sep"
proof (induction bs arbitrary: i)
  case (Cons b bs)
  show ?case
  proof (cases "take (length sep) (b # bs) = sep")
    case True
    then have "length sep \<le> length (b # bs)" by (metis length_take min.cobounded1)
    then show ?thesis using True Cons.prems by auto
  next
    case False
    then show ?thesis using Cons by auto
  qed
qed (auto split: if_splits)

lemma find_sub_append: "find_sub sep bs = Some i \<Longrightarrow> find_sub sep (bs @ cs) = Some i"
proof (induction bs arbitrary: i)
  case Nil
  then show ?case by (cases cs) (auto split: if_splits)
next
  case (Cons b bs)
  show ?case
  proof (cases "take (length sep) (b # bs) = sep")
    case True
    then have l: "length sep \<le> length (b # bs)" by (metis length_take min.cobounded1)
    have "take (length sep) ((b # bs) @ cs) = take (length sep) (b # bs)" using l by (simp only: take_append) simp
    then show ?thesis using True Cons.prems by simp
  next
    case False
    then obtain j where j: "find_sub sep bs = Some j" "i = Suc j" using Cons.prems by auto
    have "take (length sep) ((b # bs) @ cs) \<noteq> sep"
    proof
      assume t: "take (length sep) ((b # bs) @ cs) = sep"
      have "length sep \<le> length (b # bs)" using find_sub_bound [OF j(1)] by simp
      then have "take (length sep) ((b # bs) @ cs) = take (length sep) (b # bs)" by (simp only: take_append) simp
      then show False using t False by simp
    qed
    then show ?thesis using Cons.IH [OF j(1)] j(2) by simp
  qed
qed

text \<open>A line or a block that the buffer holds is not changed by what arrives behind it.\<close>

lemma take_line_append:
  assumes "find_sub sep (rd_buffer r) = Some i"
  shows "snd (take_line sep (r\<lparr>rd_buffer := rd_buffer r @ cs\<rparr>)) = snd (take_line sep r) \<and>
    rd_buffer (fst (take_line sep (r\<lparr>rd_buffer := rd_buffer r @ cs\<rparr>))) = rd_buffer (fst (take_line sep r)) @ cs"
  using assms find_sub_bound [OF assms] find_sub_append [OF assms, of cs]
  by (simp add: take_line_def cut_def maybe_resume_transport_def)

lemma read_append:
  assumes "rd_buffer r \<noteq> []" "0 \<le> n" "nat n \<le> length (rd_buffer r)"
  shows "snd (read_some n (r\<lparr>rd_buffer := rd_buffer r @ cs\<rparr>)) = snd (read_some n r) \<and>
    rd_buffer (fst (read_some n (r\<lparr>rd_buffer := rd_buffer r @ cs\<rparr>))) = rd_buffer (fst (read_some n r)) @ cs"
  using assms by (simp add: read_some_def cut_def maybe_resume_transport_def py_slice_def clamp_bound_def)

section \<open>Reads neither lose nor repeat bytes\<close>

text \<open>All that a reader will still give: its buffer and the data that arrives before the end.\<close>

fun pending :: "bool \<Rightarrow> arrival list \<Rightarrow> bytes" where
  "pending ended [] = []"
| "pending ended (Data d # as) = (if ended then [] else d) @ pending ended as"
| "pending ended (Eof # as) = pending True as"
| "pending ended (Error e # as) = pending ended as"

definition unread :: "reader \<Rightarrow> bytes" where
  "unread r = rd_buffer r @ pending (rd_eof r) (rd_arrivals r)"

datatype read_op = Read int | ReadLine | ReadUntil bytes

fun perform :: "read_op \<Rightarrow> reader \<Rightarrow> reader \<times> bytes read_end" where
  "perform (Read n) r = read_some n r"
| "perform ReadLine r = readline_fast r"
| "perform (ReadUntil sep) r = readuntil sep r"

text \<open>A sequence of reads, up to the first that does not return.\<close>

fun perform_all :: "('o \<Rightarrow> 's \<Rightarrow> 's \<times> bytes read_end) \<Rightarrow> 'o list \<Rightarrow> 's \<Rightarrow> bytes list \<times> 's" where
  "perform_all op [] s = ([], s)"
| "perform_all op (x # xs) s =
     (case op x s of
        (s, Got d) \<Rightarrow> (case perform_all op xs s of (ds, s) \<Rightarrow> (d # ds, s))
      | _ \<Rightarrow> ([], s))"

locale consuming_reads =
  fixes op :: "'o \<Rightarrow> 's \<Rightarrow> 's \<times> bytes read_end" and content :: "'s \<Rightarrow> bytes"
  assumes consumes: "op x s = (s', Got d) \<Longrightarrow> content s = d @ content s'"
begin

lemma all_consume: "perform_all op xs s = (ds, s') \<Longrightarrow> content s = concat ds @ content s'"
proof (induction xs arbitrary: s ds s')
  case (Cons x xs)
  obtain s1 r where r: "op x s = (s1, r)" by (cases "op x s")
  show ?case
  proof (cases r)
    case (Got d)
    obtain ds1 s2 where "perform_all op xs s1 = (ds1, s2)" by (cases "perform_all op xs s1")
    then show ?thesis using Cons.IH [of s1 ds1 s2] Cons.prems consumes [of x s s1 d] r Got by auto
  qed (use Cons.prems r in auto)
qed simp

text \<open>Two runs of reads that return everything give the same bytes, however the reads cut them.\<close>

lemma same_content:
  assumes "perform_all op xs s = (ds, s1)" "perform_all op ys s = (es, s2)" "content s1 = []" "content s2 = []"
  shows "concat ds = concat es"
  using all_consume [OF assms(1)] all_consume [OF assms(2)] assms(3,4) by simp

end

lemma unread_simps [simp]:
  "unread (maybe_resume_transport r) = unread r" "unread (r\<lparr>rd_paused := p\<rparr>) = unread r"
  by (simp_all add: unread_def maybe_resume_transport_def)

lemma cut_stream: "cut n r = (r', d) \<Longrightarrow> unread r = d @ unread r'"
proof -
  assume "cut n r = (r', d)"
  then have "unread r' = unread (r\<lparr>rd_buffer := drop n (rd_buffer r)\<rparr>)" "d = take n (rd_buffer r)"
    by (auto simp: cut_def)
  then show ?thesis by (simp add: unread_def)
qed

lemma clear_stream: "clear r = (r', d) \<Longrightarrow> rd_exception r' = rd_exception r \<and> unread r = d @ unread r'"
  by (auto simp: clear_def unread_def)

lemma take_line_stream: "take_line sep r = (r', d) \<Longrightarrow> unread r = d @ unread r'"
  by (auto simp: take_line_def cut_stream clear_stream split: option.splits)

lemma feed_data_fields:
  assumes "feed_data d r = Inr r'"
  shows "rd_buffer r' = rd_buffer r @ d \<and> rd_eof r' = rd_eof r \<and> rd_arrivals r' = rd_arrivals r \<and> rd_exception r' = rd_exception r \<and>
    rd_limit r' = rd_limit r"
  using assms by (auto simp: feed_data_def Let_def split: if_splits option.splits bool.splits)

lemma feed_data_ok: "\<not> rd_eof r \<Longrightarrow> \<exists>r'. feed_data d r = Inr r'"
  by (simp add: feed_data_def Let_def)

lemma await_arrival_stream:
  "await_arrival as r = (r', Got u) \<Longrightarrow> unread (r\<lparr>rd_arrivals := as\<rparr>) = unread r'"
proof (induction as r rule: await_arrival.induct)
  case (2 d as r)
  show ?case
  proof (cases "rd_eof r \<or> d = []")
    case True
    then show ?thesis using 2 by (auto simp: unread_def)
  next
    case False
    then obtain r2 where "feed_data d r = Inr r2" using feed_data_ok by blast
    then show ?thesis using 2(2) False feed_data_fields [of d r r2] by (auto simp: unread_def)
  qed
qed (auto simp: unread_def feed_eof_def set_exception_def)

lemma await_data_stream: "await_data r = (r', Got u) \<Longrightarrow> unread r = unread r'"
  using await_arrival_stream [of "rd_arrivals r" "r\<lparr>rd_paused := False\<rparr>" r' u]
  by (simp add: await_data_def unread_def)

lemma wait_for_data_stream: "wait_for_data r = (r', Got u) \<Longrightarrow> unread r = unread r'"
  by (auto simp: wait_for_data_def await_data_stream split: if_splits)

lemma read_stream: "read_some n r = (r', Got d) \<Longrightarrow> unread r = d @ unread r'"
  by (auto simp: read_some_def wait_for_data_stream cut_stream split: prod.splits read_end.splits if_splits)

lemma next_line_stream: "next_line sep r = (r', Got d) \<Longrightarrow> unread r = d @ unread r'"
  by (auto simp: next_line_def await_data_stream take_line_stream split: prod.splits read_end.splits if_splits option.splits)

lemma search_buffer_stream: "search_buffer sep r = Some (r', Got d) \<Longrightarrow> unread r = d @ unread r'"
  by (auto simp: search_buffer_def cut_stream split: if_splits option.splits prod.splits)

lemma readuntil_stream: "readuntil sep r = (r', Got d) \<Longrightarrow> unread r = d @ unread r'"
proof -
  assume a: "readuntil sep r = (r', Got d)"
  show "unread r = d @ unread r'"
  proof (cases "search_buffer sep r")
    case None
    then obtain r1 where w: "wait_for_data r = (r1, Got ())"
      using a by (auto simp: readuntil_def split: if_splits option.splits prod.splits read_end.splits)
    then have "search_buffer sep r1 = Some (r', Got d)"
      using a None by (auto simp: readuntil_def split: if_splits option.splits)
    then show ?thesis using wait_for_data_stream [OF w] search_buffer_stream by simp
  next
    case (Some x)
    then show ?thesis using a search_buffer_stream [of sep r r' d] by (auto simp: readuntil_def split: option.splits)
  qed
qed

interpretation reads: consuming_reads perform unread
proof
  fix x s s' d
  assume "perform x s = (s', Got d)"
  then show "unread s = d @ unread s'"
    by (cases x) (simp_all add: read_stream next_line_stream readline_fast_def readuntil_stream)
qed

text \<open>C15: whatever sequence of reads a client makes, and however the bytes arrive in segments, what the reads
  return is exactly the beginning of the stream: no byte is lost, repeated or reordered.\<close>

theorem reads_conserve_stream:
  assumes "Reader limit arrivals = Inr r" "perform_all perform ops r = (results, r')"
  shows "pending False arrivals = concat results @ unread r'"
proof -
  have "unread r = pending False arrivals" using assms(1) by (auto simp: Reader_def unread_def split: if_splits)
  then show ?thesis using reads.all_consume [OF assms(2)] by simp
qed

theorem reads_conserve_stream_witness:
  "\<exists>r results r'. Reader 10 [Data [1, 10, 2], Data [3]] = Inr r \<and> perform_all perform [ReadLine, Read 5, Read 1] r = (results, r') \<and>
     results = [[1, 10], [2], [3]] \<and> pending False [Data [1, 10, 2], Data [3]] = concat results @ unread r'"
proof -
  obtain r where r: "Reader 10 [Data [1, 10, 2], Data [3]] = Inr r" by (simp add: Reader_def)
  obtain results r' where x: "perform_all perform [ReadLine, Read 5, Read 1] r = (results, r')"
    by (cases "perform_all perform [ReadLine, Read 5, Read 1] r")
  moreover have "results = [[1, 10], [2], [3]]"
    using x r by (auto simp: Reader_def readline_fast_def next_line_def await_data_def feed_data_def take_line_def cut_def clear_def
        maybe_resume_transport_def read_some_def wait_for_data_def py_slice_def clamp_bound_def)
  ultimately show ?thesis using r reads_conserve_stream [OF r x] by blast
qed

text \<open>A buffer that holds the beginning of a line makes readuntil search it for ever without giving up
  the event loop: whatever the peer sends, the read neither returns nor raises.\<close>

theorem readuntil_spins:
  assumes "rd_exception r = None" "\<not> rd_eof r" "rd_buffer r \<noteq> []" "sep \<noteq> []" "find_sub sep (rd_buffer r) = None"
    "length (rd_buffer r) \<le> rd_limit r"
  shows "readuntil sep r = (r, Spins)"
proof -
  have "length (rd_buffer r) + 1 - length sep \<le> rd_limit r" using assms(4,6) by (cases sep) simp_all
  then have "search_buffer sep r = None" using assms(5) by (auto simp: search_buffer_def)
  then show ?thesis using assms(1-3) by (simp add: readuntil_def)
qed

theorem readuntil_spins_witness:
  "\<exists>r r'. Reader 65536 [Data (b_lit ''1f''), Data [13, 10]] = Inr r \<and> readuntil [10] r = (r', Spins)"
proof -
  let ?r = "\<lparr>rd_limit = 65536, rd_buffer = b_lit ''1f'', rd_eof = False, rd_exception = None, rd_transport = None,
    rd_paused = False, rd_arrivals = [Data [13, 10]]\<rparr>"
  obtain r where r: "Reader 65536 [Data (b_lit ''1f''), Data [13, 10]] = Inr r" by (simp add: Reader_def)
  have "readuntil [10] ?r = (?r, Spins)" by (rule readuntil_spins) (simp_all add: b_lit_def)
  moreover have "readuntil [10] r = readuntil [10] ?r"
    using r by (auto simp: Reader_def readuntil_def search_buffer_def wait_for_data_def await_data_def feed_data_def b_lit_def)
  ultimately show ?thesis using r by auto
qed

end
