(* ===== verification/Http1_Response.thy ===== *)
theory Http1_Response
  imports Stream_Reader
begin

text \<open>
  How the HTTP/1 engine reads a response: the headers (\<open>Reader.read_headers\<close>, \<open>iter_headers\<close>), the status
  (\<open>http/result.py\<close>), redirects and the body (\<open>execute_prepared_request\<close> of \<open>http/client.py\<close>, over
  \<open>http/connection.py\<close>). Hooks, tracing and the opening of connections are left out; connecting to
  another host is an argument.
\<close>

section \<open>Headers\<close>

definition lower :: "bytes \<Rightarrow> bytes" where
  "lower bs = map (\<lambda>b. if 65 \<le> b \<and> b \<le> 90 then b + 32 else b) bs"

abbreviation strip :: "bytes \<Rightarrow> bytes" where
  "strip \<equiv> strip_by is_space"

text \<open>\<open>chunk.strip().split(b':', 1)\<close> of a chunk with a colon.\<close>

definition split_colon :: "bytes \<Rightarrow> bytes \<times> bytes" where
  "split_colon chunk =
     (let s = strip chunk in (takeWhile (\<lambda>b. b \<noteq> 58) s, tl (dropWhile (\<lambda>b. b \<noteq> 58) s)))"

text \<open>The lines up to the first without a colon, which is dropped.\<close>

function header_lines :: "reader \<Rightarrow> bytes list \<Rightarrow> reader \<times> bytes list read_end" where
  "header_lines r lines =
     (case next_line [10] r of
        (r', Got chunk) \<Rightarrow> if 58 \<in> set chunk then header_lines r' (lines @ [chunk]) else (r', Got lines)
      | (r', Raises e) \<Rightarrow> (r', Raises e)
      | (r', Waits) \<Rightarrow> (r', Waits)
      | (r', Spins) \<Rightarrow> (r', Spins))"
  by pat_completeness auto
termination
proof (relation "measure (\<lambda>(r, lines). length (unread r))", simp)
  fix r lines r' e chunk
  assume "(r', e) = next_line [10] r" "e = Got chunk" "58 \<in> set chunk"
  then have "unread r = chunk @ unread r'" "chunk \<noteq> []" using next_line_stream [of "[10]" r r' chunk] by auto
  then show "((r', lines @ [chunk]), r, lines) \<in> measure (\<lambda>(r, lines). length (unread r))" by simp
qed

declare header_lines.simps [simp del]

fun read_header_block :: "reader \<Rightarrow> reader \<times> (bytes \<times> bytes) list read_end" where
  "read_header_block r =
     (case header_lines r [] of
        (r, Got lines) \<Rightarrow>
          (r, Got (foldl (\<lambda>d chunk. case split_colon chunk of (k, v) \<Rightarrow> AList.update (lower k) (strip v) d) [] lines))
      | (r, Raises e) \<Rightarrow> (r, Raises e)
      | (r, Waits) \<Rightarrow> (r, Waits)
      | (r, Spins) \<Rightarrow> (r, Spins))"

definition iter_headers :: "reader \<Rightarrow> reader \<times> (bytes \<times> bytes \<times> bytes) list read_end" where
  "iter_headers r =
     (case header_lines r [] of
        (r, Got lines) \<Rightarrow> (r, Got (map (\<lambda>chunk. case split_colon chunk of (k, v) \<Rightarrow> (lower k, v, chunk)) lines))
      | (r, Raises e) \<Rightarrow> (r, Raises e)
      | (r, Waits) \<Rightarrow> (r, Waits)
      | (r, Spins) \<Rightarrow> (r, Spins))"

section \<open>The result\<close>

text \<open>\<open>bytes.split()\<close>.\<close>

function split_ws :: "bytes \<Rightarrow> bytes list" where
  "split_ws bs =
     (let s = dropWhile is_space bs
      in if s = [] then [] else takeWhile (\<lambda>b. \<not> is_space b) s # split_ws (dropWhile (\<lambda>b. \<not> is_space b) s))"
  by pat_completeness auto
termination
proof (relation "measure length")
  fix bs s
  assume s: "s = dropWhile is_space bs" "s \<noteq> []"
  then have "\<not> is_space (hd s)" using hd_dropWhile by blast
  then have "length (dropWhile (\<lambda>b. \<not> is_space b) s) < length s"
    using s(2) by (cases s) (simp_all add: length_dropWhile_le less_Suc_eq_le)
  also have "\<dots> \<le> length bs" using s(1) by (simp add: length_dropWhile_le)
  finally show "(dropWhile (\<lambda>b. \<not> is_space b) s, bs) \<in> measure length" by simp
qed simp

declare split_ws.simps [simp del]

record http_result =
  response_code :: "bytes option"
  kept_status :: "int option"
  response_headers :: "(bytes \<times> bytes) list"
  response_body :: bytes
  response_error :: "py_error option"

definition HTTPResult :: http_result where
  "HTTPResult = \<lparr>response_code = None, kept_status = None, response_headers = [], response_body = [], response_error = None\<rparr>"

text \<open>\<open>status\<close>: parsed once, then kept; every exception of the parse is swallowed.\<close>

definition parse_status :: "bytes \<Rightarrow> int option" where
  "parse_status code =
     (case split_ws code of
        _ # s # _ \<Rightarrow> (case py_int s of Inl _ \<Rightarrow> None | Inr n \<Rightarrow> Some n)
      | _ \<Rightarrow> None)"

definition read_status :: "http_result \<Rightarrow> http_result" where
  "read_status v =
     (case kept_status v of
        Some _ \<Rightarrow> v
      | None \<Rightarrow> (case response_code v of None \<Rightarrow> v | Some code \<Rightarrow> v\<lparr>kept_status := parse_status code\<rparr>))"

text \<open>\<open>size\<close>: what the header says, else the length of the body.\<close>

definition truthy :: "bytes option \<Rightarrow> bool" where
  "truthy x \<longleftrightarrow> x \<noteq> None \<and> x \<noteq> Some []"

definition response_size :: "http_result \<Rightarrow> int res" where
  "response_size v =
     (if truthy (map_of (response_headers v) (b_lit ''content-length''))
      then py_int (the (map_of (response_headers v) (b_lit ''content-length'')))
      else Inr (int (length (response_body v))))"

section \<open>The body\<close>

text \<open>\<open>int(x, 16)\<close>: an optional sign, an optional prefix \<open>0x\<close>, digits with single underscores between them.\<close>

definition hex_digit :: "byte \<Rightarrow> int option" where
  "hex_digit b =
     (if 48 \<le> b \<and> b \<le> 57 then Some (uint b - 48)
      else if 97 \<le> b \<and> b \<le> 102 then Some (uint b - 87)
      else if 65 \<le> b \<and> b \<le> 70 then Some (uint b - 55) else None)"

fun int_hex_digits :: "bool \<Rightarrow> int \<Rightarrow> bytes \<Rightarrow> int option" where
  "int_hex_digits after_digit acc [] = (if after_digit then Some acc else None)"
| "int_hex_digits after_digit acc (b # bs) =
     (case hex_digit b of
        Some d \<Rightarrow> int_hex_digits True (acc * 16 + d) bs
      | None \<Rightarrow> if b = 95 \<and> after_digit then int_hex_digits False acc bs else None)"

definition hex_number :: "bytes \<Rightarrow> int option" where
  "hex_number s =
     (case s of
        z # x # rest \<Rightarrow>
          if z = 48 \<and> (x = 120 \<or> x = 88)
          then int_hex_digits False 0 (case rest of u # rest' \<Rightarrow> if u = 95 then rest' else rest | [] \<Rightarrow> [])
          else int_hex_digits False 0 s
      | _ \<Rightarrow> int_hex_digits False 0 s)"

definition py_int_hex :: "bytes \<Rightarrow> int res" where
  "py_int_hex bs =
     (let s = strip bs;
          n = (case s of
                 [] \<Rightarrow> None
               | b # rest \<Rightarrow>
                   if b = 45 then map_option uminus (hex_number rest)
                   else if b = 43 then hex_number rest else hex_number s)
      in case n of None \<Rightarrow> Inl ValueError | Some n \<Rightarrow> Inr n)"

text \<open>\<open>asyncio.wait_for\<close> ends a wait with an exception; it cannot end a loop that does not wait.\<close>

definition TimeoutError :: py_error where
  "TimeoutError = GenericException ''TimeoutError''"

definition wait_for :: "reader \<times> 'a read_end \<Rightarrow> reader \<times> 'a read_end" where
  "wait_for x = (case x of (r, Waits) \<Rightarrow> (r, Raises TimeoutError) | _ \<Rightarrow> x)"

lemma readuntil_nonempty:
  assumes "readuntil sep r = (r', Got d)" "sep \<noteq> []"
  shows "d \<noteq> []"
proof -
  have n: "d \<noteq> []" if s: "search_buffer sep x = Some (y, Got d)" for x y
  proof -
    obtain i where i: "find_sub sep (rd_buffer x) = Some i" "d = take (i + length sep) (rd_buffer x)"
      using s by (auto simp: search_buffer_def cut_def split: if_splits option.splits)
    then show ?thesis using find_sub_bound [OF i(1)] assms(2) by (cases sep) auto
  qed
  show ?thesis
  proof (cases "search_buffer sep r")
    case None
    then obtain r1 where "wait_for_data r = (r1, Got ())" "search_buffer sep r1 = Some (r', Got d)"
      using assms(1) by (auto simp: readuntil_def split: if_splits option.splits prod.splits read_end.splits)
    then show ?thesis using n by blast
  next
    case (Some x)
    then show ?thesis using assms(1) n by (auto simp: readuntil_def split: option.splits)
  qed
qed

text \<open>The loop over the chunks; the size is read without a time limit.\<close>

function read_chunks :: "reader \<Rightarrow> bytes \<Rightarrow> reader \<times> bytes read_end" where
  "read_chunks r body =
     (case readuntil [10] r of
        (r1, Got line) \<Rightarrow>
          (case py_int_hex line of
             Inl e \<Rightarrow> (r1, Raises e)
           | Inr n \<Rightarrow>
               if n = 0
               then (case wait_for (readuntil [10] r1) of
                       (r2, Got end_line) \<Rightarrow> (r2, Got (body @ end_line))
                     | (r2, Raises e) \<Rightarrow> (r2, Raises e)
                     | (r2, Waits) \<Rightarrow> (r2, Waits)
                     | (r2, Spins) \<Rightarrow> (r2, Spins))
               else (case wait_for (read_some (n + 2) r1) of
                       (r2, Got chunk) \<Rightarrow> read_chunks r2 (body @ py_slice chunk 0 (- 2))
                     | (r2, Raises e) \<Rightarrow> (r2, Raises e)
                     | (r2, Waits) \<Rightarrow> (r2, Waits)
                     | (r2, Spins) \<Rightarrow> (r2, Spins)))
      | (r1, Raises e) \<Rightarrow> (r1, Raises e)
      | (r1, Waits) \<Rightarrow> (r1, Waits)
      | (r1, Spins) \<Rightarrow> (r1, Spins))"
  by pat_completeness auto
termination
proof (relation "measure (\<lambda>(r, body). length (unread r))", simp)
  fix r body r1 e line n r2 z chunk
  assume "(r1, e) = readuntil [10] r" "e = Got line" "(r2, z) = wait_for (read_some (n + 2) r1)" "z = Got chunk"
  then have a: "readuntil [10] r = (r1, Got line)" and b: "read_some (n + 2) r1 = (r2, Got chunk)"
    by (auto simp: wait_for_def split: prod.splits read_end.splits)
  have "length (unread r1) < length (unread r)" using readuntil_stream [OF a] readuntil_nonempty [OF a] by simp
  moreover have "length (unread r2) \<le> length (unread r1)" using read_stream [OF b] by simp
  ultimately show "((r2, body @ py_slice chunk 0 (- 2)), r, body) \<in> measure (\<lambda>(r, body). length (unread r))" by simp
qed

declare read_chunks.simps [simp del]

definition read_body :: "(bytes \<times> bytes) list \<Rightarrow> reader \<Rightarrow> reader \<times> bytes read_end" where
  "read_body headers r =
     (let content_length = map_of headers (b_lit ''content-length'')
      in if truthy content_length
         then (case py_int (the content_length) of
                 Inl e \<Rightarrow> (r, Raises e)
               | Inr n \<Rightarrow> wait_for (read_some n r))
         else if truthy (map_of headers (b_lit ''transfer-encoding'')) then read_chunks r []
         else (r, Got []))"

section \<open>Redirects\<close>

text \<open>
  \<open>str\<close> of a \<open>bytes\<close> object or of None: a literal with prefix and quotes, as \<open>repr\<close> writes it.
\<close>

definition hex_char :: "nat \<Rightarrow> char" where
  "hex_char n = ''0123456789abcdef'' ! n"

definition repr_byte :: "char \<Rightarrow> byte \<Rightarrow> string" where
  "repr_byte quote b =
     (if b = 92 then [CHR 0x5C, CHR 0x5C]
      else if char_of (unat b) = quote then [CHR 0x5C, quote]
      else if b = 9 then [CHR 0x5C, CHR ''t''] else if b = 10 then [CHR 0x5C, CHR ''n''] else if b = 13 then [CHR 0x5C, CHR ''r'']
      else if b < 32 \<or> 127 \<le> b then [CHR 0x5C, CHR ''x'', hex_char (unat b div 16), hex_char (unat b mod 16)]
      else [char_of (unat b)])"

definition str_of_bytes :: "bytes option \<Rightarrow> string" where
  "str_of_bytes x =
     (case x of
        None \<Rightarrow> ''None''
      | Some bs \<Rightarrow>
          (let quote = (if 39 \<in> set bs \<and> 34 \<notin> set bs then CHR 0x22 else CHR 0x27)
           in CHR ''b'' # quote # concat (map (repr_byte quote) bs) @ [quote]))"

definition starts_with :: "string \<Rightarrow> string \<Rightarrow> bool" where
  "starts_with prefix s \<longleftrightarrow> take (length prefix) s = prefix"

text \<open>The head of a response, read into the result.\<close>

definition read_head :: "http_result \<Rightarrow> reader \<Rightarrow> reader \<times> (http_result \<times> (bytes \<times> bytes) list) read_end" where
  "read_head v r =
     (case wait_for (readline_fast r) of
        (r, Got line) \<Rightarrow>
          (case wait_for (read_header_block r) of
             (r, Got headers) \<Rightarrow> (r, Got (read_status (v\<lparr>response_code := Some line\<rparr>), headers))
           | (r, Raises e) \<Rightarrow> (r, Raises e)
           | (r, Waits) \<Rightarrow> (r, Waits)
           | (r, Spins) \<Rightarrow> (r, Spins))
      | (r, Raises e) \<Rightarrow> (r, Raises e)
      | (r, Waits) \<Rightarrow> (r, Waits)
      | (r, Spins) \<Rightarrow> (r, Spins))"

text \<open>
  The loop over the redirects: \<open>connect\<close> opens the connection to another host, \<open>late k\<close> says whether the
  time for redirects is over before the \<open>k\<close>-th, \<open>sent\<close> collects the paths that are requested. Comparing
  the status None raises.
\<close>

fun redirect_loop :: "(string \<Rightarrow> py_error + reader) \<Rightarrow> (nat \<Rightarrow> bool) \<Rightarrow> nat \<Rightarrow> http_result \<Rightarrow> (bytes \<times> bytes) list \<Rightarrow>
    string list \<Rightarrow> reader \<Rightarrow> reader \<times> (http_result \<times> (bytes \<times> bytes) list \<times> string list) read_end" where
  "redirect_loop connect late 0 v headers sent r = (r, Got (v, headers, sent))"
| "redirect_loop connect late (Suc k) v headers sent r =
     (if late k then (r, Raises (GenericException ''Request timed out while redirecting.''))
      else
        (let url = str_of_bytes (map_of headers (b_lit ''location''))
         in case (if starts_with ''http'' url then connect url else Inr r) of
              Inl e \<Rightarrow> (r, Raises e)
            | Inr r \<Rightarrow>
                (case read_head v r of
                   (r, Got (v, headers)) \<Rightarrow>
                     (case kept_status v of
                        None \<Rightarrow> (r, Raises TypeError)
                      | Some status \<Rightarrow>
                          if 200 \<le> status \<and> status < 300 then (r, Got (v, headers, sent @ [url]))
                          else redirect_loop connect late k v headers (sent @ [url]) r)
                 | (r, Raises e) \<Rightarrow> (r, Raises e)
                 | (r, Waits) \<Rightarrow> (r, Waits)
                 | (r, Spins) \<Rightarrow> (r, Spins))))"

section \<open>A whole exchange\<close>

definition receive :: "(string \<Rightarrow> py_error + reader) \<Rightarrow> (nat \<Rightarrow> bool) \<Rightarrow> nat \<Rightarrow> reader \<Rightarrow>
    reader \<times> (http_result \<times> string list) read_end" where
  "receive connect late redirects r =
     (case read_head HTTPResult r of
        (r, Got (v, headers)) \<Rightarrow>
          (case kept_status v of
             None \<Rightarrow> (r, Raises TypeError)
           | Some status \<Rightarrow>
               (case (if 300 \<le> status \<and> status < 400 then redirect_loop connect late redirects v headers [] r
                      else (r, Got (v, headers, []))) of
                  (r, Got (v, headers, sent)) \<Rightarrow>
                    (case read_body headers r of
                       (r, Got body) \<Rightarrow> (r, Got (v\<lparr>response_headers := headers, response_body := body\<rparr>, sent))
                     | (r, Raises e) \<Rightarrow> (r, Raises e)
                     | (r, Waits) \<Rightarrow> (r, Waits)
                     | (r, Spins) \<Rightarrow> (r, Spins))
                | (r, Raises e) \<Rightarrow> (r, Raises e)
                | (r, Waits) \<Rightarrow> (r, Waits)
                | (r, Spins) \<Rightarrow> (r, Spins)))
      | (r, Raises e) \<Rightarrow> (r, Raises e)
      | (r, Waits) \<Rightarrow> (r, Waits)
      | (r, Spins) \<Rightarrow> (r, Spins))"

section \<open>Redirects are never resolved\<close>

lemma never_http: "\<not> starts_with ''http'' (str_of_bytes x)"
  by (simp add: starts_with_def str_of_bytes_def Let_def split: option.split)

lemma read_head_status:
  assumes "read_head v r = (r', Got (v', headers))" "kept_status v = Some s"
  shows "kept_status v' = Some s"
  using assms by (auto simp: read_head_def read_status_def split: prod.splits read_end.splits)

text \<open>After a redirect the status of the result never changes: whatever the redirected requests are answered,
  the loop uses up all redirects, never connects to another host, and reports the status of the first
  response.\<close>

theorem redirect_status_stuck:
  assumes "kept_status v = Some s" "300 \<le> s" "redirect_loop connect late k v headers sent r = (r', Got (v', headers', sent'))"
  shows "kept_status v' = Some s \<and> length sent' = length sent + k \<and> (\<forall>url \<in> set sent'. url \<in> set sent \<or> \<not> starts_with ''http'' url)"
  using assms
proof (induction k arbitrary: v headers sent r)
  case (Suc k)
  let ?url = "str_of_bytes (map_of headers (b_lit ''location''))"
  obtain r1 v1 headers1 where h: "read_head v r = (r1, Got (v1, headers1))" "\<not> late k"
    using Suc.prems(3) never_http [of "map_of headers (b_lit ''location'')"]
    by (auto simp: Let_def split: if_splits prod.splits read_end.splits)
  have s1: "kept_status v1 = Some s" using read_head_status [OF h(1) Suc.prems(1)] .
  then have "redirect_loop connect late k v1 headers1 (sent @ [?url]) r1 = (r', Got (v', headers', sent'))"
    using Suc.prems(2,3) h never_http [of "map_of headers (b_lit ''location'')"] by (simp add: Let_def)
  from Suc.IH [OF s1 Suc.prems(2) this] show ?case
    using never_http [of "map_of headers (b_lit ''location'')"] by auto
qed simp

section \<open>A response in one piece\<close>

text \<open>A line at the beginning of the buffer.\<close>

lemma find_newline: "10 \<notin> set line \<Longrightarrow> find_sub [10] (line @ 10 # rest) = Some (length line)"
  by (induction line) auto

lemma buffered_line:
  assumes "rd_exception r = None" "rd_buffer r = line @ 10 # rest" "10 \<notin> set line"
  obtains r' where "next_line [10] r = (r', Got (line @ [10]))" "rd_buffer r' = rest" "rd_exception r' = None"
    "rd_eof r' = rd_eof r" "rd_arrivals r' = rd_arrivals r" "rd_limit r' = rd_limit r"
proof -
  have "line @ 10 # rest \<noteq> []" by simp
  then show ?thesis
    using that [of "maybe_resume_transport (r\<lparr>rd_buffer := rest\<rparr>)"] assms
    by (simp add: next_line_def take_line_def find_newline cut_def) (simp add: maybe_resume_transport_def)
qed

definition header_bytes :: "bytes \<times> bytes \<Rightarrow> bytes" where
  "header_bytes f = fst f @ [58, 32] @ snd f @ [13, 10]"

definition head_bytes :: "bytes \<Rightarrow> (bytes \<times> bytes) list \<Rightarrow> bytes" where
  "head_bytes line fs = line @ [13, 10] @ concat (map header_bytes fs) @ [13, 10]"

definition header_dict :: "(bytes \<times> bytes) list \<Rightarrow> (bytes \<times> bytes) list" where
  "header_dict fs = foldl (\<lambda>d f. AList.update (lower (fst f)) (snd f) d) [] fs"

definition wf_header :: "bytes \<times> bytes \<Rightarrow> bool" where
  "wf_header f \<longleftrightarrow> fst f \<noteq> [] \<and> 58 \<notin> set (fst f) \<and> 10 \<notin> set (fst f) \<and> \<not> is_space (hd (fst f)) \<and> 10 \<notin> set (snd f) \<and>
     strip (snd f) = snd f"

lemma is_space_simps [simp]: "is_space 10" "is_space 13" "is_space 32" "\<not> is_space 58"
  by (simp_all add: is_space_def)

lemma dropWhile_hd: "xs \<noteq> [] \<Longrightarrow> \<not> P (hd xs) \<Longrightarrow> dropWhile P xs = xs"
  by (cases xs) simp_all

lemma stripped_ends:
  assumes "strip v = v" "v \<noteq> []"
  shows "\<not> is_space (hd v)" "\<not> is_space (last v)"
proof -
  have r: "rev v = dropWhile is_space (rev (dropWhile is_space v))" using assms(1) by (metis rev_rev_ident strip_by_def)
  then have "\<not> is_space (hd (rev v))" using assms(2) hd_dropWhile by (metis rev_is_Nil_conv)
  then show "\<not> is_space (last v)" by (simp add: hd_rev)
  have "length (rev v) \<le> length (dropWhile is_space v)"
    by (subst r) (metis length_dropWhile_le length_rev)
  then show "\<not> is_space (hd v)"
    using assms(2) length_dropWhile_le [of is_space "tl v"] by (cases v) auto
qed

lemma split_header:
  assumes "wf_header f"
  shows "split_colon (header_bytes f) = (fst f, if snd f = [] then [] else 32 # snd f)"
proof -
  obtain k v where f: "f = (k, v)" by (cases f)
  have k: "k \<noteq> []" "58 \<notin> set k" "\<not> is_space (hd k)" "strip v = v" using assms by (simp_all add: wf_header_def f)
  let ?tail = "if v = [] then [] else 32 # v"
  have "dropWhile is_space (header_bytes f) = header_bytes f"
    by (rule dropWhile_hd) (use k in \<open>simp_all add: header_bytes_def f\<close>)
  moreover have "dropWhile is_space (rev (header_bytes f)) = rev (k @ 58 # ?tail)"
  proof (cases "v = []")
    case False
    then have "\<not> is_space (hd (rev v))" using stripped_ends [OF k(4)] by (simp add: hd_rev)
    then have "dropWhile is_space (rev v @ 32 # 58 # rev k) = rev v @ 32 # 58 # rev k"
      using False by (intro dropWhile_hd) (simp_all add: hd_append)
    then show ?thesis using False by (simp add: header_bytes_def f)
  qed (simp add: header_bytes_def f)
  ultimately have s: "strip (header_bytes f) = k @ 58 # ?tail" by (simp add: strip_by_def)
  have "takeWhile (\<lambda>b. b \<noteq> 58) (k @ 58 # ?tail) = k" "dropWhile (\<lambda>b. b \<noteq> 58) (k @ 58 # ?tail) = 58 # ?tail"
    using k(2) by (auto simp: takeWhile_append dropWhile_append)
  then show ?thesis unfolding split_colon_def s Let_def by (simp only: f fst_conv snd_conv list.sel)
qed

lemma strip_value: "strip v = v \<Longrightarrow> strip (if v = [] then [] else 32 # v) = v"
  by (cases "v = []") (simp_all add: strip_by_def)

lemma header_lines_read:
  assumes "rd_exception r = None" "rd_buffer r = concat (map header_bytes fs) @ [13, 10] @ rest" "\<forall>f \<in> set fs. wf_header f"
  shows "\<exists>r'. header_lines r lines = (r', Got (lines @ map header_bytes fs)) \<and> rd_buffer r' = rest \<and> rd_exception r' = None \<and>
    rd_eof r' = rd_eof r \<and> rd_arrivals r' = rd_arrivals r \<and> rd_limit r' = rd_limit r"
  using assms
proof (induction fs arbitrary: r lines)
  case Nil
  obtain r' where "next_line [10] r = (r', Got ([13] @ [10]))" "rd_buffer r' = rest" "rd_exception r' = None" "rd_eof r' = rd_eof r"
    "rd_arrivals r' = rd_arrivals r" "rd_limit r' = rd_limit r"
    by (rule buffered_line [of r "[13]" rest]) (use Nil in simp_all)
  then show ?case by (subst header_lines.simps) simp
next
  case (Cons f fs)
  let ?line = "fst f @ [58, 32] @ snd f @ [13]"
  have n: "10 \<notin> set ?line" using Cons.prems(3) by (auto simp: wf_header_def)
  have b: "rd_buffer r = ?line @ 10 # concat (map header_bytes fs) @ [13, 10] @ rest"
    using Cons.prems(2) by (simp add: header_bytes_def [of f])
  obtain r1 where r1: "next_line [10] r = (r1, Got (?line @ [10]))" "rd_buffer r1 = concat (map header_bytes fs) @ [13, 10] @ rest"
    "rd_exception r1 = None" "rd_eof r1 = rd_eof r" "rd_arrivals r1 = rd_arrivals r" "rd_limit r1 = rd_limit r"
    by (rule buffered_line [OF Cons.prems(1) b n])
  have l: "?line @ [10] = header_bytes f" by (simp add: header_bytes_def)
  have step: "header_lines r lines = header_lines r1 (lines @ [header_bytes f])"
    by (subst header_lines.simps) (simp only: r1(1) l, simp add: header_bytes_def)
  obtain r2 where "header_lines r1 (lines @ [header_bytes f]) = (r2, Got ((lines @ [header_bytes f]) @ map header_bytes fs))"
    "rd_buffer r2 = rest" "rd_exception r2 = None" "rd_eof r2 = rd_eof r1" "rd_arrivals r2 = rd_arrivals r1" "rd_limit r2 = rd_limit r1"
    using Cons.IH [OF r1(3,2), of "lines @ [header_bytes f]"] Cons.prems(3) by auto
  then show ?case using step r1 by simp
qed

lemma fold_headers:
  assumes "\<forall>f \<in> set fs. wf_header f"
  shows "foldl (\<lambda>d chunk. case split_colon chunk of (k, v) \<Rightarrow> AList.update (lower k) (strip v) d) d (map header_bytes fs) =
    foldl (\<lambda>d f. AList.update (lower (fst f)) (snd f) d) d fs"
  using assms
proof (induction fs arbitrary: d)
  case (Cons f fs)
  then have "wf_header f" "strip (snd f) = snd f" by (simp_all add: wf_header_def)
  then show ?case using Cons by (simp add: split_header strip_value split del: if_split)
qed simp

lemma read_head_buffered:
  assumes "rd_exception r = None" "rd_buffer r = head_bytes line fs @ rest" "10 \<notin> set line" "\<forall>f \<in> set fs. wf_header f"
  shows "\<exists>r'. read_head v r = (r', Got (read_status (v\<lparr>response_code := Some (line @ [13, 10])\<rparr>), header_dict fs)) \<and>
    rd_buffer r' = rest \<and> rd_exception r' = None \<and> rd_eof r' = rd_eof r \<and> rd_arrivals r' = rd_arrivals r \<and> rd_limit r' = rd_limit r"
proof -
  obtain r1 where r1: "next_line [10] r = (r1, Got ((line @ [13]) @ [10]))" "rd_buffer r1 = concat (map header_bytes fs) @ [13, 10] @ rest"
    "rd_exception r1 = None" "rd_eof r1 = rd_eof r" "rd_arrivals r1 = rd_arrivals r" "rd_limit r1 = rd_limit r"
    by (rule buffered_line [OF assms(1), of "line @ [13]"]) (use assms(2,3) in \<open>simp_all add: head_bytes_def\<close>)
  obtain r2 where r2: "header_lines r1 [] = (r2, Got ([] @ map header_bytes fs))" "rd_buffer r2 = rest" "rd_exception r2 = None"
    "rd_eof r2 = rd_eof r1" "rd_arrivals r2 = rd_arrivals r1" "rd_limit r2 = rd_limit r1"
    using header_lines_read [OF r1(3,2) assms(4)] by blast
  have "read_header_block r1 = (r2, Got (header_dict fs))"
    using r2(1) fold_headers [OF assms(4)] by (simp add: header_dict_def)
  then show ?thesis using r1 r2 by (simp add: read_head_def readline_fast_def wait_for_def del: read_header_block.simps)
qed

text \<open>The outcome of a response without a redirect, once its head is read.\<close>

lemma receive_buffered:
  assumes "rd_exception r = None" "rd_buffer r = head_bytes line fs @ rest" "10 \<notin> set line" "\<forall>f \<in> set fs. wf_header f"
    "parse_status (line @ [13, 10]) = Some s" "s < 300 \<or> 400 \<le> s"
  shows "\<exists>r1. rd_buffer r1 = rest \<and> rd_exception r1 = None \<and> rd_eof r1 = rd_eof r \<and> rd_arrivals r1 = rd_arrivals r \<and>
    rd_limit r1 = rd_limit r \<and>
    receive connect late n r =
      (case read_body (header_dict fs) r1 of
         (r2, Got body) \<Rightarrow>
           (r2, Got (\<lparr>response_code = Some (line @ [13, 10]), kept_status = Some s, response_headers = header_dict fs,
                      response_body = body, response_error = None\<rparr>, []))
       | (r2, Raises e) \<Rightarrow> (r2, Raises e)
       | (r2, Waits) \<Rightarrow> (r2, Waits)
       | (r2, Spins) \<Rightarrow> (r2, Spins))"
proof -
  let ?v = "\<lparr>response_code = Some (line @ [13, 10]), kept_status = Some s, response_headers = [], response_body = [], response_error = None\<rparr>"
  obtain r1 where r1: "read_head HTTPResult r = (r1, Got (read_status (HTTPResult\<lparr>response_code := Some (line @ [13, 10])\<rparr>), header_dict fs))"
    "rd_buffer r1 = rest" "rd_exception r1 = None" "rd_eof r1 = rd_eof r" "rd_arrivals r1 = rd_arrivals r" "rd_limit r1 = rd_limit r"
    using read_head_buffered [OF assms(1-4)] by blast
  have "read_status (HTTPResult\<lparr>response_code := Some (line @ [13, 10])\<rparr>) = ?v"
    using assms(5) by (simp add: read_status_def HTTPResult_def)
  then show ?thesis using r1 assms(6)
    by (intro exI [of _ r1]) (auto simp: receive_def split: prod.split read_end.split)
qed

text \<open>C10: A response that is in the buffer with its whole body, status line, well-formed headers and a Content-Length
  that is the length of the body, with a nonempty body and a status that is not a redirect, is received exactly:
  the status, the last value of every header under its lower-case name, the body, and nothing of what follows it is
  consumed.\<close>

theorem response_received:
  assumes "rd_exception r = None" "rd_buffer r = head_bytes line fs @ body @ rest" "10 \<notin> set line" "\<forall>f \<in> set fs. wf_header f"
    "parse_status (line @ [13, 10]) = Some s" "s < 300 \<or> 400 \<le> s"
    "map_of (header_dict fs) (b_lit ''content-length'') = Some n" "py_int n = Inr (int (length body))" "body \<noteq> []"
  shows "\<exists>r' v. receive connect late k r = (r', Got (v, [])) \<and> kept_status v = Some s \<and> response_headers v = header_dict fs \<and>
    response_body v = body \<and> response_size v = Inr (int (length body)) \<and> rd_buffer r' = rest \<and> rd_arrivals r' = rd_arrivals r"
proof -
  obtain r1 where r1: "rd_buffer r1 = body @ rest" "rd_arrivals r1 = rd_arrivals r" and
    recv: "receive connect late k r =
      (case read_body (header_dict fs) r1 of
         (r2, Got body) \<Rightarrow>
           (r2, Got (\<lparr>response_code = Some (line @ [13, 10]), kept_status = Some s, response_headers = header_dict fs,
                      response_body = body, response_error = None\<rparr>, []))
       | (r2, Raises e) \<Rightarrow> (r2, Raises e)
       | (r2, Waits) \<Rightarrow> (r2, Waits)
       | (r2, Spins) \<Rightarrow> (r2, Spins))"
    using receive_buffered [OF assms(1) _ assms(3-6), of "body @ rest" connect late k] assms(2) by auto
  have t: "truthy (Some n)" using assms(8) by (auto simp: truthy_def py_int_def strip_by_def Let_def)
  define r2 where "r2 = maybe_resume_transport (r1\<lparr>rd_buffer := rest\<rparr>)"
  have "read_some (int (length body)) r1 = (r2, Got body)"
    using r1(1) assms(9) by (simp add: read_some_def cut_def py_slice_def clamp_bound_def r2_def)
  then have "read_body (header_dict fs) r1 = (r2, Got body)"
    using assms(7,8) t by (simp add: read_body_def wait_for_def)
  moreover have "rd_buffer r2 = rest" "rd_arrivals r2 = rd_arrivals r"
    using r1 by (simp_all add: r2_def maybe_resume_transport_def)
  ultimately show ?thesis using recv assms(7,8) t by (simp add: response_size_def)
qed

text \<open>When only the beginning of the body has arrived with the head, the request ends with this beginning as
  its whole body and no error; the missing part is left to the next request on the connection.\<close>

theorem response_body_truncated:
  assumes "rd_exception r = None" "rd_buffer r = head_bytes line fs @ part" "10 \<notin> set line" "\<forall>f \<in> set fs. wf_header f"
    "parse_status (line @ [13, 10]) = Some s" "s < 300 \<or> 400 \<le> s"
    "map_of (header_dict fs) (b_lit ''content-length'') = Some n" "py_int n = Inr m" "int (length part) < m" "part \<noteq> []"
  shows "\<exists>r' v. receive connect late k r = (r', Got (v, [])) \<and> kept_status v = Some s \<and> response_body v = part \<and>
    response_size v = Inr m \<and> response_error v = None \<and> rd_buffer r' = [] \<and> rd_arrivals r' = rd_arrivals r"
proof -
  obtain r1 where r1: "rd_buffer r1 = part" "rd_arrivals r1 = rd_arrivals r" and
    recv: "receive connect late k r =
      (case read_body (header_dict fs) r1 of
         (r2, Got body) \<Rightarrow>
           (r2, Got (\<lparr>response_code = Some (line @ [13, 10]), kept_status = Some s, response_headers = header_dict fs,
                      response_body = body, response_error = None\<rparr>, []))
       | (r2, Raises e) \<Rightarrow> (r2, Raises e)
       | (r2, Waits) \<Rightarrow> (r2, Waits)
       | (r2, Spins) \<Rightarrow> (r2, Spins))"
    using receive_buffered [OF assms(1-6), of connect late k] by auto
  have t: "truthy (Some n)" using assms(8) by (auto simp: truthy_def py_int_def strip_by_def Let_def)
  define r2 where "r2 = maybe_resume_transport (r1\<lparr>rd_buffer := []\<rparr>)"
  have "read_some m r1 = (r2, Got part)"
    using r1(1) assms(9,10) by (simp add: read_some_def cut_def py_slice_def clamp_bound_def r2_def)
  then have "read_body (header_dict fs) r1 = (r2, Got part)"
    using assms(7,8) t by (simp add: read_body_def wait_for_def)
  moreover have "rd_buffer r2 = []" "rd_arrivals r2 = rd_arrivals r"
    using r1 by (simp_all add: r2_def maybe_resume_transport_def)
  ultimately show ?thesis using recv assms(7,8) t by (simp add: response_size_def)
qed

text \<open>A response without a body that says so, Content-Length: 0, times out when nothing more arrives: reading
  no bytes waits for data.\<close>

theorem empty_body_times_out:
  assumes "rd_exception r = None" "rd_buffer r = head_bytes line fs" "10 \<notin> set line" "\<forall>f \<in> set fs. wf_header f"
    "parse_status (line @ [13, 10]) = Some s" "s < 300 \<or> 400 \<le> s"
    "map_of (header_dict fs) (b_lit ''content-length'') = Some n" "py_int n = Inr 0" "rd_arrivals r = []" "\<not> rd_eof r"
  shows "\<exists>r'. receive connect late k r = (r', Raises TimeoutError)"
proof -
  obtain r1 where r1: "rd_buffer r1 = []" "rd_arrivals r1 = []" "\<not> rd_eof r1" and
    recv: "receive connect late k r =
      (case read_body (header_dict fs) r1 of
         (r2, Got body) \<Rightarrow>
           (r2, Got (\<lparr>response_code = Some (line @ [13, 10]), kept_status = Some s, response_headers = header_dict fs,
                      response_body = body, response_error = None\<rparr>, []))
       | (r2, Raises e) \<Rightarrow> (r2, Raises e)
       | (r2, Waits) \<Rightarrow> (r2, Waits)
       | (r2, Spins) \<Rightarrow> (r2, Spins))"
    using receive_buffered [OF assms(1) _ assms(3-6), of "[]" connect late k] assms(2,9,10) by auto
  have t: "truthy (Some n)" using assms(8) by (auto simp: truthy_def py_int_def strip_by_def Let_def)
  then have "read_body (header_dict fs) r1 = (r1\<lparr>rd_paused := False, rd_arrivals := []\<rparr>, Raises TimeoutError)"
    using assms(7,8) r1 by (simp add: read_body_def wait_for_def read_some_def wait_for_data_def await_data_def)
  then show ?thesis using recv by simp
qed

definition buffered :: "bytes \<Rightarrow> arrival list \<Rightarrow> reader" where
  "buffered bs as = \<lparr>rd_limit = 65536, rd_buffer = bs, rd_eof = False, rd_exception = None, rd_transport = None, rd_paused = False,
     rd_arrivals = as\<rparr>"

lemma buffered_simps [simp]:
  "rd_exception (buffered bs as) = None" "rd_buffer (buffered bs as) = bs" "rd_arrivals (buffered bs as) = as"
  "rd_eof (buffered bs as) = False" "rd_limit (buffered bs as) = 65536"
  by (simp_all add: buffered_def)

definition example_line :: bytes where
  "example_line = b_lit ''HTTP/1.1 200 OK''"

definition example_fields :: "string \<Rightarrow> (bytes \<times> bytes) list" where
  "example_fields n = [(b_lit ''Content-Length'', b_lit n), (b_lit ''Server'', b_lit ''x'')]"

lemma example_response_ok:
  "10 \<notin> set example_line" "parse_status (example_line @ [13, 10]) = Some 200"
  "\<forall>f \<in> set (example_fields ''5''). wf_header f" "\<forall>f \<in> set (example_fields ''0''). wf_header f"
  "map_of (header_dict (example_fields ''5'')) (b_lit ''content-length'') = Some (b_lit ''5'')"
  "map_of (header_dict (example_fields ''0'')) (b_lit ''content-length'') = Some (b_lit ''0'')"
  "py_int (b_lit ''5'') = Inr 5" "py_int (b_lit ''0'') = Inr 0"
  by code_simp+

theorem response_received_witness:
  "\<exists>r' v. receive (\<lambda>_. Inl ValueError) (\<lambda>_. False) 3
      (buffered (head_bytes example_line (example_fields ''5'') @ b_lit ''hello'' @ b_lit ''HTTP'') []) = (r', Got (v, [])) \<and>
     response_body v = b_lit ''hello'' \<and> rd_buffer r' = b_lit ''HTTP''"
proof -
  have l: "int (length (b_lit ''hello'')) = 5" "b_lit ''hello'' \<noteq> []" by (simp_all add: b_lit_def)
  show ?thesis
    using response_received [OF buffered_simps(1,2) example_response_ok(1,3,2) _ example_response_ok(5) _ l(2), of "\<lambda>_. Inl ValueError" "\<lambda>_. False" 3]
      example_response_ok(7) l(1) by fastforce
qed

theorem response_body_truncated_witness:
  "\<exists>r' v. receive (\<lambda>_. Inl ValueError) (\<lambda>_. False) 3
      (buffered (head_bytes example_line (example_fields ''5'') @ b_lit ''he'') [Data (b_lit ''llo'')]) = (r', Got (v, [])) \<and>
     response_body v = b_lit ''he'' \<and> response_size v = Inr 5 \<and> rd_arrivals r' = [Data (b_lit ''llo'')]"
proof -
  have l: "int (length (b_lit ''he'')) < 5" "b_lit ''he'' \<noteq> []" by (simp_all add: b_lit_def)
  show ?thesis
    using response_body_truncated [OF buffered_simps(1,2) example_response_ok(1,3,2) _ example_response_ok(5,7) l,
        of "\<lambda>_. Inl ValueError" "\<lambda>_. False" 3] by fastforce
qed

theorem empty_body_times_out_witness:
  "\<exists>r'. receive (\<lambda>_. Inl ValueError) (\<lambda>_. False) 3 (buffered (head_bytes example_line (example_fields ''0'')) []) =
     (r', Raises TimeoutError)"
  using empty_body_times_out [OF buffered_simps(1,2) example_response_ok(1,4,2) _ example_response_ok(6,8)] by simp

section \<open>Chunks\<close>

text \<open>A chunk is the line of its size, without the line break, and its data.\<close>

definition chunk_bytes :: "bytes \<times> bytes \<Rightarrow> bytes" where
  "chunk_bytes c = fst c @ [13, 10] @ snd c @ [13, 10]"

definition wf_chunk :: "nat \<Rightarrow> bytes \<times> bytes \<Rightarrow> bool" where
  "wf_chunk limit c \<longleftrightarrow> 10 \<notin> set (fst c) \<and> length (fst c) < limit \<and> snd c \<noteq> [] \<and>
     py_int_hex (fst c @ [13, 10]) = Inr (int (length (snd c)))"

lemma search_newline:
  assumes "rd_buffer r = line @ 10 # rest" "10 \<notin> set line" "length line \<le> rd_limit r"
  shows "\<exists>r'. search_buffer [10] r = Some (r', Got (line @ [10])) \<and> rd_buffer r' = rest \<and> rd_exception r' = rd_exception r \<and>
    rd_limit r' = rd_limit r"
  using assms by (simp add: search_buffer_def find_newline cut_def) (simp add: maybe_resume_transport_def)

lemma readuntil_newline:
  assumes "rd_exception r = None" "rd_buffer r = line @ 10 # rest" "10 \<notin> set line" "length line \<le> rd_limit r"
  obtains r' where "readuntil [10] r = (r', Got (line @ [10]))" "rd_buffer r' = rest" "rd_exception r' = None" "rd_limit r' = rd_limit r"
  using search_newline [OF assms(2-4)] assms(1) by (auto simp: readuntil_def)

lemma read_exact:
  assumes "rd_buffer r = xs @ rest" "xs \<noteq> []"
  obtains r' where "read_some (int (length xs)) r = (r', Got xs)" "rd_buffer r' = rest" "rd_exception r' = rd_exception r" "rd_limit r' = rd_limit r"
proof (rule that [of "maybe_resume_transport (r\<lparr>rd_buffer := rest\<rparr>)"])
  show "read_some (int (length xs)) r = (maybe_resume_transport (r\<lparr>rd_buffer := rest\<rparr>), Got xs)"
    using assms by (simp add: read_some_def cut_def py_slice_def clamp_bound_def)
qed (simp_all add: maybe_resume_transport_def)

text \<open>A chunked body that has arrived completely is received as the data of all chunks in order, but with the
  line break of the last, empty chunk added to it.\<close>

theorem chunked_body_received:
  assumes "rd_exception r = None" "rd_buffer r = concat (map chunk_bytes cs) @ last_line @ [13, 10, 13, 10] @ rest"
    "\<forall>c \<in> set cs. wf_chunk (rd_limit r) c" "10 \<notin> set last_line" "length last_line < rd_limit r" "py_int_hex (last_line @ [13, 10]) = Inr 0"
    "1 \<le> rd_limit r"
  shows "\<exists>r'. read_chunks r body = (r', Got (body @ concat (map snd cs) @ [13, 10])) \<and> rd_buffer r' = rest"
  using assms
proof (induction cs arbitrary: r body)
  case Nil
  obtain r1 where r1: "readuntil [10] r = (r1, Got ((last_line @ [13]) @ [10]))" "rd_buffer r1 = [13] @ 10 # rest" "rd_exception r1 = None"
    "rd_limit r1 = rd_limit r"
    by (rule readuntil_newline [OF Nil.prems(1), of "last_line @ [13]" "[13] @ 10 # rest"]) (use Nil.prems in simp_all)
  obtain r2 where "readuntil [10] r1 = (r2, Got ([13] @ [10]))" "rd_buffer r2 = rest"
    by (rule readuntil_newline [OF r1(3,2)]) (use r1(4) Nil.prems(7) in simp_all)
  then show ?case using r1(1) Nil.prems(6) by (subst read_chunks.simps) (simp add: wait_for_def)
next
  case (Cons c cs)
  have c: "10 \<notin> set (fst c)" "length (fst c) < rd_limit r" "snd c \<noteq> []" "py_int_hex (fst c @ [13, 10]) = Inr (int (length (snd c)))"
    using Cons.prems(3) by (simp_all add: wf_chunk_def)
  let ?more = "concat (map chunk_bytes cs) @ last_line @ [13, 10, 13, 10] @ rest"
  obtain r1 where r1: "readuntil [10] r = (r1, Got ((fst c @ [13]) @ [10]))" "rd_buffer r1 = (snd c @ [13, 10]) @ ?more"
    "rd_exception r1 = None" "rd_limit r1 = rd_limit r"
  proof (rule readuntil_newline [OF Cons.prems(1)])
    show "rd_buffer r = (fst c @ [13]) @ 10 # (snd c @ [13, 10]) @ ?more" using Cons.prems(2) by (simp add: chunk_bytes_def [of c])
  qed (use c in simp_all)
  obtain r2 where r2: "read_some (int (length (snd c @ [13, 10]))) r1 = (r2, Got (snd c @ [13, 10]))" "rd_buffer r2 = ?more"
    "rd_exception r2 = rd_exception r1" "rd_limit r2 = rd_limit r1"
    by (rule read_exact [OF r1(2)]) simp
  have n: "int (length (snd c)) \<noteq> 0" using c(3) by simp
  have s: "py_slice (snd c @ [13, 10]) 0 (- 2) = snd c" by (simp add: py_slice_def clamp_bound_def)
  have "read_chunks r body = read_chunks r2 (body @ snd c)"
    using r1(1) r2(1) c(4) n s by (subst read_chunks.simps) (simp add: wait_for_def add.commute)
  moreover have "\<exists>r'. read_chunks r2 (body @ snd c) = (r', Got ((body @ snd c) @ concat (map snd cs) @ [13, 10])) \<and> rd_buffer r' = rest"
    using r1 r2 Cons.prems(3-7) by (intro Cons.IH) simp_all
  ultimately show ?case by simp
qed

theorem chunked_body_received_witness:
  "\<exists>r'. read_chunks (buffered (concat (map chunk_bytes [(b_lit ''5'', b_lit ''hello''), (b_lit ''1'', b_lit ''!'')]) @ b_lit ''0'' @ [13, 10, 13, 10] @ []) []) [] =
     (r', Got (b_lit ''hello!'' @ [13, 10])) \<and> rd_buffer r' = []"
proof -
  have h: "py_int_hex (b_lit ''5'' @ [13, 10]) = Inr 5" "py_int_hex (b_lit ''1'' @ [13, 10]) = Inr 1"
    "py_int_hex (b_lit ''0'' @ [13, 10]) = Inr 0" by code_simp+
  have c: "\<forall>c \<in> set [(b_lit ''5'', b_lit ''hello''), (b_lit ''1'', b_lit ''!'')]. wf_chunk 65536 c"
    using h(1,2) by (simp add: wf_chunk_def b_lit_def)
  have z: "10 \<notin> set (b_lit ''0'')" "length (b_lit ''0'') < 65536" by (simp_all add: b_lit_def)
  have "\<exists>r'. read_chunks (buffered (concat (map chunk_bytes [(b_lit ''5'', b_lit ''hello''), (b_lit ''1'', b_lit ''!'')]) @ b_lit ''0'' @ [13, 10, 13, 10] @ []) []) [] =
     (r', Got ([] @ concat (map snd [(b_lit ''5'', b_lit ''hello''), (b_lit ''1'', b_lit ''!'')]) @ [13, 10])) \<and> rd_buffer r' = []"
    by (rule chunked_body_received [OF buffered_simps(1,2)]) (use c z h(3) in \<open>simp_all del: list.set\<close>)
  then show ?thesis by (simp add: b_lit_def)
qed

section \<open>A head in several pieces\<close>

text \<open>When a segment ends inside a header line before its colon, the headers end there: the rest of the head is
  left in the stream, and the headers it holds are missing.\<close>

theorem split_head_loses_headers:
  assumes "rd_exception r = None" "rd_buffer r = concat (map header_bytes fs) @ piece" "\<forall>f \<in> set fs. wf_header f" "piece \<noteq> []"
    "10 \<notin> set piece" "58 \<notin> set piece"
  shows "\<exists>r'. read_header_block r = (r', Got (header_dict fs)) \<and> rd_buffer r' = [] \<and> rd_arrivals r' = rd_arrivals r"
proof -
  have no_line: "find_sub [10] piece = None" using assms(5) by (induction piece) auto
  have "\<exists>r'. header_lines r lines = (r', Got (lines @ map header_bytes fs)) \<and> rd_buffer r' = [] \<and> rd_arrivals r' = rd_arrivals r" for lines
    using assms(1-3)
  proof (induction fs arbitrary: r lines)
    case Nil
    then have "next_line [10] r = (r\<lparr>rd_buffer := []\<rparr>, Got piece)"
      using assms(4) no_line by (simp add: next_line_def take_line_def clear_def)
    then show ?case using assms(6) by (subst header_lines.simps) simp
  next
    case (Cons f fs)
    let ?line = "fst f @ [58, 32] @ snd f @ [13]"
    have n: "10 \<notin> set ?line" using Cons.prems(3) by (auto simp: wf_header_def)
    have b: "rd_buffer r = ?line @ 10 # concat (map header_bytes fs) @ piece"
      using Cons.prems(2) by (simp add: header_bytes_def [of f])
    obtain r1 where r1: "next_line [10] r = (r1, Got (?line @ [10]))" "rd_buffer r1 = concat (map header_bytes fs) @ piece"
      "rd_exception r1 = None" "rd_arrivals r1 = rd_arrivals r"
      by (rule buffered_line [OF Cons.prems(1) b n])
    have "?line @ [10] = header_bytes f" by (simp add: header_bytes_def)
    then have "header_lines r lines = header_lines r1 (lines @ [header_bytes f])"
      by (subst header_lines.simps) (simp only: r1(1), simp add: header_bytes_def)
    then show ?case using Cons.IH [OF r1(3,2), of "lines @ [header_bytes f]"] Cons.prems(3) r1(4) by auto
  qed
  then obtain r' where "header_lines r [] = (r', Got ([] @ map header_bytes fs))" "rd_buffer r' = []" "rd_arrivals r' = rd_arrivals r"
    by blast
  then show ?thesis using fold_headers [OF assms(3)] by (simp add: header_dict_def)
qed

theorem split_head_loses_headers_witness:
  "\<exists>r'. read_header_block (buffered (concat (map header_bytes [(b_lit ''Server'', b_lit ''x'')]) @ b_lit ''Content-Le'')
       [Data (b_lit ''ngth: 5'' @ [13, 10, 13, 10] @ b_lit ''hello'')]) = (r', Got (header_dict [(b_lit ''Server'', b_lit ''x'')])) \<and>
     rd_buffer r' = []"
proof -
  have w: "\<forall>f \<in> set [(b_lit ''Server'', b_lit ''x'')]. wf_header f" by code_simp
  have "b_lit ''Content-Le'' \<noteq> []" "10 \<notin> set (b_lit ''Content-Le'')" "58 \<notin> set (b_lit ''Content-Le'')"
    by (simp_all add: b_lit_def)
  from split_head_loses_headers [OF buffered_simps(1,2) w this] show ?thesis by blast
qed

theorem redirect_status_stuck_witness:
  "\<exists>r' v headers sent. redirect_loop (\<lambda>_. Inl ValueError) (\<lambda>_. False) 1 (HTTPResult\<lparr>kept_status := Some 302\<rparr>)
       [(b_lit ''location'', b_lit ''http://a/'')] [] (buffered (head_bytes example_line []) []) = (r', Got (v, headers, sent)) \<and>
     kept_status v = Some 302 \<and> length sent = 1"
proof -
  let ?v = "HTTPResult\<lparr>kept_status := Some 302\<rparr>" and ?hs = "[(b_lit ''location'', b_lit ''http://a/'')]"
    and ?r = "buffered (head_bytes example_line []) []"
  obtain r1 where h: "read_head ?v ?r = (r1, Got (read_status (?v\<lparr>response_code := Some (example_line @ [13, 10])\<rparr>), header_dict []))"
    using read_head_buffered [OF buffered_simps(1), of "head_bytes example_line []" "[]" example_line "[]" "[]" ?v] example_response_ok(1)
    by auto
  have "kept_status (read_status (?v\<lparr>response_code := Some (example_line @ [13, 10])\<rparr>)) = Some 302"
    by (simp add: read_status_def)
  then obtain r' v headers sent where l: "redirect_loop (\<lambda>_. Inl ValueError) (\<lambda>_. False) 1 ?v ?hs [] ?r = (r', Got (v, headers, sent))"
    using h never_http by (simp add: Let_def numeral_eq_Suc)
  show ?thesis using l redirect_status_stuck [OF _ _ l, of 302] by auto
qed

end
