(* ===== verification/Http1_Request.thy ===== *)
theory Http1_Request
  imports Http1_Response
begin

text \<open>
  The requests of the HTTP/1 engine (\<open>http/action.py\<close>, the path of \<open>common/url.py\<close>, and the bytes that
  \<open>execute_prepared_request\<close> writes). Texts are their encoded bytes. \<open>json.dumps\<close>, \<open>urlencode\<close> and the IDNA
  encoding of the host name are arguments; empty dictionaries and tuples, which Python takes for false, are
  \<open>NoData\<close>.
\<close>

section \<open>Numbers\<close>

fun decimal :: "nat \<Rightarrow> bytes" where
  "decimal n = (if n < 10 then [word_of_nat (48 + n)] else decimal (n div 10) @ [word_of_nat (48 + n mod 10)])"

declare decimal.simps [simp del]

lemma int_digits_fold:
  "\<forall>x \<in> set xs. 48 \<le> x \<and> x \<le> 57 \<Longrightarrow>
   int_digits b acc xs = (if xs = [] \<and> \<not> b then None else Some (foldl (\<lambda>a x. a * 10 + (uint x - 48)) acc xs))"
  by (induction xs arbitrary: b acc) simp_all

lemma digit_word: "k < 10 \<Longrightarrow> (48 :: byte) \<le> word_of_nat (48 + k) \<and> (word_of_nat (48 + k) :: byte) \<le> 57 \<and> uint (word_of_nat (48 + k) :: byte) = int (48 + k)"
proof -
  assume "k < 10"
  then have "k \<in> {0, 1, 2, 3, 4, 5, 6, 7, 8, 9}" by auto
  then show ?thesis by auto
qed

lemma decimal_digits: "\<forall>x \<in> set (decimal n). 48 \<le> x \<and> x \<le> 57"
proof (induction n rule: decimal.induct)
  case (1 n)
  show ?case
  proof (cases "n < 10")
    case True
    then show ?thesis using digit_word [of n] by (subst decimal.simps) simp
  next
    case False
    then have "\<forall>x \<in> set (decimal (n div 10)). 48 \<le> x \<and> x \<le> 57" using 1 by simp
    then show ?thesis using False digit_word [of "n mod 10"] by (subst decimal.simps) auto
  qed
qed

lemma decimal_nonempty: "decimal n \<noteq> []"
  by (subst decimal.simps) simp

lemma decimal_value: "foldl (\<lambda>a x. a * 10 + (uint x - 48)) 0 (decimal n) = int n"
proof (induction n rule: decimal.induct)
  case (1 n)
  show ?case
  proof (cases "n < 10")
    case True
    then show ?thesis using digit_word [of n] by (subst decimal.simps) simp
  next
    case False
    have "int (n div 10) * 10 + int (n mod 10) = int n"
      by (metis div_mult_mod_eq of_nat_add of_nat_mult of_nat_numeral)
    moreover have "uint (word_of_nat (48 + n mod 10) :: byte) = int (48 + n mod 10)" using digit_word [of "n mod 10"] by simp
    ultimately show ?thesis using False 1 [OF False] by (subst decimal.simps) simp
  qed
qed

lemma int_decimal: "int_digits False 0 (decimal n) = Some (int n)"
  using int_digits_fold [OF decimal_digits] decimal_nonempty decimal_value by simp

lemma decimal_no_space: "x \<in> set (decimal n) \<Longrightarrow> \<not> is_space x \<and> x \<noteq> 10 \<and> x \<noteq> 45 \<and> x \<noteq> 43"
proof -
  assume "x \<in> set (decimal n)"
  then have "48 \<le> x" using decimal_digits by blast
  then have "48 \<le> uint x" by (simp add: word_le_def)
  then show ?thesis by (auto simp: is_space_def word_le_def)
qed

lemma strip_no_space: "\<forall>x \<in> set v. \<not> is_space x \<Longrightarrow> strip v = v"
proof -
  assume v: "\<forall>x \<in> set v. \<not> is_space x"
  have keep: "dropWhile is_space xs = xs" if "\<forall>x \<in> set xs. \<not> is_space x" for xs using that by (cases xs) simp_all
  show ?thesis using v by (simp add: strip_by_def keep)
qed

lemma strip_decimal: "strip (decimal n) = decimal n"
  by (rule strip_no_space) (use decimal_no_space in blast)

lemma py_int_decimal: "py_int (decimal n) = Inr (int n)"
proof -
  obtain b bs where b: "decimal n = b # bs" using decimal_nonempty by (cases "decimal n") auto
  have "b \<noteq> 45" "b \<noteq> 43" using decimal_no_space [of b n] b by auto
  then show ?thesis using int_decimal [of n] strip_decimal [of n] b by (simp add: py_int_def Let_def)
qed

section \<open>The action\<close>

text \<open>\<open>URL\<close>: the parsed parts the request reads. An empty path stays empty: the test for it asks a true value for its length 0.\<close>

record url =
  url_scheme :: bytes
  url_host :: bytes
  url_port :: nat
  url_path_part :: bytes
  url_query :: bytes
  url_params :: bytes

definition url_path :: "url \<Rightarrow> bytes" where
  "url_path u =
     (let path = url_path_part u
      in if url_query u \<noteq> [] then path @ [63] @ url_query u
         else if url_params u \<noteq> [] then path @ url_params u else path)"

datatype ('j, 'p) request_data = NoData | Chunks "bytes list" | Dict 'j | Pairs 'p | Text bytes | Raw bytes

datatype body = Whole bytes | Stream "bytes list"

record ('j, 'p) http_action =
  act_method :: bytes
  act_url :: url
  header_items :: "(bytes \<times> bytes) list"
  act_data :: "('j, 'p) request_data"
  encoded_data :: "body option"
  encoded_headers :: "bytes option"
  is_stream :: bool

definition HTTPAction :: "bytes \<Rightarrow> url \<Rightarrow> (bytes \<times> bytes) list \<Rightarrow> ('j, 'p) request_data \<Rightarrow> ('j, 'p) http_action" where
  "HTTPAction method u headers data =
     \<lparr>act_method = map (\<lambda>b. if 97 \<le> b \<and> b \<le> 122 then b - 32 else b) method, act_url = u, header_items = headers, act_data = data,
      encoded_data = None, encoded_headers = None, is_stream = False\<rparr>"

definition set_data :: "('j, 'p) request_data \<Rightarrow> ('j, 'p) http_action \<Rightarrow> ('j, 'p) http_action" where
  "set_data d a = a\<lparr>act_data := d, encoded_data := None\<rparr>"

definition set_headers :: "(bytes \<times> bytes) list \<Rightarrow> ('j, 'p) http_action \<Rightarrow> ('j, 'p) http_action" where
  "set_headers hs a = a\<lparr>header_items := hs, encoded_headers := None\<rparr>"

text \<open>\<open>size\<close>: the length of the encoded data, for a stream the number of its chunks.\<close>

definition action_size :: "('j, 'p) http_action \<Rightarrow> nat" where
  "action_size a =
     (case encoded_data a of None \<Rightarrow> 0 | Some (Whole bs) \<Rightarrow> length bs | Some (Stream cs) \<Rightarrow> length cs)"

text \<open>
  \<open>_setup_data\<close>. The first chunk of an iterator is added to \<open>size\<close>, a property without a setter. Data of
  type \<open>bytes\<close> has no branch.
\<close>

definition setup_data :: "('j \<Rightarrow> bytes) \<Rightarrow> ('p \<Rightarrow> bytes) \<Rightarrow> ('j, 'p) http_action \<Rightarrow> ('j, 'p) http_action res" where
  "setup_data dumps urlencode a =
     (case act_data a of
        NoData \<Rightarrow> Inr a
      | Chunks [] \<Rightarrow> Inr (a\<lparr>is_stream := True, encoded_data := Some (Stream [])\<rparr>)
      | Chunks (_ # _) \<Rightarrow> Inl AttributeError
      | Dict j \<Rightarrow> Inr (a\<lparr>encoded_data := Some (Whole (dumps j))\<rparr>)
      | Pairs p \<Rightarrow> Inr (a\<lparr>encoded_data := Some (Whole (urlencode p))\<rparr>)
      | Text bs \<Rightarrow> Inr (if bs = [] then a else a\<lparr>encoded_data := Some (Whole bs)\<rparr>)
      | Raw _ \<Rightarrow> Inr a)"

definition header_text :: "(bytes \<times> bytes) list \<Rightarrow> bytes" where
  "header_text hs = concat (map (\<lambda>(k, v). k @ [58, 32] @ v @ [13, 10]) hs)"

definition action_port :: "url \<Rightarrow> nat" where
  "action_port u = (if url_port u \<noteq> 0 then url_port u else if url_scheme u = b_lit ''https'' then 443 else 80)"

definition all_headers :: "(bytes \<Rightarrow> bytes) \<Rightarrow> ('j, 'p) http_action \<Rightarrow> (bytes \<times> bytes) list" where
  "all_headers idna a =
     (let port = action_port (act_url a);
          host = idna (url_host (act_url a));
          host = (if port \<noteq> 80 \<and> port \<noteq> 443 then host @ [58] @ decimal port else host)
      in [(b_lit ''HOST'', host), (b_lit ''User-Agent'', b_lit ''mercury-http''),
          (b_lit ''Keep-Alive'', b_lit ''timeout=60, max=100000''), (b_lit ''Content-Length'', decimal (action_size a))] @ header_items a)"

definition request_line :: "('j, 'p) http_action \<Rightarrow> bytes" where
  "request_line a = act_method a @ [32] @ url_path (act_url a) @ b_lit '' HTTP/1.1''"

definition encode_head :: "(bytes \<Rightarrow> bytes) \<Rightarrow> ('j, 'p) http_action \<Rightarrow> ('j, 'p) http_action" where
  "encode_head idna a =
     a\<lparr>encoded_headers := Some (request_line a @ [13, 10] @ header_text (all_headers idna a) @ [13, 10])\<rparr>"

definition action_setup :: "('j \<Rightarrow> bytes) \<Rightarrow> ('p \<Rightarrow> bytes) \<Rightarrow> (bytes \<Rightarrow> bytes) \<Rightarrow> ('j, 'p) http_action \<Rightarrow> ('j, 'p) http_action res" where
  "action_setup dumps urlencode idna a =
     (case (if encoded_data a = None then setup_data dumps urlencode a else Inr a) of
        Inl e \<Rightarrow> Inl e
      | Inr a \<Rightarrow> Inr (if encoded_headers a = None then encode_head idna a else a))"

text \<open>
  What the client writes: a stream with chunks cannot be set up; \<open>write_chunks\<close> is called for a
  stream that is not empty only, with one argument too many.
\<close>

definition written :: "('j, 'p) http_action \<Rightarrow> bytes res" where
  "written a =
     (case encoded_headers a of
        None \<Rightarrow> Inl TypeError
      | Some head \<Rightarrow>
          (case encoded_data a of
             None \<Rightarrow> Inr head
           | Some (Whole bs) \<Rightarrow> Inr (head @ bs)
           | Some (Stream []) \<Rightarrow> Inr head
           | Some (Stream (_ # _)) \<Rightarrow> Inl TypeError))"

section \<open>What the server reads\<close>

lemma header_text_bytes: "header_text hs = concat (map header_bytes hs)"
  by (simp add: header_text_def header_bytes_def [abs_def] case_prod_unfold)

lemma written_head:
  assumes "action_setup dumps urlencode idna (HTTPAction m u hs d) = Inr a" "d = Text body" "body \<noteq> []"
  shows "written a = Inr (head_bytes (request_line a) (all_headers idna a) @ body) \<and> action_size a = length body \<and>
    header_items a = hs \<and> act_url a = u"
proof -
  have "a = encode_head idna ((HTTPAction m u hs d)\<lparr>encoded_data := Some (Whole body)\<rparr>)"
    using assms by (simp add: action_setup_def setup_data_def HTTPAction_def split: sum.splits if_splits)
  then show ?thesis
    by (simp add: written_def encode_head_def head_bytes_def header_text_bytes action_size_def all_headers_def request_line_def
        HTTPAction_def Let_def)
qed

lemma header_dict_last: "header_dict (fs @ [f]) = AList.update (lower (fst f)) (snd f) (header_dict fs)"
  by (simp add: header_dict_def)

lemma header_dict_other:
  "\<forall>f \<in> set gs. lower (fst f) \<noteq> k \<Longrightarrow> map_of (header_dict (fs @ gs)) k = map_of (header_dict fs) k"
proof (induction gs rule: rev_induct)
  case (snoc g gs)
  have "map_of (header_dict ((fs @ gs) @ [g])) k = map_of (header_dict (fs @ gs)) k"
    using snoc.prems by (simp only: header_dict_last) (auto simp: update_conv')
  then show ?case using snoc by simp
qed simp

lemma wf_standard_header:
  assumes "10 \<notin> set (idna (url_host (act_url a)))" "strip (idna (url_host (act_url a))) = idna (url_host (act_url a))"
    "idna (url_host (act_url a)) \<noteq> []" "\<forall>f \<in> set (header_items a). wf_header f"
  shows "\<forall>f \<in> set (all_headers idna a). wf_header f"
proof -
  let ?h = "idna (url_host (act_url a))" and ?port = "decimal (action_port (act_url a))"
  have n: "10 \<notin> set (decimal k)" for k using decimal_no_space by blast
  have "\<not> is_space (hd ?h)" "\<not> is_space (last ?port)"
    using stripped_ends [OF assms(2,3)] decimal_no_space decimal_nonempty last_in_set by blast+
  then have "strip (?h @ [58] @ ?port) = ?h @ [58] @ ?port"
    using assms(3) decimal_nonempty by (simp add: strip_by_def dropWhile_hd hd_append hd_rev)
  moreover have "strip (b_lit ''mercury-http'') = b_lit ''mercury-http''"
    "strip (b_lit ''timeout=60, max=100000'') = b_lit ''timeout=60, max=100000''" by code_simp+
  ultimately show ?thesis
    using assms n by (auto simp: all_headers_def Let_def wf_header_def b_lit_def is_space_def strip_decimal)
qed

text \<open>C4: A request with a nonempty text body, as the engine writes it, that is already in the buffer of a peer with the
  same stream reader is read exactly: the request line, the headers with the length of the body, and the body; what
  follows is left for the next request. The method, the path and the host have no newline, the host no outer
  whitespace, and the user's headers are well formed, which excludes a newline in a value, and hold no
  content-length.\<close>

theorem request_reaches_reader:
  assumes "action_setup dumps urlencode idna (HTTPAction m u hs (Text body)) = Inr a" "body \<noteq> []" "written a = Inr sent"
    "10 \<notin> set m" "10 \<notin> set (url_path u)" "10 \<notin> set (idna (url_host u))" "strip (idna (url_host u)) = idna (url_host u)"
    "idna (url_host u) \<noteq> []" "\<forall>f \<in> set hs. wf_header f \<and> lower (fst f) \<noteq> b_lit ''content-length''"
    "rd_exception r = None" "rd_buffer r = sent @ rest"
  shows "\<exists>r1 r2 r3 headers. readline_fast r = (r1, Got (request_line a @ [13, 10])) \<and> read_header_block r1 = (r2, Got headers) \<and>
    map_of headers (b_lit ''content-length'') = Some (decimal (length body)) \<and>
    (\<forall>f \<in> set hs. \<exists>g \<in> set hs. lower (fst g) = lower (fst f) \<and> map_of headers (lower (fst f)) = Some (snd g)) \<and>
    read_some (int (length body)) r2 = (r3, Got body) \<and> rd_buffer r3 = rest"
proof -
  let ?fs = "all_headers idna a"
  have w: "sent = head_bytes (request_line a) ?fs @ body" "action_size a = length body" "header_items a = hs" "act_url a = u"
    using written_head [OF assms(1) refl assms(2)] assms(3) by auto
  have m: "act_method a = map (\<lambda>b. if 97 \<le> b \<and> b \<le> 122 then b - 32 else b) m"
    using assms(1,2) by (auto simp: action_setup_def setup_data_def encode_head_def HTTPAction_def)
  have "10 \<notin> set (act_method a)"
  proof
    assume "10 \<in> set (act_method a)"
    then obtain b where b: "b \<in> set m" "10 = (if 97 \<le> b \<and> b \<le> 122 then b - 32 else b)" using m by auto
    show False
    proof (cases "97 \<le> b \<and> b \<le> 122")
      case True
      then have "b = 42" using b(2) by (simp add: eq_diff_eq)
      then show False using True by simp
    next
      case False
      then show False using b assms(4) by (metis (full_types))
    qed
  qed
  then have line: "10 \<notin> set (request_line a)" using assms(5) by (auto simp: request_line_def w(4) b_lit_def)
  have wf: "\<forall>f \<in> set ?fs. wf_header f" using wf_standard_header [of idna a] assms(6-9) by (simp add: w(3,4))
  obtain r1 where r1: "next_line [10] r = (r1, Got ((request_line a @ [13]) @ [10]))"
    "rd_buffer r1 = concat (map header_bytes ?fs) @ [13, 10] @ (body @ rest)" "rd_exception r1 = None"
    by (rule buffered_line [OF assms(10), of "request_line a @ [13]"]) (use assms(11) line in \<open>simp_all add: head_bytes_def w(1)\<close>)
  obtain r2 where r2: "header_lines r1 [] = (r2, Got ([] @ map header_bytes ?fs))" "rd_buffer r2 = body @ rest"
    using header_lines_read [OF r1(3,2) wf] by blast
  have h: "read_header_block r1 = (r2, Got (header_dict ?fs))"
    using r2(1) fold_headers [OF wf] by (simp add: header_dict_def)
  obtain r3 where r3: "read_some (int (length body)) r2 = (r3, Got body)" "rd_buffer r3 = rest"
    by (rule read_exact [OF r2(2) assms(2)])
  obtain fs0 where fs: "?fs = (fs0 @ [(b_lit ''Content-Length'', decimal (length body))]) @ hs"
    by (auto simp: all_headers_def Let_def w)
  have "lower (b_lit ''Content-Length'') = b_lit ''content-length''" by code_simp
  then have "map_of (header_dict ?fs) (b_lit ''content-length'') = Some (decimal (length body))"
    unfolding fs using assms(9) by (subst header_dict_other) (simp_all add: header_dict_last update_conv')
  moreover have given: "\<forall>f \<in> set gs. \<exists>g \<in> set gs. lower (fst g) = lower (fst f) \<and>
      map_of (header_dict (fs @ gs)) (lower (fst f)) = Some (snd g)" for fs gs
  proof (induction gs rule: rev_induct)
    case (snoc g gs)
    have "header_dict (fs @ gs @ [g]) = AList.update (lower (fst g)) (snd g) (header_dict (fs @ gs))"
      using header_dict_last [of "fs @ gs" g] by simp
    then show ?case using snoc by (auto simp: update_conv')
  qed simp
  from given have "\<forall>f \<in> set hs. \<exists>g \<in> set hs. lower (fst g) = lower (fst f) \<and>
      map_of (header_dict ?fs) (lower (fst f)) = Some (snd g)"
    unfolding fs .
  moreover have "readline_fast r = (r1, Got (request_line a @ [13, 10]))" using r1(1) by (simp add: readline_fast_def)
  ultimately show ?thesis using h r3 by blast
qed

text \<open>A request for the root of a host, and its bytes.\<close>

definition example_url :: url where
  "example_url = \<lparr>url_scheme = b_lit ''http'', url_host = b_lit ''h'', url_port = 80, url_path_part = b_lit ''/a'', url_query = [],
     url_params = []\<rparr>"

theorem request_reaches_reader_witness:
  "\<exists>a sent r1 r2 r3 headers. action_setup (\<lambda>_ :: unit. []) (\<lambda>_ :: unit. []) id
       (HTTPAction (b_lit ''post'') example_url [(b_lit ''X-Id'', b_lit ''7'')] (Text (b_lit ''data''))) = Inr a \<and> written a = Inr sent \<and>
     readline_fast (buffered (sent @ b_lit ''more'') []) = (r1, Got (b_lit ''POST /a HTTP/1.1'' @ [13, 10])) \<and> read_header_block r1 = (r2, Got headers) \<and>
     map_of headers (b_lit ''content-length'') = Some (decimal 4) \<and> read_some 4 r2 = (r3, Got (b_lit ''data'')) \<and> rd_buffer r3 = b_lit ''more''"
proof -
  let ?a = "HTTPAction (b_lit ''post'') example_url [(b_lit ''X-Id'', b_lit ''7'')] (Text (b_lit ''data'')) :: (unit, unit) http_action"
  have d: "b_lit ''data'' \<noteq> []" "length (b_lit ''data'') = 4" by (simp_all add: b_lit_def)
  obtain a where a: "action_setup (\<lambda>_ :: unit. []) (\<lambda>_ :: unit. []) id ?a = Inr a"
    using d(1) by (simp add: action_setup_def setup_data_def HTTPAction_def)
  have l: "request_line a = b_lit ''POST /a HTTP/1.1''"
    using a d(1) by (auto simp: action_setup_def setup_data_def HTTPAction_def encode_head_def request_line_def url_path_def
        example_url_def b_lit_def)
  obtain sent where sent: "written a = Inr sent" using written_head [OF a refl d(1)] by blast
  have c: "10 \<notin> set (b_lit ''post'')" "10 \<notin> set (url_path example_url)" "10 \<notin> set (id (url_host example_url))"
    "strip (id (url_host example_url)) = id (url_host example_url)" "id (url_host example_url) \<noteq> []"
    "\<forall>f \<in> set [(b_lit ''X-Id'', b_lit ''7'')]. wf_header f \<and> lower (fst f) \<noteq> b_lit ''content-length''"
    by code_simp+
  show ?thesis
    using request_reaches_reader [OF a d(1) sent c buffered_simps(1,2)] a sent l d(2) by (simp del: read_header_block.simps) blast
qed

text \<open>An iterator with at least one chunk can never be sent: setting the action up raises an AttributeError, and
  a body of type bytes is dropped without an error, the request says that it is empty.\<close>

theorem streamed_body_raises:
  "action_setup dumps urlencode idna (HTTPAction m u hs (Chunks (c # cs))) = Inl AttributeError \<and>
   (\<exists>a. action_setup dumps urlencode idna (HTTPAction m u hs (Raw bs)) = Inr a \<and> action_size a = 0 \<and>
     written a = Inr (head_bytes (request_line a) (all_headers idna a)))"
  by (simp add: action_setup_def setup_data_def HTTPAction_def encode_head_def action_size_def written_def head_bytes_def
      header_text_bytes request_line_def all_headers_def Let_def)

text \<open>A URL without a path is requested with an empty target: the request line has two words only.\<close>

theorem root_url_without_target:
  assumes "url_path_part u = []" "url_query u = []" "url_params u = []" "act_url a = u" "act_method a = b_lit ''GET''"
  shows "split_ws (request_line a) = [b_lit ''GET'', b_lit ''HTTP/1.1'']"
proof -
  have "request_line a = b_lit ''GET  HTTP/1.1''" using assms by (simp add: request_line_def url_path_def b_lit_def)
  moreover have "split_ws (b_lit ''GET  HTTP/1.1'') = [b_lit ''GET'', b_lit ''HTTP/1.1'']" by code_simp
  ultimately show ?thesis by simp
qed

text \<open>Header values are not checked: a line break in a value starts another header.\<close>

theorem header_value_injects:
  "all_headers idna (a\<lparr>header_items := [(k, v @ [13, 10] @ n @ [58, 32] @ w)]\<rparr>) = xs @ [(k, v @ [13, 10] @ n @ [58, 32] @ w)] \<Longrightarrow>
   all_headers idna (a\<lparr>header_items := [(k, v), (n, w)]\<rparr>) = xs @ [(k, v), (n, w)] \<and>
   header_text (xs @ [(k, v @ [13, 10] @ n @ [58, 32] @ w)]) = header_text (xs @ [(k, v), (n, w)])"
  by (simp add: all_headers_def Let_def header_text_def action_size_def)

end
