(* ===== verification/Py_Struct.thy ===== *)
theory Py_Struct
  imports Py_Prelude
begin

text \<open>
  The part of Python's \<open>struct\<close> module the frame code uses: packing and unpacking several
  unsigned big-endian fields (\<open>struct_types.py\<close>). A format is the list of its field widths
  in bytes, so \<open>">HBBBL"\<close> is \<open>[2, 1, 1, 1, 4]\<close>. Packing a value out of range and unpacking
  the wrong number of bytes raise \<open>struct.error\<close>.
\<close>

section \<open>Sequencing calls that may raise\<close>

primrec rbind :: "'a res \<Rightarrow> ('a \<Rightarrow> 'b res) \<Rightarrow> 'b res" where
  "rbind (Inl err) f = Inl err"
| "rbind (Inr v) f = f v"

lemma rbind_Inr_iff [simp]: "rbind r f = Inr y \<longleftrightarrow> (\<exists>v. r = Inr v \<and> f v = Inr y)"
  by (cases r) auto

section \<open>Formats\<close>

definition STRUCT_HBBBL :: "nat list" where "STRUCT_HBBBL = [2, 1, 1, 1, 4]"
definition STRUCT_LL :: "nat list" where "STRUCT_LL = [4, 4]"
definition STRUCT_HL :: "nat list" where "STRUCT_HL = [2, 4]"
definition STRUCT_LB :: "nat list" where "STRUCT_LB = [4, 1]"
definition STRUCT_L :: "nat list" where "STRUCT_L = [4]"
definition STRUCT_H :: "nat list" where "STRUCT_H = [2]"
definition STRUCT_B :: "nat list" where "STRUCT_B = [1]"

lemmas struct_defs = STRUCT_HBBBL_def STRUCT_LL_def STRUCT_HL_def STRUCT_LB_def STRUCT_L_def
  STRUCT_H_def STRUCT_B_def

fun pack_struct :: "nat list \<Rightarrow> int list \<Rightarrow> bytes res" where
  "pack_struct [] [] = Inr []"
| "pack_struct (n # ns) (v # vs) =
     (case pack_be n v of
        Inl err \<Rightarrow> Inl err
      | Inr bs \<Rightarrow> (case pack_struct ns vs of Inl err \<Rightarrow> Inl err | Inr rest \<Rightarrow> Inr (bs @ rest)))"
| "pack_struct _ _ = Inl StructError"

fun split_struct :: "nat list \<Rightarrow> bytes \<Rightarrow> int list" where
  "split_struct [] bs = []"
| "split_struct (n # ns) bs = int (be_value (take n bs)) # split_struct ns (drop n bs)"

definition unpack_struct :: "nat list \<Rightarrow> bytes \<Rightarrow> int list res" where
  "unpack_struct ns bs = (if length bs = sum_list ns then Inr (split_struct ns bs) else Inl StructError)"

section \<open>Round trips\<close>

lemma pack_struct_length: "pack_struct ns vs = Inr bs \<Longrightarrow> length bs = sum_list ns"
  by (induction ns vs arbitrary: bs rule: pack_struct.induct)
    (auto simp: pack_be_def split: if_splits)

lemma split_pack_struct: "pack_struct ns vs = Inr bs \<Longrightarrow> split_struct ns (bs @ rest) = vs"
proof (induction ns vs arbitrary: bs rule: pack_struct.induct)
  case (2 n ns v vs)
  then obtain b b' where b: "pack_be n v = Inr b" "pack_struct ns vs = Inr b'" "bs = b @ b'" by auto
  then have "length b = n" "int (be_value b) = v"
    using unpack_pack_be [of n v b] by (auto simp: unpack_be_def)
  with 2 b show ?case by simp
qed auto

lemma unpack_pack_struct: "pack_struct ns vs = Inr bs \<Longrightarrow> unpack_struct ns bs = Inr vs"
  using split_pack_struct [of ns vs bs "[]"] pack_struct_length [of ns vs bs]
  by (simp add: unpack_struct_def)

lemma unpack_pack_prefix:
  "pack_struct ns vs = Inr bs \<Longrightarrow> sum_list ns = k \<Longrightarrow> unpack_struct ns (take k (bs @ rest)) = Inr vs"
  using unpack_pack_struct [of ns vs bs] pack_struct_length [of ns vs bs] by simp

lemma split_struct_bounds:
  "split_struct ns bs = vs \<Longrightarrow> list_all2 (\<lambda>n v. 0 \<le> v \<and> v < 256 ^ n) ns vs"
proof (induction ns arbitrary: bs vs)
  case (Cons n ns)
  have "be_value (take n bs) < 256 ^ length (take n bs)" by (rule be_value_bound)
  also have "\<dots> \<le> 256 ^ n" by (rule power_increasing) simp_all
  finally have "int (be_value (take n bs)) < 256 ^ n" by (simp flip: of_nat_less_iff)
  with Cons show ?case by auto
qed simp

lemma pack_struct_ok:
  "list_all2 (\<lambda>n v. 0 \<le> v \<and> v < 256 ^ n) ns vs \<Longrightarrow> \<exists>bs. pack_struct ns vs = Inr bs"
  by (induction ns vs rule: list_all2_induct) (auto simp: pack_be_def)

end
