(* ===== verification/Dns_Names.thy ===== *)
theory Dns_Names
  imports Py_Struct
begin

text \<open>
  Domain names on the wire (\<open>discovery/dns/core/record/record_data_types/utils\<close>): packing a name
  with back references to names that are already in the message, and loading a name by
  following them. A \<open>str\<close> is its UTF-8 encoding, so \<open>encode()\<close> is the identity and \<open>decode()\<close>
  checks the encoding; splitting at dots is the same on both. Positions are naturals. The
  relation \<open>name_at\<close> says which name stands at a position of a message.
\<close>

section \<open>Text\<close>

definition cont_byte :: "byte \<Rightarrow> bool" where
  "cont_byte c \<longleftrightarrow> 0x80 \<le> unat c \<and> unat c < 0xC0"

fun utf8_ok :: "bytes \<Rightarrow> bool" where
  "utf8_ok [] = True"
| "utf8_ok (b # bs) =
     (let n = unat b
      in if n < 0x80 then utf8_ok bs
         else if 0xC2 \<le> n \<and> n < 0xE0
         then (case bs of c # bs \<Rightarrow> cont_byte c \<and> utf8_ok bs | [] \<Rightarrow> False)
         else if 0xE0 \<le> n \<and> n < 0xF0
         then (case bs of
                 c # d # bs \<Rightarrow> cont_byte c \<and> cont_byte d \<and> (n = 0xE0 \<longrightarrow> 0xA0 \<le> unat c) \<and>
                   (n = 0xED \<longrightarrow> unat c < 0xA0) \<and> utf8_ok bs
               | _ \<Rightarrow> False)
         else if 0xF0 \<le> n \<and> n < 0xF5
         then (case bs of
                 c # d # e # bs \<Rightarrow> cont_byte c \<and> cont_byte d \<and> cont_byte e \<and> (n = 0xF0 \<longrightarrow> 0x90 \<le> unat c) \<and>
                   (n = 0xF4 \<longrightarrow> unat c < 0x90) \<and> utf8_ok bs
               | _ \<Rightarrow> False)
         else False)"

text \<open>\<open>UnicodeDecodeError\<close> is a \<open>ValueError\<close>.\<close>

definition py_decode :: "bytes \<Rightarrow> bytes res" where
  "py_decode bs = (if utf8_ok bs then Inr bs else Inl ValueError)"

fun split_dot :: "bytes \<Rightarrow> bytes list" where
  "split_dot [] = [[]]"
| "split_dot (c # cs) =
     (if c = 46 then [] # split_dot cs
      else (case split_dot cs of p # ps \<Rightarrow> (c # p) # ps | [] \<Rightarrow> [[c]]))"

fun join_dot :: "bytes list \<Rightarrow> bytes" where
  "join_dot [] = []"
| "join_dot [p] = p"
| "join_dot (p # q # ps) = p @ 46 # join_dot (q # ps)"

section \<open>Packing\<close>

text \<open>\<open>pack_string\<close> with a length field of \<open>w\<close> bytes.\<close>

definition pack_string :: "nat \<Rightarrow> bytes \<Rightarrow> bytes res" where
  "pack_string w s = rbind (pack_be w (int (length s))) (\<lambda>l. Inr (l @ s))"

text \<open>
  The loop of \<open>pack_domain_name\<close>: \<open>pos\<close> is \<open>buf.tell() + offset\<close>. A known position 0 counts as
  unknown, because it is false.
\<close>

type_synonym name_positions = "bytes \<rightharpoonup> nat"

fun pack_parts :: "bytes list \<Rightarrow> name_positions \<Rightarrow> nat \<Rightarrow> name_positions \<times> bytes res" where
  "pack_parts [] names pos = (names, Inr [0])"
| "pack_parts (p # ps) names pos =
     (let subname = join_dot (p # ps); u = (case names subname of None \<Rightarrow> 0 | Some u \<Rightarrow> u)
      in if u \<noteq> 0 then (names, pack_be 2 (0xc000 + int u))
         else
           (let names = names(subname \<mapsto> pos)
            in case pack_string 1 p of
                 Inl err \<Rightarrow> (names, Inl err)
               | Inr b \<Rightarrow>
                   (case pack_parts ps names (pos + length b) of
                      (names, r) \<Rightarrow> (names, rbind r (\<lambda>rest. Inr (b @ rest))))))"

definition pack_domain_name :: "bytes \<Rightarrow> name_positions \<Rightarrow> nat \<Rightarrow> name_positions \<times> bytes res" where
  "pack_domain_name name names offset = pack_parts (split_dot name) names offset"

section \<open>Loading\<close>

text \<open>\<open>load_string\<close> (\<open>utils/load_string.py\<close>).\<close>

definition load_string :: "bytes \<Rightarrow> nat \<Rightarrow> (nat \<times> bytes) res" where
  "load_string buf offset =
     (if offset < length buf
      then (let n = unat (buf ! offset) in Inr (offset + 1 + n, take n (drop (offset + 1) buf)))
      else Inl IndexError)"

text \<open>
  The loop of \<open>load_domain_name\<close>. It ends because every round visits a position of the buffer
  that was not visited before.
\<close>

function load_loop :: "bytes \<Rightarrow> nat \<Rightarrow> nat set \<Rightarrow> nat option \<Rightarrow> bytes list \<Rightarrow> (nat option \<times> bytes list) res" where
  "load_loop buf offset visited cursor parts =
     (if offset < length buf
      then
        (if offset \<in> visited then Inl (GenericException ''Pointer loop detected'')
         else
           (let n = unat (buf ! offset)
            in if n = 0 then Inr (Some (case cursor of None \<Rightarrow> offset + 1 | Some c \<Rightarrow> c), parts)
               else if 0xc0 \<le> n
               then (if offset + 1 < length buf
                     then load_loop buf ((n - 0xc0) * 256 + unat (buf ! (offset + 1))) (insert offset visited)
                            (Some (case cursor of None \<Rightarrow> offset + 2 | Some c \<Rightarrow> c)) parts
                     else Inl IndexError)
               else load_loop buf (offset + 1 + n) (insert offset visited) cursor
                      (parts @ [take n (drop (offset + 1) buf)])))
      else Inr (cursor, parts))"
  by pat_completeness auto
termination
proof (relation "measure (\<lambda>(buf, offset, visited, cursor, parts). card ({..<length buf} - visited))")
  fix buf :: bytes and offset visited
  assume "offset < length buf" "offset \<notin> visited"
  then have "{..<length buf} - insert offset visited \<subset> {..<length buf} - visited" by auto
  then have "card ({..<length buf} - insert offset visited) < card ({..<length buf} - visited)"
    by (intro psubset_card_mono) auto
  then show "\<And>n cursor parts. ((buf, (n - 0xc0) * 256 + unat (buf ! (offset + 1)), insert offset visited,
        Some (case cursor of None \<Rightarrow> offset + 2 | Some c \<Rightarrow> c), parts), buf, offset, visited, cursor, parts)
      \<in> measure (\<lambda>(buf, offset, visited, cursor, parts). card ({..<length buf} - visited))"
    and "\<And>n cursor parts. ((buf, offset + 1 + n, insert offset visited, cursor,
        parts @ [take n (drop (offset + 1) buf)]), buf, offset, visited, cursor, parts)
      \<in> measure (\<lambda>(buf, offset, visited, cursor, parts). card ({..<length buf} - visited))"
    by simp_all
qed simp

declare load_loop.simps [simp del]

definition load_domain_name :: "bytes \<Rightarrow> nat \<Rightarrow> (nat \<times> bytes) res" where
  "load_domain_name buf offset =
     rbind (load_loop buf offset {} None []) (\<lambda>(cursor, parts).
       case cursor of
         None \<Rightarrow> Inl (GenericException ''Bad data'')
       | Some c \<Rightarrow> rbind (py_decode (join_dot parts)) (\<lambda>name. Inr (c, name)))"

section \<open>Splitting and joining\<close>

lemma split_dot_nonempty [simp]: "split_dot s \<noteq> []"
  by (cases s) (auto split: list.splits)

lemma join_split_dot [simp]: "join_dot (split_dot s) = s"
proof (induction s)
  case (Cons c cs)
  then show ?case by (cases "split_dot cs" rule: join_dot.cases) auto
qed simp

lemma split_dot_no_dot: "46 \<notin> set p \<Longrightarrow> split_dot p = [p]"
  by (induction p) auto

lemma split_dot_append: "46 \<notin> set p \<Longrightarrow> split_dot (p @ 46 # s) = p # split_dot s"
  by (induction p) auto

lemma split_join_dot:
  "ps \<noteq> [] \<Longrightarrow> \<forall>p \<in> set ps. 46 \<notin> set p \<Longrightarrow> split_dot (join_dot ps) = ps"
  by (induction ps rule: join_dot.induct) (auto simp: split_dot_no_dot split_dot_append)

lemma split_dot_labels: "p \<in> set (split_dot s) \<Longrightarrow> 46 \<notin> set p"
proof (induction s arbitrary: p)
  case (Cons c cs)
  then show ?case by (cases "split_dot cs") (auto split: if_splits)
qed simp

lemma join_dot_Cons_length: "ps \<noteq> [] \<Longrightarrow> length (join_dot ps) < length (join_dot (p # ps))"
  by (cases ps) auto

section \<open>Names in a message\<close>

text \<open>
  \<open>name_at buf o ps k e\<close>: at position \<open>o\<close> of \<open>buf\<close> stands the name of the labels \<open>ps\<close>, in \<open>k\<close>
  steps, and what follows the name starts at \<open>e\<close>.
\<close>

inductive name_at :: "bytes \<Rightarrow> nat \<Rightarrow> bytes list \<Rightarrow> nat \<Rightarrow> nat \<Rightarrow> bool" for buf where
  name_end: "o1 < length buf \<Longrightarrow> buf ! o1 = 0 \<Longrightarrow> name_at buf o1 [] 0 (o1 + 1)"
| name_label: "name_at buf (o1 + 1 + n) ps k e \<Longrightarrow> o1 + 1 + n \<le> length buf \<Longrightarrow> unat (buf ! o1) = n \<Longrightarrow> 0 < n \<Longrightarrow> n < 0xc0 \<Longrightarrow>
    name_at buf o1 (take n (drop (o1 + 1) buf) # ps) (Suc k) e"
| name_pointer: "name_at buf ((n - 0xc0) * 256 + unat (buf ! (o1 + 1))) ps k e \<Longrightarrow> o1 + 1 < length buf \<Longrightarrow>
    unat (buf ! o1) = n \<Longrightarrow> 0xc0 \<le> n \<Longrightarrow> name_at buf o1 ps (Suc k) (o1 + 2)"

inductive_cases name_at_cases: "name_at buf o1 ps k e"

lemma name_at_bound: "name_at buf o1 ps k e \<Longrightarrow> o1 < length buf"
  by (induction rule: name_at.induct) auto

lemma name_at_steps: "name_at buf o1 ps k e \<Longrightarrow> name_at buf o1 qs j f \<Longrightarrow> k = j"
proof (induction arbitrary: qs j f rule: name_at.induct)
  case (name_end o1)
  from name_end(3,2) show ?case by (cases rule: name_at_cases) auto
next
  case (name_label o1 n ps k e)
  from name_label(7,2-6) show ?case by (cases rule: name_at_cases) auto
next
  case (name_pointer n o1 ps k e)
  from name_pointer(6,2-5) show ?case by (cases rule: name_at_cases) auto
qed

lemma nth_append_less: "i < length xs \<Longrightarrow> (xs @ ys) ! i = xs ! i"
  by (simp add: nth_append)

lemma take_drop_append: "i + n \<le> length xs \<Longrightarrow> take n (drop i (xs @ ys)) = take n (drop i xs)"
  by simp

lemma name_at_append: "name_at buf o1 ps k e \<Longrightarrow> name_at (buf @ rest) o1 ps k e"
proof (induction rule: name_at.induct)
  case (name_end o1)
  then show ?case by (intro name_at.name_end) (auto simp: nth_append)
next
  case (name_label o1 n ps k e)
  then have "name_at (buf @ rest) o1 (take n (drop (o1 + 1) (buf @ rest)) # ps) (Suc k) e"
    by (intro name_at.name_label) (auto simp: nth_append)
  moreover have "take n (drop (o1 + 1) (buf @ rest)) = take n (drop (o1 + 1) buf)"
    using name_label.hyps by (intro take_drop_append) simp
  ultimately show ?case by (simp only:)
next
  case (name_pointer n o1 ps k e)
  then show ?case by (intro name_at.name_pointer) (auto simp: nth_append)
qed

text \<open>The loader finds the name: positions visited before cannot occur again.\<close>

lemma load_loop_finds:
  assumes "name_at buf o1 ps k e" "\<forall>v \<in> visited. \<forall>qs j f. name_at buf v qs j f \<longrightarrow> k < j"
  shows "load_loop buf o1 visited cursor parts = Inr (Some (case cursor of None \<Rightarrow> e | Some c \<Rightarrow> c), parts @ ps)"
  using assms
proof (induction arbitrary: visited cursor parts rule: name_at.induct)
  case (name_end o1)
  then have "o1 \<notin> visited" using name_at.name_end [of o1 buf] by blast
  then show ?case using name_end by (subst load_loop.simps) simp
next
  case (name_label o1 n ps k e)
  have at: "name_at buf o1 (take n (drop (o1 + 1) buf) # ps) (Suc k) e"
    using name_label by (intro name_at.name_label) auto
  then have new: "o1 \<notin> visited" using name_label.prems by blast
  have "\<forall>v \<in> insert o1 visited. \<forall>qs j f. name_at buf v qs j f \<longrightarrow> k < j"
    using name_label.prems name_at_steps [OF at] by (metis Suc_lessD insertE lessI)
  note ih = name_label.IH [OF this]
  have "o1 < length buf" using name_label.hyps by simp
  then show ?case using new ih name_label.hyps by (subst load_loop.simps) (simp add: Let_def)
next
  case (name_pointer n o1 ps k e)
  have at: "name_at buf o1 ps (Suc k) (o1 + 2)"
    using name_pointer by (intro name_at.name_pointer) auto
  then have new: "o1 \<notin> visited" using name_pointer.prems by blast
  have "\<forall>v \<in> insert o1 visited. \<forall>qs j f. name_at buf v qs j f \<longrightarrow> k < j"
    using name_pointer.prems name_at_steps [OF at] by (metis Suc_lessD insertE lessI)
  note ih = name_pointer.IH [OF this]
  show ?case using new ih name_pointer.hyps by (subst load_loop.simps) (simp add: Let_def)
qed

lemma load_domain_name_at:
  assumes "name_at buf o1 ps k e" "utf8_ok (join_dot ps)"
  shows "load_domain_name buf o1 = Inr (e, join_dot ps)"
  using load_loop_finds [OF assms(1), of "{}" None "[]"] assms(2)
  by (simp add: load_domain_name_def py_decode_def)

section \<open>Packing names\<close>

text \<open>The dictionary of positions is right for a message.\<close>

definition names_ok :: "bytes \<Rightarrow> bytes set \<Rightarrow> name_positions \<Rightarrow> bool" where
  "names_ok buf pending names \<longleftrightarrow>
     (\<forall>s u. names s = Some u \<and> s \<notin> pending \<longrightarrow> u = 0 \<or> (\<exists>k e. name_at buf u (split_dot s) k e))"

text \<open>The labels that fit the length byte and do not look like a reference or the end of the name.\<close>

definition label_ok :: "bytes \<Rightarrow> bool" where
  "label_ok p \<longleftrightarrow> p \<noteq> [] \<and> length p < 0xc0 \<and> 46 \<notin> set p"

definition domain_ok :: "bytes \<Rightarrow> bool" where
  "domain_ok name \<longleftrightarrow> list_all label_ok (split_dot name) \<and> utf8_ok name"

lemma names_ok_append: "names_ok buf pending names \<Longrightarrow> names_ok (buf @ rest) pending names"
  unfolding names_ok_def by (meson name_at_append)

lemma pack_label:
  assumes "label_ok p"
  shows "pack_string 1 p = Inr (word_of_nat (length p) # p)"
  using assms by (auto simp: pack_string_def pack_be_def label_ok_def numeral_2_eq_2)

lemma name_at_label:
  assumes "label_ok p" "name_at (buf @ (word_of_nat (length p) # p) @ rest) (length buf + length p + 1) ps k e"
  shows "name_at (buf @ (word_of_nat (length p) # p) @ rest) (length buf) (p # ps) (Suc k) e"
proof -
  let ?b = "buf @ (word_of_nat (length p) # p) @ rest"
  have n: "unat (?b ! length buf) = length p" using assms(1) by (simp add: label_ok_def)
  have "name_at ?b (length buf) (take (length p) (drop (length buf + 1) ?b) # ps) (Suc k) e"
    by (rule name_label) (use assms n in \<open>auto simp: label_ok_def add.commute\<close>)
  then show ?thesis by simp
qed

lemma pointer_bytes:
  assumes "pack_be 2 (0xc000 + int u) = Inr bs"
  shows "u < 0x4000" "bs = [word_of_nat (0xc0 + u div 256), word_of_nat (u mod 256)]"
proof -
  show u: "u < 0x4000" using assms by (auto simp: pack_be_def split: if_splits)
  have "bs = be_bytes (Suc (Suc 0)) (0xc0 * 256 + u)"
    using assms by (auto simp: pack_be_def numeral_2_eq_2 nat_add_distrib split: if_splits)
  moreover have "(0xc0 * 256 + u) div 256 = 0xc0 + u div 256" "(0xc0 * 256 + u) mod 256 = u mod 256"
    by (rule div_mult_self3, simp, rule mod_mult_self3)
  moreover have "(0xc0 + u div 256) mod 256 = 0xc0 + u div 256" using u by (intro mod_less) linarith
  ultimately show "bs = [word_of_nat (0xc0 + u div 256), word_of_nat (u mod 256)]" by (simp only: be_bytes.simps append.simps)
qed

lemma name_at_pointer:
  assumes "pack_be 2 (0xc000 + int u) = Inr bs" "name_at buf u ps k e"
  shows "name_at (buf @ bs) (length buf) ps (Suc k) (length buf + 2)"
proof -
  note u = pointer_bytes [OF assms(1)]
  have at: "(buf @ bs) ! length buf = word_of_nat (0xc0 + u div 256)" "(buf @ bs) ! (length buf + 1) = word_of_nat (u mod 256)"
    using u(2) by (simp_all add: nth_append)
  have b: "unat ((buf @ bs) ! length buf) = 0xc0 + u div 256" "unat ((buf @ bs) ! (length buf + 1)) = u mod 256"
    unfolding at by (rule unat_word_of_nat_byte, use u(1) in linarith)+
  have "name_at (buf @ bs) u ps k e" by (rule name_at_append [OF assms(2)])
  moreover have "u = (0xc0 + u div 256 - 0xc0) * 256 + unat ((buf @ bs) ! (length buf + 1))" unfolding b by simp
  ultimately have "name_at (buf @ bs) ((0xc0 + u div 256 - 0xc0) * 256 + unat ((buf @ bs) ! (length buf + 1))) ps k e" by (simp only:)
  then show ?thesis by (rule name_pointer) (use u(2) b(1) in simp_all)
qed

lemma pack_parts_ok:
  assumes "list_all label_ok ps" "names_ok buf pending names" "\<forall>s \<in> pending. length (join_dot ps) < length s"
    "pack_parts ps names (length buf) = (names', Inr bs)"
  shows "(\<exists>k. name_at (buf @ bs) (length buf) ps k (length buf + length bs)) \<and> names_ok (buf @ bs) pending names' \<and>
    (\<forall>s \<in> pending. names' s = names s)"
  using assms
proof (induction ps arbitrary: names buf pending bs)
  case Nil
  then have "bs = [0]" "names' = names" by simp_all
  then show ?case using name_end [of "length buf" "buf @ [0]"] names_ok_append [OF Nil.prems(2)] by auto
next
  case (Cons p ps)
  let ?s = "join_dot (p # ps)"
  have split: "split_dot ?s = p # ps"
    using Cons.prems(1) by (intro split_join_dot) (auto simp: list_all_iff label_ok_def)
  have free: "?s \<notin> pending" using Cons.prems(3) by blast
  show ?case
  proof (cases "case names ?s of None \<Rightarrow> 0 | Some u \<Rightarrow> u")
    case 0
    let ?n = "names(?s \<mapsto> length buf)"
    let ?b = "word_of_nat (length p) # p"
    have p: "label_ok p" using Cons.prems(1) by simp
    obtain r where r: "pack_parts ps ?n (length (buf @ ?b)) = (names', Inr r)" "bs = ?b @ r"
      using Cons.prems(4) 0 pack_label [OF p] by (auto split: prod.splits)
    have 1: "names_ok (buf @ ?b) (insert ?s pending) ?n"
      using names_ok_append [OF Cons.prems(2), of ?b] by (auto simp: names_ok_def)
    have 2: "\<forall>s \<in> insert ?s pending. length (join_dot ps) < length s"
      using Cons.prems(3) p by (cases ps) (auto simp: label_ok_def)
    have "list_all label_ok ps" using Cons.prems(1) by simp
    note ih = Cons.IH [OF this 1 2 r(1)]
    then obtain k where k: "name_at ((buf @ ?b) @ r) (length (buf @ ?b)) ps k (length (buf @ ?b) + length r)"
      "names_ok ((buf @ ?b) @ r) (insert ?s pending) names'" "\<forall>s \<in> insert ?s pending. names' s = ?n s"
      by blast
    have at: "name_at (buf @ bs) (length buf) (p # ps) (Suc k) (length buf + length bs)"
      using name_at_label [OF p, of buf r ps k "length (buf @ ?b) + length r"] k(1) r(2) by (simp add: add.assoc)
    have "names_ok (buf @ bs) pending names'"
      using k(2,3) at split r(2) free unfolding names_ok_def by (metis append.assoc fun_upd_same insertCI insertE option.inject)
    with at k(3) free show ?thesis by (metis fun_upd_other insertCI)
  next
    case (Suc u)
    then have u: "names ?s = Some (Suc u)" by (cases "names ?s") auto
    then have b: "pack_be 2 (0xc000 + int (Suc u)) = Inr bs" "names' = names" using Cons.prems(4) by auto
    obtain k e where "name_at buf (Suc u) (p # ps) k e"
      using Cons.prems(2) u free split unfolding names_ok_def by (metis nat.distinct(1))
    then have "name_at (buf @ bs) (length buf) (p # ps) (Suc k) (length buf + 2)" by (rule name_at_pointer [OF b(1)])
    moreover have "length bs = 2" using b(1) unpack_pack_be by blast
    ultimately show ?thesis using names_ok_append [OF Cons.prems(2)] b(2) by metis
  qed
qed

lemma pack_domain_name_ok:
  assumes "domain_ok name" "names_ok buf {} names" "pack_domain_name name names (length buf) = (names', Inr bs)"
  shows "load_domain_name (buf @ bs @ rest) (length buf) = Inr (length buf + length bs, name)" "names_ok (buf @ bs) {} names'"
proof -
  have l: "list_all label_ok (split_dot name)" using assms(1) by (simp add: domain_ok_def)
  note p = pack_parts_ok [OF l assms(2) _ assms(3) [unfolded pack_domain_name_def]]
  then obtain k where "name_at (buf @ bs) (length buf) (split_dot name) k (length buf + length bs)" by blast
  then have "name_at ((buf @ bs) @ rest) (length buf) (split_dot name) k (length buf + length bs)" by (rule name_at_append)
  from load_domain_name_at [OF this] show "load_domain_name (buf @ bs @ rest) (length buf) = Inr (length buf + length bs, name)"
    using assms(1) by (simp add: domain_ok_def)
  show "names_ok (buf @ bs) {} names'" using p by blast
qed

end
