(* ===== verification/Http_Messages.thy ===== *)
theory Http_Messages
  imports Http1_Request Dns_Names
begin

text \<open>
  The HTTP messages of the nodes (\<open>distributed/models/http\<close>): \<open>HTTPRequest\<close>, what a client sends, with the two
  parsers; \<open>HTTPMessage\<close>, what a server answers with; and \<open>Request\<close>, the lazily parsed view of a request
  the handlers of a server get. A \<open>str\<close> is its UTF-8 encoding; its characters are read off by
  \<open>text_chars\<close>. What these classes take from libraries (lower case, JSON, cookies) is a record
  of functions. \<open>int\<close> of digits outside ASCII is not modelled.
\<close>

section \<open>Text\<close>

type_synonym headers = "(bytes \<times> bytes) list"

function text_chars :: "bytes \<Rightarrow> bytes list" where
  "text_chars [] = []"
| "text_chars (b # bs) = (b # takeWhile cont_byte bs) # text_chars (dropWhile cont_byte bs)"
  by pat_completeness auto
termination by (relation "measure length") (simp_all add: length_dropWhile_le less_Suc_eq_le)

text \<open>The characters \<open>str.strip\<close> removes.\<close>

definition text_spaces :: "bytes list" where
  "text_spaces = [[9], [10], [11], [12], [13], [28], [29], [30], [31], [32], [0xC2, 0x85], [0xC2, 0xA0], [0xE1, 0x9A, 0x80],
     [0xE2, 0x80, 0x80], [0xE2, 0x80, 0x81], [0xE2, 0x80, 0x82], [0xE2, 0x80, 0x83], [0xE2, 0x80, 0x84], [0xE2, 0x80, 0x85],
     [0xE2, 0x80, 0x86], [0xE2, 0x80, 0x87], [0xE2, 0x80, 0x88], [0xE2, 0x80, 0x89], [0xE2, 0x80, 0x8A], [0xE2, 0x80, 0xA8],
     [0xE2, 0x80, 0xA9], [0xE2, 0x80, 0xAF], [0xE2, 0x81, 0x9F], [0xE3, 0x80, 0x80]]"

definition text_strip :: "bytes \<Rightarrow> bytes" where
  "text_strip t = (let P = (\<lambda>c. c \<in> set text_spaces) in concat (rev (dropWhile P (rev (dropWhile P (text_chars t))))))"

definition text_len :: "bytes \<Rightarrow> nat" where
  "text_len t = length (text_chars t)"

definition dec_int :: "int \<Rightarrow> bytes" where
  "dec_int z = (if z < 0 then 45 # decimal (nat (- z)) else decimal (nat z))"

fun push_head :: "byte \<Rightarrow> bytes list \<Rightarrow> bytes list" where
  "push_head b (p # ps) = (b # p) # ps"
| "push_head b [] = [[b]]"

text \<open>\<open>data.split(b'\r\n')\<close>, and \<open>split\<close> at one character.\<close>

fun split_crlf :: "bytes \<Rightarrow> bytes list" where
  "split_crlf [] = [[]]"
| "split_crlf [b] = [[b]]"
| "split_crlf (b # c # bs) = (if b = 13 \<and> c = 10 then [] # split_crlf bs else push_head b (split_crlf (c # bs)))"

fun split_char :: "byte \<Rightarrow> bytes \<Rightarrow> bytes list" where
  "split_char s [] = [[]]"
| "split_char s (b # bs) = (if b = s then [] # split_char s bs else push_head b (split_char s bs))"

fun join_by :: "bytes \<Rightarrow> bytes list \<Rightarrow> bytes" where
  "join_by s [] = []"
| "join_by s [p] = p"
| "join_by s (p # q # ps) = p @ s @ join_by s (q # ps)"

section \<open>Messages\<close>

record 'j http_lib =
  str_lower :: "bytes \<Rightarrow> bytes"
  json_loads :: "bytes \<Rightarrow> 'j option"
  json_loads_bytes :: "bytes \<Rightarrow> 'j option"
  json_true :: "'j \<Rightarrow> bool"
  json_len :: "'j \<Rightarrow> nat option"
  json_str :: "'j \<Rightarrow> bytes"
  load_cookies :: "bytes \<Rightarrow> headers res"

datatype 'j data_value = MsgNone | MsgJson 'j | MsgText bytes

record 'j http_message =
  hm_protocol :: bytes
  hm_path :: "bytes option"
  hm_method :: "bytes option"
  hm_status :: "int option"
  hm_status_message :: "bytes option"
  hm_headers :: headers
  hm_data :: "'j data_value"
  hm_error :: "bytes option"

definition HTTP_1_1 :: bytes where
  "HTTP_1_1 = b_lit ''HTTP/1.1''"

definition HTTPMessage :: "'j http_message" where
  "HTTPMessage = \<lparr>hm_protocol = HTTP_1_1, hm_path = None, hm_method = None, hm_status = None, hm_status_message = None,
     hm_headers = [], hm_data = MsgNone, hm_error = None\<rparr>"

text \<open>The field \<open>data: Optional[Union[Json, StrictStr]]\<close> takes a text that is JSON as the value it stands for.\<close>

definition message_data :: "'j http_lib \<Rightarrow> bytes \<Rightarrow> 'j data_value" where
  "message_data L s = (case json_loads L s of Some j \<Rightarrow> MsgJson j | None \<Rightarrow> MsgText s)"

definition crlf :: bytes where
  "crlf = [13, 10]"

definition length_header :: "nat \<Rightarrow> bytes" where
  "length_header n = b_lit ''content-length: '' @ decimal n"

definition reply_reason :: "'j http_message \<Rightarrow> bytes" where
  "reply_reason m = (case hm_error m of Some e \<Rightarrow> if e = [] then b_lit ''OK'' else e | None \<Rightarrow> b_lit ''OK'')"

definition status_text :: "int option \<Rightarrow> bytes" where
  "status_text s = (case s of None \<Rightarrow> b_lit ''None'' | Some n \<Rightarrow> dec_int n)"

definition extra_headers :: "headers \<Rightarrow> bytes" where
  "extra_headers hs = concat (map (\<lambda>(k, v). crlf @ k @ b_lit '': '' @ v) hs)"

definition prepare_response :: "'j http_lib \<Rightarrow> 'j http_message \<Rightarrow> bytes res" where
  "prepare_response L m =
     rbind (case hm_data m of
         MsgJson j \<Rightarrow>
           (if json_true L j then (case json_len L j of None \<Rightarrow> Inl TypeError | Some n \<Rightarrow> Inr (n, json_str L j)) else Inr (0, []))
       | MsgText t \<Rightarrow> Inr (text_len t, t)
       | MsgNone \<Rightarrow> Inr (0, [])) (\<lambda>(n, encoded).
     Inr (HTTP_1_1 @ [32] @ status_text (hm_status m) @ [32] @ reply_reason m @ crlf @ length_header n @
       extra_headers (hm_headers m) @ crlf @ crlf @ encoded))"

section \<open>Parsing\<close>

definition split_header_line :: "bytes \<Rightarrow> (bytes \<times> bytes) res" where
  "split_header_line l =
     rbind (py_decode l) (\<lambda>t. if 58 \<in> set t then Inr (takeWhile (\<lambda>b. b \<noteq> 58) t, tl (dropWhile (\<lambda>b. b \<noteq> 58) t)) else Inl ValueError)"

text \<open>
  The loop over the lines behind the first one, with the headers read so far and the number of lines read; an
  empty line ends it. The headers are returned as an exception leaves them.
\<close>

fun header_scan :: "'j http_lib \<Rightarrow> bytes list \<Rightarrow> nat \<Rightarrow> headers \<Rightarrow> headers \<times> nat res" where
  "header_scan L [] i hs = (hs, Inr i)"
| "header_scan L (l # ls) i hs =
     (if l = [] then (hs, Inr (i + 1))
      else case split_header_line l of
        Inl e \<Rightarrow> (hs, Inl e)
      | Inr (key, val) \<Rightarrow> header_scan L ls (i + 1) (AList.update (str_lower L key) (text_strip val) hs))"

definition parsed_lines :: "'j http_lib \<Rightarrow> bytes \<Rightarrow> (headers \<times> bytes) res" where
  "parsed_lines L data =
     (let response = split_crlf data in
      case header_scan L (tl response) 0 [] of
        (hs, Inl e) \<Rightarrow> Inl e
      | (hs, Inr i) \<Rightarrow> Inr (hs, strip (concat (drop (i + 1) response))))"

definition words3 :: "bytes \<Rightarrow> (bytes \<times> bytes \<times> bytes) res" where
  "words3 line = rbind (py_decode line) (\<lambda>t. case split_char 32 t of [a, b, c] \<Rightarrow> Inr (a, b, c) | _ \<Rightarrow> Inl ValueError)"

text \<open>\<open>HTTPRequest.parse\<close>, the client's parser of a reply.\<close>

definition parse_reply :: "'j http_lib \<Rightarrow> bytes \<Rightarrow> 'j http_message res" where
  "parse_reply L data =
     rbind (parsed_lines L data) (\<lambda>(hs, body).
     rbind (words3 (hd (split_crlf data))) (\<lambda>(request_type, status, message).
     rbind (py_int status) (\<lambda>n.
     rbind (py_decode body) (\<lambda>t.
       Inr (HTTPMessage\<lparr>hm_protocol := request_type, hm_status := Some n, hm_status_message := Some message, hm_headers := hs,
         hm_data := message_data L t\<rparr>)))))"

definition message_methods :: "bytes list" where
  "message_methods = map b_lit [''GET'', ''POST'', ''HEAD'', ''OPTIONS'', ''PUT'', ''PATCH'', ''DELETE'']"

definition root_path :: "bytes \<Rightarrow> bytes" where
  "root_path path = (if path = [] then [47] else path)"

definition parse_request :: "'j http_lib \<Rightarrow> bytes \<Rightarrow> 'j http_message res" where
  "parse_request L data =
     rbind (parsed_lines L data) (\<lambda>(hs, body).
     rbind (words3 (hd (split_crlf data))) (\<lambda>(method, path, request_type).
     rbind (py_decode body) (\<lambda>t.
       if method \<in> set message_methods
       then Inr (HTTPMessage\<lparr>hm_method := Some method, hm_path := Some (root_path path), hm_protocol := request_type,
         hm_headers := hs, hm_data := message_data L t\<rparr>)
       else Inl ValueError)))"

section \<open>Requests of a client\<close>

datatype client_data = ClientNone | ClientText bytes | ClientMessage bytes

text \<open>The address of \<open>url\<close> is given by its path and its host; \<open>ClientMessage\<close> holds \<open>json.dumps(data.to_data())\<close>.\<close>

record client_request =
  cr_host :: bytes
  cr_url_path :: bytes
  cr_method :: bytes
  cr_params :: headers
  cr_headers :: headers
  cr_data :: client_data

text \<open>\<open>for name, value in self.params\<close> runs over the keys: each key is taken apart into two characters.\<close>

fun param_pairs :: "bytes list \<Rightarrow> bytes list res" where
  "param_pairs [] = Inr []"
| "param_pairs (k # ks) =
     (case text_chars k of
        [name, val] \<Rightarrow> rbind (param_pairs ks) (\<lambda>ps. Inr ((name @ [61] @ val) # ps))
      | _ \<Rightarrow> Inl ValueError)"

definition client_path :: "client_request \<Rightarrow> bytes res" where
  "client_path r =
     (if cr_params r = [] then Inr (cr_url_path r)
      else rbind (param_pairs (map fst (cr_params r))) (\<lambda>ps. Inr (cr_url_path r @ [63] @ join_by [38] ps)))"

definition header_line :: "bytes \<times> bytes \<Rightarrow> bytes" where
  "header_line f = fst f @ b_lit '': '' @ snd f"

definition prepare_request :: "client_request \<Rightarrow> bytes res" where
  "prepare_request r =
     rbind (client_path r) (\<lambda>path.
     Inr (join_by crlf
       ([cr_method r @ [32] @ path @ [32] @ HTTP_1_1, b_lit ''host: '' @ cr_host r] @ map header_line (cr_headers r) @
        (case cr_data r of
           ClientMessage t \<Rightarrow> [b_lit ''content-type: application/msync''] @ [crlf] @ (if t = [] then [] else [t])
         | ClientText t \<Rightarrow> if t = [] then [crlf] else [length_header (text_len t), crlf, t]
         | ClientNone \<Rightarrow> [crlf]))))"

section \<open>Requests in a server\<close>

datatype 'j body_value = RawBody bytes | JsonBody 'j

record 'j request =
  rq_path :: bytes
  rq_method :: bytes
  rq_query :: "bytes option"
  rq_raw :: "bytes list"
  rq_headers :: headers
  rq_params :: headers
  rq_content :: "bytes option"
  rq_data :: "'j body_value option"
  rq_line :: int
  rq_cookies :: "headers option"

definition Request :: "bytes \<Rightarrow> bytes \<Rightarrow> bytes option \<Rightarrow> bytes list \<Rightarrow> 'j request" where
  "Request path method query lines = \<lparr>rq_path = path, rq_method = method, rq_query = query, rq_raw = lines, rq_headers = [],
     rq_params = [], rq_content = None, rq_data = None, rq_line = -1, rq_cookies = None\<rparr>"

definition parsed_headers :: "'j http_lib \<Rightarrow> 'j request \<Rightarrow> 'j request \<times> headers res" where
  "parsed_headers L r =
     (if rq_line r = -1
      then (case header_scan L (tl (rq_raw r)) 0 (rq_headers r) of
              (hs, Inl e) \<Rightarrow> (r\<lparr>rq_headers := hs\<rparr>, Inl e)
            | (hs, Inr i) \<Rightarrow> (r\<lparr>rq_headers := hs, rq_line := int i + 1\<rparr>, Inr hs))
      else (r, Inr (rq_headers r)))"

definition request_cookies :: "'j http_lib \<Rightarrow> 'j request \<Rightarrow> 'j request \<times> headers res" where
  "request_cookies L r =
     (case parsed_headers L r of
        (r, Inl e) \<Rightarrow> (r, Inl e)
      | (r, Inr hs) \<Rightarrow>
          (case rq_cookies r of
             Some cs \<Rightarrow> (r, Inr cs)
           | None \<Rightarrow>
               (case map_of hs (b_lit ''cookie'') of
                  Some c \<Rightarrow>
                    if c = [] then (r\<lparr>rq_cookies := Some []\<rparr>, Inr [])
                    else (case load_cookies L c of
                            Inl e \<Rightarrow> (r\<lparr>rq_cookies := Some []\<rparr>, Inl e)
                          | Inr cs \<Rightarrow> (r\<lparr>rq_cookies := Some cs\<rparr>, Inr cs))
                | None \<Rightarrow> (r\<lparr>rq_cookies := Some []\<rparr>, Inr []))))"

text \<open>The loop of \<open>params\<close>.\<close>

fun params_loop :: "bytes list \<Rightarrow> headers \<Rightarrow> headers \<times> unit res" where
  "params_loop [] d = (d, Inr ())"
| "params_loop (p # ps) d =
     (case split_char 61 p of [k, v] \<Rightarrow> params_loop ps (AList.update k v d) | _ \<Rightarrow> (d, Inl ValueError))"

definition request_params :: "'j request \<Rightarrow> 'j request \<times> headers res" where
  "request_params r =
     (if rq_params r = []
      then (case rq_query r of
              None \<Rightarrow> (r, Inl AttributeError)
            | Some q \<Rightarrow>
                (case params_loop (split_char 38 q) [] of
                   (d, Inl e) \<Rightarrow> (r\<lparr>rq_params := d\<rparr>, Inl e)
                 | (d, Inr _) \<Rightarrow> (r\<lparr>rq_params := d\<rparr>, Inr d)))
      else (r, Inr (rq_params r)))"

definition request_content :: "'j request \<Rightarrow> 'j request \<times> bytes" where
  "request_content r =
     (case rq_content r of
        Some c \<Rightarrow> (r, c)
      | None \<Rightarrow>
          (let c = strip (concat (py_slice (rq_raw r) (rq_line r) (int (length (rq_raw r))))) in (r\<lparr>rq_content := Some c\<rparr>, c)))"

definition set_content :: "bytes \<Rightarrow> 'j request \<Rightarrow> 'j request" where
  "set_content c r = r\<lparr>rq_content := Some c\<rparr>"

text \<open>\<open>body\<close>: the bytes are kept before they are parsed.\<close>

definition request_body :: "'j http_lib \<Rightarrow> 'j request \<Rightarrow> 'j request \<times> 'j body_value res" where
  "request_body L r =
     (case parsed_headers L r of
        (r, Inl e) \<Rightarrow> (r, Inl e)
      | (r, Inr hs) \<Rightarrow>
          (case rq_data r of
             Some d \<Rightarrow> (r, Inr d)
           | None \<Rightarrow>
               (case request_content r of
                  (r, c) \<Rightarrow>
                    if map_of hs (b_lit ''content-type'') = Some (b_lit ''application/json'')
                    then (case json_loads_bytes L c of
                            Some j \<Rightarrow> (r\<lparr>rq_data := Some (JsonBody j)\<rparr>, Inr (JsonBody j))
                          | None \<Rightarrow> (r\<lparr>rq_data := Some (RawBody c)\<rparr>, Inl ValueError))
                    else (r\<lparr>rq_data := Some (RawBody c)\<rparr>, Inr (RawBody c)))))"

section \<open>Splitting and stripping\<close>

lemma split_crlf_line: "10 \<notin> set l \<Longrightarrow> split_crlf (l @ 13 # 10 # rest) = l # split_crlf rest"
proof (induction l)
  case (Cons a l)
  then show ?case by (cases l) auto
qed simp

lemma split_crlf_last: "10 \<notin> set l \<Longrightarrow> split_crlf l = [l]"
proof (induction l)
  case (Cons a l)
  then show ?case by (cases l) auto
qed simp

lemma split_crlf_lines:
  "\<forall>l \<in> set xs. 10 \<notin> set l \<Longrightarrow> split_crlf (concat (map (\<lambda>l. l @ crlf) xs) @ rest) = xs @ split_crlf rest"
  by (induction xs) (simp_all add: crlf_def split_crlf_line)

lemma split_crlf_nonempty: "split_crlf bs \<noteq> []"
proof (induction bs rule: split_crlf.induct)
  case (3 b c bs)
  then show ?case by (cases "split_crlf (c # bs)") auto
qed simp_all

lemma split_char_part: "s \<notin> set a \<Longrightarrow> split_char s (a @ s # b) = a # split_char s b"
  by (induction a) auto

lemma split_char_last: "s \<notin> set a \<Longrightarrow> split_char s a = [a]"
  by (induction a) auto

lemma split_char_more: "s \<in> set a \<Longrightarrow> \<exists>p q ps. split_char s a = p # q # ps"
proof (induction a)
  case (Cons b a)
  show ?case
  proof (cases "b = s")
    case True
    then show ?thesis by (cases a) (auto, metis push_head.elims)
  next
    case False
    then obtain p q ps where "split_char s a = p # q # ps" using Cons by auto
    then show ?thesis using False by simp
  qed
qed simp

lemma utf8_ok_append: "utf8_ok a \<Longrightarrow> utf8_ok b \<Longrightarrow> utf8_ok (a @ b)"
  by (induction a rule: utf8_ok.induct) (auto simp: Let_def split: if_splits list.splits)

lemma utf8_ok_ascii: "\<forall>x \<in> set a. unat x < 128 \<Longrightarrow> utf8_ok a"
  by (induction a) (auto simp: Let_def)

lemma utf8_ok_hd: "utf8_ok (b # bs) \<Longrightarrow> \<not> cont_byte b"
  by (auto simp: cont_byte_def Let_def split: if_splits)

lemma text_chars_step: "utf8_ok v \<Longrightarrow> text_chars (b # v) = [b] # text_chars v"
  by (cases v) (auto simp del: utf8_ok.simps(2) dest: utf8_ok_hd)

declare text_chars.simps(2) [simp del]

lemma concat_text_chars: "concat (text_chars t) = t"
  by (induction t rule: text_chars.induct) (simp_all add: text_chars.simps(2))

lemma text_strip_space: "utf8_ok v \<Longrightarrow> text_strip (32 # v) = text_strip v"
  by (simp add: text_strip_def text_chars_step text_spaces_def Let_def)

lemma text_strip_ascii:
  assumes "\<forall>x \<in> set t. 32 < unat x \<and> unat x < 128"
  shows "text_strip t = t"
proof -
  have chars: "text_chars t = map (\<lambda>b. [b]) t" using assms
  proof (induction t)
    case (Cons b t)
    then have "utf8_ok t" by (intro utf8_ok_ascii) auto
    then show ?case using Cons by (simp add: text_chars_step)
  qed simp
  have "dropWhile (\<lambda>c. c \<in> set text_spaces) (map (\<lambda>b. [b]) xs) = map (\<lambda>b. [b]) xs" if "set xs \<subseteq> set t" for xs
    using that assms by (cases xs) (auto simp: text_spaces_def)
  then show ?thesis by (simp add: text_strip_def chars Let_def rev_map)
qed

section \<open>Lines of headers\<close>

definition wf_line :: "bytes \<times> bytes \<Rightarrow> bool" where
  "wf_line f \<longleftrightarrow> 58 \<notin> set (fst f) \<and> 10 \<notin> set (fst f) \<and> 10 \<notin> set (snd f) \<and> utf8_ok (fst f) \<and> utf8_ok (snd f) \<and> text_strip (snd f) = snd f"

definition dict_of :: "'j http_lib \<Rightarrow> headers \<Rightarrow> headers" where
  "dict_of L fs = foldl (\<lambda>d f. AList.update (str_lower L (fst f)) (snd f) d) [] fs"

lemma b_lit_simps [simp]: "b_lit [] = []" "b_lit (c # cs) = of_char c # b_lit cs"
  by (simp_all add: b_lit_def)

lemma split_header_wf: "wf_line f \<Longrightarrow> split_header_line (header_line f) = Inr (fst f, 32 # snd f)"
  using utf8_ok_append [of "fst f" "58 # 32 # snd f"]
  by (auto simp: split_header_line_def header_line_def wf_line_def py_decode_def Let_def takeWhile_append dropWhile_append)

lemma header_scan_lines:
  assumes "\<forall>f \<in> set fs. wf_line f"
  shows "header_scan L (map header_line fs @ [] # rest) i d =
    (foldl (\<lambda>d f. AList.update (str_lower L (fst f)) (snd f) d) d fs, Inr (i + length fs + 1))"
  using assms
proof (induction fs arbitrary: i d)
  case (Cons f fs)
  then have f: "wf_line f" by simp
  then have "header_line f \<noteq> []" "text_strip (32 # snd f) = snd f"
    by (simp_all add: header_line_def wf_line_def text_strip_space)
  then show ?case using Cons.IH [of "i + 1"] Cons.prems by (simp add: split_header_wf [OF f])
qed simp

lemma no_newline: "wf_line f \<Longrightarrow> 10 \<notin> set (header_line f)"
  by (auto simp: wf_line_def header_line_def)

lemma parsed_lines_wf:
  assumes "\<forall>f \<in> set fs. wf_line f" "10 \<notin> set first"
  shows "parsed_lines L (concat (map (\<lambda>l. l @ crlf) (first # map header_line fs)) @ crlf @ rest) =
      Inr (dict_of L fs, strip (concat (split_crlf rest)))"
    "hd (split_crlf (concat (map (\<lambda>l. l @ crlf) (first # map header_line fs)) @ crlf @ rest)) = first"
    "split_crlf (concat (map (\<lambda>l. l @ crlf) (first # map header_line fs)) @ crlf @ rest) = first # map header_line fs @ [] # split_crlf rest"
proof -
  have "\<forall>l \<in> set (first # map header_line fs @ [[]]). 10 \<notin> set l" using assms no_newline by auto
  from split_crlf_lines [OF this, of rest]
  have s: "split_crlf (concat (map (\<lambda>l. l @ crlf) (first # map header_line fs)) @ crlf @ rest) = first # map header_line fs @ [] # split_crlf rest"
    by simp
  show "split_crlf (concat (map (\<lambda>l. l @ crlf) (first # map header_line fs)) @ crlf @ rest) = first # map header_line fs @ [] # split_crlf rest"
    by (rule s)
  show "hd (split_crlf (concat (map (\<lambda>l. l @ crlf) (first # map header_line fs)) @ crlf @ rest)) = first" unfolding s by simp
  show "parsed_lines L (concat (map (\<lambda>l. l @ crlf) (first # map header_line fs)) @ crlf @ rest) = Inr (dict_of L fs, strip (concat (split_crlf rest)))"
    unfolding parsed_lines_def s Let_def by (simp add: header_scan_lines [OF assms(1)] dict_of_def)
qed

lemma words3_line:
  assumes "32 \<notin> set a" "32 \<notin> set b" "utf8_ok a" "utf8_ok b" "utf8_ok c"
  shows "words3 (a @ [32] @ b @ [32] @ c) = (if 32 \<in> set c then Inl ValueError else Inr (a, b, c))"
proof -
  have u: "utf8_ok (a @ 32 # b @ 32 # c)" using assms by (intro utf8_ok_append) (simp_all add: Let_def utf8_ok_append)
  show ?thesis
  proof (cases "32 \<in> set c")
    case True
    then obtain p q ps where "split_char 32 c = p # q # ps" using split_char_more by blast
    then show ?thesis using assms True u by (simp add: words3_def py_decode_def split_char_part)
  next
    case False
    then show ?thesis using assms u by (simp add: words3_def py_decode_def split_char_part split_char_last)
  qed
qed

section \<open>Replies\<close>

lemma decimal_ascii: "x \<in> set (decimal n) \<Longrightarrow> 32 < unat x \<and> unat x < 128"
  using decimal_digits [of n] by (auto simp: word_le_nat_alt)

lemma dec_int_ascii: "x \<in> set (dec_int z) \<Longrightarrow> 32 < unat x \<and> unat x < 128"
  using decimal_ascii by (auto simp: dec_int_def split: if_splits)

lemma py_int_dec_int: "py_int (dec_int z) = Inr z"
proof -
  have s: "strip (dec_int z) = dec_int z" by (rule strip_no_space) (use dec_int_ascii in \<open>force simp: is_space_def word_le_nat_alt\<close>)
  show ?thesis
  proof (cases "z < 0")
    case True
    then show ?thesis unfolding py_int_def s Let_def by (simp add: dec_int_def int_decimal)
  next
    case False
    obtain b bs where d: "decimal (nat z) = b # bs" using decimal_nonempty by (cases "decimal (nat z)") auto
    then have "b \<noteq> 45" "b \<noteq> 43" using decimal_no_space [of b "nat z"] by simp_all
    then show ?thesis using False int_decimal [of "nat z"] unfolding py_int_def s Let_def by (simp add: dec_int_def d)
  qed
qed

definition content_length_field :: "bytes \<Rightarrow> bytes \<times> bytes" where
  "content_length_field t = (b_lit ''content-length'', decimal (text_len t))"

lemma content_length_wf: "wf_line (content_length_field t)"
  using decimal_ascii [of _ "text_len t"] text_strip_ascii [of "decimal (text_len t)"]
  by (force simp: wf_line_def content_length_field_def intro!: utf8_ok_ascii)

lemma extra_headers_lines: "extra_headers hs @ crlf = crlf @ concat (map (\<lambda>l. l @ crlf) (map header_line hs))"
  by (induction hs) (auto simp: extra_headers_def header_line_def)

lemma text_len_nil [simp]: "text_len [] = 0"
  by (simp add: text_len_def)

lemma prepare_response_lines:
  assumes "hm_data m = (if t = [] then MsgNone else MsgText t)"
  shows "prepare_response L m = Inr (concat (map (\<lambda>l. l @ crlf)
    ((HTTP_1_1 @ [32] @ status_text (hm_status m) @ [32] @ reply_reason m) # map header_line (content_length_field t # hm_headers m))) @ crlf @ t)"
  using assms extra_headers_lines [of "hm_headers m"]
  by (simp add: prepare_response_def length_header_def content_length_field_def header_line_def [of "(_, _)"])

definition plain_lib :: "unit http_lib" where
  "plain_lib = \<lparr>str_lower = lower, json_loads = (\<lambda>_. None), json_loads_bytes = (\<lambda>_. None), json_true = (\<lambda>_. False),
     json_len = (\<lambda>_. None), json_str = (\<lambda>_. []), load_cookies = (\<lambda>_. Inr [])\<rparr>"

definition example_rejection :: "unit http_message" where
  "example_rejection = HTTPMessage\<lparr>hm_status := Some 429, hm_error := Some (b_lit ''Too Many Requests'')\<rparr>"

text \<open>What a client reads of the reply of a server: the status, the headers and the body; but a reason with a
  space in it, as every error a server sends but one has, makes the reply unreadable.\<close>

theorem reply_parsed:
  assumes "prepare_response L m = Inr bs" "hm_status m = Some n" "hm_data m = (if t = [] then MsgNone else MsgText t)"
    "\<forall>f \<in> set (hm_headers m). wf_line f" "utf8_ok (reply_reason m)" "10 \<notin> set (reply_reason m)" "utf8_ok t" "10 \<notin> set t" "strip t = t"
  shows "parse_reply L bs =
    (if 32 \<in> set (reply_reason m) then Inl ValueError
     else Inr (HTTPMessage\<lparr>hm_status := Some n, hm_status_message := Some (reply_reason m),
       hm_headers := dict_of L (content_length_field t # hm_headers m), hm_data := message_data L t\<rparr>))"
proof -
  let ?first = "HTTP_1_1 @ [32] @ dec_int n @ [32] @ reply_reason m"
  have bs: "bs = concat (map (\<lambda>l. l @ crlf) (?first # map header_line (content_length_field t # hm_headers m))) @ crlf @ t"
    using prepare_response_lines [OF assms(3), of L] assms(1,2) by (simp add: status_text_def)
  have d: "10 \<notin> set (dec_int n)" "32 \<notin> set (dec_int n)" "utf8_ok (dec_int n)"
    using dec_int_ascii by (fastforce intro: utf8_ok_ascii)+
  have n: "10 \<notin> set ?first" using d assms(6) by (simp add: HTTP_1_1_def)
  have w: "\<forall>f \<in> set (content_length_field t # hm_headers m). wf_line f" using assms(4) content_length_wf by simp
  have "words3 ?first = (if 32 \<in> set (reply_reason m) then Inl ValueError else Inr (HTTP_1_1, dec_int n, reply_reason m))"
    by (rule words3_line) (use d assms(5) in \<open>simp_all add: HTTP_1_1_def Let_def\<close>)
  then show ?thesis
    unfolding parse_reply_def bs parsed_lines_wf [OF w n]
    using assms(7,8,9) by (simp add: py_int_dec_int split_crlf_last py_decode_def HTTPMessage_def)
qed

theorem reply_parsed_witness:
  "\<exists>bs. prepare_response plain_lib example_rejection = Inr bs \<and> parse_reply plain_lib bs = Inl ValueError"
proof -
  obtain bs where bs: "prepare_response plain_lib example_rejection = Inr bs"
    by (simp add: prepare_response_def example_rejection_def HTTPMessage_def)
  show ?thesis
    using bs reply_parsed [OF bs, of 429 "[]"]
    by (simp add: example_rejection_def HTTPMessage_def reply_reason_def Let_def strip_by_def)
qed

lemma text_len_le: "text_len t \<le> length t"
proof (induction t rule: text_chars.induct)
  case (2 b bs)
  then show ?case using length_dropWhile_le [of cont_byte bs] by (simp add: text_len_def text_chars.simps(2))
qed simp

lemma text_len_eq: "text_len t = length t \<longleftrightarrow> (\<forall>x \<in> set (tl t). \<not> cont_byte x)"
proof (induction t rule: text_chars.induct)
  case (2 b bs)
  show ?case
  proof (cases "takeWhile cont_byte bs = []")
    case True
    then have d: "dropWhile cont_byte bs = bs" by (metis append_Nil takeWhile_dropWhile_id)
    from True have "bs = [] \<or> \<not> cont_byte (hd bs)" by (cases bs) (auto split: if_splits)
    then have "(\<forall>x \<in> set bs. \<not> cont_byte x) = (\<forall>x \<in> set (tl bs). \<not> cont_byte x)" by (cases bs) auto
    with 2 d show ?thesis by (simp add: text_len_def text_chars.simps(2))
  next
    case False
    then obtain c where "c \<in> set (takeWhile cont_byte bs)" using hd_in_set by blast
    then have "c \<in> set bs" "cont_byte c" by (auto dest: set_takeWhileD)
    moreover have "length (dropWhile cont_byte bs) < length bs"
      using False by (cases bs) (auto simp: length_dropWhile_le less_Suc_eq_le split: if_splits)
    then have "text_len (dropWhile cont_byte bs) < length bs" using text_len_le le_less_trans by blast
    ultimately show ?thesis by (auto simp: text_len_def text_chars.simps(2))
  qed
qed simp

lemma utf8_ok_head: "utf8_ok (b # bs) \<Longrightarrow> \<not> unat b < 128 \<Longrightarrow> bs \<noteq> [] \<and> cont_byte (hd bs)"
  by (cases bs) (simp_all add: Let_def split: if_splits list.splits)

lemma utf8_ok_no_cont: "utf8_ok t \<Longrightarrow> \<forall>x \<in> set t. \<not> cont_byte x \<Longrightarrow> \<forall>x \<in> set t. unat x < 128"
proof (induction t)
  case (Cons b t)
  have b: "unat b < 128"
  proof (rule ccontr)
    assume "\<not> unat b < 128"
    then have "hd t \<in> set t" "cont_byte (hd t)" using utf8_ok_head [OF Cons.prems(1)] by simp_all
    then show False using Cons.prems(2) by simp
  qed
  then have "utf8_ok t" using Cons.prems(1) by (simp only: utf8_ok.simps Let_def if_True)
  then show ?case using Cons.IH Cons.prems(2) b by simp
qed simp

text \<open>The number of characters is announced as the length: it is the length only of a text in ASCII.\<close>

theorem announced_length:
  assumes "utf8_ok t"
  shows "text_len t = length t \<longleftrightarrow> (\<forall>x \<in> set t. unat x < 128)"
proof -
  have "(\<forall>x \<in> set (tl t). \<not> cont_byte x) = (\<forall>x \<in> set t. \<not> cont_byte x)"
    using assms utf8_ok_hd by (cases t) (auto simp del: utf8_ok.simps)
  also have "\<dots> = (\<forall>x \<in> set t. unat x < 128)"
    using utf8_ok_no_cont [OF assms] by (auto simp: cont_byte_def)
  finally show ?thesis by (simp add: text_len_eq)
qed

lemma announced_length_witness: "utf8_ok [0xC3, 0xA9] \<and> text_len [0xC3, 0xA9] \<noteq> length [0xC3, 0xA9 :: byte]"
  using announced_length [of "[0xC3, 0xA9]"] by (simp add: cont_byte_def Let_def)

section \<open>Requests\<close>

definition sent_fields :: "client_request \<Rightarrow> headers" where
  "sent_fields r = (b_lit ''host'', cr_host r) # cr_headers r @
     (case cr_data r of
        ClientMessage t \<Rightarrow> [(b_lit ''content-type'', b_lit ''application/msync'')]
      | ClientText t \<Rightarrow> if t = [] then [] else [content_length_field t]
      | ClientNone \<Rightarrow> [])"

definition sent_data :: "client_request \<Rightarrow> bytes" where
  "sent_data r = (case cr_data r of ClientMessage t \<Rightarrow> t | ClientText t \<Rightarrow> t | ClientNone \<Rightarrow> [])"

definition sent_line :: "client_request \<Rightarrow> bytes \<Rightarrow> bytes" where
  "sent_line r path = cr_method r @ [32] @ path @ [32] @ HTTP_1_1"

text \<open>With data there is an empty line too many in front of it.\<close>

definition sent_body :: "client_request \<Rightarrow> bytes" where
  "sent_body r = (if sent_data r = [] then [] else crlf @ sent_data r)"

lemma join_crlf: "join_by crlf (x # xs @ [crlf]) = concat (map (\<lambda>l. l @ crlf) (x # xs)) @ crlf"
  "join_by crlf (x # xs @ [crlf, t]) = concat (map (\<lambda>l. l @ crlf) (x # xs)) @ crlf @ crlf @ t"
  by (induction xs arbitrary: x) simp_all

lemma prepare_request_lines:
  assumes "client_path r = Inr path"
  shows "prepare_request r = Inr (concat (map (\<lambda>l. l @ crlf) (sent_line r path # map header_line (sent_fields r))) @ crlf @ sent_body r)"
  using assms join_crlf(1) [of "sent_line r path" "map header_line (sent_fields r)"]
    join_crlf(2) [of "sent_line r path" "map header_line (sent_fields r)" "sent_data r"]
  by (cases "cr_data r") (auto simp: prepare_request_def sent_fields_def sent_data_def sent_body_def sent_line_def
      header_line_def [of "(_, _)"] content_length_field_def length_header_def)

lemma sent_fields_wf:
  assumes "\<forall>f \<in> set (cr_headers r). wf_line f" "wf_line (b_lit ''host'', cr_host r)"
  shows "\<forall>f \<in> set (sent_fields r). wf_line f"
proof -
  have "wf_line (b_lit ''content-type'', b_lit ''application/msync'')"
    using text_strip_ascii [of "b_lit ''application/msync''"] by (simp add: wf_line_def)
  then show ?thesis using assms content_length_wf by (auto simp: sent_fields_def split: client_data.splits)
qed

lemma strip_crlf_body: "10 \<notin> set t \<Longrightarrow> strip t = t \<Longrightarrow> strip (concat (split_crlf (if t = [] then [] else crlf @ t))) = t"
  by (simp add: crlf_def split_crlf_last strip_by_def)

lemma py_slice_drop: "py_slice xs (int k) (int (length xs)) = drop k xs"
  by (auto simp: py_slice_def clamp_bound_def Let_def min_def)

lemma py_slice_last: "xs \<noteq> [] \<Longrightarrow> py_slice xs (-1) (int (length xs)) = [last xs]"
  by (cases xs rule: rev_exhaust) (simp_all add: py_slice_def clamp_bound_def Let_def)

lemma parsed_headers_fresh:
  assumes "parsed_lines L data = Inr (hs, body)"
  shows "\<exists>r'. parsed_headers L (Request p me q (split_crlf data)) = (r', Inr hs) \<and> rq_headers r' = hs \<and> rq_line r' \<noteq> -1 \<and>
    snd (request_content r') = body \<and> rq_path r' = p \<and> rq_method r' = me \<and> rq_query r' = q \<and> rq_cookies r' = None \<and> rq_content r' = None \<and> rq_data r' = None"
proof -
  obtain i where i: "header_scan L (tl (split_crlf data)) 0 [] = (hs, Inr i)" "body = strip (concat (drop (i + 1) (split_crlf data)))"
    using assms by (auto simp: parsed_lines_def Let_def split: prod.splits sum.splits)
  have "py_slice (split_crlf data) (int i + 1) (int (length (split_crlf data))) = drop (i + 1) (split_crlf data)"
    using py_slice_drop [of "split_crlf data" "i + 1"] by (simp add: add.commute)
  then show ?thesis using i by (simp add: parsed_headers_def Request_def request_content_def Let_def)
qed

text \<open>A request of a client, split into lines and taken apart lazily by a server: the headers are those that were
  sent, host first, with names in lower case, and after they have been read the content is the data.\<close>

theorem request_seen_by_server:
  assumes "prepare_request r = Inr bs" "client_path r = Inr path" "\<forall>f \<in> set (cr_headers r). wf_line f"
    "wf_line (b_lit ''host'', cr_host r)" "10 \<notin> set (cr_method r @ path)" "10 \<notin> set (sent_data r)" "strip (sent_data r) = sent_data r"
  shows "hd (split_crlf bs) = sent_line r path \<and>
    (\<exists>q. parsed_headers L (Request p me qu (split_crlf bs)) = (q, Inr (dict_of L (sent_fields r))) \<and> snd (request_content q) = sent_data r)"
proof -
  have bs: "bs = concat (map (\<lambda>l. l @ crlf) (sent_line r path # map header_line (sent_fields r))) @ crlf @ sent_body r"
    using assms(1) prepare_request_lines [OF assms(2)] by simp
  have n: "10 \<notin> set (sent_line r path)" using assms(5) by (auto simp: sent_line_def HTTP_1_1_def)
  note w = parsed_lines_wf(1) [OF sent_fields_wf [OF assms(3,4)] n, of L "sent_body r", folded bs]
    parsed_lines_wf(2) [OF sent_fields_wf [OF assms(3,4)] n, of "sent_body r", folded bs]
  have "parsed_lines L bs = Inr (dict_of L (sent_fields r), sent_data r)"
    using w(1) strip_crlf_body [OF assms(6,7)] by (simp add: sent_body_def)
  then show ?thesis using parsed_headers_fresh [of L bs "dict_of L (sent_fields r)" "sent_data r" p me qu] w(2) by blast
qed

definition example_client :: client_request where
  "example_client = \<lparr>cr_host = b_lit ''h'', cr_url_path = b_lit ''/a'', cr_method = b_lit ''POST'', cr_params = [],
     cr_headers = [(b_lit ''X-Id'', b_lit ''7'')], cr_data = ClientText (b_lit ''ab'')\<rparr>"

theorem request_seen_by_server_witness:
  "\<exists>bs q. prepare_request example_client = Inr bs \<and>
    parsed_headers plain_lib (Request (b_lit ''/a'') (b_lit ''POST'') None (split_crlf bs)) =
      (q, Inr [(b_lit ''host'', b_lit ''h''), (b_lit ''x-id'', b_lit ''7''), (b_lit ''content-length'', b_lit ''2'')]) \<and>
    snd (request_content q) = b_lit ''ab''"
proof -
  have p: "client_path example_client = Inr (b_lit ''/a'')" by (simp add: client_path_def example_client_def)
  obtain bs where bs: "prepare_request example_client = Inr bs" using p by (simp add: prepare_request_def)
  have t: "text_len (b_lit ''ab'') = 2" by (simp add: text_len_def text_chars.simps(2) cont_byte_def)
  have f: "\<forall>f \<in> set (cr_headers example_client). wf_line f" "wf_line (b_lit ''host'', cr_host example_client)"
    using text_strip_ascii [of "b_lit ''7''"] text_strip_ascii [of "b_lit ''h''"]
    by (simp_all add: example_client_def wf_line_def Let_def)
  have d: "dict_of plain_lib (sent_fields example_client) =
      [(b_lit ''host'', b_lit ''h''), (b_lit ''x-id'', b_lit ''7''), (b_lit ''content-length'', b_lit ''2'')]"
    using t by (simp add: dict_of_def sent_fields_def example_client_def content_length_field_def plain_lib_def lower_def decimal.simps)
  show ?thesis
    using bs d request_seen_by_server [OF bs p f, of plain_lib "b_lit ''/a''" "b_lit ''POST''" None]
    by (simp add: example_client_def sent_data_def strip_by_def is_space_def)
qed

text \<open>The lazy view of a server agrees with the eager parser.\<close>

theorem request_views_agree:
  assumes "parse_request L data = Inr m"
  shows "\<exists>q body. parsed_headers L (Request p me qu (split_crlf data)) = (q, Inr (hm_headers m)) \<and>
    snd (request_content q) = body \<and> hm_data m = message_data L body"
proof -
  obtain hs body where "parsed_lines L data = Inr (hs, body)" "hm_headers m = hs" "hm_data m = message_data L body"
    using assms by (auto simp: parse_request_def HTTPMessage_def py_decode_def rbind_def split: sum.splits if_splits)
  then show ?thesis using parsed_headers_fresh [of L data hs body p me qu] by metis
qed

text \<open>The content that is read before the headers is the last line of the request, and it is kept: reading the
  headers later does not change it.\<close>

theorem content_read_too_early:
  assumes "request_content (Request p me q lines) = (r, c)" "lines \<noteq> []" "parsed_headers L r = (r', e)"
  shows "c = strip (last lines) \<and> request_content r' = (r', c)"
proof -
  have "c = strip (last lines)" "rq_content r = Some c"
    using assms(1) py_slice_last [OF assms(2)] by (auto simp: request_content_def Request_def Let_def)
  moreover from this have "rq_content r' = Some c"
    using assms(3) by (auto simp: parsed_headers_def split: if_splits prod.splits sum.splits)
  ultimately show ?thesis by (simp add: request_content_def)
qed

text \<open>The body of a request whose JSON cannot be read raises once; the second time it is the bytes.\<close>

theorem bad_body_read_again:
  assumes "request_body L r = (r', Inl e)" "rq_data r = None" "parsed_headers L r = (r1, Inr hs)" "rq_line r1 \<noteq> -1"
  shows "e = ValueError \<and> snd (request_body L r') = Inr (RawBody (snd (request_content r1)))"
proof -
  obtain q c where c: "request_content r1 = (q, c)" "q = r1\<lparr>rq_content := rq_content q\<rparr>"
    by (cases "request_content r1") (auto simp: request_content_def Let_def split: option.splits)
  have "rq_data r1 = None" using assms(2,3) by (auto simp: parsed_headers_def split: if_splits prod.splits sum.splits)
  then have "e = ValueError" "r' = q\<lparr>rq_data := Some (RawBody c)\<rparr>"
    using assms(1) by (auto simp: request_body_def assms(3) c(1) split: if_splits option.splits)
  moreover have "rq_line q = rq_line r1" by (subst c(2)) simp
  ultimately show ?thesis using assms(4) by (simp add: request_body_def parsed_headers_def c(1))
qed

end
