(* ===== verification/Http_Middleware.thy ===== *)
theory Http_Middleware
  imports Http_Messages Complex_Main
begin

text \<open>
  The middleware of the HTTP server of a node (\<open>distributed/middleware\<close>): the wrappers around a handler
  (\<open>base\<close>), CORS (\<open>cors\<close>) and CSRF (\<open>crsf\<close>). Dictionaries of headers are shared between objects, so they
  live in a store and a response holds an address; address 0 is the default argument of \<open>Response\<close>, of which
  there is one for all responses, and 1 that of \<open>Middleware\<close>. A handler is a function on the request and the
  store, whose further fields are the state of the user's code. Objects of the user's models have no attribute
  \<open>headers\<close>.
\<close>

section \<open>Objects\<close>

record store =
  dict_cells :: "nat \<Rightarrow> headers"
  next_dict :: nat
  method_lists :: "nat \<Rightarrow> bytes list"

definition DEFAULT_HEADERS :: nat where
  "DEFAULT_HEADERS = 0"

definition MIDDLEWARE_HEADERS :: nat where
  "MIDDLEWARE_HEADERS = 1"

text \<open>\<open>d.update(h)\<close> of a dictionary.\<close>

definition merge_headers :: "headers \<Rightarrow> headers \<Rightarrow> headers" where
  "merge_headers h d = foldl (\<lambda>d (k, v). AList.update k v d) d h"

definition new_dict :: "headers \<Rightarrow> 'a store_scheme \<Rightarrow> nat \<times> 'a store_scheme" where
  "new_dict h st = (next_dict st, st\<lparr>dict_cells := (dict_cells st)(next_dict st := h), next_dict := next_dict st + 1\<rparr>)"

definition dict_update :: "nat \<Rightarrow> headers \<Rightarrow> 'a store_scheme \<Rightarrow> 'a store_scheme" where
  "dict_update a h st = st\<lparr>dict_cells := (dict_cells st)(a := merge_headers h (dict_cells st a))\<rparr>"

datatype 'm obj =
    ObjNone
  | ObjText bytes
  | ObjBytes bytes
  | ObjModel 'm
  | ObjResponse (resp_path: bytes) (resp_method: bytes) (resp_headers: nat) (resp_data: "'m obj")

fun obj_true :: "'m obj \<Rightarrow> bool" where
  "obj_true ObjNone = False"
| "obj_true (ObjText t) = (t \<noteq> [])"
| "obj_true (ObjBytes b) = (b \<noteq> [])"
| "obj_true (ObjModel m) = True"
| "obj_true (ObjResponse p me h d) = True"

definition Response :: "bytes \<Rightarrow> bytes \<Rightarrow> headers \<Rightarrow> 'm obj \<Rightarrow> 'a store_scheme \<Rightarrow> 'm obj \<times> 'a store_scheme" where
  "Response path method h d st = (case new_dict h st of (a, st) \<Rightarrow> (ObjResponse path method a d, st))"

section \<open>Wrappers\<close>

type_synonym ('j, 'a) conn = "'j request \<times> 'a store_scheme"
type_synonym ('j, 'm, 'a) handler = "('j, 'a) conn \<Rightarrow> ('j, 'a) conn \<times> ('m obj \<times> int) res"

text \<open>
  What the coroutine of a middleware returns beside \<open>run_next\<close>: a response with its status, or a request
  (or \<open>None\<close>) before them.
\<close>

datatype 'm run_answer = Two "'m obj" int | Three bool "'m obj" int

type_synonym ('j, 'm, 'a) middleware_run =
  "('j, 'a) conn \<Rightarrow> 'm obj \<Rightarrow> int option \<Rightarrow> ('j, 'a) conn \<times> ('m run_answer \<times> bool) res"

definition sbind :: "'s \<times> 'x res \<Rightarrow> ('s \<Rightarrow> 'x \<Rightarrow> 's \<times> 'y res) \<Rightarrow> 's \<times> 'y res" where
  "sbind r f = (case r of (s, Inl e) \<Rightarrow> (s, Inl e) | (s, Inr x) \<Rightarrow> f s x)"

lemma sbind_simps [simp]: "sbind (s, Inl e) f = (s, Inl e)" "sbind (s, Inr x) f = f s x"
  by (simp_all add: sbind_def)

text \<open>\<open>(response, middleware_status), run_next = await self.run(...)\<close>, and the same with a request in front.\<close>

definition unpack_two :: "'s \<times> ('m run_answer \<times> bool) res \<Rightarrow> 's \<times> ('m obj \<times> int \<times> bool) res" where
  "unpack_two r = sbind r (\<lambda>s (ans, run_next). case ans of Two d n \<Rightarrow> (s, Inr (d, n, run_next)) | Three _ _ _ \<Rightarrow> (s, Inl ValueError))"

definition unpack_three :: "'s \<times> ('m run_answer \<times> bool) res \<Rightarrow> 's \<times> (bool \<times> 'm obj \<times> int \<times> bool) res" where
  "unpack_three r =
     sbind r (\<lambda>s (ans, run_next). case ans of Three q d n \<Rightarrow> (s, Inr (q, d, n, run_next)) | Two _ _ \<Rightarrow> (s, Inl ValueError))"

text \<open>\<open>result.headers.update(response.headers)\<close>.\<close>

definition copy_headers :: "'m obj \<Rightarrow> 'm obj \<Rightarrow> ('j, 'a) conn \<Rightarrow> ('j, 'a) conn \<times> unit res" where
  "copy_headers result response c =
     (case (result, response) of
        (ObjResponse _ _ h _, ObjResponse _ _ h' _) \<Rightarrow> ((fst c, dict_update h (dict_cells (snd c) h') (snd c)), Inr ())
      | _ \<Rightarrow> (c, Inl AttributeError))"

fun put_data :: "'m obj \<Rightarrow> 'm obj \<Rightarrow> 'm obj res" where
  "put_data d (ObjResponse p me h _) = Inr (ObjResponse p me h d)"
| "put_data d _ = Inl AttributeError"

definition unidirectional_call ::
  "bool \<Rightarrow> bool \<Rightarrow> ('j, 'm, 'a) handler \<Rightarrow> ('j, 'm, 'a) middleware_run \<Rightarrow> ('j, 'm, 'a) handler" where
  "unidirectional_call wraps before handler run c =
     (if wraps then
        sbind (handler c) (\<lambda>c (result, status).
        sbind (unpack_two (run c result (Some status))) (\<lambda>c (response, middleware_status, run_next).
        sbind (copy_headers result response c) (\<lambda>c _.
        sbind (c, if obj_true (resp_data response) then put_data (resp_data response) result else Inr result) (\<lambda>c result.
          (c, Inr (if run_next then (result, status) else (response, middleware_status)))))))
      else if before then
        sbind (unpack_two (run c ObjNone None)) (\<lambda>c (response, middleware_status, run_next).
          if \<not> run_next then (c, Inr (response, middleware_status))
          else
            sbind (handler c) (\<lambda>c (result, status).
            sbind (c, put_data result response) (\<lambda>c response. (c, Inr (response, status)))))
      else
        sbind (handler c) (\<lambda>c (result, status).
        sbind (unpack_two (run c result (Some status))) (\<lambda>c (response, middleware_status, run_next).
          (c, Inr (response, if run_next then status else middleware_status)))))"

definition bidirectional_call ::
  "bool \<Rightarrow> ('j, 'm, 'a) handler \<Rightarrow> ('j, 'm, 'a) middleware_run \<Rightarrow> ('j, 'm, 'a) middleware_run \<Rightarrow> ('j, 'm, 'a) handler" where
  "bidirectional_call wraps handler pre post c =
     sbind (unpack_three (pre c ObjNone None)) (\<lambda>c (has_request, response, middleware_status, run_next).
       if \<not> run_next then (c, Inr (response, middleware_status))
       else if \<not> has_request then (c, Inl AttributeError)
       else
         sbind (handler c) (\<lambda>c (result, status).
         sbind (if wraps then copy_headers result response c else (c, Inr ())) (\<lambda>c _.
         sbind (unpack_three (post c result (Some status))) (\<lambda>c (_, response, middleware_status, run_next).
           (c, Inr (response, if run_next then status else middleware_status))))))"

section \<open>CORS\<close>

datatype py_number = IntNum int | FloatNum real

record cors_config =
  allow_origin :: "bytes list"
  expose_headers :: "bytes list option"
  max_age :: "py_number option"
  credentials :: "bool option"
  allow_methods :: "bytes list"
  allow_headers :: "bytes list option"

definition endpoint_methods :: "bytes list" where
  "endpoint_methods = map b_lit [''GET'', ''HEAD'', ''OPTIONS'', ''POST'', ''PUT'', ''PATCH'', ''DELETE'', ''TRACE'']"

text \<open>The validation of the fields; a \<open>ValidationError\<close> is a \<open>ValueError\<close>.\<close>

definition CorsHeaders ::
  "bytes list option \<Rightarrow> bytes list option \<Rightarrow> bytes list option \<Rightarrow> py_number option \<Rightarrow> bool option \<Rightarrow> bytes list option \<Rightarrow>
    cors_config res" where
  "CorsHeaders origins methods expose age creds hs =
     (case (origins, methods) of
        (Some os, Some ms) \<Rightarrow>
          if os = [] \<or> ms = [] \<or> \<not> set ms \<subseteq> set endpoint_methods then Inl ValueError
          else Inr \<lparr>allow_origin = os, expose_headers = expose, max_age = age, credentials = creds, allow_methods = ms, allow_headers = hs\<rparr>
      | _ \<Rightarrow> Inl ValueError)"

definition STAR :: bytes where
  "STAR = [42]"

definition join_comma :: "bytes list \<Rightarrow> bytes" where
  "join_comma = join_by [44, 32]"

definition number_true :: "py_number \<Rightarrow> bool" where
  "number_true n = (case n of IntNum z \<Rightarrow> z \<noteq> 0 | FloatNum x \<Rightarrow> x \<noteq> 0)"

text \<open>\<open>to_headers\<close>: the fields that are not None; joining a boolean is a \<open>TypeError\<close>.\<close>

definition cors_to_headers :: "cors_config \<Rightarrow> headers res" where
  "cors_to_headers k =
     (if credentials k \<noteq> None then Inl TypeError
      else Inr
        ((b_lit ''Access-Control-Allow-Origin'', join_by (b_lit '' | '') (allow_origin k)) #
         (case expose_headers k of None \<Rightarrow> [] | Some xs \<Rightarrow> [(b_lit ''Access-Control-Expose-Headers'', join_comma xs)]) @
         (case max_age k of None \<Rightarrow> []
          | Some n \<Rightarrow> [(b_lit ''Access-Control-Max-Age'', if number_true n then b_lit ''true'' else b_lit ''false'')]) @
         [(b_lit ''Access-Control-Allow-Methods'', join_comma (allow_methods k))] @
         (case allow_headers k of None \<Rightarrow> [] | Some xs \<Rightarrow> [(b_lit ''Access-Control-Allow-Headers'', join_comma xs)])))"

definition cors_to_simple :: "cors_config \<Rightarrow> headers" where
  "cors_to_simple k =
     (if STAR \<in> set (allow_origin k) then [(b_lit ''Access-Control-Allow-Origin'', STAR)] else []) @
     (if credentials k = Some True then [(b_lit ''Access-Control-Allow-Credentials'', b_lit ''true'')] else []) @
     (case expose_headers k of Some (x # xs) \<Rightarrow> [(b_lit ''Access-Control-Expose-Headers'', join_comma (x # xs))] | _ \<Rightarrow> [])"

text \<open>\<open>sorted\<close> on a set of strings: the order of the code points is the order of the encodings.\<close>

fun text_le :: "bytes \<Rightarrow> bytes \<Rightarrow> bool" where
  "text_le [] t = True"
| "text_le (a # s) [] = False"
| "text_le (a # s) (b # t) = (a < b \<or> a = b \<and> text_le s t)"

fun insert_text :: "bytes \<Rightarrow> bytes list \<Rightarrow> bytes list" where
  "insert_text t [] = [t]"
| "insert_text t (u # us) = (if text_le t u then t # u # us else u # insert_text t us)"

definition sort_texts :: "bytes list \<Rightarrow> bytes list" where
  "sort_texts ts = foldr insert_text (remdups ts) []"

definition safe_headers :: "bytes list" where
  "safe_headers = map b_lit [''Accept'', ''Accept-Language'', ''Content-Language'', ''Content-Type'']"

definition explicit_origin :: "cors_config \<Rightarrow> bool" where
  "explicit_origin k \<longleftrightarrow> STAR \<notin> set (allow_origin k) \<or> credentials k = Some True"

definition max_age_text :: "(real \<Rightarrow> bytes) \<Rightarrow> py_number option \<Rightarrow> bytes" where
  "max_age_text float_str n =
     (case n of None \<Rightarrow> b_lit ''None'' | Some (IntNum z) \<Rightarrow> dec_int z | Some (FloatNum x) \<Rightarrow> float_str x)"

definition cors_to_preflight :: "(real \<Rightarrow> bytes) \<Rightarrow> cors_config \<Rightarrow> headers" where
  "cors_to_preflight float_str k =
     (let hs = (case allow_headers k of None \<Rightarrow> [] | Some hs \<Rightarrow> hs) in
      [if explicit_origin k then (b_lit ''Vary'', b_lit ''Origin'') else (b_lit ''Access-Control-Allow-Origin'', STAR),
       (b_lit ''Access-Control-Allow-Methods'', join_comma (allow_methods k)),
       (b_lit ''Access-Control-Max-Age'', max_age_text float_str (max_age k))] @
      (if STAR \<notin> set hs then [(b_lit ''Access-Control-Allow-Headers'', join_comma (sort_texts (safe_headers @ hs)))] else []) @
      (if credentials k = Some True then [(b_lit ''Access-Control-Allow-Credentials'', b_lit ''true'')] else []))"

text \<open>The constructor: the middleware and its own response headers.\<close>

record cors =
  cors_fields :: cors_config
  simple_headers :: headers
  preflight_headers :: headers
  cors_response_headers :: headers

definition Cors :: "(real \<Rightarrow> bytes) \<Rightarrow> cors_config \<Rightarrow> cors res" where
  "Cors float_str k =
     rbind (cors_to_headers k) (\<lambda>hs.
       Inr \<lparr>cors_fields = k, simple_headers = cors_to_simple k, preflight_headers = cors_to_preflight float_str k,
         cors_response_headers = hs\<rparr>)"

definition any_origin :: "cors \<Rightarrow> bool" where
  "any_origin m \<longleftrightarrow> STAR \<in> set (allow_origin (cors_fields m))"

definition any_header :: "cors \<Rightarrow> bool" where
  "any_header m \<longleftrightarrow> (case allow_headers (cors_fields m) of None \<Rightarrow> False | Some hs \<Rightarrow> STAR \<in> set hs)"

definition known_origin :: "cors \<Rightarrow> bytes option \<Rightarrow> bool" where
  "known_origin m origin \<longleftrightarrow> (case origin of None \<Rightarrow> False | Some os \<Rightarrow> os \<in> set (allow_origin (cors_fields m)))"

text \<open>The loop over the requested headers; \<open>in\<close> on None is a \<open>TypeError\<close>. Splitting yields at least one header.\<close>

definition headers_refused :: "'j http_lib \<Rightarrow> cors \<Rightarrow> bytes \<Rightarrow> bool res" where
  "headers_refused L m asked =
     (case allow_headers (cors_fields m) of
        None \<Rightarrow> Inl TypeError
      | Some hs \<Rightarrow> Inr (\<exists>h \<in> set (split_char 44 asked). text_strip (str_lower L h) \<notin> set hs))"

definition given :: "bytes option \<Rightarrow> bool" where
  "given x \<longleftrightarrow> x \<noteq> None \<and> x \<noteq> Some []"

text \<open>\<open>if response and status: response.headers.update(...)\<close>, else a new response.\<close>

definition extend_response ::
  "'j request \<Rightarrow> headers \<Rightarrow> 'm obj \<Rightarrow> int option \<Rightarrow> int \<Rightarrow> bool \<Rightarrow> 'a store_scheme \<Rightarrow> ('j, 'a) conn \<times> ('m run_answer \<times> bool) res" where
  "extend_response r hs response status otherwise run_next st =
     (if obj_true response \<and> status \<noteq> None \<and> status \<noteq> Some 0
      then (case response of
              ObjResponse _ _ a _ \<Rightarrow> ((r, dict_update a hs st), Inr (Two response (the status), run_next))
            | _ \<Rightarrow> ((r, st), Inl AttributeError))
      else (case Response (rq_path r) (rq_method r) hs ObjNone st of
              (d, st) \<Rightarrow> ((r, st), Inr (Two d otherwise, run_next))))"

definition cors_failures :: "bool \<Rightarrow> bool \<Rightarrow> bool \<Rightarrow> bytes list" where
  "cors_failures origin method hs =
     (if origin then [b_lit ''origin''] else []) @ (if method then [b_lit ''method''] else []) @ (if hs then [b_lit ''headers''] else [])"

definition cors_preflight :: "'j http_lib \<Rightarrow> cors \<Rightarrow> headers \<Rightarrow> bytes \<Rightarrow> ('j, 'm, 'a) middleware_run" where
  "cors_preflight L m hs asked_method c response status =
     (let (r, st) = c;
          origin = map_of hs (b_lit ''origin'');
          asked = map_of hs (b_lit ''access-control-request-headers'');
          bad_origin = (\<not> any_origin m \<and> \<not> known_origin m origin)
      in if \<not> bad_origin \<and> explicit_origin (cors_fields m) then (c, Inl TypeError)
         else
           (case (if any_header m \<and> asked \<noteq> None \<or> \<not> given asked then Inr False else headers_refused L m (the asked)) of
              Inl e \<Rightarrow> (c, Inl e)
            | Inr refused \<Rightarrow>
                let out = (if any_header m \<and> asked \<noteq> None
                           then AList.update (b_lit ''Access-Control-Allow-Headers'') (the asked) (preflight_headers m)
                           else preflight_headers m);
                    failures = cors_failures bad_origin (asked_method \<notin> set (allow_methods (cors_fields m))) refused
                in if failures \<noteq> []
                   then (case Response (rq_path r) (rq_method r) out (ObjText (b_lit ''Disallowed CORS '' @ join_comma failures)) st of
                           (d, st) \<Rightarrow> ((r, st), Inr (Two d 401, False)))
                   else extend_response r out response status 204 False st))"

text \<open>A header whose value is None is written as None.\<close>

definition cors_simple :: "cors \<Rightarrow> headers \<Rightarrow> ('j, 'm, 'a) middleware_run" where
  "cors_simple m hs c response status =
     (let origin = map_of hs (b_lit ''origin'');
          written = (case origin of None \<Rightarrow> b_lit ''None'' | Some os \<Rightarrow> os);
          out = (if any_origin m \<and> given (map_of hs (b_lit ''cookie'')) \<or> known_origin m origin
                 then AList.update (b_lit ''access-control-allow-origin'') written (simple_headers m)
                 else simple_headers m)
      in extend_response (fst c) out response status 200 True (snd c))"

definition cors_run :: "'j http_lib \<Rightarrow> cors \<Rightarrow> ('j, 'm, 'a) middleware_run" where
  "cors_run L m c response status =
     (case parsed_headers L (fst c) of
        (r, Inl e) \<Rightarrow> ((r, snd c), Inl e)
      | (r, Inr hs) \<Rightarrow>
          (let asked_method = map_of hs (b_lit ''access-control-request-method'') in
           if rq_method r = b_lit ''OPTIONS'' \<and> given asked_method
           then cors_preflight L m hs (the asked_method) (r, snd c) response status
           else cors_simple m hs (r, snd c) response status))"

section \<open>CSRF\<close>

record csrf =
  required_paths :: "bytes list option"
  exempt_paths :: "bytes list option"
  sensitive_cookies :: "bytes list option"
  safe_methods :: "bytes list"
  cookie_name :: bytes
  cookie_path :: bytes
  cookie_domain :: "bytes option"
  cookie_secure :: bool
  cookie_httponly :: bool
  cookie_samesite :: bytes
  header_name :: bytes

definition CSRF_defaults :: csrf where
  "CSRF_defaults = \<lparr>required_paths = None, exempt_paths = None, sensitive_cookies = None,
     safe_methods = map b_lit [''GET'', ''HEAD'', ''OPTIONS'', ''TRACE''], cookie_name = b_lit ''csrftoken'', cookie_path = [47],
     cookie_domain = None, cookie_secure = False, cookie_httponly = False, cookie_samesite = b_lit ''lax'',
     header_name = b_lit ''x-csrftoken''\<rparr>"

definition is_part :: "bytes \<Rightarrow> bytes \<Rightarrow> bool" where
  "is_part t path \<longleftrightarrow> find_sub t path \<noteq> None"

definition path_matches :: "bytes list option \<Rightarrow> bytes \<Rightarrow> bool" where
  "path_matches ps path \<longleftrightarrow> (case ps of None \<Rightarrow> False | Some ps \<Rightarrow> \<exists>p \<in> set ps. is_part p path)"

definition has_sensitive_cookies :: "csrf \<Rightarrow> headers \<Rightarrow> bool" where
  "has_sensitive_cookies m cs \<longleftrightarrow> (case sensitive_cookies m of None \<Rightarrow> False | Some ks \<Rightarrow> \<exists>k \<in> set ks. map_of cs k \<noteq> None)"

text \<open>Whether the tokens of a request with the given method, path and cookies are compared.\<close>

definition csrf_checked :: "csrf \<Rightarrow> bytes \<Rightarrow> bytes \<Rightarrow> headers \<Rightarrow> bool" where
  "csrf_checked m method path cs \<longleftrightarrow>
     path_matches (required_paths m) path \<or>
     method \<notin> set (safe_methods m) \<and> \<not> path_matches (exempt_paths m) path \<and> has_sensitive_cookies m cs"

text \<open>
  \<open>unseal\<close> is \<open>decrypt(decompress(b64decode(token.encode())))\<close>, whose exceptions count as a mismatch.
\<close>

definition tokens_match :: "(bytes \<Rightarrow> bytes res) \<Rightarrow> bytes option \<Rightarrow> bytes option \<Rightarrow> bool" where
  "tokens_match unseal a b \<longleftrightarrow>
     (case (a, b) of (Some x, Some y) \<Rightarrow> (case (unseal x, unseal y) of (Inr s, Inr t) \<Rightarrow> s = t | _ \<Rightarrow> False) | _ \<Rightarrow> False)"

text \<open>\<open>SimpleCookie\<close>: the characters that need no quotes, the checks on a name, and the text of a cookie.\<close>

definition cookie_char :: "byte \<Rightarrow> bool" where
  "cookie_char b \<longleftrightarrow> 48 \<le> b \<and> b \<le> 57 \<or> 65 \<le> b \<and> b \<le> 90 \<or> 97 \<le> b \<and> b \<le> 122 \<or> b \<in> of_char ` set ''!#$%&*+-.^_`|~:'' \<or> b = 39"

definition reserved_cookies :: "bytes list" where
  "reserved_cookies = map b_lit [''expires'', ''path'', ''comment'', ''domain'', ''max-age'', ''secure'', ''httponly'', ''version'', ''samesite'']"

definition cookie_quote :: "bytes \<Rightarrow> bytes" where
  "cookie_quote v = (if v \<noteq> [] \<and> list_all cookie_char v then v else [34] @ v @ [34])"

definition csrf_cookie :: "'j http_lib \<Rightarrow> csrf \<Rightarrow> bytes \<Rightarrow> bytes res" where
  "csrf_cookie L m token =
     (if str_lower L (cookie_name m) \<in> set reserved_cookies \<or> cookie_name m = [] \<or> \<not> list_all cookie_char (cookie_name m)
      then Inl (GenericException ''CookieError'')
      else Inr (text_strip (join_by (b_lit ''; '')
        ([cookie_name m @ [61] @ cookie_quote token] @
         (case cookie_domain m of None \<Rightarrow> [] | Some d \<Rightarrow> if d = [] then [] else [b_lit ''Domain='' @ d]) @
         (if cookie_httponly m then [b_lit ''HttpOnly''] else []) @
         (if cookie_path m = [] then [] else [b_lit ''Path='' @ cookie_path m]) @
         (if cookie_samesite m = [] then [] else [b_lit ''SameSite='' @ cookie_samesite m]) @
         (if cookie_secure m then [b_lit ''Secure''] else [])))))"

text \<open>
  \<open>__run__\<close>; \<open>token\<close> is \<open>b64encode(compress(encrypt(token_urlsafe())))\<close>, drawn when a cookie is set. A
  base64 text needs no escapes inside quotes.
\<close>

definition csrf_refusal :: "'j request \<Rightarrow> 'm obj" where
  "csrf_refusal r = ObjResponse (rq_path r) (rq_method r) DEFAULT_HEADERS (ObjText (b_lit ''CSRF token verification failed''))"

definition csrf_run :: "'j http_lib \<Rightarrow> (bytes \<Rightarrow> bytes res) \<Rightarrow> bytes \<Rightarrow> csrf \<Rightarrow> ('j, 'm, 'a) middleware_run" where
  "csrf_run L unseal token m c response status =
     (case request_cookies L (fst c) of
        (r, Inl e) \<Rightarrow> ((r, snd c), Inl e)
      | (r, Inr cs) \<Rightarrow>
          (if csrf_checked m (rq_method r) (rq_path r) cs \<and>
              \<not> tokens_match unseal (map_of cs (cookie_name m)) (map_of (rq_headers r) (header_name m))
           then ((r, snd c), Inr (Two (csrf_refusal r) 403, False))
           else
             (case (if map_of cs (cookie_name m) = None then rbind (csrf_cookie L m token) (\<lambda>v. Inr [(b_lit ''set-cookie'', v)]) else Inr []) of
                Inl e \<Rightarrow> ((r, snd c), Inl e)
              | Inr hs \<Rightarrow> extend_response r hs response status 200 True (snd c))))"

section \<open>Registration\<close>

text \<open>
  What a wrapper copies of the handler it wraps: an endpoint, which is a bound method whose attributes cannot be
  set, or another wrapper. Its list of methods and its dictionary of headers are shared.
\<close>

record endpoint =
  ep_path :: bytes
  ep_methods :: nat
  ep_headers :: nat
  ep_bound :: bool

text \<open>\<open>__init__\<close> of the three wrappers: the handler with the attributes it has afterwards, and the wrapper.\<close>

definition wrapper_init ::
  "bytes list option \<Rightarrow> nat \<Rightarrow> endpoint \<Rightarrow> 'a store_scheme \<Rightarrow> (endpoint \<times> endpoint \<times> 'a store_scheme) res" where
  "wrapper_init methods own h st =
     (let ms = (case methods of None \<Rightarrow> [] | Some ms \<Rightarrow> ms);
          st = st\<lparr>method_lists := (method_lists st)(ep_methods h := method_lists st (ep_methods h) @ ms)\<rparr>;
          (a, st) =
            (if dict_cells st (ep_headers h) \<noteq> [] \<and> dict_cells st own \<noteq> []
             then (ep_headers h, dict_update (ep_headers h) (dict_cells st own) st)
             else if dict_cells st own \<noteq> [] then (own, st) else (ep_headers h, st));
          w = h\<lparr>ep_headers := a, ep_bound := False\<rparr>
      in if dict_cells st (ep_headers h) \<noteq> [] \<and> dict_cells st a \<noteq> []
         then (if ep_bound h then Inl AttributeError
               else case new_dict [] st of (b, st) \<Rightarrow> Inr (h\<lparr>ep_headers := b\<rparr>, w, st))
         else Inr (h, w, st))"

text \<open>
  \<open>Middleware.wrap\<close>: the default of the lookup of the wrapper's class is built before the lookup, so the handler is
  wrapped twice; \<open>simple\<close> are the types whose wrapper gets \<open>run\<close>.
\<close>

definition wrap ::
  "bool \<Rightarrow> bytes list option \<Rightarrow> nat \<Rightarrow> endpoint \<Rightarrow> 'a store_scheme \<Rightarrow> (endpoint \<times> 'a store_scheme) res" where
  "wrap simple methods own h st =
     rbind (wrapper_init methods own h st) (\<lambda>(h, _, st).
     rbind (wrapper_init methods own h st) (\<lambda>(_, w, st).
       Inr (w, if simple then dict_update own (dict_cells st (ep_headers w)) st else st)))"

section \<open>What the middleware guarantees\<close>

lemma parsed_headers_method: "parsed_headers L r = (r', Inr hs) \<Longrightarrow> rq_method r' = rq_method r"
  by (auto simp: parsed_headers_def split: prod.splits sum.splits if_splits)

lemma request_cookies_fields:
  assumes "request_cookies L r = (r', Inr cs)"
  shows "rq_path r' = rq_path r" "rq_method r' = rq_method r"
  using assms by (auto simp: request_cookies_def parsed_headers_def split: prod.splits sum.splits option.splits if_splits)

lemma csrf_run_refused:
  assumes "request_cookies L r = (r', Inr cs)" "csrf_checked m (rq_method r) (rq_path r) cs"
    "\<not> tokens_match unseal (map_of cs (cookie_name m)) (map_of (rq_headers r') (header_name m))"
  shows "csrf_run L unseal token m (r, st) response status = ((r', st), Inr (Two (csrf_refusal r') 403, False))"
  using assms request_cookies_fields [OF assms(1)] by (simp add: csrf_run_def)

text \<open>C6: The middleware for CSRF directly around a handler: when the tokens are compared and do not match, the answer
  is 403 and the handler does not run; otherwise the answer is the handler's, in a response that sets a
  new cookie when there was none.\<close>

theorem csrf_guards_handler:
  assumes "request_cookies L r = (r', Inr cs)" "csrf_cookie L m token = Inr v"
  shows "unidirectional_call False True handler (csrf_run L unseal token m) (r, st) =
    (if csrf_checked m (rq_method r) (rq_path r) cs \<and>
        \<not> tokens_match unseal (map_of cs (cookie_name m)) (map_of (rq_headers r') (header_name m))
     then ((r', st), Inr (csrf_refusal r', 403))
     else
       let (a, st') = new_dict (if map_of cs (cookie_name m) = None then [(b_lit ''set-cookie'', v)] else []) st in
       (case handler (r', st') of
          (c, Inl e) \<Rightarrow> (c, Inl e)
        | (c, Inr (result, status)) \<Rightarrow> (c, Inr (ObjResponse (rq_path r) (rq_method r) a result, status))))"
  using assms request_cookies_fields [OF assms(1)] csrf_run_refused [OF assms(1)]
  by (auto simp: unidirectional_call_def csrf_run_def unpack_two_def extend_response_def Response_def new_dict_def sbind_def
      split: prod.splits sum.splits)

text \<open>C36: Around another middleware the same check comes too late: the handler has run before it.\<close>

theorem csrf_checked_too_late:
  assumes "handler (r, st) = ((r1, st1), Inr (ObjResponse p me a d, status))" "request_cookies L r1 = (r', Inr cs)"
    "csrf_checked m (rq_method r1) (rq_path r1) cs"
    "\<not> tokens_match unseal (map_of cs (cookie_name m)) (map_of (rq_headers r') (header_name m))"
  shows "\<exists>st2. unidirectional_call True before handler (csrf_run L unseal token m) (r, st) = ((r', st2), Inr (csrf_refusal r', 403)) \<and>
    store.more st2 = store.more st1"
  using assms(1)
  by (simp add: csrf_run_refused [OF assms(2,3,4)] unidirectional_call_def unpack_two_def copy_headers_def csrf_refusal_def dict_update_def)

text \<open>A request with the cookie of a session and no token.\<close>

definition session_lib :: "unit http_lib" where
  "session_lib = plain_lib\<lparr>load_cookies := (\<lambda>_. Inr [(b_lit ''sid'', b_lit ''1'')])\<rparr>"

definition session_csrf :: csrf where
  "session_csrf = CSRF_defaults\<lparr>sensitive_cookies := Some [b_lit ''sid'']\<rparr>"

definition forged :: "unit request" where
  "forged = Request [47] (b_lit ''POST'') None [b_lit ''POST / HTTP/1.1'', b_lit ''cookie: sid=1'', []]"

definition forged_seen :: "unit request" where
  "forged_seen = forged\<lparr>rq_headers := [(b_lit ''cookie'', b_lit ''sid=1'')], rq_line := 3, rq_cookies := Some [(b_lit ''sid'', b_lit ''1'')]\<rparr>"

lemma forged_cookies: "request_cookies session_lib forged = (forged_seen, Inr [(b_lit ''sid'', b_lit ''1'')])"
proof -
  have "text_strip (32 # b_lit ''sid=1'') = b_lit ''sid=1''"
    using text_strip_ascii [of "b_lit ''sid=1''"] by (simp add: text_strip_space Let_def)
  then show ?thesis
    by (simp add: request_cookies_def parsed_headers_def forged_def forged_seen_def Request_def split_header_line_def py_decode_def Let_def
        session_lib_def plain_lib_def lower_def)
qed

lemma forged_checked:
  "csrf_checked session_csrf (rq_method forged) (rq_path forged) [(b_lit ''sid'', b_lit ''1'')]"
  "\<not> tokens_match unseal (map_of [(b_lit ''sid'', b_lit ''1'')] (cookie_name session_csrf)) (map_of (rq_headers forged_seen) (header_name session_csrf))"
  by (simp_all add: csrf_checked_def session_csrf_def CSRF_defaults_def forged_def Request_def path_matches_def has_sensitive_cookies_def
      tokens_match_def)

lemma session_cookie: "\<exists>v. csrf_cookie session_lib session_csrf token = Inr v"
  by (simp add: csrf_cookie_def session_lib_def session_csrf_def CSRF_defaults_def plain_lib_def lower_def reserved_cookies_def cookie_char_def)

theorem csrf_guards_handler_witness:
  "\<forall>(handler :: (unit, unit, unit) handler) unseal token st.
    unidirectional_call False True handler (csrf_run session_lib unseal token session_csrf) (forged, st) =
      ((forged_seen, st), Inr (csrf_refusal forged_seen, 403))"
proof (intro allI)
  fix handler :: "(unit, unit, unit) handler" and unseal token st
  obtain v where "csrf_cookie session_lib session_csrf token = Inr v" using session_cookie by blast
  from csrf_guards_handler [where handler = handler and unseal = unseal and st = st, OF forged_cookies this]
  show "unidirectional_call False True handler (csrf_run session_lib unseal token session_csrf) (forged, st) =
      ((forged_seen, st), Inr (csrf_refusal forged_seen, 403))"
    using forged_checked(1) forged_checked(2) [of unseal] by simp
qed

theorem csrf_checked_too_late_witness:
  "\<forall>unseal token (st :: nat store_scheme). \<exists>st2.
    unidirectional_call True True (\<lambda>(r, st). ((r, st\<lparr>store.more := store.more st + 1\<rparr>), Inr (ObjResponse [] [] 2 (ObjNone :: unit obj), 200)))
      (csrf_run session_lib unseal token session_csrf) (forged, st) = ((forged_seen, st2), Inr (csrf_refusal forged_seen, 403)) \<and>
    store.more st2 = store.more st + 1"
proof (intro allI)
  fix unseal token and st :: "nat store_scheme"
  let ?h = "\<lambda>(r :: unit request, st :: nat store_scheme). ((r, st\<lparr>store.more := store.more st + 1\<rparr>), Inr (ObjResponse [] [] 2 (ObjNone :: unit obj), 200))"
  have "?h (forged, st) = ((forged, st\<lparr>store.more := store.more st + 1\<rparr>), Inr (ObjResponse [] [] 2 ObjNone, 200))" by simp
  from csrf_checked_too_late [where handler = ?h and r = forged and st = st and before = True, OF this forged_cookies forged_checked, of unseal token]
  show "\<exists>st2. unidirectional_call True True ?h (csrf_run session_lib unseal token session_csrf) (forged, st) =
      ((forged_seen, st2), Inr (csrf_refusal forged_seen, 403)) \<and> store.more st2 = store.more st + 1"
    by simp
qed

text \<open>With the defaults no request is refused.\<close>

theorem csrf_defaults_check_nothing: "\<not> csrf_checked CSRF_defaults method path cs"
  by (simp add: csrf_checked_def CSRF_defaults_def path_matches_def has_sensitive_cookies_def)

text \<open>The cookie and the header a client got from the server are accepted, when they can be opened.\<close>

lemma issued_token_matches: "unseal token = Inr t \<Longrightarrow> tokens_match unseal (Some token) (Some token)"
  by (simp add: tokens_match_def)

lemma explicit_preflight:
  assumes "explicit_origin (cors_fields m)" "\<not> any_origin m"
  shows "(\<exists>c' e. cors_preflight L m hs me (r, st) response status = (c', Inl e)) \<or>
    (\<exists>c' d. cors_preflight L m hs me (r, st) response status = (c', Inr (Two d 401, False)))"
proof (cases "known_origin m (map_of hs (b_lit ''origin''))")
  case True
  then show ?thesis using assms by (simp add: cors_preflight_def Let_def)
next
  case False
  then show ?thesis using assms
    by (cases "if any_header m \<and> map_of hs (b_lit ''access-control-request-headers'') \<noteq> None \<or>
          \<not> given (map_of hs (b_lit ''access-control-request-headers'')) then Inr False
        else headers_refused L m (the (map_of hs (b_lit ''access-control-request-headers'')))")
      (simp_all add: cors_preflight_def Let_def cors_failures_def Response_def new_dict_def del: b_lit_simps)
qed

text \<open>The answer to a preflight from any origin: a list of allowed headers that is missing raises as soon as a header is
  asked for.\<close>

definition preflight_granted :: "'j http_lib \<Rightarrow> cors_config \<Rightarrow> headers \<Rightarrow> bytes \<Rightarrow> bool" where
  "preflight_granted L k hs me \<longleftrightarrow> me \<in> set (allow_methods k) \<and>
     (\<forall>hdrs asked. allow_headers k = Some hdrs \<and> map_of hs (b_lit ''access-control-request-headers'') = Some asked \<and> asked \<noteq> [] \<longrightarrow>
        STAR \<in> set hdrs \<or> (\<forall>h \<in> set (split_char 44 asked). text_strip (str_lower L h) \<in> set hdrs))"

lemma Response_more: "store.more (snd (Response p me h d st)) = store.more st"
  by (simp add: Response_def new_dict_def)

lemma open_preflight_none:
  assumes "\<not> explicit_origin (cors_fields m)" "any_origin m" "allow_headers (cors_fields m) = None"
    "given (map_of hs (b_lit ''access-control-request-headers''))"
  shows "cors_preflight L m hs me (r, st) ObjNone None = ((r, st), Inl TypeError)"
  using assms by (simp add: cors_preflight_def Let_def headers_refused_def any_header_def)

lemma open_preflight:
  assumes "\<not> explicit_origin (cors_fields m)" "any_origin m"
    "allow_headers (cors_fields m) = None \<longrightarrow> \<not> given (map_of hs (b_lit ''access-control-request-headers''))"
  shows "\<exists>d st'. store.more st' = store.more st \<and> cors_preflight L m hs me (r, st) ObjNone None =
    ((r, st'), Inr (Two d (if preflight_granted L (cors_fields m) hs me then 204 else 401), False))"
proof -
  let ?asked = "map_of hs (b_lit ''access-control-request-headers'')"
  show ?thesis
  proof (cases "allow_headers (cors_fields m)")
    case None
    then have "\<not> given ?asked" "\<not> any_header m" using assms(3) by (simp_all add: any_header_def)
    then show ?thesis using assms(1,2) None
      by (auto simp: cors_preflight_def Let_def cors_failures_def extend_response_def preflight_granted_def
          Response_def new_dict_def simp del: b_lit_simps)
  next
    case (Some hdrs)
    have h: "any_header m = (STAR \<in> set hdrs)" using Some by (simp add: any_header_def)
    have ref: "headers_refused L m a = Inr (\<exists>h \<in> set (split_char 44 a). text_strip (str_lower L h) \<notin> set hdrs)" for a
      using Some by (simp add: headers_refused_def)
    show ?thesis
      using assms(1,2) Some by (cases ?asked) (auto simp: cors_preflight_def Let_def h ref given_def cors_failures_def
          extend_response_def preflight_granted_def Response_def new_dict_def simp del: b_lit_simps)
  qed
qed

text \<open>A CORS middleware that names its origins grants no preflight: for an allowed origin it raises, for any other it
  answers 401.\<close>

theorem explicit_preflight_never_granted:
  fixes handler :: "('j, 'm, 'a) handler"
  assumes "Cors float_str k = Inr m" "STAR \<notin> set (allow_origin k)" "parsed_headers L r = (r', Inr hs)"
    "rq_method r = b_lit ''OPTIONS''" "map_of hs (b_lit ''access-control-request-method'') = Some (x # xs)"
  shows "(\<exists>c e. unidirectional_call False True handler (cors_run L m) (r, st) = (c, Inl e)) \<or>
    (\<exists>c d. unidirectional_call False True handler (cors_run L m) (r, st) = (c, Inr (d, 401)))"
proof -
  have k: "cors_fields m = k" using assms(1) by (auto simp: Cors_def)
  then have x: "explicit_origin (cors_fields m)" "\<not> any_origin m" using assms(2) by (simp_all add: explicit_origin_def any_origin_def)
  have "cors_run L m (r, st) (ObjNone :: 'm obj) None = cors_preflight L m hs (x # xs) (r', st) ObjNone None"
    using assms(3,4,5) parsed_headers_method [OF assms(3)] by (simp add: cors_run_def given_def)
  then show ?thesis
    using explicit_preflight [OF x, of L hs "x # xs" r' st "ObjNone :: 'm obj" None]
    by (auto simp: unidirectional_call_def unpack_two_def)
qed


definition open_cors :: cors_config where
  "open_cors = \<lparr>allow_origin = [STAR], expose_headers = None, max_age = None, credentials = None, allow_methods = [b_lit ''PUT''],
     allow_headers = Some [b_lit ''x-a'']\<rparr>"

definition preflight_request :: "bytes \<Rightarrow> unit request" where
  "preflight_request me = (Request [47] (b_lit ''OPTIONS'') None [])\<lparr>rq_line := 1,
     rq_headers := [(b_lit ''access-control-request-method'', me), (b_lit ''access-control-request-headers'', b_lit ''X-A'')]\<rparr>"


text \<open>A CORS middleware with any setting for credentials cannot be built.\<close>

lemma cors_credentials_raise: "credentials k \<noteq> None \<Longrightarrow> Cors float_str k = Inl TypeError"
  by (simp add: Cors_def cors_to_headers_def)

lemma merge_nonempty: "d \<noteq> [] \<Longrightarrow> merge_headers h d \<noteq> []"
proof (induction h arbitrary: d)
  case (Cons f h)
  obtain k v where f: "f = (k, v)" by (cases f)
  have "AList.update k v d \<noteq> []" using Cons.prems by (cases d) (auto split: if_splits)
  from Cons.IH [OF this] show ?case by (simp add: merge_headers_def f)
qed (simp add: merge_headers_def)

lemma update_same: "map_of d k = Some v \<Longrightarrow> AList.update k v d = d"
  by (induction d) (auto split: if_splits)

lemma merge_same: "\<forall>(k, v) \<in> set h. map_of d k = Some v \<Longrightarrow> merge_headers h d = d"
  by (induction h) (auto simp: merge_headers_def update_same)

lemma merge_self: "distinct (map fst d) \<Longrightarrow> merge_headers d d = d"
  by (rule merge_same) auto

lemma merge_nil [simp]: "merge_headers [] d = d"
  by (simp add: merge_headers_def)

text \<open>Wrapping an endpoint in a middleware leaves it with the response headers of the middleware: those that the
  endpoint was declared with are gone; if there were any, a bound method cannot be wrapped at all, because
  its attribute cannot be set. The methods of the middleware are added twice.\<close>

theorem wrapping_drops_headers:
  assumes "wrap simple methods own h st = Inr (w, st')" "ep_headers h \<noteq> own" "ep_headers h < next_dict st" "own < next_dict st"
    "distinct (map fst (dict_cells st own))"
  shows "(ep_bound h \<longrightarrow> dict_cells st (ep_headers h) = []) \<and>
    dict_cells st' (ep_headers w) = dict_cells st own \<and>
    method_lists st' (ep_methods w) = method_lists st (ep_methods h) @ concat (replicate 2 (case methods of None \<Rightarrow> [] | Some ms \<Rightarrow> ms))"
  using assms merge_nonempty [of "dict_cells st (ep_headers h)" "dict_cells st own"]
  by (auto simp: wrap_def wrapper_init_def Let_def new_dict_def dict_update_def rbind_def numeral_2_eq_2 merge_self
      split: sum.splits if_splits prod.splits)

end
