(* ===== verification/Http_Compression.thy ===== *)
theory Http_Compression
  imports Http_Middleware
begin

text \<open>
  The compressing and decompressing middleware (\<open>middleware/compressor\<close>, \<open>middleware/decompressor\<close>), each with gzip
  and with zstandard, and each around the handler or before and after it. The compression itself is a
  function from bytes to bytes, the decompression may raise; both raise a \<open>TypeError\<close> for anything that is
  not bytes. The serializers are the user's, by path; \<open>err\<close> is the text of an exception.
\<close>

section \<open>Base64\<close>

definition b64_char :: "nat \<Rightarrow> byte" where
  "b64_char n =
     (if n < 26 then word_of_nat (65 + n) else if n < 52 then word_of_nat (71 + n)
      else if n < 62 then word_of_nat (n - 4) else if n = 62 then 43 else 47)"

fun b64encode :: "bytes \<Rightarrow> bytes" where
  "b64encode [] = []"
| "b64encode [a] = [b64_char (unat a div 4), b64_char (unat a mod 4 * 16), 61, 61]"
| "b64encode [a, b] =
     [b64_char (unat a div 4), b64_char (unat a mod 4 * 16 + unat b div 16), b64_char (unat b mod 16 * 4), 61]"
| "b64encode (a # b # c # bs) =
     [b64_char (unat a div 4), b64_char (unat a mod 4 * 16 + unat b div 16), b64_char (unat b mod 16 * 4 + unat c div 64),
      b64_char (unat c mod 64)] @ b64encode bs"

section \<open>Compression\<close>

type_synonym 'm serializers = "bytes \<Rightarrow> ('m obj \<Rightarrow> 'm obj res) option"

definition failure :: "(py_error \<Rightarrow> bytes) \<Rightarrow> 'j request \<Rightarrow> py_error \<Rightarrow> 'm obj" where
  "failure err r e =
     ObjResponse (rq_path r) (rq_method r) DEFAULT_HEADERS
       (ObjText (if e = KeyError then b_lit ''No serializer for '' @ rq_path r @ b_lit '' found.'' else err e))"

definition serialize_object :: "'m serializers \<Rightarrow> 'j request \<Rightarrow> 'm obj \<Rightarrow> bytes res" where
  "serialize_object sers r response =
     (case sers (rq_path r) of
        None \<Rightarrow> Inl KeyError
      | Some f \<Rightarrow> rbind (f response) (\<lambda>d. case d of ObjBytes b \<Rightarrow> Inr b | _ \<Rightarrow> Inl TypeError))"

definition object_headers :: headers where
  "object_headers = [(b_lit ''x-compression-encoding'', b_lit ''gzip''), (b_lit ''content-type'', b_lit ''text/plain'')]"

definition compressed ::
  "(bytes \<Rightarrow> bytes) \<Rightarrow> headers \<Rightarrow> 'm serializers \<Rightarrow> 'j request \<Rightarrow> 'm obj \<Rightarrow> 'a store_scheme \<Rightarrow> 'a store_scheme \<times> 'm obj res" where
  "compressed deflate text_headers sers r response st =
     (case response of
        ObjNone \<Rightarrow> (st, Inr (ObjResponse (rq_path r) (rq_method r) DEFAULT_HEADERS ObjNone))
      | ObjText t \<Rightarrow>
          (case Response (rq_path r) (rq_method r) text_headers (ObjText (b64encode (deflate t))) st of (d, st) \<Rightarrow> (st, Inr d))
      | _ \<Rightarrow>
          (case serialize_object sers r response of
             Inl e \<Rightarrow> (st, Inl e)
           | Inr b \<Rightarrow>
               (case response of
                  ObjResponse _ _ a _ \<Rightarrow>
                    (dict_update a object_headers st,
                     Inr (ObjResponse (rq_path r) (rq_method r) a (ObjText (b64encode (deflate b)))))
                | _ \<Rightarrow> (st, Inl AttributeError))))"

definition compressor_run ::
  "(py_error \<Rightarrow> bytes) \<Rightarrow> (bytes \<Rightarrow> bytes) \<Rightarrow> headers \<Rightarrow> 'm serializers \<Rightarrow> ('j, 'm, 'a) middleware_run" where
  "compressor_run err deflate text_headers sers c response status =
     (let (r, st) = c in
      case compressed deflate text_headers sers r response st of
        (st, Inr d) \<Rightarrow> ((r, st), Inr (Two d (the status), True))
      | (st, Inl e) \<Rightarrow> ((r, st), Inr (Two (failure err r e) 500, False)))"

definition GZipCompressor_run ::
  "(py_error \<Rightarrow> bytes) \<Rightarrow> (bytes \<Rightarrow> bytes) \<Rightarrow> 'm serializers \<Rightarrow> ('j, 'm, 'a) middleware_run" where
  "GZipCompressor_run err deflate = compressor_run err deflate [(b_lit ''content-encoding'', b_lit ''gzip'')]"

definition ZStandardCompressor_run ::
  "(py_error \<Rightarrow> bytes) \<Rightarrow> (bytes \<Rightarrow> bytes) \<Rightarrow> 'm serializers \<Rightarrow> ('j, 'm, 'a) middleware_run" where
  "ZStandardCompressor_run err deflate =
     compressor_run err deflate [(b_lit ''x-compression-encoding'', b_lit ''zstd''), (b_lit ''content-type'', b_lit ''text/plain'')]"

text \<open>
  \<open>__pre__\<close> and \<open>__post__\<close> of the bidirectional compressors. The comparison of the lines of a request with \<open>b''\<close> is
  always unequal, and reading and compressing the content does not raise.
\<close>

definition compressor_pre :: "(bytes \<Rightarrow> bytes) \<Rightarrow> ('j, 'm, 'a) middleware_run" where
  "compressor_pre deflate c response status =
     (case request_content (fst c) of
        (r, octets) \<Rightarrow>
          (case Response (rq_path r) (rq_method r) [(b_lit ''x-compression-encoding'', b_lit ''zstd'')] ObjNone (snd c) of
             (d, st) \<Rightarrow> ((set_content (deflate octets) r, st), Inr (Three True d 200, True))))"

definition compressor_post ::
  "(py_error \<Rightarrow> bytes) \<Rightarrow> (bytes \<Rightarrow> bytes) \<Rightarrow> 'm serializers \<Rightarrow> ('j, 'm, 'a) middleware_run" where
  "compressor_post err deflate sers c response status =
     (let (r, st) = c in
      case compressed deflate object_headers sers r response st of
        (st, Inr d) \<Rightarrow> ((r, st), Inr (Three True d (the status), True))
      | (st, Inl e) \<Rightarrow> ((r, st), Inr (Three True (failure err r e) 500, False)))"

section \<open>Decompression\<close>

definition content_encoding :: "headers \<Rightarrow> bytes option" where
  "content_encoding hs =
     (case map_of hs (b_lit ''content-encoding'') of Some v \<Rightarrow> Some v | None \<Rightarrow> map_of hs (b_lit ''x-compression-encoding''))"

definition no_encoding :: "headers \<Rightarrow> headers" where
  "no_encoding hs = filter (\<lambda>(k, _). k \<noteq> b_lit ''content-encoding'' \<and> k \<noteq> b_lit ''x-compression-encoding'') hs"

definition drop_encoding :: "nat \<Rightarrow> 'a store_scheme \<Rightarrow> 'a store_scheme" where
  "drop_encoding a st = st\<lparr>dict_cells := (dict_cells st)(a := no_encoding (dict_cells st a))\<rparr>"

text \<open>
  The answer is a triple in every successful branch but the last, which is a pair. With zstandard (\<open>early\<close>) the
  encoding is removed from the headers before the data is decompressed, with gzip after it.
\<close>

definition decompressed ::
  "(bytes \<Rightarrow> bytes res) \<Rightarrow> headers \<Rightarrow> bool \<Rightarrow> 'm serializers \<Rightarrow> 'j request \<Rightarrow> 'm obj \<Rightarrow> int \<Rightarrow> 'a store_scheme \<Rightarrow>
    'a store_scheme \<times> 'm run_answer res" where
  "decompressed dec text_headers early sers r response status st =
     (case response of
        ObjNone \<Rightarrow> (st, Inr (Three True (ObjResponse (rq_path r) (rq_method r) DEFAULT_HEADERS ObjNone) status))
      | ObjText t \<Rightarrow>
          (case rbind (dec t) py_decode of
             Inl e \<Rightarrow> (st, Inl e)
           | Inr text \<Rightarrow>
               (case Response (rq_path r) (rq_method r) text_headers (ObjText text) st of (d, st) \<Rightarrow> (st, Inr (Three True d status))))
      | ObjResponse _ _ a _ \<Rightarrow>
          (if content_encoding (dict_cells st a) = Some (b_lit ''gzip'')
           then
             (let st0 = (if early then drop_encoding a st else st) in
              case rbind (serialize_object sers r response) dec of
                Inl e \<Rightarrow> (st0, Inl e)
              | Inr b \<Rightarrow>
                  (case py_decode b of
                     Inl e \<Rightarrow> (drop_encoding a st, Inl e)
                   | Inr text \<Rightarrow>
                       (drop_encoding a st, Inr (Three True (ObjResponse (rq_path r) (rq_method r) a (ObjText text)) status))))
           else (st, Inr (Two response status)))
      | _ \<Rightarrow> (st, Inl AttributeError))"

text \<open>The failure of a unidirectional decompressor is a triple, too.\<close>

definition decompressor_run ::
  "(py_error \<Rightarrow> bytes) \<Rightarrow> (bytes \<Rightarrow> bytes res) \<Rightarrow> headers \<Rightarrow> bool \<Rightarrow> 'm serializers \<Rightarrow> ('j, 'm, 'a) middleware_run" where
  "decompressor_run err dec text_headers early sers c response status =
     (let (r, st) = c in
      case decompressed dec text_headers early sers r response (the status) st of
        (st, Inr ans) \<Rightarrow> ((r, st), Inr (ans, True))
      | (st, Inl e) \<Rightarrow> ((r, st), Inr (Three True (failure err r e) 500, False)))"

definition text_plain :: headers where
  "text_plain = [(b_lit ''content-type'', b_lit ''text/plain'')]"

definition GZipDecompressor_run ::
  "(py_error \<Rightarrow> bytes) \<Rightarrow> (bytes \<Rightarrow> bytes res) \<Rightarrow> 'm serializers \<Rightarrow> ('j, 'm, 'a) middleware_run" where
  "GZipDecompressor_run err dec = decompressor_run err dec text_plain False"

definition ZStandardDecompressor_run ::
  "(py_error \<Rightarrow> bytes) \<Rightarrow> (bytes \<Rightarrow> bytes res) \<Rightarrow> 'm serializers \<Rightarrow> ('j, 'm, 'a) middleware_run" where
  "ZStandardDecompressor_run err dec = decompressor_run err dec object_headers True"

text \<open>\<open>__pre__\<close>: the variable \<open>parsed_headers\<close> is bound only when the request is compressed.\<close>

definition UnboundLocalError :: py_error where
  "UnboundLocalError = GenericException ''UnboundLocalError''"

definition pre_failure :: "(py_error \<Rightarrow> bytes) \<Rightarrow> 'j request \<Rightarrow> py_error \<Rightarrow> 'm run_answer \<times> bool" where
  "pre_failure err r e = (Three False (ObjResponse (rq_path r) (rq_method r) DEFAULT_HEADERS (ObjText (err e))) 500, False)"

definition decompressor_pre ::
  "'j http_lib \<Rightarrow> (py_error \<Rightarrow> bytes) \<Rightarrow> (bytes \<Rightarrow> bytes res) \<Rightarrow> ('j, 'm, 'a) middleware_run" where
  "decompressor_pre L err dec c response status =
     (case parsed_headers L (fst c) of
        (r, Inl e) \<Rightarrow> ((r, snd c), Inr (pre_failure err r e))
      | (r, Inr hs) \<Rightarrow>
          (if content_encoding hs = Some (b_lit ''gzip'')
           then
             (case request_content r of
                (r, octets) \<Rightarrow>
                  (case dec octets of
                     Inl e \<Rightarrow> ((r, snd c), Inr (pre_failure err r e))
                   | Inr plain \<Rightarrow>
                       (case Response (rq_path r) (rq_method r) (no_encoding hs) ObjNone (snd c) of
                          (d, st) \<Rightarrow> ((set_content plain r, st), Inr (Three True d 200, True)))))
           else ((r, snd c), Inr (pre_failure err r UnboundLocalError))))"

definition decompressor_post ::
  "(py_error \<Rightarrow> bytes) \<Rightarrow> (bytes \<Rightarrow> bytes res) \<Rightarrow> headers \<Rightarrow> bool \<Rightarrow> 'm serializers \<Rightarrow> ('j, 'm, 'a) middleware_run" where
  "decompressor_post err dec text_headers early sers c response status =
     (let (r, st) = c in
      case decompressed dec text_headers early sers r response (the status) st of
        (st, Inr ans) \<Rightarrow> ((r, st), Inr (ans, True))
      | (st, Inl e) \<Rightarrow> ((r, st), Inr (Three True (failure err r e) 500, False)))"

section \<open>The bidirectional classes\<close>

definition BidirectionalGZipCompressor_pre :: "(bytes \<Rightarrow> bytes) \<Rightarrow> ('j, 'm, 'a) middleware_run" where
  "BidirectionalGZipCompressor_pre = compressor_pre"

definition BidirectionalGZipCompressor_post ::
  "(py_error \<Rightarrow> bytes) \<Rightarrow> (bytes \<Rightarrow> bytes) \<Rightarrow> 'm serializers \<Rightarrow> ('j, 'm, 'a) middleware_run" where
  "BidirectionalGZipCompressor_post = compressor_post"

definition BidirectionalZStandardCompressor_pre :: "(bytes \<Rightarrow> bytes) \<Rightarrow> ('j, 'm, 'a) middleware_run" where
  "BidirectionalZStandardCompressor_pre = compressor_pre"

definition BidirectionalZStandardCompressor_post ::
  "(py_error \<Rightarrow> bytes) \<Rightarrow> (bytes \<Rightarrow> bytes) \<Rightarrow> 'm serializers \<Rightarrow> ('j, 'm, 'a) middleware_run" where
  "BidirectionalZStandardCompressor_post = compressor_post"

definition BidirectionalGZipDecompressor_pre ::
  "'j http_lib \<Rightarrow> (py_error \<Rightarrow> bytes) \<Rightarrow> (bytes \<Rightarrow> bytes res) \<Rightarrow> ('j, 'm, 'a) middleware_run" where
  "BidirectionalGZipDecompressor_pre = decompressor_pre"

definition BidirectionalGZipDecompressor_post ::
  "(py_error \<Rightarrow> bytes) \<Rightarrow> (bytes \<Rightarrow> bytes res) \<Rightarrow> 'm serializers \<Rightarrow> ('j, 'm, 'a) middleware_run" where
  "BidirectionalGZipDecompressor_post err dec = decompressor_post err dec text_plain False"

definition BidirectionalZStandardDecompressor_pre ::
  "'j http_lib \<Rightarrow> (py_error \<Rightarrow> bytes) \<Rightarrow> (bytes \<Rightarrow> bytes res) \<Rightarrow> ('j, 'm, 'a) middleware_run" where
  "BidirectionalZStandardDecompressor_pre = decompressor_pre"

definition BidirectionalZStandardDecompressor_post ::
  "(py_error \<Rightarrow> bytes) \<Rightarrow> (bytes \<Rightarrow> bytes res) \<Rightarrow> 'm serializers \<Rightarrow> ('j, 'm, 'a) middleware_run" where
  "BidirectionalZStandardDecompressor_post err dec = decompressor_post err dec object_headers True"

section \<open>What comes of it\<close>

text \<open>Around a handler that returns, a compressor always answers with a response: with the status of the handler, or
  with 500 when the object cannot be serialized.\<close>

theorem compressor_answers:
  assumes "handler (r, st) = ((r1, st1), Inr (result, status))"
  shows "\<exists>c d n. unidirectional_call False False handler (compressor_run err deflate text_headers sers) (r, st) = (c, Inr (d, n)) \<and>
    is_ObjResponse d \<and> n \<in> {status, 500} \<and> (\<forall>t. result = ObjText t \<longrightarrow> n = status \<and> resp_data d = ObjText (b64encode (deflate t)))"
proof -
  have c: "\<exists>st2 e d. compressed deflate text_headers sers r1 result st1 = (st2, Inl e) \<and> (\<forall>t. result \<noteq> ObjText t) \<or>
      compressed deflate text_headers sers r1 result st1 = (st2, Inr d) \<and> is_ObjResponse d \<and>
      (\<forall>t. result = ObjText t \<longrightarrow> resp_data d = ObjText (b64encode (deflate t)))"
    by (cases result; cases "serialize_object sers r1 result") (auto simp: compressed_def Response_def new_dict_def)
  then show ?thesis using assms
    by (auto simp: unidirectional_call_def unpack_two_def compressor_run_def failure_def)
qed

text \<open>A unidirectional decompressor never hands on what it has decompressed: its wrapper cannot take the triple apart.
  Only a response that is not compressed passes.\<close>

theorem decompressor_raises:
  assumes "handler (r, st) = ((r1, st1), Inr (result, status))"
    "\<forall>p me a d. result = ObjResponse p me a d \<longrightarrow> content_encoding (dict_cells st1 a) = Some (b_lit ''gzip'')"
  shows "\<exists>c. unidirectional_call False False handler (decompressor_run err dec text_headers early sers) (r, st) = (c, Inl ValueError)"
proof -
  have "\<exists>c q d n next. decompressor_run err dec text_headers early sers (r1, st1) result (Some status) = (c, Inr (Three q d n, next))"
    using assms(2) by (auto simp: decompressor_run_def decompressed_def Let_def split: obj.splits prod.splits sum.splits)
  then show ?thesis using assms(1) by (auto simp: unidirectional_call_def unpack_two_def)
qed

text \<open>A bidirectional decompressor refuses every request that is not compressed; the handler does not run.\<close>

theorem plain_request_refused:
  assumes "parsed_headers L r = (r', Inr hs)" "content_encoding hs \<noteq> Some (b_lit ''gzip'')"
  shows "bidirectional_call wraps handler (decompressor_pre L err dec) post (r, st) =
    ((r', st), Inr (ObjResponse (rq_path r') (rq_method r') DEFAULT_HEADERS (ObjText (err UnboundLocalError)), 500))"
  using assms by (simp add: bidirectional_call_def unpack_three_def decompressor_pre_def pre_failure_def)

end
