(* ===== verification/Http_Server.thy ===== *)
theory Http_Server
  imports Http_Compression
begin

text \<open>
  The HTTP server of a node: the choice of a rate limiter (\<open>rate_limiting/limiter.py\<close>, \<open>models/http/limit.py\<close>) and
  \<open>_route_request\<close> of \<open>connection/tcp/mercury_sync_http_connection.py\<close>, from the bytes of a request to the bytes
  of the reply. A handler is a function of the request and the store, as the middleware builds it. A limiter
  is a state with an \<open>acquire\<close> that says whether the request is rejected. One segment of the connection is one
  request.
\<close>

section \<open>Rate limits\<close>

datatype limiter_key = TextKey bytes | IpKey bytes

record 'j limit =
  limiter_type :: "bytes option"
  limit_key :: "('j request \<Rightarrow> bytes \<Rightarrow> bytes) option"
  limit_rules :: "('j request \<Rightarrow> bytes \<Rightarrow> bool) list option"

definition get_key :: "'j limit \<Rightarrow> 'j request \<Rightarrow> bytes \<Rightarrow> limiter_key \<Rightarrow> limiter_key" where
  "get_key l r ip otherwise = (case limit_key l of None \<Rightarrow> otherwise | Some f \<Rightarrow> TextKey (f r ip))"

text \<open>The loop keeps the answer of the last rule.\<close>

definition limit_matches :: "'j limit \<Rightarrow> 'j request \<Rightarrow> bytes \<Rightarrow> bool" where
  "limit_matches l r ip = (case limit_rules l of None \<Rightarrow> True | Some rules \<Rightarrow> foldl (\<lambda>_ rule. rule r ip) False rules)"

record ('j, 'l) limiter_config =
  default_limit :: "'j limit"
  strategy :: bytes
  default_type :: bytes
  new_limiter :: "bytes \<Rightarrow> 'j limit \<Rightarrow> 'l option"
  try_acquire :: "'l \<Rightarrow> 'l \<times> bool res"

text \<open>The branches of \<open>limit\<close>: the limit that applies and the key of its limiter.\<close>

definition select_limit :: "('j, 'l) limiter_config \<Rightarrow> 'j limit option \<Rightarrow> 'j request \<Rightarrow> bytes \<Rightarrow> ('j limit \<times> limiter_key) option" where
  "select_limit k l r ip =
     (if strategy k = b_lit ''ip'' then
        (let l = (case l of None \<Rightarrow> default_limit k | Some l \<Rightarrow> l) in Some (l, get_key l r ip (IpKey ip)))
      else if strategy k = b_lit ''endpoint'' \<and> l \<noteq> None then Some (the l, get_key (the l) r ip (TextKey (rq_path r)))
      else if strategy k = b_lit ''global'' then
        Some (default_limit k, get_key (default_limit k) r ip (TextKey (b_lit ''default'')))
      else if strategy k = b_lit ''ip-endpoint'' \<and> l \<noteq> None then
        Some (the l, get_key (the l) r ip (TextKey (rq_path r @ [95] @ ip)))
      else map_option (\<lambda>l. (l, get_key l r ip (TextKey (b_lit ''default'')))) l)"

type_synonym 'l limiters = "(limiter_key \<times> 'l) list"

text \<open>An unknown type of limiter is None, which cannot be called.\<close>

definition check_limiter :: "('j, 'l) limiter_config \<Rightarrow> limiter_key \<Rightarrow> 'j limit \<Rightarrow> 'l limiters \<Rightarrow> 'l limiters \<times> bool res" where
  "check_limiter k key l ls =
     (case (case map_of ls key of
              Some s \<Rightarrow> Some s
            | None \<Rightarrow> new_limiter k (case limiter_type l of None \<Rightarrow> default_type k | Some t \<Rightarrow> t) l) of
        None \<Rightarrow> (ls, Inl TypeError)
      | Some s \<Rightarrow> (case try_acquire k s of (s, b) \<Rightarrow> (AList.update key s ls, b)))"

definition limiter_limit ::
  "('j, 'l) limiter_config \<Rightarrow> bytes \<Rightarrow> 'j request \<Rightarrow> 'j limit option \<Rightarrow> 'l limiters \<Rightarrow> 'l limiters \<times> bool res" where
  "limiter_limit k ip r l ls =
     (case select_limit k l r ip of
        None \<Rightarrow> (ls, Inr False)
      | Some (l, key) \<Rightarrow> if key \<noteq> TextKey [] \<and> limit_matches l r ip then check_limiter k key l ls else (ls, Inr False))"

section \<open>The server\<close>

record ('j, 'm, 'a) route =
  rt_call :: "('j, 'm, 'a) handler"
  rt_limit :: "'j limit option"
  rt_headers :: nat

record ('j, 'm, 'a, 'l) server =
  events :: "bytes \<Rightarrow> ('j, 'm, 'a) route option"
  supported :: "bytes \<Rightarrow> (bytes \<Rightarrow> bool) option"
  middleware_enabled :: "bytes \<Rightarrow> bool"
  response_parsers :: "bytes \<Rightarrow> ('m obj \<Rightarrow> bytes res) option"
  rate_limiting :: bool
  limiter :: "('j, 'l) limiter_config"
  seal :: "(bytes \<Rightarrow> bytes) option"

text \<open>What requests change beside the store: the limiters, and what is written to the transport.\<close>

record 'l side =
  limiters :: "'l limiters"
  outgoing :: "bytes list"
  is_closing :: bool

type_synonym ('a, 'l) world = "'a store_scheme \<times> 'l side"

definition sealed :: "('j, 'm, 'a, 'l) server \<Rightarrow> bytes \<Rightarrow> bytes" where
  "sealed s data = (case seal s of None \<Rightarrow> data | Some f \<Rightarrow> f data)"

definition transport_write :: "bytes \<Rightarrow> 'l side \<Rightarrow> 'l side" where
  "transport_write bs n = n\<lparr>outgoing := outgoing n @ [bs]\<rparr>"

text \<open>An error as an \<open>HTTPMessage\<close>, whose validation refuses other methods.\<close>

definition error_message :: "bytes \<Rightarrow> bytes \<Rightarrow> bytes \<Rightarrow> int \<Rightarrow> bytes \<Rightarrow> 'j http_message res" where
  "error_message path method request_type status err =
     (if method \<in> set message_methods
      then Inr (HTTPMessage\<lparr>hm_protocol := request_type, hm_path := Some path, hm_method := Some method, hm_status := Some status, hm_error := Some err\<rparr>)
      else Inl ValueError)"

definition write_error ::
  "'j http_lib \<Rightarrow> bytes \<Rightarrow> bytes \<Rightarrow> bytes \<Rightarrow> int \<Rightarrow> bytes \<Rightarrow> 'l side \<Rightarrow> 'l side \<times> unit res" where
  "write_error L path method request_type status err n =
     (case rbind (error_message path method request_type status err) (prepare_response L) of
        Inl e \<Rightarrow> (n, Inl e)
      | Inr bs \<Rightarrow> (transport_write bs n, Inr ()))"

text \<open>The length and the text of an object in the reply; bytes are written as their \<open>repr\<close>.\<close>

definition measured :: "'m obj \<Rightarrow> (nat \<times> bytes) res" where
  "measured d =
     (case d of
        ObjText t \<Rightarrow> Inr (text_len t, t)
      | ObjBytes b \<Rightarrow> Inr (length b, b_lit (str_of_bytes (Some b)))
      | _ \<Rightarrow> Inl TypeError)"

text \<open>
  The text and the announced length of an answer. With middleware the headers of the response go into the
  dictionary of the handler, which is the one of all its requests.
\<close>

definition encode_answer ::
  "('j, 'm, 'a, 'l) server \<Rightarrow> nat \<Rightarrow> bytes \<Rightarrow> bytes \<Rightarrow> 'm obj \<Rightarrow> int \<Rightarrow> 'a store_scheme \<Rightarrow> 'a store_scheme \<times> (nat \<times> bytes) res" where
  "encode_answer s kept key path d status st =
     (case (middleware_enabled s path, response_parsers s (key @ [95] @ dec_int status)) of
        (True, Some parser) \<Rightarrow>
          (case d of
             ObjResponse _ _ a x \<Rightarrow>
               (case parser x of
                  Inl e \<Rightarrow> (st, Inl e)
                | Inr t \<Rightarrow> (dict_update kept (dict_cells st a) st, Inr (text_len t, t)))
           | _ \<Rightarrow> (st, Inl AttributeError))
      | (True, None) \<Rightarrow>
          (case d of
             ObjResponse _ _ a x \<Rightarrow> (dict_update kept (dict_cells st a) st, if obj_true x then measured x else Inr (0, []))
           | _ \<Rightarrow> (st, Inl AttributeError))
      | (False, Some parser) \<Rightarrow> (st, rbind (parser d) (\<lambda>t. Inr (text_len t, t)))
      | (False, None) \<Rightarrow> (st, if obj_true d then measured d else Inr (0, [])))"

definition reply_bytes :: "int \<Rightarrow> nat \<Rightarrow> headers \<Rightarrow> bytes \<Rightarrow> bytes" where
  "reply_bytes status n hs t =
     HTTP_1_1 @ [32] @ dec_int status @ b_lit '' OK'' @ crlf @ length_header n @ extra_headers hs @ crlf @ crlf @ t"

text \<open>
  The body of \<open>try\<close> behind the lookup of the handler and the split of the path. The result says whether the
  request was answered or dropped without an exception.
\<close>

definition admit ::
  "'j http_lib \<Rightarrow> ('j, 'm, 'a, 'l) server \<Rightarrow> ('j, 'm, 'a) route \<Rightarrow> bytes \<Rightarrow> bytes \<Rightarrow> 'j request \<Rightarrow> 'l side \<Rightarrow> 'l side \<times> bool res" where
  "admit L s rt request_type ip r n =
     (if \<not> rate_limiting s then (n, Inr True)
      else
        (case limiter_limit (limiter s) ip r (rt_limit rt) (limiters n) of
           (ls, Inl e) \<Rightarrow> (n\<lparr>limiters := ls\<rparr>, Inl e)
         | (ls, Inr rejected) \<Rightarrow>
             (let n = n\<lparr>limiters := ls\<rparr> in
              if \<not> rejected then (n, Inr True)
              else if \<not> is_closing n then
                sbind (write_error L (rq_path r) (rq_method r) request_type 429 (b_lit ''Too Many Requests'') n) (\<lambda>n _. (n, Inr False))
              else (n, Inr False))))"

definition answer ::
  "'j http_lib \<Rightarrow> ('j, 'm, 'a, 'l) server \<Rightarrow> ('j, 'm, 'a) route \<Rightarrow> bytes \<Rightarrow> bytes \<Rightarrow> bytes \<Rightarrow> 'j request \<Rightarrow> ('a, 'l) world \<Rightarrow>
    ('a, 'l) world \<times> unit res" where
  "answer L s rt key request_type ip r w =
     (case admit L s rt request_type ip r (snd w) of
        (n, Inl e) \<Rightarrow> ((fst w, n), Inl e)
      | (n, Inr False) \<Rightarrow> ((fst w, n), Inr ())
      | (n, Inr True) \<Rightarrow>
          (case rt_call rt (r, fst w) of
             ((_, st), Inl e) \<Rightarrow> ((st, n), Inl e)
           | ((_, st), Inr (d, status)) \<Rightarrow>
               (case encode_answer s (rt_headers rt) key (rq_path r) d status st of
                  (st, Inl e) \<Rightarrow> ((st, n), Inl e)
                | (st, Inr (k, t)) \<Rightarrow>
                    ((st, transport_write (sealed s (reply_bytes status k (dict_cells st (rt_headers rt)) t)) n), Inr ()))))"

text \<open>The two \<open>except\<close> clauses.\<close>

definition on_error ::
  "'j http_lib \<Rightarrow> ('j, 'm, 'a, 'l) server \<Rightarrow> bytes \<Rightarrow> bytes \<Rightarrow> bytes \<Rightarrow> py_error \<Rightarrow> 'l side \<Rightarrow> 'l side \<times> unit res" where
  "on_error L s path method request_type e n =
     (if e = KeyError
      then
        (case supported s path of
           None \<Rightarrow> write_error L path method request_type 404 (b_lit ''Not Found'') n
         | Some ms \<Rightarrow>
             if \<not> ms method then write_error L path method request_type 405 (b_lit ''Method Not Allowed'') n
             else (n, Inr ()))
      else if \<not> is_closing n then write_error L path method request_type 500 (b_lit ''Internal Error'') n
      else (n, Inr ()))"

definition split_query :: "bytes \<Rightarrow> (bytes \<times> bytes option) res" where
  "split_query path =
     (if 63 \<in> set path then (case split_char 63 path of [p, q] \<Rightarrow> Inr (p, Some q) | _ \<Rightarrow> Inl ValueError) else Inr (path, None))"

definition handler_key :: "bytes \<Rightarrow> bytes \<Rightarrow> bytes" where
  "handler_key method path = method @ [95] @ path"

definition route_request ::
  "'j http_lib \<Rightarrow> ('j, 'm, 'a, 'l) server \<Rightarrow> bytes \<Rightarrow> bytes \<Rightarrow> ('a, 'l) world \<Rightarrow> ('a, 'l) world \<times> unit res" where
  "route_request L s ip data w =
     (let lines = split_crlf (sealed s data) in
      case words3 (hd lines) of
        Inl e \<Rightarrow> (w, Inl e)
      | Inr (method, path, request_type) \<Rightarrow>
          (let handled = (\<lambda>path (w, r). case r of
                 Inl e \<Rightarrow> (case on_error L s path method request_type e (snd w) of (n, r) \<Rightarrow> ((fst w, n), r))
               | Inr _ \<Rightarrow> (w, Inr ()))
           in case events s (handler_key method path) of
                None \<Rightarrow> handled path (w, Inl KeyError)
              | Some rt \<Rightarrow>
                  (case split_query path of
                     Inl e \<Rightarrow> handled path (w, Inl e)
                   | Inr (p, q) \<Rightarrow>
                       handled p (answer L s rt (handler_key method path) request_type ip (Request p method q lines) w))))"

section \<open>Limiters\<close>

fun limiter_run :: "('j, 'l) limiter_config \<Rightarrow> 'l limiters \<Rightarrow> (bytes \<times> 'j request \<times> 'j limit option) list \<Rightarrow> 'l limiters" where
  "limiter_run k ls [] = ls"
| "limiter_run k ls ((ip, r, l) # qs) = limiter_run k (fst (limiter_limit k ip r l ls)) qs"

fun uses_limiter :: "('j, 'l) limiter_config \<Rightarrow> limiter_key \<Rightarrow> bytes \<times> 'j request \<times> 'j limit option \<Rightarrow> bool" where
  "uses_limiter k key (ip, r, l) =
     (case select_limit k l r ip of
        None \<Rightarrow> False
      | Some (l', key') \<Rightarrow> key' = key \<and> key \<noteq> TextKey [] \<and> limit_matches l' r ip)"

text \<open>C7: Once a limiter exists, it counts exactly the requests of its key, in their order; all others pass it by.\<close>

theorem limiters_isolated:
  assumes "map_of ls key = Some v"
  shows "map_of (limiter_run k ls qs) key = Some (((fst \<circ> try_acquire k) ^^ length (filter (uses_limiter k key) qs)) v)"
  using assms
proof (induction qs arbitrary: ls v)
  case (Cons q qs)
  obtain ip r l where q: "q = (ip, r, l)" by (cases q)
  let ?ls = "fst (limiter_limit k ip r l ls)"
  have "map_of ?ls key = Some (if uses_limiter k key q then fst (try_acquire k v) else v)"
    using Cons.prems by (auto simp: q limiter_limit_def check_limiter_def update_conv' split: option.splits prod.splits)
  from Cons.IH [OF this] show ?case
    using funpow_swap1 [of "fst \<circ> try_acquire k" "length (filter (uses_limiter k key) qs)" v]
    by (cases "uses_limiter k key q") (simp_all add: q o_def del: uses_limiter.simps)
qed simp

definition counting_limiter :: "bytes \<Rightarrow> (unit, nat) limiter_config" where
  "counting_limiter strat = \<lparr>default_limit = \<lparr>limiter_type = None, limit_key = None, limit_rules = None\<rparr>, strategy = strat,
     default_type = b_lit ''token-bucket'', new_limiter = (\<lambda>_ _. Some 0), try_acquire = (\<lambda>n. (n + 1, Inr (3 < n)))\<rparr>"

theorem limiters_isolated_witness:
  "map_of (limiter_run (counting_limiter (b_lit ''ip'')) [(IpKey [1], 5)]
     [([1], Request [] [] None [], None), ([2], Request [] [] None [], None), ([1], Request [] [] None [], None)]) (IpKey [1]) = Some (7 :: nat)"
  by (subst limiters_isolated [of _ "IpKey [1]" "5 :: nat"])
    (simp_all add: counting_limiter_def select_limit_def get_key_def limit_matches_def)

lemma last_rule_decides: "limit_rules l = Some (rules @ [rule]) \<Longrightarrow> limit_matches l r ip = rule r ip"
  by (simp add: limit_matches_def)

section \<open>Requests and replies\<close>

lemma route_answered:
  assumes "words3 (hd (split_crlf (sealed s data))) = Inr (method, path, request_type)" "63 \<notin> set path"
    "events s (handler_key method path) = Some rt"
    "answer L s rt (handler_key method path) request_type ip (Request path method None (split_crlf (sealed s data))) w = (w', Inr ())"
  shows "route_request L s ip data w = (w', Inr ())"
  using assms by (simp add: route_request_def split_query_def)

lemma answer_plain:
  assumes "\<not> rate_limiting s" "rt_call rt (r, st) = ((r', st'), Inr (ObjText t, status))" "\<not> middleware_enabled s (rq_path r)"
    "response_parsers s (key @ [95] @ dec_int status) = None"
  shows "answer L s rt key request_type ip r (st, n) =
    ((st', transport_write (sealed s (reply_bytes status (text_len t) (dict_cells st' (rt_headers rt)) t)) n), Inr ())"
  using assms by (auto simp: answer_def admit_def encode_answer_def measured_def)

lemma reply_bytes_lines:
  "reply_bytes status (text_len t) hs t = concat (map (\<lambda>l. l @ crlf)
    ((HTTP_1_1 @ [32] @ dec_int status @ [32] @ b_lit ''OK'') # map header_line (content_length_field t # hs))) @ crlf @ t"
  using extra_headers_lines [of hs]
  by (simp add: reply_bytes_def length_header_def content_length_field_def header_line_def [of "(_, _)"])

lemma reply_bytes_parsed:
  assumes "\<forall>f \<in> set hs. wf_line f" "utf8_ok t" "10 \<notin> set t" "strip t = t"
  shows "parse_reply L (reply_bytes status (text_len t) hs t) =
    Inr (HTTPMessage\<lparr>hm_status := Some status, hm_status_message := Some (b_lit ''OK''),
      hm_headers := dict_of L (content_length_field t # hs), hm_data := message_data L t\<rparr>)"
proof -
  let ?first = "HTTP_1_1 @ [32] @ dec_int status @ [32] @ b_lit ''OK''"
  have d: "10 \<notin> set (dec_int status)" "32 \<notin> set (dec_int status)" "utf8_ok (dec_int status)"
    using dec_int_ascii by (fastforce intro: utf8_ok_ascii)+
  have n: "10 \<notin> set ?first" using d by (simp add: HTTP_1_1_def)
  have w: "\<forall>f \<in> set (content_length_field t # hs). wf_line f" using assms(1) content_length_wf by simp
  have "words3 ?first = Inr (HTTP_1_1, dec_int status, b_lit ''OK'')"
    using words3_line [of HTTP_1_1 "dec_int status" "b_lit ''OK''"] d by (simp add: HTTP_1_1_def Let_def)
  then show ?thesis
    unfolding parse_reply_def reply_bytes_lines parsed_lines_wf [OF w n]
    using assms by (simp add: py_int_dec_int split_crlf_last py_decode_def HTTPMessage_def)
qed

text \<open>C5: From client to client: the bytes a client prepares are routed to the handler of their method and path; the
  request the handler gets has the headers and the data of the client; and what the handler answers is what
  the client parses out of the reply: the status, the headers of the route and the text. The path has no query (no
  path with one is ever found), method and path have no space or newline, the header fields of both sides are well
  formed lines, the data and the text have no newline and no outer whitespace, and the server works without
  encryption, rate limiting, middleware on the path and a parser for the response.\<close>

theorem client_served:
  assumes "prepare_request c = Inr bs" "client_path c = Inr path" "\<forall>f \<in> set (cr_headers c). wf_line f" "wf_line (b_lit ''host'', cr_host c)"
    "{10, 32} \<inter> set (cr_method c @ path) = {}" "utf8_ok (cr_method c)" "utf8_ok path" "63 \<notin> set path"
    "10 \<notin> set (sent_data c)" "strip (sent_data c) = sent_data c"
    "seal s = None" "\<not> rate_limiting s" "events s (handler_key (cr_method c) path) = Some rt" "\<not> middleware_enabled s path"
    "rt_call rt (Request path (cr_method c) None (split_crlf bs), st) = ((r', st'), Inr (ObjText t, status))"
    "response_parsers s (handler_key (cr_method c) path @ [95] @ dec_int status) = None"
    "\<forall>f \<in> set (dict_cells st' (rt_headers rt)). wf_line f" "utf8_ok t" "10 \<notin> set t" "strip t = t"
  shows "\<exists>reply q. route_request L s ip bs (st, n) = ((st', transport_write reply n), Inr ()) \<and>
    parsed_headers L (Request path (cr_method c) None (split_crlf bs)) = (q, Inr (dict_of L (sent_fields c))) \<and>
    snd (request_content q) = sent_data c \<and>
    parse_reply L reply = Inr (HTTPMessage\<lparr>hm_status := Some status, hm_status_message := Some (b_lit ''OK''),
      hm_headers := dict_of L (content_length_field t # dict_cells st' (rt_headers rt)), hm_data := message_data L t\<rparr>)"
proof -
  have nl: "10 \<notin> set (cr_method c @ path)" using assms(5) by auto
  obtain q where q: "hd (split_crlf bs) = sent_line c path"
    "parsed_headers L (Request path (cr_method c) None (split_crlf bs)) = (q, Inr (dict_of L (sent_fields c)))"
    "snd (request_content q) = sent_data c"
    using request_seen_by_server [OF assms(1-4) nl assms(9,10), of L path "cr_method c" None] by blast
  have w: "words3 (hd (split_crlf (sealed s bs))) = Inr (cr_method c, path, HTTP_1_1)"
    using words3_line [of "cr_method c" path HTTP_1_1] assms(5,6,7,11)
    by (simp add: q(1) sealed_def sent_line_def HTTP_1_1_def Let_def)
  have a: "answer L s rt (handler_key (cr_method c) path) HTTP_1_1 ip (Request path (cr_method c) None (split_crlf (sealed s bs))) (st, n) =
      ((st', transport_write (reply_bytes status (text_len t) (dict_cells st' (rt_headers rt)) t) n), Inr ())"
    using answer_plain [OF assms(12,15) _ assms(16)] assms(11,14) by (simp add: sealed_def Request_def)
  show ?thesis
    using route_answered [OF w assms(8,13) a] q(2,3) reply_bytes_parsed [OF assms(17-20), of L status] by blast
qed

definition example_store :: store where
  "example_store = \<lparr>dict_cells = (\<lambda>_. []), next_dict = 3, method_lists = (\<lambda>_. [])\<rparr>"

definition quiet_side :: "nat side" where
  "quiet_side = \<lparr>limiters = [], outgoing = [], is_closing = False\<rparr>"

text \<open>A route that counts its requests in a header of its responses, and one that answers with a text.\<close>

definition echo_route :: "(unit, unit, unit) route" where
  "echo_route = \<lparr>rt_call = (\<lambda>c. (c, Inr (ObjText (b_lit ''hi''), 200))), rt_limit = None, rt_headers = 2\<rparr>"

definition example_server :: "bytes \<Rightarrow> (unit, unit, unit) route \<Rightarrow> bool \<Rightarrow> (unit, unit, unit, nat) server" where
  "example_server key rt m = \<lparr>events = [key \<mapsto> rt], supported = (\<lambda>_. None), middleware_enabled = (\<lambda>_. m), response_parsers = (\<lambda>_. None),
     rate_limiting = False, limiter = counting_limiter [], seal = None\<rparr>"

theorem client_served_witness:
  "\<exists>bs reply. prepare_request example_client = Inr bs \<and>
    route_request plain_lib (example_server (handler_key (b_lit ''POST'') (b_lit ''/a'')) echo_route False) [] bs (example_store, quiet_side) =
      ((example_store, transport_write reply quiet_side), Inr ()) \<and>
    parse_reply plain_lib reply = Inr (HTTPMessage\<lparr>hm_status := Some 200, hm_status_message := Some (b_lit ''OK''),
      hm_headers := [(b_lit ''content-length'', b_lit ''2'')], hm_data := MsgText (b_lit ''hi'')\<rparr>)"
proof -
  let ?s = "example_server (handler_key (b_lit ''POST'') (b_lit ''/a'')) echo_route False"
  have p: "client_path example_client = Inr (b_lit ''/a'')" by (simp add: client_path_def example_client_def)
  obtain bs where bs: "prepare_request example_client = Inr bs" using p by (simp add: prepare_request_def)
  have f: "\<forall>f \<in> set (cr_headers example_client). wf_line f" "wf_line (b_lit ''host'', cr_host example_client)"
    using text_strip_ascii [of "b_lit ''7''"] text_strip_ascii [of "b_lit ''h''"]
    by (simp_all add: example_client_def wf_line_def Let_def)
  have t: "text_len (b_lit ''hi'') = 2" by (simp add: text_len_def text_chars.simps(2) cont_byte_def)
  have d: "dict_of plain_lib [content_length_field (b_lit ''hi'')] = [(b_lit ''content-length'', b_lit ''2'')]"
    using t by (simp add: dict_of_def content_length_field_def plain_lib_def lower_def decimal.simps)
  have c: "{10, 32} \<inter> set (cr_method example_client @ b_lit ''/a'') = {}" "utf8_ok (cr_method example_client)" "utf8_ok (b_lit ''/a'')"
    "63 \<notin> set (b_lit ''/a'')" "10 \<notin> set (sent_data example_client)" "strip (sent_data example_client) = sent_data example_client"
    by (simp_all add: example_client_def sent_data_def Let_def strip_by_def is_space_def)
  have s: "seal ?s = None" "\<not> rate_limiting ?s" "events ?s (handler_key (cr_method example_client) (b_lit ''/a'')) = Some echo_route"
    "\<not> middleware_enabled ?s (b_lit ''/a'')"
    "rt_call echo_route (Request (b_lit ''/a'') (cr_method example_client) None (split_crlf bs), example_store) =
      ((Request (b_lit ''/a'') (cr_method example_client) None (split_crlf bs), example_store), Inr (ObjText (b_lit ''hi''), 200))"
    "response_parsers ?s (handler_key (cr_method example_client) (b_lit ''/a'') @ [95] @ dec_int 200) = None"
    "\<forall>f \<in> set (dict_cells example_store (rt_headers echo_route)). wf_line f"
    by (simp_all add: example_server_def echo_route_def example_client_def example_store_def)
  have h: "utf8_ok (b_lit ''hi'')" "10 \<notin> set (b_lit ''hi'')" "strip (b_lit ''hi'') = b_lit ''hi''"
    by (simp_all add: Let_def strip_by_def is_space_def)
  obtain reply where "route_request plain_lib ?s [] bs (example_store, quiet_side) = ((example_store, transport_write reply quiet_side), Inr ())"
    "parse_reply plain_lib reply = Inr (HTTPMessage\<lparr>hm_status := Some 200, hm_status_message := Some (b_lit ''OK''),
      hm_headers := dict_of plain_lib (content_length_field (b_lit ''hi'') # dict_cells example_store (rt_headers echo_route)),
      hm_data := message_data plain_lib (b_lit ''hi'')\<rparr>)"
    using client_served [OF bs p f c s h, of plain_lib "[]" quiet_side] by blast
  then show ?thesis using bs d by (auto simp: example_store_def message_data_def plain_lib_def)
qed

text \<open>A request with a query is looked up with it: where no route is registered with a query, it is not found.\<close>

theorem query_not_found:
  fixes L :: "'j http_lib"
  assumes "words3 (hd (split_crlf (sealed s data))) = Inr (method, path, request_type)" "63 \<in> set path"
    "\<forall>key. 63 \<in> set key \<longrightarrow> events s key = None" "supported s path = None" "method \<in> set message_methods"
  shows "\<exists>m bs. route_request L s ip data (st, n) = ((st, transport_write bs n), Inr ()) \<and> prepare_response L m = Inr bs \<and>
    hm_status m = Some 404"
proof -
  have "events s (handler_key method path) = None" using assms(2,3) by (simp add: handler_key_def)
  then have r: "route_request L s ip data (st, n) =
      (case write_error L path method request_type 404 (b_lit ''Not Found'') n of (n', r) \<Rightarrow> ((st, n'), r))"
    using assms(1,4) by (simp add: route_request_def on_error_def)
  obtain m :: "'j http_message" where m: "error_message path method request_type 404 (b_lit ''Not Found'') = Inr m" "hm_status m = Some 404" "hm_data m = MsgNone"
    using assms(5) by (simp add: error_message_def HTTPMessage_def)
  then obtain bs where "prepare_response L m = Inr bs" by (simp add: prepare_response_def)
  with m show ?thesis by (auto simp: r write_error_def)
qed

theorem query_not_found_witness:
  "\<exists>m bs. route_request plain_lib (example_server (b_lit ''GET_/a'') echo_route False) [] (b_lit ''GET /a?b HTTP/1.1'') (example_store, quiet_side) =
      ((example_store, transport_write bs quiet_side), Inr ()) \<and> prepare_response plain_lib m = Inr bs \<and> hm_status m = Some 404"
proof -
  have "words3 (hd (split_crlf (sealed (example_server (b_lit ''GET_/a'') echo_route False) (b_lit ''GET /a?b HTTP/1.1'')))) =
      Inr (b_lit ''GET'', b_lit ''/a?b'', b_lit ''HTTP/1.1'')"
    by (simp add: words3_def sealed_def example_server_def py_decode_def Let_def)
  then show ?thesis by (rule query_not_found) (auto simp: example_server_def message_methods_def)
qed

text \<open>C37: The client of a node cannot read any of the errors its server sends.\<close>

theorem error_replies_unreadable:
  assumes "write_error L path method request_type status err n = (n', Inr ())"
    "err \<in> b_lit ` {''Not Found'', ''Method Not Allowed'', ''Too Many Requests'', ''Internal Error''}"
  shows "\<exists>bs. outgoing n' = outgoing n @ [bs] \<and> parse_reply L bs = Inl ValueError"
proof -
  obtain m bs where m: "error_message path method request_type status err = Inr m" "prepare_response L m = Inr bs" "n' = transport_write bs n"
    using assms(1) by (auto simp: write_error_def rbind_def split: sum.splits)
  have f: "hm_status m = Some status" "hm_data m = MsgNone" "hm_headers m = []" "reply_reason m = err" "32 \<in> set err" "10 \<notin> set err" "utf8_ok err"
    using m(1) assms(2) by (auto simp: error_message_def HTTPMessage_def reply_reason_def Let_def split: if_splits)
  have "parse_reply L bs = Inl ValueError"
    using reply_parsed [OF m(2) f(1), of "[]"] f by (simp add: strip_by_def)
  then show ?thesis using m(3) by (simp add: transport_write_def)
qed

theorem error_replies_unreadable_witness:
  "\<exists>n' bs. write_error plain_lib [47] (b_lit ''GET'') HTTP_1_1 429 (b_lit ''Too Many Requests'') quiet_side = (n', Inr ()) \<and>
    outgoing n' = [bs] \<and> parse_reply plain_lib bs = Inl ValueError"
proof -
  obtain n' where n: "write_error plain_lib [47] (b_lit ''GET'') HTTP_1_1 429 (b_lit ''Too Many Requests'') quiet_side = (n', Inr ())"
    by (simp add: write_error_def error_message_def message_methods_def prepare_response_def HTTPMessage_def)
  then show ?thesis using error_replies_unreadable [OF n] by (auto simp: quiet_side_def)
qed

section \<open>Headers that outlive their request\<close>

lemma map_of_merge: "distinct (map fst h) \<Longrightarrow> map_of (merge_headers h d) k = (case map_of h k of Some v \<Rightarrow> Some v | None \<Rightarrow> map_of d k)"
proof (induction h arbitrary: d)
  case (Cons f h)
  obtain a v where f: "f = (a, v)" by (cases f)
  have "map_of (merge_headers h (AList.update a v d)) k = (case map_of h k of Some v \<Rightarrow> Some v | None \<Rightarrow> map_of (AList.update a v d) k)"
    using Cons by simp
  moreover have "map_of h a = None" using Cons.prems by (simp add: f map_of_eq_None_iff)
  ultimately show ?case by (auto simp: merge_headers_def f update_conv' split: option.splits)
qed (simp add: merge_headers_def)

lemma answer_with_middleware:
  assumes "\<not> rate_limiting s" "middleware_enabled s (rq_path r)" "rt_call rt (r, st) = ((r', st1), Inr (ObjResponse p me a x, status))"
    "answer L s rt key request_type ip r (st, n) = ((st', n'), Inr ())"
  shows "dict_cells st' (rt_headers rt) = merge_headers (dict_cells st1 a) (dict_cells st1 (rt_headers rt)) \<and>
    (\<exists>k t. outgoing n' = outgoing n @ [sealed s (reply_bytes status k (dict_cells st' (rt_headers rt)) t)])"
  using assms
  by (auto simp: answer_def admit_def encode_answer_def dict_update_def transport_write_def
      split: option.splits sum.splits prod.splits if_splits; blast)

text \<open>C35: With middleware, a header of one response is sent with every later reply of the route, to whomever, until a
  response sets it anew: the dictionary of the route collects the headers of all responses. A cookie that
  is set for one client is set for all that follow.\<close>

theorem header_sent_to_others:
  assumes "\<not> rate_limiting s" "middleware_enabled s (rq_path r)" "middleware_enabled s (rq_path q)"
    "rt_call rt (r, st) = ((r', st1), Inr (ObjResponse p me a x, status))" "distinct (map fst (dict_cells st1 a))"
    "map_of (dict_cells st1 a) name = Some val" "answer L s rt key request_type ip r (st, n) = ((st2, n2), Inr ())"
    "rt_call rt (q, st2) = ((q', st3), Inr (ObjResponse p' me' b y, status'))" "dict_cells st3 (rt_headers rt) = dict_cells st2 (rt_headers rt)"
    "distinct (map fst (dict_cells st3 b))" "map_of (dict_cells st3 b) name = None"
    "answer L s rt key' request_type' ip' q (st2, n2) = ((st4, n4), Inr ())"
  shows "\<exists>k hs t. outgoing n4 = outgoing n2 @ [sealed s (reply_bytes status' k hs t)] \<and> map_of hs name = Some val"
proof -
  note one = answer_with_middleware [OF assms(1,2,4,7)]
  note two = answer_with_middleware [OF assms(1,3,8,12)]
  have "map_of (dict_cells st2 (rt_headers rt)) name = Some val"
    using one map_of_merge [OF assms(5)] assms(6) by simp
  then have "map_of (dict_cells st4 (rt_headers rt)) name = Some val"
    using two map_of_merge [OF assms(10)] assms(9,11) by simp
  then show ?thesis using two by blast
qed

definition cookie_route :: "(unit, unit, unit) route" where
  "cookie_route = \<lparr>rt_call = (\<lambda>(r, st).
     case Response (rq_path r) (rq_method r) (if rq_query r = None then [(b_lit ''set-cookie'', b_lit ''1'')] else []) ObjNone st of
       (d, st) \<Rightarrow> ((r, st), Inr (d, 200))), rt_limit = None, rt_headers = 2\<rparr>"

theorem header_sent_to_others_witness:
  "\<exists>st2 n2 st4 n4 bs k hs t. let s = example_server [] cookie_route True in
    answer plain_lib s cookie_route [] HTTP_1_1 [1] (Request [47] [] None []) (example_store, quiet_side) = ((st2, n2), Inr ()) \<and>
    answer plain_lib s cookie_route [] HTTP_1_1 [2] (Request [47] [] (Some []) []) (st2, n2) = ((st4, n4), Inr ()) \<and>
    outgoing n4 = outgoing n2 @ [sealed s (reply_bytes 200 k hs t)] \<and> map_of hs (b_lit ''set-cookie'') = Some (b_lit ''1'')"
proof -
  let ?s = "example_server [] cookie_route True"
  note run = answer_def admit_def example_server_def cookie_route_def Response_def new_dict_def encode_answer_def Request_def
    example_store_def dict_update_def merge_headers_def
  obtain st2 n2 where one: "answer plain_lib ?s cookie_route [] HTTP_1_1 [1] (Request [47] [] None []) (example_store, quiet_side) = ((st2, n2), Inr ())"
    "dict_cells st2 2 = [(b_lit ''set-cookie'', b_lit ''1'')]" "next_dict st2 = 4"
    by (simp add: run)
  obtain st4 n4 where two: "answer plain_lib ?s cookie_route [] HTTP_1_1 [2] (Request [47] [] (Some []) []) (st2, n2) = ((st4, n4), Inr ())"
    by (simp add: run)
  have s: "\<not> rate_limiting ?s" "middleware_enabled ?s (rq_path q)" for q :: "unit request" by (simp_all add: example_server_def)
  obtain c1 where c1: "rt_call cookie_route (Request [47] [] None [], example_store) = ((fst c1, snd c1), Inr (ObjResponse [47] [] 3 ObjNone, 200))"
    "dict_cells (snd c1) 3 = [(b_lit ''set-cookie'', b_lit ''1'')]"
    by (simp add: run)
  obtain c2 where c2: "rt_call cookie_route (Request [47] [] (Some []) [], st2) = ((fst c2, snd c2), Inr (ObjResponse [47] [] 4 ObjNone, 200))"
    "dict_cells (snd c2) 4 = []" "dict_cells (snd c2) 2 = dict_cells st2 2"
    using one(3) by (simp add: run)
  have h: "rt_headers cookie_route = 2" by (simp add: cookie_route_def)
  have "\<exists>k hs t. outgoing n4 = outgoing n2 @ [sealed ?s (reply_bytes 200 k hs t)] \<and> map_of hs (b_lit ''set-cookie'') = Some (b_lit ''1'')"
    by (rule header_sent_to_others [OF s(1) s(2) s(2) c1(1) _ _ one(1) c2(1) _ _ _ two]) (simp_all add: c1 c2 h)
  then show ?thesis unfolding Let_def using one(1) two by blast
qed

text \<open>A request without three words in its first line is not answered at all, and neither is one whose handler raises a
  \<open>KeyError\<close> when its method is known to be supported.\<close>

theorem silent_requests:
  assumes "words3 (hd (split_crlf (sealed s data))) = Inl e"
  shows "route_request L s ip data w = (w, Inl e)"
  using assms by (simp add: route_request_def)

declare b_lit_simps [simp del]

end
