(* ===== verification/Hpack_Encoder.thy ===== *)
theory Hpack_Encoder
  imports Hpack_Integer Header_Store Huffman_Codes
begin

unbundle bit_operations_syntax

text \<open>
  The HPACK encoder: class \<open>Encoder\<close> of \<open>core/engines/types/common/encoder.py\<close>. Its state is
  a header table and the list of table sizes not yet signalled; the Huffman coder is the
  constant one built from \<open>REQUEST_CODES\<close>. Header names and values are byte strings (a
  \<open>str\<close> header is its UTF-8 encoding, as \<open>_to_bytes\<close> makes it). An operation returns the
  encoder after the call together with its value or the exception it raised.
\<close>

definition INDEX_NONE :: bytes where "INDEX_NONE = [0x00]"

definition INDEX_NEVER :: bytes where "INDEX_NEVER = [0x10]"

definition INDEX_INCREMENTAL :: bytes where "INDEX_INCREMENTAL = [0x40]"

record encoder =
  enc_table :: header_table
  table_size_changes :: "int list"

definition Encoder_init :: encoder where
  "Encoder_init = \<lparr>enc_table = HeaderTable_init, table_size_changes = []\<rparr>"

definition huffman_coder_encode :: "bytes \<Rightarrow> bytes res" where
  "huffman_coder_encode = huffman_encode REQUEST_CODES REQUEST_CODES_LENGTH"

text \<open>\<open>field[0] |= b\<close> on a bytearray.\<close>

definition or_first :: "byte \<Rightarrow> bytes \<Rightarrow> bytes res" where
  "or_first b bs = (case bs of [] \<Rightarrow> Inl IndexError | x # xs \<Rightarrow> Inr ((x OR b) # xs))"

text \<open>The property setter \<open>header_table_size\<close>.\<close>

definition set_header_table_size :: "encoder \<Rightarrow> int \<Rightarrow> encoder \<times> unit res" where
  "set_header_table_size e v =
     (case set_maxsize (enc_table e) v of
        (t, Some err) \<Rightarrow> (e\<lparr>enc_table := t\<rparr>, Inl err)
      | (t, None) \<Rightarrow>
          (if resized t
           then (e\<lparr>enc_table := t, table_size_changes := table_size_changes e @ [v]\<rparr>, Inr ())
           else (e\<lparr>enc_table := t\<rparr>, Inr ())))"

definition encode_indexed :: "int \<Rightarrow> bytes res" where
  "encode_indexed index =
     (case encode_integer index 7 of
        Inl err \<Rightarrow> Inl err
      | Inr field \<Rightarrow> or_first 0x80 field)"

definition encode_string :: "bytes \<Rightarrow> bool \<Rightarrow> bytes res" where
  "encode_string s huffman = (if huffman then huffman_coder_encode s else Inr s)"

text \<open>The length prefix of a string, with the Huffman bit.\<close>

definition encode_length :: "bytes \<Rightarrow> bool \<Rightarrow> bytes res" where
  "encode_length s huffman =
     (case encode_integer (int (length s)) 7 of
        Inl err \<Rightarrow> Inl err
      | Inr n \<Rightarrow> if huffman then or_first 0x80 n else Inr n)"

definition encode_literal :: "bytes \<Rightarrow> bytes \<Rightarrow> bytes \<Rightarrow> bool \<Rightarrow> bytes res" where
  "encode_literal name val indexbit huffman =
     (case encode_string name huffman of
        Inl err \<Rightarrow> Inl err
      | Inr name \<Rightarrow>
          (case encode_string val huffman of
             Inl err \<Rightarrow> Inl err
           | Inr val \<Rightarrow>
               (case encode_length name huffman of
                  Inl err \<Rightarrow> Inl err
                | Inr name_len \<Rightarrow>
                    (case encode_length val huffman of
                       Inl err \<Rightarrow> Inl err
                     | Inr value_len \<Rightarrow> Inr (indexbit @ name_len @ name @ value_len @ val)))))"

definition encode_indexed_literal :: "int \<Rightarrow> bytes \<Rightarrow> bytes \<Rightarrow> bool \<Rightarrow> bytes res" where
  "encode_indexed_literal index val indexbit huffman =
     (case encode_integer index (if indexbit \<noteq> INDEX_INCREMENTAL then 4 else 6) of
        Inl err \<Rightarrow> Inl err
      | Inr prefix \<Rightarrow>
          (case or_first (hd indexbit) prefix of
             Inl err \<Rightarrow> Inl err
           | Inr prefix \<Rightarrow>
               (case encode_string val huffman of
                  Inl err \<Rightarrow> Inl err
                | Inr val \<Rightarrow>
                    (case encode_length val huffman of
                       Inl err \<Rightarrow> Inl err
                     | Inr value_len \<Rightarrow> Inr (prefix @ value_len @ val)))))"

text \<open>\<open>self.header_table.add\<close> unless the header is sensitive.\<close>

definition enc_insert :: "encoder \<Rightarrow> buf \<Rightarrow> buf \<Rightarrow> bool \<Rightarrow> bytes \<Rightarrow> encoder \<times> bytes res" where
  "enc_insert e name val sensitive encoded =
     (if sensitive then (e, Inr encoded)
      else (case table_add (enc_table e) name val of
              (t, None) \<Rightarrow> (e\<lparr>enc_table := t\<rparr>, Inr encoded)
            | (t, Some err) \<Rightarrow> (e\<lparr>enc_table := t\<rparr>, Inl err)))"

text \<open>
  \<open>Encoder.add\<close>. The third component of a match is tested for truth, so a perfect match
  whose value is empty takes the indexed-literal branch.
\<close>

definition enc_add :: "encoder \<Rightarrow> bytes \<Rightarrow> bytes \<Rightarrow> bool \<Rightarrow> bool \<Rightarrow> encoder \<times> bytes res" where
  "enc_add e name val sensitive huffman =
     (let indexbit = (if \<not> sensitive then INDEX_INCREMENTAL else INDEX_NEVER)
      in case table_search (enc_table e) name val of
           None \<Rightarrow>
             (case encode_literal name val indexbit huffman of
                Inl err \<Rightarrow> (e, Inl err)
              | Inr encoded \<Rightarrow> enc_insert e (PyBytes name) (PyBytes val) sensitive encoded)
         | Some (index, name, perfect) \<Rightarrow>
             (if (case perfect of None \<Rightarrow> False | Some p \<Rightarrow> raw p \<noteq> [])
              then (e, encode_indexed index)
              else (case encode_indexed_literal index val indexbit huffman of
                      Inl err \<Rightarrow> (e, Inl err)
                    | Inr encoded \<Rightarrow> enc_insert e name (PyBytes val) sensitive encoded)))"

fun encode_sizes :: "int list \<Rightarrow> bytes res" where
  "encode_sizes [] = Inr []"
| "encode_sizes (size_bytes # sizes) =
     (case encode_integer size_bytes 5 of
        Inl err \<Rightarrow> Inl err
      | Inr bs \<Rightarrow>
          (case or_first 0x20 bs of
             Inl err \<Rightarrow> Inl err
           | Inr bs \<Rightarrow>
               (case encode_sizes sizes of Inl err \<Rightarrow> Inl err | Inr rest \<Rightarrow> Inr (bs @ rest))))"

definition encode_table_size_change :: "encoder \<Rightarrow> encoder \<times> bytes res" where
  "encode_table_size_change e =
     (case encode_sizes (table_size_changes e) of
        Inl err \<Rightarrow> (e, Inl err)
      | Inr block \<Rightarrow> (e\<lparr>table_size_changes := []\<rparr>, Inr block))"

fun enc_add_all :: "encoder \<Rightarrow> field list \<Rightarrow> bool \<Rightarrow> encoder \<times> bytes res" where
  "enc_add_all e [] huffman = (e, Inr [])"
| "enc_add_all e ((name, val) # headers) huffman =
     (case enc_add e name val False huffman of
        (e, Inl err) \<Rightarrow> (e, Inl err)
      | (e, Inr block) \<Rightarrow>
          (case enc_add_all e headers huffman of
             (e, Inl err) \<Rightarrow> (e, Inl err)
           | (e, Inr blocks) \<Rightarrow> (e, Inr (block @ blocks))))"

definition enc_encode :: "encoder \<Rightarrow> field list \<Rightarrow> bool \<Rightarrow> encoder \<times> bytes res" where
  "enc_encode e headers huffman =
     (if resized (enc_table e)
      then (case encode_table_size_change e of
              (e, Inl err) \<Rightarrow> (e, Inl err)
            | (e, Inr block) \<Rightarrow>
                (case enc_add_all (e\<lparr>enc_table := (enc_table e)\<lparr>resized := False\<rparr>\<rparr>) headers huffman of
                   (e, Inl err) \<Rightarrow> (e, Inl err)
                 | (e, Inr blocks) \<Rightarrow> (e, Inr (block @ blocks))))
      else enc_add_all e headers huffman)"

end
