(* ===== verification/Hpack_Roundtrip.thy ===== *)
theory Hpack_Roundtrip
  imports Hpack_Encoder Hpack_Decoder
begin

unbundle bit_operations_syntax

text \<open>
  The HPACK decoder of \<open>decoder.py\<close> against the encoder of \<open>encoder.py\<close>: wire-level lemmas
  for each representation of a header field, and the round trip of a whole header block.
  The tables of the two sides are related by \<open>hs.sync\<close>.
\<close>

section \<open>Flag bits\<close>

lemma byte_take_bit: "unat (b :: byte) < 2 ^ p \<Longrightarrow> take_bit p b = b"
proof -
  assume "unat b < 2 ^ p"
  then have "unat (take_bit p b) = unat b"
    by (simp only: unsigned_take_bit_eq take_bit_nat_eq_self)
  then show ?thesis by (simp only: word_unat_eq_iff)
qed

lemma and_high_zero:
  assumes "unat (b :: byte) < 2 ^ p" "take_bit p x = 0"
  shows "b AND x = 0"
proof -
  have "take_bit p b AND x = take_bit p b AND take_bit p x"
    by (auto simp: bit_eq_iff bit_simps)
  with assms byte_take_bit show ?thesis by simp
qed

lemma or_and_distrib: "((b :: byte) OR x) AND y = (b AND y) OR (x AND y)"
  by (auto simp: bit_eq_iff bit_simps)

section \<open>Integers and strings on the wire\<close>

lemma decode_integer_view_eq:
  "1 \<le> p \<Longrightarrow> p \<le> 8 \<Longrightarrow> decode_integer_view False data p = decode_integer data (int p)"
  by (simp add: decode_integer_view_def decode_integer_def nat_diff_distrib)

lemma encode_integer_first:
  assumes "0 \<le> n" "1 \<le> p" "p \<le> 7" "encode_integer n p = Inr bs"
  obtains b bs' where "bs = b # bs'" "unat b < 2 ^ nat p" "0 < n \<longrightarrow> b \<noteq> 0"
proof -
  have P: "(2::int) ^ nat p \<le> 128" "(2::int) \<le> 2 ^ nat p"
    using prefix_cases [of p] assms(2,3) by auto
  define m :: int where "m = 2 ^ nat p - 1"
  have m: "1 \<le> m" "m < 128" using P by (simp_all add: m_def)
  let ?x = "if n < m then n else m"
  have x: "0 \<le> ?x" "?x < 256" using assms(1) m by auto
  from assms obtain bs' where bs: "bs = word_of_int ?x # bs'"
    using encode_integer_ok [of n p, folded m_def] by (cases "n < m") auto
  have u: "uint (word_of_int ?x :: byte) = ?x" using x by (rule uint_word_of_int_byte)
  have "uint (word_of_int ?x :: byte) < 2 ^ nat p"
    unfolding u using m_def by auto
  then have "unat (word_of_int ?x :: byte) < 2 ^ nat p"
    by (simp add: nat_less_iff flip: nat_uint_eq)
  moreover have "0 < n \<longrightarrow> (word_of_int ?x :: byte) \<noteq> 0"
    using u m(1) by (metis not_one_le_zero order_less_irrefl unsigned_0)
  ultimately show ?thesis using bs that by blast
qed

lemma decode_or_integer:
  assumes "0 \<le> n" "1 \<le> p" "p \<le> 7" "encode_integer n (int p) = Inr (b # bs)" "take_bit p hi = 0"
  shows "decode_integer_view False ((b OR hi) # bs @ rest) p = Inr (n, int (length (b # bs)))"
proof -
  have "decode_integer ((b # bs) @ rest) (int p) = Inr (n, int (length (b # bs)))"
    using assms by (intro decode_encode_integer) auto
  moreover have "decode_integer ((b OR hi) # bs @ rest) (int p) = decode_integer (b # bs @ rest) (int p)"
    using assms by (intro decode_integer_high_bits) auto
  ultimately show ?thesis using assms by (simp add: decode_integer_view_eq)
qed

lemma take_bit_flags [simp]:
  "take_bit 7 (0x80 :: byte) = 0" "take_bit 6 (0x40 :: byte) = 0" "take_bit 5 (0x20 :: byte) = 0"
  "take_bit 6 (0x80 :: byte) = 0" "take_bit 5 (0x80 :: byte) = 0" "take_bit 5 (0x40 :: byte) = 0"
  by (simp_all add: take_bit_eq_mod)

lemma encode_length_ok:
  obtains b bs where "encode_length s h = Inr (b # bs)"
    "\<And>rest. decode_integer_view False ((b # bs) @ rest) 7 = Inr (int (length s), int (length (b # bs)))"
    "b AND 0x80 \<noteq> 0 \<longleftrightarrow> h"
proof -
  obtain es where es: "encode_integer (int (length s)) 7 = Inr es"
    using encode_integer_ok [of "int (length s)" 7] by auto
  obtain b bs where "es = b # bs" "unat b < 2 ^ nat 7"
    by (rule encode_integer_first [OF _ _ _ es]) simp_all
  then have b: "es = b # bs" "unat b < 2 ^ 7" by simp_all
  have z: "b AND 0x80 = 0" using b(2) by (rule and_high_zero) simp
  have dec: "decode_integer_view False ((b OR hi) # bs @ rest) 7 =
      Inr (int (length s), int (length (b # bs)))" if "take_bit 7 hi = 0" for hi rest
    using es that by (intro decode_or_integer) (simp_all add: b)
  show ?thesis
  proof (cases h)
    case True
    have "(b OR 0x80) AND 0x80 \<noteq> 0" by (simp add: or_and_distrib z)
    with True es b dec [of "0x80"] that [of "b OR 0x80" bs] show ?thesis
      by (simp add: encode_length_def or_first_def)
  next
    case False
    with es b dec [of 0] z that [of b bs] show ?thesis
      by (simp add: encode_length_def)
  qed
qed

lemma encode_string_ok:
  obtains s' where "encode_string s h = Inr s'" "h \<Longrightarrow> decode_huffman s' = Inr s" "\<not> h \<Longrightarrow> s' = s"
proof -
  obtain bs where "huffman_encode REQUEST_CODES REQUEST_CODES_LENGTH s = Inr bs" "decode_huffman bs = Inr s"
    by (rule huffman_encode_total)
  then show ?thesis
    using that by (cases h) (simp_all add: encode_string_def huffman_coder_encode_def)
qed

lemma decode_string_roundtrip:
  assumes "encode_string s h = Inr s'" "encode_length s' h = Inr ls"
  obtains b where "decode_string False (ls @ s' @ rest) = Inr (b, int (length s'), int (length ls))"
    "raw b = s"
proof -
  obtain l ls' where l: "ls = l # ls'"
    "decode_integer_view False (ls @ s' @ rest) 7 = Inr (int (length s'), int (length ls))"
    "l AND 0x80 \<noteq> 0 \<longleftrightarrow> h"
    using encode_length_ok [of s' h] assms(2) by (metis sum.inject(2))
  have sl: "py_slice (ls @ s' @ rest) (int (length ls)) (int (length ls) + int (length s')) = s'"
    by (rule py_slice_mid)
  obtain s'' where "encode_string s h = Inr s''" "h \<Longrightarrow> decode_huffman s'' = Inr s" "\<not> h \<Longrightarrow> s'' = s"
    using encode_string_ok by blast
  with assms(1) have s': "h \<Longrightarrow> decode_huffman s' = Inr s" "\<not> h \<Longrightarrow> s' = s" by auto
  have hd: "hd (ls @ s' @ rest) = l" using l(1) by simp
  show ?thesis
  proof (cases h)
    case True
    then show ?thesis
      by (intro that [of "PyBytes s"])
        (simp_all only: decode_string_def l(2) sum.case prod.case sl hd l(3) s'(1) Let_def if_True raw.simps)
  next
    case False
    have "raw (PyView s') = s" using s'(2) [OF False] by simp
    moreover have "decode_string False (ls @ s' @ rest) = Inr (PyView s', int (length s'), int (length ls))"
      using False by (simp only: decode_string_def l(2) sum.case prod.case sl hd l(3) Let_def if_False)
    ultimately show ?thesis by (rule that [rotated])
  qed
qed


section \<open>The representations of a header field\<close>

lemma decode_value_ok:
  assumes "encode_string s h = Inr s'" "encode_length s' h = Inr ls" "ht_inv (dec_table st)"
  obtains b where "raw b = s"
    "decode_value st False (ls @ s' @ rest) si name tot =
       (if si then st\<lparr>dec_table := store_insert (dec_table st) (name, b)\<rparr> else st,
        Inr ((name, b), tot + int (length (ls @ s'))))"
proof -
  obtain b where "decode_string False (ls @ s' @ rest) = Inr (b, int (length s'), int (length ls))" "raw b = s"
    using decode_string_roundtrip [OF assms(1,2)] .
  then show ?thesis
    using table_add_store [OF assms(3), of name b]
    by (intro that [of b]) (simp_all add: decode_value_def Let_def add.commute)
qed

lemma decode_field_indexed:
  assumes "encode_indexed i = Inr bs" "0 \<le> i" "dec_lookup self st i = (st', Inr r)"
  shows "bs \<noteq> []" "decode_field self st False (bs @ rest) = (st', Inr (r, int (length bs)))"
proof -
  obtain es where es: "encode_integer i 7 = Inr es"
    using encode_integer_ok [of i 7] assms(2) by auto
  obtain b es' where b: "es = b # es'" "unat b < 2 ^ nat 7"
    by (rule encode_integer_first [OF assms(2) _ _ es]) simp_all
  have z: "b AND 0x80 = 0" using b(2) by (intro and_high_zero [of _ 7]) simp_all
  have bs: "bs = (b OR 0x80) # es'"
    using assms(1) es b(1) by (simp add: encode_indexed_def or_first_def)
  have dec: "decode_integer_view False ((b OR 0x80) # es' @ rest) 7 = Inr (i, int (length (b # es')))"
    using es b(1) assms(2) by (intro decode_or_integer) simp_all
  have "(b OR 0x80) AND 0x80 \<noteq> 0" by (simp add: or_and_distrib z)
  then show "decode_field self st False (bs @ rest) = (st', Inr (r, int (length bs)))"
    using dec assms(3) by (simp add: decode_field_def bs)
  show "bs \<noteq> []" by (simp add: bs)
qed

lemma decode_field_size:
  assumes "encode_integer n 5 = Inr es" "or_first 0x20 es = Inr bs" "0 \<le> n" "ht_inv (dec_table st)"
  shows "bs \<noteq> []" "decode_field self st False (bs @ rest) =
           (st\<lparr>dec_table := store_resize (dec_table st) n\<rparr>, Inr (None, int (length bs)))"
proof -
  obtain b es' where b: "es = b # es'" "unat b < 2 ^ nat 5"
    by (rule encode_integer_first [OF assms(3) _ _ assms(1)]) simp_all
  have z: "b AND 0x80 = 0" "b AND 0x40 = 0" "b AND 0x20 = 0"
    using b(2) by (intro and_high_zero [of _ 5]; simp)+
  have bs: "bs = (b OR 0x20) # es'" using assms(2) b(1) by (simp add: or_first_def)
  have "decode_integer_view False ((b OR 0x20) # es' @ rest) 5 = Inr (n, int (length (b # es')))"
    using assms(1,3) b(1) by (intro decode_or_integer) simp_all
  moreover have "(b OR 0x20) AND 0x80 = 0" "(b OR 0x20) AND 0x40 = 0" "(b OR 0x20) AND 0x20 \<noteq> 0"
    by (simp_all add: or_and_distrib z)
  ultimately show "decode_field self st False (bs @ rest) =
           (st\<lparr>dec_table := store_resize (dec_table st) n\<rparr>, Inr (None, int (length bs)))"
    using set_maxsize_store [OF assms(4)] by (simp add: decode_field_def bs)
  show "bs \<noteq> []" by (simp add: bs)
qed

definition index_bit :: "bool \<Rightarrow> bytes" where
  "index_bit sensitive = (if \<not> sensitive then INDEX_INCREMENTAL else INDEX_NEVER)"

definition after_insert :: "bool \<Rightarrow> dec_state \<Rightarrow> entry \<Rightarrow> dec_state" where
  "after_insert sensitive st e =
     (if sensitive then st else st\<lparr>dec_table := store_insert (dec_table st) e\<rparr>)"

lemma literal_dispatch:
  assumes "hd data AND 0x80 = 0" "hd data AND 0x40 = (if sens then 0 else 0x40)" "hd data AND 0x20 = 0 \<or> \<not> sens"
  shows "decode_field self st w data =
     (case decode_literal self st w data (\<not> sens) of
        (st, Inl err) \<Rightarrow> (st, Inl err)
      | (st, Inr (header, consumed)) \<Rightarrow> (st, Inr (Some header, consumed)))"
  using assms by (cases sens) (simp_all add: decode_field_def)

lemma decode_field_literal:
  assumes "encode_literal name val (index_bit sens) h = Inr bs" "ht_inv (dec_table st)"
  obtains n v where "raw n = name" "raw v = val" "bs \<noteq> []"
    "decode_field self st False (bs @ rest) =
       (after_insert sens st (n, v), Inr (Some (n, v), int (length bs)))"
proof -
  obtain n' where n': "encode_string name h = Inr n'" by (rule encode_string_ok)
  obtain v' where v': "encode_string val h = Inr v'" by (rule encode_string_ok)
  obtain a as where nl: "encode_length n' h = Inr (a # as)" by (rule encode_length_ok)
  obtain b bs' where vl: "encode_length v' h = Inr (b # bs')" by (rule encode_length_ok)
  let ?nl = "a # as" and ?vl = "b # bs'"
  have bs: "bs = index_bit sens @ ?nl @ n' @ ?vl @ v'"
    using assms(1) n' v' nl vl by (simp add: encode_literal_def)
  obtain n where n: "raw n = name"
    "decode_string False (?nl @ n' @ ?vl @ v' @ rest) = Inr (n, int (length n'), int (length ?nl))"
    by (rule decode_string_roundtrip [OF n' nl])
  let ?tot = "int (length ?nl) + int (length n') + 1"
  obtain v where v: "raw v = val" "decode_value st False (?vl @ v' @ rest) (\<not> sens) n ?tot =
       (if \<not> sens then st\<lparr>dec_table := store_insert (dec_table st) (n, v)\<rparr> else st,
        Inr ((n, v), ?tot + int (length (?vl @ v'))))"
    by (rule decode_value_ok [OF v' vl assms(2)])
  have dr: "drop (nat (int (length ?nl) + int (length n'))) (?nl @ n' @ ?vl @ v' @ rest) = ?vl @ v' @ rest"
    by (simp add: nat_add_distrib)
  have "decode_literal self st False (bs @ rest) (\<not> sens) =
      (after_insert sens st (n, v), Inr ((n, v), int (length bs)))"
    using n(2) v(2) dr
    by (cases sens) (simp_all add: decode_literal_def bs index_bit_def after_insert_def
        INDEX_INCREMENTAL_def INDEX_NEVER_def)
  moreover have "hd (bs @ rest) AND 0x80 = 0" "hd (bs @ rest) AND 0x40 = (if sens then 0 else 0x40)"
    "hd (bs @ rest) AND 0x20 = 0 \<or> \<not> sens"
    by (simp_all add: bs index_bit_def INDEX_INCREMENTAL_def INDEX_NEVER_def)
  ultimately show ?thesis
    using n(1) v(1) that [of n v] by (simp add: literal_dispatch [of _ sens] bs)
qed

lemma take_bit_never [simp]: "take_bit 4 (0x10 :: byte) = 0" "take_bit 4 (0x80 :: byte) = 0"
  "take_bit 4 (0x40 :: byte) = 0" "take_bit 4 (0x20 :: byte) = 0"
  by (simp_all add: take_bit_eq_mod)

lemma byte_and_mask: "unat (b :: byte) < 2 ^ p \<Longrightarrow> b AND mask p = b"
  using byte_take_bit by (simp add: take_bit_eq_mask)

lemma index_prefix_bits:
  assumes "unat (b :: byte) < 2 ^ (if sens then 4 else 6)"
  defines "x \<equiv> b OR hd (index_bit sens)"
  shows "x AND 0x80 = 0" "x AND 0x40 = (if sens then 0 else 0x40)" "x AND 0x20 = 0 \<or> \<not> sens"
    "(if \<not> sens then x AND 0x3F else x AND 0x0F) = b"
proof -
  note high = and_high_zero [OF assms(1)]
  have z: "b AND 0x80 = 0" "b AND 0x40 = 0" "sens \<Longrightarrow> b AND 0x20 = 0"
    by (rule high, simp)+
  show "x AND 0x80 = 0" "x AND 0x40 = (if sens then 0 else 0x40)" "x AND 0x20 = 0 \<or> \<not> sens"
    using z by (cases sens;
        simp add: x_def index_bit_def INDEX_INCREMENTAL_def INDEX_NEVER_def or_and_distrib)+
  have m: "(0x3F :: byte) = mask 6" "(0x0F :: byte) = mask 4" by (simp_all add: mask_eq_exp_minus_1)
  show "(if \<not> sens then x AND 0x3F else x AND 0x0F) = b"
    using byte_and_mask [OF assms(1)]
    by (cases sens) (simp_all add: x_def index_bit_def INDEX_INCREMENTAL_def INDEX_NEVER_def or_and_distrib
        flip: m)
qed

lemma decode_field_indexed_literal:
  assumes "encode_indexed_literal i val (index_bit sens) h = Inr bs" "1 \<le> i"
    and lk: "dec_lookup self st i = (st', Inr (Some e))" and inv: "ht_inv (dec_table st')"
  obtains v where "raw v = val" "bs \<noteq> []"
    "decode_field self st False (bs @ rest) =
       (after_insert sens st' (fst e, v), Inr (Some (fst e, v), int (length bs)))"
proof -
  let ?p = "if sens then 4 else 6 :: nat"
  have ib: "(if index_bit sens \<noteq> INDEX_INCREMENTAL then 4 else 6) = int ?p"
    by (simp add: index_bit_def INDEX_INCREMENTAL_def INDEX_NEVER_def)
  obtain es where es: "encode_integer i (int ?p) = Inr es"
    using encode_integer_ok [of i "int ?p"] assms(2) by auto
  obtain b es' where b: "es = b # es'" "unat b < 2 ^ nat (int ?p)" "0 < i \<longrightarrow> b \<noteq> 0"
    by (rule encode_integer_first [OF _ _ _ es]) (use assms(2) in simp_all)
  obtain v' where v': "encode_string val h = Inr v'" by (rule encode_string_ok)
  obtain l ls where vl: "encode_length v' h = Inr (l # ls)" by (rule encode_length_ok)
  let ?x = "b OR hd (index_bit sens)" and ?vl = "l # ls"
  have bs: "bs = (?x # es') @ ?vl @ v'"
    using assms(1) es b(1) v' vl ib by (simp add: encode_indexed_literal_def or_first_def)
  have dec: "decode_integer_view False (?x # es' @ ?vl @ v' @ rest) ?p = Inr (i, int (length (b # es')))"
    by (rule decode_or_integer)
      (use es b(1) assms(2) in \<open>simp_all add: index_bit_def INDEX_INCREMENTAL_def INDEX_NEVER_def\<close>)
  let ?tot = "int (length (b # es'))"
  obtain v where v: "raw v = val" "decode_value st' False (?vl @ v' @ rest) (\<not> sens) (fst e) ?tot =
       (if \<not> sens then st'\<lparr>dec_table := store_insert (dec_table st') (fst e, v)\<rparr> else st',
        Inr ((fst e, v), ?tot + int (length (?vl @ v'))))"
    by (rule decode_value_ok [OF v' vl inv])
  have bits: "unat b < 2 ^ ?p" using b(2) by simp
  note x = index_prefix_bits [OF bits]
  have "b \<noteq> 0" using b(3) assms(2) by simp
  then have "decode_literal self st False (bs @ rest) (\<not> sens) =
      (after_insert sens st' (fst e, v), Inr ((fst e, v), int (length bs)))"
    using x(4) dec lk v(2)
    by (cases sens) (simp_all add: decode_literal_def bs after_insert_def Let_def nat_add_distrib)
  then show ?thesis
    using x(1-3) v(1) that [of v] by (simp add: literal_dispatch [of _ sens] bs)
qed

section \<open>Lookups through the cache\<close>

text \<open>
  What the cache of \<open>get_by_index\<close> may hold for a table: right values for static indexes,
  anything for the dynamic indexes of \<open>used\<close>, the ones looked up before. A cached dynamic
  index goes stale as soon as an entry is inserted.
\<close>

definition cache_ok :: "nat \<Rightarrow> int list \<Rightarrow> gbi_cache \<Rightarrow> bool" where
  "cache_ok self used cache \<longleftrightarrow>
     (\<forall>i r. map_of cache (self, i) = Some r \<longrightarrow>
        STATIC_TABLE_LENGTH < i \<and> i \<in> set used
        \<or> 1 \<le> i \<and> i \<le> STATIC_TABLE_LENGTH \<and> get_by_index_raw HeaderTable_init i = Inr r)"

lemma cache_ok_Nil [simp]: "cache_ok self used []"
  by (simp add: cache_ok_def)

lemma map_of_take: "map_of (take k xs) a = Some r \<Longrightarrow> map_of xs a = Some r"
  by (induction xs arbitrary: k) (auto simp: take_Cons split: nat.splits if_splits)

lemma map_of_filter_key: "map_of (filter (\<lambda>(k, _). k \<noteq> a) xs) = (map_of xs)(a := None)"
  by (induction xs) (auto simp: fun_eq_iff)

lemma get_static_any:
  "1 \<le> i \<Longrightarrow> i \<le> STATIC_TABLE_LENGTH \<Longrightarrow> get_by_index_raw t i = get_by_index_raw u i"
  by (simp add: get_static)

lemma get_by_index_ok:
  assumes ok: "cache_ok self used cache" and i: "1 \<le> i" "i \<le> STATIC_TABLE_LENGTH \<or> i \<notin> set used"
    and raw: "get_by_index_raw t i = Inr r"
  obtains cache' where "get_by_index self t cache i = (cache', Inr r)" "cache_ok self (i # used) cache'"
proof -
  have keep: "cache_ok self (i # used) c"
    if "\<And>j r'. map_of c (self, j) = Some r' \<Longrightarrow> j = i \<and> r' = r \<or> map_of cache (self, j) = Some r'" for c
    unfolding cache_ok_def
  proof (intro allI impI)
    fix j r' assume "map_of c (self, j) = Some r'"
    from that [OF this] show "STATIC_TABLE_LENGTH < j \<and> j \<in> set (i # used)
        \<or> 1 \<le> j \<and> j \<le> STATIC_TABLE_LENGTH \<and> get_by_index_raw HeaderTable_init j = Inr r'"
      using ok i(1) raw get_static_any [of i t HeaderTable_init] unfolding cache_ok_def
      by (metis linorder_not_le list.set_intros)
  qed
  show ?thesis
  proof (cases "map_of cache (self, i)")
    case None
    have "cache_ok self (i # used) (take GBI_CACHE_SIZE (((self, i), r) # cache))"
      by (rule keep) (auto dest!: map_of_take split: if_splits)
    with None raw that show ?thesis by (simp add: get_by_index_def)
  next
    case (Some r')
    have "r' = r"
      using ok Some i raw get_static_any [of i t HeaderTable_init] unfolding cache_ok_def
      by (metis Inr_inject linorder_not_le)
    moreover have "cache_ok self (i # used) (((self, i), r) # filter (\<lambda>(k, _). k \<noteq> (self, i)) cache)"
      by (rule keep) (auto simp: map_of_filter_key split: if_splits)
    ultimately show ?thesis using Some that by (simp add: get_by_index_def)
  qed
qed

lemma cache_ok_mono: "cache_ok self used cache \<Longrightarrow> set used \<subseteq> set used' \<Longrightarrow> cache_ok self used' cache"
  unfolding cache_ok_def by blast

section \<open>One header field\<close>

lemma table_search_Some:
  assumes "table_search t n v = Some (i, n', p)"
  shows "raw n' = n" "1 \<le> i"
    "\<exists>e. get_by_index_raw t i = Inr (Some e) \<and> raw (fst e) = n \<and> (p \<noteq> None \<longrightarrow> raw (snd e) = v)"
  using table_search_spec [where t = t and n = n and v = v] assms
  by (auto simp: index_names_def split: option.splits)

lemma encode_literal_ok: "\<exists>bs. encode_literal n v ib h = Inr bs"
proof -
  obtain n' where n': "encode_string n h = Inr n'" by (rule encode_string_ok)
  obtain v' where v': "encode_string v h = Inr v'" by (rule encode_string_ok)
  obtain a as where nl: "encode_length n' h = Inr (a # as)" by (rule encode_length_ok)
  obtain b bs' where vl: "encode_length v' h = Inr (b # bs')" by (rule encode_length_ok)
  show ?thesis using n' v' nl vl by (simp add: encode_literal_def)
qed

lemma encode_indexed_ok: "0 \<le> i \<Longrightarrow> \<exists>bs. encode_indexed i = Inr bs"
  using encode_integer_ok [of i 7] by (auto simp: encode_indexed_def or_first_def)

lemma encode_indexed_literal_ok: "0 \<le> i \<Longrightarrow> \<exists>bs. encode_indexed_literal i v ib h = Inr bs"
proof -
  assume i: "0 \<le> i"
  obtain v' where v': "encode_string v h = Inr v'" by (rule encode_string_ok)
  obtain b bs' where vl: "encode_length v' h = Inr (b # bs')" by (rule encode_length_ok)
  have "\<exists>b es. encode_integer i (if ib \<noteq> INDEX_INCREMENTAL then 4 else 6) = Inr (b # es)"
    using encode_integer_ok [of i "if ib \<noteq> INDEX_INCREMENTAL then 4 else 6"] i by auto
  with v' vl show ?thesis by (auto simp: encode_indexed_literal_def or_first_def)
qed

lemma enc_insert_ok:
  "ht_inv (enc_table e) \<Longrightarrow> enc_insert e n v sens bs =
     (if sens then e else e\<lparr>enc_table := store_insert (enc_table e) (n, v)\<rparr>, Inr bs)"
  by (simp add: enc_insert_def table_add_store)

text \<open>The value of \<open>add\<close> on each branch, with the table it leaves.\<close>

lemma enc_add_cases:
  assumes "ht_inv (enc_table e)"
  obtains (literal) bs where "table_search (enc_table e) n v = None"
      "encode_literal n v (index_bit sens) h = Inr bs"
      "enc_add e n v sens h =
         (if sens then e else e\<lparr>enc_table := store_insert (enc_table e) (PyBytes n, PyBytes v)\<rparr>, Inr bs)"
  | (indexed) i n' p bs where "table_search (enc_table e) n v = Some (i, n', Some p)"
      "encode_indexed i = Inr bs" "enc_add e n v sens h = (e, Inr bs)"
  | (name) i n' p bs where "table_search (enc_table e) n v = Some (i, n', p)"
      "encode_indexed_literal i v (index_bit sens) h = Inr bs"
      "enc_add e n v sens h =
         (if sens then e else e\<lparr>enc_table := store_insert (enc_table e) (n', PyBytes v)\<rparr>, Inr bs)"
proof (cases "table_search (enc_table e) n v")
  case None
  obtain bs where "encode_literal n v (index_bit sens) h = Inr bs" using encode_literal_ok by blast
  with None assms literal show ?thesis
    by (simp add: enc_add_def Let_def enc_insert_ok flip: index_bit_def)
next
  case (Some r)
  obtain i n' p where r: "r = (i, n', p)" by (cases r)
  have i: "0 \<le> i" using table_search_Some(2) [OF Some [unfolded r]] by simp
  show ?thesis
  proof (cases "case p of None \<Rightarrow> False | Some p \<Rightarrow> raw p \<noteq> []")
    case True
    then obtain p' where p: "p = Some p'" by (auto split: option.splits)
    obtain bs where "encode_indexed i = Inr bs" using encode_indexed_ok [OF i] by blast
    with Some True r p indexed show ?thesis by (simp add: enc_add_def Let_def)
  next
    case False
    obtain bs where "encode_indexed_literal i v (index_bit sens) h = Inr bs"
      using encode_indexed_literal_ok [OF i] by blast
    with Some False r assms name show ?thesis
      by (simp add: enc_add_def Let_def enc_insert_ok flip: index_bit_def)
  qed
qed

text \<open>The dynamic index the encoding of a field refers to, and those of a header list.\<close>

definition dynamic_ref :: "encoder \<Rightarrow> bytes \<Rightarrow> bytes \<Rightarrow> int list" where
  "dynamic_ref e n v =
     (case table_search (enc_table e) n v of
        None \<Rightarrow> []
      | Some (i, _, _) \<Rightarrow> if STATIC_TABLE_LENGTH < i then [i] else [])"

fun dynamic_refs :: "encoder \<Rightarrow> field list \<Rightarrow> bool \<Rightarrow> int list" where
  "dynamic_refs e [] h = []"
| "dynamic_refs e ((n, v) # headers) h =
     dynamic_ref e n v @ dynamic_refs (fst (enc_add e n v False h)) headers h"

lemma dec_lookup_ok:
  assumes "cache_ok self used (dec_cache st)" "1 \<le> i" "i \<le> STATIC_TABLE_LENGTH \<or> i \<notin> set used"
    and sync: "hs.sync t (dec_table st)" and raw: "get_by_index_raw t i = Inr (Some e)"
  obtains e' st' where "dec_lookup self st i = (st', Inr (Some e'))" "raw_entry e' = raw_entry e"
    "dec_table st' = dec_table st"
    "cache_ok self (used @ (if STATIC_TABLE_LENGTH < i then [i] else [])) (dec_cache st')"
proof -
  have "store_lookup t i = Some e" using raw by (simp add: store_lookup_def)
  from hs.sync_lookup [OF sync this] obtain e'
    where e': "store_lookup (dec_table st) i = Some e'" "raw_entry e' = raw_entry e" by blast
  then have "get_by_index_raw (dec_table st) i = Inr (Some e')"
    by (auto simp: store_lookup_def split: sum.splits)
  from get_by_index_ok [OF assms(1-3) this] obtain cache'
    where c: "get_by_index self (dec_table st) (dec_cache st) i = (cache', Inr (Some e'))"
      "cache_ok self (i # used) cache'" .
  have "cache_ok self (used @ (if STATIC_TABLE_LENGTH < i then [i] else [])) cache'"
    using c(2) by (auto simp: cache_ok_def)
  with c(1) e'(2) show ?thesis
    by (intro that [of "st\<lparr>dec_cache := cache'\<rparr>" e']) (simp_all add: dec_lookup_def)
qed

lemma dec_table_after_insert:
  "hs.sync t (dec_table st) \<Longrightarrow> raw_entry d = raw_entry d' \<Longrightarrow>
     hs.sync (if sens then t else store_insert t d') (dec_table (after_insert sens st d))"
  by (simp add: after_insert_def hs.sync_insert)

lemma dec_cache_after_insert [simp]: "dec_cache (after_insert sens st d) = dec_cache st"
  by (simp add: after_insert_def)

lemma decode_field_add:
  assumes sync: "hs.sync (enc_table e) (dec_table st)" and cache: "cache_ok self used (dec_cache st)"
    and fresh: "set (dynamic_ref e n v) \<inter> set used = {}"
  obtains e' bs st' d where "enc_add e n v sens h = (e', Inr bs)" "bs \<noteq> []"
    "decode_field self st False (bs @ rest) = (st', Inr (Some d, int (length bs)))"
    "raw_entry d = (n, v)" "hs.sync (enc_table e') (dec_table st')"
    "cache_ok self (used @ dynamic_ref e n v) (dec_cache st')"
proof -
  have inv: "ht_inv (enc_table e)" "ht_inv (dec_table st)" using sync by (simp_all add: hs.sync_def)
  from inv(1) show ?thesis
  proof (cases rule: enc_add_cases [where n = n and v = v and sens = sens and h = h])
    case (literal bs)
    obtain n' v' where d: "raw n' = n" "raw v' = v" "bs \<noteq> []"
      "decode_field self st False (bs @ rest) = (after_insert sens st (n', v'), Inr (Some (n', v'), int (length bs)))"
      by (rule decode_field_literal [OF literal(2) inv(2)])
    show ?thesis
      by (rule that [OF literal(3) d(3,4)])
        (use d literal(1) cache dec_table_after_insert [OF sync, of "(n', v')" "(PyBytes n, PyBytes v)" sens]
          in \<open>auto simp: dynamic_ref_def split: if_splits\<close>)
  next
    case (indexed i n' p bs)
    note ts = table_search_Some [OF indexed(1)]
    obtain x where x: "get_by_index_raw (enc_table e) i = Inr (Some x)" "raw_entry x = (n, v)"
      using ts(3) by auto
    have "i \<le> STATIC_TABLE_LENGTH \<or> i \<notin> set used"
      using fresh indexed(1) by (auto simp: dynamic_ref_def)
    from dec_lookup_ok [OF cache ts(2) this sync x(1)] obtain d st'
      where d: "dec_lookup self st i = (st', Inr (Some d))" "raw_entry d = raw_entry x"
        "dec_table st' = dec_table st"
        "cache_ok self (used @ (if STATIC_TABLE_LENGTH < i then [i] else [])) (dec_cache st')" .
    from ts(2) have "0 \<le> i" by simp
    note df = decode_field_indexed [OF indexed(2) this d(1)]
    show ?thesis
      by (rule that [OF indexed(3) df])
        (use d(2-4) x(2) sync indexed(1) in \<open>simp_all add: dynamic_ref_def\<close>)
  next
    case (name i n' p bs)
    note ts = table_search_Some [OF name(1)]
    obtain x where x: "get_by_index_raw (enc_table e) i = Inr (Some x)" "raw (fst x) = n"
      using ts(3) by auto
    have "i \<le> STATIC_TABLE_LENGTH \<or> i \<notin> set used"
      using fresh name(1) by (auto simp: dynamic_ref_def)
    from dec_lookup_ok [OF cache ts(2) this sync x(1)] obtain d st'
      where d: "dec_lookup self st i = (st', Inr (Some d))" "raw_entry d = raw_entry x"
        "dec_table st' = dec_table st"
        "cache_ok self (used @ (if STATIC_TABLE_LENGTH < i then [i] else [])) (dec_cache st')" .
    have inv': "ht_inv (dec_table st')" using d(3) inv(2) by simp
    obtain v' where v': "raw v' = v" "bs \<noteq> []" "decode_field self st False (bs @ rest) =
        (after_insert sens st' (fst d, v'), Inr (Some (fst d, v'), int (length bs)))"
      by (rule decode_field_indexed_literal [OF name(2) ts(2) d(1) inv'])
    have fd: "raw (fst d) = n" using d(2) x(2) by (simp add: raw_entry_def)
    have "hs.sync (enc_table e) (dec_table st')" using sync d(3) by simp
    from dec_table_after_insert [OF this, of "(fst d, v')" "(n', PyBytes v)" sens]
    have "hs.sync (if sens then enc_table e else store_insert (enc_table e) (n', PyBytes v))
        (dec_table (after_insert sens st' (fst d, v')))" using fd v'(1) ts(1) by simp
    then show ?thesis
      by (intro that [OF name(3) v'(2,3)])
        (use d(4) fd v'(1) name(1) in \<open>auto simp: dynamic_ref_def split: if_splits\<close>)
  qed
qed

section \<open>A whole header block\<close>

lemma decode_loop_field:
  assumes "decode_field self st w (bs @ rest) = (st', Inr (d, int (length bs)))" "bs \<noteq> []"
  shows "decode_loop self w st (bs @ rest) headers =
     decode_loop self w st' rest (case d of None \<Rightarrow> headers | Some h \<Rightarrow> headers @ [h])"
  using assms by (simp add: decode_loop.simps [of self w st "bs @ rest"])

lemma decode_loop_add_all:
  assumes "hs.sync (enc_table e) (dec_table st)" "cache_ok self used (dec_cache st)"
    "distinct (used @ dynamic_refs e headers h)"
  shows "\<exists>e' block st' es. enc_add_all e headers h = (e', Inr block) \<and>
    decode_loop self False st block acc = (st', Inr (acc @ es)) \<and>
    map raw_entry es = headers \<and> hs.sync (enc_table e') (dec_table st') \<and>
    cache_ok self (used @ dynamic_refs e headers h) (dec_cache st')"
  using assms
proof (induction headers arbitrary: e st used acc)
  case Nil
  then show ?case by (simp add: decode_loop.simps)
next
  case (Cons x headers)
  obtain n v where x: "x = (n, v)" by (cases x)
  define rest where "rest = projr (snd (enc_add_all (fst (enc_add e n v False h)) headers h))"
  from Cons.prems(3) x have fr: "set (dynamic_ref e n v) \<inter> set used = {}" by auto
  obtain e1 bs st1 d where d: "enc_add e n v False h = (e1, Inr bs)" "bs \<noteq> []"
    "decode_field self st False (bs @ rest) = (st1, Inr (Some d, int (length bs)))"
    "raw_entry d = (n, v)" "hs.sync (enc_table e1) (dec_table st1)"
    "cache_ok self (used @ dynamic_ref e n v) (dec_cache st1)"
    by (rule decode_field_add [OF Cons.prems(1,2) fr, of False h rest])
  have "distinct ((used @ dynamic_ref e n v) @ dynamic_refs e1 headers h)"
    using Cons.prems(3) x d(1) by simp
  from Cons.IH [OF d(5,6) this, of "acc @ [d]"] obtain e' block st' es
    where ih: "enc_add_all e1 headers h = (e', Inr block)"
      "decode_loop self False st1 block (acc @ [d]) = (st', Inr ((acc @ [d]) @ es))"
      "map raw_entry es = headers" "hs.sync (enc_table e') (dec_table st')"
      "cache_ok self ((used @ dynamic_ref e n v) @ dynamic_refs e1 headers h) (dec_cache st')" by blast
  have "rest = block" using ih(1) d(1) by (simp add: rest_def)
  with decode_loop_field [OF d(3,2), of acc] ih(2)
  have "decode_loop self False st (bs @ block) acc = (st', Inr (acc @ d # es))" by simp
  with ih(1,3-5) d(1,4) x show ?case
    by (intro exI [of _ e'] exI [of _ "bs @ block"] exI [of _ st'] exI [of _ "d # es"]) simp
qed

lemma decode_loop_sizes:
  assumes "ht_inv (dec_table st)" "\<forall>s \<in> set sizes. 0 \<le> s"
  shows "\<exists>bs. encode_sizes sizes = Inr bs \<and>
    decode_loop self False st (bs @ rest) acc =
    decode_loop self False (st\<lparr>dec_table := fold (\<lambda>s t. store_resize t s) sizes (dec_table st)\<rparr>) rest acc"
  using assms
proof (induction sizes arbitrary: st)
  case (Cons s sizes)
  obtain es where es: "encode_integer s 5 = Inr es"
    using encode_integer_ok [of s 5] Cons.prems(2) by auto
  then obtain bs where bs: "or_first 0x20 es = Inr bs"
    using encode_integer_ok [of s 5] Cons.prems(2) by (auto simp: or_first_def split: if_splits)
  let ?st = "st\<lparr>dec_table := store_resize (dec_table st) s\<rparr>"
  have "ht_inv (dec_table ?st)" using Cons.prems(1) hs.inv_resize by simp
  from Cons.IH [OF this] Cons.prems(2) obtain bs' where ih: "encode_sizes sizes = Inr bs'"
    "decode_loop self False ?st (bs' @ rest) acc =
     decode_loop self False (?st\<lparr>dec_table := fold (\<lambda>s t. store_resize t s) sizes (dec_table ?st)\<rparr>) rest acc"
    by auto
  from Cons.prems(2) have "0 \<le> s" by simp
  note df = decode_field_size [OF es bs this Cons.prems(1)]
  have "decode_loop self False st (bs @ bs' @ rest) acc = decode_loop self False ?st (bs' @ rest) acc"
    using decode_loop_field [OF df(2,1)] by simp
  with es bs ih show ?case by simp
qed simp

text \<open>
  The size updates the next block will carry, and the state of the two sides before a block:
  once the decoder has applied them, its table is in step with the encoder's.
\<close>

definition signalled :: "encoder \<Rightarrow> int list" where
  "signalled e = (if resized (enc_table e) then table_size_changes e else [])"

definition in_step :: "encoder \<Rightarrow> header_table \<Rightarrow> bool" where
  "in_step e u \<longleftrightarrow> ht_inv u \<and> signalled e = table_size_changes e \<and> (\<forall>s \<in> set (signalled e). 0 \<le> s) \<and>
     hs.sync (enc_table e) (fold (\<lambda>s t. store_resize t s) (signalled e) u)"

definition sizes_sent :: "encoder \<Rightarrow> encoder" where
  "sizes_sent e =
     (if resized (enc_table e)
      then e\<lparr>table_size_changes := [], enc_table := (enc_table e)\<lparr>resized := False\<rparr>\<rparr> else e)"

lemma sync_resized [simp]: "hs.sync (t\<lparr>resized := b\<rparr>) u = hs.sync t u"
  by (simp add: hs.sync_def ht_inv_def content_def)

lemma enc_encode_eq:
  assumes "encode_sizes (signalled e) = Inr bs" "enc_add_all (sizes_sent e) headers h = (e', Inr block)"
  shows "enc_encode e headers h = (e', Inr (bs @ block))"
  using assms
  by (auto simp: enc_encode_def signalled_def sizes_sent_def encode_table_size_change_def split: if_splits)

lemma enc_add_keeps:
  assumes "ht_inv (enc_table e)"
  shows "ht_inv (enc_table (fst (enc_add e n v sens h)))"
    "resized (enc_table (fst (enc_add e n v sens h))) = resized (enc_table e)"
    "table_size_changes (fst (enc_add e n v sens h)) = table_size_changes e"
    "\<exists>bs. snd (enc_add e n v sens h) = Inr bs"
proof -
  have ins: "ht_inv (store_insert (enc_table e) x)"
    "resized (store_insert (enc_table e) x) = resized (enc_table e)" for x
    using hs.inv_insert [OF assms] table_add_fit [OF assms, of "fst x" "snd x"]
      table_add_store [OF assms, of "fst x" "snd x"] by auto
  obtain t bs where "enc_add e n v sens h = (e\<lparr>enc_table := t\<rparr>, Inr bs)"
    "ht_inv t" "resized t = resized (enc_table e)"
    using assms
  proof (cases rule: enc_add_cases [where n = n and v = v and sens = sens and h = h])
    case (literal bs)
    with ins assms that [of "if sens then enc_table e else store_insert (enc_table e) (PyBytes n, PyBytes v)" bs]
    show ?thesis by (simp split: if_splits)
  next
    case (indexed i n' p bs)
    with assms that [of "enc_table e" bs] show ?thesis by simp
  next
    case (name i n' p bs)
    with ins assms that [of "if sens then enc_table e else store_insert (enc_table e) (n', PyBytes v)" bs]
    show ?thesis by (simp split: if_splits)
  qed
  then show "ht_inv (enc_table (fst (enc_add e n v sens h)))"
    "resized (enc_table (fst (enc_add e n v sens h))) = resized (enc_table e)"
    "table_size_changes (fst (enc_add e n v sens h)) = table_size_changes e"
    "\<exists>bs. snd (enc_add e n v sens h) = Inr bs"
    by simp_all
qed

lemma enc_add_all_keeps:
  assumes "ht_inv (enc_table e)" "enc_add_all e headers h = (e', r)"
  shows "resized (enc_table e') = resized (enc_table e) \<and> table_size_changes e' = table_size_changes e"
  using assms
proof (induction e headers h arbitrary: e' r rule: enc_add_all.induct)
  case (2 e n v headers h)
  obtain e1 bs where a: "enc_add e n v False h = (e1, Inr bs)"
    using enc_add_keeps(4) [OF 2(2)] by (metis prod.collapse)
  note k = enc_add_keeps [OF 2(2), of n v False h, unfolded a fst_conv]
  obtain e2 r2 where b: "enc_add_all e1 headers h = (e2, r2)" by fastforce
  have "e' = e2" using 2(3) a b by (auto split: sum.splits)
  with 2(1) [OF a [symmetric] refl k(1) b] k(2,3) show ?case by simp
qed simp

lemma in_step_sync:
  "hs.sync (enc_table e) u \<Longrightarrow> \<not> resized (enc_table e) \<Longrightarrow> table_size_changes e = [] \<Longrightarrow> in_step e u"
  by (simp add: in_step_def signalled_def hs.sync_def)

lemma enc_decode_block:
  assumes step: "in_step e (dec_table st)" and cache: "cache_ok self used (dec_cache st)"
    and fresh: "distinct (used @ dynamic_refs (sizes_sent e) headers h)"
  obtains e' block st' es where "enc_encode e headers h = (e', Inr block)"
    "dec_decode self st False block = (st', Inr es)" "map raw_entry es = headers"
    "in_step e' (dec_table st')"
    "cache_ok self (used @ dynamic_refs (sizes_sent e) headers h) (dec_cache st')"
proof -
  let ?st = "st\<lparr>dec_table := fold (\<lambda>s t. store_resize t s) (signalled e) (dec_table st)\<rparr>"
  have sync: "hs.sync (enc_table (sizes_sent e)) (dec_table ?st)"
    using step unfolding in_step_def sizes_sent_def by (auto split: if_splits)
  from decode_loop_add_all [OF sync _ fresh, of self "[]"] cache
  obtain e' block st' es where all: "enc_add_all (sizes_sent e) headers h = (e', Inr block)"
    "decode_loop self False ?st block [] = (st', Inr es)" "map raw_entry es = headers"
    "hs.sync (enc_table e') (dec_table st')"
    "cache_ok self (used @ dynamic_refs (sizes_sent e) headers h) (dec_cache st')" by auto
  obtain bs where bs: "encode_sizes (signalled e) = Inr bs"
    "decode_loop self False st (bs @ block) [] = decode_loop self False ?st block []"
    using decode_loop_sizes [of st "signalled e" self block "[]"] step by (auto simp: in_step_def)
  have "\<not> resized (enc_table e')" "table_size_changes e' = []"
    using enc_add_all_keeps [OF _ all(1)] sync step
    by (auto simp: hs.sync_def sizes_sent_def in_step_def signalled_def split: if_splits)
  then have "in_step e' (dec_table st')" by (rule in_step_sync [OF all(4)])
  moreover have "dec_decode self st False (bs @ block) = (st', Inr es)"
    using bs(2) all(2) by (simp add: dec_decode_def)
  ultimately show ?thesis using enc_encode_eq [OF bs(1) all(1)] all(3,5) by (intro that)
qed

lemma in_step_resize:
  assumes "in_step e u" "0 \<le> v" "v \<noteq> maxsize (enc_table e)"
  shows "in_step (fst (set_header_table_size e v)) u"
proof -
  have inv: "ht_inv (enc_table e)" using assms(1) by (simp add: in_step_def hs.sync_def)
  obtain t where t: "set_maxsize (enc_table e) v = (t, None)" "resized t"
    using set_maxsize_fit [OF inv, of v] assms(3) by auto
  then have "t = store_resize (enc_table e) v" using set_maxsize_store [OF inv] by simp
  with t assms show ?thesis
    by (auto simp: set_header_table_size_def in_step_def signalled_def intro: hs.sync_resize split: if_splits)
qed

section \<open>A connection\<close>

text \<open>
  The two sides of a connection: the sending side changes its table size to a different
  value or sends a header block, the receiving side decodes each block. The list \<open>used\<close>
  records the dynamic indexes referred to so far, and no dynamic index is used twice.
\<close>

definition fresh_decoder :: dec_state where
  "fresh_decoder = \<lparr>dec_table = HeaderTable_init, dec_cache = []\<rparr>"

inductive hpack_session :: "nat \<Rightarrow> encoder \<Rightarrow> dec_state \<Rightarrow> int list \<Rightarrow> bool" for self where
  session_init: "hpack_session self Encoder_init fresh_decoder []"
| session_resize: "hpack_session self e st used \<Longrightarrow> 0 \<le> v \<Longrightarrow> v \<noteq> maxsize (enc_table e) \<Longrightarrow>
    hpack_session self (fst (set_header_table_size e v)) st used"
| session_send: "hpack_session self e st used \<Longrightarrow>
    distinct (used @ dynamic_refs (sizes_sent e) headers h) \<Longrightarrow>
    enc_encode e headers h = (e', Inr block) \<Longrightarrow> dec_decode self st False block = (st', r) \<Longrightarrow>
    hpack_session self e' st' (used @ dynamic_refs (sizes_sent e) headers h)"

lemma session_in_step:
  "hpack_session self e st used \<Longrightarrow> in_step e (dec_table st) \<and> cache_ok self used (dec_cache st)"
proof (induction rule: hpack_session.induct)
  case session_init
  have "in_step Encoder_init HeaderTable_init"
    by (rule in_step_sync) (simp_all add: Encoder_init_def hs.sync_def HeaderTable_init_def [THEN arg_cong [of _ _ resized]])
  then show ?case by (simp add: fresh_decoder_def)
next
  case (session_resize e st used v)
  then show ?case by (simp add: in_step_resize)
next
  case (session_send e st used headers h e' block st' r)
  note ih = session_send.IH [THEN conjunct1] session_send.IH [THEN conjunct2]
  obtain e1 b1 st1 es
    where "enc_encode e headers h = (e1, Inr b1)" "dec_decode self st False b1 = (st1, Inr es)"
      "in_step e1 (dec_table st1)"
      "cache_ok self (used @ dynamic_refs (sizes_sent e) headers h) (dec_cache st1)"
    by (rule enc_decode_block [OF ih session_send.hyps(2)])
  with session_send.hyps(3,4) show ?case by simp
qed

end
