(* ===== verification/Hpack_Properties.thy ===== *)
theory Hpack_Properties
  imports Hpack_Roundtrip Deferred_Headers
begin

unbundle bit_operations_syntax

text \<open>
  The properties of the HPACK components: integers, Huffman strings, the header table, the
  encoder against the decoder, and the parsing of deferred headers.
\<close>

section \<open>Integers\<close>

lemma decode_integer_loop_append:
  "decode_integer_loop xs s m i = Some r \<Longrightarrow> decode_integer_loop (xs @ ys) s m i = Some r"
  by (induction xs s m i rule: decode_integer_loop.induct) (auto split: if_splits)

lemma decode_integer_append:
  "decode_integer xs p = Inr r \<Longrightarrow> decode_integer (xs @ ys) p = Inr r"
  by (auto simp: decode_integer_def Let_def decode_integer_loop_append split: if_splits list.splits option.splits)

lemma decode_integer_error:
  "1 \<le> p \<Longrightarrow> p \<le> 8 \<Longrightarrow> decode_integer xs p = Inl err \<Longrightarrow> err = HPACKDecodingError"
  by (auto simp: decode_integer_def Let_def split: if_splits list.splits option.splits)

text \<open>Decoding an encoded integer gives it back and consumes exactly its bytes, whatever
  flag bits share the first byte and whatever bytes follow.\<close>

theorem integer_roundtrip:
  assumes "0 \<le> n" "1 \<le> p" "p \<le> 8" "take_bit (nat p) hi = 0"
  shows "\<exists>b bs. encode_integer n p = Inr (b # bs) \<and>
    decode_integer ((b OR hi) # bs @ rest) p = Inr (n, int (length (b # bs)))"
proof -
  obtain b bs where enc: "encode_integer n p = Inr (b # bs)"
    using encode_integer_ok [OF assms(1-3)] by (auto split: if_splits)
  from decode_encode_integer [OF assms(1-3) this, of rest] enc decode_integer_high_bits [OF assms(2-4)]
  show ?thesis by auto
qed

theorem integer_roundtrip_witness:
  "\<exists>b bs. encode_integer 1337 5 = Inr (b # bs) \<and>
    decode_integer ((b OR 0x20) # bs @ [7]) 5 = Inr (1337, int (length (b # bs)))"
  by (rule integer_roundtrip) simp_all

text \<open>Every proper prefix of an encoded integer is rejected with HPACKDecodingError.\<close>

theorem integer_truncated:
  assumes "0 \<le> n" "1 \<le> p" "p \<le> 8" "encode_integer n p = Inr bs" "k < length bs"
  shows "decode_integer (take k bs) p = Inl HPACKDecodingError"
proof (cases "decode_integer (take k bs) p")
  case (Inl err)
  with decode_integer_error [OF assms(2,3)] show ?thesis by simp
next
  case (Inr r)
  obtain m i where r: "r = (m, i)" by (cases r)
  from decode_integer_append [OF Inr, of "drop k bs"] decode_encode_integer [OF assms(1-4), of "[]"]
  have "i = int (length bs)" by (simp add: r)
  moreover have "i \<le> int k" using decode_integer_consumed [of "take k bs" p m i] Inr r by auto
  ultimately show ?thesis using assms(5) by simp
qed

theorem integer_truncated_witness:
  "encode_integer 1337 5 = Inr [31, 154, 10] \<and> decode_integer (take 2 [31, 154, 10]) 5 = Inl HPACKDecodingError"
proof -
  have "encode_integer 1337 5 = Inr [31, 154, 10]" by code_simp
  with integer_truncated [of 1337 5 "[31, 154, 10]" 2] show ?thesis by simp
qed

section \<open>Huffman strings\<close>

text \<open>C8: the decoder accepts exactly the outputs of the encoder, and decodes each to the
  string it encodes: any other padding, the end-of-string symbol and incomplete codes are
  rejected.\<close>

theorem huffman_decodes_exactly:
  "decode_huffman bs = Inr xs \<longleftrightarrow> huffman_encode REQUEST_CODES REQUEST_CODES_LENGTH xs = Inr bs"
  by (rule huffman_inverse)

text \<open>Every byte string has a Huffman encoding, which decodes back to it.\<close>

theorem huffman_roundtrip:
  "\<exists>bs. huffman_encode REQUEST_CODES REQUEST_CODES_LENGTH xs = Inr bs \<and> decode_huffman bs = Inr xs"
  by (rule huffman_encode_total [of xs]) blast

section \<open>The header table\<close>

lemma HeaderTable_maxsize: "maxsize HeaderTable_init = 4096"
  by (simp add: HeaderTable_init_def)

text \<open>C25: adding an entry never raises, keeps the table invariant and its limits, and leaves
  the longest run of most recent fields, new one first, that fits the table size.\<close>

theorem table_add_refines:
  assumes "ht_inv t"
  shows "\<exists>t'. table_add t n v = (t', None) \<and> ht_inv t' \<and> maxsize t' = maxsize t \<and> resized t' = resized t \<and>
    content t' = fit (maxsize t) ((raw n, raw v) # content t)"
  using assms by (rule table_add_fit)

theorem table_add_refines_witness:
  "ht_inv HeaderTable_init \<and> (\<exists>t'. table_add HeaderTable_init (PyBytes [97]) (PyBytes [98]) = (t', None) \<and>
     ht_inv t' \<and> content t' = [([97], [98])])"
  using table_add_refines [OF ht_inv_init, of "PyBytes [97]" "PyBytes [98]"]
  by (simp add: HeaderTable_maxsize field_size_def) blast

text \<open>Assigning a new maximum size never raises, evicts exactly the oldest entries that no
  longer fit, and marks the table as resized exactly when the size changed.\<close>

theorem set_maxsize_refines:
  assumes "ht_inv t"
  shows "\<exists>t'. set_maxsize t m = (t', None) \<and> ht_inv t' \<and> maxsize t' = m \<and>
    resized t' = (m \<noteq> maxsize t) \<and> content t' = fit m (content t)"
  using assms by (rule set_maxsize_fit)

theorem set_maxsize_refines_witness:
  "\<exists>t'. set_maxsize HeaderTable_init 100 = (t', None) \<and> ht_inv t' \<and> maxsize t' = 100 \<and> resized t' \<and> content t' = []"
  using set_maxsize_refines [OF ht_inv_init, of 100] by (simp add: HeaderTable_maxsize)

text \<open>A search answers a perfect match only with an index that names exactly the field, a
  partial match only with an index that names the header name, and no match only when
  neither table has the name; a field present in a table is always found.\<close>

theorem table_search_correct:
  "case table_search t n v of
     None \<Rightarrow> n \<notin> fst ` (set STATIC_TABLE \<union> set (content t))
   | Some (i, n', None) \<Rightarrow>
       raw n' = n \<and> index_names t i (\<lambda>f. fst f = n) \<and> (n, v) \<notin> set STATIC_TABLE \<union> set (content t)
   | Some (i, n', Some v') \<Rightarrow> raw n' = n \<and> raw v' = v \<and> index_names t i (\<lambda>f. f = (n, v))"
  by (rule table_search_spec)

section \<open>The encoder against the decoder\<close>

text \<open>C1: on a connection where each side only ever changes its table to a different size and
  no dynamic index is referred to twice, every header list the encoder is given is encoded
  without an exception, and the decoder returns exactly that list and stays in step.\<close>

theorem hpack_roundtrip:
  assumes "hpack_session self e st used" "distinct (used @ dynamic_refs (sizes_sent e) headers h)"
  shows "\<exists>e' block st' es. enc_encode e headers h = (e', Inr block) \<and>
    dec_decode self st False block = (st', Inr es) \<and> map raw_entry es = headers \<and>
    in_step e' (dec_table st')"
proof -
  note s = session_in_step [OF assms(1), THEN conjunct1] session_in_step [OF assms(1), THEN conjunct2]
  obtain e' block st' es where "enc_encode e headers h = (e', Inr block)"
    "dec_decode self st False block = (st', Inr es)" "map raw_entry es = headers"
    "in_step e' (dec_table st')"
    by (rule enc_decode_block [OF s assms(2)])
  then show ?thesis by blast
qed

lemma dynamic_refs_init: "dynamic_refs (sizes_sent Encoder_init) [(n, v)] h = []"
proof -
  have "dynamic_entries (enc_table (sizes_sent Encoder_init)) = []"
    by (simp add: sizes_sent_def Encoder_init_def HeaderTable_init_def)
  moreover have "STATIC_TABLE_MAPPING n = Some (i, values) \<Longrightarrow> i \<le> STATIC_TABLE_LENGTH \<and>
      (\<forall>j. values v = Some j \<longrightarrow> j \<le> STATIC_TABLE_LENGTH)" for i "values"
    using static_mapping_Some [of n "(i, values)"]
    by (auto simp: mapping_entry_ok_def value_ok_def STATIC_TABLE_LENGTH_def split: option.splits)
  ultimately have "dynamic_ref (sizes_sent Encoder_init) n v = []"
    by (cases "STATIC_TABLE_MAPPING n")
      (auto simp: dynamic_ref_def table_search_def Let_def split: option.splits dest: leD)
  then show ?thesis by (simp only: dynamic_refs.simps append_Nil)
qed

theorem hpack_roundtrip_witness:
  "\<exists>e' block st' es. enc_encode Encoder_init [(b_lit ''x-id'', b_lit ''7'')] True = (e', Inr block) \<and>
    dec_decode 0 fresh_decoder False block = (st', Inr es) \<and>
    map raw_entry es = [(b_lit ''x-id'', b_lit ''7'')] \<and> in_step e' (dec_table st')"
  by (rule hpack_roundtrip [OF session_init]) (simp only: dynamic_refs_init append_Nil distinct.simps)

text \<open>Encoding a header list never raises and keeps the encoder's table invariant, whatever
  the state of its table.\<close>

theorem encoder_total:
  assumes "ht_inv (enc_table e)" "\<forall>s \<in> set (signalled e). 0 \<le> s"
  shows "\<exists>e' block. enc_encode e headers h = (e', Inr block) \<and> ht_inv (enc_table e')"
proof -
  have all: "\<exists>e' bs. enc_add_all e headers h = (e', Inr bs) \<and> ht_inv (enc_table e')"
    if "ht_inv (enc_table e)" for e
    using that
  proof (induction headers arbitrary: e)
    case (Cons f headers)
    obtain n v where f: "f = (n, v)" by (cases f)
    obtain e1 bs where a: "enc_add e n v False h = (e1, Inr bs)" "ht_inv (enc_table e1)"
      using enc_add_keeps(1,4) [OF Cons.prems, of n v False h] by (metis prod.collapse)
    from Cons.IH [OF a(2)] a(1) f show ?case by auto
  qed simp
  obtain bs where "encode_sizes (signalled e) = Inr bs"
    using decode_loop_sizes [of fresh_decoder "signalled e" 0 "[]" "[]"] assms(2)
    by (auto simp: fresh_decoder_def)
  moreover have "ht_inv (enc_table (sizes_sent e))"
    using assms(1) by (simp add: sizes_sent_def ht_inv_def content_def)
  ultimately show ?thesis using all [of "sizes_sent e"] enc_encode_eq by metis
qed

theorem encoder_total_witness:
  "\<exists>e' block. enc_encode Encoder_init [(b_lit ''a'', b_lit ''b'')] True = (e', Inr block) \<and> ht_inv (enc_table e')"
  by (rule encoder_total) (simp_all add: Encoder_init_def signalled_def HeaderTable_init_def ht_inv_def content_def)

text \<open>Changing the encoder's table to a different size is signalled: the two sides are back
  in step once the decoder has read the size updates of the next block.\<close>

theorem resize_signalled:
  assumes "in_step e u" "0 \<le> v" "v \<noteq> maxsize (enc_table e)"
  shows "in_step (fst (set_header_table_size e v)) u"
  using assms by (rule in_step_resize)

theorem resize_signalled_witness: "in_step (fst (set_header_table_size Encoder_init 0)) HeaderTable_init"
proof -
  have "in_step Encoder_init HeaderTable_init"
    using session_in_step [OF session_init] by (simp add: fresh_decoder_def)
  then show ?thesis by (rule resize_signalled) (simp_all add: Encoder_init_def HeaderTable_init_def)
qed

text \<open>Assigning the same size a second time before the next block cancels the pending size
  update: the block carries none, and a decoder whose table has another size stays out of step.\<close>

theorem resize_twice_lost:
  fixes e :: encoder and v :: int
  assumes "ht_inv (enc_table e)"
  defines "e2 \<equiv> fst (set_header_table_size (fst (set_header_table_size e v)) v)"
  shows "maxsize (enc_table e2) = v \<and> enc_encode e2 headers h = enc_add_all e2 headers h \<and>
    (maxsize u \<noteq> v \<longrightarrow> \<not> in_step e2 u)"
proof -
  have set: "ht_inv (enc_table (fst (set_header_table_size e v)))"
    "maxsize (enc_table (fst (set_header_table_size e v))) = v"
    "resized (enc_table (fst (set_header_table_size e v))) = (v \<noteq> maxsize (enc_table e))"
    if "ht_inv (enc_table e)" for e
    using set_maxsize_fit [OF that, of v] by (auto simp: set_header_table_size_def split: if_splits)
  note s1 = set [OF assms(1)]
  note s2 = set [OF s1(1), folded e2_def]
  have "\<not> resized (enc_table e2)" using s2(3) s1(2) by simp
  with s2(2) show ?thesis by (auto simp: enc_encode_def in_step_def signalled_def hs.sync_def)
qed

theorem resize_twice_lost_witness:
  "let e2 = fst (set_header_table_size (fst (set_header_table_size Encoder_init 0)) 0)
   in maxsize (enc_table e2) = 0 \<and> \<not> in_step e2 HeaderTable_init"
  using resize_twice_lost [where e = Encoder_init and v = 0 and u = HeaderTable_init]
  by (simp add: Let_def Encoder_init_def HeaderTable_maxsize)

section \<open>The cached lookups go stale\<close>

lemma static_mapping_absent:
  assumes "n \<notin> fst ` set STATIC_TABLE"
  shows "STATIC_TABLE_MAPPING n = None"
proof (rule ccontr)
  assume "STATIC_TABLE_MAPPING n \<noteq> None"
  then obtain r where "STATIC_TABLE_MAPPING n = Some r" by blast
  from static_mapping_Some [OF this]
  have "fst (STATIC_TABLE ! nat (fst r - 1)) = n" "nat (fst r - 1) < length STATIC_TABLE"
    by (auto simp: mapping_entry_ok_def)
  with assms show False by (metis image_eqI nth_mem)
qed

lemma STATIC_TABLE_names: "list_all (\<lambda>f. 1 < length (fst f)) STATIC_TABLE"
  by (simp add: STATIC_TABLE_def b_lit_def)

lemma table_search_short:
  assumes "length n = 1"
  shows "table_search t n v = search_dynamic (dynamic_entries t) 62 n v None"
proof -
  have "n \<notin> fst ` set STATIC_TABLE" using STATIC_TABLE_names assms by (auto simp: list_all_iff)
  then show ?thesis by (simp add: table_search_def static_mapping_absent STATIC_TABLE_LENGTH_eq)
qed

lemma encode_short_literals:
  "encode_literal [97] [49] INDEX_INCREMENTAL False = Inr [0x40, 1, 0x61, 1, 0x31]"
  "encode_literal [98] [50] INDEX_INCREMENTAL False = Inr [0x40, 1, 0x62, 1, 0x32]"
  "encode_indexed 62 = Inr [0xBE]"
  by code_simp+

lemma decode_short_indexed:
  "decode_field self st False (0xBE # rest) =
     (case dec_lookup self st 62 of
        (st, Inl err) \<Rightarrow> (st, Inl err)
      | (st, Inr header) \<Rightarrow> (st, Inr (header, 1)))"
  by (simp add: decode_field_def decode_integer_view_def PREFIX_BIT_MAX_NUMBERS_def Let_def drop_bit_eq_div)

lemma decode_short_literal:
  "decode_field self st False (0x40 # 1 # a # 1 # b # rest) =
     (case table_add (dec_table st) (PyView [a]) (PyView [b]) of
        (t, None) \<Rightarrow> (st\<lparr>dec_table := t\<rparr>, Inr (Some (PyView [a], PyView [b]), 5))
      | (t, Some err) \<Rightarrow> (st\<lparr>dec_table := t\<rparr>, Inl err))"
  by (simp add: decode_field_def decode_integer_view_def PREFIX_BIT_MAX_NUMBERS_def Let_def drop_bit_eq_div
      decode_literal_def decode_string_def decode_value_def py_slice_def clamp_bound_def
      split: prod.split option.split)

lemmas table_run = table_search_short table_add_def shrink_def shrink_loop.simps HeaderTable_init_def
  field_size_def

text \<open>The cache of get_by_index breaks HPACK as soon as a dynamic index is used twice
  around an insertion: a fresh decoder reads the encoding of a:1, a:1, b:2, b:2 as
  a:1, a:1, b:2, a:1.\<close>

theorem stale_cache:
  "\<exists>e block st es. enc_encode Encoder_init [([97], [49]), ([97], [49]), ([98], [50]), ([98], [50])] False
       = (e, Inr block) \<and>
     dec_decode 0 fresh_decoder False block = (st, Inr es) \<and>
     map raw_entry es = [([97], [49]), ([97], [49]), ([98], [50]), ([97], [49])]"
proof -
  let ?block = "[0x40, 1, 0x61, 1, 0x31, 0xBE, 0x40, 1, 0x62, 1, 0x32, 0xBE] :: bytes"
  let ?es = "[(PyView [97], PyView [49]), (PyView [97], PyView [49]), (PyView [98], PyView [50]), (PyView [97], PyView [49])]"
  have "\<exists>e. enc_encode Encoder_init [([97], [49]), ([97], [49]), ([98], [50]), ([98], [50])] False = (e, Inr ?block)"
    by (simp add: enc_encode_def Encoder_init_def enc_add_def enc_insert_def table_run encode_short_literals)
  moreover have "\<exists>st. dec_decode 0 fresh_decoder False ?block = (st, Inr ?es)"
    by (simp add: dec_decode_def decode_loop.simps decode_short_indexed decode_short_literal fresh_decoder_def
        dec_lookup_def get_by_index_def get_by_index_raw_def STATIC_TABLE_LENGTH_eq table_run GBI_CACHE_SIZE_def)
  moreover have "map raw_entry ?es = [([97], [49]), ([97], [49]), ([98], [50]), ([97], [49])]" by simp
  ultimately show ?thesis by (elim exE) (intro exI conjI)
qed

section \<open>Deferred headers\<close>

text \<open>Parsing a nonempty header block held in a bytearray always answers status 400 with no
  headers, whatever the block says.\<close>

theorem parse_bytearray_400:
  assumes "ht_inv (dec_table st)" "raw_headers \<noteq> []"
  shows "snd (parse_deferred self st True raw_headers) = Inr (Some 400, [])"
proof -
  obtain t where t: "set_maxsize (dec_table st) (maxsize (dec_table st)) = (t, None)"
    using set_maxsize_same [OF assms(1)] by blast
  obtain err where "dec_decode self (st\<lparr>dec_table := t\<rparr>) True raw_headers = (st\<lparr>dec_table := t\<rparr>, Inl err)"
    using dec_decode_writable [OF assms(2)] by blast
  with t show ?thesis by (simp add: parse_deferred_def)
qed

theorem parse_bytearray_400_witness: "snd (parse_deferred 0 fresh_decoder True [0x88]) = Inr (Some 400, [])"
  by (rule parse_bytearray_400) (simp_all add: fresh_decoder_def)

text \<open>When a block decodes to byte strings with one numeric status, parsing answers that
  status and a dictionary that maps every other name to the last value the block gave it.\<close>

theorem parse_deferred_ok:
  assumes "ht_inv (dec_table st)"
    "dec_decode self (st\<lparr>dec_table := fst (set_maxsize (dec_table st) (maxsize (dec_table st)))\<rparr>) False block =
       (st', Inr (map (\<lambda>f. (PyBytes (fst f), PyBytes (snd f))) fs))"
    "statuses fs = [s]" "py_int (decode_ascii_ignore s) = Inr c"
  shows "\<exists>d. parse_deferred self st False block = (st', Inr (Some c, d)) \<and> map_of d = map_of (rev (plain_fields fs))"
proof -
  obtain t where t: "set_maxsize (dec_table st) (maxsize (dec_table st)) = (t, None)"
    using set_maxsize_same [OF assms(1)] by blast
  have "\<exists>d. parse_headers (map (\<lambda>f. (PyBytes (fst f), PyBytes (snd f))) fs) None [] = Inr (Some c, d) \<and>
      map_of d = map_of (rev (plain_fields fs))"
    using parse_headers_bytes [of fs None "[]"] assms(3,4) by simp
  with t assms(2) show ?thesis by (auto simp: parse_deferred_def)
qed

lemma decode_status_200:
  "dec_decode 0 (fresh_decoder\<lparr>dec_table := fst (set_maxsize (dec_table fresh_decoder) (maxsize (dec_table fresh_decoder)))\<rparr>)
     False [0x88] =
   (fresh_decoder\<lparr>dec_cache := [((0, 8), Some (PyBytes (b_lit '':status''), PyBytes (b_lit ''200'')))]\<rparr>,
    Inr [(PyBytes (b_lit '':status''), PyBytes (b_lit ''200''))])"
proof -
  have i: "decode_integer_view False [0x88] 7 = Inr (8, 1)"
    by (simp add: decode_integer_view_def PREFIX_BIT_MAX_NUMBERS_def Let_def drop_bit_eq_div)
  have g: "get_by_index_raw t 8 = Inr (Some (PyBytes (b_lit '':status''), PyBytes (b_lit ''200'')))" for t
    by (simp add: get_static STATIC_TABLE_LENGTH_eq) (simp add: STATIC_TABLE_def)
  show ?thesis
    by (simp add: dec_decode_def decode_loop.simps decode_field_def i g dec_lookup_def get_by_index_def
        fresh_decoder_def HeaderTable_init_def set_maxsize_def GBI_CACHE_SIZE_def)
qed

theorem parse_deferred_ok_witness:
  "\<exists>st' d. parse_deferred 0 fresh_decoder False [0x88] = (st', Inr (Some 200, d)) \<and> map_of d = Map.empty"
proof -
  have "py_int (decode_ascii_ignore (b_lit ''200'')) = Inr 200" by code_simp
  then have "\<exists>d. parse_deferred 0 fresh_decoder False [0x88] =
      (fresh_decoder\<lparr>dec_cache := [((0, 8), Some (PyBytes (b_lit '':status''), PyBytes (b_lit ''200'')))]\<rparr>,
       Inr (Some 200, d)) \<and> map_of d = map_of (rev (plain_fields [(b_lit '':status'', b_lit ''200'')]))"
    by (intro parse_deferred_ok [where s = "b_lit ''200''"])
      (simp_all add: decode_status_200 statuses_def, simp add: fresh_decoder_def)
  then show ?thesis by (auto simp: plain_fields_def)
qed

end
