(* ===== verification/Http2_Frame.thy ===== *)
theory Http2_Frame
  imports Py_Struct
begin

unbundle bit_operations_syntax

text \<open>
  Frames of HTTP/2: class \<open>Frame\<close> of \<open>http2/frames/types/base_frame.py\<close> with its constructor,
  \<open>flow_controlled_length\<close>, \<open>parse_flags\<close> and \<open>serialize\<close>, and the flag set of
  \<open>attributes/frame_flags.py\<close>. An attribute that holds an object other than \<open>bytes\<close> by
  default (\<open>data\<close> of a CONTINUATION frame is None, \<open>additional_data\<close> is the integer 0 on
  frames that are not GOAWAY) is an option, None standing for that object.
\<close>

section \<open>Flags\<close>

datatype flag_name = END_STREAM | END_HEADERS | PADDED | PRIORITY | ACK

type_synonym flag = "flag_name \<times> int"

section \<open>The frame object\<close>

record frame =
  stream_id :: int
  ftype :: int
  frame_type :: "string option"
  field_value :: bytes
  fdata :: "bytes option"
  settings :: "(int \<times> int) list"
  origin :: bytes
  error_code :: int
  pad_length :: int
  last_stream_id :: int
  additional_data :: "bytes option"
  depends_on :: int
  stream_weight :: int
  exclusive :: bool
  opaque_data :: bytes
  promised_stream_id :: int
  window_increment :: int
  flag_byte :: int
  defined_flags :: "flag list"
  flags :: "flag_name set"
  body_len :: int

definition frame_types :: "int \<Rightarrow> string option" where
  "frame_types t =
     (if t = 0xA then Some ''ALTSVC''
      else if t = 0x09 then Some ''CONTINUATION''
      else if t = 0x0 then Some ''DATA''
      else if t = 0x07 then Some ''GOAWAY''
      else if t = 0x01 then Some ''HEADERS''
      else if t = 0x06 then Some ''PING''
      else if t = 0x02 then Some ''PRIORITY''
      else if t = 0x05 then Some ''PUSHPROMISE''
      else if t = 0x03 then Some ''RESET''
      else if t = 0x04 then Some ''SETTINGS''
      else if t = 0x08 then Some ''WINDOWUPDATE''
      else None)"

text \<open>The keyword arguments of the constructor; a missing one is None.\<close>

record frame_kwargs =
  kw_origin :: "bytes option"
  kw_fields :: "bytes option"
  kw_data :: "bytes option"
  kw_pad_length :: "int option"
  kw_last_stream_id :: "int option"
  kw_additional_data :: "bytes option"
  kw_error_code :: "int option"
  kw_depends_on :: "int option"
  kw_stream_weight :: "int option"
  kw_exclusive :: "bool option"
  kw_opaque_data :: "bytes option"
  kw_promised_stream_id :: "int option"
  kw_settings :: "(int \<times> int) list option"
  kw_window_increment :: "int option"
  kw_flag_byte :: "int option"

definition no_kwargs :: frame_kwargs where
  "no_kwargs = \<lparr>kw_origin = None, kw_fields = None, kw_data = None, kw_pad_length = None,
     kw_last_stream_id = None, kw_additional_data = None, kw_error_code = None,
     kw_depends_on = None, kw_stream_weight = None, kw_exclusive = None, kw_opaque_data = None,
     kw_promised_stream_id = None, kw_settings = None, kw_window_increment = None,
     kw_flag_byte = None\<rparr>"

definition kw_get :: "'a option \<Rightarrow> 'a \<Rightarrow> 'a" where
  "kw_get arg dflt = (case arg of None \<Rightarrow> dflt | Some v \<Rightarrow> v)"

text \<open>The attributes before the dispatch on the type.\<close>

definition frame_defaults :: "int \<Rightarrow> int \<Rightarrow> flag_name set \<Rightarrow> frame" where
  "frame_defaults sid t fl =
     \<lparr>stream_id = sid, ftype = t, frame_type = frame_types t, field_value = [], fdata = Some [],
      settings = [], origin = [], error_code = 0, pad_length = 0, last_stream_id = 0,
      additional_data = None, depends_on = 0, stream_weight = 0, exclusive = False,
      opaque_data = [], promised_stream_id = 0, window_increment = 0, flag_byte = 0,
      defined_flags = [], flags = fl, body_len = 0\<rparr>"

text \<open>The dispatch on the type.\<close>

definition frame_dispatch :: "frame \<Rightarrow> frame_kwargs \<Rightarrow> frame" where
  "frame_dispatch f kw =
     (if ftype f = 0xA then
        f\<lparr>origin := kw_get (kw_origin kw) [], field_value := kw_get (kw_fields kw) []\<rparr>
      else if ftype f = 0x09 then
        f\<lparr>defined_flags := [(END_HEADERS, 0x04)], fdata := kw_data kw\<rparr>
      else if ftype f = 0x0 then
        f\<lparr>defined_flags := [(END_STREAM, 0x01), (PADDED, 0x08)],
          pad_length := kw_get (kw_pad_length kw) 0, fdata := Some (kw_get (kw_data kw) [])\<rparr>
      else if ftype f = 0x07 then
        f\<lparr>last_stream_id := kw_get (kw_last_stream_id kw) 0,
          additional_data := Some (kw_get (kw_additional_data kw) []),
          error_code := kw_get (kw_error_code kw) 0\<rparr>
      else if ftype f = 0x01 then
        f\<lparr>defined_flags := [(END_STREAM, 0x01), (END_HEADERS, 0x04), (PADDED, 0x08), (PRIORITY, 0x20)],
          fdata := Some (kw_get (kw_data kw) []), pad_length := kw_get (kw_pad_length kw) 0,
          depends_on := kw_get (kw_depends_on kw) 0, stream_weight := kw_get (kw_stream_weight kw) 0,
          exclusive := kw_get (kw_exclusive kw) False\<rparr>
      else if ftype f = 0x06 then
        f\<lparr>defined_flags := [(ACK, 0x01)], opaque_data := kw_get (kw_opaque_data kw) []\<rparr>
      else if ftype f = 0x02 then
        f\<lparr>depends_on := kw_get (kw_depends_on kw) 0, stream_weight := kw_get (kw_stream_weight kw) 0,
          exclusive := kw_get (kw_exclusive kw) False\<rparr>
      else if ftype f = 0x05 then
        f\<lparr>defined_flags := [(END_HEADERS, 0x04), (PADDED, 0x08)],
          promised_stream_id := kw_get (kw_promised_stream_id kw) 0,
          pad_length := kw_get (kw_pad_length kw) 0, fdata := Some (kw_get (kw_data kw) [])\<rparr>
      else if ftype f = 0x03 then
        f\<lparr>error_code := kw_get (kw_error_code kw) 0\<rparr>
      else if ftype f = 0x04 then
        f\<lparr>defined_flags := [(ACK, 0x01)], settings := kw_get (kw_settings kw) []\<rparr>
      else if ftype f = 0x08 then
        f\<lparr>window_increment := kw_get (kw_window_increment kw) 0\<rparr>
      else f\<lparr>flag_byte := kw_get (kw_flag_byte kw) 0\<rparr>)"

fun add_flags :: "flag list \<Rightarrow> int \<Rightarrow> flag_name set \<Rightarrow> flag_name set" where
  "add_flags [] b fl = fl"
| "add_flags ((f, flag_bit) # fs) b fl = add_flags fs b (if b AND flag_bit \<noteq> 0 then insert f fl else fl)"

definition parse_flags :: "frame \<Rightarrow> int \<Rightarrow> frame" where
  "parse_flags f b = f\<lparr>flags := add_flags (defined_flags f) b (flags f)\<rparr>"

definition Frame_init :: "int \<Rightarrow> int \<Rightarrow> flag_name set \<Rightarrow> int \<Rightarrow> frame_kwargs \<Rightarrow> frame" where
  "Frame_init sid t fl parsed_flag_byte kw =
     parse_flags (frame_dispatch (frame_defaults sid t fl) kw) parsed_flag_byte"

text \<open>\<open>len(self.data)\<close> raises on None.\<close>

definition flow_controlled_length :: "frame \<Rightarrow> int res" where
  "flow_controlled_length f =
     (case fdata f of
        None \<Rightarrow> Inl TypeError
      | Some d \<Rightarrow> Inr (int (length d) + (if PADDED \<in> flags f then pad_length f + 1 else 0)))"

section \<open>Serializing\<close>

definition data_bytes :: "bytes option \<Rightarrow> bytes res" where
  "data_bytes d = (case d of None \<Rightarrow> Inl TypeError | Some bs \<Rightarrow> Inr bs)"

definition zero_bytes :: "int \<Rightarrow> bytes" where
  "zero_bytes n = replicate (nat n) 0"

definition padding_data :: "frame \<Rightarrow> bytes res" where
  "padding_data f = (if PADDED \<in> flags f then pack_struct STRUCT_B [pad_length f] else Inr [])"

definition priority_data :: "frame \<Rightarrow> bytes res" where
  "priority_data f =
     pack_struct STRUCT_LB [depends_on f + (if exclusive f then 0x80000000 else 0), stream_weight f]"

fun settings_body :: "(int \<times> int) list \<Rightarrow> bytes res" where
  "settings_body [] = Inr []"
| "settings_body ((setting, val) # rest) =
     rbind (pack_struct STRUCT_HL [setting AND 0xFF, val])
       (\<lambda>bs. rbind (settings_body rest) (\<lambda>bs'. Inr (bs @ bs')))"

text \<open>The body, with the new value of \<open>self.data\<close>: serializing a GOAWAY frame assigns it.\<close>

definition serialize_body :: "frame \<Rightarrow> bytes option \<times> bytes res" where
  "serialize_body f =
     (let same = Pair (fdata f)
      in if ftype f = 0xA then
           same (rbind (pack_struct STRUCT_H [int (length (origin f))])
             (\<lambda>origin_len. Inr (origin_len @ origin f @ field_value f)))
         else if ftype f = 0x09 then same (data_bytes (fdata f))
         else if ftype f = 0x0 then
           same (rbind (padding_data f) (\<lambda>pd. rbind (data_bytes (fdata f)) (\<lambda>d.
             Inr (pd @ d @ zero_bytes (pad_length f)))))
         else if ftype f = 0x07 then
           (case pack_struct STRUCT_LL [last_stream_id f AND 0x7FFFFFFF, error_code f] of
              Inl err \<Rightarrow> (fdata f, Inl err)
            | Inr d \<Rightarrow> (Some d, rbind (data_bytes (additional_data f)) (\<lambda>a. Inr (d @ a))))
         else if ftype f = 0x01 then
           same (rbind (padding_data f) (\<lambda>pd.
             rbind (if PRIORITY \<in> flags f then priority_data f else Inr []) (\<lambda>prio.
               rbind (data_bytes (fdata f)) (\<lambda>d. Inr (pd @ prio @ d @ zero_bytes (pad_length f))))))
         else if ftype f = 0x06 then
           same (Inr (opaque_data f @ zero_bytes (8 - int (length (opaque_data f)))))
         else if ftype f = 0x02 then same (priority_data f)
         else if ftype f = 0x05 then
           same (rbind (padding_data f) (\<lambda>pd.
             rbind (pack_struct STRUCT_L [promised_stream_id f]) (\<lambda>promise.
               rbind (data_bytes (fdata f)) (\<lambda>d. Inr (pd @ promise @ d @ zero_bytes (pad_length f))))))
         else if ftype f = 0x03 then same (pack_struct STRUCT_L [error_code f])
         else if ftype f = 0x04 then same (settings_body (settings f))
         else if ftype f = 0x08 then
           same (pack_struct STRUCT_L [window_increment f AND 0x7FFFFFFF])
         else same (Inr []))"

fun flags_value :: "flag list \<Rightarrow> flag_name set \<Rightarrow> int \<Rightarrow> int" where
  "flags_value [] fl v = v"
| "flags_value ((f, flag_bit) # fs) fl v = flags_value fs fl (if f \<in> fl then v OR flag_bit else v)"

definition known_type :: "int \<Rightarrow> bool" where
  "known_type t \<longleftrightarrow> 0 \<le> t \<and> t \<le> 0xA"

definition frame_header :: "int \<Rightarrow> int \<Rightarrow> int \<Rightarrow> int \<Rightarrow> bytes res" where
  "frame_header n t flagbits sid =
     pack_struct STRUCT_HBBBL
       [drop_bit 8 n AND 0xFFFF, n AND 0xFF, t, flagbits, sid AND 0x7FFFFFFF]"

definition serialize :: "frame \<Rightarrow> frame \<times> bytes res" where
  "serialize f =
     (case serialize_body f of
        (d, Inl err) \<Rightarrow> (f\<lparr>fdata := d\<rparr>, Inl err)
      | (d, Inr body) \<Rightarrow>
          (let n = int (length body);
               flagbits = flags_value (defined_flags f) (flags f)
                            (if known_type (ftype f) then 0 else flag_byte f)
           in (f\<lparr>fdata := d, body_len := n\<rparr>,
               map_sum id (\<lambda>header. header @ body) (frame_header n (ftype f) flagbits (stream_id f)))))"

end
