(* ===== verification/Frame_Buffer.thy ===== *)
theory Frame_Buffer
  imports Http2_Frame "HOL-Library.AList"
begin

unbundle bit_operations_syntax

text \<open>
  \<open>FrameBuffer\<close> of \<open>http2/frames/frame_buffer.py\<close>: the receive buffer and its iterator, which
  cuts the buffered bytes into frames, parses the body of each, and holds back the frames of
  a header block that is not complete. One round of the loop of \<open>__iter__\<close> is \<open>buffer_round\<close>;
  \<open>buffer_drain\<close> runs the iterator until it stops or raises.
\<close>

section \<open>Parsing a body\<close>

definition unpack1 :: "nat list \<Rightarrow> bytes \<Rightarrow> int res" where
  "unpack1 fmt bs = rbind (unpack_struct fmt bs) (\<lambda>vs. Inr (hd vs))"

text \<open>A pair of fields, for the formats with two.\<close>

definition unpack2 :: "nat list \<Rightarrow> bytes \<Rightarrow> (int \<times> int) res" where
  "unpack2 fmt bs = rbind (unpack_struct fmt bs) (\<lambda>vs. Inr (vs ! 0, vs ! 1))"

definition set_priority :: "frame \<Rightarrow> int \<times> int \<Rightarrow> frame" where
  "set_priority f p =
     f\<lparr>exclusive := (drop_bit 31 (fst p) \<noteq> 0), depends_on := fst p AND 0x7FFFFFFF,
       stream_weight := snd p\<rparr>"

definition parse_altsvc :: "frame \<Rightarrow> bytes \<Rightarrow> frame res" where
  "parse_altsvc f body =
     rbind (unpack1 STRUCT_H (take 2 body)) (\<lambda>origin_len.
       let orig = py_slice body 2 (2 + origin_len)
       in if int (length orig) \<noteq> origin_len then Inl (GenericException ''Invalid ALTSVC frame body.'')
          else Inr (f\<lparr>origin := orig, field_value := drop (nat (2 + origin_len)) body,
                      body_len := int (length body)\<rparr>))"

text \<open>The pad length of a PADDED frame, and the offset of what follows it.\<close>

definition parse_padding :: "frame \<Rightarrow> bytes \<Rightarrow> int \<Rightarrow> (int \<times> int) res" where
  "parse_padding f body unpadded =
     (if PADDED \<in> flags f
      then rbind (unpack1 STRUCT_B (take 1 body)) (\<lambda>p. Inr (p, 1))
      else Inr (unpadded, 0))"

definition parse_data :: "frame \<Rightarrow> bytes \<Rightarrow> frame res" where
  "parse_data f body =
     rbind (parse_padding f body 0) (\<lambda>(pad, offset).
       let data_length = int (length body)
       in Inr (f\<lparr>pad_length := pad, fdata := Some (py_slice body offset (data_length - pad)),
                 body_len := data_length\<rparr>))"

definition parse_goaway :: "frame \<Rightarrow> bytes \<Rightarrow> frame res" where
  "parse_goaway f body =
     rbind (unpack2 STRUCT_LL (take 8 body)) (\<lambda>(last, code).
       let f = f\<lparr>last_stream_id := last, error_code := code, body_len := int (length body)\<rparr>
       in Inr (if length body > 8 then f\<lparr>additional_data := Some (drop 8 body)\<rparr> else f))"

definition parse_headers_frame :: "frame \<Rightarrow> bytes \<Rightarrow> frame res" where
  "parse_headers_frame f body =
     rbind (parse_padding f body (pad_length f)) (\<lambda>(pad, offset).
       let f = f\<lparr>pad_length := pad\<rparr>;
           body = drop (nat offset) body
       in rbind (if PRIORITY \<in> flags f
                 then rbind (unpack2 STRUCT_LB (take 5 body)) (\<lambda>p. Inr (set_priority f p, 5))
                 else Inr (f, 0)) (\<lambda>(f, offset).
            let data_length = int (length body)
            in Inr (f\<lparr>body_len := data_length,
                      fdata := Some (py_slice body offset (data_length - pad_length f))\<rparr>)))"

definition parse_priority :: "frame \<Rightarrow> bytes \<Rightarrow> frame res" where
  "parse_priority f body =
     (case unpack2 STRUCT_LB (take 5 body) of
        Inl _ \<Rightarrow> Inl (GenericException ''Invalid Priority data'')
      | Inr p \<Rightarrow> Inr ((set_priority f p)\<lparr>body_len := 5\<rparr>))"

definition parse_push_promise :: "frame \<Rightarrow> bytes \<Rightarrow> frame res" where
  "parse_push_promise f body =
     (case parse_padding f body 0 of
        Inl _ \<Rightarrow> Inl (GenericException ''Invalid Padding data'')
      | Inr (pad, offset) \<Rightarrow>
          rbind (unpack1 STRUCT_L (py_slice body offset (offset + 4))) (\<lambda>sid.
            let data_len = int (length body)
            in Inr (f\<lparr>pad_length := pad, promised_stream_id := sid,
                      fdata := Some (py_slice body (offset + 4) (data_len - pad)),
                      body_len := data_len\<rparr>)))"

text \<open>The settings of a body in steps of six bytes, later values replacing earlier ones.\<close>

fun parse_settings :: "bytes \<Rightarrow> (int \<times> int) list \<Rightarrow> (int \<times> int) list res" where
  "parse_settings [] d = Inr d"
| "parse_settings (b # body) d =
     rbind (unpack2 STRUCT_HL (take 6 (b # body))) (\<lambda>(name, val).
       parse_settings (drop 5 body) (AList.update name val d))"

definition parse_body :: "frame \<Rightarrow> bytes \<Rightarrow> frame res" where
  "parse_body f body =
     (if ftype f = 0xA then parse_altsvc f body
      else if ftype f = 0x09 then Inr (f\<lparr>fdata := Some body, body_len := int (length body)\<rparr>)
      else if ftype f = 0x0 then parse_data f body
      else if ftype f = 0x07 then parse_goaway f body
      else if ftype f = 0x01 then parse_headers_frame f body
      else if ftype f = 0x06 then Inr (f\<lparr>opaque_data := body, body_len := 8\<rparr>)
      else if ftype f = 0x02 then parse_priority f body
      else if ftype f = 0x05 then parse_push_promise f body
      else if ftype f = 0x03 then
        rbind (unpack1 STRUCT_L body) (\<lambda>code. Inr (f\<lparr>error_code := code, body_len := 4\<rparr>))
      else if ftype f = 0x04 then
        rbind (parse_settings body (settings f)) (\<lambda>d.
          Inr (f\<lparr>settings := d, body_len := 6 * int ((length body + 5) div 6)\<rparr>))
      else if ftype f = 0x08 then
        rbind (unpack1 STRUCT_L body) (\<lambda>n. Inr (f\<lparr>window_increment := n, body_len := 4\<rparr>))
      else Inr f)"

section \<open>The buffer\<close>

record frame_buffer =
  fb_data :: bytes
  max_frame_size :: int
  headers_buffer :: "frame list"

definition FrameBuffer_init :: frame_buffer where
  "FrameBuffer_init = \<lparr>fb_data = [], max_frame_size = 0, headers_buffer = []\<rparr>"

text \<open>\<open>self.data.extend(data)\<close>, done by the reader of the socket.\<close>

definition fb_extend :: "frame_buffer \<Rightarrow> bytes \<Rightarrow> frame_buffer" where
  "fb_extend fb bs = fb\<lparr>fb_data := fb_data fb @ bs\<rparr>"

text \<open>
  The header block logic of a round. A complete block ends in
  \<open>frame_data.extend(header_frame)\<close>, which raises \<open>TypeError\<close>: a \<open>Frame\<close> is not iterable.
  By then the flag END_HEADERS has been added to the first frame of the block.
\<close>

definition update_header_buffer :: "frame_buffer \<Rightarrow> frame \<Rightarrow> frame_buffer \<times> frame option res" where
  "update_header_buffer fb f =
     (case headers_buffer fb of
        first # rest \<Rightarrow>
          if \<not> (frame_type f = Some ''CONTINUATION'' \<and> stream_id f = stream_id first)
          then (fb, Inl (GenericException ''Invalid frame during header block.''))
          else if END_HEADERS \<in> flags f
          then (fb\<lparr>headers_buffer := first\<lparr>flags := insert END_HEADERS (flags first)\<rparr> # rest @ [f]\<rparr>,
                Inl TypeError)
          else (fb\<lparr>headers_buffer := first # rest @ [f]\<rparr>, Inr None)
      | [] \<Rightarrow>
          if (frame_type f = Some ''HEADERS'' \<or> frame_type f = Some ''PUSHPROMISE'') \<and>
             END_HEADERS \<notin> flags f
          then (fb\<lparr>headers_buffer := [f]\<rparr>, Inr None)
          else (fb, Inr (Some f)))"

text \<open>The outcomes of a round: stop and wait for data, go on, yield a frame and go on, raise.\<close>

datatype round_result = Wait | Next "frame option" | Raise py_error

definition buffer_round :: "frame_buffer \<Rightarrow> frame_buffer \<times> round_result" where
  "buffer_round fb =
     (if length (fb_data fb) < 9 then (fb, Wait)
      else (case unpack_struct STRUCT_HBBBL (take 9 (fb_data fb)) of
              Inl err \<Rightarrow> (fb, Raise err)
            | Inr fs \<Rightarrow>
                (let len = push_bit 8 (fs ! 0) + fs ! 1;
                     f = Frame_init (fs ! 4 AND 0x7FFFFFFF) (fs ! 2) {} (fs ! 3) no_kwargs
                 in if int (length (fb_data fb)) < len + 9 then (fb, Wait)
                    else (case parse_body f (py_slice (fb_data fb) 9 (9 + len)) of
                            Inl err \<Rightarrow> (fb, Raise err)
                          | Inr f \<Rightarrow>
                              (let fb = fb\<lparr>fb_data := drop (nat (9 + len)) (fb_data fb)\<rparr>
                               in case update_header_buffer fb f of
                                    (fb, Inl err) \<Rightarrow> (fb, Raise err)
                                  | (fb, Inr r) \<Rightarrow> (fb, Next r))))))"

lemma update_header_buffer_data:
  "update_header_buffer fb f = (fb', r) \<Longrightarrow> fb_data fb' = fb_data fb"
  by (auto simp: update_header_buffer_def split: list.splits if_splits)

lemma header_length_nonneg:
  assumes "unpack_struct STRUCT_HBBBL bs = Inr fs"
  shows "0 \<le> push_bit 8 (fs ! 0) + fs ! 1"
proof -
  have "list_all2 (\<lambda>n v. 0 \<le> v \<and> v < 256 ^ n) STRUCT_HBBBL fs"
    using assms by (auto simp: unpack_struct_def split: if_splits intro: split_struct_bounds)
  then have "0 \<le> fs ! 0" "0 \<le> fs ! 1" by (auto simp: list_all2_conv_all_nth STRUCT_HBBBL_def)
  then show ?thesis by (simp add: push_bit_eq_mult)
qed

lemma buffer_round_shrinks:
  assumes "buffer_round fb = (fb', Next r)"
  shows "length (fb_data fb') + 9 \<le> length (fb_data fb)"
proof -
  from assms obtain fs where fs: "unpack_struct STRUCT_HBBBL (take 9 (fb_data fb)) = Inr fs"
    by (auto simp: buffer_round_def split: if_splits sum.splits)
  define len where "len = push_bit 8 (fs ! 0) + fs ! 1"
  have "0 \<le> len" using header_length_nonneg [OF fs] by (simp add: len_def)
  moreover have "len + 9 \<le> int (length (fb_data fb))"
    "fb_data fb' = drop (nat (9 + len)) (fb_data fb)"
    using assms fs
    by (auto simp: buffer_round_def Let_def len_def dest!: update_header_buffer_data
        split: if_splits sum.splits prod.splits)
  ultimately show ?thesis by auto
qed

function buffer_drain :: "frame_buffer \<Rightarrow> frame_buffer \<times> frame list \<times> py_error option" where
  "buffer_drain fb =
     (case buffer_round fb of
        (fb, Wait) \<Rightarrow> (fb, [], None)
      | (fb, Raise err) \<Rightarrow> (fb, [], Some err)
      | (fb, Next r) \<Rightarrow>
          (case buffer_drain fb of
             (fb, frames, err) \<Rightarrow> (fb, (case r of None \<Rightarrow> frames | Some f \<Rightarrow> f # frames), err)))"
  by pat_completeness auto
termination
  by (relation "measure (\<lambda>fb. length (fb_data fb))") (auto dest!: buffer_round_shrinks [OF sym])

declare buffer_drain.simps [simp del]

section \<open>Framing does not depend on how the bytes arrive\<close>

lemma update_header_buffer_extend:
  "update_header_buffer fb f = (fb', r) \<Longrightarrow>
     update_header_buffer (fb\<lparr>fb_data := bs\<rparr>) f = (fb'\<lparr>fb_data := bs\<rparr>, r)"
  by (auto simp: update_header_buffer_def split: list.splits if_splits)

lemma py_slice_append:
  assumes "0 \<le> a" "a \<le> b" "b \<le> int (length xs)"
  shows "py_slice (xs @ ys) a b = py_slice xs a b"
proof -
  obtain m n where "a = int m" "b = int n" using assms by (metis nonneg_int_cases order_trans)
  with assms show ?thesis by (simp add: py_slice_nat)
qed

lemma buffer_round_extend:
  assumes "buffer_round fb = (fb', Next r)"
  shows "buffer_round (fb_extend fb bs) = (fb_extend fb' bs, Next r)"
proof -
  let ?d = "fb_data fb"
  have len9: "\<not> length ?d < 9" using assms by (auto simp: buffer_round_def split: if_splits)
  with assms obtain fs where fs: "unpack_struct STRUCT_HBBBL (take 9 ?d) = Inr fs"
    by (auto simp: buffer_round_def split: sum.splits)
  define len where "len = push_bit 8 (fs ! 0) + fs ! Suc 0"
  define f where "f = Frame_init (fs ! 4 AND 0x7FFFFFFF) (fs ! 2) {} (fs ! 3) no_kwargs"
  note parts = assms [unfolded buffer_round_def, simplified len9 fs, simplified, folded len_def f_def]
  have len: "0 \<le> len" using header_length_nonneg [OF fs] by (simp add: len_def)
  from parts have enough: "\<not> int (length ?d) < len + 9" by (auto simp: Let_def split: if_splits)
  with parts obtain g where g: "parse_body f (py_slice ?d 9 (9 + len)) = Inr g"
    by (auto simp: Let_def split: sum.splits)
  have up: "update_header_buffer (fb\<lparr>fb_data := drop (nat (9 + len)) ?d\<rparr>) g = (fb', Inr r)"
    using parts enough g by (auto simp: Let_def split: prod.splits sum.splits)
  have "take 9 (?d @ bs) = take 9 ?d" using len9 by simp
  moreover have "py_slice (?d @ bs) 9 (9 + len) = py_slice ?d 9 (9 + len)"
    using enough len by (intro py_slice_append) simp_all
  moreover have "drop (nat (9 + len)) (?d @ bs) = drop (nat (9 + len)) ?d @ bs"
    using enough len by (simp add: nat_le_iff)
  moreover have "fb_data fb' = drop (nat (9 + len)) ?d" using update_header_buffer_data [OF up] by simp
  ultimately show ?thesis
    using len9 fs enough g update_header_buffer_extend [OF up, of "drop (nat (9 + len)) ?d @ bs"]
    by (simp add: buffer_round_def fb_extend_def Let_def flip: len_def f_def)
qed

lemma buffer_round_Wait: "buffer_round fb = (fb', Wait) \<Longrightarrow> fb' = fb"
  by (auto simp: buffer_round_def Let_def split: if_splits sum.splits prod.splits)

lemma buffer_drain_extend:
  assumes "buffer_drain fb = (fb1, fs1, None)" "buffer_drain (fb_extend fb1 bs) = (fb2, fs2, e)"
  shows "buffer_drain (fb_extend fb bs) = (fb2, fs1 @ fs2, e)"
  using assms
proof (induction fb arbitrary: fb1 fs1 rule: buffer_drain.induct)
  case (1 fb)
  obtain fb' res where r: "buffer_round fb = (fb', res)" by fastforce
  show ?case
  proof (cases res)
    case Wait
    with r 1(2) have "fb1 = fb" "fs1 = []"
      using buffer_round_Wait [of fb fb'] by (auto simp: buffer_drain.simps [of fb])
    with 1(3) show ?thesis by simp
  next
    case (Raise err)
    with r 1(2) show ?thesis by (simp add: buffer_drain.simps [of fb])
  next
    case (Next x)
    obtain fs' where d: "buffer_drain fb' = (fb1, fs', None)" "fs1 = (case x of None \<Rightarrow> fs' | Some f \<Rightarrow> f # fs')"
      using 1(2) r Next by (auto simp: buffer_drain.simps [of fb] split: prod.splits)
    have "buffer_drain (fb_extend fb' bs) = (fb2, fs' @ fs2, e)"
      using 1(1) [OF r [symmetric] Next d(1) 1(3)] .
    with buffer_round_extend [of fb fb' x bs] r Next d(2) show ?thesis
      by (auto simp: buffer_drain.simps [of "fb_extend fb bs"] split: option.splits)
  qed
qed

end
