(* ===== verification/Frame_Roundtrip.thy ===== *)
theory Frame_Roundtrip
  imports Frame_Buffer
begin

unbundle bit_operations_syntax

text \<open>
  What \<open>Frame.serialize\<close> writes, \<open>FrameBuffer\<close> reads back. \<open>frame_view\<close> is the content of a
  frame, by type; \<open>wf_frame\<close> says which frames fit their wire format.
\<close>

section \<open>The content of a frame\<close>

datatype payload =
    AltSvc bytes bytes
  | Continuation bytes
  | Data bytes int
  | GoAway int int bytes
  | Headers bytes int "(int \<times> bool \<times> int) option"
  | Ping bytes
  | Priority int bool int
  | PushPromise int bytes int
  | Reset int
  | Settings "(int \<times> int) list"
  | WindowUpdate int
  | Extension

definition frame_view :: "frame \<Rightarrow> payload" where
  "frame_view f =
     (if ftype f = 0xA then AltSvc (origin f) (field_value f)
      else if ftype f = 0x09 then Continuation (the (fdata f))
      else if ftype f = 0x0 then Data (the (fdata f)) (pad_length f)
      else if ftype f = 0x07 then GoAway (last_stream_id f) (error_code f) (the (additional_data f))
      else if ftype f = 0x01 then
        Headers (the (fdata f)) (pad_length f)
          (if PRIORITY \<in> flags f then Some (depends_on f, exclusive f, stream_weight f) else None)
      else if ftype f = 0x06 then Ping (opaque_data f)
      else if ftype f = 0x02 then Priority (depends_on f) (exclusive f) (stream_weight f)
      else if ftype f = 0x05 then PushPromise (promised_stream_id f) (the (fdata f)) (pad_length f)
      else if ftype f = 0x03 then Reset (error_code f)
      else if ftype f = 0x04 then Settings (settings f)
      else if ftype f = 0x08 then WindowUpdate (window_increment f)
      else Extension)"

text \<open>The flags the constructor defines for a type.\<close>

definition type_flags :: "int \<Rightarrow> flag list" where
  "type_flags t = defined_flags (frame_dispatch (frame_defaults 0 t {}) no_kwargs)"

definition fits :: "nat \<Rightarrow> int \<Rightarrow> bool" where
  "fits bits v \<longleftrightarrow> 0 \<le> v \<and> v < 2 ^ bits"

definition wf_padding :: "frame \<Rightarrow> bool" where
  "wf_padding f \<longleftrightarrow> fdata f \<noteq> None \<and> (if PADDED \<in> flags f then fits 8 (pad_length f) else pad_length f = 0)"

definition wf_priority :: "frame \<Rightarrow> bool" where
  "wf_priority f \<longleftrightarrow> fits 31 (depends_on f) \<and> fits 8 (stream_weight f)"

definition wf_payload :: "frame \<Rightarrow> bool" where
  "wf_payload f \<longleftrightarrow>
     (if ftype f = 0xA then fits 16 (int (length (origin f)))
      else if ftype f = 0x09 then fdata f \<noteq> None
      else if ftype f = 0x0 then wf_padding f
      else if ftype f = 0x07 then
        fits 31 (last_stream_id f) \<and> fits 32 (error_code f) \<and> additional_data f \<noteq> None
      else if ftype f = 0x01 then wf_padding f \<and> (PRIORITY \<in> flags f \<longrightarrow> wf_priority f)
      else if ftype f = 0x06 then length (opaque_data f) = 8
      else if ftype f = 0x02 then wf_priority f
      else if ftype f = 0x05 then wf_padding f \<and> fits 32 (promised_stream_id f)
      else if ftype f = 0x03 then fits 32 (error_code f)
      else if ftype f = 0x04 then
        distinct (map fst (settings f)) \<and> list_all (\<lambda>s. fits 8 (fst s) \<and> fits 32 (snd s)) (settings f)
      else if ftype f = 0x08 then fits 31 (window_increment f)
      else True)"

definition wf_frame :: "frame \<Rightarrow> bool" where
  "wf_frame f \<longleftrightarrow>
     fits 31 (stream_id f) \<and> fits 8 (ftype f) \<and> fits 8 (flag_byte f) \<and>
     frame_type f = frame_types (ftype f) \<and>
     defined_flags f = type_flags (ftype f) \<and>
     flags f \<subseteq> fst ` set (defined_flags f) \<and> wf_payload f"

section \<open>Bits\<close>

lemma int_and_masks [simp]:
  "(x :: int) AND 0xFF = x mod 256" "x AND 0xFFFF = x mod 65536" "x AND 0x7FFFFFFF = x mod 2147483648"
  using take_bit_eq_mask [of 8 x] take_bit_eq_mask [of 16 x] take_bit_eq_mask [of 31 x]
  by (simp_all add: take_bit_eq_mod mask_eq_exp_minus_1)

lemma length_fields:
  "0 \<le> (n :: int) \<Longrightarrow> n < 2 ^ 24 \<Longrightarrow> push_bit 8 (drop_bit 8 n mod 65536) + n mod 256 = n"
  by (simp add: push_bit_eq_mult drop_bit_eq_div mod_pos_pos_trivial [of "n div 256"])

lemma type_flags_eq:
  "type_flags t =
     (if t = 0x09 then [(END_HEADERS, 0x04)]
      else if t = 0x0 then [(END_STREAM, 0x01), (PADDED, 0x08)]
      else if t = 0x01 then [(END_STREAM, 0x01), (END_HEADERS, 0x04), (PADDED, 0x08), (PRIORITY, 0x20)]
      else if t = 0x06 \<or> t = 0x04 then [(ACK, 0x01)]
      else if t = 0x05 then [(END_HEADERS, 0x04), (PADDED, 0x08)]
      else [])"
  by (simp add: type_flags_def frame_dispatch_def frame_defaults_def)

lemma flags_roundtrip_headers:
  "fl \<subseteq> {END_STREAM, END_HEADERS, PADDED, PRIORITY} \<Longrightarrow>
     add_flags (type_flags 1) (flags_value (type_flags 1) fl 0) {} = fl"
  by (cases "END_STREAM \<in> fl"; cases "END_HEADERS \<in> fl"; cases "PADDED \<in> fl"; cases "PRIORITY \<in> fl";
      simp add: type_flags_eq; blast)

lemma flags_roundtrip:
  assumes "fl \<subseteq> fst ` set (type_flags t)"
  shows "add_flags (type_flags t) (flags_value (type_flags t) fl 0) {} = fl"
proof (cases "t = 1")
  case True
  with assms have "fl \<subseteq> {END_STREAM, END_HEADERS, PADDED, PRIORITY}" by (simp add: type_flags_eq)
  then show ?thesis unfolding True by (rule flags_roundtrip_headers)
next
  case False
  with assms show ?thesis by (auto simp: type_flags_eq split: if_splits)
qed

lemma flags_value_bounds:
  "fits 8 v \<Longrightarrow> fits 8 (flags_value (type_flags t) fl v)"
  by (simp add: type_flags_eq fits_def OR_upper [where n = 8, simplified])

lemma frame_dispatch_flags: "defined_flags (frame_dispatch (frame_defaults s t fl) no_kwargs) = type_flags t"
  by (simp add: type_flags_def frame_dispatch_def frame_defaults_def)

section \<open>The frame the buffer starts from\<close>

definition wire_flags :: "frame \<Rightarrow> int" where
  "wire_flags f = flags_value (defined_flags f) (flags f) (if known_type (ftype f) then 0 else flag_byte f)"

definition blank :: "frame \<Rightarrow> frame" where
  "blank f = Frame_init (stream_id f) (ftype f) {} (wire_flags f) no_kwargs"

lemma type_flags_unknown: "\<not> known_type t \<Longrightarrow> type_flags t = []"
  by (auto simp: type_flags_eq known_type_def)

lemma Frame_init_flags: "flags (Frame_init sid t fl b no_kwargs) = add_flags (type_flags t) b fl"
proof -
  have "flags (frame_dispatch (frame_defaults sid t fl) no_kwargs) = fl"
    by (simp add: frame_dispatch_def frame_defaults_def)
  then show ?thesis by (simp add: Frame_init_def parse_flags_def frame_dispatch_flags)
qed

lemma blank_flags:
  assumes "wf_frame f"
  shows "flags (blank f) = flags f"
proof -
  from assms have d: "defined_flags f = type_flags (ftype f)" "flags f \<subseteq> fst ` set (defined_flags f)"
    unfolding wf_frame_def by blast+
  from d(2) have sub: "flags f \<subseteq> fst ` set (type_flags (ftype f))" by (simp only: d(1))
  show ?thesis
  proof (cases "known_type (ftype f)")
    case True
    with d(1) flags_roundtrip [OF sub] show ?thesis by (simp add: blank_def Frame_init_flags wire_flags_def)
  next
    case False
    with d(1) sub show ?thesis by (simp add: blank_def Frame_init_flags type_flags_unknown)
  qed
qed

lemma blank_simps:
  "stream_id (blank f) = stream_id f" "ftype (blank f) = ftype f"
  "wf_frame f \<Longrightarrow> frame_type (blank f) = frame_type f" "pad_length (blank f) = 0" "settings (blank f) = []"
  "ftype f = 7 \<Longrightarrow> additional_data (blank f) = Some []"
  by (simp_all add: blank_def Frame_init_def parse_flags_def frame_dispatch_def frame_defaults_def
      no_kwargs_def kw_get_def wf_frame_def)

section \<open>Bodies\<close>

lemma unpack1_pack:
  "pack_struct fmt [v] = Inr bs \<Longrightarrow> sum_list fmt = k \<Longrightarrow> unpack1 fmt (take k (bs @ rest)) = Inr v"
  using unpack_pack_prefix [of fmt "[v]" bs k rest] by (simp only: unpack1_def rbind.simps list.sel)

lemma unpack2_pack:
  "pack_struct fmt [v, w] = Inr bs \<Longrightarrow> sum_list fmt = k \<Longrightarrow> unpack2 fmt (take k (bs @ rest)) = Inr (v, w)"
  using unpack_pack_prefix [of fmt "[v, w]" bs k rest] by (simp add: unpack2_def del: take_append)

lemma pack_fits:
  "list_all2 (\<lambda>n v. fits (8 * n) v) fmt vs \<Longrightarrow> \<exists>bs. pack_struct fmt vs = Inr bs \<and> length bs = sum_list fmt"
proof -
  assume "list_all2 (\<lambda>n v. fits (8 * n) v) fmt vs"
  then have "list_all2 (\<lambda>n v. 0 \<le> v \<and> v < 256 ^ n) fmt vs"
    by (rule list_all2_mono) (simp add: fits_def power_mult)
  from pack_struct_ok [OF this] pack_struct_length show ?thesis by blast
qed

lemma padding_ok:
  assumes "wf_padding f" "flags g = flags f"
  obtains pd d where "padding_data f = Inr pd" "fdata f = Some d"
    "\<forall>rest. parse_padding g (pd @ rest) 0 = Inr (pad_length f, int (length pd))"
    "0 \<le> pad_length f"
proof (cases "PADDED \<in> flags f")
  case True
  with assms have p: "fits 8 (pad_length f)" by (simp add: wf_padding_def)
  obtain pd where pd: "pack_struct STRUCT_B [pad_length f] = Inr pd" "length pd = 1"
    using pack_fits [of STRUCT_B "[pad_length f]"] p by (auto simp: STRUCT_B_def)
  have "unpack1 STRUCT_B (take 1 (pd @ rest)) = Inr (pad_length f)" for rest
    using pd(1) by (rule unpack1_pack) (simp add: STRUCT_B_def)
  with True assms pd p show ?thesis
    by (intro that [of pd "the (fdata f)"])
      (auto simp: padding_data_def parse_padding_def zero_bytes_def wf_padding_def fits_def)
next
  case False
  with assms show ?thesis
    by (intro that [of "[]" "the (fdata f)"])
      (auto simp: padding_data_def parse_padding_def zero_bytes_def wf_padding_def)
qed

lemma slice_padded:
  assumes "0 \<le> p"
  shows "py_slice (pre @ d @ zero_bytes p) (int (length pre)) (int (length (pre @ d @ zero_bytes p)) - p) = d"
proof -
  have "int (length (pre @ d @ zero_bytes p)) - p = int (length pre) + int (length d)"
    using assms by (simp add: zero_bytes_def)
  then show ?thesis by (simp only: py_slice_mid)
qed

lemma priority_ok:
  assumes "wf_priority f"
  obtains bs p where "priority_data f = Inr bs" "length bs = 5"
    "\<forall>rest. unpack2 STRUCT_LB (take 5 (bs @ rest)) = Inr p"
    "\<forall>g. set_priority g p = g\<lparr>exclusive := exclusive f, depends_on := depends_on f, stream_weight := stream_weight f\<rparr>"
proof -
  let ?d = "depends_on f + (if exclusive f then 0x80000000 else 0)"
  have r: "0 \<le> depends_on f" "depends_on f < 2 ^ 31" using assms by (simp_all add: wf_priority_def fits_def)
  then have "fits 32 ?d" by (simp add: fits_def)
  then obtain bs where bs: "pack_struct STRUCT_LB [?d, stream_weight f] = Inr bs" "length bs = 5"
    using pack_fits [of STRUCT_LB "[?d, stream_weight f]"] assms by (auto simp: STRUCT_LB_def wf_priority_def)
  have un: "unpack2 STRUCT_LB (take 5 (bs @ rest)) = Inr (?d, stream_weight f)" for rest
    using bs(1) by (rule unpack2_pack) (simp add: STRUCT_LB_def)
  have st: "set_priority g (?d, stream_weight f) =
      g\<lparr>exclusive := exclusive f, depends_on := depends_on f, stream_weight := stream_weight f\<rparr>" for g
    using r by (simp add: set_priority_def drop_bit_eq_div)
  have "priority_data f = Inr bs" using bs(1) by (simp only: priority_data_def)
  from that [OF this bs(2)] un st show ?thesis by blast
qed

section \<open>Every type of frame\<close>

definition same_frame :: "frame \<Rightarrow> frame \<Rightarrow> bool" where
  "same_frame g f \<longleftrightarrow>
     stream_id g = stream_id f \<and> ftype g = ftype f \<and> frame_type g = frame_type f \<and>
     flags g = flags f \<and> frame_view g = frame_view f"

definition body_ok :: "frame \<Rightarrow> bool" where
  "body_ok f \<longleftrightarrow>
     (\<exists>d body g. serialize_body f = (d, Inr body) \<and> parse_body (blank f) body = Inr g \<and> same_frame g f)"

lemma body_okI:
  "serialize_body f = (d, Inr body) \<Longrightarrow> parse_body (blank f) body = Inr g \<Longrightarrow> same_frame g f \<Longrightarrow> body_ok f"
  by (auto simp: body_ok_def)

lemmas frame_facts = blank_flags blank_simps same_frame_def frame_view_def

lemma body_altsvc:
  assumes "wf_frame f" "ftype f = 0xA"
  shows "body_ok f"
proof -
  let ?n = "int (length (origin f))"
  have "fits 16 ?n" using assms by (simp add: wf_frame_def wf_payload_def)
  then obtain h where h: "pack_struct STRUCT_H [?n] = Inr h" "length h = 2"
    using pack_fits [of STRUCT_H "[?n]"] by (auto simp: STRUCT_H_def)
  let ?body = "h @ origin f @ field_value f"
  have "unpack1 STRUCT_H (take 2 ?body) = Inr ?n"
    using h(1) by (rule unpack1_pack) (simp add: STRUCT_H_def)
  moreover have "py_slice ?body 2 (2 + ?n) = origin f"
    using py_slice_mid [of h "origin f" "field_value f"] h(2) by simp
  moreover have "drop (nat (2 + ?n)) ?body = field_value f"
    using h(2) by (simp add: nat_add_distrib)
  ultimately have "parse_body (blank f) ?body =
      Inr ((blank f)\<lparr>origin := origin f, field_value := field_value f, body_len := int (length ?body)\<rparr>)"
    using assms by (simp add: parse_body_def parse_altsvc_def blank_simps Let_def del: take_append drop_append)
  then show ?thesis
    by (rule body_okI [rotated])
      (use assms h(1) in \<open>simp_all add: serialize_body_def frame_facts\<close>)
qed

lemma body_data:
  assumes "wf_frame f" "ftype f = 0x0"
  shows "body_ok f"
proof -
  have wf: "wf_padding f" using assms by (simp add: wf_frame_def wf_payload_def)
  obtain pd d where pd: "padding_data f = Inr pd" "fdata f = Some d"
    "\<forall>rest. parse_padding (blank f) (pd @ rest) 0 = Inr (pad_length f, int (length pd))" "0 \<le> pad_length f"
    by (rule padding_ok [OF wf blank_flags [OF assms(1)]]) 
  let ?body = "pd @ d @ zero_bytes (pad_length f)"
  have "parse_body (blank f) ?body =
      Inr ((blank f)\<lparr>pad_length := pad_length f, fdata := Some d, body_len := int (length ?body)\<rparr>)"
    using assms pd(3) slice_padded [OF pd(4), of pd d]
    by (simp add: parse_body_def parse_data_def blank_simps Let_def)
  then show ?thesis
    by (rule body_okI [rotated])
      (use assms pd in \<open>simp_all add: serialize_body_def frame_facts data_bytes_def\<close>)
qed

lemma body_goaway:
  assumes "wf_frame f" "ftype f = 0x07"
  shows "body_ok f"
proof -
  have wf: "fits 31 (last_stream_id f)" "fits 32 (error_code f)" "additional_data f \<noteq> None"
    using assms by (simp_all add: wf_frame_def wf_payload_def)
  then obtain a where a: "additional_data f = Some a" by blast
  have m: "last_stream_id f mod 2147483648 = last_stream_id f" using wf(1) by (simp add: fits_def)
  have "fits 32 (last_stream_id f)" using wf(1) by (simp add: fits_def)
  then obtain h where h: "pack_struct STRUCT_LL [last_stream_id f, error_code f] = Inr h" "length h = 8"
    using pack_fits [of STRUCT_LL "[last_stream_id f, error_code f]"] wf by (auto simp: STRUCT_LL_def)
  have "unpack2 STRUCT_LL (take 8 (h @ a)) = Inr (last_stream_id f, error_code f)"
    using h(1) by (rule unpack2_pack) (simp add: STRUCT_LL_def)
  then have "parse_body (blank f) (h @ a) =
      Inr ((blank f)\<lparr>last_stream_id := last_stream_id f, error_code := error_code f,
        body_len := int (length (h @ a)), additional_data := Some a\<rparr>)"
    using assms h(2) blank_simps(6) [OF assms(2)]
    by (auto simp: parse_body_def parse_goaway_def blank_simps Let_def)
  then show ?thesis
    by (rule body_okI [rotated])
      (use assms h(1) a m in \<open>simp_all add: serialize_body_def frame_facts data_bytes_def\<close>)
qed

lemma body_headers:
  assumes "wf_frame f" "ftype f = 0x01"
  shows "body_ok f"
proof -
  have wf: "wf_padding f" "PRIORITY \<in> flags f \<Longrightarrow> wf_priority f"
    using assms by (simp_all add: wf_frame_def wf_payload_def)
  obtain pd d where pd: "padding_data f = Inr pd" "fdata f = Some d"
    "\<forall>rest. parse_padding (blank f) (pd @ rest) 0 = Inr (pad_length f, int (length pd))" "0 \<le> pad_length f"
    by (rule padding_ok [OF wf(1) blank_flags [OF assms(1)]])
  let ?z = "zero_bytes (pad_length f)"
  let ?g = "(blank f)\<lparr>pad_length := pad_length f\<rparr>"
  obtain prio g where prio: "(if PRIORITY \<in> flags f then priority_data f else Inr []) = Inr prio"
    "\<And>rest. (if PRIORITY \<in> flags ?g
             then rbind (unpack2 STRUCT_LB (take 5 (prio @ rest))) (\<lambda>p. Inr (set_priority ?g p, 5))
             else Inr (?g, 0)) = Inr (g, int (length prio))"
    "g = (if PRIORITY \<in> flags f
          then ?g\<lparr>exclusive := exclusive f, depends_on := depends_on f, stream_weight := stream_weight f\<rparr>
          else ?g)"
  proof (cases "PRIORITY \<in> flags f")
    case True
    obtain bs p where p: "priority_data f = Inr bs" "length bs = 5"
      "\<forall>rest. unpack2 STRUCT_LB (take 5 (bs @ rest)) = Inr p"
      "\<forall>g. set_priority g p = g\<lparr>exclusive := exclusive f, depends_on := depends_on f, stream_weight := stream_weight f\<rparr>"
      by (rule priority_ok [OF wf(2) [OF True]])
    show ?thesis
      by (rule that [of bs]) (use True p blank_flags [OF assms(1)] in \<open>simp_all del: take_append\<close>)
  next
    case False
    show ?thesis by (rule that [of "[]" ?g]) (use False blank_flags [OF assms(1)] in simp_all)
  qed
  let ?body = "pd @ prio @ d @ ?z"
  have g: "pad_length g = pad_length f" by (simp add: prio(3))
  have dr: "drop (nat (int (length pd))) ?body = prio @ d @ ?z" by simp
  have "parse_headers_frame (blank f) ?body =
      Inr (g\<lparr>body_len := int (length (prio @ d @ ?z)), fdata := Some d\<rparr>)"
    unfolding parse_headers_frame_def Let_def
    by (simp only: blank_simps(4) spec [OF pd(3)] rbind.simps prod.case dr prio(2) g slice_padded [OF pd(4)])
  then have "parse_body (blank f) ?body = Inr (g\<lparr>body_len := int (length (prio @ d @ ?z)), fdata := Some d\<rparr>)"
    using assms by (simp add: parse_body_def blank_simps)
  then show ?thesis
    by (rule body_okI [rotated])
      (use assms pd prio(1) in \<open>simp_all add: serialize_body_def frame_facts data_bytes_def prio(3)\<close>)
qed

lemma body_priority:
  assumes "wf_frame f" "ftype f = 0x02"
  shows "body_ok f"
proof -
  have "wf_priority f" using assms by (simp add: wf_frame_def wf_payload_def)
  then obtain bs p where p: "priority_data f = Inr bs" "length bs = 5"
    "\<forall>rest. unpack2 STRUCT_LB (take 5 (bs @ rest)) = Inr p"
    "\<forall>g. set_priority g p = g\<lparr>exclusive := exclusive f, depends_on := depends_on f, stream_weight := stream_weight f\<rparr>"
    by (rule priority_ok)
  have "unpack2 STRUCT_LB (take 5 bs) = Inr p" using spec [OF p(3), of "[]"] by simp
  then have "parse_body (blank f) bs = Inr ((blank f)\<lparr>exclusive := exclusive f, depends_on := depends_on f,
      stream_weight := stream_weight f, body_len := 5\<rparr>)"
    using assms p(4) by (simp add: parse_body_def parse_priority_def blank_simps)
  then show ?thesis
    by (rule body_okI [rotated]) (use assms p(1) in \<open>simp_all add: serialize_body_def frame_facts\<close>)
qed

lemma body_push_promise:
  assumes "wf_frame f" "ftype f = 0x05"
  shows "body_ok f"
proof -
  have wf: "wf_padding f" "fits 32 (promised_stream_id f)"
    using assms by (simp_all add: wf_frame_def wf_payload_def)
  obtain pd d where pd: "padding_data f = Inr pd" "fdata f = Some d"
    "\<forall>rest. parse_padding (blank f) (pd @ rest) 0 = Inr (pad_length f, int (length pd))" "0 \<le> pad_length f"
    by (rule padding_ok [OF wf(1) blank_flags [OF assms(1)]])
  obtain h where h: "pack_struct STRUCT_L [promised_stream_id f] = Inr h" "length h = 4"
    using pack_fits [of STRUCT_L "[promised_stream_id f]"] wf(2) by (auto simp: STRUCT_L_def)
  let ?z = "zero_bytes (pad_length f)"
  let ?body = "pd @ h @ d @ ?z"
  have "py_slice ?body (int (length pd)) (int (length pd) + 4) = h"
    using py_slice_mid [of pd h "d @ ?z"] h(2) by simp
  moreover have "unpack1 STRUCT_L h = Inr (promised_stream_id f)"
    using unpack1_pack [OF h(1), of 4 "[]"] h(2) by (simp add: STRUCT_L_def)
  moreover have "py_slice ?body (int (length pd) + 4) (int (length ?body) - pad_length f) = d"
    using slice_padded [OF pd(4), of "pd @ h" d] h(2) by simp
  ultimately have "parse_body (blank f) ?body =
      Inr ((blank f)\<lparr>pad_length := pad_length f, promised_stream_id := promised_stream_id f,
        fdata := Some d, body_len := int (length ?body)\<rparr>)"
    using assms spec [OF pd(3), of "h @ d @ ?z"] by (simp add: parse_body_def parse_push_promise_def blank_simps Let_def)
  then show ?thesis
    by (rule body_okI [rotated])
      (use assms pd h(1) in \<open>simp_all add: serialize_body_def frame_facts data_bytes_def\<close>)
qed

lemma word_roundtrip:
  assumes "fits 32 v"
  obtains h where "pack_struct STRUCT_L [v] = Inr h" "unpack1 STRUCT_L h = Inr v"
proof -
  obtain h where h: "pack_struct STRUCT_L [v] = Inr h" "length h = 4"
    using pack_fits [of STRUCT_L "[v]"] assms by (auto simp: STRUCT_L_def)
  with unpack1_pack [OF h(1), of 4 "[]"] that show ?thesis by (simp add: STRUCT_L_def)
qed

lemma body_reset:
  assumes "wf_frame f" "ftype f = 0x03"
  shows "body_ok f"
proof -
  have "fits 32 (error_code f)" using assms by (simp add: wf_frame_def wf_payload_def)
  then obtain h where h: "pack_struct STRUCT_L [error_code f] = Inr h" "unpack1 STRUCT_L h = Inr (error_code f)"
    by (rule word_roundtrip)
  have "parse_body (blank f) h = Inr ((blank f)\<lparr>error_code := error_code f, body_len := 4\<rparr>)"
    using assms h(2) by (simp add: parse_body_def blank_simps)
  then show ?thesis
    by (rule body_okI [rotated]) (use assms h(1) in \<open>simp_all add: serialize_body_def frame_facts\<close>)
qed

lemma body_window_update:
  assumes "wf_frame f" "ftype f = 0x08"
  shows "body_ok f"
proof -
  let ?v = "window_increment f"
  have v: "fits 32 ?v" "?v mod 2147483648 = ?v" using assms by (simp_all add: wf_frame_def wf_payload_def fits_def)
  obtain h where h: "pack_struct STRUCT_L [?v] = Inr h" "unpack1 STRUCT_L h = Inr ?v"
    by (rule word_roundtrip [OF v(1)])
  have "parse_body (blank f) h = Inr ((blank f)\<lparr>window_increment := ?v, body_len := 4\<rparr>)"
    using assms h(2) by (simp add: parse_body_def blank_simps)
  then show ?thesis
    by (rule body_okI [rotated]) (use assms h(1) v(2) in \<open>simp_all add: serialize_body_def frame_facts\<close>)
qed

lemma body_plain:
  assumes "wf_frame f" "ftype f = 0x09 \<or> ftype f = 0x06 \<or> \<not> known_type (ftype f)"
  shows "body_ok f"
proof -
  consider "ftype f = 0x09" | "ftype f = 0x06" | "\<not> known_type (ftype f)" using assms(2) by blast
  then show ?thesis
  proof cases
    case 1
    with assms(1) obtain d where "fdata f = Some d" by (auto simp: wf_frame_def wf_payload_def)
    with 1 assms(1) show ?thesis
      by (intro body_okI [of f "Some d" d "(blank f)\<lparr>fdata := Some d, body_len := int (length d)\<rparr>"])
        (simp_all add: serialize_body_def parse_body_def data_bytes_def frame_facts)
  next
    case 2
    with assms(1) have "length (opaque_data f) = 8" by (simp add: wf_frame_def wf_payload_def)
    with 2 assms(1) show ?thesis
      by (intro body_okI [of f "fdata f" "opaque_data f" "(blank f)\<lparr>opaque_data := opaque_data f, body_len := 8\<rparr>"])
        (simp_all add: serialize_body_def parse_body_def zero_bytes_def frame_facts)
  next
    case 3
    then have "ftype f \<notin> {0, 1, 2, 3, 4, 5, 6, 7, 8, 9, 0xA}" by (auto simp: known_type_def)
    with assms(1) show ?thesis
      by (intro body_okI [of f "fdata f" "[]" "blank f"])
        (simp_all add: serialize_body_def parse_body_def frame_facts)
  qed
qed

lemma alist_update_fresh: "k \<notin> fst ` set d \<Longrightarrow> AList.update k v d = d @ [(k, v)]"
  by (induction d) auto

lemma parse_settings_step:
  assumes "unpack2 STRUCT_HL h = Inr (n, v)" "length h = 6"
  shows "parse_settings (h @ rest) d = parse_settings rest (AList.update n v d)"
  using assms by (cases h) simp_all

lemma settings_roundtrip:
  assumes "list_all (\<lambda>s. fits 8 (fst s) \<and> fits 32 (snd s)) ss" "distinct (map fst (d @ ss))"
  shows "\<exists>body. settings_body ss = Inr body \<and> parse_settings body d = Inr (d @ ss)"
  using assms
proof (induction ss arbitrary: d)
  case (Cons s ss)
  obtain n v where s: "s = (n, v)" by (cases s)
  from Cons.prems(1) s have r: "fits 8 n" "fits 32 v" by simp_all
  then have m: "n mod 256 = n" by (simp add: fits_def)
  from r have "fits 16 n" by (simp add: fits_def)
  then obtain h where h: "pack_struct STRUCT_HL [n, v] = Inr h" "length h = 6"
    using pack_fits [of STRUCT_HL "[n, v]"] r by (auto simp: STRUCT_HL_def)
  have u: "unpack2 STRUCT_HL h = Inr (n, v)"
    using unpack2_pack [OF h(1), of 6 "[]"] h(2) by (simp add: STRUCT_HL_def)
  have "AList.update n v d = d @ [s]" using Cons.prems(2) s by (subst alist_update_fresh) auto
  moreover obtain body where "settings_body ss = Inr body" "parse_settings body (d @ [s]) = Inr ((d @ [s]) @ ss)"
    using Cons.IH [of "d @ [s]"] Cons.prems by auto
  ultimately show ?case
    using h(1) m s parse_settings_step [OF u h(2), of body d] by simp
qed simp

lemma body_settings:
  assumes "wf_frame f" "ftype f = 0x04"
  shows "body_ok f"
proof -
  have "list_all (\<lambda>s. fits 8 (fst s) \<and> fits 32 (snd s)) (settings f)" "distinct (map fst ([] @ settings f))"
    using assms by (simp_all add: wf_frame_def wf_payload_def)
  from settings_roundtrip [OF this] obtain body
    where b: "settings_body (settings f) = Inr body" "parse_settings body [] = Inr (settings f)" by auto
  have "parse_body (blank f) body =
      Inr ((blank f)\<lparr>settings := settings f, body_len := 6 * int ((length body + 5) div 6)\<rparr>)"
    using assms b(2) by (simp add: parse_body_def blank_simps)
  then show ?thesis
    by (rule body_okI [rotated]) (use assms b(1) in \<open>simp_all add: serialize_body_def frame_facts\<close>)
qed

lemma body_roundtrip:
  assumes "wf_frame f"
  shows "body_ok f"
proof -
  have "ftype f = 0 \<or> ftype f = 1 \<or> ftype f = 2 \<or> ftype f = 3 \<or> ftype f = 8 \<or> ftype f = 4 \<or>
      ftype f = 5 \<or> ftype f = 7 \<or> ftype f = 0xA \<or> (ftype f = 9 \<or> ftype f = 6 \<or> \<not> known_type (ftype f))"
    unfolding known_type_def by presburger
  then show ?thesis
    using assms body_data body_headers body_priority body_reset body_window_update body_settings body_push_promise body_goaway
      body_altsvc body_plain by metis
qed

section \<open>Through the buffer\<close>

text \<open>A frame the buffer hands out at once: no header block is open and it does not open one.\<close>

definition deliverable :: "frame \<Rightarrow> bool" where
  "deliverable f \<longleftrightarrow>
     ((ftype f = 0x01 \<or> ftype f = 0x05) \<longrightarrow> END_HEADERS \<in> flags f) \<and>
     (case snd (serialize_body f) of Inl _ \<Rightarrow> False | Inr body \<Rightarrow> length body < 2 ^ 24)"

lemma frame_header_ok:
  assumes "0 \<le> n" "n < 2 ^ 24" "wf_frame f"
  obtains h where "frame_header n (ftype f) (wire_flags f) (stream_id f) = Inr h" "length h = 9"
    "unpack_struct STRUCT_HBBBL h =
       Inr [drop_bit 8 n mod 65536, n mod 256, ftype f, wire_flags f, stream_id f mod 2147483648]"
proof -
  have fl: "fits 8 (wire_flags f)"
    using assms(3) flags_value_bounds [of 0] flags_value_bounds [of "flag_byte f"]
    by (simp add: wire_flags_def wf_frame_def fits_def)
  let ?vs = "[drop_bit 8 n mod 65536, n mod 256, ftype f, wire_flags f, stream_id f mod 2147483648]"
  have "list_all2 (\<lambda>n v. fits (8 * n) v) STRUCT_HBBBL ?vs"
    using assms fl pos_mod_bound [of 2147483648 "stream_id f"]
    by (simp add: STRUCT_HBBBL_def fits_def wf_frame_def)
  from pack_fits [OF this] obtain h where h: "pack_struct STRUCT_HBBBL ?vs = Inr h" "length h = 9"
    by (auto simp: STRUCT_HBBBL_def)
  with unpack_pack_struct [OF h(1)] show ?thesis
    by (intro that) (simp_all add: frame_header_def)
qed

lemma serialize_buffer_round:
  assumes "wf_frame f" "deliverable f" "headers_buffer fb = []"
  obtains f' bs g where "serialize f = (f', Inr bs)"
    "buffer_round (fb\<lparr>fb_data := bs @ rest\<rparr>) = (fb\<lparr>fb_data := rest\<rparr>, Next (Some g))" "same_frame g f"
proof -
  obtain d body g where b: "serialize_body f = (d, Inr body)" "parse_body (blank f) body = Inr g" "same_frame g f"
    using body_roundtrip [OF assms(1)] by (auto simp: body_ok_def)
  let ?n = "int (length body)"
  have n: "0 \<le> ?n" "?n < 2 ^ 24" using assms(2) b(1) by (simp_all add: deliverable_def)
  obtain h where h: "frame_header ?n (ftype f) (wire_flags f) (stream_id f) = Inr h" "length h = 9"
    "unpack_struct STRUCT_HBBBL h =
       Inr [drop_bit 8 ?n mod 65536, ?n mod 256, ftype f, wire_flags f, stream_id f mod 2147483648]"
    by (rule frame_header_ok [OF n assms(1)])
  have len: "push_bit 8 (drop_bit 8 ?n mod 65536) + ?n mod 256 = ?n" using n by (rule length_fields)
  have sid: "stream_id f mod 2147483648 = stream_id f" using assms(1) by (simp add: wf_frame_def fits_def)
  have sl: "py_slice (h @ body @ rest) 9 (9 + ?n) = body" using py_slice_mid [of h body rest] h(2) by simp
  have tl: "drop (nat (9 + ?n)) (h @ body @ rest) = rest" using h(2) by (simp add: nat_add_distrib)
  have up: "update_header_buffer (fb\<lparr>fb_data := rest\<rparr>) g = (fb\<lparr>fb_data := rest\<rparr>, Inr (Some g))"
    using assms b(3) by (auto simp: update_header_buffer_def same_frame_def deliverable_def wf_frame_def
        frame_types_def split: if_splits)
  have "serialize f = (f\<lparr>fdata := d, body_len := ?n\<rparr>, Inr (h @ body))"
    using b(1) h(1) by (simp add: serialize_def Let_def wire_flags_def)
  moreover have "buffer_round (fb\<lparr>fb_data := (h @ body) @ rest\<rparr>) = (fb\<lparr>fb_data := rest\<rparr>, Next (Some g))"
    using h(2,3) len sid sl tl up b(2) by (simp add: buffer_round_def Let_def blank_def)
  ultimately show ?thesis using b(3) that by blast
qed

section \<open>A sequence of frames\<close>

lemma serialize_buffer_drain:
  assumes "list_all wf_frame fs" "list_all deliverable fs" "headers_buffer fb = []" "length rest < 9"
  shows "\<exists>bss gs. map (snd \<circ> serialize) fs = map Inr bss \<and>
     buffer_drain (fb\<lparr>fb_data := concat bss @ rest\<rparr>) = (fb\<lparr>fb_data := rest\<rparr>, gs, None) \<and>
     list_all2 same_frame gs fs"
  using assms
proof (induction fs)
  case Nil
  have "buffer_drain (fb\<lparr>fb_data := rest\<rparr>) = (fb\<lparr>fb_data := rest\<rparr>, [], None)"
    by (subst buffer_drain.simps) (simp add: buffer_round_def assms(4))
  then show ?case by (intro exI [of _ "[]"]) simp
next
  case (Cons f fs)
  have p: "list_all wf_frame fs" "list_all deliverable fs" using Cons.prems by simp_all
  from Cons.IH [OF p Cons.prems(3,4)] obtain bss gs where ih: "map (snd \<circ> serialize) fs = map Inr bss"
    "buffer_drain (fb\<lparr>fb_data := concat bss @ rest\<rparr>) = (fb\<lparr>fb_data := rest\<rparr>, gs, None)"
    "list_all2 same_frame gs fs" by (elim exE conjE)
  from Cons.prems have f: "wf_frame f" "deliverable f" by simp_all
  obtain f' bs g where s: "serialize f = (f', Inr bs)"
    "buffer_round (fb\<lparr>fb_data := bs @ concat bss @ rest\<rparr>) = (fb\<lparr>fb_data := concat bss @ rest\<rparr>, Next (Some g))"
    "same_frame g f"
    by (rule serialize_buffer_round [OF f Cons.prems(3)])
  have "buffer_drain (fb\<lparr>fb_data := concat (bs # bss) @ rest\<rparr>) = (fb\<lparr>fb_data := rest\<rparr>, g # gs, None)"
    by (subst buffer_drain.simps) (simp add: s(2) ih(2))
  moreover have "map (snd \<circ> serialize) (f # fs) = map Inr (bs # bss)" using s(1) ih(1) by simp
  moreover have "list_all2 same_frame (g # gs) (f # fs)" using s(3) ih(3) by simp
  ultimately show ?case by blast
qed

end
