(* ===== verification/Frame_Properties.thy ===== *)
theory Frame_Properties
  imports Frame_Roundtrip
begin

text \<open>
  The properties of the frame layer: frames survive the wire, framing does not depend on how
  the bytes are split over reads, DATA frames account for exactly their bytes in flow
  control, and what happens to header blocks split over CONTINUATION frames.
\<close>

section \<open>Frames on the wire\<close>


lemma example_frames:
  "list_all wf_frame [Frame_init 0 8 {} 0 (no_kwargs\<lparr>kw_window_increment := Some 65536\<rparr>),
     Frame_init 1 0 {END_STREAM} 0 (no_kwargs\<lparr>kw_data := Some [1, 2, 3]\<rparr>)]"
  "list_all deliverable [Frame_init 0 8 {} 0 (no_kwargs\<lparr>kw_window_increment := Some 65536\<rparr>),
     Frame_init 1 0 {END_STREAM} 0 (no_kwargs\<lparr>kw_data := Some [1, 2, 3]\<rparr>)]"
  by (simp_all add: wf_frame_def wf_payload_def wf_padding_def fits_def deliverable_def type_flags_def
      Frame_init_def parse_flags_def frame_dispatch_def frame_defaults_def no_kwargs_def kw_get_def
      frame_types_def serialize_body_def padding_data_def data_bytes_def zero_bytes_def pack_be_def STRUCT_L_def)


text \<open>Reading the bytes in two pieces gives the same frames and the same buffer as reading them
  at once: what is drained before the second piece arrives is a prefix of the whole result.\<close>

theorem drain_in_pieces:
  assumes "buffer_drain fb = (fb1, fs1, None)" "buffer_drain (fb_extend fb1 bs) = (fb2, fs2, e)"
  shows "buffer_drain (fb_extend fb bs) = (fb2, fs1 @ fs2, e)"
  using assms by (rule buffer_drain_extend)

lemma drain_short: "length (fb_data fb) < 9 \<Longrightarrow> buffer_drain fb = (fb, [], None)"
  by (subst buffer_drain.simps) (simp add: buffer_round_def)

theorem drain_in_pieces_witness:
  "buffer_drain (fb_extend (fb_extend FrameBuffer_init [0, 0]) [4]) =
     (fb_extend (fb_extend FrameBuffer_init [0, 0]) [4], [] @ [], None)"
  by (rule drain_in_pieces [where ?fb1.0 = "fb_extend FrameBuffer_init [0, 0]"])
    (simp_all add: drain_short fb_extend_def FrameBuffer_init_def)

text \<open>The flow-controlled length of a well-formed DATA frame is the length of the body it
  puts on the wire, padding and pad length included.\<close>

theorem flow_controlled_length_wire:
  assumes "wf_frame f" "ftype f = 0x0" "serialize f = (f', Inr bs)"
  shows "flow_controlled_length f = Inr (int (length bs) - 9) \<and> body_len f' = int (length bs) - 9"
proof -
  have wf: "wf_padding f" using assms by (simp add: wf_frame_def wf_payload_def)
  obtain pd d where pd: "padding_data f = Inr pd" "fdata f = Some d" "0 \<le> pad_length f"
    by (rule padding_ok [OF wf refl])
  have lp: "length pd = (if PADDED \<in> flags f then 1 else 0)"
  proof (cases "PADDED \<in> flags f")
    case True
    with pd(1) have "pack_struct STRUCT_B [pad_length f] = Inr pd" by (simp add: padding_data_def)
    from pack_struct_length [OF this] True show ?thesis by (simp add: STRUCT_B_def)
  qed (use pd(1) in \<open>simp add: padding_data_def\<close>)
  have np: "PADDED \<notin> flags f \<Longrightarrow> pad_length f = 0" using wf by (simp add: wf_padding_def)
  let ?body = "pd @ d @ zero_bytes (pad_length f)"
  have "snd (serialize_body f) = Inr ?body" "fst (serialize_body f) = fdata f"
    using assms(2) pd by (simp_all add: serialize_body_def data_bytes_def)
  then obtain h where h: "bs = h @ ?body" "frame_header (int (length ?body)) (ftype f) (wire_flags f) (stream_id f) = Inr h"
    "body_len f' = int (length ?body)"
    using assms(3) by (cases "serialize_body f")
      (auto simp: serialize_def Let_def wire_flags_def map_sum_def split: sum.splits)
  have "length h = 9"
    using pack_struct_length [OF h(2) [unfolded frame_header_def]] by (simp add: STRUCT_HBBBL_def)
  with h pd lp np show ?thesis
    by (simp add: flow_controlled_length_def zero_bytes_def)
qed

lemma example_data_frame:
  "wf_frame (Frame_init 1 0 {PADDED} 0 (no_kwargs\<lparr>kw_data := Some [1, 2, 3], kw_pad_length := Some 2\<rparr>))"
  by (simp add: wf_frame_def wf_payload_def wf_padding_def fits_def type_flags_def
      Frame_init_def parse_flags_def frame_dispatch_def frame_defaults_def no_kwargs_def kw_get_def
      frame_types_def)

lemma example_data_wire:
  "snd (serialize (Frame_init 1 0 {PADDED} 0 (no_kwargs\<lparr>kw_data := Some [1, 2, 3], kw_pad_length := Some 2\<rparr>))) =
     Inr [0, 0, 6, 0, 8, 0, 0, 0, 1, 2, 1, 2, 3, 0, 0]"
  by code_simp

theorem flow_controlled_length_wire_witness:
  "flow_controlled_length (Frame_init 1 0 {PADDED} 0 (no_kwargs\<lparr>kw_data := Some [1, 2, 3], kw_pad_length := Some 2\<rparr>))
     = Inr 6"
proof -
  obtain f' where "serialize (Frame_init 1 0 {PADDED} 0 (no_kwargs\<lparr>kw_data := Some [1, 2, 3], kw_pad_length := Some 2\<rparr>)) =
     (f', Inr [0, 0, 6, 0, 8, 0, 0, 0, 1, 2, 1, 2, 3, 0, 0])" using example_data_wire by (metis prod.collapse)
  from flow_controlled_length_wire [OF example_data_frame _ this] show ?thesis
    by (simp add: Frame_init_def parse_flags_def frame_dispatch_def frame_defaults_def)
qed

section \<open>Header blocks over several frames\<close>

lemma header_buffer_open:
  assumes "headers_buffer fb \<noteq> []" "update_header_buffer fb f = (fb', r)"
  shows "headers_buffer fb' \<noteq> [] \<and> (r = Inr None \<or> (\<exists>err. r = Inl err))"
  using assms by (auto simp: update_header_buffer_def split: list.splits if_splits)

lemma buffer_round_open:
  assumes "headers_buffer fb \<noteq> []" "buffer_round fb = (fb', r)"
  shows "headers_buffer fb' \<noteq> [] \<and> (\<forall>f. r \<noteq> Next (Some f))"
  using assms header_buffer_open [of "fb\<lparr>fb_data := d\<rparr>" for d]
  by (auto simp: buffer_round_def Let_def split: if_splits sum.splits prod.splits)

text \<open>Once a HEADERS or PUSH_PROMISE frame without END_HEADERS has been received, the buffer
  never yields a frame again, and the header block stays open for ever.\<close>

theorem open_header_block_stuck:
  assumes "headers_buffer fb \<noteq> []" "buffer_drain fb = (fb', frames, e)"
  shows "frames = [] \<and> headers_buffer fb' \<noteq> []"
  using assms
proof (induction fb arbitrary: fb' frames e rule: buffer_drain.induct)
  case (1 fb)
  obtain fb1 r where r: "buffer_round fb = (fb1, r)" by fastforce
  note o = buffer_round_open [OF 1(2) r]
  show ?case
  proof (cases r)
    case (Next x)
    with o have x: "x = None" by (cases x) auto
    obtain fb2 fs2 e2 where d: "buffer_drain fb1 = (fb2, fs2, e2)" by (cases "buffer_drain fb1") auto
    with 1(3) r Next x have "fb' = fb2" "frames = fs2" by (auto simp: buffer_drain.simps [of fb])
    with 1(1) [OF r [symmetric] Next _ d] o show ?thesis by simp
  qed (use 1(3) r o in \<open>auto simp: buffer_drain.simps [of fb]\<close>)
qed

theorem open_header_block_stuck_witness:
  "let fb = FrameBuffer_init\<lparr>headers_buffer := [Frame_init 1 1 {} 0 no_kwargs]\<rparr>
   in fst (snd (buffer_drain fb)) = [] \<and> headers_buffer (fst (buffer_drain fb)) \<noteq> []"
  using open_header_block_stuck [of "FrameBuffer_init\<lparr>headers_buffer := [Frame_init 1 1 {} 0 no_kwargs]\<rparr>"
      "fst (buffer_drain fb)" "fst (snd (buffer_drain fb))" "snd (snd (buffer_drain fb))" for fb]
  by (simp add: Let_def)

end
