(* ===== verification/Window_Manager.thy ===== *)
theory Window_Manager
  imports Py_Prelude
begin

text \<open>
  \<open>WindowManager\<close> of \<open>http2/windows/window_manager.py\<close>: the size of a flow control window, how
  much of it the peer has used and how many received bytes the application has processed
  without giving them back. The locale at the end states what a client that processes what
  it receives may rely on.
\<close>

definition LARGEST_FLOW_CONTROL_WINDOW :: int where
  "LARGEST_FLOW_CONTROL_WINDOW = 2 ^ 31 - 1"

record window_manager =
  max_window_size :: int
  current_window_size :: int
  bytes_processed :: int

definition WindowManager_init :: "int \<Rightarrow> window_manager" where
  "WindowManager_init sz =
     \<lparr>max_window_size = sz, current_window_size = sz, bytes_processed = 0\<rparr>"

definition window_consumed :: "window_manager \<Rightarrow> int \<Rightarrow> window_manager" where
  "window_consumed w sz = w\<lparr>current_window_size := current_window_size w - sz\<rparr>"

definition window_opened :: "window_manager \<Rightarrow> int \<Rightarrow> window_manager" where
  "window_opened w sz =
     (let cur = current_window_size w + sz
      in w\<lparr>current_window_size := cur,
           max_window_size := (if cur > max_window_size w then cur else max_window_size w)\<rparr>)"

text \<open>The value is the increment to announce, None when nothing has been processed.\<close>

definition process_bytes :: "window_manager \<Rightarrow> int option \<Rightarrow> window_manager \<times> int option" where
  "process_bytes w sz =
     (let processed = bytes_processed w + (case sz of None \<Rightarrow> 0 | Some n \<Rightarrow> n);
          w = w\<lparr>bytes_processed := processed\<rparr>
      in if processed = 0 then (w, None)
         else
           (let max_increment = max_window_size w - current_window_size w;
                min_threshold = (current_window_size w = 0 \<and> processed > min 1024 (max_window_size w div 4));
                max_threshold = (processed \<ge> max_window_size w div 2)
            in if min_threshold \<or> max_threshold
               then (let increment = min processed max_increment
                     in (w\<lparr>bytes_processed := 0, current_window_size := current_window_size w + increment\<rparr>,
                         Some increment))
               else (w, Some 0)))"

section \<open>Invariant\<close>

text \<open>The window never exceeds its maximum, and no more bytes are waiting than were used up.\<close>

definition window_inv :: "window_manager \<Rightarrow> bool" where
  "window_inv w \<longleftrightarrow>
     0 \<le> bytes_processed w \<and> bytes_processed w \<le> max_window_size w - current_window_size w"

lemma window_inv_init [simp]: "window_inv (WindowManager_init n)"
  by (simp add: window_inv_def WindowManager_init_def)

lemma window_inv_consumed: "window_inv w \<Longrightarrow> 0 \<le> n \<Longrightarrow> window_inv (window_consumed w n)"
  by (simp add: window_inv_def window_consumed_def)

lemma window_inv_process:
  assumes "window_inv w" "0 \<le> n" "bytes_processed w + n \<le> max_window_size w - current_window_size w"
  shows "window_inv (fst (process_bytes w (Some n)))"
  using assms by (auto simp: window_inv_def process_bytes_def Let_def)

text \<open>
  What a client sees that gives back every byte it receives: the window after a byte count
  has been received and processed. \<open>balanced\<close> holds between calls.
\<close>

definition balanced :: "window_manager \<Rightarrow> bool" where
  "balanced w \<longleftrightarrow> 0 \<le> bytes_processed w \<and> current_window_size w + bytes_processed w = max_window_size w \<and>
     (bytes_processed w = 0 \<or> bytes_processed w < max_window_size w div 2)"

definition receive_and_process :: "window_manager \<Rightarrow> int \<Rightarrow> window_manager \<times> int option" where
  "receive_and_process w n = process_bytes (window_consumed w n) (Some n)"

lemma receive_and_process_balanced:
  assumes "balanced w" "0 \<le> n"
  shows "balanced (fst (receive_and_process w n))"
    "max_window_size (fst (receive_and_process w n)) = max_window_size w"
  using assms
  by (auto simp: balanced_def receive_and_process_def process_bytes_def window_consumed_def Let_def min_def)

lemma balanced_half_open:
  "balanced w \<Longrightarrow> 0 \<le> max_window_size w \<Longrightarrow> max_window_size w \<le> 2 * current_window_size w"
  by (auto simp: balanced_def)

section \<open>The contract of a window\<close>

text \<open>
  A receive window, seen by a client that hands back what it receives: the room left, the
  bytes not yet announced, and one operation. The client's guarantee is that however the
  peer splits what it sends, at least half of the window is open again after each piece.
\<close>

locale receive_window =
  fixes good :: "'w \<Rightarrow> bool"
    and room :: "'w \<Rightarrow> int"
    and limit :: "'w \<Rightarrow> int"
    and pending :: "'w \<Rightarrow> int"
    and receive :: "'w \<Rightarrow> int \<Rightarrow> 'w"
  assumes good_receive: "good w \<Longrightarrow> 0 \<le> n \<Longrightarrow> good (receive w n)"
    and limit_receive: "good w \<Longrightarrow> 0 \<le> n \<Longrightarrow> limit (receive w n) = limit w"
    and conserved: "good w \<Longrightarrow> room w + pending w = limit w"
    and half_open: "good w \<Longrightarrow> 0 \<le> limit w \<Longrightarrow> limit w \<le> 2 * room w"
begin

lemma good_run: "good w \<Longrightarrow> \<forall>n \<in> set ns. 0 \<le> n \<Longrightarrow> good (foldl receive w ns) \<and> limit (foldl receive w ns) = limit w"
  by (induction ns arbitrary: w) (auto simp: good_receive limit_receive)

lemma half_open_run:
  assumes "good w" "0 \<le> limit w" "\<forall>n \<in> set ns. 0 \<le> n"
  shows "limit w \<le> 2 * room (foldl receive w ns)"
  using good_run [OF assms(1,3)] half_open [of "foldl receive w ns"] assms(2) by simp

lemma conserved_run:
  assumes "good w" "\<forall>n \<in> set ns. 0 \<le> n"
  shows "room (foldl receive w ns) + pending (foldl receive w ns) = limit w"
  using good_run [OF assms] conserved by simp

end

interpretation wm: receive_window balanced current_window_size max_window_size bytes_processed
  "\<lambda>w n. fst (receive_and_process w n)"
  by unfold_locales
    (simp_all add: receive_and_process_balanced balanced_half_open, simp add: balanced_def)

section \<open>Properties\<close>

text \<open>C39: when every received byte is also processed, the connection window never starves: after any
  sequence of received lengths at least half of the maximum window is open, and open room
  plus unannounced bytes is always the maximum.\<close>

theorem window_never_starves:
  assumes "0 \<le> sz" "\<forall>n \<in> set ns. 0 \<le> n"
  defines "w \<equiv> foldl (\<lambda>w n. fst (receive_and_process w n)) (WindowManager_init sz) ns"
  shows "sz \<le> 2 * current_window_size w \<and> current_window_size w + bytes_processed w = sz"
proof -
  have b: "balanced (WindowManager_init sz)" "max_window_size (WindowManager_init sz) = sz"
    by (simp_all add: balanced_def WindowManager_init_def)
  show ?thesis
    using wm.half_open_run [OF b(1) _ assms(2)] wm.conserved_run [OF b(1) assms(2)] assms(1) b(2)
    by (simp add: w_def)
qed

theorem window_never_starves_witness:
  "65535 \<le> 2 * current_window_size (foldl (\<lambda>w n. fst (receive_and_process w n)) (WindowManager_init 65535) [16384, 16384, 7])"
  using window_never_starves [of 65535 "[16384, 16384, 7]"] by simp

text \<open>Processing bytes keeps the window within its maximum, announces exactly what it adds to the
  window, never more than was processed, and forgets the processed bytes exactly when it
  announces them.\<close>

theorem process_bytes_sound:
  assumes "window_inv w" "0 \<le> n" "bytes_processed w + n \<le> max_window_size w - current_window_size w"
    "process_bytes w (Some n) = (w', r)"
  shows "window_inv w' \<and> current_window_size w' \<le> max_window_size w' \<and> max_window_size w' = max_window_size w \<and>
    (case r of
       None \<Rightarrow> bytes_processed w + n = 0 \<and> w' = w
     | Some inc \<Rightarrow> 0 \<le> inc \<and> current_window_size w' = current_window_size w + inc \<and>
         inc + bytes_processed w' = bytes_processed w + n)"
  using assms by (auto simp: window_inv_def process_bytes_def Let_def split: if_splits)

theorem process_bytes_sound_witness:
  "case process_bytes (window_consumed (WindowManager_init 100) 60) (Some 60) of
     (w', r) \<Rightarrow> r = Some 60 \<and> window_inv w'"
proof -
  have "process_bytes (window_consumed (WindowManager_init 100) 60) (Some 60) =
      (\<lparr>max_window_size = 100, current_window_size = 100, bytes_processed = 0\<rparr>, Some 60)" by code_simp
  with process_bytes_sound [of "window_consumed (WindowManager_init 100) 60" 60] show ?thesis
    by (simp add: window_inv_def window_consumed_def WindowManager_init_def)
qed

end
