(* ===== verification/Http2_Settings.thy ===== *)
theory Http2_Settings
  imports Py_Prelude "HOL-Library.AList"
begin

text \<open>
  \<open>Settings\<close> of \<open>http2/streams/stream_settings.py\<close>. The backing dictionary maps a setting to the
  deque of its values: the head is the current value (None for a setting that was only
  proposed), the tail the values waiting for an acknowledgement. Setting codes are an
  \<open>IntEnum\<close>, so a code and its integer are the same key.
\<close>

definition HEADER_TABLE_SIZE :: int where "HEADER_TABLE_SIZE = 0x01"
definition ENABLE_PUSH :: int where "ENABLE_PUSH = 0x02"
definition MAX_CONCURRENT_STREAMS :: int where "MAX_CONCURRENT_STREAMS = 0x03"
definition INITIAL_WINDOW_SIZE :: int where "INITIAL_WINDOW_SIZE = 0x04"
definition MAX_FRAME_SIZE :: int where "MAX_FRAME_SIZE = 0x05"
definition MAX_HEADER_LIST_SIZE :: int where "MAX_HEADER_LIST_SIZE = 0x06"
definition ENABLE_CONNECT_PROTOCOL :: int where "ENABLE_CONNECT_PROTOCOL = 0x08"

lemmas setting_codes = HEADER_TABLE_SIZE_def ENABLE_PUSH_def MAX_CONCURRENT_STREAMS_def
  INITIAL_WINDOW_SIZE_def MAX_FRAME_SIZE_def MAX_HEADER_LIST_SIZE_def ENABLE_CONNECT_PROTOCOL_def

definition PROTOCOL_ERROR :: int where "PROTOCOL_ERROR = 0x1"
definition FLOW_CONTROL_ERROR :: int where "FLOW_CONTROL_ERROR = 0x3"

type_synonym setting_values = "int option list"
type_synonym settings_store = "(int \<times> setting_values) list"

definition validate_setting :: "int \<Rightarrow> int \<Rightarrow> int" where
  "validate_setting setting val =
     (if setting = ENABLE_PUSH then (if val \<notin> {0, 1} then PROTOCOL_ERROR else 0)
      else if setting = INITIAL_WINDOW_SIZE then
        (if \<not> (0 \<le> val \<and> val \<le> 2147483647) then FLOW_CONTROL_ERROR else 0)
      else if setting = MAX_FRAME_SIZE then
        (if \<not> (16384 \<le> val \<and> val \<le> 16777215) then PROTOCOL_ERROR else 0)
      else if setting = MAX_HEADER_LIST_SIZE then (if val < 0 then PROTOCOL_ERROR else 0)
      else if setting = ENABLE_CONNECT_PROTOCOL then (if val \<notin> {0, 1} then PROTOCOL_ERROR else 0)
      else 0)"

definition default_settings :: "bool \<Rightarrow> settings_store" where
  "default_settings client =
     [(HEADER_TABLE_SIZE, [Some 4096]),
      (ENABLE_PUSH, [Some (if client then 1 else 0)]),
      (INITIAL_WINDOW_SIZE, [Some 65535]),
      (MAX_FRAME_SIZE, [Some 16384]),
      (ENABLE_CONNECT_PROTOCOL, [Some 0])]"

text \<open>
  An invalid value is meant to raise an exception with an error code; \<open>Exception\<close> takes no
  keyword arguments, so what is raised is a \<open>TypeError\<close>.
\<close>

fun initial_values :: "(int \<times> int) list \<Rightarrow> settings_store \<Rightarrow> settings_store res" where
  "initial_values [] s = Inr s"
| "initial_values ((key, val) # rest) s =
     (if validate_setting key val \<noteq> 0 then Inl TypeError
      else initial_values rest (AList.update key [Some val] s))"

definition Settings_init :: "bool \<Rightarrow> (int \<times> int) list \<Rightarrow> settings_store res" where
  "Settings_init client initial = initial_values initial (default_settings client)"

definition settings_get :: "settings_store \<Rightarrow> int \<Rightarrow> int res" where
  "settings_get s key =
     (case map_of s key of
        None \<Rightarrow> Inl KeyError
      | Some [] \<Rightarrow> Inl IndexError
      | Some (None # _) \<Rightarrow> Inl KeyError
      | Some (Some v # _) \<Rightarrow> Inr v)"

definition settings_set :: "settings_store \<Rightarrow> int \<Rightarrow> int \<Rightarrow> settings_store res" where
  "settings_set s key val =
     (if validate_setting key val \<noteq> 0 then Inl TypeError
      else Inr (case map_of s key of
                  None \<Rightarrow> AList.update key [None, Some val] s
                | Some items \<Rightarrow> AList.update key (items @ [Some val]) s))"

definition settings_del :: "settings_store \<Rightarrow> int \<Rightarrow> settings_store res" where
  "settings_del s key = (if map_of s key = None then Inl KeyError else Inr (AList.delete key s))"

text \<open>\<open>MutableMapping.update\<close>: the settings before an invalid one have been stored.\<close>

fun settings_update :: "settings_store \<Rightarrow> (int \<times> int) list \<Rightarrow> settings_store \<times> py_error option" where
  "settings_update s [] = (s, None)"
| "settings_update s ((key, val) # rest) =
     (case settings_set s key val of
        Inl err \<Rightarrow> (s, Some err)
      | Inr s \<Rightarrow> settings_update s rest)"

record changed_setting =
  setting :: int
  original_value :: "int option"
  new_value :: "int option"

fun settings_acknowledge :: "settings_store \<Rightarrow> settings_store \<times> (int \<times> changed_setting) list" where
  "settings_acknowledge [] = ([], [])"
| "settings_acknowledge ((k, v) # rest) =
     (case settings_acknowledge rest of
        (rest, changes) \<Rightarrow>
          (case v of
             old # new # vs \<Rightarrow>
               ((k, new # vs) # rest, (k, \<lparr>setting = k, original_value = old, new_value = new\<rparr>) # changes)
           | _ \<Rightarrow> ((k, v) # rest, changes)))"

section \<open>Invariant\<close>

text \<open>Distinct keys, and every stored value valid for its setting; only the head may be None.\<close>

definition values_ok :: "int \<Rightarrow> setting_values \<Rightarrow> bool" where
  "values_ok k vs \<longleftrightarrow> vs \<noteq> [] \<and> (\<forall>v \<in> set (tl vs). v \<noteq> None) \<and>
     (\<forall>v. Some v \<in> set vs \<longrightarrow> validate_setting k v = 0)"

definition settings_ok :: "settings_store \<Rightarrow> bool" where
  "settings_ok s \<longleftrightarrow> distinct (map fst s) \<and> (\<forall>k vs. map_of s k = Some vs \<longrightarrow> values_ok k vs)"

definition settled :: "settings_store \<Rightarrow> bool" where
  "settled s \<longleftrightarrow> (\<forall>k vs. map_of s k = Some vs \<longrightarrow> length vs = 1)"

lemma settings_ok_default: "settings_ok (default_settings client)"
  by (auto simp: settings_ok_def default_settings_def values_ok_def validate_setting_def setting_codes
      split: if_splits)

lemma settings_ok_update:
  "settings_ok s \<Longrightarrow> values_ok k vs \<Longrightarrow> settings_ok (AList.update k vs s)"
  by (auto simp: settings_ok_def distinct_update update_conv')

lemma settings_ok_initial: "settings_ok s \<Longrightarrow> initial_values vals s = Inr s' \<Longrightarrow> settings_ok s'"
proof (induction vals s rule: initial_values.induct)
  case (2 key val rest s)
  have "validate_setting key val = 0 \<Longrightarrow> settings_ok (AList.update key [Some val] s)"
    using 2(2) by (rule settings_ok_update) (simp add: values_ok_def)
  with 2 show ?case by (auto split: if_splits)
qed simp

lemma settled_initial: "settled s \<Longrightarrow> initial_values vals s = Inr s' \<Longrightarrow> settled s'"
proof (induction vals s rule: initial_values.induct)
  case (2 key val rest s)
  moreover have "settled (AList.update key [Some val] s)"
    using 2(2) by (auto simp: settled_def update_conv')
  ultimately show ?case by (auto split: if_splits)
qed simp

section \<open>Storing a list of settings\<close>

text \<open>The values of a key after a value has been appended to them.\<close>

definition proposed :: "settings_store \<Rightarrow> int \<Rightarrow> int \<Rightarrow> setting_values" where
  "proposed s k v = (case map_of s k of None \<Rightarrow> [None] | Some vs \<Rightarrow> vs) @ [Some v]"

lemma proposed_ok: "settings_ok s \<Longrightarrow> validate_setting k v = 0 \<Longrightarrow> values_ok k (proposed s k v)"
proof (cases "map_of s k")
  case (Some vs)
  assume "settings_ok s" "validate_setting k v = 0"
  with Some show ?thesis by (cases vs) (auto simp: settings_ok_def proposed_def values_ok_def)
qed (simp add: proposed_def values_ok_def)

lemma settings_set_ok:
  "validate_setting k v = 0 \<Longrightarrow> settings_set s k v = Inr (AList.update k (proposed s k v) s)"
  by (auto simp: settings_set_def proposed_def split: option.splits)

lemma settings_update_ok:
  assumes "settings_ok s" "\<forall>(k, v) \<in> set new. validate_setting k v = 0" "distinct (map fst new)"
  shows "\<exists>s'. settings_update s new = (s', None) \<and> settings_ok s' \<and>
     (\<forall>k. map_of s' k = (case map_of new k of None \<Rightarrow> map_of s k | Some v \<Rightarrow> Some (proposed s k v)))"
  using assms
proof (induction new arbitrary: s)
  case (Cons x new)
  obtain k v where x: "x = (k, v)" by (cases x)
  let ?s = "AList.update k (proposed s k v) s"
  have v: "validate_setting k v = 0" using Cons.prems(2) x by simp
  have ok: "settings_ok ?s" using Cons.prems(1) proposed_ok v by (simp add: settings_ok_update)
  obtain s' where s': "settings_update ?s new = (s', None)" "settings_ok s'"
    "\<forall>k. map_of s' k = (case map_of new k of None \<Rightarrow> map_of ?s k | Some v \<Rightarrow> Some (proposed ?s k v))"
    using Cons.IH [OF ok] Cons.prems x by auto
  have "map_of new k = None" using Cons.prems(3) x by (simp add: map_of_eq_None_iff)
  moreover have "j \<noteq> k \<Longrightarrow> proposed ?s j w = proposed s j w" for j w
    by (simp add: proposed_def update_conv')
  ultimately have "map_of s' j = (case map_of (x # new) j of None \<Rightarrow> map_of s j | Some v \<Rightarrow> Some (proposed s j v))" for j
    using s'(3) x by (cases "j = k") (auto simp: update_conv' split: option.splits)
  with s'(1,2) x v show ?case by (simp add: settings_set_ok)
qed auto

section \<open>Acknowledging\<close>

lemma acknowledge_fst: "map fst (fst (settings_acknowledge s)) = map fst s"
  by (induction s rule: settings_acknowledge.induct) (auto split: prod.splits list.splits)

lemma acknowledge_values:
  "map_of (fst (settings_acknowledge s)) k =
     (case map_of s k of None \<Rightarrow> None | Some vs \<Rightarrow> Some (if 1 < length vs then tl vs else vs))"
  by (induction s rule: settings_acknowledge.induct) (auto split: prod.splits list.splits)

lemma acknowledge_changes_keys: "fst ` set (snd (settings_acknowledge s)) \<subseteq> fst ` set s"
proof (induction s rule: settings_acknowledge.induct)
  case (2 k v rest)
  obtain rest' ch where "settings_acknowledge rest = (rest', ch)" by fastforce
  with 2 show ?case by (simp split: list.split) blast
qed simp

lemma acknowledge_changes:
  assumes "distinct (map fst s)"
  shows "map_of (snd (settings_acknowledge s)) k =
     (case map_of s k of
        Some (old # new # _) \<Rightarrow> Some \<lparr>setting = k, original_value = old, new_value = new\<rparr>
      | _ \<Rightarrow> None)"
  using assms
proof (induction s rule: settings_acknowledge.induct)
  case (2 k' v rest)
  obtain rest' ch where a: "settings_acknowledge rest = (rest', ch)" by fastforce
  have "k' \<notin> fst ` set ch" using acknowledge_changes_keys [of rest] a 2(2) by auto
  then have "map_of ch k' = None" by (simp add: map_of_eq_None_iff)
  with 2 a show ?case by (auto split: list.splits)
qed simp

lemma values_ok_tl: "values_ok k vs \<Longrightarrow> values_ok k (if 1 < length vs then tl vs else vs)"
  by (cases vs; cases "tl vs") (auto simp: values_ok_def)

lemma acknowledge_ok:
  assumes "settings_ok s"
  shows "settings_ok (fst (settings_acknowledge s))"
  unfolding settings_ok_def
proof (intro conjI allI impI)
  show "distinct (map fst (fst (settings_acknowledge s)))"
    using assms by (simp add: settings_ok_def acknowledge_fst)
  fix k vs assume "map_of (fst (settings_acknowledge s)) k = Some vs"
  then obtain vs' where "map_of s k = Some vs'" "vs = (if 1 < length vs' then tl vs' else vs')"
    unfolding acknowledge_values by (cases "map_of s k") simp_all
  with assms values_ok_tl show "values_ok k vs" by (simp only: settings_ok_def)
qed

section \<open>A received SETTINGS frame\<close>

text \<open>The current value of a setting, None when it has none.\<close>

definition current_value :: "settings_store \<Rightarrow> int \<Rightarrow> int option" where
  "current_value s k = (case settings_get s k of Inl _ \<Rightarrow> None | Inr v \<Rightarrow> Some v)"

lemma settled_values:
  assumes "settings_ok s" "settled s" "map_of s k = Some vs"
  shows "vs = [current_value s k]"
proof -
  from assms obtain v where "vs = [v]" by (auto simp: settled_def length_Suc_conv)
  with assms(3) show ?thesis by (cases v) (simp_all add: current_value_def settings_get_def)
qed

lemma update_acknowledge:
  assumes ok: "settings_ok s" "settled s"
    and new: "\<forall>(k, v) \<in> set new. validate_setting k v = 0" "distinct (map fst new)"
  obtains s' s'' ch where "settings_update s new = (s', None)" "settings_acknowledge s' = (s'', ch)"
    "settings_ok s''" "settled s''"
    "\<forall>k. current_value s'' k = (case map_of new k of None \<Rightarrow> current_value s k | Some v \<Rightarrow> Some v)"
    "\<forall>k. map_of ch k = map_option (\<lambda>v. \<lparr>setting = k, original_value = current_value s k, new_value = Some v\<rparr>) (map_of new k)"
proof -
  obtain s' where s': "settings_update s new = (s', None)" "settings_ok s'"
    "\<forall>k. map_of s' k = (case map_of new k of None \<Rightarrow> map_of s k | Some v \<Rightarrow> Some (proposed s k v))"
    using settings_update_ok [OF ok(1) new] by blast
  obtain s'' ch where a: "settings_acknowledge s' = (s'', ch)" by fastforce
  have two: "proposed s k v = [current_value s k, Some v]" for k v
    by (cases "map_of s k") (use settled_values [OF ok] in
        \<open>auto simp: proposed_def current_value_def settings_get_def\<close>)
  have vals: "map_of s'' k = (case map_of new k of None \<Rightarrow> map_of s k | Some v \<Rightarrow> Some [Some v])" for k
    using acknowledge_values [of s' k] a s'(3) ok(2)
    by (auto simp: two settled_def split: option.splits)
  have "map_of ch k = map_option (\<lambda>v. \<lparr>setting = k, original_value = current_value s k, new_value = Some v\<rparr>) (map_of new k)" for k
    using acknowledge_changes [of s' k] a s'(2,3) ok(2)
    by (cases "map_of new k"; cases "map_of s k")
      (auto simp: two settings_ok_def settled_def length_Suc_conv split: list.splits)
  moreover have "current_value s'' k = (case map_of new k of None \<Rightarrow> current_value s k | Some v \<Rightarrow> Some v)" for k
    by (simp add: current_value_def settings_get_def vals split: option.split)
  moreover have "settled s''" using vals ok(2) by (auto simp: settled_def split: option.splits)
  moreover have "settings_ok s''" using acknowledge_ok [OF s'(2)] a by simp
  ultimately show ?thesis using s'(1) a that by blast
qed

section \<open>Properties\<close>

text \<open>A SETTINGS frame with valid values takes effect on acknowledgement: each setting it names
  has the new value, every other setting keeps its own, the reported changes are exactly
  those settings with their old and new values, and nothing is left waiting.\<close>

theorem settings_take_effect:
  assumes "settings_ok s" "settled s" "\<forall>(k, v) \<in> set new. validate_setting k v = 0" "distinct (map fst new)"
  shows "\<exists>s' s'' ch. settings_update s new = (s', None) \<and> settings_acknowledge s' = (s'', ch) \<and>
    settings_ok s'' \<and> settled s'' \<and>
    (\<forall>k. current_value s'' k = (case map_of new k of None \<Rightarrow> current_value s k | Some v \<Rightarrow> Some v)) \<and>
    (\<forall>k. map_of ch k = map_option (\<lambda>v. \<lparr>setting = k, original_value = current_value s k, new_value = Some v\<rparr>) (map_of new k))"
  by (rule update_acknowledge [OF assms]) blast

lemma settled_default: "settled (default_settings client)"
  by (auto simp: settled_def default_settings_def split: if_splits)

theorem settings_take_effect_witness:
  "\<exists>s' s'' ch. settings_update (default_settings False) [(4, 1048576), (3, 100)] = (s', None) \<and>
    settings_acknowledge s' = (s'', ch) \<and> current_value s'' 4 = Some 1048576 \<and> current_value s'' 3 = Some 100"
proof -
  have "\<forall>(k, v) \<in> set [(4, 1048576), (3, 100)]. validate_setting k v = 0"
    by (simp add: validate_setting_def setting_codes)
  from settings_take_effect [OF settings_ok_default settled_default this, of False]
  obtain s' s'' ch where "settings_update (default_settings False) [(4, 1048576), (3, 100)] = (s', None)"
    "settings_acknowledge s' = (s'', ch)"
    "\<forall>k. current_value s'' k = (case map_of [(4, 1048576), (3, 100)] k of None \<Rightarrow> current_value (default_settings False) k | Some v \<Rightarrow> Some v)"
    by auto
  then show ?thesis by auto
qed

text \<open>A value that is not allowed for its setting raises a TypeError instead of the intended
  protocol exception, and the settings before it in the frame stay proposed.\<close>

theorem invalid_setting_raises:
  assumes "settings_ok s" "\<forall>(k, v) \<in> set new. validate_setting k v = 0" "distinct (map fst new)"
    "validate_setting key val \<noteq> 0"
  shows "\<exists>s'. settings_update s (new @ (key, val) # rest) = (s', Some TypeError) \<and> settings_ok s' \<and>
    (\<forall>k v. map_of new k = Some v \<longrightarrow> map_of s' k = Some (proposed s k v))"
proof -
  obtain s' where s': "settings_update s new = (s', None)" "settings_ok s'"
    "\<forall>k. map_of s' k = (case map_of new k of None \<Rightarrow> map_of s k | Some v \<Rightarrow> Some (proposed s k v))"
    using settings_update_ok [OF assms(1-3)] by blast
  have "settings_update s xs = (t, None) \<Longrightarrow> settings_update s (xs @ ys) = settings_update t ys" for s t xs ys
    by (induction s xs rule: settings_update.induct) (auto split: sum.splits)
  from this [OF s'(1)] have "settings_update s (new @ (key, val) # rest) = (s', Some TypeError)"
    using assms(4) by (simp add: settings_set_def)
  with s'(2,3) show ?thesis by auto
qed

theorem invalid_setting_raises_witness:
  "\<exists>s'. settings_update (default_settings False) ([(3, 100)] @ (5, 1) # []) = (s', Some TypeError) \<and> settings_ok s'"
proof -
  have "\<exists>s'. settings_update (default_settings False) ([(3, 100)] @ (5, 1) # []) = (s', Some TypeError) \<and> settings_ok s' \<and>
    (\<forall>k v. map_of [(3, 100)] k = Some v \<longrightarrow> map_of s' k = Some (proposed (default_settings False) k v))"
    by (rule invalid_setting_raises [OF settings_ok_default])
      (simp_all add: validate_setting_def setting_codes PROTOCOL_ERROR_def)
  then show ?thesis by blast
qed

end
