(* ===== verification/Http2_Request.thy ===== *)
theory Http2_Request
  imports Frame_Roundtrip Hpack_Roundtrip Window_Manager Http2_Settings
begin

unbundle bit_operations_syntax

text \<open>
  The sending side of an HTTP/2 request: \<open>HTTP2Action._setup_headers\<close> (\<open>http2/action.py\<close>), the
  stream object (\<open>http2/stream.py\<close>), the connection that hands out stream ids
  (\<open>http2/connection.py\<close>) and \<open>send_request_headers\<close> and \<open>submit_request_body\<close> of the pipe
  (\<open>http2/pipe.py\<close>). What a stream writes to its transport is the list \<open>written\<close>, one entry
  per call of \<open>write\<close>. Header names are ASCII strings, so \<open>str.lower\<close> is the ASCII one;
  request data that is an iterator is not modelled.
\<close>

section \<open>The action\<close>

record http2_action =
  act_method :: bytes
  authority :: bytes
  scheme :: bytes
  path :: bytes
  header_items :: "field list"
  encoded_data :: "bytes option"
  encoded_headers :: "bytes list option"
  hpack_encoder :: encoder

definition lower_byte :: "byte \<Rightarrow> byte" where
  "lower_byte b = (if 65 \<le> b \<and> b \<le> 90 then b + 32 else b)"

text \<open>
  The header list of a request. The names are strings and the two excluded names are byte
  strings, which never compare equal, so no header is excluded.
\<close>

definition request_headers :: "http2_action \<Rightarrow> field list" where
  "request_headers a =
     [(b_lit '':method'', act_method a), (b_lit '':authority'', authority a),
      (b_lit '':scheme'', scheme a), (b_lit '':path'', path a)] @
     map (\<lambda>(k, v). (map lower_byte k, v)) (header_items a)"

text \<open>The maximum frame size of the action's own remote settings, which are never updated.\<close>

definition ACTION_MAX_FRAME_SIZE :: nat where
  "ACTION_MAX_FRAME_SIZE = 16384"

fun split_chunks :: "nat \<Rightarrow> nat \<Rightarrow> bytes \<Rightarrow> bytes list" where
  "split_chunks 0 n bs = []"
| "split_chunks (Suc k) n bs = (if bs = [] then [] else take n bs # split_chunks k n (drop n bs))"

definition setup_headers :: "http2_action \<Rightarrow> http2_action \<times> unit res" where
  "setup_headers a =
     (case enc_encode (hpack_encoder a) (request_headers a) True of
        (e, Inl err) \<Rightarrow> (a\<lparr>hpack_encoder := e\<rparr>, Inl err)
      | (e, Inr block) \<Rightarrow>
          (a\<lparr>hpack_encoder := e,
             encoded_headers := Some (split_chunks (length block) ACTION_MAX_FRAME_SIZE block)\<rparr>, Inr ()))"

section \<open>Stream, connection and pipe\<close>

record stream =
  st_id :: int
  reset_connection :: bool
  max_inbound_frame_size :: int
  max_outbound_frame_size :: int
  current_outbound_window_size :: int
  st_inbound :: window_manager
  st_outbound :: window_manager
  rst_received :: bool
  st_buffer :: frame_buffer
  headers_frame :: frame
  window_frame :: frame
  connection_data :: bytes
  written :: "bytes list"

definition CONNECTION_PREFACE :: bytes where
  "CONNECTION_PREFACE = b_lit ''PRI * HTTP/2.0'' @ [13, 10, 13, 10] @ b_lit ''SM'' @ [13, 10, 13, 10]"

definition stream_write :: "stream \<Rightarrow> bytes \<Rightarrow> stream" where
  "stream_write st bs = st\<lparr>written := written st @ [bs]\<rparr>"

text \<open>The settings a connection announces, in the order of the dictionary.\<close>

fun settings_items :: "settings_store \<Rightarrow> (int \<times> setting_values) list \<Rightarrow> (int \<times> int) list res" where
  "settings_items s [] = Inr []"
| "settings_items s ((k, _) # rest) =
     rbind (settings_get s k) (\<lambda>v. rbind (settings_items s rest) (\<lambda>items. Inr ((k, v) # items)))"

definition client_settings :: "int \<Rightarrow> settings_store res" where
  "client_settings concurrency =
     rbind (Settings_init True [(ENABLE_PUSH, 0), (MAX_CONCURRENT_STREAMS, concurrency),
                                (MAX_HEADER_LIST_SIZE, 65535)])
       (\<lambda>s. settings_del s ENABLE_CONNECT_PROTOCOL)"

text \<open>
  The connection. Its \<open>headers_frame\<close> and \<open>window_update_frame\<close> are the objects the stream uses
  from the first \<open>connect\<close> on, so they are kept in the stream from the start.
\<close>

record h2_connection =
  connected :: bool
  init_id :: int
  conn_stream_id :: int
  dns_address :: "string option"
  conn_reset :: bool
  conn_stream :: stream

definition Stream_init :: "int \<Rightarrow> frame \<Rightarrow> frame \<Rightarrow> bytes \<Rightarrow> stream" where
  "Stream_init sid hf wuf data =
     \<lparr>st_id = sid, reset_connection = False, max_inbound_frame_size = 0, max_outbound_frame_size = 0,
      current_outbound_window_size = 0, st_inbound = WindowManager_init 0,
      st_outbound = WindowManager_init 0, rst_received = False, st_buffer = FrameBuffer_init,
      headers_frame = hf, window_frame = wuf, connection_data = data, written = []\<rparr>"

definition HTTP2Connection_init :: "int \<Rightarrow> int \<Rightarrow> bool \<Rightarrow> h2_connection res" where
  "HTTP2Connection_init sid concurrency reset =
     (let init = (if sid mod 2 = 0 then sid + 1 else sid)
      in rbind (client_settings concurrency) (\<lambda>loc.
         rbind (settings_items loc loc) (\<lambda>items.
         rbind (snd (serialize (Frame_init 0 0x04 {} 0 (no_kwargs\<lparr>kw_settings := Some items\<rparr>)))) (\<lambda>bs.
           Inr \<lparr>connected = False, init_id = init, conn_stream_id = 0, dns_address = None, conn_reset = reset,
                conn_stream = Stream_init 0
                  (Frame_init init 0x01 {END_HEADERS} 0 no_kwargs)
                  (Frame_init init 0x08 {} 0 (no_kwargs\<lparr>kw_window_increment := Some 65536\<rparr>))
                  (CONNECTION_PREFACE @ bs)\<rparr>))))"

text \<open>
  \<open>HTTP2Connection.connect\<close> once the transport is there: the first request on a transport
  takes the initial id, each later one the next odd id. Only the second branch tells the
  stream object its id.
\<close>

definition connect_stream :: "h2_connection \<Rightarrow> string \<Rightarrow> h2_connection" where
  "connect_stream c address =
     (let c =
        (if \<not> connected c \<or> dns_address c \<noteq> Some address \<or> conn_reset c
         then c\<lparr>connected := True, conn_stream_id := init_id c, dns_address := Some address\<rparr>
         else (let sid = conn_stream_id c + 2;
                   sid = (if sid mod 2 = 0 then sid + 1 else sid);
                   st = conn_stream c
               in c\<lparr>conn_stream_id := sid,
                    conn_stream := st\<lparr>st_id := sid, headers_frame := (headers_frame st)\<lparr>stream_id := sid\<rparr>,
                                      window_frame := (window_frame st)\<lparr>stream_id := sid\<rparr>\<rparr>\<rparr>))
      in c\<lparr>conn_stream := (conn_stream c)\<lparr>st_buffer := FrameBuffer_init\<rparr>\<rparr>)"

record pipe =
  p_encoder :: encoder
  max_header_list_size :: int
  max_allowed_table_size :: int
  init_sent :: bool
  headers_sent :: bool
  local_settings :: settings_store
  remote_settings :: settings_store
  outbound_flow_control_window :: int
  p_inbound :: window_manager

definition HTTP2Pipe_init :: "int \<Rightarrow> pipe res" where
  "HTTP2Pipe_init concurrency =
     rbind (client_settings concurrency) (\<lambda>loc.
     rbind (settings_get (default_settings False) INITIAL_WINDOW_SIZE) (\<lambda>out.
     rbind (settings_get loc INITIAL_WINDOW_SIZE) (\<lambda>inb.
       Inr \<lparr>p_encoder = Encoder_init, max_header_list_size = 65536,
            max_allowed_table_size = maxsize HeaderTable_init,
            init_sent = False, headers_sent = False, local_settings = loc,
            remote_settings = default_settings False,
            outbound_flow_control_window = out, p_inbound = WindowManager_init inb\<rparr>)))"

section \<open>Sending the headers\<close>

text \<open>The windows and frame sizes a request starts with.\<close>

definition setup_windows :: "pipe \<Rightarrow> stream \<Rightarrow> stream res" where
  "setup_windows p st =
     rbind (settings_get (local_settings p) INITIAL_WINDOW_SIZE) (\<lambda>inb.
     rbind (settings_get (remote_settings p) INITIAL_WINDOW_SIZE) (\<lambda>out.
     rbind (settings_get (local_settings p) MAX_FRAME_SIZE) (\<lambda>inf.
     rbind (settings_get (remote_settings p) MAX_FRAME_SIZE) (\<lambda>outf.
       Inr (st\<lparr>st_inbound := WindowManager_init inb, st_outbound := WindowManager_init out,
               max_inbound_frame_size := inf, max_outbound_frame_size := outf,
               current_outbound_window_size := out\<rparr>)))))"

text \<open>The connection preface, before the first request of a pipe or on a reset connection.\<close>

definition send_preface :: "pipe \<Rightarrow> stream \<Rightarrow> (pipe \<times> stream) res" where
  "send_preface p st =
     (if \<not> init_sent p \<or> reset_connection st
      then rbind (settings_get (remote_settings p) INITIAL_WINDOW_SIZE) (\<lambda>out.
             Inr (p\<lparr>p_inbound := window_opened (p_inbound p) 65536, init_sent := True,
                    outbound_flow_control_window := out\<rparr>,
                  stream_write st (connection_data st)))
      else Inr (p, st))"

text \<open>
  The table size the peer announced is applied to the action's encoder and its headers are
  encoded again, after \<open>encoded_headers\<close> has been read.
\<close>

definition resize_action :: "pipe \<Rightarrow> http2_action \<Rightarrow> http2_action res" where
  "resize_action p a =
     (let peer = maxsize (enc_table (p_encoder p))
      in if maxsize (enc_table (hpack_encoder a)) \<noteq> peer
         then (case set_header_table_size (hpack_encoder a) peer of
                 (e, Inl err) \<Rightarrow> Inl err
               | (e, Inr _) \<Rightarrow>
                   (case setup_headers (a\<lparr>hpack_encoder := e\<rparr>) of
                      (a, Inl err) \<Rightarrow> Inl err
                    | (a, Inr _) \<Rightarrow> Inr a))
         else Inr a)"

definition first_chunk :: "bytes list option \<Rightarrow> bytes res" where
  "first_chunk chunks =
     (case chunks of None \<Rightarrow> Inl TypeError | Some [] \<Rightarrow> Inl IndexError | Some (c # _) \<Rightarrow> Inr c)"

definition send_request_headers :: "pipe \<Rightarrow> stream \<Rightarrow> http2_action \<Rightarrow> (pipe \<times> stream \<times> http2_action) res" where
  "send_request_headers p st a =
     rbind (send_preface (p\<lparr>headers_sent := False\<rparr>) st) (\<lambda>(p, st).
     rbind (setup_windows p st) (\<lambda>st.
     rbind (resize_action p a) (\<lambda>a'.
     rbind (first_chunk (encoded_headers a)) (\<lambda>chunk.
       let hf = (headers_frame st)\<lparr>fdata := Some chunk\<rparr>;
           hf = (if encoded_data a = None then hf\<lparr>flags := insert END_STREAM (flags hf)\<rparr> else hf);
           st = st\<lparr>st_inbound := window_opened (st_inbound st) 65536\<rparr>
       in rbind (snd (serialize hf)) (\<lambda>bs.
            Inr (p\<lparr>headers_sent := True\<rparr>,
                 stream_write (st\<lparr>headers_frame := fst (serialize hf)\<rparr>) bs, a'))))))"

section \<open>Sending the body\<close>

text \<open>
  \<open>submit_request_body\<close>. A flow of zero calls \<open>self._receive_events\<close>, which does not exist. A
  negative flow makes the slices take from the end and may never finish, hence the fuel;
  None is a run that has not finished.
\<close>

definition data_frame :: "int \<Rightarrow> bytes \<Rightarrow> frame" where
  "data_frame sid chunk = (Frame_init sid 0x0 {} 0 no_kwargs)\<lparr>fdata := Some chunk\<rparr>"

definition end_stream_frame :: "int \<Rightarrow> frame" where
  "end_stream_frame sid =
     (let df = Frame_init sid 0x0 {} 0 no_kwargs in df\<lparr>flags := insert END_STREAM (flags df)\<rparr>)"

definition write_frame :: "stream \<Rightarrow> frame \<Rightarrow> stream res" where
  "write_frame st f = rbind (snd (serialize f)) (\<lambda>bs. Inr (stream_write st bs))"

fun submit_loop :: "nat \<Rightarrow> pipe \<Rightarrow> stream \<Rightarrow> bytes \<Rightarrow> (pipe \<times> stream) res option" where
  "submit_loop 0 p st data = None"
| "submit_loop (Suc fuel) p st data =
     (if data = [] then Some (Inr (p, st))
      else
        (let flow = min (current_outbound_window_size st) (max_outbound_frame_size st)
         in if flow = 0 then Some (Inl AttributeError)
            else
              (let chunk_size = min (int (length data)) flow;
                   chunk = py_slice data 0 chunk_size;
                   df = data_frame (st_id st) chunk
               in case flow_controlled_length df of
                    Inl err \<Rightarrow> Some (Inl err)
                  | Inr n \<Rightarrow>
                      (let p = p\<lparr>outbound_flow_control_window := outbound_flow_control_window p - n\<rparr>
                       in if outbound_flow_control_window p < 0 then Some (Inl AssertionError)
                          else (case write_frame st df of
                                  Inl err \<Rightarrow> Some (Inl err)
                                | Inr st \<Rightarrow>
                                    submit_loop fuel p st (py_slice data chunk_size (int (length data))))))))"

definition submit_request_body :: "nat \<Rightarrow> pipe \<Rightarrow> stream \<Rightarrow> http2_action \<Rightarrow> (pipe \<times> stream) res option" where
  "submit_request_body fuel p st a =
     (case submit_loop fuel p st (case encoded_data a of None \<Rightarrow> [] | Some d \<Rightarrow> d) of
        None \<Rightarrow> None
      | Some (Inl err) \<Rightarrow> Some (Inl err)
      | Some (Inr (p, st)) \<Rightarrow>
          Some (rbind (write_frame st (end_stream_frame (st_id st))) (\<lambda>st. Inr (p, st))))"

section \<open>The body on the wire\<close>

lemma data_frame_simps:
  "fdata (data_frame sid d) = Some d" "flags (data_frame sid d) = {}" "ftype (data_frame sid d) = 0"
  "stream_id (data_frame sid d) = sid" "pad_length (data_frame sid d) = 0"
  by (simp_all add: data_frame_def Frame_init_def parse_flags_def frame_dispatch_def frame_defaults_def
      no_kwargs_def kw_get_def)

lemma data_frame_wf:
  "fits 31 sid \<Longrightarrow> wf_frame (data_frame sid d)"
  by (simp add: wf_frame_def wf_payload_def wf_padding_def type_flags_def data_frame_def Frame_init_def
      parse_flags_def frame_dispatch_def frame_defaults_def no_kwargs_def kw_get_def frame_types_def fits_def)

lemma end_stream_frame_wf:
  "fits 31 sid \<Longrightarrow> wf_frame (end_stream_frame sid)"
  by (simp add: wf_frame_def wf_payload_def wf_padding_def type_flags_def end_stream_frame_def Frame_init_def
      parse_flags_def frame_dispatch_def frame_defaults_def no_kwargs_def kw_get_def frame_types_def fits_def Let_def)

lemma data_frame_deliverable: "length d < 2 ^ 24 \<Longrightarrow> deliverable (data_frame sid d)"
  by (simp add: deliverable_def data_frame_simps serialize_body_def padding_data_def data_bytes_def zero_bytes_def)

lemma serialize_ok: "wf_frame f \<Longrightarrow> deliverable f \<Longrightarrow> \<exists>bs. snd (serialize f) = Inr bs"
  by (rule serialize_buffer_round [of f FrameBuffer_init "[]"]) (auto simp: FrameBuffer_init_def)

lemma write_frame_ok:
  assumes "wf_frame f" "deliverable f"
  shows "write_frame st f = Inr (stream_write st (projr (snd (serialize f))))"
  using serialize_ok [OF assms] by (auto simp: write_frame_def)

definition flow_of :: "stream \<Rightarrow> nat" where
  "flow_of st = nat (min (current_outbound_window_size st) (max_outbound_frame_size st))"

lemma flow_of_write [simp]: "flow_of (stream_write st bs) = flow_of st" "st_id (stream_write st bs) = st_id st"
  by (simp_all add: flow_of_def stream_write_def)

lemma flow_step:
  assumes "0 < flow_of st" "data \<noteq> []"
  defines "flow \<equiv> min (current_outbound_window_size st) (max_outbound_frame_size st)"
  shows "flow \<noteq> 0" "py_slice data 0 (min (int (length data)) flow) = take (flow_of st) data"
    "py_slice data (min (int (length data)) flow) (int (length data)) = drop (flow_of st) data"
    "length (take (flow_of st) data) > 0"
proof -
  have f: "flow = int (flow_of st)" using assms(1) by (simp add: flow_of_def flow_def)
  define k where "k = min (length data) (flow_of st)"
  have m: "min (int (length data)) flow = int k" by (simp add: f of_nat_min k_def)
  have k: "k \<le> length data" "take k data = take (flow_of st) data" "drop k data = drop (flow_of st) data"
    by (simp_all add: k_def min_def)
  show "flow \<noteq> 0" using f assms(1) by simp
  show "py_slice data 0 (min (int (length data)) flow) = take (flow_of st) data"
    using py_slice_nat [of 0 k data] k(1) by (simp add: m k(2))
  show "py_slice data (min (int (length data)) flow) (int (length data)) = drop (flow_of st) data"
    using py_slice_nat [of k "length data" data] k(1) by (simp add: m flip: k(3))
  show "length (take (flow_of st) data) > 0" using assms(1,2) by simp
qed

text \<open>One round of the loop, when the stream may send.\<close>

lemma submit_loop_step:
  assumes "0 < flow_of st" "flow_of st < 2 ^ 24" "fits 31 (st_id st)" "data \<noteq> []"
  defines "chunk \<equiv> take (flow_of st) data"
  shows "submit_loop (Suc fuel) p st data =
     (if outbound_flow_control_window p < int (length chunk) then Some (Inl AssertionError)
      else submit_loop fuel
             (p\<lparr>outbound_flow_control_window := outbound_flow_control_window p - int (length chunk)\<rparr>)
             (stream_write st (projr (snd (serialize (data_frame (st_id st) chunk)))))
             (drop (flow_of st) data))"
proof -
  note fs = flow_step [OF assms(1,4)]
  have fl: "flow_controlled_length (data_frame (st_id st) chunk) = Inr (int (length chunk))"
    by (simp add: flow_controlled_length_def data_frame_simps)
  have "length chunk < 2 ^ 24" using assms(2) by (simp add: chunk_def)
  then have w: "write_frame st (data_frame (st_id st) chunk) =
      Inr (stream_write st (projr (snd (serialize (data_frame (st_id st) chunk)))))"
    using assms(3) by (intro write_frame_ok data_frame_wf data_frame_deliverable)
  show ?thesis
    using assms(4) fs(1) fl w
    by (simp add: Let_def fs(2,3) flip: chunk_def)
qed

definition wire :: "frame \<Rightarrow> bytes" where
  "wire f = projr (snd (serialize f))"

text \<open>What a run of the loop wrote: the body in nonempty pieces that respect the flow.\<close>

definition body_sent :: "int \<Rightarrow> nat \<Rightarrow> bytes \<Rightarrow> frame list \<Rightarrow> bool" where
  "body_sent sid n data fs \<longleftrightarrow>
     concat (map (the \<circ> fdata) fs) = data \<and>
     (\<forall>f \<in> set fs. f = data_frame sid (the (fdata f)) \<and> the (fdata f) \<noteq> [] \<and> length (the (fdata f)) \<le> n)"

lemma submit_loop_sends:
  assumes "0 < flow_of st" "flow_of st < 2 ^ 24" "fits 31 (st_id st)"
    "int (length data) \<le> outbound_flow_control_window p" "length data < fuel"
  shows "\<exists>fs. submit_loop fuel p st data =
      Some (Inr (p\<lparr>outbound_flow_control_window := outbound_flow_control_window p - int (length data)\<rparr>,
                 st\<lparr>written := written st @ map wire fs\<rparr>)) \<and>
      body_sent (st_id st) (flow_of st) data fs"
  using assms
proof (induction fuel arbitrary: p st data)
  case (Suc fuel)
  show ?case
  proof (cases "data = []")
    case True
    then show ?thesis by (intro exI [of _ "[]"]) (simp add: body_sent_def)
  next
    case False
    let ?c = "take (flow_of st) data" and ?d = "drop (flow_of st) data"
    let ?p = "p\<lparr>outbound_flow_control_window := outbound_flow_control_window p - int (length ?c)\<rparr>"
    let ?f = "data_frame (st_id st) ?c"
    let ?st = "stream_write st (wire ?f)"
    have pre: "0 < flow_of ?st" "flow_of ?st < 2 ^ 24" "fits 31 (st_id ?st)" using Suc.prems(1-3) by simp_all
    have len: "length data = length ?c + length ?d" by (metis append_take_drop_id length_append)
    have "length ?d < length data" using False Suc.prems(1) by simp
    then have lt: "length ?d < fuel" using Suc.prems(5) by linarith
    have p: "outbound_flow_control_window ?p = outbound_flow_control_window p - int (length ?c)" by simp
    have le: "int (length ?d) \<le> outbound_flow_control_window ?p" unfolding p using Suc.prems(4) len by linarith
    from Suc.IH [OF pre le lt] obtain fs where fs: "submit_loop fuel ?p ?st ?d =
        Some (Inr (?p\<lparr>outbound_flow_control_window := outbound_flow_control_window ?p - int (length ?d)\<rparr>,
          ?st\<lparr>written := written ?st @ map wire fs\<rparr>))"
      "body_sent (st_id ?st) (flow_of ?st) ?d fs" by (elim exE conjE)
    have out: "outbound_flow_control_window ?p - int (length ?d) = outbound_flow_control_window p - int (length data)"
      unfolding p using len by linarith
    have nfail: "\<not> outbound_flow_control_window p < int (length ?c)" using Suc.prems(4) len by linarith
    have "submit_loop (Suc fuel) p st data = submit_loop fuel ?p ?st ?d"
      by (simp only: submit_loop_step [OF Suc.prems(1-3) False] nfail if_False wire_def)
    with fs(1) out have "submit_loop (Suc fuel) p st data =
        Some (Inr (p\<lparr>outbound_flow_control_window := outbound_flow_control_window p - int (length data)\<rparr>,
          st\<lparr>written := written st @ map wire (?f # fs)\<rparr>))"
      by (simp add: stream_write_def)
    moreover have "body_sent (st_id st) (flow_of st) data (?f # fs)"
      using fs(2) False Suc.prems(1) by (auto simp: body_sent_def data_frame_simps)
    ultimately show ?thesis by blast
  qed
qed simp

lemma submit_loop_too_large:
  assumes "0 < flow_of st" "flow_of st < 2 ^ 24" "fits 31 (st_id st)" "0 \<le> outbound_flow_control_window p"
    "outbound_flow_control_window p < int (length data)" "length data < fuel"
  shows "submit_loop fuel p st data = Some (Inl AssertionError)"
  using assms
proof (induction fuel arbitrary: p st data)
  case (Suc fuel)
  then have ne: "data \<noteq> []" by auto
  let ?c = "take (flow_of st) data" and ?d = "drop (flow_of st) data"
  have len: "length data = length ?c + length ?d" by (metis append_take_drop_id length_append)
  have "length ?d < length data" using ne Suc.prems(1) by simp
  then have lt: "length ?d < fuel" using Suc.prems(6) by linarith
  let ?p = "p\<lparr>outbound_flow_control_window := outbound_flow_control_window p - int (length ?c)\<rparr>"
  let ?st = "stream_write st (wire (data_frame (st_id st) ?c))"
  have pre: "0 < flow_of ?st" "flow_of ?st < 2 ^ 24" "fits 31 (st_id ?st)" using Suc.prems(1-3) by simp_all
  note step = submit_loop_step [OF Suc.prems(1-3) ne, of fuel p, folded wire_def]
  show ?case
  proof (cases "outbound_flow_control_window p < int (length ?c)")
    case True
    then show ?thesis by (simp only: step if_True)
  next
    case False
    have p: "outbound_flow_control_window ?p = outbound_flow_control_window p - int (length ?c)" by simp
    have b: "0 \<le> outbound_flow_control_window ?p" "outbound_flow_control_window ?p < int (length ?d)"
      unfolding p using False Suc.prems(5) len by linarith+
    show ?thesis using Suc.IH [OF pre b lt] False by (simp only: step if_False)
  qed
qed simp

section \<open>Sending the headers succeeds\<close>

definition has_setting :: "settings_store \<Rightarrow> int \<Rightarrow> bool" where
  "has_setting s k \<longleftrightarrow> (\<exists>v. settings_get s k = Inr v)"

definition pipe_ok :: "pipe \<Rightarrow> bool" where
  "pipe_ok p \<longleftrightarrow>
     has_setting (local_settings p) INITIAL_WINDOW_SIZE \<and> has_setting (remote_settings p) INITIAL_WINDOW_SIZE \<and>
     has_setting (local_settings p) MAX_FRAME_SIZE \<and> has_setting (remote_settings p) MAX_FRAME_SIZE"

lemma setup_windows_ok:
  "pipe_ok p \<Longrightarrow> \<exists>st'. setup_windows p st = Inr st' \<and> headers_frame st' = headers_frame st \<and> written st' = written st \<and>
     st_id st' = st_id st \<and> connection_data st' = connection_data st"
  by (auto simp: pipe_ok_def has_setting_def setup_windows_def)

lemma send_preface_ok:
  assumes "pipe_ok p"
  shows "\<exists>p' st'. send_preface p st = Inr (p', st') \<and> pipe_ok p' \<and> p_encoder p' = p_encoder p \<and>
    headers_frame st' = headers_frame st \<and> st_id st' = st_id st \<and>
    written st' = written st @ (if \<not> init_sent p \<or> reset_connection st then [connection_data st] else [])"
  using assms by (auto simp: send_preface_def pipe_ok_def has_setting_def stream_write_def)

text \<open>The frame \<open>send_request_headers\<close> writes.\<close>

definition sent_headers_frame :: "stream \<Rightarrow> http2_action \<Rightarrow> bytes \<Rightarrow> frame" where
  "sent_headers_frame st a chunk =
     (let hf = (headers_frame st)\<lparr>fdata := Some chunk\<rparr>
      in if encoded_data a = None then hf\<lparr>flags := insert END_STREAM (flags hf)\<rparr> else hf)"

text \<open>A headers frame as the connection keeps it: a HEADERS frame that ends its block, without
  padding or priority.\<close>

definition headers_template :: "frame \<Rightarrow> bool" where
  "headers_template f \<longleftrightarrow> wf_frame f \<and> ftype f = 0x01 \<and> END_HEADERS \<in> flags f \<and> PADDED \<notin> flags f \<and> PRIORITY \<notin> flags f"

lemma sent_headers_frame_ok:
  assumes "headers_template (headers_frame st)" "length chunk < 2 ^ 24"
  shows "headers_template (sent_headers_frame st a chunk)" "deliverable (sent_headers_frame st a chunk)"
    "frame_view (sent_headers_frame st a chunk) = Headers chunk 0 None"
    "stream_id (sent_headers_frame st a chunk) = stream_id (headers_frame st)"
proof -
  have wf: "wf_frame (headers_frame st)" and t: "ftype (headers_frame st) = 1"
    using assms(1) by (simp_all add: headers_template_def)
  then have "type_flags 1 = defined_flags (headers_frame st)" "flags (headers_frame st) \<subseteq> fst ` set (type_flags 1)"
    unfolding wf_frame_def by auto
  moreover have "END_STREAM \<in> fst ` set (type_flags 1)" by (simp add: type_flags_eq)
  moreover have "wf_padding (headers_frame st)" using wf t by (simp add: wf_frame_def wf_payload_def)
  moreover from this have pad: "pad_length (headers_frame st) = 0"
    using assms(1) by (simp add: headers_template_def wf_padding_def)
  moreover have "fits 8 1" by (simp add: fits_def)
  ultimately show "headers_template (sent_headers_frame st a chunk)"
    using assms(1) by (cases "encoded_data a = None")
      (simp_all add: headers_template_def sent_headers_frame_def wf_frame_def wf_payload_def wf_padding_def Let_def)
  show "deliverable (sent_headers_frame st a chunk)" "frame_view (sent_headers_frame st a chunk) = Headers chunk 0 None"
    using assms pad by (cases "encoded_data a = None";
        simp add: headers_template_def sent_headers_frame_def deliverable_def frame_view_def
        serialize_body_def padding_data_def data_bytes_def zero_bytes_def Let_def)+
  show "stream_id (sent_headers_frame st a chunk) = stream_id (headers_frame st)"
    by (simp add: sent_headers_frame_def Let_def)
qed

lemma send_request_headers_ok:
  assumes "pipe_ok p" "headers_template (headers_frame st)" "encoded_headers a = Some (chunk # chunks)"
    "length chunk < 2 ^ 24" "maxsize (enc_table (hpack_encoder a)) = maxsize (enc_table (p_encoder p))"
  obtains p' st' where "send_request_headers p st a = Inr (p', st', a)"
    "headers_frame st' = fst (serialize (sent_headers_frame st a chunk))"
    "written st' = written st @ (if \<not> init_sent p \<or> reset_connection st then [connection_data st] else []) @
       [wire (sent_headers_frame st a chunk)]"
proof -
  let ?p = "p\<lparr>headers_sent := False\<rparr>"
  have "pipe_ok ?p" using assms(1) by (simp add: pipe_ok_def)
  from send_preface_ok [OF this, of st] obtain p1 st1 where 1: "send_preface ?p st = Inr (p1, st1)" "pipe_ok p1"
    "p_encoder p1 = p_encoder p" "headers_frame st1 = headers_frame st"
    "written st1 = written st @ (if \<not> init_sent p \<or> reset_connection st then [connection_data st] else [])" by auto
  from setup_windows_ok [OF 1(2), of st1] obtain st2 where 2: "setup_windows p1 st1 = Inr st2"
    "headers_frame st2 = headers_frame st" "written st2 = written st1" using 1(4) by auto
  note hf = sent_headers_frame_ok [OF assms(2,4), of a]
  from serialize_ok [of "sent_headers_frame st a chunk"] hf(1,2) obtain bs
    where bs: "snd (serialize (sent_headers_frame st a chunk)) = Inr bs" by (auto simp: headers_template_def)
  have hf_eq: "(let hf = (headers_frame st2)\<lparr>fdata := Some chunk\<rparr>
      in if encoded_data a = None then hf\<lparr>flags := insert END_STREAM (flags hf)\<rparr> else hf) = sent_headers_frame st a chunk"
    by (simp only: sent_headers_frame_def 2(2))
  have "resize_action p1 a = Inr a" using assms(5) 1(3) by (simp add: resize_action_def)
  then have "send_request_headers p st a =
      Inr (p1\<lparr>headers_sent := True\<rparr>,
           stream_write (st2\<lparr>st_inbound := window_opened (st_inbound st2) 65536,
             headers_frame := fst (serialize (sent_headers_frame st a chunk))\<rparr>) bs, a)"
    using 1(1) 2(1) assms(3) bs hf_eq
    by (simp add: send_request_headers_def first_chunk_def Let_def)
  then show ?thesis
    by (rule that) (simp_all add: stream_write_def 1(5) 2(3) bs wire_def)
qed

section \<open>Properties of the sending side\<close>

lemma body_sent_view:
  assumes "list_all2 same_frame gs fs" "\<forall>f \<in> set fs. ftype f = 0"
  shows "concat (map (the \<circ> fdata) gs) = concat (map (the \<circ> fdata) fs)"
  using assms
  by (induction gs fs rule: list_all2_induct) (auto simp: same_frame_def frame_view_def split: if_splits)

lemma map_projr: "map (snd \<circ> serialize) fs = map Inr bss \<Longrightarrow> map wire fs = bss"
  by (induction fs arbitrary: bss) (auto simp: wire_def)


definition example_stream :: stream where
  "example_stream =
     (Stream_init 1 (Frame_init 1 0x01 {END_HEADERS} 0 no_kwargs) (Frame_init 1 0x08 {} 0 no_kwargs) [])
       \<lparr>current_outbound_window_size := 65535, max_outbound_frame_size := 16384\<rparr>"

definition example_pipe :: pipe where
  "example_pipe = projr (HTTP2Pipe_init 10)"

definition example_action :: "bytes option \<Rightarrow> http2_action" where
  "example_action body =
     \<lparr>act_method = b_lit ''POST'', authority = b_lit ''a.b'', scheme = b_lit ''https'', path = b_lit ''/'',
      header_items = [], encoded_data = body, encoded_headers = Some [[0x83]], hpack_encoder = Encoder_init\<rparr>"

lemma example_pipe_simps:
  "outbound_flow_control_window example_pipe = 65535" "pipe_ok example_pipe" "init_sent example_pipe = False"
  "p_encoder example_pipe = Encoder_init"
  by (simp_all add: example_pipe_def HTTP2Pipe_init_def client_settings_def Settings_init_def default_settings_def
      validate_setting_def setting_codes settings_del_def settings_get_def pipe_ok_def has_setting_def)

lemma example_stream_simps:
  "flow_of example_stream = 16384" "st_id example_stream = 1"
  by (simp_all add: example_stream_def flow_of_def Stream_init_def)


text \<open>A body larger than the connection window ends in an AssertionError instead of waiting for a
  window update.\<close>

theorem body_too_large_asserts:
  assumes "encoded_data a = Some data" "0 < flow_of st" "flow_of st < 2 ^ 24" "fits 31 (st_id st)"
    "0 \<le> outbound_flow_control_window p" "outbound_flow_control_window p < int (length data)" "length data < fuel"
  shows "submit_request_body fuel p st a = Some (Inl AssertionError)"
  using submit_loop_too_large [OF assms(2-7)] assms(1) by (simp add: submit_request_body_def)

theorem body_too_large_asserts_witness:
  "submit_request_body 65537 example_pipe example_stream (example_action (Some (replicate 65536 0))) =
     Some (Inl AssertionError)"
  by (rule body_too_large_asserts [where data = "replicate 65536 0"])
    (simp_all add: example_action_def example_stream_simps example_pipe_simps fits_def)

section \<open>Requests on one connection\<close>

definition odd_id :: "int \<Rightarrow> int" where
  "odd_id sid = (if sid mod 2 = 0 then sid + 1 else sid)"

fun connects :: "nat \<Rightarrow> h2_connection \<Rightarrow> string \<Rightarrow> h2_connection" where
  "connects 0 c address = c"
| "connects (Suc n) c address = connect_stream (connects n c address) address"

lemma connection_init_simps:
  assumes "HTTP2Connection_init sid concurrency reset = Inr c"
  shows "connected c = False" "init_id c = odd_id sid" "conn_reset c = reset" "st_id (conn_stream c) = 0"
    "stream_id (headers_frame (conn_stream c)) = odd_id sid"
  using assms
  by (auto simp: HTTP2Connection_init_def Stream_init_def odd_id_def Let_def Frame_init_def parse_flags_def
      frame_dispatch_def frame_defaults_def)

lemma connects_ids:
  fixes address :: string and c :: h2_connection
  assumes c: "HTTP2Connection_init sid concurrency False = Inr c"
  defines "d \<equiv> \<lambda>n. connects (Suc n) c address"
  shows "connected (d n) \<and> dns_address (d n) = Some address \<and> \<not> conn_reset (d n) \<and>
    conn_stream_id (d n) = odd_id sid + 2 * int n \<and> stream_id (headers_frame (conn_stream (d n))) = odd_id sid + 2 * int n \<and>
    st_id (conn_stream (d n)) = (if n = 0 then 0 else odd_id sid + 2 * int n)"
proof (induction n)
  case 0
  show ?case using connection_init_simps [OF c] by (simp add: d_def connect_stream_def Let_def)
next
  case (Suc n)
  have odd: "odd_id sid mod 2 = 1" by (simp add: odd_id_def) presburger
  have "(odd_id sid + 2 * int n + 2) mod 2 = 1" using odd by presburger
  moreover have "d (Suc n) = connect_stream (d n) address" by (simp add: d_def)
  ultimately show ?case using Suc by (simp add: connect_stream_def Let_def)
qed

text \<open>On a connection that is kept open, the requests take the odd stream ids in order, the HEADERS
  frame of each carries its id, and from the second request on so does the stream object;
  for the first request the stream object still has id 0, so its DATA frames go to stream 0.\<close>

theorem stream_ids_of_connection:
  assumes "HTTP2Connection_init sid concurrency False = Inr c"
  shows "let d = connects (Suc n) c address; i = odd_id sid + 2 * int n
    in i mod 2 = 1 \<and> conn_stream_id d = i \<and> stream_id (headers_frame (conn_stream d)) = i \<and>
       st_id (conn_stream d) = (if n = 0 then 0 else i)"
proof -
  have "(odd_id sid + 2 * int n) mod 2 = 1" by (simp add: odd_id_def) presburger
  with connects_ids [OF assms, where n = n and address = address] show ?thesis by (simp add: Let_def)
qed

lemma example_connection:
  "\<exists>c. HTTP2Connection_init 4 10 False = Inr c"
proof -
  have "client_settings 10 = Inr [(1, [Some 4096]), (2, [Some 0]), (4, [Some 65535]), (5, [Some 16384]),
      (3, [Some 10]), (6, [Some 65535])]"
    by (simp add: client_settings_def Settings_init_def default_settings_def validate_setting_def setting_codes settings_del_def)
  moreover have "settings_items [(1, [Some 4096]), (2, [Some 0]), (4, [Some 65535]), (5, [Some 16384]),
      (3, [Some 10]), (6, [Some 65535])] [(1, [Some 4096]), (2, [Some 0]), (4, [Some 65535]), (5, [Some 16384]),
      (3, [Some 10]), (6, [Some 65535])] = Inr [(1, 4096), (2, 0), (4, 65535), (5, 16384), (3, 10), (6, 65535)]"
    by (simp add: settings_get_def)
  moreover have "\<not> isl (snd (serialize (Frame_init 0 4 {} 0
      (no_kwargs\<lparr>kw_settings := Some [(1, 4096), (2, 0), (4, 65535), (5, 16384), (3, 10), (6, 65535)]\<rparr>))))"
    by (simp add: serialize_def serialize_body_def frame_header_def pack_be_def STRUCT_HL_def STRUCT_HBBBL_def
        Frame_init_def parse_flags_def frame_dispatch_def frame_defaults_def no_kwargs_def kw_get_def
        known_type_def Let_def numeral_2_eq_2)
  ultimately show ?thesis by (auto simp: HTTP2Connection_init_def Let_def dest!: sum.collapse(2) [THEN sym])
qed

theorem stream_ids_of_connection_witness:
  "\<exists>c. HTTP2Connection_init 4 10 False = Inr c \<and> conn_stream_id (connects 3 c ''h'') = 9 \<and>
     st_id (conn_stream (connects 1 c ''h'')) = 0"
proof -
  obtain c where c: "HTTP2Connection_init 4 10 False = Inr c" using example_connection by blast
  from stream_ids_of_connection [OF c, of 2 "''h''"] stream_ids_of_connection [OF c, of 0 "''h''"]
  have "conn_stream_id (connects 3 c ''h'') = 9" "st_id (conn_stream (connects 1 c ''h'')) = 0"
    by (simp_all add: Let_def odd_id_def numeral_3_eq_3 del: connects.simps)
  with c show ?thesis by blast
qed

text \<open>The flags of the shared headers frame only grow.\<close>

lemma send_request_headers_flags:
  assumes "send_request_headers p st a = Inr (p', st', a')"
  shows "flags (headers_frame st') =
    (if encoded_data a = None then insert END_STREAM (flags (headers_frame st)) else flags (headers_frame st))"
proof -
  let ?sent = "\<lambda>st2 chunk. let hf = (headers_frame st2)\<lparr>fdata := Some chunk\<rparr>
    in if encoded_data a = None then hf\<lparr>flags := insert END_STREAM (flags hf)\<rparr> else hf"
  from assms obtain p1 st1 st2 chunk where s: "send_preface (p\<lparr>headers_sent := False\<rparr>) st = Inr (p1, st1)"
    "setup_windows p1 st1 = Inr st2" and hf: "headers_frame st' = fst (serialize (?sent st2 chunk))"
    unfolding send_request_headers_def rbind_Inr_iff by (fastforce simp: stream_write_def Let_def)
  have "headers_frame st2 = headers_frame st"
    using s(1,2) by (auto simp: send_preface_def setup_windows_def stream_write_def split: if_splits)
  moreover have "flags (fst (serialize hf)) = flags hf" for hf
    by (simp add: serialize_def Let_def split: prod.split sum.split)
  ultimately show ?thesis using hf by (simp add: Let_def)
qed

lemma connect_stream_flags: "flags (headers_frame (conn_stream (connect_stream c address))) = flags (headers_frame (conn_stream c))"
  by (simp add: connect_stream_def Let_def)

text \<open>Once a connection has sent a request without a body, the HEADERS frame of every later request
  on it carries END_STREAM, also when a body follows.\<close>

theorem end_stream_sticks:
  assumes "send_request_headers p (conn_stream c) a = Inr (p1, st1, a1)" "encoded_data a = None"
    "send_request_headers p2 (conn_stream (connect_stream (c\<lparr>conn_stream := st1\<rparr>) address)) b = Inr (p3, st3, b3)"
  shows "END_STREAM \<in> flags (headers_frame st3)"
  using send_request_headers_flags [OF assms(3)] send_request_headers_flags [OF assms(1)] assms(2)
  by (simp add: connect_stream_flags)

lemma example_template: "headers_template (headers_frame example_stream)"
  by (simp add: headers_template_def example_stream_def Stream_init_def wf_frame_def wf_payload_def wf_padding_def
      type_flags_def Frame_init_def parse_flags_def frame_dispatch_def frame_defaults_def no_kwargs_def kw_get_def
      frame_types_def fits_def)

lemma headers_template_next:
  assumes "headers_template f"
  shows "headers_template ((fst (serialize f))\<lparr>stream_id := 3\<rparr>)"
  using assms
  by (auto simp: headers_template_def serialize_def serialize_body_def wf_frame_def wf_payload_def wf_padding_def
      wf_priority_def Let_def fits_def split: prod.splits sum.splits)

definition example_connection_of :: "stream \<Rightarrow> h2_connection" where
  "example_connection_of st =
     \<lparr>connected = True, init_id = 1, conn_stream_id = 1, dns_address = Some ''h'', conn_reset = False, conn_stream = st\<rparr>"

theorem end_stream_sticks_witness:
  "\<exists>p1 st1 p3 st3. send_request_headers example_pipe example_stream (example_action None) = Inr (p1, st1, example_action None) \<and>
     send_request_headers example_pipe (conn_stream (connect_stream (example_connection_of st1) ''h''))
       (example_action (Some [1])) = Inr (p3, st3, example_action (Some [1])) \<and>
     END_STREAM \<in> flags (headers_frame st3)"
proof -
  have a: "encoded_headers (example_action body) = Some [[0x83]]"
    "hpack_encoder (example_action body) = Encoder_init" "encoded_data (example_action body) = body" for body
    by (simp_all add: example_action_def)
  note ok = send_request_headers_ok [OF example_pipe_simps(2) _ a(1), unfolded a example_pipe_simps]
  obtain p1 st1 where 1: "send_request_headers example_pipe example_stream (example_action None) = Inr (p1, st1, example_action None)"
    "headers_frame st1 = fst (serialize (sent_headers_frame example_stream (example_action None) [0x83]))"
    by (rule ok [OF example_template, of None]) simp_all
  have t: "headers_template (sent_headers_frame example_stream (example_action None) [0x83])"
    by (rule sent_headers_frame_ok [OF example_template]) simp
  let ?st = "conn_stream (connect_stream (example_connection_of st1) ''h'')"
  have "headers_template (headers_frame ?st)"
    using headers_template_next [OF t] 1(2)
    by (simp add: connect_stream_def example_connection_of_def Let_def)
  then obtain p3 st3 where 3: "send_request_headers example_pipe ?st (example_action (Some [1])) = Inr (p3, st3, example_action (Some [1]))"
    by (rule ok [of _ "Some [1]"]) simp_all
  have "END_STREAM \<in> flags (headers_frame st3)"
    by (rule end_stream_sticks [of example_pipe "example_connection_of example_stream" "example_action None" p1 st1
          "example_action None" example_pipe "''h''"])
      (use 1 3 in \<open>simp_all add: example_connection_of_def a\<close>)
  with 1 3 show ?thesis by blast
qed

end
