(* ===== verification/Http2_Response.thy ===== *)
theory Http2_Response
  imports Http2_Request Deferred_Headers
begin

unbundle bit_operations_syntax

text \<open>
  The receiving side of \<open>http2/pipe.py\<close>: \<open>receive_response\<close> with the handling of every frame
  type, \<open>_guard_increment_window\<close>, and \<open>write_window_update_frame\<close> of \<open>http2/stream.py\<close>; and
  the view of a response that \<open>http2/result.py\<close> gives (\<open>headers\<close>, \<open>status\<close>, \<open>size\<close>).

  The socket is a list of reads. What the loop does before the next read that is not in the
  list is the state returned with \<open>Waiting\<close>. Tracing is off, as it is without a tracing session.
  The text of the exceptions that \<open>receive_response\<close> wraps is cut to its constant part.
\<close>

section \<open>State\<close>

text \<open>\<open>DeferredHeaders\<close> as the constructor fills it, and the part of \<open>HTTP2Result\<close> the pipe writes.\<close>

record deferred =
  dh_stream_id :: int
  dh_raw :: "bytes option"
  dh_end_stream :: bool
  dh_priority :: bool

record response =
  resp_status :: "int option"
  resp_error :: "string option"
  resp_body :: bytes
  resp_deferred :: "deferred option"

definition HTTP2Result_init :: response where
  "HTTP2Result_init = \<lparr>resp_status = None, resp_error = None, resp_body = [], resp_deferred = None\<rparr>"

definition DeferredHeaders_init :: "frame \<Rightarrow> deferred" where
  "DeferredHeaders_init f =
     \<lparr>dh_stream_id = stream_id f, dh_raw = fdata f, dh_end_stream = (END_STREAM \<in> flags f),
      dh_priority = (PRIORITY \<in> flags f)\<rparr>"

text \<open>A \<open>DataReceived\<close> event: its data and its flow controlled length, None until set.\<close>

record data_event =
  ev_data :: "bytes option"
  ev_length :: "int option"

text \<open>The locals of one run of the loop body, with the objects it works on.\<close>

record rx =
  rx_pipe :: pipe
  rx_stream :: stream
  rx_response :: response
  rx_done :: bool
  rx_write_data :: bytes
  rx_frames :: "frame list option"
  rx_events :: "data_event list"

definition rx_error :: py_error where
  "rx_error = GenericException ''Connection err''"

section \<open>Windows\<close>

text \<open>\<open>_guard_increment_window\<close>. The value does not depend on the increment.\<close>

definition guard_increment_window :: "pipe \<Rightarrow> int \<Rightarrow> int \<Rightarrow> pipe \<times> int res" where
  "guard_increment_window p current increment =
     (let new_size = current + increment;
          p' = (if new_size > LARGEST_FLOW_CONTROL_WINDOW
                then (case settings_get (remote_settings p) INITIAL_WINDOW_SIZE of
                        Inl err \<Rightarrow> (p, Some err)
                      | Inr out \<Rightarrow>
                          (let p = p\<lparr>outbound_flow_control_window := out\<rparr>
                           in case settings_get (local_settings p) INITIAL_WINDOW_SIZE of
                                Inl err \<Rightarrow> (p, Some err)
                              | Inr inb \<Rightarrow> (p\<lparr>p_inbound := WindowManager_init inb\<rparr>, None)))
                else (p, None))
      in case p' of
           (p, Some err) \<Rightarrow> (p, Inl err)
         | (p, None) \<Rightarrow> (p, Inr (LARGEST_FLOW_CONTROL_WINDOW - current)))"

definition write_window_update_frame :: "stream \<Rightarrow> int option \<Rightarrow> int \<Rightarrow> stream res" where
  "write_window_update_frame st sid increment =
     (let sid = (case sid of None \<Rightarrow> st_id st | Some n \<Rightarrow> n)
      in rbind (pack_struct STRUCT_L [increment AND 0x7FFFFFFF]) (\<lambda>body.
           let body_len = int (length body)
           in rbind (pack_struct STRUCT_HBBBL
                       [drop_bit 8 body_len AND 0xFFFF, body_len AND 0xFF, 0x08, 0, sid AND 0x7FFFFFFF])
                (\<lambda>header. Inr (stream_write st (header @ body)))))"

section \<open>The frames\<close>

definition handle_data :: "rx \<Rightarrow> frame \<Rightarrow> rx \<times> py_error option" where
  "handle_data x f =
     (case flow_controlled_length f of
        Inl err \<Rightarrow> (x, Some err)
      | Inr len \<Rightarrow>
          (let p = rx_pipe x;
               st = rx_stream x;
               events = rx_events x @ [\<lparr>ev_data = None, ev_length = None\<rparr>]
           in (x\<lparr>rx_frames := Some [],
                 rx_pipe := p\<lparr>p_inbound := window_consumed (p_inbound p) len\<rparr>,
                 rx_stream := st\<lparr>st_inbound := window_consumed (st_inbound st) len\<rparr>,
                 rx_done := (rx_done x \<or> END_STREAM \<in> flags f),
                 rx_events := events[0 := \<lparr>ev_data = fdata f, ev_length = Some len\<rparr>]\<rparr>, None)))"

definition handle_headers :: "rx \<Rightarrow> frame \<Rightarrow> rx \<times> py_error option" where
  "handle_headers x f =
     (let dh = DeferredHeaders_init f
      in (x\<lparr>rx_done := (rx_done x \<or> dh_end_stream dh), rx_frames := Some [],
            rx_response := (rx_response x)\<lparr>resp_deferred := Some dh\<rparr>\<rparr>, None))"

text \<open>
  The difference of a changed setting. A value after the first of a setting is always an
  integer (\<open>values_ok\<close>), so only the original value can be missing.
\<close>

definition setting_delta :: "changed_setting \<Rightarrow> int res" where
  "setting_delta c =
     (case (new_value c, original_value c) of (Some new, Some old) \<Rightarrow> Inr (new - old) | _ \<Rightarrow> Inl TypeError)"

definition changed_or :: "changed_setting option \<Rightarrow> int \<Rightarrow> int" where
  "changed_or c old =
     (case c of None \<Rightarrow> old | Some c \<Rightarrow> (case new_value c of None \<Rightarrow> old | Some new \<Rightarrow> new))"

definition local_window_change :: "stream \<Rightarrow> changed_setting option \<Rightarrow> stream res" where
  "local_window_change st c =
     (case c of
        None \<Rightarrow> Inr st
      | Some c \<Rightarrow> rbind (setting_delta c) (\<lambda>delta.
          let new_max = max_window_size (st_inbound st) + delta
          in Inr (st\<lparr>st_inbound := (window_opened (st_inbound st) delta)\<lparr>max_window_size := new_max\<rparr>\<rparr>)))"

text \<open>The branch of a SETTINGS frame with ACK: the local settings take effect.\<close>

definition settings_acked :: "pipe \<Rightarrow> stream \<Rightarrow> pipe \<times> stream res" where
  "settings_acked p st =
     (case settings_acknowledge (local_settings p) of
        (loc, changes) \<Rightarrow>
          (let p = p\<lparr>local_settings := loc\<rparr>
           in case local_window_change st (map_of changes INITIAL_WINDOW_SIZE) of
                Inl err \<Rightarrow> (p, Inl err)
              | Inr st \<Rightarrow>
                  (p\<lparr>max_header_list_size := changed_or (map_of changes MAX_HEADER_LIST_SIZE) (max_header_list_size p),
                     max_allowed_table_size := changed_or (map_of changes HEADER_TABLE_SIZE) (max_allowed_table_size p)\<rparr>,
                   Inr (st\<lparr>max_outbound_frame_size :=
                             changed_or (map_of changes MAX_FRAME_SIZE) (max_outbound_frame_size st)\<rparr>))))"

text \<open>The changes of the remote settings: the outbound window, the encoder's table, the frame size.\<close>

definition remote_window_change :: "pipe \<Rightarrow> stream \<Rightarrow> changed_setting option \<Rightarrow> pipe \<times> stream res" where
  "remote_window_change p st c =
     (case c of
        None \<Rightarrow> (p, Inr st)
      | Some c \<Rightarrow>
          (case setting_delta c of
             Inl err \<Rightarrow> (p, Inl err)
           | Inr delta \<Rightarrow>
               (case guard_increment_window p (current_outbound_window_size st) delta of
                  (p, Inl err) \<Rightarrow> (p, Inl err)
                | (p, Inr n) \<Rightarrow> (p, Inr (st\<lparr>current_outbound_window_size := n\<rparr>)))))"

definition remote_table_change :: "pipe \<Rightarrow> changed_setting option \<Rightarrow> pipe \<times> py_error option" where
  "remote_table_change p c =
     (case c of
        None \<Rightarrow> (p, None)
      | Some c \<Rightarrow>
          (case set_header_table_size (p_encoder p) (changed_or (Some c) 0) of
             (e, Inl err) \<Rightarrow> (p\<lparr>p_encoder := e\<rparr>, Some err)
           | (e, Inr _) \<Rightarrow> (p\<lparr>p_encoder := e\<rparr>, None)))"

definition settings_received :: "pipe \<Rightarrow> stream \<Rightarrow> frame \<Rightarrow> pipe \<times> stream \<times> py_error option" where
  "settings_received p st f =
     (case settings_update (remote_settings p) (settings f) of
        (s, Some err) \<Rightarrow> (p\<lparr>remote_settings := s\<rparr>, st, Some err)
      | (s, None) \<Rightarrow>
          (case settings_acknowledge s of
             (s, changes) \<Rightarrow>
               (case remote_window_change (p\<lparr>remote_settings := s\<rparr>) st (map_of changes INITIAL_WINDOW_SIZE) of
                  (p, Inl err) \<Rightarrow> (p, st, Some err)
                | (p, Inr st) \<Rightarrow>
                    (case remote_table_change p (map_of changes HEADER_TABLE_SIZE) of
                       (p, Some err) \<Rightarrow> (p, st, Some err)
                     | (p, None) \<Rightarrow>
                         (p, st\<lparr>max_outbound_frame_size :=
                                  changed_or (map_of changes MAX_FRAME_SIZE) (max_outbound_frame_size st)\<rparr>, None)))))"

definition ack_frame :: frame where
  "ack_frame = (let f = Frame_init 0 0x04 {} 0 no_kwargs in f\<lparr>flags := insert ACK (flags f)\<rparr>)"

definition handle_settings :: "rx \<Rightarrow> frame \<Rightarrow> rx \<times> py_error option" where
  "handle_settings x f =
     (case (if ACK \<in> flags f then settings_acked (rx_pipe x) (rx_stream x) else (rx_pipe x, Inr (rx_stream x))) of
        (p, Inl err) \<Rightarrow> (x\<lparr>rx_pipe := p\<rparr>, Some err)
      | (p, Inr st) \<Rightarrow>
          (case settings_received p st f of
             (p, st, Some err) \<Rightarrow> (x\<lparr>rx_pipe := p, rx_stream := st\<rparr>, Some err)
           | (p, st, None) \<Rightarrow> (x\<lparr>rx_pipe := p, rx_stream := st, rx_frames := Some [ack_frame]\<rparr>, None)))"

definition handle_window_update :: "rx \<Rightarrow> frame \<Rightarrow> rx \<times> py_error option" where
  "handle_window_update x f =
     (let x = x\<lparr>rx_frames := Some []\<rparr>
      in case guard_increment_window (rx_pipe x) (outbound_flow_control_window (rx_pipe x)) (window_increment f) of
           (p, Inl err) \<Rightarrow> (x\<lparr>rx_pipe := p\<rparr>, if stream_id f \<noteq> 0 then None else Some err)
         | (p, Inr n) \<Rightarrow> (x\<lparr>rx_pipe := p\<lparr>outbound_flow_control_window := n\<rparr>\<rparr>, None))"

text \<open>
  The dispatch on the type. GOAWAY and RST_STREAM always raise (an unknown error code does so
  a little earlier); a type that is not listed changes nothing, \<open>frames\<close> included.
\<close>

definition dispatch_frame :: "rx \<Rightarrow> frame \<Rightarrow> rx \<times> py_error option" where
  "dispatch_frame x f =
     (if ftype f = 0x0 then handle_data x f
      else if ftype f = 0x07 then (x, Some rx_error)
      else if ftype f = 0x01 then handle_headers x f
      else if ftype f = 0x03 then (x\<lparr>rx_stream := (rx_stream x)\<lparr>rst_received := True\<rparr>\<rparr>, Some rx_error)
      else if ftype f = 0x04 then handle_settings x f
      else if ftype f = 0x08 then handle_window_update x f
      else (x, None))"

text \<open>The answer: every frame of \<open>frames\<close> is added to \<open>write_data\<close>, which is then written as a whole.\<close>

fun serialize_frames :: "bytes \<Rightarrow> frame list \<Rightarrow> bytes \<times> py_error option" where
  "serialize_frames acc [] = (acc, None)"
| "serialize_frames acc (f # fs) =
     (case snd (serialize f) of Inl err \<Rightarrow> (acc, Some err) | Inr bs \<Rightarrow> serialize_frames (acc @ bs) fs)"

definition answer_frame :: "rx \<Rightarrow> rx \<times> py_error option" where
  "answer_frame x =
     (case rx_frames x of
        None \<Rightarrow> (x, None)
      | Some [] \<Rightarrow> (x, None)
      | Some fs \<Rightarrow>
          (case serialize_frames (rx_write_data x) fs of
             (acc, Some err) \<Rightarrow> (x\<lparr>rx_write_data := acc\<rparr>, Some err)
           | (acc, None) \<Rightarrow> (x\<lparr>rx_write_data := acc, rx_stream := stream_write (rx_stream x) acc\<rparr>, None)))"

definition handle_frame :: "rx \<Rightarrow> frame \<Rightarrow> rx \<times> py_error option" where
  "handle_frame x f =
     (case dispatch_frame x f of
        (x, Some _) \<Rightarrow> (x, Some rx_error)
      | (x, None) \<Rightarrow> answer_frame x)"

section \<open>The loop\<close>

text \<open>
  \<open>for frame in stream.frame_buffer\<close>: the buffer is a generator, so the frames are handled
  while the buffer is being cut; an error of either side ends the loop.
\<close>

function frame_loop :: "frame_buffer \<Rightarrow> rx \<Rightarrow> frame_buffer \<times> rx \<times> py_error option" where
  "frame_loop fb x =
     (case buffer_round fb of
        (fb, Wait) \<Rightarrow> (fb, x, None)
      | (fb, Raise err) \<Rightarrow> (fb, x, Some err)
      | (fb, Next None) \<Rightarrow> frame_loop fb x
      | (fb, Next (Some f)) \<Rightarrow>
          (case handle_frame x f of
             (x, Some err) \<Rightarrow> (fb, x, Some err)
           | (x, None) \<Rightarrow> frame_loop fb x))"
  by pat_completeness auto
termination
  by (relation "measure (\<lambda>(fb, x). length (fb_data fb))") (auto dest!: buffer_round_shrinks [OF sym])

declare frame_loop.simps [simp del]

text \<open>\<open>for event in stream_events\<close>: hand the bytes back to the window and keep the data.\<close>

fun event_loop :: "pipe \<Rightarrow> stream \<Rightarrow> bytes \<Rightarrow> data_event list \<Rightarrow> (pipe \<times> stream \<times> bytes) \<times> py_error option" where
  "event_loop p st body [] = ((p, st, body), None)"
| "event_loop p st body (ev # events) =
     (case process_bytes (p_inbound p) (ev_length ev) of
        (w, conn_increment) \<Rightarrow>
          (let p = p\<lparr>p_inbound := w\<rparr>
           in case (if conn_increment = None \<or> conn_increment = Some 0 then Inr st
                    else write_window_update_frame st (Some 0) (the conn_increment)) of
                Inl err \<Rightarrow> ((p, st, body), Some err)
              | Inr st \<Rightarrow>
                  event_loop p st (body @ (case ev_data ev of None \<Rightarrow> [] | Some d \<Rightarrow> d)) events))"

datatype read = Chunk bytes | ReadTimeout | ReadCancelled | ReadFails py_error

datatype outcome = Waiting | Returned | Raised py_error

text \<open>One round of \<open>while done is False\<close> after a read; the buffer is that of the stream.\<close>

definition receive_chunk :: "pipe \<Rightarrow> stream \<Rightarrow> response \<Rightarrow> bytes \<Rightarrow> (pipe \<times> stream \<times> response) \<times> outcome" where
  "receive_chunk p st r data =
     (let fb = (fb_extend (st_buffer st) data)\<lparr>max_frame_size := max_outbound_frame_size st\<rparr>;
          x = \<lparr>rx_pipe = p, rx_stream = st, rx_response = r, rx_done = False, rx_write_data = [],
               rx_frames = None, rx_events = []\<rparr>
      in case frame_loop fb x of
           (fb, x, err) \<Rightarrow>
             (let p = rx_pipe x; st = (rx_stream x)\<lparr>st_buffer := fb\<rparr>; r = rx_response x
              in case err of
                   Some err \<Rightarrow> ((p, st, r), Raised err)
                 | None \<Rightarrow>
                     (case event_loop p st (resp_body r) (rx_events x) of
                        ((p, st, body), Some err) \<Rightarrow> ((p, st, r\<lparr>resp_body := body\<rparr>), Raised err)
                      | ((p, st, body), None) \<Rightarrow>
                          ((p, st, r\<lparr>resp_body := body\<rparr>), if rx_done x then Returned else Waiting))))"

fun receive_response :: "pipe \<Rightarrow> stream \<Rightarrow> response \<Rightarrow> read list \<Rightarrow> (pipe \<times> stream \<times> response) \<times> outcome" where
  "receive_response p st r [] = ((p, st, r), Waiting)"
| "receive_response p st r (ReadTimeout # reads) =
     ((p, st, r\<lparr>resp_status := Some 408, resp_error := Some ''''\<rparr>), Returned)"
| "receive_response p st r (ReadCancelled # reads) =
     ((p, st, r\<lparr>resp_status := Some 408, resp_error := Some ''''\<rparr>), Returned)"
| "receive_response p st r (ReadFails err # reads) = ((p, st, r), Raised err)"
| "receive_response p st r (Chunk data # reads) =
     (case receive_chunk p st r data of
        ((p, st, r), Waiting) \<Rightarrow> receive_response p st r reads
      | done \<Rightarrow> done)"

section \<open>The loop over a drained buffer\<close>

fun handle_frames :: "rx \<Rightarrow> frame list \<Rightarrow> rx \<times> py_error option" where
  "handle_frames x [] = (x, None)"
| "handle_frames x (f # fs) =
     (case handle_frame x f of (x, Some err) \<Rightarrow> (x, Some err) | (x, None) \<Rightarrow> handle_frames x fs)"

lemma frame_loop_drain:
  "buffer_drain fb = (fb', fs, e) \<Longrightarrow> handle_frames x fs = (x', None) \<Longrightarrow> frame_loop fb x = (fb', x', e)"
proof (induction fb x arbitrary: fs rule: frame_loop.induct)
  case (1 fb x)
  obtain fb1 res where r: "buffer_round fb = (fb1, res)" by fastforce
  show ?case
  proof (cases res)
    case (Next o')
    show ?thesis
    proof (cases o')
      case None
      with r Next 1(3) have "buffer_drain fb1 = (fb', fs, e)"
        by (auto simp: buffer_drain.simps [of fb] split: prod.splits)
      with 1(1) [OF r [symmetric] Next None] 1(4) r Next None show ?thesis by (simp add: frame_loop.simps [of fb])
    next
      case (Some f)
      with r Next 1(3) obtain fs1 where d: "buffer_drain fb1 = (fb', fs1, e)" "fs = f # fs1"
        by (auto simp: buffer_drain.simps [of fb] split: prod.splits)
      with 1(4) obtain x1 where x1: "handle_frame x f = (x1, None)" "handle_frames x1 fs1 = (x', None)"
        by (auto split: prod.splits option.splits)
      with 1(2) [OF r [symmetric] Next Some] d r Next Some show ?thesis
        by (simp add: frame_loop.simps [of fb])
    qed
  qed (use r 1(3,4) in \<open>auto simp: buffer_drain.simps [of fb] frame_loop.simps [of fb]\<close>)
qed

text \<open>Every DATA or HEADERS frame that leaves the buffer carries data.\<close>

lemma parse_body_data:
  assumes "parse_body f body = Inr g"
  shows "ftype g = ftype f" "ftype f = 0x0 \<or> ftype f = 0x01 \<Longrightarrow> fdata g \<noteq> None"
  using assms
  by (auto simp: parse_body_def parse_altsvc_def parse_data_def parse_goaway_def parse_headers_frame_def
      parse_priority_def parse_push_promise_def set_priority_def Let_def split: if_splits sum.splits prod.splits)

lemma buffer_round_data:
  assumes "buffer_round fb = (fb', Next (Some g))" "ftype g = 0x0 \<or> ftype g = 0x01"
  shows "fdata g \<noteq> None"
proof -
  from assms(1) obtain f body fb1 g' where g: "parse_body f body = Inr g'" "update_header_buffer fb1 g' = (fb', Inr (Some g))"
    by (auto simp: buffer_round_def Let_def split: if_splits sum.splits prod.splits)
  then have "g' = g" by (auto simp: update_header_buffer_def split: list.splits if_splits)
  with g parse_body_data [OF g(1)] assms(2) show ?thesis by auto
qed

lemma buffer_drain_data:
  "buffer_drain fb = (fb', fs, e) \<Longrightarrow> g \<in> set fs \<Longrightarrow> ftype g = 0x0 \<or> ftype g = 0x01 \<Longrightarrow> fdata g \<noteq> None"
proof (induction fb arbitrary: fs rule: buffer_drain.induct)
  case (1 fb)
  obtain fb1 res where r: "buffer_round fb = (fb1, res)" by fastforce
  show ?case
  proof (cases res)
    case (Next o')
    obtain fs1 where d: "buffer_drain fb1 = (fb', fs1, e)" "fs = (case o' of None \<Rightarrow> fs1 | Some f \<Rightarrow> f # fs1)"
      using 1(2) r Next by (auto simp: buffer_drain.simps [of fb] split: prod.splits)
    show ?thesis
      using 1(1) [OF r [symmetric] Next d(1)] 1(3,4) d(2) buffer_round_data [of fb fb1 g] r Next
      by (auto split: option.splits)
  qed (use r 1(2,3) in \<open>auto simp: buffer_drain.simps [of fb]\<close>)
qed

text \<open>A stream between two frames, and one read that holds whole frames.\<close>

definition idle :: "stream \<Rightarrow> bool" where
  "idle st \<longleftrightarrow> fb_data (st_buffer st) = [] \<and> headers_buffer (st_buffer st) = []"

lemma read_frames:
  assumes "idle st" "list_all wf_frame fs" "list_all deliverable fs"
  obtains fb gs where
    "buffer_drain ((fb_extend (st_buffer st) (concat (map wire fs)))\<lparr>max_frame_size := n\<rparr>) = (fb, gs, None)"
    "list_all2 same_frame gs fs" "fb_data fb = []" "headers_buffer fb = []"
    "\<forall>g \<in> set gs. ftype g = 0x0 \<or> ftype g = 0x01 \<longrightarrow> fdata g \<noteq> None"
proof -
  let ?fb = "(st_buffer st)\<lparr>max_frame_size := n\<rparr>"
  obtain bss gs where d: "map (snd \<circ> serialize) fs = map Inr bss"
    "buffer_drain (?fb\<lparr>fb_data := concat bss @ []\<rparr>) = (?fb\<lparr>fb_data := []\<rparr>, gs, None)" "list_all2 same_frame gs fs"
    using serialize_buffer_drain [OF assms(2,3), of ?fb "[]"] assms(1) by (auto simp: idle_def)
  have "?fb\<lparr>fb_data := concat bss @ []\<rparr> = (fb_extend (st_buffer st) (concat (map wire fs)))\<lparr>max_frame_size := n\<rparr>"
    using assms(1) map_projr [OF d(1)] by (simp add: fb_extend_def idle_def)
  with d(2) have "buffer_drain ((fb_extend (st_buffer st) (concat (map wire fs)))\<lparr>max_frame_size := n\<rparr>) =
      (?fb\<lparr>fb_data := []\<rparr>, gs, None)" by (simp only:)
  from that [OF this d(3)] buffer_drain_data [OF this] assms(1) show thesis by (simp add: idle_def)
qed

section \<open>Reads of DATA frames\<close>

definition data_of :: "frame \<Rightarrow> bytes" where
  "data_of f = the (fdata f)"

definition flow_length :: "frame \<Rightarrow> int" where
  "flow_length f = int (length (data_of f)) + (if PADDED \<in> flags f then pad_length f + 1 else 0)"

definition blank_event :: data_event where
  "blank_event = \<lparr>ev_data = None, ev_length = None\<rparr>"

definition data_event_of :: "frame \<Rightarrow> data_event" where
  "data_event_of f = \<lparr>ev_data = Some (data_of f), ev_length = Some (flow_length f)\<rparr>"

lemma data_frame_alike:
  assumes "same_frame g f" "ftype f = 0x0" "fdata g \<noteq> None"
  shows "ftype g = 0x0" "flow_controlled_length g = Inr (flow_length f)" "fdata g = Some (data_of f)" "flags g = flags f"
  using assms by (auto simp: same_frame_def frame_view_def flow_controlled_length_def flow_length_def data_of_def)

text \<open>The state after the DATA frames of one read: only the first event is ever filled.\<close>

definition consume_all :: "window_manager \<Rightarrow> frame list \<Rightarrow> window_manager" where
  "consume_all w fs = foldl (\<lambda>w f. window_consumed w (flow_length f)) w fs"

definition events_after :: "data_event list \<Rightarrow> frame list \<Rightarrow> data_event list" where
  "events_after evs fs = foldl (\<lambda>evs f. (evs @ [blank_event])[0 := data_event_of f]) evs fs"

lemma handle_data_frames:
  assumes "list_all2 same_frame gs fs" "\<forall>f \<in> set fs. ftype f = 0x0" "\<forall>g \<in> set gs. fdata g \<noteq> None"
  shows "handle_frames x gs =
    (x\<lparr>rx_frames := (if fs = [] then rx_frames x else Some []),
       rx_pipe := (rx_pipe x)\<lparr>p_inbound := consume_all (p_inbound (rx_pipe x)) fs\<rparr>,
       rx_stream := (rx_stream x)\<lparr>st_inbound := consume_all (st_inbound (rx_stream x)) fs\<rparr>,
       rx_done := (rx_done x \<or> (\<exists>f \<in> set fs. END_STREAM \<in> flags f)),
       rx_events := events_after (rx_events x) fs\<rparr>, None)"
  using assms
proof (induction gs fs arbitrary: x rule: list_all2_induct)
  case Nil
  then show ?case by (simp add: consume_all_def events_after_def)
next
  case (Cons g gs f fs)
  note g = data_frame_alike [of g f]
  let ?x = "x\<lparr>rx_frames := Some [],
       rx_pipe := (rx_pipe x)\<lparr>p_inbound := window_consumed (p_inbound (rx_pipe x)) (flow_length f)\<rparr>,
       rx_stream := (rx_stream x)\<lparr>st_inbound := window_consumed (st_inbound (rx_stream x)) (flow_length f)\<rparr>,
       rx_done := (rx_done x \<or> END_STREAM \<in> flags f),
       rx_events := (rx_events x @ [blank_event])[0 := data_event_of f]\<rparr>"
  have "handle_frame x g = (?x, None)"
    using g Cons.hyps(1) Cons.prems
    by (simp add: handle_frame_def dispatch_frame_def handle_data_def answer_frame_def Let_def blank_event_def data_event_of_def)
  with Cons.IH [of ?x] Cons.prems show ?case
    by (auto simp: consume_all_def events_after_def)
qed

lemma events_after_eq:
  "fs \<noteq> [] \<Longrightarrow> events_after [] fs = data_event_of (last fs) # replicate (length fs - 1) blank_event"
proof (induction fs rule: rev_induct)
  case (snoc f fs)
  then show ?case
    by (cases "fs = []") (auto simp: events_after_def replicate_append_same simp flip: replicate_Suc)
qed simp

lemma write_window_update_ok: "\<exists>bs. write_window_update_frame st (Some 0) n = Inr (stream_write st bs)"
proof -
  have m: "0 \<le> n AND 0x7FFFFFFF" "n AND 0x7FFFFFFF < 2 ^ 32"
    using pos_mod_bound [of "2147483648" n] by (simp_all add: less_trans [OF pos_mod_bound])
  obtain body where b: "pack_struct STRUCT_L [n AND 0x7FFFFFFF] = Inr body"
    using pack_struct_ok [of STRUCT_L "[n AND 0x7FFFFFFF]"] m by (auto simp: STRUCT_L_def)
  have l: "length body = 4" using pack_struct_length [OF b] by (simp add: STRUCT_L_def)
  obtain h where "pack_struct STRUCT_HBBBL [0, 4, 8, 0, 0] = Inr h"
    using pack_struct_ok [of STRUCT_HBBBL "[0, 4, 8, 0, 0]"] by (auto simp: STRUCT_HBBBL_def)
  with b l show ?thesis
    by (intro exI [of _ "h @ body"]) (simp add: write_window_update_frame_def Let_def drop_bit_eq_div)
qed

text \<open>The events give their lengths back to the connection window and their data to the body.\<close>

definition give_back :: "window_manager \<Rightarrow> data_event list \<Rightarrow> window_manager" where
  "give_back w evs = foldl (\<lambda>w ev. fst (process_bytes w (ev_length ev))) w evs"

definition event_body :: "data_event \<Rightarrow> bytes" where
  "event_body ev = (case ev_data ev of None \<Rightarrow> [] | Some d \<Rightarrow> d)"

lemma event_loop_ok:
  "\<exists>ws. event_loop p st body evs =
     ((p\<lparr>p_inbound := give_back (p_inbound p) evs\<rparr>, st\<lparr>written := written st @ ws\<rparr>, body @ concat (map event_body evs)), None)"
proof (induction evs arbitrary: p st body)
  case Nil
  then show ?case by (intro exI [of _ "[]"]) (simp add: give_back_def)
next
  case (Cons ev evs)
  obtain w inc where w: "process_bytes (p_inbound p) (ev_length ev) = (w, inc)" by fastforce
  obtain us where u: "(if inc = None \<or> inc = Some 0 then Inr st else write_window_update_frame st (Some 0) (the inc)) =
      (Inr (st\<lparr>written := written st @ us\<rparr>) :: stream res)"
  proof (cases "inc = None \<or> inc = Some 0")
    case True
    then show ?thesis by (intro that [of "[]"]) simp
  next
    case False
    obtain bs where "write_window_update_frame st (Some 0) (the inc) = Inr (stream_write st bs)"
      using write_window_update_ok by blast
    with False show ?thesis by (intro that [of "[bs]"]) (auto simp: stream_write_def)
  qed
  obtain ws where "event_loop (p\<lparr>p_inbound := w\<rparr>) (st\<lparr>written := written st @ us\<rparr>) (body @ event_body ev) evs =
      ((p\<lparr>p_inbound := give_back w evs\<rparr>, st\<lparr>written := written st @ us @ ws\<rparr>,
        body @ event_body ev @ concat (map event_body evs)), None)"
    using Cons.IH [of "p\<lparr>p_inbound := w\<rparr>" "st\<lparr>written := written st @ us\<rparr>" "body @ event_body ev"] by auto
  with w u show ?case
    by (intro exI [of _ "us @ ws"]) (simp add: Let_def give_back_def event_body_def [of ev])
qed

text \<open>
  One read that holds whole DATA frames: the body grows by the data of the last of them, the
  window loses the lengths of all and gets back what the filled event says.
\<close>

lemma receive_data_chunk:
  assumes "idle st" "list_all wf_frame fs" "list_all deliverable fs" "\<forall>f \<in> set fs. ftype f = 0x0" "fs \<noteq> []"
  obtains st' where "receive_chunk p st r (concat (map wire fs)) =
      ((p\<lparr>p_inbound := give_back (consume_all (p_inbound p) fs) (data_event_of (last fs) # replicate (length fs - 1) blank_event)\<rparr>,
        st', r\<lparr>resp_body := resp_body r @ data_of (last fs)\<rparr>),
       if \<exists>f \<in> set fs. END_STREAM \<in> flags f then Returned else Waiting)"
    "idle st'"
proof -
  obtain fb gs where d: "buffer_drain ((fb_extend (st_buffer st) (concat (map wire fs)))\<lparr>max_frame_size := max_outbound_frame_size st\<rparr>)
      = (fb, gs, None)" "list_all2 same_frame gs fs" "fb_data fb = []" "headers_buffer fb = []"
    "\<forall>g \<in> set gs. ftype g = 0x0 \<or> ftype g = 0x01 \<longrightarrow> fdata g \<noteq> None"
    by (rule read_frames [OF assms(1-3)])
  have "\<forall>g \<in> set gs. ftype g = 0x0"
    using d(2) assms(4) by (induction gs fs rule: list_all2_induct) (auto simp: same_frame_def)
  with d(5) have g: "\<forall>g \<in> set gs. fdata g \<noteq> None" by blast
  let ?x = "\<lparr>rx_pipe = p, rx_stream = st, rx_response = r, rx_done = False, rx_write_data = [], rx_frames = None, rx_events = []\<rparr>"
  note loop = frame_loop_drain [OF d(1) handle_data_frames [OF d(2) assms(4) g, of ?x]]
  let ?p = "p\<lparr>p_inbound := consume_all (p_inbound p) fs\<rparr>"
  let ?st = "st\<lparr>st_inbound := consume_all (st_inbound st) fs, st_buffer := fb\<rparr>"
  obtain ws where ev: "event_loop ?p ?st (resp_body r) (events_after [] fs) =
      ((?p\<lparr>p_inbound := give_back (p_inbound ?p) (events_after [] fs)\<rparr>, ?st\<lparr>written := written ?st @ ws\<rparr>,
        resp_body r @ concat (map event_body (events_after [] fs))), None)"
    using event_loop_ok by blast
  have "concat (map event_body (events_after [] fs)) = data_of (last fs)"
    unfolding events_after_eq [OF assms(5)] by (simp add: event_body_def data_event_of_def blank_event_def)
  then have "receive_chunk p st r (concat (map wire fs)) =
      ((p\<lparr>p_inbound := give_back (consume_all (p_inbound p) fs) (events_after [] fs)\<rparr>,
        ?st\<lparr>written := written ?st @ ws\<rparr>, r\<lparr>resp_body := resp_body r @ data_of (last fs)\<rparr>),
       if \<exists>f \<in> set fs. END_STREAM \<in> flags f then Returned else Waiting)"
    using loop ev by (simp add: receive_chunk_def)
  then show thesis unfolding events_after_eq [OF assms(5)]
    by (rule that) (simp add: idle_def d(3,4))
qed

lemma receive_one_data:
  assumes "idle st" "wf_frame f" "deliverable f" "ftype f = 0x0"
  obtains st' where "receive_chunk p st r (wire f) =
      ((p\<lparr>p_inbound := fst (receive_and_process (p_inbound p) (flow_length f))\<rparr>, st', r\<lparr>resp_body := resp_body r @ data_of f\<rparr>),
       if END_STREAM \<in> flags f then Returned else Waiting)" "idle st'"
  using receive_data_chunk [of st "[f]" p r] assms that
  by (auto simp: give_back_def consume_all_def receive_and_process_def data_event_of_def)

lemma receive_data_reads:
  assumes "idle st" "list_all wf_frame fs" "list_all deliverable fs" "\<forall>f \<in> set fs. ftype f = 0x0 \<and> END_STREAM \<notin> flags f"
  shows "\<exists>st'. receive_response p st r (map (Chunk \<circ> wire) fs @ reads) =
      receive_response (p\<lparr>p_inbound := foldl (\<lambda>w n. fst (receive_and_process w n)) (p_inbound p) (map flow_length fs)\<rparr>)
        st' (r\<lparr>resp_body := resp_body r @ concat (map data_of fs)\<rparr>) reads \<and> idle st'"
  using assms
proof (induction fs arbitrary: p st r)
  case (Cons f fs)
  let ?p = "p\<lparr>p_inbound := fst (receive_and_process (p_inbound p) (flow_length f))\<rparr>"
  let ?r = "r\<lparr>resp_body := resp_body r @ data_of f\<rparr>"
  obtain st1 where "receive_chunk p st r (wire f) = ((?p, st1, ?r), Waiting)" "idle st1"
    using receive_one_data [of st f p r] Cons.prems by auto
  with Cons.IH [of st1 ?p ?r] Cons.prems show ?case by auto
qed auto

section \<open>Properties of the receiving side\<close>

text \<open>C20: when every read delivers one DATA frame and the last of them ends the stream, receive_response
  returns, the body has grown by the data of all frames in order, paddings left out, and at
  least half of the connection window is open again.\<close>

theorem response_body_complete:
  assumes "idle st" "list_all wf_frame (fs @ [f])" "list_all deliverable (fs @ [f])" "\<forall>g \<in> set (fs @ [f]). ftype g = 0x0"
    "\<forall>g \<in> set fs. END_STREAM \<notin> flags g" "END_STREAM \<in> flags f" "balanced (p_inbound p)" "0 \<le> max_window_size (p_inbound p)"
  shows "\<exists>p' st'. receive_response p st r (map (Chunk \<circ> wire) (fs @ [f]) @ reads) =
      ((p', st', r\<lparr>resp_body := resp_body r @ concat (map data_of (fs @ [f]))\<rparr>), Returned) \<and>
    balanced (p_inbound p') \<and> max_window_size (p_inbound p) \<le> 2 * current_window_size (p_inbound p')"
proof -
  let ?w = "\<lambda>gs. foldl (\<lambda>w n. fst (receive_and_process w n)) (p_inbound p) (map flow_length gs)"
  obtain st1 where 1: "receive_response p st r (map (Chunk \<circ> wire) fs @ Chunk (wire f) # reads) =
      receive_response (p\<lparr>p_inbound := ?w fs\<rparr>) st1 (r\<lparr>resp_body := resp_body r @ concat (map data_of fs)\<rparr>) (Chunk (wire f) # reads)"
    "idle st1"
    using receive_data_reads [of st fs p r "Chunk (wire f) # reads"] assms by auto
  obtain st2 where 2: "receive_chunk (p\<lparr>p_inbound := ?w fs\<rparr>) st1 (r\<lparr>resp_body := resp_body r @ concat (map data_of fs)\<rparr>) (wire f) =
      ((p\<lparr>p_inbound := ?w (fs @ [f])\<rparr>, st2, r\<lparr>resp_body := resp_body r @ concat (map data_of (fs @ [f]))\<rparr>), Returned)"
    by (rule receive_one_data [OF 1(2), of f "p\<lparr>p_inbound := ?w fs\<rparr>" "r\<lparr>resp_body := resp_body r @ concat (map data_of fs)\<rparr>"])
      (use assms in auto)
  have "\<forall>n \<in> set (map flow_length (fs @ [f])). 0 \<le> n"
    using assms(2,4) by (auto simp: list_all_iff flow_length_def wf_frame_def wf_payload_def wf_padding_def fits_def split: if_splits)
  note w = wm.good_run [OF assms(7) this] wm.half_open_run [OF assms(7,8) this]
  show ?thesis using 1(1) 2 w by simp
qed

definition reply_frame :: "flag_name set \<Rightarrow> bytes \<Rightarrow> frame" where
  "reply_frame fl d = (Frame_init 1 0x0 fl 0 no_kwargs)\<lparr>fdata := Some d\<rparr>"

lemma reply_frame_simps [simp]:
  "ftype (reply_frame fl d) = 0" "flags (reply_frame fl d) = fl" "data_of (reply_frame fl d) = d"
  "pad_length (reply_frame fl d) = 0"
  by (simp_all add: reply_frame_def data_of_def Frame_init_def parse_flags_def frame_dispatch_def frame_defaults_def
      no_kwargs_def kw_get_def)

lemma reply_frame_ok:
  assumes "fl \<subseteq> {END_STREAM}" "length d < 2 ^ 24"
  shows "wf_frame (reply_frame fl d)" "deliverable (reply_frame fl d)"
proof -
  have "PADDED \<notin> fl" using assms(1) by auto
  with assms show "wf_frame (reply_frame fl d)" "deliverable (reply_frame fl d)"
    by (auto simp: reply_frame_def wf_frame_def wf_payload_def wf_padding_def fits_def deliverable_def
        type_flags_def Frame_init_def parse_flags_def frame_dispatch_def frame_defaults_def no_kwargs_def
        kw_get_def frame_types_def serialize_body_def padding_data_def data_bytes_def zero_bytes_def)
qed

lemma example_receiver: "idle example_stream" "balanced (p_inbound example_pipe)" "max_window_size (p_inbound example_pipe) = 65535"
  by (simp_all add: idle_def example_stream_def Stream_init_def FrameBuffer_init_def balanced_def
      example_pipe_def HTTP2Pipe_init_def client_settings_def Settings_init_def default_settings_def
      validate_setting_def setting_codes settings_del_def settings_get_def WindowManager_init_def)

theorem response_body_complete_witness:
  "\<exists>p' st'. receive_response example_pipe example_stream HTTP2Result_init
      (map (Chunk \<circ> wire) [reply_frame {} [1, 2], reply_frame {} [3], reply_frame {END_STREAM} [4]]) =
    ((p', st', HTTP2Result_init\<lparr>resp_body := [1, 2, 3, 4]\<rparr>), Returned)"
  using response_body_complete [of example_stream "[reply_frame {} [1, 2], reply_frame {} [3]]"
      "reply_frame {END_STREAM} [4]" example_pipe HTTP2Result_init "[]"] example_receiver
  by (auto simp: reply_frame_ok HTTP2Result_init_def)

text \<open>Giving back conserves room plus pending bytes while no more is pending than was used.\<close>

lemma process_bytes_conserves:
  assumes "window_inv w" "0 \<le> n" "bytes_processed w + n \<le> max_window_size w - current_window_size w"
  shows "window_inv (fst (process_bytes w (Some n)))"
    "current_window_size (fst (process_bytes w (Some n))) + bytes_processed (fst (process_bytes w (Some n))) =
       current_window_size w + bytes_processed w + n"
  using assms by (auto simp: window_inv_def process_bytes_def Let_def split: if_splits)

lemma process_bytes_blank: "process_bytes w None = process_bytes w (Some 0)"
  by (simp add: process_bytes_def)

lemma give_back_blank:
  "window_inv w \<Longrightarrow> window_inv (give_back w (replicate k blank_event)) \<and>
     current_window_size (give_back w (replicate k blank_event)) + bytes_processed (give_back w (replicate k blank_event)) =
       current_window_size w + bytes_processed w"
proof (induction k arbitrary: w)
  case (Suc k)
  have "window_inv (fst (process_bytes w None))"
    "current_window_size (fst (process_bytes w None)) + bytes_processed (fst (process_bytes w None)) =
       current_window_size w + bytes_processed w"
    using process_bytes_conserves [OF Suc.prems, of 0] Suc.prems unfolding process_bytes_blank by (simp_all add: window_inv_def)
  with Suc.IH [of "fst (process_bytes w None)"] show ?case by (simp add: give_back_def blank_event_def)
qed (simp add: give_back_def)

lemma consume_all_eq:
  "consume_all w fs = w\<lparr>current_window_size := current_window_size w - sum_list (map flow_length fs)\<rparr>"
  by (induction fs arbitrary: w) (simp_all add: consume_all_def window_consumed_def)

text \<open>When one read delivers several DATA frames, only the data of the last one reaches the body, and
  only its length is given back: the connection window stays smaller by the lengths of all
  the others.\<close>

theorem coalesced_data_lost:
  assumes "idle st" "list_all wf_frame (fs @ [f])" "list_all deliverable (fs @ [f])" "\<forall>g \<in> set (fs @ [f]). ftype g = 0x0"
    "END_STREAM \<in> flags f" "window_inv (p_inbound p)"
  shows "\<exists>p' st'. receive_response p st r (Chunk (concat (map wire (fs @ [f]))) # reads) =
      ((p', st', r\<lparr>resp_body := resp_body r @ data_of f\<rparr>), Returned) \<and>
    current_window_size (p_inbound p') + bytes_processed (p_inbound p') =
      current_window_size (p_inbound p) + bytes_processed (p_inbound p) - sum_list (map flow_length fs)"
proof -
  let ?w = "consume_all (p_inbound p) (fs @ [f])"
  obtain st' where r: "receive_chunk p st r (concat (map wire (fs @ [f]))) =
      ((p\<lparr>p_inbound := give_back ?w (data_event_of f # replicate (length fs) blank_event)\<rparr>, st',
        r\<lparr>resp_body := resp_body r @ data_of f\<rparr>), Returned)"
    by (rule receive_data_chunk [OF assms(1-4), of p r]) (use assms(5) in auto)
  have pos: "0 \<le> flow_length g" if "g \<in> set (fs @ [f])" for g
    using that assms(2,4) by (auto simp: list_all_iff flow_length_def wf_frame_def wf_payload_def wf_padding_def fits_def split: if_splits)
  then have "0 \<le> sum_list (map flow_length fs)" "0 \<le> flow_length f"
    by (auto intro!: sum_list_nonneg)
  moreover from this have inv: "window_inv ?w" using assms(6) by (simp add: window_inv_def consume_all_eq)
  ultimately have 1: "window_inv (fst (process_bytes ?w (Some (flow_length f))))"
    "current_window_size (fst (process_bytes ?w (Some (flow_length f)))) + bytes_processed (fst (process_bytes ?w (Some (flow_length f)))) =
      current_window_size ?w + bytes_processed ?w + flow_length f"
    using process_bytes_conserves [OF inv, of "flow_length f"] assms(6) by (simp_all add: consume_all_eq window_inv_def)
  have "give_back ?w (data_event_of f # replicate (length fs) blank_event) =
      give_back (fst (process_bytes ?w (Some (flow_length f)))) (replicate (length fs) blank_event)"
    by (simp add: give_back_def data_event_of_def)
  with give_back_blank [OF 1(1)] 1(2) r show ?thesis by (simp add: consume_all_eq)
qed

theorem coalesced_data_lost_witness:
  "\<exists>p' st'. receive_response example_pipe example_stream HTTP2Result_init
      [Chunk (concat (map wire [reply_frame {} [1, 2, 3], reply_frame {END_STREAM} [4]]))] =
    ((p', st', HTTP2Result_init\<lparr>resp_body := [4]\<rparr>), Returned) \<and>
    current_window_size (p_inbound p') + bytes_processed (p_inbound p') = 65532"
  using coalesced_data_lost [of example_stream "[reply_frame {} [1, 2, 3]]" "reply_frame {END_STREAM} [4]" example_pipe
      HTTP2Result_init "[]"] example_receiver
  by (auto simp: reply_frame_ok HTTP2Result_init_def window_inv_def balanced_def flow_length_def)

section \<open>SETTINGS and WINDOW_UPDATE\<close>

lemma acknowledge_settled: "distinct (map fst s) \<Longrightarrow> settled s \<Longrightarrow> settings_acknowledge s = (s, [])"
proof (induction s rule: settings_acknowledge.induct)
  case (2 k v rest)
  have "settled rest" unfolding settled_def
  proof (intro allI impI)
    fix j vs assume "map_of rest j = Some vs"
    moreover from this 2(2) have "j \<noteq> k" by (force dest: map_of_SomeD)
    ultimately have "map_of ((k, v) # rest) j = Some vs" by simp
    with 2(3) show "length vs = 1" unfolding settled_def by blast
  qed
  moreover have "map_of ((k, v) # rest) k = Some v" by simp
  with 2(3) have "length v = 1" unfolding settled_def by blast
  ultimately show ?case using 2 by (auto simp: length_Suc_conv)
qed simp

definition settings_at_rest :: "pipe \<Rightarrow> bool" where
  "settings_at_rest p \<longleftrightarrow> distinct (map fst (local_settings p)) \<and> settled (local_settings p) \<and>
     distinct (map fst (remote_settings p)) \<and> settled (remote_settings p)"

lemma ack_frame_ok: "wf_frame ack_frame" "deliverable ack_frame" "ftype ack_frame = 0x04" "settings ack_frame = []" "ACK \<in> flags ack_frame"
  by (simp_all add: ack_frame_def wf_frame_def wf_payload_def fits_def deliverable_def Let_def
      type_flags_def Frame_init_def parse_flags_def frame_dispatch_def frame_defaults_def no_kwargs_def
      kw_get_def frame_types_def serialize_body_def)

lemma ack_serialize: "snd (serialize ack_frame) = Inr (wire ack_frame)"
  using serialize_ok [OF ack_frame_ok(1,2)] by (auto simp: wire_def)

lemma settings_frame_alike: "same_frame g f \<Longrightarrow> ftype f = 0x04 \<Longrightarrow> ftype g = 0x04 \<and> settings g = settings f"
  unfolding same_frame_def by (elim conjE) (simp add: frame_view_def)

lemma handle_empty_settings:
  assumes "ftype g = 0x04" "settings g = []" "settings_at_rest (rx_pipe x)"
  shows "handle_frame x g =
    (x\<lparr>rx_frames := Some [ack_frame], rx_write_data := rx_write_data x @ wire ack_frame,
       rx_stream := stream_write (rx_stream x) (rx_write_data x @ wire ack_frame)\<rparr>, None)"
  using assms
  by (simp add: handle_frame_def dispatch_frame_def handle_settings_def settings_acked_def settings_received_def
      local_window_change_def changed_or_def remote_window_change_def remote_table_change_def settings_at_rest_def
      acknowledge_settled answer_frame_def ack_serialize Let_def)

text \<open>The writes that answer \<open>n\<close> frames when \<open>acc\<close> is already in \<open>write_data\<close>.\<close>

fun piled_acks :: "nat \<Rightarrow> bytes \<Rightarrow> bytes list" where
  "piled_acks 0 acc = []"
| "piled_acks (Suc n) acc = (acc @ wire ack_frame) # piled_acks n (acc @ wire ack_frame)"

lemma handle_settings_frames:
  assumes "\<forall>g \<in> set gs. ftype g = 0x04 \<and> settings g = []" "settings_at_rest (rx_pipe x)"
  shows "\<exists>wd fr. handle_frames x gs =
    (x\<lparr>rx_frames := fr, rx_write_data := wd,
       rx_stream := (rx_stream x)\<lparr>written := written (rx_stream x) @ piled_acks (length gs) (rx_write_data x)\<rparr>\<rparr>, None)"
  using assms
proof (induction gs arbitrary: x)
  case Nil
  then show ?case by (intro exI [of _ "rx_write_data x"] exI [of _ "rx_frames x"]) simp
next
  case (Cons g gs)
  let ?x = "x\<lparr>rx_frames := Some [ack_frame], rx_write_data := rx_write_data x @ wire ack_frame,
       rx_stream := stream_write (rx_stream x) (rx_write_data x @ wire ack_frame)\<rparr>"
  have "handle_frame x g = (?x, None)" using handle_empty_settings [of g x] Cons.prems by simp
  with Cons.IH [of ?x] Cons.prems show ?case by (auto simp: stream_write_def)
qed

lemma piled_acks_eq: "piled_acks n acc = map (\<lambda>i. acc @ concat (replicate (Suc i) (wire ack_frame))) [0..<n]"
proof (induction n arbitrary: acc)
  case (Suc n)
  have "[0..<Suc n] = 0 # map Suc [0..<n]" by (simp only: map_Suc_upt upt_conv_Cons [OF zero_less_Suc])
  with Suc [of "acc @ wire ack_frame"] show ?case by simp
qed simp

text \<open>Every empty SETTINGS frame is answered with an acknowledgement, also one that is itself an
  acknowledgement; and because write_data is kept between the frames of a read, the n-th
  frame of a read is answered with n acknowledgements.\<close>

theorem settings_acks_pile_up:
  assumes "idle st" "settings_at_rest p" "list_all wf_frame fs" "list_all deliverable fs"
    "\<forall>f \<in> set fs. ftype f = 0x04 \<and> settings f = []"
  shows "\<exists>st'. receive_response p st r [Chunk (concat (map wire fs))] = ((p, st', r), Waiting) \<and>
    written st' = written st @ map (\<lambda>i. concat (replicate (Suc i) (wire ack_frame))) [0..<length fs]"
proof -
  obtain fb gs where d: "buffer_drain ((fb_extend (st_buffer st) (concat (map wire fs)))\<lparr>max_frame_size := max_outbound_frame_size st\<rparr>)
      = (fb, gs, None)" "list_all2 same_frame gs fs"
    by (rule read_frames [OF assms(1,3,4)])
  have g: "\<forall>g \<in> set gs. ftype g = 0x04 \<and> settings g = []"
    using d(2) assms(5) by (induction gs fs rule: list_all2_induct) (auto simp: settings_frame_alike)
  let ?x = "\<lparr>rx_pipe = p, rx_stream = st, rx_response = r, rx_done = False, rx_write_data = [], rx_frames = None, rx_events = []\<rparr>"
  have "settings_at_rest (rx_pipe ?x)" using assms(2) by simp
  from handle_settings_frames [OF g this] obtain wd fr where "handle_frames ?x gs = (?x\<lparr>rx_frames := fr, rx_write_data := wd,
       rx_stream := (rx_stream ?x)\<lparr>written := written (rx_stream ?x) @ piled_acks (length gs) (rx_write_data ?x)\<rparr>\<rparr>, None)"
    by (elim exE)
  from frame_loop_drain [OF d(1) this] show ?thesis
    using list_all2_lengthD [OF d(2)] by (simp add: receive_chunk_def Let_def piled_acks_eq)
qed

lemma example_at_rest: "settings_at_rest example_pipe"
  by (simp add: settings_at_rest_def settled_def example_pipe_def HTTP2Pipe_init_def client_settings_def Settings_init_def
      default_settings_def validate_setting_def setting_codes settings_del_def settings_get_def)

theorem settings_acks_pile_up_witness:
  "\<exists>st'. receive_response example_pipe example_stream HTTP2Result_init [Chunk (wire ack_frame @ wire ack_frame)] =
      ((example_pipe, st', HTTP2Result_init), Waiting) \<and>
    written st' = [wire ack_frame, wire ack_frame @ wire ack_frame]"
  using settings_acks_pile_up [OF example_receiver(1) example_at_rest, of "[ack_frame, ack_frame]" HTTP2Result_init]
  by (simp add: ack_frame_ok example_stream_def Stream_init_def)

text \<open>The send window a WINDOW_UPDATE leaves behind is the largest window minus the current one,
  whatever the increment; in particular a second update restores the window before the first.\<close>

theorem window_update_ignores_increment:
  assumes "ftype f = 0x08" "pipe_ok (rx_pipe x)" "outbound_flow_control_window (rx_pipe x) + window_increment f \<le> LARGEST_FLOW_CONTROL_WINDOW"
  shows "\<exists>x'. handle_frame x f = (x', None) \<and>
    outbound_flow_control_window (rx_pipe x') = LARGEST_FLOW_CONTROL_WINDOW - outbound_flow_control_window (rx_pipe x) \<and>
    (outbound_flow_control_window (rx_pipe x') + window_increment f \<le> LARGEST_FLOW_CONTROL_WINDOW \<longrightarrow>
      (\<exists>x''. handle_frame x' f = (x'', None) \<and>
        outbound_flow_control_window (rx_pipe x'') = outbound_flow_control_window (rx_pipe x)))"
  using assms
  by (auto simp: handle_frame_def dispatch_frame_def handle_window_update_def guard_increment_window_def Let_def answer_frame_def)

definition example_rx :: rx where
  "example_rx = \<lparr>rx_pipe = example_pipe, rx_stream = example_stream, rx_response = HTTP2Result_init, rx_done = False,
     rx_write_data = [], rx_frames = None, rx_events = []\<rparr>"

theorem window_update_ignores_increment_witness:
  "\<exists>x'. handle_frame example_rx (Frame_init 0 0x08 {} 0 (no_kwargs\<lparr>kw_window_increment := Some 100\<rparr>)) = (x', None) \<and>
    outbound_flow_control_window (rx_pipe x') = 2147418112"
proof -
  let ?f = "Frame_init 0 0x08 {} 0 (no_kwargs\<lparr>kw_window_increment := Some 100\<rparr>)"
  have "ftype ?f = 0x08" "window_increment ?f = 100"
    by (simp_all add: Frame_init_def parse_flags_def frame_dispatch_def frame_defaults_def no_kwargs_def kw_get_def)
  then show ?thesis
    using window_update_ignores_increment [of ?f example_rx] example_pipe_simps
    by (auto simp: example_rx_def LARGEST_FLOW_CONTROL_WINDOW_def)
qed

section \<open>End of file\<close>

lemma frame_loop_short: "length (fb_data fb) < 9 \<Longrightarrow> frame_loop fb x = (fb, x, None)"
  by (subst frame_loop.simps) (simp add: buffer_round_def)

text \<open>At the end of the connection reader.read returns b'' again and again; receive_response
  then never returns: after any number of such reads it is waiting, with nothing changed but
  the frame size of its buffer.\<close>

theorem eof_never_returns:
  assumes "idle st"
  shows "\<exists>n'. receive_response p st r (replicate n (Chunk [])) =
    ((p, st\<lparr>st_buffer := (st_buffer st)\<lparr>max_frame_size := n'\<rparr>\<rparr>, r), Waiting)"
  using assms
proof (induction n arbitrary: st)
  case 0
  show ?case by (intro exI [of _ "max_frame_size (st_buffer st)"]) simp
next
  case (Suc n)
  let ?st = "st\<lparr>st_buffer := (st_buffer st)\<lparr>max_frame_size := max_outbound_frame_size st\<rparr>\<rparr>"
  have "receive_chunk p st r [] = ((p, ?st, r), Waiting)"
    using Suc.prems
    by (simp add: receive_chunk_def fb_extend_def idle_def frame_loop_short Let_def)
  moreover have "idle ?st" using Suc.prems by (simp add: idle_def)
  ultimately show ?case using Suc.IH [of ?st] by auto
qed

theorem eof_never_returns_witness:
  "snd (receive_response example_pipe example_stream HTTP2Result_init (replicate 100 (Chunk []))) = Waiting"
proof -
  obtain n' where "receive_response example_pipe example_stream HTTP2Result_init (replicate 100 (Chunk [])) =
    ((example_pipe, example_stream\<lparr>st_buffer := (st_buffer example_stream)\<lparr>max_frame_size := n'\<rparr>\<rparr>, HTTP2Result_init), Waiting)"
    using eof_never_returns [OF example_receiver(1), of example_pipe HTTP2Result_init 100] by blast
  then show ?thesis by (simp only: snd_conv)
qed

end
