(* ===== verification/Http2_Result.thy ===== *)
theory Http2_Result
  imports Http2_Response
begin

text \<open>
  \<open>HTTP2Result\<close> of \<open>http2/result.py\<close>: the lazy properties that parse the deferred headers on
  first use (\<open>headers\<close>, \<open>status\<close>, \<open>size\<close>, \<open>content_type\<close>, \<open>compression\<close>, \<open>version\<close>,
  \<open>reason\<close>). The dictionary they share has \<open>bytes\<close> keys from the decoded block and the key
  \<open>'status'\<close>, a \<open>str\<close>, which \<open>_parse_headers\<close> adds. The raw block is a slice of the frame
  buffer's \<open>bytearray\<close>, so it is parsed as writable.
\<close>

section \<open>State\<close>

datatype header_key = BytesKey bytes | StrKey string

datatype header_value = BufValue buf | StatusValue "int option"

type_synonym header_map = "(header_key \<times> header_value) list"

record h2_result =
  res_response :: response
  res_headers :: header_map
  res_content_type :: "header_value option"
  res_compression :: "header_value option"
  res_version :: "header_value option"
  res_reason :: "header_value option"
  res_size :: "int option"
  res_decoder :: dec_state

definition result_of :: "response \<Rightarrow> dec_state \<Rightarrow> h2_result" where
  "result_of r d =
     \<lparr>res_response = r, res_headers = [], res_content_type = None, res_compression = None, res_version = None,
      res_reason = None, res_size = None, res_decoder = d\<rparr>"

section \<open>Parsing on demand\<close>

text \<open>\<open>DeferredHeaders.parse\<close> of a block that may be missing, which \<open>decode\<close> rejects.\<close>

definition parse_block :: "nat \<Rightarrow> dec_state \<Rightarrow> bytes option \<Rightarrow> dec_state \<times> (int option \<times> headers_dict) res" where
  "parse_block self d block =
     (case block of
        Some bs \<Rightarrow> parse_deferred self d True bs
      | None \<Rightarrow>
          (case set_maxsize (dec_table d) (maxsize (dec_table d)) of
             (t, Some err) \<Rightarrow> (d\<lparr>dec_table := t\<rparr>, Inl err)
           | (t, None) \<Rightarrow> (d\<lparr>dec_table := t\<rparr>, Inr (Some 400, []))))"

definition result_parse_headers :: "nat \<Rightarrow> h2_result \<Rightarrow> h2_result \<times> header_map" where
  "result_parse_headers self v =
     (case resp_deferred (res_response v) of
        None \<Rightarrow> (v, [])
      | Some dh \<Rightarrow>
          (case parse_block self (res_decoder v) (dh_raw dh) of
             (d, Inl _) \<Rightarrow> (v\<lparr>res_decoder := d\<rparr>, [])
           | (d, Inr (status, decoded)) \<Rightarrow>
               (v\<lparr>res_decoder := d\<rparr>,
                map (\<lambda>(k, b). (BytesKey k, BufValue b)) decoded @ [(StrKey ''status'', StatusValue status)])))"

text \<open>Reading \<open>self.headers\<close>, and assigning it a fresh parse.\<close>

definition read_headers :: "nat \<Rightarrow> h2_result \<Rightarrow> h2_result" where
  "read_headers self v =
     (if res_headers v = []
      then (case result_parse_headers self v of (v, h) \<Rightarrow> v\<lparr>res_headers := h\<rparr>)
      else v)"

definition reparse :: "nat \<Rightarrow> h2_result \<Rightarrow> h2_result" where
  "reparse self v = (case result_parse_headers self v of (v, h) \<Rightarrow> v\<lparr>res_headers := h\<rparr>)"

text \<open>The guard the properties share: no headers although there is a block to parse.\<close>

definition must_parse :: "h2_result \<Rightarrow> bool" where
  "must_parse v \<longleftrightarrow> res_headers v = [] \<and> resp_deferred (res_response v) \<noteq> None"

definition header_get :: "h2_result \<Rightarrow> string \<Rightarrow> header_value option" where
  "header_get v name = map_of (res_headers v) (BytesKey (b_lit name))"

definition value_int :: "header_value \<Rightarrow> int res" where
  "value_int x = (case x of BufValue b \<Rightarrow> py_int (raw b) | StatusValue (Some n) \<Rightarrow> Inr n | StatusValue None \<Rightarrow> Inl TypeError)"

definition result_status :: "nat \<Rightarrow> h2_result \<Rightarrow> h2_result \<times> int option res" where
  "result_status self v =
     (if resp_status (res_response v) \<noteq> None then (v, Inr (resp_status (res_response v)))
      else
        (let v = read_headers self v
         in if must_parse v
            then (let v = read_headers self (reparse self v)
                  in case (case header_get v ''status'' of None \<Rightarrow> Inr 400 | Some x \<Rightarrow> value_int x) of
                       Inl err \<Rightarrow> (v, Inl err)
                     | Inr n \<Rightarrow> (v\<lparr>res_response := (res_response v)\<lparr>resp_status := Some n\<rparr>\<rparr>, Inr (Some n)))
            else (v, Inr None)))"

definition content_type :: "nat \<Rightarrow> h2_result \<Rightarrow> h2_result \<times> header_value option" where
  "content_type self v =
     (let v = read_headers self v;
          v = (if must_parse v
               then (let v = read_headers self (reparse self v) in v\<lparr>res_content_type := header_get v ''content-type''\<rparr>)
               else v)
      in (v, res_content_type v))"

definition compression :: "nat \<Rightarrow> h2_result \<Rightarrow> h2_result \<times> header_value option" where
  "compression self v =
     (let v = read_headers self v;
          v = (if must_parse v
               then (let v = read_headers self (reparse self v) in v\<lparr>res_compression := header_get v ''content-encoding''\<rparr>)
               else v)
      in (v, res_compression v))"

definition version :: "nat \<Rightarrow> h2_result \<Rightarrow> h2_result \<times> header_value option" where
  "version self v =
     (let v = read_headers self v;
          v = (if must_parse v
               then (let v = read_headers self (reparse self v) in v\<lparr>res_version := header_get v ''version''\<rparr>)
               else v)
      in (v, res_version v))"

definition reason :: "nat \<Rightarrow> h2_result \<Rightarrow> h2_result \<times> header_value option" where
  "reason self v =
     (let v = read_headers self v;
          v = (if must_parse v
               then (let v = read_headers self (reparse self v) in v\<lparr>res_reason := header_get v ''reason''\<rparr>)
               else v)
      in (v, res_reason v))"

text \<open>\<open>if content_length\<close>: an empty buffer is false. A decoded value is never the status.\<close>

definition truthy_value :: "header_value option \<Rightarrow> bool" where
  "truthy_value x =
     (case x of None \<Rightarrow> False | Some (BufValue b) \<Rightarrow> raw b \<noteq> [] | Some (StatusValue s) \<Rightarrow> s \<noteq> None \<and> s \<noteq> Some 0)"

definition result_size :: "nat \<Rightarrow> h2_result \<Rightarrow> h2_result \<times> int option res" where
  "result_size self v =
     (let v = read_headers self v
      in if must_parse v
         then (let v = read_headers self (reparse self v);
                   content_length = header_get v ''content-length''
               in if truthy_value content_length
                  then (case value_int (the content_length) of
                          Inl err \<Rightarrow> (v, Inl err)
                        | Inr n \<Rightarrow> (v\<lparr>res_size := Some n\<rparr>, Inr (Some n)))
                  else (let n = int (length (resp_body (res_response v))) in (v\<lparr>res_size := Some n\<rparr>, Inr (Some n))))
         else (v, Inr (res_size v)))"

section \<open>Once the headers have been parsed\<close>

text \<open>A parse that succeeds leaves at least the key \<open>'status'\<close>, so the guard is never true again.\<close>

lemma parse_succeeds:
  assumes "ht_inv (dec_table (res_decoder v))" "resp_deferred (res_response v) = Some dh" "dh_raw dh = Some block" "block \<noteq> []"
  obtains d where "result_parse_headers self v = (v\<lparr>res_decoder := d\<rparr>, [(StrKey ''status'', StatusValue (Some 400))])"
    "ht_inv (dec_table d)"
proof -
  let ?d = "res_decoder v"
  obtain t where t: "set_maxsize (dec_table ?d) (maxsize (dec_table ?d)) = (t, None)" "ht_inv t"
    using set_maxsize_same [OF assms(1)] by blast
  obtain err where "dec_decode self (?d\<lparr>dec_table := t\<rparr>) True block = (?d\<lparr>dec_table := t\<rparr>, Inl err)"
    using dec_decode_writable [OF assms(4)] by blast
  with t assms(2,3) have "result_parse_headers self v = (v\<lparr>res_decoder := ?d\<lparr>dec_table := t\<rparr>\<rparr>, [(StrKey ''status'', StatusValue (Some 400))])"
    by (simp add: result_parse_headers_def parse_block_def parse_deferred_def)
  then show ?thesis by (rule that) (simp add: t(2))
qed

lemma read_headers_parsed:
  assumes "ht_inv (dec_table (res_decoder v))" "resp_deferred (res_response v) = Some dh" "dh_raw dh = Some block" "block \<noteq> []"
    "res_headers v = []"
  obtains d where "read_headers self v = v\<lparr>res_decoder := d, res_headers := [(StrKey ''status'', StatusValue (Some 400))]\<rparr>"
proof -
  obtain d where "result_parse_headers self v = (v\<lparr>res_decoder := d\<rparr>, [(StrKey ''status'', StatusValue (Some 400))])"
    by (rule parse_succeeds [OF assms(1-4)])
  with assms(5) show ?thesis by (intro that [of d]) (simp add: read_headers_def)
qed

lemmas result_properties = result_status_def result_size_def content_type_def compression_def version_def reason_def

section \<open>A response over the wire\<close>

lemma headers_frame_alike:
  assumes "same_frame g f" "ftype f = 0x01" "fdata g \<noteq> None"
  shows "ftype g = 0x01" "fdata g = Some (data_of f)" "flags g = flags f" "stream_id g = stream_id f"
  using assms by (auto simp: same_frame_def frame_view_def data_of_def)

lemma receive_headers:
  assumes "idle st" "wf_frame f" "deliverable f" "ftype f = 0x01" "END_STREAM \<in> flags f"
  obtains st' dh where "receive_response p st r (Chunk (wire f) # reads) = ((p, st', r\<lparr>resp_deferred := Some dh\<rparr>), Returned)"
    "dh_raw dh = Some (data_of f)" "dh_stream_id dh = stream_id f" "dh_end_stream dh"
proof -
  obtain fb gs where d: "buffer_drain ((fb_extend (st_buffer st) (concat (map wire [f])))\<lparr>max_frame_size := max_outbound_frame_size st\<rparr>)
      = (fb, gs, None)" "list_all2 same_frame gs [f]" "\<forall>g \<in> set gs. ftype g = 0x0 \<or> ftype g = 0x01 \<longrightarrow> fdata g \<noteq> None"
    by (rule read_frames [of st "[f]"]) (use assms in simp_all)
  then obtain g where g: "gs = [g]" "same_frame g f" by (auto simp: list_all2_Cons2)
  have "ftype g = 0x01" using g(2) assms(4) by (simp add: same_frame_def)
  with g(1) d(3) have "fdata g \<noteq> None" by simp
  note g' = headers_frame_alike [OF g(2) assms(4) this]
  let ?x = "\<lparr>rx_pipe = p, rx_stream = st, rx_response = r, rx_done = False, rx_write_data = [], rx_frames = None, rx_events = []\<rparr>"
  have "handle_frames ?x gs = (?x\<lparr>rx_done := True, rx_frames := Some [],
      rx_response := r\<lparr>resp_deferred := Some (DeferredHeaders_init g)\<rparr>\<rparr>, None)"
    using g' g(1) assms(5)
    by (simp add: handle_frame_def dispatch_frame_def handle_headers_def DeferredHeaders_init_def answer_frame_def Let_def)
  from frame_loop_drain [OF d(1) this]
  have "receive_response p st r (Chunk (wire f) # reads) =
      ((p, st\<lparr>st_buffer := fb\<rparr>, r\<lparr>resp_deferred := Some (DeferredHeaders_init g)\<rparr>), Returned)"
    by (simp add: receive_chunk_def Let_def)
  then show ?thesis by (rule that) (use g' assms(5) in \<open>simp_all add: DeferredHeaders_init_def\<close>)
qed

text \<open>The status of a response is never reported: when a HEADERS frame with a nonempty block ends the
  stream, receive_response returns, and then status, size and content_type are all
  None, whatever the block says.\<close>

theorem response_status_lost:
  assumes "idle st" "wf_frame f" "deliverable f" "ftype f = 0x01" "END_STREAM \<in> flags f" "data_of f \<noteq> []"
    "resp_status r = None" "ht_inv (dec_table d)"
  shows "\<exists>p' st' r'. receive_response p st r (Chunk (wire f) # reads) = ((p', st', r'), Returned) \<and>
    snd (result_status self (result_of r' d)) = Inr None \<and> snd (result_size self (result_of r' d)) = Inr None \<and>
    snd (content_type self (result_of r' d)) = None"
proof -
  obtain st' dh where r: "receive_response p st r (Chunk (wire f) # reads) = ((p, st', r\<lparr>resp_deferred := Some dh\<rparr>), Returned)"
    "dh_raw dh = Some (data_of f)"
    by (rule receive_headers [OF assms(1-5)])
  let ?v = "result_of (r\<lparr>resp_deferred := Some dh\<rparr>) d"
  have "ht_inv (dec_table (res_decoder ?v))" "resp_deferred (res_response ?v) = Some dh" "res_headers ?v = []"
    using assms(8) by (simp_all add: result_of_def)
  from read_headers_parsed [OF this(1,2) r(2) assms(6) this(3), of self] obtain d'
    where "read_headers self ?v = ?v\<lparr>res_decoder := d', res_headers := [(StrKey ''status'', StatusValue (Some 400))]\<rparr>" by blast
  then have "snd (result_status self ?v) = Inr None" "snd (result_size self ?v) = Inr None" "snd (content_type self ?v) = None"
    using assms(7) by (simp_all add: result_properties must_parse_def Let_def result_of_def)
  with r(1) show ?thesis by blast
qed

definition reply_headers :: "bytes \<Rightarrow> frame" where
  "reply_headers block = Frame_init 1 0x01 {END_HEADERS, END_STREAM} 0 (no_kwargs\<lparr>kw_data := Some block\<rparr>)"

lemma reply_headers_ok:
  assumes "length block < 2 ^ 24"
  shows "wf_frame (reply_headers block)" "deliverable (reply_headers block)" "ftype (reply_headers block) = 0x01"
    "END_STREAM \<in> flags (reply_headers block)" "data_of (reply_headers block) = block"
  using assms
  by (simp_all add: reply_headers_def data_of_def wf_frame_def wf_payload_def wf_padding_def fits_def deliverable_def
      type_flags_def Frame_init_def parse_flags_def frame_dispatch_def frame_defaults_def no_kwargs_def
      kw_get_def frame_types_def serialize_body_def padding_data_def data_bytes_def zero_bytes_def)

theorem response_status_lost_witness:
  "\<exists>p' st' r'. receive_response example_pipe example_stream HTTP2Result_init [Chunk (wire (reply_headers [0x88]))] =
      ((p', st', r'), Returned) \<and> snd (result_status 0 (result_of r' fresh_decoder)) = Inr None"
  using response_status_lost [OF example_receiver(1), of "reply_headers [0x88]" HTTP2Result_init fresh_decoder example_pipe "[]" 0]
  by (auto simp: reply_headers_ok HTTP2Result_init_def fresh_decoder_def)

end
