(* ===== verification/Snowflake_Ids.thy ===== *)
theory Snowflake_Ids
  imports Py_Prelude
begin

unbundle bit_operations_syntax

text \<open>
  Snowflake ids of \<open>distributed/snowflake\<close>: the fields of an id (\<open>Snowflake\<close>) and the
  generator (\<open>SnowflakeGenerator\<close>). The clock reading \<open>int(time() * 1000)\<close> of a call is an
  argument. The locale at the end states what a user of ids relies on.
\<close>

definition MAX_INSTANCE :: int where "MAX_INSTANCE = 0b1111111111"
definition MAX_SEQ :: int where "MAX_SEQ = 0b111111111111"

record snowflake =
  sf_timestamp :: int
  sf_instance :: int
  sf_epoch :: int
  sf_seq :: int

definition snowflake_parse :: "int \<Rightarrow> int \<Rightarrow> snowflake" where
  "snowflake_parse n epoch =
     \<lparr>sf_timestamp = drop_bit 22 n, sf_instance = drop_bit 12 n AND MAX_INSTANCE, sf_epoch = epoch,
      sf_seq = n AND MAX_SEQ\<rparr>"

definition snowflake_value :: "snowflake \<Rightarrow> int" where
  "snowflake_value s = push_bit 22 (sf_timestamp s) OR push_bit 12 (sf_instance s) OR sf_seq s"

definition snowflake_milliseconds :: "snowflake \<Rightarrow> int" where
  "snowflake_milliseconds s = sf_timestamp s + sf_epoch s"

record generator =
  gen_ts :: int
  gen_inf :: int
  gen_seq :: int

text \<open>\<open>timestamp or current\<close>: a missing or zero timestamp is replaced by the clock.\<close>

definition SnowflakeGenerator_init :: "int \<Rightarrow> int \<Rightarrow> int option \<Rightarrow> int \<Rightarrow> generator" where
  "SnowflakeGenerator_init instance_id seq timestamp current =
     \<lparr>gen_ts = (case timestamp of None \<Rightarrow> current | Some t \<Rightarrow> if t = 0 then current else t),
      gen_inf = push_bit 12 instance_id, gen_seq = seq\<rparr>"

definition generate :: "generator \<Rightarrow> int \<Rightarrow> generator \<times> int option" where
  "generate g current =
     (if gen_ts g = current
      then (if gen_seq g = MAX_SEQ then (g, None)
            else (let g = g\<lparr>gen_seq := gen_seq g + 1, gen_ts := current\<rparr>
                  in (g, Some (push_bit 22 (gen_ts g) OR gen_inf g OR gen_seq g))))
      else if gen_ts g > current then (g, None)
      else (let g = g\<lparr>gen_seq := 0, gen_ts := current\<rparr>
            in (g, Some (push_bit 22 (gen_ts g) OR gen_inf g OR gen_seq g))))"

section \<open>Bit fields\<close>

lemma or_fields:
  assumes "0 \<le> (b :: int)" "b < 2 ^ n"
  shows "push_bit n a OR b = a * 2 ^ n + b"
proof -
  have "push_bit n a AND b = 0"
  proof (rule bit_eqI)
    fix i
    show "bit (push_bit n a AND b) i \<longleftrightarrow> bit 0 i"
    proof (cases "i < n")
      case False
      have "take_bit n b = b" using assms by (simp add: take_bit_int_eq_self)
      with False have "\<not> bit b i" by (metis bit_take_bit_iff)
      then show ?thesis by (simp add: bit_and_iff)
    qed (simp add: bit_and_iff bit_push_bit_iff)
  qed
  then have "push_bit n a OR b = push_bit n a + b"
    by (simp add: disjunctive_add_eq_or)
  then show ?thesis by (simp add: push_bit_eq_mult)
qed

definition id_fields_ok :: "int \<Rightarrow> int \<Rightarrow> bool" where
  "id_fields_ok i q \<longleftrightarrow> 0 \<le> i \<and> i < 1024 \<and> 0 \<le> q \<and> q < 4096"

lemma id_value:
  assumes "id_fields_ok i q"
  shows "push_bit 22 t OR push_bit 12 i OR q = t * 4194304 + i * 4096 + q"
proof -
  have 1: "push_bit 12 i OR q = i * 4096 + q" using or_fields [of q 12 i] assms by (simp add: id_fields_ok_def)
  moreover have "0 \<le> i * 4096 + q" "i * 4096 + q < 2 ^ 22" using assms by (auto simp: id_fields_ok_def)
  ultimately show ?thesis using or_fields [of "i * 4096 + q" 22 t] by (simp add: or.assoc)
qed

lemma masks: "n AND MAX_SEQ = n mod 4096" "n AND MAX_INSTANCE = n mod 1024"
  using take_bit_eq_mask [of 12 n] take_bit_eq_mask [of 10 n]
  by (simp_all add: MAX_SEQ_def MAX_INSTANCE_def take_bit_eq_mod mask_eq_exp_minus_1)

lemma field_div_mod:
  assumes "0 \<le> (r :: int)" "r < k"
  shows "(a * k + r) div k = a" "(a * k + r) mod k = r"
  using assms by simp_all

lemma parse_id:
  assumes "id_fields_ok i q"
  shows "snowflake_parse (t * 4194304 + i * 4096 + q) e = \<lparr>sf_timestamp = t, sf_instance = i, sf_epoch = e, sf_seq = q\<rparr>"
proof -
  let ?n = "t * 4194304 + i * 4096 + q"
  have b: "0 \<le> i" "i < 1024" "0 \<le> q" "q < 4096" using assms by (auto simp: id_fields_ok_def)
  have n: "?n = t * 4194304 + (i * 4096 + q)" "?n = (t * 1024 + i) * 4096 + q" by simp_all
  have "?n div 4194304 = t" unfolding n(1) by (rule field_div_mod) (use b in auto)
  moreover have "?n mod 4096 = q" "?n div 4096 = t * 1024 + i"
    unfolding n(2) by (rule field_div_mod, use b in auto)+
  moreover have "(t * 1024 + i) mod 1024 = i" by (rule field_div_mod) (use b in auto)
  ultimately show ?thesis by (simp add: snowflake_parse_def masks drop_bit_eq_div)
qed

section \<open>Generated ids\<close>

text \<open>The state of a generator, and the largest id it may have handed out so far.\<close>

definition gen_ok :: "generator \<Rightarrow> bool" where
  "gen_ok g \<longleftrightarrow> (\<exists>i. gen_inf g = push_bit 12 i \<and> id_fields_ok i (gen_seq g))"

definition gen_id :: "generator \<Rightarrow> int" where
  "gen_id g = push_bit 22 (gen_ts g) OR gen_inf g OR gen_seq g"

lemma generate_ok:
  assumes "gen_ok g" "generate g current = (g', r)"
  shows "gen_ok g' \<and> gen_inf g' = gen_inf g \<and>
    (case r of None \<Rightarrow> g' = g | Some n \<Rightarrow> n = gen_id g' \<and> gen_id g < gen_id g' \<and> gen_ts g' = current)"
proof -
  obtain i where i: "gen_inf g = push_bit 12 i" "id_fields_ok i (gen_seq g)" using assms(1) by (auto simp: gen_ok_def)
  have v: "gen_id g = gen_ts g * 4194304 + i * 4096 + gen_seq g" using i by (simp add: gen_id_def id_value)
  have q: "0 \<le> gen_seq g" "gen_seq g < 4096" "0 \<le> i" "i < 1024" using i(2) by (auto simp: id_fields_ok_def)
  consider "r = None" "g' = g"
    | "gen_ts g = current" "gen_seq g \<noteq> MAX_SEQ" "g' = g\<lparr>gen_seq := gen_seq g + 1, gen_ts := current\<rparr>" "r = Some (gen_id g')"
    | "gen_ts g < current" "g' = g\<lparr>gen_seq := 0, gen_ts := current\<rparr>" "r = Some (gen_id g')"
    using assms(2) by (auto simp: generate_def gen_id_def Let_def split: if_splits)
  then show ?thesis
  proof cases
    case 2
    then have f: "id_fields_ok i (gen_seq g + 1)" using i(2) by (auto simp: id_fields_ok_def MAX_SEQ_def)
    then have "gen_id g' = gen_ts g * 4194304 + i * 4096 + gen_seq g + 1" using 2 i(1) by (simp add: gen_id_def id_value)
    with f 2 v i(1) show ?thesis
      by (auto simp: gen_ok_def)
  next
    case 3
    have f: "id_fields_ok i 0" using q by (simp add: id_fields_ok_def)
    then have "gen_id g' = current * 4194304 + i * 4096" using 3 i(1) id_value [of i 0 current] by (simp add: gen_id_def)
    moreover have "gen_ts g * 4194304 + 4194304 \<le> current * 4194304" using 3(1) by simp
    ultimately have "gen_id g < gen_id g'" using v q by simp
    with f 3 i(1) show ?thesis
      by (auto simp: gen_ok_def)
  qed (use assms(1) in simp_all)
qed

section \<open>The contract of an id source\<close>

text \<open>
  A source of ids: each call may refuse, and an id it does hand out is larger than \<open>top\<close>, the
  bound on all earlier ones, and becomes the new bound.
\<close>

locale id_source =
  fixes good :: "'s \<Rightarrow> bool" and top_id :: "'s \<Rightarrow> int" and draw :: "'s \<Rightarrow> 'c \<Rightarrow> 's \<times> int option"
  assumes draw_good: "good s \<Longrightarrow> draw s c = (s', r) \<Longrightarrow> good s'"
    and draw_refused: "good s \<Longrightarrow> draw s c = (s', None) \<Longrightarrow> top_id s' = top_id s"
    and draw_larger: "good s \<Longrightarrow> draw s c = (s', Some n) \<Longrightarrow> top_id s < n \<and> top_id s' = n"
begin

fun draws :: "'s \<Rightarrow> 'c list \<Rightarrow> int list" where
  "draws s [] = []"
| "draws s (c # cs) =
     (case draw s c of (s', None) \<Rightarrow> draws s' cs | (s', Some n) \<Rightarrow> n # draws s' cs)"

lemma draws_increase: "good s \<Longrightarrow> sorted_wrt (<) (draws s cs) \<and> (\<forall>n \<in> set (draws s cs). top_id s < n)"
proof (induction cs arbitrary: s)
  case (Cons c cs)
  obtain s' r where d: "draw s c = (s', r)" by fastforce
  note ih = Cons.IH [OF draw_good [OF Cons.prems d]]
  show ?case
  proof (cases r)
    case None
    with d ih draw_refused [of s c s'] Cons.prems show ?thesis by simp
  next
    case (Some n)
    with draw_larger [OF Cons.prems, of c s' n] d have "top_id s < n" "top_id s' = n" by simp_all
    with ih d Some show ?thesis by fastforce
  qed
qed simp

lemma draws_distinct: "good s \<Longrightarrow> distinct (draws s cs)"
  using draws_increase [of s cs] strict_sorted_iff [of "draws s cs"] by simp

end

interpretation sf: id_source gen_ok gen_id generate
proof
  fix s c s' r n
  assume s: "gen_ok s"
  show "generate s c = (s', r) \<Longrightarrow> gen_ok s'" using generate_ok [OF s] by blast
  show "gen_id s' = gen_id s" if "generate s c = (s', None)" using generate_ok [OF s that] by simp
  show "gen_id s < n \<and> gen_id s' = n" if "generate s c = (s', Some n)" using generate_ok [OF s that] by simp
qed

fun generate_all :: "generator \<Rightarrow> int list \<Rightarrow> int list" where
  "generate_all g [] = []"
| "generate_all g (c # cs) =
     (case generate g c of (g', None) \<Rightarrow> generate_all g' cs | (g', Some n) \<Rightarrow> n # generate_all g' cs)"

lemma generate_all_draws: "generate_all g cs = sf.draws g cs"
  by (induction g cs rule: generate_all.induct) (auto split: prod.splits option.splits)

lemma gen_id_instance:
  assumes "gen_ok g" "gen_inf g = push_bit 12 i"
  shows "sf_instance (snowflake_parse (gen_id g) 0) = i"
proof -
  obtain j where j: "gen_inf g = push_bit 12 j" "id_fields_ok j (gen_seq g)" using assms(1) by (auto simp: gen_ok_def)
  then have "i = j" using assms(2) by (simp add: push_bit_eq_mult)
  with j show ?thesis by (simp add: gen_id_def id_value parse_id)
qed

lemma generate_all_instance:
  "gen_ok g \<Longrightarrow> gen_inf g = push_bit 12 i \<Longrightarrow> n \<in> set (generate_all g cs) \<Longrightarrow> sf_instance (snowflake_parse n 0) = i"
proof (induction g cs rule: generate_all.induct)
  case (2 g c cs)
  obtain g' r where d: "generate g c = (g', r)" by fastforce
  note ok = generate_ok [OF 2(3) d]
  show ?case
  proof (cases r)
    case None
    with 2 d ok show ?thesis by simp
  next
    case (Some m)
    with ok gen_id_instance [of g' i] 2(4) have "sf_instance (snowflake_parse m 0) = i" by simp
    with 2 d ok Some show ?thesis by auto
  qed
qed simp

section \<open>Properties\<close>

text \<open>An id carries its fields: parsing the value of a snowflake gives back its timestamp, instance
  and sequence number, for every timestamp and every instance and sequence number in range.\<close>

theorem snowflake_roundtrip:
  assumes "id_fields_ok (sf_instance s) (sf_seq s)"
  shows "snowflake_parse (snowflake_value s) (sf_epoch s) = s"
  using parse_id [OF assms, of "sf_timestamp s" "sf_epoch s"] id_value [OF assms, of "sf_timestamp s"]
  by (simp add: snowflake_value_def)

theorem snowflake_roundtrip_witness:
  "snowflake_parse (snowflake_value \<lparr>sf_timestamp = 1700000000000, sf_instance = 513, sf_epoch = 0, sf_seq = 4095\<rparr>) 0 =
     \<lparr>sf_timestamp = 1700000000000, sf_instance = 513, sf_epoch = 0, sf_seq = 4095\<rparr>"
  using snowflake_roundtrip [of "\<lparr>sf_timestamp = 1700000000000, sf_instance = 513, sf_epoch = 0, sf_seq = 4095\<rparr>"]
  by (simp add: id_fields_ok_def)

text \<open>The ids a generator hands out are strictly increasing, hence distinct, whatever the clock does,
  also when it stands still, overflows the sequence or jumps back; and each carries the
  instance of its generator, so generators of different instances never share an id.\<close>

theorem generated_ids_increase:
  assumes "0 \<le> i" "i \<le> MAX_INSTANCE" "0 \<le> q" "q \<le> MAX_SEQ"
  shows "sorted_wrt (<) (generate_all (SnowflakeGenerator_init i q timestamp current) cs) \<and>
    (\<forall>n \<in> set (generate_all (SnowflakeGenerator_init i q timestamp current) cs). sf_instance (snowflake_parse n 0) = i)"
proof -
  let ?g = "SnowflakeGenerator_init i q timestamp current"
  have g: "gen_ok ?g" "gen_inf ?g = push_bit 12 i"
    using assms by (auto simp: gen_ok_def SnowflakeGenerator_init_def id_fields_ok_def MAX_INSTANCE_def MAX_SEQ_def)
  have "sorted_wrt (<) (generate_all ?g cs)"
    unfolding generate_all_draws by (rule sf.draws_increase [OF g(1), THEN conjunct1])
  with generate_all_instance [OF g] show ?thesis by blast
qed

theorem generated_ids_increase_witness:
  "sorted_wrt (<) (generate_all (SnowflakeGenerator_init 7 0 None 1000) [1000, 1000, 999, 1001, 1001])"
  by (rule generated_ids_increase [THEN conjunct1]) (simp_all add: MAX_INSTANCE_def MAX_SEQ_def)

end
