(* ===== verification/Log_Queue.thy ===== *)
theory Log_Queue
  imports Snowflake_Ids
begin

text \<open>
  \<open>LogQueue\<close> of \<open>distributed/replication/log_queue.py\<close>: the replicated log of a node, kept in the
  order of the millisecond timestamps inside the entry ids, with a dictionary from timestamp
  to position. Positions are integers, the dictionary is a map. The attributes
  \<open>commit_index\<close>, \<open>_last_timestamp\<close> and \<open>_last_commit_timestamp\<close> are written and never
  read, and are left out; the maximum age is the number \<open>TimeParser\<close> returns.
\<close>

section \<open>Entries and the queue\<close>

record log_entry =
  entry_id :: int
  entry_key :: string
  entry_data :: string
  entry_term :: int
  leader_host :: string
  leader_port :: int

definition entry_ts :: "log_entry \<Rightarrow> int" where
  "entry_ts e = sf_timestamp (snowflake_parse (entry_id e) 0)"

record log_queue =
  lq_logs :: "log_entry list"
  lq_timestamps :: "int list"
  lq_commits :: "int list"
  lq_index :: "int \<rightharpoonup> int"
  lq_term :: int
  lq_size :: int
  prune_max_age :: int
  prune_max_count :: int

definition LogQueue_init :: "int \<Rightarrow> int \<Rightarrow> log_queue" where
  "LogQueue_init max_age max_count =
     \<lparr>lq_logs = [], lq_timestamps = [], lq_commits = [], lq_index = Map.empty, lq_term = 0, lq_size = 0,
      prune_max_age = max_age, prune_max_count = max_count\<rparr>"

definition last_timestamp :: "log_queue \<Rightarrow> int" where
  "last_timestamp q = (if lq_timestamps q \<noteq> [] then last (lq_timestamps q) else 0)"

definition latest :: "log_queue \<Rightarrow> log_entry list res" where
  "latest q =
     (if lq_commits q \<noteq> []
      then (case lq_index q (last (lq_commits q)) of
              None \<Rightarrow> Inl KeyError
            | Some i \<Rightarrow> Inr (py_slice (lq_logs q) i (int (length (lq_logs q)))))
      else Inr (lq_logs q))"

definition commit :: "log_queue \<Rightarrow> log_queue" where
  "commit q =
     (if lq_timestamps q \<noteq> [] then q\<lparr>lq_commits := lq_commits q @ [last (lq_timestamps q)]\<rparr> else q)"

text \<open>\<open>get\<close>: an unknown timestamp has index -1, which Python reads as the last element.\<close>

definition log_get :: "log_queue \<Rightarrow> int \<Rightarrow> log_entry option res" where
  "log_get q shard_id =
     (let index = (case lq_index q (sf_timestamp (snowflake_parse shard_id 0)) of None \<Rightarrow> -1 | Some i \<Rightarrow> i)
      in if lq_size q < 1 then Inr None
         else map_sum id Some (py_index (lq_logs q) index))"

definition log_filter :: "log_queue \<Rightarrow> string \<Rightarrow> log_entry list" where
  "log_filter q key = filter (\<lambda>e. entry_key e = key) (lq_logs q)"

section \<open>Updating\<close>

text \<open>The first entries of an empty queue are taken in the order they come.\<close>

fun fill :: "log_queue \<Rightarrow> int \<Rightarrow> log_entry list \<Rightarrow> log_queue" where
  "fill q idx [] = q"
| "fill q idx (e # es) =
     fill (q\<lparr>lq_logs := lq_logs q @ [e], lq_timestamps := lq_timestamps q @ [entry_ts e],
             lq_index := (lq_index q)(entry_ts e \<mapsto> idx), lq_size := lq_size q + 1\<rparr>) (idx + 1) es"

definition insert_index :: "int list \<Rightarrow> int \<Rightarrow> nat" where
  "insert_index ts t =
     (let previous = filter (\<lambda>i. ts ! i < t) [0..<length ts]
      in if previous \<noteq> [] then last previous + 1 else 0)"

text \<open>\<open>self.timestamp_index_map[timestamp] += 1\<close> for each of a list of timestamps.\<close>

fun bump :: "int list \<Rightarrow> (int \<rightharpoonup> int) \<Rightarrow> (int \<rightharpoonup> int) \<times> py_error option" where
  "bump [] m = (m, None)"
| "bump (t # ts) m = (case m t of None \<Rightarrow> (m, Some KeyError) | Some i \<Rightarrow> bump ts (m(t \<mapsto> i + 1)))"

definition insert_entry :: "log_queue \<Rightarrow> log_entry \<Rightarrow> log_queue \<times> py_error option" where
  "insert_entry q e =
     (let k = insert_index (lq_timestamps q) (entry_ts e)
      in case bump (drop k (lq_timestamps q)) ((lq_index q)(entry_ts e \<mapsto> int k)) of
           (m, Some err) \<Rightarrow> (q\<lparr>lq_index := m\<rparr>, Some err)
         | (m, None) \<Rightarrow>
             (q\<lparr>lq_index := m,
                lq_logs := take k (lq_logs q) @ [e] @ drop k (lq_logs q),
                lq_timestamps := take k (lq_timestamps q) @ [entry_ts e] @ drop k (lq_timestamps q),
                lq_size := lq_size q + 1\<rparr>, None))"

definition replace_entry :: "log_queue \<Rightarrow> log_entry \<Rightarrow> log_queue \<times> py_error option" where
  "replace_entry q e =
     (case lq_index q (entry_ts e) of
        None \<Rightarrow> (q, Some KeyError)
      | Some i \<Rightarrow>
          (if 0 \<le> i \<and> i < int (length (lq_logs q))
           then (let q = q\<lparr>lq_logs := (lq_logs q)[nat i := e]\<rparr>
                 in if i < int (length (lq_timestamps q))
                    then (q\<lparr>lq_timestamps := (lq_timestamps q)[nat i := entry_ts e]\<rparr>, None)
                    else (q, Some IndexError))
           else (q, Some IndexError)))"

definition update_entry :: "log_queue \<Rightarrow> log_entry \<Rightarrow> log_queue \<times> py_error option" where
  "update_entry q e =
     (let t = entry_ts e; newest = last_timestamp q
      in if t < newest then insert_entry q e
         else if t > newest
         then (q\<lparr>lq_logs := lq_logs q @ [e], lq_timestamps := lq_timestamps q @ [t],
                 lq_index := (lq_index q)(t \<mapsto> lq_size q), lq_size := lq_size q + 1\<rparr>, None)
         else replace_entry q e)"

fun update_entries :: "log_queue \<Rightarrow> log_entry list \<Rightarrow> log_queue \<times> py_error option" where
  "update_entries q [] = (q, None)"
| "update_entries q (e # es) =
     (case update_entry q e of (q, Some err) \<Rightarrow> (q, Some err) | (q, None) \<Rightarrow> update_entries q es)"

text \<open>\<open>update\<close> returns None or an \<open>InvalidTermError\<close>, or raises.\<close>

datatype update_result = Updated | InvalidTerm int int | UpdateRaises py_error

definition log_update :: "log_queue \<Rightarrow> log_entry list \<Rightarrow> log_queue \<times> update_result" where
  "log_update q entries =
     (if entries = [] then (q, UpdateRaises IndexError)
      else
        (let t = entry_term (last entries)
         in if t < lq_term q then (q, InvalidTerm t (lq_term q))
            else
              (let q = (if t > lq_term q then q\<lparr>lq_term := t\<rparr> else q)
               in if lq_size q < 1 then (fill q 0 entries, Updated)
                  else (case update_entries q entries of
                          (q, None) \<Rightarrow> (q, Updated)
                        | (q, Some err) \<Rightarrow> (q, UpdateRaises err)))))"

section \<open>Pruning\<close>

text \<open>\<open>if self.timestamp_index_map.get(timestamp): del ...\<close>: position 0 is false and stays.\<close>

fun forget :: "int list \<Rightarrow> (int \<rightharpoonup> int) \<Rightarrow> (int \<rightharpoonup> int)" where
  "forget [] m = m"
| "forget (t # ts) m =
     forget ts (case m t of None \<Rightarrow> m | Some i \<Rightarrow> if i \<noteq> 0 then m(t := None) else m)"

definition prune_count :: "log_queue \<Rightarrow> int \<Rightarrow> int" where
  "prune_count q current_time =
     min (int (length (filter (\<lambda>t. current_time - t > prune_max_age q) (lq_timestamps q)))) (prune_max_count q)"

text \<open>A negative maximum count would slice from the end; the configured one is 1000.\<close>

definition prune :: "log_queue \<Rightarrow> int \<Rightarrow> log_queue res" where
  "prune q current_time =
     (let count = prune_count q current_time
      in if count \<ge> lq_size q
         then Inr (q\<lparr>lq_logs := [], lq_timestamps := [], lq_index := Map.empty, lq_commits := [], lq_size := 0\<rparr>)
         else
           (let n = int (length (lq_timestamps q));
                m = forget (py_slice (lq_timestamps q) 0 count) (lq_index q);
                ts = py_slice (lq_timestamps q) count n
            in if lq_commits q \<noteq> [] \<and> ts = [] then Inl IndexError
               else Inr (q\<lparr>lq_index := m, lq_logs := py_slice (lq_logs q) count (int (length (lq_logs q))),
                           lq_timestamps := ts, lq_commits := filter (\<lambda>c. c > ts ! 0) (lq_commits q),
                           lq_size := lq_size q - count\<rparr>)))"

section \<open>Invariant\<close>

text \<open>
  The queue is in strict order of its timestamps, the timestamps are those of the entries, and
  the dictionary says exactly where each timestamp is.
\<close>

definition lq_ok :: "log_queue \<Rightarrow> bool" where
  "lq_ok q \<longleftrightarrow>
     lq_timestamps q = map entry_ts (lq_logs q) \<and> lq_size q = int (length (lq_logs q)) \<and>
     sorted_wrt (<) (lq_timestamps q) \<and>
     (\<forall>t i. lq_index q t = Some i \<longleftrightarrow> 0 \<le> i \<and> i < lq_size q \<and> lq_timestamps q ! nat i = t)"

text \<open>The log as a map from timestamps to entries.\<close>

definition log_map :: "log_queue \<Rightarrow> int \<rightharpoonup> log_entry" where
  "log_map q = map_of (map (\<lambda>e. (entry_ts e, e)) (lq_logs q))"

section \<open>Inserting in order\<close>

lemma sorted_lt_nth: "sorted_wrt (<) (ts :: int list) \<Longrightarrow> i < length ts \<Longrightarrow> j < length ts \<Longrightarrow> ts ! i < ts ! j \<longleftrightarrow> i < j"
  by (metis linorder_neqE_nat order_less_imp_not_less sorted_wrt_nth_less)

lemma sorted_lt_distinct: "sorted_wrt (<) (ts :: int list) \<Longrightarrow> distinct ts"
  by (simp add: strict_sorted_iff)

lemma sorted_last_max: "sorted xs \<Longrightarrow> (x :: 'a :: linorder) \<in> set xs \<Longrightarrow> x \<le> last xs"
  by (induction xs) auto

text \<open>The insertion point separates the smaller timestamps from the others.\<close>

lemma insert_index_split:
  assumes "sorted_wrt (<) ts" "i < length ts"
  shows "ts ! i < t \<longleftrightarrow> i < insert_index ts t"
proof -
  define previous where "previous = filter (\<lambda>i. ts ! i < t) [0..<length ts]"
  have mem: "j \<in> set previous \<longleftrightarrow> j < length ts \<and> ts ! j < t" for j by (auto simp: previous_def)
  have sorted: "sorted previous" unfolding previous_def by (intro sorted_wrt_filter) simp
  show ?thesis
  proof (cases "previous = []")
    case True
    then show ?thesis using mem [of i] assms(2) by (simp add: insert_index_def flip: previous_def)
  next
    case False
    then have l: "last previous < length ts" "ts ! last previous < t" using mem [of "last previous"] by auto
    have "ts ! i < t \<longleftrightarrow> i \<le> last previous"
    proof
      assume "ts ! i < t"
      with mem [of i] assms(2) show "i \<le> last previous" using sorted_last_max [OF sorted] by simp
    next
      assume "i \<le> last previous"
      then have "ts ! i \<le> ts ! last previous" using sorted_lt_nth [OF assms(1) l(1) assms(2)] by simp
      with l(2) show "ts ! i < t" by simp
    qed
    with False show ?thesis by (auto simp: insert_index_def simp flip: previous_def)
  qed
qed

lemma insert_index_le: "insert_index ts t \<le> length ts"
proof -
  define previous where "previous = filter (\<lambda>i. ts ! i < t) [0..<length ts]"
  have "j \<in> set previous \<Longrightarrow> j < length ts" for j by (auto simp: previous_def)
  then have "last previous < length ts" if "previous \<noteq> []" using that last_in_set by blast
  then show ?thesis unfolding insert_index_def previous_def [symmetric] Let_def
    by (cases "previous = []") (simp_all add: Suc_le_eq)
qed

lemma bump_ok:
  assumes "distinct ts" "\<forall>t \<in> set ts. m t \<noteq> None"
  shows "bump ts m = (\<lambda>x. if x \<in> set ts then map_option (\<lambda>i. i + 1) (m x) else m x, None)"
  using assms
proof (induction ts arbitrary: m)
  case (Cons t ts)
  then obtain i where i: "m t = Some i" by auto
  let ?m = "m(t \<mapsto> i + 1)"
  have "bump ts ?m = (\<lambda>x. if x \<in> set ts then map_option (\<lambda>i. i + 1) (?m x) else ?m x, None)"
    by (rule Cons.IH) (use Cons.prems in auto)
  moreover have "(\<lambda>x. if x \<in> set ts then map_option (\<lambda>i. i + 1) (?m x) else ?m x) =
      (\<lambda>x. if x \<in> set (t # ts) then map_option (\<lambda>i. i + 1) (m x) else m x)"
    using Cons.prems(1) i by (auto simp: fun_eq_iff)
  ultimately show ?case using i by (simp only: bump.simps option.case)
qed simp

lemma nth_inserted:
  "k \<le> length xs \<Longrightarrow> (take k xs @ x # drop k xs) ! i = (if i < k then xs ! i else if i = k then x else xs ! (i - 1))"
  by (auto simp: nth_append nth_Cons' min_def)

lemma sorted_inserted:
  assumes "sorted_wrt (<) ts" "t \<notin> set ts"
  shows "sorted_wrt (<) (take (insert_index ts t) ts @ [t] @ drop (insert_index ts t) ts)"
proof -
  let ?k = "insert_index ts t"
  have "\<forall>x \<in> set (take ?k ts). x < t"
    using insert_index_split [OF assms(1)] by (auto simp: in_set_conv_nth)
  moreover have "t < x" if "x \<in> set (drop ?k ts)" for x
  proof -
    from that obtain j where j: "j < length (drop ?k ts)" "drop ?k ts ! j = x" by (auto simp only: in_set_conv_nth)
    then have "x = ts ! (?k + j)" "?k + j < length ts" using insert_index_le [of ts t] by (simp_all add: less_diff_conv add.commute)
    with insert_index_split [OF assms(1), of "?k + j" t] assms(2) show ?thesis
      by (metis linorder_neqE_linordered_idom not_add_less1 nth_mem)
  qed
  moreover have "\<forall>x \<in> set (take ?k ts). \<forall>y \<in> set (drop ?k ts). x < y" "sorted_wrt (<) (take ?k ts)" "sorted_wrt (<) (drop ?k ts)"
    using assms(1) by (metis append_take_drop_id sorted_wrt_append)+
  ultimately show ?thesis by (auto simp: sorted_wrt_append)
qed

lemma lq_ok_index:
  assumes "lq_ok q" "i < length (lq_timestamps q)"
  shows "lq_index q (lq_timestamps q ! i) = Some (int i)"
  using assms by (auto simp: lq_ok_def)

lemma lq_ok_index_None: "lq_ok q \<Longrightarrow> lq_index q t = None \<longleftrightarrow> t \<notin> set (lq_timestamps q)"
proof -
  assume q: "lq_ok q"
  have "t \<in> set (lq_timestamps q) \<Longrightarrow> lq_index q t \<noteq> None" using lq_ok_index [OF q] by (auto simp: in_set_conv_nth)
  moreover have "t \<in> set (lq_timestamps q)" if "lq_index q t = Some i" for i
    using that q by (auto simp: lq_ok_def)
  ultimately show ?thesis by (cases "lq_index q t") auto
qed

lemma lq_ok_length: "lq_ok q \<Longrightarrow> length (lq_timestamps q) = length (lq_logs q) \<and> lq_size q = int (length (lq_timestamps q))"
  by (simp add: lq_ok_def)

lemma index_iff:
  assumes "\<And>i. i < n \<Longrightarrow> m (ts ! i) = Some (int i)" "length ts = n" "\<And>x. m x \<noteq> None \<Longrightarrow> x \<in> set ts"
  shows "m x = Some i \<longleftrightarrow> 0 \<le> i \<and> i < int n \<and> ts ! nat i = x"
proof
  assume x: "m x = Some i"
  with assms(3) [of x] obtain j where "j < n" "x = ts ! j" using assms(2) by (auto simp: in_set_conv_nth)
  with x assms(1) [of j] show "0 \<le> i \<and> i < int n \<and> ts ! nat i = x" by auto
next
  assume "0 \<le> i \<and> i < int n \<and> ts ! nat i = x"
  with assms(1) [of "nat i"] show "m x = Some i" by auto
qed

lemma insert_entry_ok:
  assumes q: "lq_ok q" and new: "entry_ts e \<notin> set (lq_timestamps q)"
  obtains q' where "insert_entry q e = (q', None)" "lq_ok q'" "lq_term q' = lq_term q"
    "lq_logs q' = take (insert_index (lq_timestamps q) (entry_ts e)) (lq_logs q) @ [e] @ drop (insert_index (lq_timestamps q) (entry_ts e)) (lq_logs q)"
proof -
  let ?ts = "lq_timestamps q" and ?t = "entry_ts e"
  define k where "k = insert_index ?ts ?t"
  have s: "sorted_wrt (<) ?ts" using q unfolding lq_ok_def by blast
  have k: "k \<le> length ?ts" by (simp add: k_def insert_index_le)
  let ?m = "(lq_index q)(?t \<mapsto> int k)"
  let ?m' = "\<lambda>x. if x \<in> set (drop k ?ts) then map_option (\<lambda>i. i + 1) (?m x) else ?m x"
  have "\<forall>t \<in> set (drop k ?ts). ?m t \<noteq> None"
    using lq_ok_index_None [OF q] by (auto dest: in_set_dropD)
  then have b: "bump (drop k ?ts) ?m = (?m', None)" by (intro bump_ok) (simp_all add: sorted_lt_distinct [OF s])
  define q' where "q' = q\<lparr>lq_index := ?m', lq_logs := take k (lq_logs q) @ [e] @ drop k (lq_logs q),
    lq_timestamps := take k ?ts @ [?t] @ drop k ?ts, lq_size := lq_size q + 1\<rparr>"
  have "insert_entry q e = (q', None)" using b by (simp add: insert_entry_def q'_def k_def Let_def)
  moreover have "lq_ok q'"
  proof -
    let ?ts' = "take k ?ts @ [?t] @ drop k ?ts"
    have d: "sorted_wrt (<) ?ts'" using sorted_inserted [OF s new] by (simp add: k_def)
    have pos: "?m' (?ts' ! i) = Some (int i)" if i: "i < Suc (length ?ts)" for i
    proof -
      consider "i < k" | "i = k" | "k < i" "i - 1 < length ?ts" using i by linarith
      then show ?thesis
      proof cases
        case 1
        then have "?ts ! i \<notin> set (drop k ?ts)" "?ts ! i \<noteq> ?t"
          using sorted_lt_distinct [OF s] k new by (auto simp: in_set_conv_nth nth_eq_iff_index_eq)
        with 1 k lq_ok_index [OF q, of i] show ?thesis by (simp add: nth_inserted)
      next
        case 2
        with new k show ?thesis by (auto simp: nth_inserted dest: in_set_dropD)
      next
        case 3
        have "?ts ! (i - 1) \<in> set (drop k ?ts)"
          using 3 by (auto simp: in_set_conv_nth intro!: exI [of _ "i - 1 - k"])
        with 3 k new lq_ok_index [OF q, of "i - 1"] show ?thesis by (auto simp: nth_inserted dest: in_set_dropD)
      qed
    qed
    have "x \<in> set ?ts'" if "?m' x \<noteq> None" for x
    proof -
      have "x \<in> set (drop k ?ts) \<or> x = ?t \<or> x \<in> set ?ts"
        using that lq_ok_index_None [OF q, of x] by (auto split: if_splits)
      then show ?thesis using in_set_dropD by (metis Un_iff append_take_drop_id list.set_intros(1) set_append)
    qed
    then have iff: "?m' x = Some i \<longleftrightarrow> 0 \<le> i \<and> i < int (Suc (length ?ts)) \<and> ?ts' ! nat i = x" for x i
      by (intro index_iff) (use pos k in simp_all)
    have "?ts' = map entry_ts (take k (lq_logs q) @ [e] @ drop k (lq_logs q))"
      using q by (simp add: lq_ok_def take_map drop_map)
    moreover have "lq_index q' t = Some i \<longleftrightarrow> 0 \<le> i \<and> i < lq_size q' \<and> lq_timestamps q' ! nat i = t" for t i
      using iff [of t i] lq_ok_length [OF q] by (auto simp: q'_def)
    moreover have "lq_size q' = int (length (lq_logs q'))" using lq_ok_length [OF q] k by (simp add: q'_def)
    ultimately show ?thesis using d unfolding lq_ok_def by (auto simp: q'_def)
  qed
  ultimately show thesis by (rule that) (simp_all add: q'_def k_def)
qed

section \<open>The log as a map\<close>

lemma log_map_nth:
  assumes "lq_ok q" "i < length (lq_logs q)"
  shows "log_map q (entry_ts (lq_logs q ! i)) = Some (lq_logs q ! i)"
proof -
  have "distinct (map entry_ts (lq_logs q))" using assms(1) sorted_lt_distinct unfolding lq_ok_def by metis
  then show ?thesis using assms(2) by (auto simp: log_map_def comp_def intro!: map_of_is_SomeI)
qed

lemma log_map_inserted:
  assumes "distinct (map entry_ts es)" "entry_ts e \<notin> entry_ts ` set es"
  shows "map_of (map (\<lambda>e. (entry_ts e, e)) (take k es @ [e] @ drop k es)) = (map_of (map (\<lambda>e. (entry_ts e, e)) es))(entry_ts e \<mapsto> e)"
proof -
  let ?f = "map (\<lambda>e. (entry_ts e, e))"
  have "map_of (?f (take k es)) t = None" if "t = entry_ts e" for t
    using assms(2) that by (auto simp: map_of_eq_None_iff dest!: in_set_takeD)
  moreover have "map_of (?f es) = map_of (?f (drop k es)) ++ map_of (?f (take k es))"
    by (metis append_take_drop_id map_append map_of_append)
  ultimately show ?thesis by (auto simp: fun_eq_iff map_add_def split: option.splits)
qed

text \<open>An entry newer than all others goes to the end.\<close>

abbreviation appended :: "log_queue \<Rightarrow> log_entry \<Rightarrow> log_queue" where
  "appended q e \<equiv> q\<lparr>lq_logs := lq_logs q @ [e], lq_timestamps := lq_timestamps q @ [entry_ts e],
      lq_index := (lq_index q)(entry_ts e \<mapsto> lq_size q), lq_size := lq_size q + 1\<rparr>"

lemma appended_ok:
  assumes q: "lq_ok q" and above: "\<And>x. x \<in> set (lq_timestamps q) \<Longrightarrow> x < entry_ts e"
  shows "lq_ok (appended q e)" "log_map (appended q e) = (log_map q)(entry_ts e \<mapsto> e)"
proof -
  let ?q = "appended q e"
  have ts: "lq_timestamps q = map entry_ts (lq_logs q)" and sz: "lq_size q = int (length (lq_logs q))"
    and s: "sorted_wrt (<) (lq_timestamps q)"
    using q unfolding lq_ok_def by blast+
  have len: "lq_size q = int (length (lq_timestamps q))" using lq_ok_length [OF q] by blast
  have new: "entry_ts e \<notin> set (lq_timestamps q)" using above by blast
  show "lq_ok ?q"
    unfolding lq_ok_def
  proof (intro conjI allI)
    show "lq_timestamps ?q = map entry_ts (lq_logs ?q)" "lq_size ?q = int (length (lq_logs ?q))"
      by (simp_all add: ts sz)
    show "sorted_wrt (<) (lq_timestamps ?q)" using s above by (simp add: sorted_wrt_append)
    fix t i
    have "lq_index ?q t = Some i \<longleftrightarrow> 0 \<le> i \<and> i < int (Suc (length (lq_timestamps q))) \<and> lq_timestamps ?q ! nat i = t"
    proof (rule index_iff)
      fix j assume "j < Suc (length (lq_timestamps q))"
      then consider "j < length (lq_timestamps q)" | "j = length (lq_timestamps q)" by linarith
      then show "lq_index ?q (lq_timestamps ?q ! j) = Some (int j)"
        using lq_ok_index [OF q, of j] new len by cases (auto simp: nth_append in_set_conv_nth)
    next
      show "x \<in> set (lq_timestamps ?q)" if "lq_index ?q x \<noteq> None" for x
        using that lq_ok_index_None [OF q, of x] by (auto split: if_splits)
    qed simp
    then show "lq_index ?q t = Some i \<longleftrightarrow> 0 \<le> i \<and> i < lq_size ?q \<and> lq_timestamps ?q ! nat i = t"
      using len by auto
  qed
  have "map_of (map (\<lambda>e. (entry_ts e, e)) (lq_logs q)) (entry_ts e) = None"
    using new by (auto simp: map_of_eq_None_iff ts)
  then show "log_map ?q = (log_map q)(entry_ts e \<mapsto> e)"
    by (auto simp: log_map_def fun_eq_iff map_add_def split: option.splits)
qed

text \<open>One entry with a new timestamp is added to the map, whether it is appended or inserted.\<close>

lemma update_entry_new:
  assumes q: "lq_ok q" "lq_logs q \<noteq> []" and new: "entry_ts e \<notin> set (lq_timestamps q)"
  obtains q' where "update_entry q e = (q', None)" "lq_ok q'" "lq_term q' = lq_term q" "lq_logs q' \<noteq> []"
    "set (lq_timestamps q') = insert (entry_ts e) (set (lq_timestamps q))" "log_map q' = (log_map q)(entry_ts e \<mapsto> e)"
proof (cases "entry_ts e < last_timestamp q")
  case True
  obtain q' where q': "insert_entry q e = (q', None)" "lq_ok q'" "lq_term q' = lq_term q"
    "lq_logs q' = take (insert_index (lq_timestamps q) (entry_ts e)) (lq_logs q) @ [e] @ drop (insert_index (lq_timestamps q) (entry_ts e)) (lq_logs q)"
    by (rule insert_entry_ok [OF q(1) new])
  have ts: "lq_timestamps q = map entry_ts (lq_logs q)" "lq_timestamps q' = map entry_ts (lq_logs q')"
    using q(1) q'(2) unfolding lq_ok_def by blast+
  have "set (lq_logs q') = insert e (set (lq_logs q))"
    unfolding q'(4) by (metis Un_insert_right append_Cons append_Nil append_take_drop_id list.set(2) set_append)
  then have "set (lq_timestamps q') = insert (entry_ts e) (set (lq_timestamps q))" by (simp add: ts)
  moreover have "distinct (map entry_ts (lq_logs q))" using q(1) sorted_lt_distinct unfolding lq_ok_def by metis
  with new have "log_map q' = (log_map q)(entry_ts e \<mapsto> e)" unfolding log_map_def q'(4)
    by (intro log_map_inserted) (simp_all add: ts)
  ultimately show ?thesis using q' True by (intro that [of q']) (simp_all add: update_entry_def Let_def)
next
  case False
  have ts: "lq_timestamps q = map entry_ts (lq_logs q)" and s: "sorted_wrt (<) (lq_timestamps q)"
    using q(1) unfolding lq_ok_def by blast+
  have ne: "lq_timestamps q \<noteq> []" using q(2) ts by simp
  then have "last_timestamp q \<in> set (lq_timestamps q)" by (simp add: last_timestamp_def)
  with new have "last_timestamp q \<noteq> entry_ts e" by auto
  with False have gt: "last (lq_timestamps q) < entry_ts e" using ne by (simp add: last_timestamp_def)
  have above: "x < entry_ts e" if "x \<in> set (lq_timestamps q)" for x
  proof -
    from that obtain i where i: "i < length (lq_timestamps q)" "x = lq_timestamps q ! i" by (auto simp: in_set_conv_nth)
    let ?n = "length (lq_timestamps q) - 1"
    have "\<not> lq_timestamps q ! ?n < x" using sorted_lt_nth [OF s, of ?n i] i by auto
    with gt ne show ?thesis by (simp add: last_conv_nth)
  qed
  show ?thesis
    using gt ne appended_ok [OF q(1) above] q(2)
    by (intro that [of "appended q e"]) (simp_all add: update_entry_def last_timestamp_def Let_def)
qed

lemma update_entries_new:
  assumes "lq_ok q" "lq_logs q \<noteq> []" "distinct (map entry_ts es)" "set (map entry_ts es) \<inter> set (lq_timestamps q) = {}"
  shows "\<exists>q'. update_entries q es = (q', None) \<and> lq_ok q' \<and> lq_term q' = lq_term q \<and>
    log_map q' = log_map q ++ map_of (map (\<lambda>e. (entry_ts e, e)) es)"
  using assms
proof (induction es arbitrary: q)
  case (Cons e es)
  obtain q1 where q1: "update_entry q e = (q1, None)" "lq_ok q1" "lq_term q1 = lq_term q" "lq_logs q1 \<noteq> []"
    "set (lq_timestamps q1) = insert (entry_ts e) (set (lq_timestamps q))" "log_map q1 = (log_map q)(entry_ts e \<mapsto> e)"
    by (rule update_entry_new [OF Cons.prems(1,2)]) (use Cons.prems(4) in auto)
  have "distinct (map entry_ts es)" "set (map entry_ts es) \<inter> set (lq_timestamps q1) = {}"
    using Cons.prems(3,4) q1(5) by auto
  from Cons.IH [OF q1(2,4) this] obtain q' where q': "update_entries q1 es = (q', None)" "lq_ok q'" "lq_term q' = lq_term q1"
    "log_map q' = log_map q1 ++ map_of (map (\<lambda>e. (entry_ts e, e)) es)" by blast
  have "map_of (map (\<lambda>e. (entry_ts e, e)) es) (entry_ts e) = None"
    using Cons.prems(3) by (auto simp: map_of_eq_None_iff)
  with q' q1 show ?case
    by (auto simp: fun_eq_iff map_add_def split: option.splits)
qed simp

lemma fill_ok:
  assumes "lq_ok q" "sorted_wrt (<) (lq_timestamps q @ map entry_ts es)" "idx = lq_size q"
  shows "lq_ok (fill q idx es) \<and> lq_term (fill q idx es) = lq_term q \<and>
    log_map (fill q idx es) = log_map q ++ map_of (map (\<lambda>e. (entry_ts e, e)) es)"
  using assms
proof (induction es arbitrary: q idx)
  case (Cons e es)
  note a = appended_ok [OF Cons.prems(1), of e]
  have "\<And>x. x \<in> set (lq_timestamps q) \<Longrightarrow> x < entry_ts e" using Cons.prems(2) by (auto simp: sorted_wrt_append)
  note a' = a [OF this]
  have f: "fill q idx (e # es) = fill (appended q e) (idx + 1) es" using Cons.prems(3) by simp
  have "map_of (map (\<lambda>e. (entry_ts e, e)) es) (entry_ts e) = None"
    using Cons.prems(2) by (auto simp: map_of_eq_None_iff sorted_wrt_append)
  with Cons.IH [OF a'(1), of "idx + 1"] Cons.prems(2,3) a'(2) show ?case
    unfolding f by (auto simp: fun_eq_iff map_add_def split: option.splits)
qed simp

lemma lq_ok_init [simp]: "lq_ok (LogQueue_init a c)"
  by (simp add: lq_ok_def LogQueue_init_def)

lemma lq_ok_term [simp]: "lq_ok (q\<lparr>lq_term := t\<rparr>) = lq_ok q" "log_map (q\<lparr>lq_term := t\<rparr>) = log_map q"
  by (simp_all add: lq_ok_def log_map_def)

lemma log_update_stores:
  assumes "lq_ok q" "entries \<noteq> []" "sorted_wrt (<) (map entry_ts entries)"
    "set (map entry_ts entries) \<inter> set (lq_timestamps q) = {}" "lq_term q \<le> entry_term (last entries)"
  shows "\<exists>q'. log_update q entries = (q', Updated) \<and> lq_ok q' \<and> lq_term q' = entry_term (last entries) \<and>
    log_map q' = log_map q ++ map_of (map (\<lambda>e. (entry_ts e, e)) entries)"
proof -
  let ?t = "entry_term (last entries)"
  let ?q = "if ?t > lq_term q then q\<lparr>lq_term := ?t\<rparr> else q"
  have q: "lq_ok ?q" "log_map ?q = log_map q" "lq_term ?q = ?t" "lq_timestamps ?q = lq_timestamps q" "lq_logs ?q = lq_logs q"
    using assms(1,5) by auto
  show ?thesis
  proof (cases "lq_logs q = []")
    case True
    then have "lq_timestamps ?q = []" "lq_size ?q = 0" using assms(1) by (simp_all add: lq_ok_def)
    with fill_ok [OF q(1), of entries 0] assms(2,3,5) q True show ?thesis
      by (simp add: log_update_def Let_def)
  next
    case False
    then have "\<not> lq_size ?q < 1" using assms(1) by (auto simp: lq_ok_def Suc_le_eq)
    moreover obtain q' where "update_entries ?q entries = (q', None)" "lq_ok q'" "lq_term q' = lq_term ?q"
      "log_map q' = log_map ?q ++ map_of (map (\<lambda>e. (entry_ts e, e)) entries)"
      using update_entries_new [of ?q entries] q False assms(3,4) sorted_lt_distinct [OF assms(3)] by auto
    ultimately show ?thesis using assms(2,5) q by (simp add: log_update_def Let_def)
  qed
qed

section \<open>Properties\<close>

text \<open>C24: the queue implements a map from timestamps to entries: an update with entries of new, increasing
  timestamps, the last of which is not of an earlier term than the queue, keeps the queue in strict timestamp order with an exact
  position dictionary, and adds exactly these entries to the map.\<close>

theorem log_update_refines:
  assumes "lq_ok q" "entries \<noteq> []" "sorted_wrt (<) (map entry_ts entries)"
    "set (map entry_ts entries) \<inter> set (lq_timestamps q) = {}" "lq_term q \<le> entry_term (last entries)"
  shows "\<exists>q'. log_update q entries = (q', Updated) \<and> lq_ok q' \<and> lq_term q' = entry_term (last entries) \<and>
    log_map q' = log_map q ++ map_of (map (\<lambda>e. (entry_ts e, e)) entries)"
  by (rule log_update_stores [OF assms])

text \<open>Looking an entry up by an id gives the entry with that timestamp when there is one; for an
  unknown timestamp it does not give None but the newest entry.\<close>

theorem log_get_lookup:
  assumes "lq_ok q" "lq_logs q \<noteq> []"
  shows "log_get q shard_id = Inr (Some (case log_map q (sf_timestamp (snowflake_parse shard_id 0)) of
    Some e \<Rightarrow> e | None \<Rightarrow> last (lq_logs q)))"
proof -
  let ?t = "sf_timestamp (snowflake_parse shard_id 0)"
  have ts: "lq_timestamps q = map entry_ts (lq_logs q)" "lq_size q = int (length (lq_logs q))"
    using assms(1) unfolding lq_ok_def by blast+
  show ?thesis
  proof (cases "?t \<in> set (lq_timestamps q)")
    case True
    then obtain i where i: "i < length (lq_logs q)" "entry_ts (lq_logs q ! i) = ?t"
      unfolding in_set_conv_nth using ts(1) by auto
    then have "lq_index q ?t = Some (int i)" using lq_ok_index [OF assms(1), of i] ts(1) by simp
    with i log_map_nth [OF assms(1) i(1)] ts(2) assms(2) show ?thesis by (simp add: log_get_def)
  next
    case False
    then have "lq_index q ?t = None" using lq_ok_index_None [OF assms(1)] by blast
    moreover have "log_map q ?t = None" using False by (auto simp: log_map_def map_of_eq_None_iff ts(1))
    ultimately show ?thesis using assms(2) ts(2)
      by (auto simp: log_get_def py_index_def last_conv_nth Suc_le_eq)
  qed
qed

text \<open>
  An entry created in the same millisecond as the newest entry of the log does not extend the log, it
  overwrites that entry, although its id is different. Of several new entries of one millisecond
  only the last stays.
\<close>

lemma replace_newest:
  assumes "lq_ok q" "lq_logs q \<noteq> []" "entry_ts e = entry_ts (last (lq_logs q))"
  obtains q' where "update_entry q e = (q', None)" "lq_ok q'" "lq_logs q' = butlast (lq_logs q) @ [e]"
proof -
  obtain n where len: "length (lq_logs q) = Suc n" using assms(2) by (cases "lq_logs q") auto
  have ts: "lq_timestamps q = map entry_ts (lq_logs q)" "lq_size q = int (length (lq_logs q))"
    using assms(1) unfolding lq_ok_def by blast+
  have last_ts: "lq_timestamps q ! n = entry_ts e" using assms(2,3) ts(1) len by (simp add: last_conv_nth)
  then have index: "lq_index q (entry_ts e) = Some (int n)" using lq_ok_index [OF assms(1), of n] ts(1) len by simp
  let ?q = "q\<lparr>lq_logs := (lq_logs q)[n := e], lq_timestamps := (lq_timestamps q)[n := entry_ts e]\<rparr>"
  have "last_timestamp q = entry_ts e" using assms(2,3) ts(1) by (simp add: last_timestamp_def last_map)
  then have u: "update_entry q e = (?q, None)"
    using index len ts(1) by (simp add: update_entry_def replace_entry_def Let_def)
  have same: "(lq_timestamps q)[n := entry_ts e] = lq_timestamps q" using last_ts list_update_id by metis
  have "map entry_ts ((lq_logs q)[n := e]) = lq_timestamps q" using same by (simp add: map_update ts(1))
  then have "lq_ok ?q" using assms(1) ts(1) unfolding lq_ok_def same by auto
  moreover have "(lq_logs q)[n := e] = butlast (lq_logs q) @ [e]"
    using assms(2) len by (metis append_butlast_last_id diff_Suc_1 length_butlast list_update_length)
  ultimately show ?thesis using u by (intro that [of ?q]) simp_all
qed

lemma same_millisecond_entries:
  assumes "lq_ok q" "lq_logs q \<noteq> []" "\<forall>e \<in> set es. entry_ts e = entry_ts (last (lq_logs q))"
  shows "\<exists>q'. update_entries q es = (q', None) \<and> lq_ok q' \<and> lq_logs q' = butlast (lq_logs q) @ [last (last (lq_logs q) # es)]"
  using assms
proof (induction es arbitrary: q)
  case (Cons e es)
  obtain q1 where q1: "update_entry q e = (q1, None)" "lq_ok q1" "lq_logs q1 = butlast (lq_logs q) @ [e]"
    using replace_newest [OF Cons.prems(1,2), of e] Cons.prems(3) by auto
  then have "\<exists>q'. update_entries q1 es = (q', None) \<and> lq_ok q' \<and> lq_logs q' = butlast (lq_logs q1) @ [last (last (lq_logs q1) # es)]"
    using Cons.prems(3) by (intro Cons.IH) simp_all
  then show ?case using q1 by simp
qed simp

lemma same_millisecond_batch:
  assumes "lq_ok q" "lq_logs q \<noteq> []" "es \<noteq> []" "\<forall>e \<in> set es. entry_ts e = t" "last_timestamp q < t"
    "lq_term q \<le> entry_term (last es)"
  shows "\<exists>q'. log_update q es = (q', Updated) \<and> lq_ok q' \<and> lq_logs q' = lq_logs q @ [last es]"
proof -
  let ?q = "if entry_term (last es) > lq_term q then q\<lparr>lq_term := entry_term (last es)\<rparr> else q"
  have q: "lq_ok ?q" "lq_logs ?q = lq_logs q" "lq_timestamps ?q = lq_timestamps q" "lq_size ?q = lq_size q" using assms(1) by auto
  have ts: "lq_timestamps q = map entry_ts (lq_logs q)" "lq_size q = int (length (lq_logs q))"
    and s: "sorted_wrt (<) (lq_timestamps q)" using assms(1) unfolding lq_ok_def by blast+
  obtain e es' where es: "es = e # es'" using assms(3) by (cases es) auto
  let ?q1 = "?q\<lparr>lq_logs := lq_logs ?q @ [e], lq_timestamps := lq_timestamps ?q @ [entry_ts e],
    lq_index := (lq_index ?q)(entry_ts e \<mapsto> lq_size ?q), lq_size := lq_size ?q + 1\<rparr>"
  have "last_timestamp ?q = last_timestamp q" by (simp add: last_timestamp_def)
  then have newer: "last_timestamp ?q < entry_ts e" using assms(4,5) es by simp
  then have u: "update_entry ?q e = (?q1, None)" by (simp add: update_entry_def Let_def)
  have "entry_ts e \<notin> set (lq_timestamps ?q)"
  proof
    assume "entry_ts e \<in> set (lq_timestamps ?q)"
    then have m: "entry_ts e \<in> set (lq_timestamps q)" by (simp only: q(3))
    have "sorted (lq_timestamps q)" using s by (simp add: strict_sorted_iff)
    from sorted_last_max [OF this m] have "entry_ts e \<le> last (lq_timestamps q)" .
    moreover have "last (lq_timestamps q) < entry_ts e"
      using m assms(4,5) es by (cases "lq_timestamps q") (simp_all add: last_timestamp_def)
    ultimately show False by simp
  qed
  moreover have "lq_logs ?q \<noteq> []" using assms(2) q(2) by simp
  ultimately obtain q1 where q1: "update_entry ?q e = (q1, None)" "lq_ok q1"
    using update_entry_new [OF q(1)] by blast
  have l: "lq_logs q1 = lq_logs q @ [e]" using q1(1) u q(2) by auto
  have "\<exists>q'. update_entries q1 es' = (q', None) \<and> lq_ok q' \<and> lq_logs q' = butlast (lq_logs q1) @ [last (last (lq_logs q1) # es')]"
    using assms(4) es l by (intro same_millisecond_entries [OF q1(2)]) simp_all
  moreover have "\<not> lq_size ?q < 1" using assms(2) ts(2) q(4) by (auto simp: Suc_le_eq)
  ultimately show ?thesis using assms(6) l q1(1) by (auto simp: log_update_def Let_def es)
qed

lemma forget_other: "t \<notin> set ts \<Longrightarrow> forget ts m t = m t"
  by (induction ts arbitrary: m) (auto split: option.splits)

text \<open>Pruning the k oldest entries keeps the positions of the dictionary as they were, so afterwards a
  lookup of entry i of the old log finds entry i + k instead, or fails with IndexError near
  the end of the log.\<close>

theorem prune_shifts_lookups:
  assumes "lq_ok q" "prune_count q now = int k" "0 < k" "int k < lq_size q"
  shows "\<exists>q'. prune q now = Inr q' \<and> lq_logs q' = drop k (lq_logs q) \<and>
    (\<forall>i. k \<le> i \<and> i < length (lq_logs q) \<longrightarrow>
      log_get q' (entry_id (lq_logs q ! i)) =
        (if i + k < length (lq_logs q) then Inr (Some (lq_logs q ! (i + k))) else Inl IndexError))"
proof -
  let ?n = "length (lq_logs q)"
  have ts: "lq_timestamps q = map entry_ts (lq_logs q)" "lq_size q = int ?n" "distinct (lq_timestamps q)"
    using assms(1) sorted_lt_distinct unfolding lq_ok_def by blast+
  have k: "k < ?n" using assms(4) ts(2) by simp
  have sl: "py_slice (lq_timestamps q) 0 (int k) = take k (lq_timestamps q)"
    "py_slice (lq_timestamps q) (int k) (int (length (lq_timestamps q))) = drop k (lq_timestamps q)"
    "py_slice (lq_logs q) (int k) (int ?n) = drop k (lq_logs q)"
    using py_slice_nat [of 0 k "lq_timestamps q"] py_slice_nat [of k "length (lq_timestamps q)" "lq_timestamps q"]
      py_slice_nat [of k ?n "lq_logs q"] k ts(1) by simp_all
  have "drop k (lq_timestamps q) \<noteq> []" using k ts(1) by simp
  then obtain q' where q': "prune q now = Inr q'" "lq_logs q' = drop k (lq_logs q)" "lq_size q' = lq_size q - int k"
    "lq_index q' = forget (take k (lq_timestamps q)) (lq_index q)"
    using assms(2,4) sl by (simp add: prune_def Let_def)
  have "log_get q' (entry_id (lq_logs q ! i)) =
      (if i + k < ?n then Inr (Some (lq_logs q ! (i + k))) else Inl IndexError)" if i: "k \<le> i" "i < ?n" for i
  proof -
    have "entry_ts (lq_logs q ! i) \<notin> set (take k (lq_timestamps q))"
    proof
      assume "entry_ts (lq_logs q ! i) \<in> set (take k (lq_timestamps q))"
      then obtain j where "j < k" "lq_timestamps q ! j = lq_timestamps q ! i"
        using i k ts(1) by (auto simp: in_set_conv_nth)
      with ts(3) i k show False
        using nth_eq_iff_index_eq [OF ts(3), of j i] ts(1) by simp
    qed
    then have "lq_index q' (entry_ts (lq_logs q ! i)) = Some (int i)"
      using lq_ok_index [OF assms(1), of i] i ts(1) by (simp add: q'(4) forget_other)
    then show ?thesis
      using i k q'(2,3) ts(2) by (auto simp: log_get_def py_index_def entry_ts_def add.commute)
  qed
  with q' show ?thesis by blast
qed

section \<open>A log of three entries\<close>

definition example_entry :: "int \<Rightarrow> int \<Rightarrow> log_entry" where
  "example_entry t n =
     \<lparr>entry_id = t * 4194304 + n, entry_key = ''k'', entry_data = ''v'', entry_term = 1, leader_host = ''h'', leader_port = 1\<rparr>"

lemma example_entry_ts: "0 \<le> n \<Longrightarrow> n < 4096 \<Longrightarrow> entry_ts (example_entry t n) = t"
  using parse_id [of 0 n t 0] by (simp add: entry_ts_def example_entry_def id_fields_ok_def)

definition example_log :: log_queue where
  "example_log = fst (log_update (LogQueue_init 5 1000) [example_entry 10 0, example_entry 20 0, example_entry 30 0])"

lemma example_log_ok: "lq_ok example_log" "lq_logs example_log = [example_entry 10 0, example_entry 20 0, example_entry 30 0]"
  "lq_timestamps example_log = [10, 20, 30]" "lq_term example_log = 1" "lq_size example_log = 3" "prune_max_age example_log = 5"
  "prune_max_count example_log = 1000"
proof -
  have l: "example_log = fill (LogQueue_init 5 1000\<lparr>lq_term := 1\<rparr>) 0 [example_entry 10 0, example_entry 20 0, example_entry 30 0]"
    by (simp add: example_log_def log_update_def Let_def LogQueue_init_def example_entry_def)
  show "lq_ok example_log" unfolding l
    by (rule fill_ok [THEN conjunct1]) (simp_all add: example_entry_ts, simp_all add: LogQueue_init_def)
  show "lq_logs example_log = [example_entry 10 0, example_entry 20 0, example_entry 30 0]"
    "lq_timestamps example_log = [10, 20, 30]" "lq_term example_log = 1" "lq_size example_log = 3" "prune_max_age example_log = 5"
    "prune_max_count example_log = 1000"
    by (simp_all add: l LogQueue_init_def example_entry_ts)
qed

theorem log_update_refines_witness:
  "\<exists>q'. log_update example_log [example_entry 15 0, example_entry 40 2] = (q', Updated) \<and> lq_ok q' \<and>
     log_map q' 15 = Some (example_entry 15 0)"
proof -
  have "\<exists>q'. log_update example_log [example_entry 15 0, example_entry 40 2] = (q', Updated) \<and> lq_ok q' \<and>
      lq_term q' = entry_term (last [example_entry 15 0, example_entry 40 2]) \<and>
      log_map q' = log_map example_log ++ map_of (map (\<lambda>e. (entry_ts e, e)) [example_entry 15 0, example_entry 40 2])"
    by (rule log_update_refines) (simp_all add: example_log_ok example_entry_ts, simp add: example_entry_def)
  then show ?thesis by (auto simp: example_entry_ts)
qed

theorem log_get_lookup_witness:
  "log_get example_log (entry_id (example_entry 20 0)) = Inr (Some (example_entry 20 0)) \<and>
   log_get example_log (entry_id (example_entry 25 0)) = Inr (Some (example_entry 30 0))"
proof -
  have "log_map example_log 20 = Some (example_entry 20 0)" "log_map example_log 25 = None"
    by (simp_all add: log_map_def example_log_ok example_entry_ts)
  then show ?thesis
    using log_get_lookup [OF example_log_ok(1), of "entry_id (example_entry 20 0)"] log_get_lookup [OF example_log_ok(1), of "entry_id (example_entry 25 0)"]
      example_entry_ts [of 0 20] example_entry_ts [of 0 25]
    by (simp add: example_log_ok entry_ts_def)
qed

theorem prune_shifts_lookups_witness:
  "\<exists>q'. prune example_log 17 = Inr q' \<and> log_get q' (entry_id (example_entry 20 0)) = Inr (Some (example_entry 30 0)) \<and>
     log_get q' (entry_id (example_entry 30 0)) = Inl IndexError"
proof -
  have "prune_count example_log 17 = int 1" by (simp add: prune_count_def example_log_ok)
  from prune_shifts_lookups [OF example_log_ok(1) this] obtain q' where q': "prune example_log 17 = Inr q'"
    "\<And>i. 1 \<le> i \<and> i < 3 \<Longrightarrow> log_get q' (entry_id (lq_logs example_log ! i)) =
        (if i + 1 < 3 then Inr (Some (lq_logs example_log ! (i + 1))) else Inl IndexError)"
    by (auto simp: example_log_ok)
  from q'(2) [of 1] q'(2) [of 2] q'(1) show ?thesis by (simp add: example_log_ok numeral_2_eq_2)
qed

end
