(* ===== verification/Monitor_Node.thy ===== *)
theory Monitor_Node
  imports Snowflake_Ids Py_Prelude Complex_Main "HOL-Library.AList"
begin

text \<open>
  The state of the failure detector of a node (\<open>distributed/monitoring/monitor_service.py\<close>, class
  \<open>Monitor\<close>) with its server hooks, the messages it builds, the health checks with their retries,
  and the background loops. A handler is a function on the state; what it puts into
  \<open>_tasks_queue\<close> is a list of descriptions of tasks that run later. A coroutine is cut at its
  awaits, and what a remote call gave is an argument. Floating point numbers are reals; logging
  is left out. The operations are polymorphic in the record so that the replication controller,
  a subclass of \<open>Monitor\<close>, inherits them.
\<close>

section \<open>State\<close>

type_synonym address = "string \<times> int"

text \<open>
  The values of \<open>_node_statuses\<close>: the literals of \<open>HealthStatus\<close> and \<open>'inactive'\<close>, which
  \<open>deregister_node\<close> writes and no message can carry.
\<close>

datatype node_status = Initializing | WaitingHealth | Healthy | Suspect | Failed | Inactive

definition health_status :: "node_status \<Rightarrow> bool" where
  "health_status s \<longleftrightarrow> s \<noteq> Inactive"

definition healthy_status :: "node_status \<Rightarrow> bool" where
  "healthy_status s \<longleftrightarrow> s \<in> {Initializing, WaitingHealth, Healthy}"

record health_check =
  hc_to :: address
  hc_error :: "string option"
  target_host :: "string option"
  target_port :: "int option"
  target_status :: "node_status option"
  target_last_updated :: "int option"
  registered_nodes :: "(address \<times> int) list option"
  registered_count :: "int option"
  hc_source :: address
  source_status :: "node_status option"
  hc_status :: node_status

text \<open>Building a message validates it; the error of pydantic is a \<open>ValueError\<close>.\<close>

definition health_check_valid :: "health_check \<Rightarrow> bool" where
  "health_check_valid h \<longleftrightarrow>
     health_status (hc_status h) \<and> target_status h \<noteq> Some Inactive \<and> source_status h \<noteq> Some Inactive"

definition HealthCheck :: "health_check \<Rightarrow> health_check res" where
  "HealthCheck h = (if health_check_valid h then Inr h else Inl ValueError)"

datatype monitor_task =
    CancelSuspicionProbe address
  | RunHealthcheck address
  | PushSuspectUpdate address
  | PushState address
  | PushStateTcp address

record monitor_config =
  poll_retries :: int
  min_suspect_multiplier :: int
  max_suspect_multiplier :: int
  min_suspect_node_count :: int
  initial_expected_nodes :: int
  poll_timeout :: real
  poll_interval :: real
  suspect_max_age :: real
  failed_max_age :: real
  removed_max_age :: real

text \<open>
  The dictionaries with a default are functions, except \<open>registered_counts\<close>, whose values are
  counted. The others are association lists in the order of insertion.
\<close>

record monitor =
  node_address :: address
  config :: monitor_config
  own_health :: node_status
  error_context :: "string option"
  node_statuses :: "(address \<times> node_status) list"
  instance_ids :: "(address \<times> int) list"
  multipliers :: "address \<Rightarrow> int"
  confirmed_suspicions :: "address \<Rightarrow> int"
  registered_counts :: "(address \<times> int) list"
  suspect_nodes :: "address list"
  suspect_history :: "(address \<times> real) list"
  suspect_tasks :: "address set"
  latest_update :: "address \<Rightarrow> int"
  investigating :: "address \<Rightarrow> (address \<times> node_status) list"
  check_nodes_count :: int
  failed_nodes :: "(address \<times> real) list"
  removed_nodes :: "(address \<times> real) list"
  pending :: "monitor_task list"

definition Monitor_init :: "address \<Rightarrow> monitor_config \<Rightarrow> int \<Rightarrow> monitor" where
  "Monitor_init addr cfg check_nodes =
     \<lparr>node_address = addr, config = cfg, own_health = Initializing, error_context = None, node_statuses = [],
      instance_ids = [], multipliers = (\<lambda>_. 0), confirmed_suspicions = (\<lambda>_. 0), registered_counts = [],
      suspect_nodes = [], suspect_history = [], suspect_tasks = {}, latest_update = (\<lambda>_. 0),
      investigating = (\<lambda>_. []), check_nodes_count = check_nodes, failed_nodes = [], removed_nodes = [], pending = []\<rparr>"

section \<open>Helpers\<close>

text \<open>\<open>_check_is_not_self\<close>: both the host and the port have to differ.\<close>

definition check_is_not_self :: "'a monitor_scheme \<Rightarrow> address \<Rightarrow> bool" where
  "check_is_not_self n a \<longleftrightarrow> fst a \<noteq> fst (node_address n) \<and> snd a \<noteq> snd (node_address n)"

definition check_is_not_registered :: "'a monitor_scheme \<Rightarrow> address \<Rightarrow> bool" where
  "check_is_not_registered n a \<longleftrightarrow> map_of (node_statuses n) a = None"

definition healthy_members :: "'a monitor_scheme \<Rightarrow> address list" where
  "healthy_members n = map fst (filter (\<lambda>(a, s). s = Healthy) (node_statuses n))"

text \<open>The list comprehensions over \<open>_healthy_statuses\<close>.\<close>

definition monitors :: "'a monitor_scheme \<Rightarrow> address list" where
  "monitors n = map fst (filter (\<lambda>(a, s). healthy_status s) (node_statuses n))"

definition reduce_health_multiplier :: "'a monitor_scheme \<Rightarrow> address \<Rightarrow> int" where
  "reduce_health_multiplier n a = max (multipliers n a - int (length (healthy_members n))) 0"

definition increase_health_multiplier :: "'a monitor_scheme \<Rightarrow> address \<Rightarrow> int" where
  "increase_health_multiplier n a = min (multipliers n a + 1) (max_suspect_multiplier (config n))"

definition calculate_current_timeout :: "'a monitor_scheme \<Rightarrow> address \<Rightarrow> real" where
  "calculate_current_timeout n a =
     poll_timeout (config n) +
       of_int ((multipliers n a + 1) * max (int (length (healthy_members n))) (initial_expected_nodes (config n)))"

definition calculate_current_poll_interval :: "'a monitor_scheme \<Rightarrow> address \<Rightarrow> real" where
  "calculate_current_poll_interval n a = poll_interval (config n) * of_int (multipliers n a + 1)"

abbreviation set_status :: "address \<Rightarrow> node_status \<Rightarrow> 'a monitor_scheme \<Rightarrow> 'a monitor_scheme" where
  "set_status a s n \<equiv> n\<lparr>node_statuses := AList.update a s (node_statuses n)\<rparr>"

abbreviation set_instance :: "address \<Rightarrow> int \<Rightarrow> 'a monitor_scheme \<Rightarrow> 'a monitor_scheme" where
  "set_instance a i n \<equiv> n\<lparr>instance_ids := AList.update a i (instance_ids n)\<rparr>"

abbreviation set_multiplier :: "address \<Rightarrow> int \<Rightarrow> 'a monitor_scheme \<Rightarrow> 'a monitor_scheme" where
  "set_multiplier a k n \<equiv> n\<lparr>multipliers := (multipliers n)(a := k)\<rparr>"

abbreviation add_pending :: "monitor_task list \<Rightarrow> 'a monitor_scheme \<Rightarrow> 'a monitor_scheme" where
  "add_pending ts n \<equiv> n\<lparr>pending := pending n @ ts\<rparr>"

definition reduce_multiplier :: "'a monitor_scheme \<Rightarrow> address \<Rightarrow> 'a monitor_scheme" where
  "reduce_multiplier n a = set_multiplier a (reduce_health_multiplier n a) n"

definition increase_multiplier :: "'a monitor_scheme \<Rightarrow> address \<Rightarrow> 'a monitor_scheme" where
  "increase_multiplier n a = set_multiplier a (increase_health_multiplier n a) n"

text \<open>\<open>if host and port\<close>: an empty host and the port 0 count as missing.\<close>

definition given_address :: "string option \<Rightarrow> int option \<Rightarrow> address option" where
  "given_address h p =
     (case (h, p) of (Some h, Some p) \<Rightarrow> if h \<noteq> '''' \<and> p \<noteq> 0 then Some (h, p) else None | _ \<Rightarrow> None)"

text \<open>The fields most messages share.\<close>

definition health_message :: "'a monitor_scheme \<Rightarrow> address \<Rightarrow> health_check" where
  "health_message n dest =
     \<lparr>hc_to = dest, hc_error = None, target_host = None, target_port = None, target_status = None,
      target_last_updated = None, registered_nodes = None, registered_count = None, hc_source = node_address n,
      source_status = None, hc_status = own_health n\<rparr>"

section \<open>Server hooks\<close>

text \<open>
  \<open>register_node\<close>. The whole body is in a \<open>try\<close>: an exception ends the hook without a reply and
  keeps what was done before. \<open>node_address in self.failed_nodes\<close> compares a pair with triples
  and is always false. Reading a missing count inserts 0, also when the message has none.
\<close>

definition register_one :: "'a monitor_scheme \<Rightarrow> address \<times> int \<Rightarrow> 'a monitor_scheme" where
  "register_one n p =
     (let a = fst p;
          n = (if check_is_not_self n a \<and> check_is_not_registered n a
               then add_pending [CancelSuspicionProbe a] (set_status a Healthy n) else n)
      in set_instance a (snd p) n)"

definition count_of :: "'a monitor_scheme \<Rightarrow> address \<Rightarrow> int" where
  "count_of n a = (case map_of (registered_counts n) a of None \<Rightarrow> 0 | Some k \<Rightarrow> k)"

definition register_node :: "'a monitor_scheme \<Rightarrow> int \<Rightarrow> health_check \<Rightarrow> 'a monitor_scheme \<times> health_check option" where
  "register_node n shard_id h =
     (let source = hc_source h;
          n = (if check_is_not_self n source \<and> check_is_not_registered n source then set_status source Healthy n else n);
          n = set_instance source (sf_instance (snowflake_parse shard_id 0)) n;
          n = foldl register_one n (case registered_nodes h of None \<Rightarrow> [] | Some ns \<Rightarrow> ns);
          n = add_pending [CancelSuspicionProbe source] n
      in case registered_count h of
           None \<Rightarrow> (n\<lparr>registered_counts := AList.update source (count_of n source) (registered_counts n)\<rparr>, None)
         | Some c \<Rightarrow>
             (let n = n\<lparr>registered_counts := AList.update source (max c (count_of n source)) (registered_counts n)\<rparr>
              in (n, case HealthCheck ((health_message n source)\<lparr>registered_nodes := Some (instance_ids n),
                            registered_count := Some (int (length (instance_ids n)))\<rparr>) of
                       Inl _ \<Rightarrow> None | Inr r \<Rightarrow> Some r)))"

definition deregister_node :: "'a monitor_scheme \<Rightarrow> health_check \<Rightarrow> 'a monitor_scheme \<times> health_check res" where
  "deregister_node n h =
     (let source = hc_source h;
          known = map_of (node_statuses n) source;
          n = (if source \<in> suspect_tasks n then add_pending [CancelSuspicionProbe source] n else n);
          n = (if known \<noteq> None then set_status source Inactive n else n)
      in (n, HealthCheck (health_message n source)))"

text \<open>
  \<open>update_node_status\<close>. The comparison of a missing \<open>target_last_updated\<close> with an integer raises.
  The timestamp of an accepted status is not recorded.
\<close>

definition update_node_status :: "'a monitor_scheme \<Rightarrow> int \<Rightarrow> health_check \<Rightarrow> 'a monitor_scheme \<times> health_check res" where
  "update_node_status n shard_id h =
     (let node = (case given_address (target_host h) (target_port h) of None \<Rightarrow> hc_source h | Some a \<Rightarrow> a);
          status = (case target_status h of None \<Rightarrow> hc_status h | Some s \<Rightarrow> s);
          local_last_updated = latest_update n node;
          n = set_instance (hc_source h) (sf_instance (snowflake_parse shard_id 0)) n
      in case target_last_updated h of
           None \<Rightarrow> (n, Inl TypeError)
         | Some updated \<Rightarrow>
             (let n = (if updated > local_last_updated then set_status node status n else n);
                  n = reduce_multiplier n node
              in (n, HealthCheck (health_message n (hc_source h)))))"

definition update_as_suspect :: "'a monitor_scheme \<Rightarrow> health_check \<Rightarrow> 'a monitor_scheme \<times> health_check res" where
  "update_as_suspect n h =
     (let source = hc_source h;
          n = (if own_health n = Healthy then add_pending [RunHealthcheck source] (increase_multiplier n source) else n)
      in (n, HealthCheck (health_message n source)))"

text \<open>
  \<open>send_indirect_check\<close> awaits the acknowledgement and the health check of the target, in the order
  they complete, and reduces the multiplier of the target after each. Neither of the two raises, so
  the \<open>except\<close> branch of the hook is not reached; the reply is built from the state after both.
  The address of the target is an argument here and in \<open>update_acknowledged\<close>: the senders always
  fill it in.
\<close>

definition indirect_check_done :: "'a monitor_scheme \<Rightarrow> address \<Rightarrow> 'a monitor_scheme" where
  "indirect_check_done n target = reduce_multiplier n target"

definition indirect_check_reply :: "'a monitor_scheme \<Rightarrow> health_check \<Rightarrow> address \<Rightarrow> health_check res" where
  "indirect_check_reply n h target =
     HealthCheck ((health_message n (hc_source h))\<lparr>hc_source := target,
       target_status := map_of (node_statuses n) target, hc_error := error_context n\<rparr>)"

definition update_acknowledged :: "'a monitor_scheme \<Rightarrow> health_check \<Rightarrow> address \<Rightarrow> 'a monitor_scheme \<times> health_check res" where
  "update_acknowledged n h target =
     (let n = n\<lparr>investigating := (investigating n)(target := AList.update (hc_source h) (hc_status h) (investigating n target))\<rparr>
      in (n, HealthCheck (health_message n (hc_source h))))"

text \<open>
  \<open>update_node_health\<close>: the reply of a failed attempt is built from the same fields, so when the
  known status of the source cannot be sent the second attempt raises too.
\<close>

definition update_node_health :: "'a monitor_scheme \<Rightarrow> int \<Rightarrow> health_check \<Rightarrow> 'a monitor_scheme \<times> health_check res" where
  "update_node_health n shard_id h =
     (let source = hc_source h;
          known = map_of (node_statuses n) source;
          n = (if source \<in> suspect_tasks n then add_pending [CancelSuspicionProbe source] n else n);
          n = set_status source (hc_status h) n;
          n = n\<lparr>latest_update := (latest_update n)(source := sf_timestamp (snowflake_parse shard_id 0))\<rparr>
      in (n, HealthCheck ((health_message n source)\<lparr>source_status := known, hc_error := error_context n\<rparr>)))"

section \<open>Messages\<close>

definition submit_registration :: "'a monitor_scheme \<Rightarrow> address \<Rightarrow> health_check res" where
  "submit_registration n dest =
     HealthCheck ((health_message n dest)\<lparr>registered_nodes := Some (instance_ids n),
       registered_count := Some (int (length (instance_ids n))), hc_error := error_context n\<rparr>)"

text \<open>\<open>push_health_update\<close> and \<open>push_tcp_health_update\<close>, with the own status and error as the callers pass them.\<close>

definition push_health_update :: "'a monitor_scheme \<Rightarrow> address \<Rightarrow> string option \<Rightarrow> int option \<Rightarrow> health_check res" where
  "push_health_update n dest host port =
     HealthCheck ((health_message n dest)\<lparr>target_host := host, target_port := port,
       target_status := (case given_address host port of None \<Rightarrow> None | Some a \<Rightarrow> map_of (node_statuses n) a),
       hc_error := error_context n\<rparr>)"

definition push_acknowledge_check :: "'a monitor_scheme \<Rightarrow> address \<Rightarrow> address \<Rightarrow> health_check res" where
  "push_acknowledge_check n dest target =
     HealthCheck ((health_message n dest)\<lparr>target_host := Some (fst target), target_port := Some (snd target),
       hc_error := error_context n\<rparr>)"

definition request_indirect_check :: "'a monitor_scheme \<Rightarrow> address \<Rightarrow> address \<Rightarrow> health_check res" where
  "request_indirect_check n dest target =
     (case map_of (node_statuses n) target of
        None \<Rightarrow> Inl KeyError
      | Some s \<Rightarrow>
          HealthCheck ((health_message n dest)\<lparr>target_host := Some (fst target), target_port := Some (snd target),
            target_status := Some s, hc_error := error_context n\<rparr>))"

text \<open>\<open>push_status_update\<close> and \<open>push_tcp_status_update\<close>.\<close>

definition push_status_update :: "'a monitor_scheme \<Rightarrow> address \<Rightarrow> string option \<Rightarrow> int option \<Rightarrow> health_check res" where
  "push_status_update n dest host port =
     (let (status, updated) =
            (case given_address host port of
               None \<Rightarrow> (None, latest_update n dest)
             | Some a \<Rightarrow> (map_of (node_statuses n) a, latest_update n a))
      in HealthCheck ((health_message n dest)\<lparr>target_host := host, target_port := port, target_status := status,
           target_last_updated := Some updated, hc_error := error_context n\<rparr>))"

definition push_suspect_update :: "'a monitor_scheme \<Rightarrow> address \<Rightarrow> health_check res" where
  "push_suspect_update n dest = HealthCheck ((health_message n dest)\<lparr>hc_error := error_context n\<rparr>)"

definition request_deregistration :: "'a monitor_scheme \<Rightarrow> address \<Rightarrow> health_check res" where
  "request_deregistration n dest = HealthCheck ((health_message n dest)\<lparr>hc_error := error_context n\<rparr>)"

definition submit_leave_requests :: "'a monitor_scheme \<Rightarrow> health_check res list" where
  "submit_leave_requests n = map (request_deregistration n) (monitors n)"

section \<open>Calls with retries\<close>

text \<open>
  What an awaited call gave: a message of the expected class, the \<open>Message\<close> with an error that the connection returns
  when its own timeout strikes first, or an exception (the timeout of \<open>asyncio.wait_for\<close>).
\<close>

datatype 'r outcome = Reply int 'r | TransportError | Raised

text \<open>
  The local \<open>healthcheck\<close> after a try: a \<open>Message\<close> has been assigned to it before the missing
  attribute raises.
\<close>

datatype 'r call_end = Answered int 'r | GotMessage | GotNothing

text \<open>
  \<open>for idx in range(self._poll_retries)\<close>: \<open>attempt\<close> is the body of the loop, \<open>seen\<close> whether a
  \<open>Message\<close> has been assigned.
\<close>

fun retry_loop :: "('m \<Rightarrow> 'r outcome \<Rightarrow> 'm) \<Rightarrow> bool \<Rightarrow> 'm \<Rightarrow> 'r outcome list \<Rightarrow> 'm \<times> 'r call_end" where
  "retry_loop attempt seen n [] = (n, if seen then GotMessage else GotNothing)"
| "retry_loop attempt seen n (x # xs) =
     (case x of
        Reply sid h \<Rightarrow> (attempt n x, Answered sid h)
      | TransportError \<Rightarrow> retry_loop attempt True (attempt n x) xs
      | Raised \<Rightarrow> retry_loop attempt seen (attempt n x) xs)"

definition retries :: "'a monitor_scheme \<Rightarrow> 'r outcome list \<Rightarrow> 'r outcome list" where
  "retries n outcomes = take (nat (poll_retries (config n))) outcomes"

text \<open>
  One try of \<open>_run_tcp_healthcheck\<close> and of \<open>_run_healthcheck\<close>; the first does not check that the
  answer comes from another node.
\<close>

definition tcp_healthcheck_try :: "address \<Rightarrow> 'a monitor_scheme \<Rightarrow> health_check outcome \<Rightarrow> 'a monitor_scheme" where
  "tcp_healthcheck_try a n x =
     (case x of
        Reply sid h \<Rightarrow> reduce_multiplier (set_status (hc_source h) (hc_status h) n) a
      | _ \<Rightarrow> increase_multiplier n a)"

definition healthcheck_try :: "address \<Rightarrow> 'a monitor_scheme \<Rightarrow> health_check outcome \<Rightarrow> 'a monitor_scheme" where
  "healthcheck_try a n x =
     (case x of
        Reply sid h \<Rightarrow>
          reduce_multiplier (if check_is_not_self n (hc_source h) then set_status (hc_source h) (hc_status h) n else n) a
      | _ \<Rightarrow> increase_multiplier n a)"

text \<open>
  After the last try. The started suspect monitor is filed under the address that was called; it
  will take the newest of \<open>_suspect_nodes\<close>.
\<close>

definition healthcheck_failed :: "'a monitor_scheme \<Rightarrow> address \<Rightarrow> address option \<Rightarrow> 'r call_end \<Rightarrow> 'a monitor_scheme" where
  "healthcheck_failed n a target r =
     (let check = (case target of None \<Rightarrow> a | Some b \<Rightarrow> b)
      in if check_is_not_self n check \<and> r = GotNothing \<and> map_of (node_statuses n) check = Some Healthy
         then (set_status check Suspect n)\<lparr>suspect_nodes := suspect_nodes n @ [check], suspect_tasks := insert a (suspect_tasks n)\<rparr>
         else n)"

definition run_tries :: "(address \<Rightarrow> 'a monitor_scheme \<Rightarrow> 'r outcome \<Rightarrow> 'a monitor_scheme) \<Rightarrow> 'a monitor_scheme \<Rightarrow> address \<Rightarrow>
    address option \<Rightarrow> 'r outcome list \<Rightarrow> 'a monitor_scheme \<times> 'r call_end" where
  "run_tries attempt n a target outcomes =
     (case retry_loop (attempt a) False n (retries n outcomes) of
        (n, Answered sid h) \<Rightarrow> (n, Answered sid h)
      | (n, r) \<Rightarrow> (healthcheck_failed n a target r, r))"

definition run_tcp_healthcheck :: "'a monitor_scheme \<Rightarrow> address \<Rightarrow> address option \<Rightarrow> health_check outcome list \<Rightarrow> 'a monitor_scheme \<times> health_check call_end" where
  "run_tcp_healthcheck n a target outcomes = run_tries tcp_healthcheck_try n a target outcomes"

definition run_healthcheck :: "'a monitor_scheme \<Rightarrow> address \<Rightarrow> address option \<Rightarrow> health_check outcome list \<Rightarrow> 'a monitor_scheme \<times> health_check call_end" where
  "run_healthcheck n a target outcomes = run_tries healthcheck_try n a target outcomes"

text \<open>A try of \<open>_acknowledge_indirect_probe\<close>, which never changes a multiplier.\<close>

definition acknowledge_try :: "address \<Rightarrow> 'a monitor_scheme \<Rightarrow> health_check outcome \<Rightarrow> 'a monitor_scheme" where
  "acknowledge_try a n x =
     (case x of
        Reply sid h \<Rightarrow> if check_is_not_self n (hc_source h) then set_status (hc_source h) (hc_status h) n else n
      | _ \<Rightarrow> n)"

definition acknowledge_indirect_probe :: "'a monitor_scheme \<Rightarrow> address \<Rightarrow> health_check outcome list \<Rightarrow> 'a monitor_scheme \<times> health_check call_end" where
  "acknowledge_indirect_probe n a outcomes = retry_loop (acknowledge_try a) False n (retries n outcomes)"

text \<open>
  The hook \<open>send_indirect_check\<close> when nothing else runs between its awaits and the acknowledgement
  completes first.
\<close>

definition send_indirect_check :: "'a monitor_scheme \<Rightarrow> health_check \<Rightarrow> address \<Rightarrow> health_check outcome list \<Rightarrow> health_check outcome list \<Rightarrow>
    'a monitor_scheme \<times> health_check res" where
  "send_indirect_check n h target acks probes =
     (let n = indirect_check_done (fst (acknowledge_indirect_probe n (hc_source h) acks)) target;
          n = indirect_check_done (fst (run_healthcheck n target None probes)) target
      in (n, indirect_check_reply n h target))"

text \<open>
  A try of \<open>_push_status_update\<close>, and of \<open>_push_tcp_status_update\<close>, which reduces the multiplier
  before it looks at the answer.
\<close>

definition status_try :: "address \<Rightarrow> 'a monitor_scheme \<Rightarrow> health_check outcome \<Rightarrow> 'a monitor_scheme" where
  "status_try a n x =
     (case x of
        Reply sid h \<Rightarrow> if check_is_not_self n (hc_source h) then set_status (hc_source h) (hc_status h) n else n
      | _ \<Rightarrow> increase_multiplier n a)"

definition tcp_status_try :: "address \<Rightarrow> 'a monitor_scheme \<Rightarrow> health_check outcome \<Rightarrow> 'a monitor_scheme" where
  "tcp_status_try a n x =
     (case x of
        Reply sid h \<Rightarrow>
          (let n = reduce_multiplier n a
           in if check_is_not_self n (hc_source h) then set_status (hc_source h) (hc_status h) n else n)
      | TransportError \<Rightarrow> increase_multiplier (reduce_multiplier n a) a
      | Raised \<Rightarrow> increase_multiplier n a)"

definition push_status_tries :: "'a monitor_scheme \<Rightarrow> address \<Rightarrow> health_check outcome list \<Rightarrow> 'a monitor_scheme \<times> health_check call_end" where
  "push_status_tries n a outcomes = retry_loop (status_try a) False n (retries n outcomes)"

definition push_tcp_status_tries :: "'a monitor_scheme \<Rightarrow> address \<Rightarrow> health_check outcome list \<Rightarrow> 'a monitor_scheme \<times> health_check call_end" where
  "push_tcp_status_tries n a outcomes = retry_loop (tcp_status_try a) False n (retries n outcomes)"

text \<open>The targets of \<open>_push_state_to_node\<close> and \<open>_push_state_to_node_tcp\<close>.\<close>

definition push_state_targets :: "'a monitor_scheme \<Rightarrow> address \<Rightarrow> address list" where
  "push_state_targets n a = filter (\<lambda>b. fst a \<noteq> fst b \<and> snd a \<noteq> snd b) (healthy_members n)"

text \<open>\<open>_push_suspect_update\<close>: one call; the answer sets the status of the node that was called.\<close>

definition suspect_update_try :: "address \<Rightarrow> 'a monitor_scheme \<Rightarrow> health_check outcome \<Rightarrow> 'a monitor_scheme" where
  "suspect_update_try a n x =
     (case x of Reply sid h \<Rightarrow> if check_is_not_self n a then set_status a (hc_status h) n else n | _ \<Rightarrow> n)"

section \<open>Background loops\<close>

text \<open>
  One round of \<open>start_health_monitor\<close>: \<open>choice\<close> is the known node that \<open>random.choice\<close> picked, None
  when there is none. One round of the state synchronisations.
\<close>

definition health_monitor_tick :: "'a monitor_scheme \<Rightarrow> address option \<Rightarrow> 'a monitor_scheme" where
  "health_monitor_tick n choice =
     (case choice of
        None \<Rightarrow> n
      | Some a \<Rightarrow>
          (case map_of (node_statuses n) a of
             Some s \<Rightarrow> if healthy_status s then add_pending [RunHealthcheck a] n else n
           | None \<Rightarrow> n))"

definition udp_sync_tick :: "'a monitor_scheme \<Rightarrow> 'a monitor_scheme" where
  "udp_sync_tick n = add_pending (map PushState (monitors n)) n"

definition tcp_sync_tick :: "'a monitor_scheme \<Rightarrow> 'a monitor_scheme" where
  "tcp_sync_tick n = add_pending (map PushStateTcp (monitors n)) n"

text \<open>\<open>_cancel_suspicion_probe\<close>; the task it cancels stops at its next await.\<close>

definition cancel_suspicion_probe :: "'a monitor_scheme \<Rightarrow> address \<Rightarrow> 'a monitor_scheme" where
  "cancel_suspicion_probe n a = n\<lparr>suspect_tasks := suspect_tasks n - {a}\<rparr>"

text \<open>
  One round of \<open>cleanup_pending_checks\<close> after the finished tasks are gone: \<open>now\<close> is the clock, read
  as often as the code does with the same value. A failed node goes to the removed nodes at once;
  it leaves one of the two lists in a round, the failed nodes first.
\<close>

definition expire_suspects :: "'a monitor_scheme \<Rightarrow> real \<Rightarrow> 'a monitor_scheme" where
  "expire_suspects n now =
     n\<lparr>suspect_history := foldl (\<lambda>ns p. if now - snd p \<ge> suspect_max_age (config n) then remove1 p ns else ns)
         (suspect_history n) (suspect_history n)\<rparr>"

definition expire_failed_one :: "real \<Rightarrow> 'a monitor_scheme \<Rightarrow> address \<times> real \<Rightarrow> 'a monitor_scheme" where
  "expire_failed_one now n p =
     (let n = (if p \<notin> set (removed_nodes n) then n\<lparr>removed_nodes := removed_nodes n @ [p]\<rparr> else n)
      in if now - snd p \<ge> failed_max_age (config n) then n\<lparr>failed_nodes := remove1 p (failed_nodes n)\<rparr>
         else if now - snd p \<ge> removed_max_age (config n) then n\<lparr>removed_nodes := remove1 p (removed_nodes n)\<rparr>
         else n)"

definition expire_failed :: "'a monitor_scheme \<Rightarrow> real \<Rightarrow> 'a monitor_scheme" where
  "expire_failed n now = foldl (expire_failed_one now) n (failed_nodes n)"

definition cleanup_tick :: "'a monitor_scheme \<Rightarrow> (monitor_task \<Rightarrow> bool) \<Rightarrow> real \<Rightarrow> 'a monitor_scheme" where
  "cleanup_tick n finished now =
     expire_failed (expire_suspects (n\<lparr>pending := filter (\<lambda>t. \<not> finished t) (pending n)\<rparr>) now) now"

text \<open>\<open>register\<close> up to its first await and after it: the bootstrap node counts as healthy unseen.\<close>

definition start_register :: "'a monitor_scheme \<Rightarrow> address \<Rightarrow> 'a monitor_scheme" where
  "start_register n bootstrap = set_status bootstrap Healthy (n\<lparr>own_health := Healthy\<rparr>)"

end
