(* ===== verification/Monitor_Suspicion.thy ===== *)
theory Monitor_Suspicion
  imports Monitor_Node "HOL-Library.Multiset"
begin

text \<open>
  The suspicion of a node in \<open>distributed/monitoring/monitor_service.py\<close>: the timeouts, the
  indirect probe and the verdict it gives, the suspect monitor cut at its awaits, its undisturbed
  run, and the reachable states of a node with the monitors that run on it. The properties of the
  failure detector are in the last section.
\<close>

section \<open>Timeouts\<close>

text \<open>\<open>round(x, 2)\<close>: to the nearest hundredth, ties to even. Floating point numbers are reals.\<close>

definition py_round :: "real \<Rightarrow> int" where
  "py_round x =
     (let f = \<lfloor>x\<rfloor>; d = x - of_int f
      in if d < 1 / 2 then f else if d > 1 / 2 then f + 1 else if even f then f else f + 1)"

definition round2 :: "real \<Rightarrow> real" where
  "round2 x = of_int (py_round (x * 100)) / 100"

text \<open>
  A subclass may replace \<open>_calculate_current_timeout\<close>, so its value is an argument.
\<close>

definition calculate_min_suspect_timeout :: "'a monitor_scheme \<Rightarrow> real \<Rightarrow> real" where
  "calculate_min_suspect_timeout n current =
     round2 (of_int (min_suspect_multiplier (config n)) * log 10 (real (length (node_statuses n) + 1)) * current)"

definition calculate_max_suspect_timeout :: "'a monitor_scheme \<Rightarrow> real \<Rightarrow> real" where
  "calculate_max_suspect_timeout n min_timeout = round2 (of_int (max_suspect_multiplier (config n)) * min_timeout)"

text \<open>\<open>math.log\<close> raises a \<open>ValueError\<close> outside its domain, and the quotient by \<open>math.log(1)\<close> a
  \<open>ZeroDivisionError\<close>.\<close>

definition calculate_suspicion_timeout :: "'a monitor_scheme \<Rightarrow> real \<Rightarrow> address \<Rightarrow> real res" where
  "calculate_suspicion_timeout n current a =
     (let min_timeout = calculate_min_suspect_timeout n current;
          max_timeout = calculate_max_suspect_timeout n min_timeout;
          confirmed = max 0 (confirmed_suspicions n a);
          threshold = min_suspect_node_count (config n)
      in if threshold < 0 then Inl ValueError
         else if threshold = 0 then Inl (GenericException ''ZeroDivisionError'')
         else Inr (max min_timeout
                (max_timeout - (max_timeout - min_timeout) * (ln (of_int (confirmed + 1)) / ln (of_int (threshold + 1))))))"

section \<open>The indirect probe\<close>

text \<open>A requested check: its reply, anything else that is not a health check, or not done in time.\<close>

datatype check_result = CheckReply int health_check | CheckError | CheckPending

definition check_replies :: "check_result list \<Rightarrow> (int \<times> health_check) list" where
  "check_replies rs = List.map_filter (\<lambda>r. case r of CheckReply sid h \<Rightarrow> Some (sid, h) | _ \<Rightarrow> None) rs"

definition sorted_checks :: "check_result list \<Rightarrow> (int \<times> health_check) list" where
  "sorted_checks rs = sort_key (\<lambda>(sid, h). sf_timestamp (snowflake_parse sid 0)) (check_replies rs)"

definition checks_with :: "node_status \<Rightarrow> check_result list \<Rightarrow> (int \<times> health_check) list" where
  "checks_with s rs = filter (\<lambda>(sid, h). target_status h = Some s) (sorted_checks rs)"

definition newer_count :: "int \<Rightarrow> (int \<times> health_check) list \<Rightarrow> nat" where
  "newer_count suspect_id healthy = foldl (\<lambda>k p. if suspect_id > fst p then k + 1 else k) 0 healthy"

definition count_suspects :: "check_result list \<Rightarrow> nat" where
  "count_suspects rs =
     (let pending_checks = filter (\<lambda>r. r = CheckPending) rs;
          errors = filter (\<lambda>r. r = CheckError) rs;
          suspect = checks_with Suspect rs;
          healthy = checks_with Healthy rs
      in if length healthy < 1 then length suspect + length pending_checks + length errors
         else length (filter (\<lambda>p. newer_count (fst p) healthy \<ge> length healthy) suspect) + length pending_checks + length errors)"

text \<open>The own TCP check is one of the checks: finished, or cancelled after some tries.\<close>

datatype own_check = OwnFinished "health_check outcome list" | OwnCancelled "health_check outcome list"

definition run_own_check :: "'a monitor_scheme \<Rightarrow> address \<Rightarrow> own_check \<Rightarrow> 'a monitor_scheme \<times> check_result" where
  "run_own_check n a c =
     (case c of
        OwnFinished outcomes \<Rightarrow>
          (case run_tcp_healthcheck n a None outcomes of
             (n, Answered sid h) \<Rightarrow> (n, CheckReply sid h)
           | (n, _) \<Rightarrow> (n, CheckError))
      | OwnCancelled outcomes \<Rightarrow> (fst (retry_loop (tcp_healthcheck_try a) False n (retries n outcomes)), CheckPending))"

text \<open>
  \<open>_request_indirect_probe\<close>: \<open>answers\<close> are the results of the requests to the confirmation members.
  A request that cannot be built is an error like an exception of the call.
\<close>

definition indirect_requests :: "'a monitor_scheme \<Rightarrow> address \<Rightarrow> address list \<Rightarrow> health_check res list" where
  "indirect_requests n a members = map (\<lambda>b. request_indirect_check n b a) members"

definition request_indirect_probe :: "'a monitor_scheme \<Rightarrow> address \<Rightarrow> check_result list \<Rightarrow> own_check \<Rightarrow> 'a monitor_scheme \<times> nat" where
  "request_indirect_probe n a answers own =
     (case run_own_check n a own of (n, r) \<Rightarrow> (n, count_suspects (answers @ [r])))"

section \<open>The suspect monitor\<close>

text \<open>
  The start: the newest suspect is taken. \<open>address not in self._suspect_history\<close> compares a pair with
  triples and is always true.
\<close>

definition suspect_begin :: "'a monitor_scheme \<Rightarrow> real \<Rightarrow> 'a monitor_scheme \<times> address option" where
  "suspect_begin n now =
     (if suspect_nodes n = [] then (n, None)
      else (let a = last (suspect_nodes n);
                n = n\<lparr>suspect_nodes := butlast (suspect_nodes n)\<rparr>
            in if check_is_not_self n a then (n\<lparr>suspect_history := suspect_history n @ [(a, now)]\<rparr>, Some a)
               else (n, None)))"

text \<open>
  The head of the loop, with the time spent so far and the value of \<open>_calculate_current_timeout\<close>: the
  status of the suspect has to be known.
\<close>

definition suspect_continues :: "'a monitor_scheme \<Rightarrow> real \<Rightarrow> real \<Rightarrow> address \<Rightarrow> bool res" where
  "suspect_continues n current elapsed a =
     (case map_of (node_statuses n) a of
        None \<Rightarrow> Inl KeyError
      | Some s \<Rightarrow>
          (case calculate_suspicion_timeout n current a of
             Inl e \<Rightarrow> Inl e
           | Inr t \<Rightarrow> Inr (elapsed < t \<and> s = Suspect)))"

text \<open>
  \<open>_get_confirmation_members\<close>: \<open>sample\<close> is \<open>random.sample\<close>, which refuses a negative count. The number
  of nodes to ask is lowered when fewer are known, for good.
\<close>

definition other_nodes :: "'a monitor_scheme \<Rightarrow> address \<Rightarrow> address list" where
  "other_nodes n a = filter (\<lambda>b. b \<noteq> a) (map fst (node_statuses n))"

definition get_confirmation_members :: "(address list \<Rightarrow> nat \<Rightarrow> address list) \<Rightarrow> 'a monitor_scheme \<Rightarrow> address \<Rightarrow>
    'a monitor_scheme \<times> address list res" where
  "get_confirmation_members sample n a =
     (let others = other_nodes n a;
          n = n\<lparr>check_nodes_count := min (check_nodes_count n) (int (length others))\<rparr>
      in (n, if check_nodes_count n < 0 then Inl ValueError else Inr (sample others (nat (check_nodes_count n)))))"

text \<open>A round up to the probe, and from the answer of the probe to the next await.\<close>

definition suspect_round :: "(address list \<Rightarrow> nat \<Rightarrow> address list) \<Rightarrow> 'a monitor_scheme \<Rightarrow> address \<Rightarrow>
    'a monitor_scheme \<times> address list res" where
  "suspect_round sample n a = get_confirmation_members sample (add_pending [PushSuspectUpdate a] n) a"

definition suspect_verdict :: "'a monitor_scheme \<Rightarrow> address \<Rightarrow> nat \<Rightarrow> nat \<Rightarrow> 'a monitor_scheme \<times> bool" where
  "suspect_verdict n a members suspect_count =
     (let n = n\<lparr>confirmed_suspicions := (confirmed_suspicions n)(a := confirmed_suspicions n a + max 0 (int suspect_count - 1))\<rparr>;
          acks = int (length (investigating n a));
          missing = int members - acks;
          n = (if multipliers n a + missing - acks < 0 then set_multiplier a 0 n else increase_multiplier n a)
      in if suspect_count < members
         then (set_status a Healthy (n\<lparr>investigating := (investigating n)(a := []),
                 confirmed_suspicions := (confirmed_suspicions n)(a := 0)\<rparr>), True)
         else (n, False))"

definition suspect_end :: "'a monitor_scheme \<Rightarrow> address \<Rightarrow> 'a monitor_scheme" where
  "suspect_end n a =
     (let n = (if map_of (node_statuses n) a = Some Suspect
               then (let n = set_status a Failed n in add_pending (map PushState (monitors n)) n) else n)
      in n\<lparr>investigating := (investigating n)(a := []), confirmed_suspicions := (confirmed_suspicions n)(a := 0)\<rparr>)"

text \<open>
  The whole monitor when nothing else runs between its awaits. A round is what its probe met and
  the time elapsed after it; without a further round the monitor is still running (None).
\<close>

record probe_round =
  answers :: "check_result list"
  own :: own_check
  elapsed_after :: real

fun suspect_rounds :: "(address list \<Rightarrow> nat \<Rightarrow> address list) \<Rightarrow> ('a monitor_scheme \<Rightarrow> address \<Rightarrow> real) \<Rightarrow> 'a monitor_scheme \<Rightarrow> address \<Rightarrow>
    real \<Rightarrow> probe_round list \<Rightarrow> ('a monitor_scheme \<times> unit res) option" where
  "suspect_rounds sample current n a elapsed rs =
     (case suspect_continues n (current n a) elapsed a of
        Inl e \<Rightarrow> Some (n, Inl e)
      | Inr False \<Rightarrow> Some (suspect_end n a, Inr ())
      | Inr True \<Rightarrow>
          (case rs of
             [] \<Rightarrow> None
           | r # rs \<Rightarrow>
               (case suspect_round sample n a of
                  (n, Inl e) \<Rightarrow> Some (n, Inl e)
                | (n, Inr members) \<Rightarrow>
                    (case request_indirect_probe n a (take (length members) (answers r)) (own r) of
                       (n, k) \<Rightarrow>
                         (case suspect_verdict n a (length members) k of
                            (n, True) \<Rightarrow> Some (suspect_end n a, Inr ())
                          | (n, False) \<Rightarrow> suspect_rounds sample current n a (elapsed_after r) rs)))))"

declare suspect_rounds.simps [simp del]


section \<open>Reachable states\<close>

text \<open>
  The runs of a node: every hook, try and background task at any time and in any order, with any
  message and any answer. The last argument lists the suspects of the suspect monitors that run; a
  monitor may be cancelled at any of its awaits.
\<close>

inductive monitor_run :: "monitor \<Rightarrow> monitor \<Rightarrow> address list \<Rightarrow> bool" for n0 where
  monitor_start: "monitor_run n0 n0 []"
| on_register: "monitor_run n0 n ws \<Longrightarrow> monitor_run n0 (fst (register_node n sid h)) ws"
| on_deregister: "monitor_run n0 n ws \<Longrightarrow> monitor_run n0 (fst (deregister_node n h)) ws"
| on_status: "monitor_run n0 n ws \<Longrightarrow> monitor_run n0 (fst (update_node_status n sid h)) ws"
| on_suspect: "monitor_run n0 n ws \<Longrightarrow> monitor_run n0 (fst (update_as_suspect n h)) ws"
| on_acknowledged: "monitor_run n0 n ws \<Longrightarrow> monitor_run n0 (fst (update_acknowledged n h a)) ws"
| on_health: "monitor_run n0 n ws \<Longrightarrow> monitor_run n0 (fst (update_node_health n sid h)) ws"
| on_indirect: "monitor_run n0 n ws \<Longrightarrow> monitor_run n0 (indirect_check_done n a) ws"
| on_try: "monitor_run n0 n ws \<Longrightarrow>
    attempt \<in> {tcp_healthcheck_try, healthcheck_try, acknowledge_try, status_try, tcp_status_try, suspect_update_try} \<Longrightarrow>
    monitor_run n0 (attempt a n x) ws"
| on_failed: "monitor_run n0 n ws \<Longrightarrow> monitor_run n0 (healthcheck_failed n a target (r :: health_check call_end)) ws"
| on_tick: "monitor_run n0 n ws \<Longrightarrow> monitor_run n0 (health_monitor_tick n choice) ws"
| on_udp_sync: "monitor_run n0 n ws \<Longrightarrow> monitor_run n0 (udp_sync_tick n) ws"
| on_tcp_sync: "monitor_run n0 n ws \<Longrightarrow> monitor_run n0 (tcp_sync_tick n) ws"
| on_cleanup: "monitor_run n0 n ws \<Longrightarrow> monitor_run n0 (cleanup_tick n finished now) ws"
| on_boot: "monitor_run n0 n ws \<Longrightarrow> monitor_run n0 (start_register n a) ws"
| on_cancel: "monitor_run n0 n ws \<Longrightarrow> monitor_run n0 (cancel_suspicion_probe n a) (remove1 b ws)"
| on_begin: "monitor_run n0 n ws \<Longrightarrow> suspect_begin n now = (n', r) \<Longrightarrow>
    monitor_run n0 n' (case r of None \<Rightarrow> ws | Some a \<Rightarrow> a # ws)"
| on_round: "monitor_run n0 n ws \<Longrightarrow> a \<in> set ws \<Longrightarrow> monitor_run n0 (fst (suspect_round sample n a)) ws"
| on_verdict: "monitor_run n0 n ws \<Longrightarrow> a \<in> set ws \<Longrightarrow> monitor_run n0 (fst (suspect_verdict n a members k)) ws"
| on_end: "monitor_run n0 n ws \<Longrightarrow> a \<in> set ws \<Longrightarrow> monitor_run n0 (suspect_end n a) (remove1 a ws)"

definition known :: "'a monitor_scheme \<Rightarrow> address set" where
  "known n = fst ` set (node_statuses n)"

definition monitor_ok :: "monitor_config \<Rightarrow> monitor \<Rightarrow> address list \<Rightarrow> bool" where
  "monitor_ok cfg n ws \<longleftrightarrow>
     config n = cfg \<and> health_status (own_health n) \<and> 0 \<le> check_nodes_count n \<and>
     distinct (map fst (node_statuses n)) \<and> distinct (map fst (instance_ids n)) \<and> distinct (map fst (registered_counts n)) \<and>
     (\<forall>a. 0 \<le> multipliers n a \<and> multipliers n a \<le> max_suspect_multiplier cfg \<and> 0 \<le> confirmed_suspicions n a \<and>
       distinct (map fst (investigating n a))) \<and>
     set (suspect_nodes n) \<union> set ws \<subseteq> known n"

named_theorems monitor_steps \<open>each operation of a monitor keeps its invariant\<close>

lemma known_update [simp]: "known (set_status a s n) = insert a (known n)"
  by (simp add: known_def dom_update)

lemma known_cong: "node_statuses n = node_statuses m \<Longrightarrow> known n = known m"
  by (simp add: known_def)

lemma ok_set_status [monitor_steps]: "monitor_ok cfg n ws \<Longrightarrow> node_statuses n = xs \<Longrightarrow> monitor_ok cfg (n\<lparr>node_statuses := AList.update a s xs\<rparr>) ws"
  by (auto simp: monitor_ok_def known_def dom_update distinct_update)

lemma ok_set_instance [monitor_steps]: "monitor_ok cfg n ws \<Longrightarrow> instance_ids n = xs \<Longrightarrow> monitor_ok cfg (n\<lparr>instance_ids := AList.update a i xs\<rparr>) ws"
  by (auto simp: monitor_ok_def known_def distinct_update)

lemma ok_pending [monitor_steps]: "monitor_ok cfg n ws \<Longrightarrow> monitor_ok cfg (n\<lparr>pending := ts\<rparr>) ws"
  by (simp add: monitor_ok_def known_def)

lemma ok_tasks [monitor_steps]: "monitor_ok cfg n ws \<Longrightarrow> monitor_ok cfg (n\<lparr>suspect_tasks := ts\<rparr>) ws"
  by (simp add: monitor_ok_def known_def)

lemma ok_latest [monitor_steps]: "monitor_ok cfg n ws \<Longrightarrow> monitor_ok cfg (n\<lparr>latest_update := us\<rparr>) ws"
  by (simp add: monitor_ok_def known_def)

lemma ok_history [monitor_steps]: "monitor_ok cfg n ws \<Longrightarrow> monitor_ok cfg (n\<lparr>suspect_history := hs\<rparr>) ws"
  by (simp add: monitor_ok_def known_def)

lemma ok_multiplier:
  "monitor_ok cfg n ws \<Longrightarrow> 0 \<le> k \<Longrightarrow> k \<le> max_suspect_multiplier cfg \<Longrightarrow> monitor_ok cfg (set_multiplier a k n) ws"
  by (simp add: monitor_ok_def known_def)

lemma ok_range:
  assumes "monitor_ok cfg n ws"
  shows "0 \<le> multipliers n a" "multipliers n a \<le> max_suspect_multiplier cfg" "config n = cfg"
  using assms unfolding monitor_ok_def by blast+

lemma ok_reduce [monitor_steps]:
  assumes "monitor_ok cfg n ws"
  shows "monitor_ok cfg (reduce_multiplier n a) ws"
  using ok_range(1,2) [OF assms, of a] ok_range(3) [OF assms] unfolding reduce_multiplier_def reduce_health_multiplier_def
  by (intro ok_multiplier [OF assms]) simp_all

lemma ok_increase [monitor_steps]:
  assumes "monitor_ok cfg n ws"
  shows "monitor_ok cfg (increase_multiplier n a) ws"
  using ok_range(1,2) [OF assms, of a] ok_range(3) [OF assms] unfolding increase_multiplier_def increase_health_multiplier_def
  by (intro ok_multiplier [OF assms]) simp_all

lemma ok_register_one: "monitor_ok cfg n ws \<Longrightarrow> monitor_ok cfg (register_one n p) ws"
  by (simp add: register_one_def Let_def monitor_steps)

lemma ok_register_all: "monitor_ok cfg n ws \<Longrightarrow> monitor_ok cfg (foldl register_one n ps) ws"
  by (induction ps arbitrary: n) (simp_all add: ok_register_one)

lemma ok_counts [monitor_steps]: "monitor_ok cfg n ws \<Longrightarrow> registered_counts n = xs \<Longrightarrow> monitor_ok cfg (n\<lparr>registered_counts := AList.update a k xs\<rparr>) ws"
  by (auto simp: monitor_ok_def known_def distinct_update)

lemma ok_register: "monitor_ok cfg n ws \<Longrightarrow> monitor_ok cfg (fst (register_node n sid h)) ws"
  by (simp add: register_node_def Let_def monitor_steps ok_register_all split: option.split)

lemma ok_deregister: "monitor_ok cfg n ws \<Longrightarrow> monitor_ok cfg (fst (deregister_node n h)) ws"
  by (simp add: deregister_node_def Let_def monitor_steps)

lemma ok_update_status: "monitor_ok cfg n ws \<Longrightarrow> monitor_ok cfg (fst (update_node_status n sid h)) ws"
  by (simp add: update_node_status_def Let_def monitor_steps split: option.split)

lemma ok_update_as_suspect: "monitor_ok cfg n ws \<Longrightarrow> monitor_ok cfg (fst (update_as_suspect n h)) ws"
  by (simp add: update_as_suspect_def Let_def monitor_steps)

lemma ok_investigating:
  "monitor_ok cfg n ws \<Longrightarrow> investigating n = f \<Longrightarrow> distinct (map fst xs) \<Longrightarrow> monitor_ok cfg (n\<lparr>investigating := f(a := xs)\<rparr>) ws"
  by (simp add: monitor_ok_def known_def)

lemma ok_acknowledged:
  assumes "monitor_ok cfg n ws"
  shows "monitor_ok cfg (fst (update_acknowledged n h a)) ws"
proof -
  have "distinct (map fst (investigating n a))" using assms unfolding monitor_ok_def by blast
  then show ?thesis using assms by (simp add: update_acknowledged_def Let_def ok_investigating distinct_update)
qed

lemma ok_update_health: "monitor_ok cfg n ws \<Longrightarrow> monitor_ok cfg (fst (update_node_health n sid h)) ws"
  by (simp add: update_node_health_def Let_def monitor_steps)

lemma ok_try:
  assumes "monitor_ok cfg n ws"
    "attempt \<in> {tcp_healthcheck_try, healthcheck_try, acknowledge_try, status_try, tcp_status_try, suspect_update_try}"
  shows "monitor_ok cfg (attempt a n x) ws"
  using assms
  by (auto simp: tcp_healthcheck_try_def healthcheck_try_def acknowledge_try_def status_try_def tcp_status_try_def
      suspect_update_try_def Let_def monitor_steps split: outcome.split)

lemma ok_failed: "monitor_ok cfg n ws \<Longrightarrow> monitor_ok cfg (healthcheck_failed n a target r) ws"
  by (auto simp: healthcheck_failed_def Let_def monitor_ok_def known_def dom_update distinct_update split: option.split)

lemma ok_ticks:
  assumes "monitor_ok cfg n ws"
  shows "monitor_ok cfg (health_monitor_tick n choice) ws" "monitor_ok cfg (udp_sync_tick n) ws"
    "monitor_ok cfg (tcp_sync_tick n) ws" "monitor_ok cfg (cancel_suspicion_probe n a) ws"
    "monitor_ok cfg (indirect_check_done n a) ws"
  using assms by (simp_all add: health_monitor_tick_def udp_sync_tick_def tcp_sync_tick_def cancel_suspicion_probe_def
      indirect_check_done_def monitor_steps split: option.split)

lemma ok_removed [monitor_steps]:
  "monitor_ok cfg n ws \<Longrightarrow> monitor_ok cfg (n\<lparr>removed_nodes := rs\<rparr>) ws"
  "monitor_ok cfg n ws \<Longrightarrow> monitor_ok cfg (n\<lparr>failed_nodes := rs\<rparr>) ws"
  by (simp_all add: monitor_ok_def known_def)

lemma ok_expire: "monitor_ok cfg n ws \<Longrightarrow> monitor_ok cfg (foldl (expire_failed_one now) n ps) ws"
proof (induction ps arbitrary: n)
  case (Cons p ps)
  have "monitor_ok cfg (expire_failed_one now n p) ws"
    using Cons.prems by (simp add: expire_failed_one_def Let_def monitor_steps)
  then show ?case using Cons.IH by simp
qed simp

lemma ok_cleanup: "monitor_ok cfg n ws \<Longrightarrow> monitor_ok cfg (cleanup_tick n finished now) ws"
  by (simp add: cleanup_tick_def expire_failed_def expire_suspects_def ok_expire monitor_steps)

lemma ok_boot: "monitor_ok cfg n ws \<Longrightarrow> monitor_ok cfg (start_register n a) ws"
  by (auto simp: start_register_def monitor_ok_def known_def dom_update distinct_update health_status_def)

lemma ok_fewer: "monitor_ok cfg n ws \<Longrightarrow> monitor_ok cfg n (remove1 b ws)"
  by (auto simp: monitor_ok_def dest: set_remove1_subset [THEN subsetD])

lemma ok_begin:
  assumes "monitor_ok cfg n ws" "suspect_begin n now = (n', r)"
  shows "monitor_ok cfg n' (case r of None \<Rightarrow> ws | Some a \<Rightarrow> a # ws)"
proof (cases "suspect_nodes n = []")
  case True
  then show ?thesis using assms by (auto simp: suspect_begin_def)
next
  case False
  define a m where "a = last (suspect_nodes n)" and "m = n\<lparr>suspect_nodes := butlast (suspect_nodes n)\<rparr>"
  have s: "set (suspect_nodes n) \<subseteq> known n" using assms(1) by (simp add: monitor_ok_def)
  have "monitor_ok cfg m (a # ws)"
    using assms(1) s False by (auto simp: monitor_ok_def known_def m_def a_def dest!: in_set_butlastD)
  then have "monitor_ok cfg m (a # ws)" "monitor_ok cfg m ws" by (simp_all add: monitor_ok_def)
  then show ?thesis using assms(2) False
    by (auto simp: suspect_begin_def Let_def m_def [symmetric] a_def [symmetric] monitor_steps split: if_splits)
qed

lemma ok_round: "monitor_ok cfg n ws \<Longrightarrow> monitor_ok cfg (fst (suspect_round sample n a)) ws"
  by (simp add: suspect_round_def get_confirmation_members_def Let_def monitor_ok_def known_def)

lemma ok_confirmed:
  "monitor_ok cfg n ws \<Longrightarrow> confirmed_suspicions n = f \<Longrightarrow> 0 \<le> k \<Longrightarrow> monitor_ok cfg (n\<lparr>confirmed_suspicions := f(a := k)\<rparr>) ws"
  by (simp add: monitor_ok_def known_def)

lemma ok_verdict:
  assumes "monitor_ok cfg n ws"
  shows "monitor_ok cfg (fst (suspect_verdict n a members k)) ws"
proof -
  have c: "0 \<le> confirmed_suspicions n a" and m: "0 \<le> max_suspect_multiplier cfg"
    using assms ok_range(1,2) [OF assms, of a] unfolding monitor_ok_def by (blast, linarith)
  define n1 where "n1 = n\<lparr>confirmed_suspicions := (confirmed_suspicions n)(a := confirmed_suspicions n a + max 0 (int k - 1))\<rparr>"
  define n2 where "n2 = (if multipliers n1 a + (int members - int (length (investigating n1 a))) - int (length (investigating n1 a)) < 0
    then set_multiplier a 0 n1 else increase_multiplier n1 a)"
  have "monitor_ok cfg n1 ws" unfolding n1_def using c by (intro ok_confirmed [OF assms]) simp_all
  then have "monitor_ok cfg n2 ws" using m by (simp add: n2_def ok_multiplier monitor_steps)
  moreover have "fst (suspect_verdict n a members k) =
      (if k < members then set_status a Healthy (n2\<lparr>investigating := (investigating n2)(a := []),
         confirmed_suspicions := (confirmed_suspicions n2)(a := 0)\<rparr>) else n2)"
    by (simp only: suspect_verdict_def Let_def n1_def [symmetric] n2_def [symmetric]) (simp split: if_split)
  ultimately show ?thesis by (simp add: monitor_steps ok_investigating ok_confirmed)
qed

lemma ok_end:
  assumes "monitor_ok cfg n ws"
  shows "monitor_ok cfg (suspect_end n a) ws"
  using assms by (simp add: suspect_end_def Let_def monitor_steps ok_investigating ok_confirmed)

lemmas monitor_handlers =
  ok_register ok_deregister ok_update_status ok_update_as_suspect ok_acknowledged ok_update_health ok_try ok_failed
  ok_ticks ok_cleanup ok_boot ok_round ok_verdict ok_end ok_fewer

lemma monitor_run_ok: "monitor_run n0 n ws \<Longrightarrow> monitor_ok cfg n0 [] \<Longrightarrow> monitor_ok cfg n ws"
proof (induction rule: monitor_run.induct)
  case (on_begin n ws now n' r)
  then show ?case using ok_begin by blast
qed (assumption | simp add: monitor_handlers)+

lemma init_ok:
  "0 \<le> max_suspect_multiplier cfg \<Longrightarrow> 0 \<le> k \<Longrightarrow> monitor_ok cfg (Monitor_init addr cfg k) []"
  by (simp add: monitor_ok_def Monitor_init_def health_status_def)

lemma known_status: "a \<in> known n \<Longrightarrow> \<exists>s. map_of (node_statuses n) a = Some s"
  by (auto simp: known_def dest: weak_map_of_SomeI)

section \<open>Properties\<close>

text \<open>C22: whatever messages, answers and interleavings a node meets, its tables keep one entry for each
  address, its own status stays one a message can carry, every health multiplier stays between
  0 and its maximum, and a suspect monitor that runs never fails on an unknown suspect or on a
  negative number of nodes to ask.\<close>

theorem monitor_well_formed:
  assumes "monitor_run (Monitor_init addr cfg k) n ws" "0 \<le> max_suspect_multiplier cfg" "0 \<le> k"
  shows "monitor_ok cfg n ws \<and> (\<forall>a \<in> set ws. suspect_continues n current elapsed a \<noteq> Inl KeyError \<and>
    (\<exists>members. snd (suspect_round sample n a) = Inr members) \<and>
    (\<forall>b. request_indirect_check n b a \<noteq> Inl KeyError))"
proof -
  have ok: "monitor_ok cfg n ws" by (rule monitor_run_ok [OF assms(1) init_ok [OF assms(2,3)]])
  then have w: "set ws \<subseteq> known n" and c: "0 \<le> check_nodes_count n" by (auto simp: monitor_ok_def)
  have "suspect_continues n current elapsed a \<noteq> Inl KeyError \<and>
    (\<exists>members. snd (suspect_round sample n a) = Inr members) \<and> (\<forall>b. request_indirect_check n b a \<noteq> Inl KeyError)"
    if "a \<in> set ws" for a
  proof -
    have "a \<in> known n" using that w by blast
    then obtain s where s: "map_of (node_statuses n) a = Some s" using known_status by blast
    then show ?thesis using c
      by (auto simp: suspect_continues_def request_indirect_check_def HealthCheck_def suspect_round_def
          get_confirmation_members_def calculate_suspicion_timeout_def Let_def)
  qed
  with ok show ?thesis by blast
qed

definition example_config :: monitor_config where
  "example_config =
     \<lparr>poll_retries = 5, min_suspect_multiplier = 4, max_suspect_multiplier = 7, min_suspect_node_count = 3,
      initial_expected_nodes = 3, poll_timeout = 1, poll_interval = 1, suspect_max_age = 60, failed_max_age = 60,
      removed_max_age = 120\<rparr>"

definition example_monitor :: "(address \<times> node_status) list \<Rightarrow> monitor" where
  "example_monitor sts = (Monitor_init (''me'', 1) example_config 3)\<lparr>node_statuses := sts\<rparr>"

lemma example_monitor_simps:
  "node_statuses (example_monitor sts) = sts" "config (example_monitor sts) = example_config"
  "node_address (example_monitor sts) = (''me'', 1)" "multipliers (example_monitor sts) = (\<lambda>_. 0)"
  "suspect_nodes (example_monitor sts) = []" "confirmed_suspicions (example_monitor sts) = (\<lambda>_. 0)"
  "check_nodes_count (example_monitor sts) = 3" "investigating (example_monitor sts) = (\<lambda>_. [])"
  "own_health (example_monitor sts) = Initializing" "error_context (example_monitor sts) = None"
  "latest_update (example_monitor sts) = (\<lambda>_. 0)" "suspect_tasks (example_monitor sts) = {}"
  by (simp_all add: example_monitor_def Monitor_init_def)

lemma example_config_simps:
  "poll_retries example_config = 5" "min_suspect_multiplier example_config = 4" "max_suspect_multiplier example_config = 7"
  "min_suspect_node_count example_config = 3" "initial_expected_nodes example_config = 3" "poll_timeout example_config = 1"
  "failed_max_age example_config = 60" "removed_max_age example_config = 120"
  by (simp_all add: example_config_def)

theorem monitor_well_formed_witness:
  "monitor_ok example_config (start_register (Monitor_init (''me'', 1) example_config 3) (''a'', 2)) []"
  using monitor_well_formed [OF on_boot [OF monitor_start, of "Monitor_init (''me'', 1) example_config 3" "(''a'', 2)"]]
  by (simp add: example_config_simps)

text \<open>
  The contract of a call with retries: a try without an answer raises the multiplier of the node that
  was called by one, up to the maximum, and changes nothing else.
\<close>

locale counted_call =
  fixes attempt :: "address \<Rightarrow> 'a monitor_scheme \<Rightarrow> 'r outcome \<Rightarrow> 'a monitor_scheme"
  assumes raised: "attempt a n Raised = increase_multiplier n a"
    and transport: "attempt a n TransportError = increase_multiplier n a"
begin

lemma failed_tries:
  assumes "set xs \<subseteq> {Raised, TransportError}" "multipliers n a \<le> max_suspect_multiplier (config n)"
  shows "retry_loop (attempt a) seen n xs =
    (set_multiplier a (min (multipliers n a + int (length xs)) (max_suspect_multiplier (config n))) n,
     if seen \<or> TransportError \<in> set xs then GotMessage else GotNothing)"
  using assms
proof (induction xs arbitrary: n seen)
  case (Cons x xs)
  let ?M = "max_suspect_multiplier (config n)"
  have i: "increase_multiplier n a = set_multiplier a (min (multipliers n a + 1) ?M) n"
    by (simp add: increase_multiplier_def increase_health_multiplier_def)
  have c: "config (increase_multiplier n a) = config n"
    and p: "multipliers (increase_multiplier n a) a \<le> max_suspect_multiplier (config (increase_multiplier n a))"
    by (simp_all add: i)
  have "retry_loop (attempt a) seen n (x # xs) = retry_loop (attempt a) (seen \<or> x = TransportError) (increase_multiplier n a) xs"
    using Cons.prems(1) by (auto simp: raised transport)
  also have "\<dots> = (set_multiplier a (min (multipliers (increase_multiplier n a) a + int (length xs)) ?M) (increase_multiplier n a),
      if (seen \<or> x = TransportError) \<or> TransportError \<in> set xs then GotMessage else GotNothing)"
    using Cons.IH [OF _ p, of "seen \<or> x = TransportError"] Cons.prems(1) by (simp only: c) (simp add: fun_upd_def)
  also have "\<dots> = (set_multiplier a (min (min (multipliers n a + 1) ?M + int (length xs)) ?M) n,
      if seen \<or> TransportError \<in> set (x # xs) then GotMessage else GotNothing)"
    by (auto simp: i)
  also have "min (min (multipliers n a + 1) ?M + int (length xs)) ?M = min (multipliers n a + int (length (x # xs))) ?M"
    by (simp add: min_def)
  finally show ?case .
qed simp

lemma run_tries_failed:
  assumes "set (retries n xs) \<subseteq> {Raised, TransportError}" "multipliers n a \<le> max_suspect_multiplier (config n)"
    "run_tries attempt n a target xs = (n', r)"
  shows "n' = healthcheck_failed
      (set_multiplier a (min (multipliers n a + int (length (retries n xs))) (max_suspect_multiplier (config n))) n) a target r"
    "r = (if TransportError \<in> set (retries n xs) then GotMessage else GotNothing)"
  using assms(3) failed_tries [OF assms(1,2), of False] by (auto simp: run_tries_def split: if_splits)

end

interpretation udp_check: counted_call healthcheck_try
  by unfold_locales (simp_all add: healthcheck_try_def)

interpretation tcp_check: counted_call tcp_healthcheck_try
  by unfold_locales (simp_all add: tcp_healthcheck_try_def)

interpretation udp_status: counted_call status_try
  by unfold_locales (simp_all add: status_try_def)

text \<open>The health check of a node counted healthy that answers none of the tries makes it suspect, to be
  examined next, and raises its multiplier by the number of tries up to the maximum; but when one try
  ended with the error message of the connection instead of the timeout of the caller, the
  multiplier rises the same way and the node stays healthy.\<close>

theorem dead_node_suspected:
  assumes "map_of (node_statuses n) a = Some Healthy" "check_is_not_self n a" "multipliers n a \<le> max_suspect_multiplier (config n)"
    "set (retries n outcomes) \<subseteq> {Raised, TransportError}" "run_healthcheck n a None outcomes = (n', r)"
  shows "multipliers n' a = min (multipliers n a + int (length (retries n outcomes))) (max_suspect_multiplier (config n)) \<and>
    (if TransportError \<in> set (retries n outcomes)
     then node_statuses n' = node_statuses n \<and> suspect_nodes n' = suspect_nodes n
     else map_of (node_statuses n') a = Some Suspect \<and> suspect_nodes n' = suspect_nodes n @ [a] \<and> a \<in> suspect_tasks n')"
  using assms udp_check.run_tries_failed [OF assms(4,3), of None n' r]
  by (auto simp: run_healthcheck_def healthcheck_failed_def Let_def check_is_not_self_def update_conv' split: if_splits)

theorem dead_node_suspected_witness:
  "map_of (node_statuses (fst (run_healthcheck (example_monitor [((''a'', 2), Healthy)]) (''a'', 2) None (replicate 5 Raised))))
     (''a'', 2) = Some Suspect"
proof -
  let ?n = "example_monitor [((''a'', 2), Healthy)]"
  obtain n' r where r: "run_healthcheck ?n (''a'', 2) None (replicate 5 Raised) = (n', r)" by fastforce
  have "set (retries ?n (replicate 5 (Raised :: health_check outcome))) = {Raised}"
    by (simp add: retries_def example_monitor_simps example_config_simps)
  then show ?thesis using dead_node_suspected [OF _ _ _ _ r] r
    by (simp add: example_monitor_simps example_config_simps check_is_not_self_def)
qed

definition counts_as_suspect :: "check_result list \<Rightarrow> check_result \<Rightarrow> bool" where
  "counts_as_suspect rs r =
     (case r of
        CheckReply sid h \<Rightarrow>
          target_status h = Some Suspect \<and>
          list_all (\<lambda>q. case q of CheckReply hid g \<Rightarrow> target_status g \<noteq> Some Healthy \<or> hid < sid | _ \<Rightarrow> True) rs
      | _ \<Rightarrow> True)"

lemma newer_count_length: "newer_count k hs = length (filter (\<lambda>p. fst p < k) hs)"
proof -
  have "foldl (\<lambda>k' p. if k > fst p then k' + 1 else k') j hs = j + length (filter (\<lambda>p. fst p < k) hs)" for j
    by (induction hs arbitrary: j) auto
  then show ?thesis by (simp add: newer_count_def)
qed

lemma all_newer: "newer_count k hs \<ge> length hs \<longleftrightarrow> (\<forall>p \<in> set hs. fst p < k)"
proof -
  have "length (filter (\<lambda>p. fst p < k) hs) \<le> length hs" by simp
  then have "newer_count k hs \<ge> length hs \<longleftrightarrow> length (filter (\<lambda>p. fst p < k) hs) = length hs"
    unfolding newer_count_length by linarith
  also have "\<dots> \<longleftrightarrow> (\<forall>p \<in> set hs. fst p < k)" by (metis filter_True length_filter_less less_irrefl)
  finally show ?thesis .
qed

lemma set_check_replies: "(sid, h) \<in> set (check_replies rs) \<longleftrightarrow> CheckReply sid h \<in> set rs"
  by (induction rs) (auto simp: check_replies_def split: check_result.splits)

lemma length_filter_sorted: "length (filter P (sorted_checks rs)) = length (filter P (check_replies rs))"
proof -
  have "mset (filter P (sorted_checks rs)) = mset (filter P (check_replies rs))"
    by (simp add: sorted_checks_def)
  then show ?thesis by (metis size_mset)
qed

lemma count_three:
  "length (filter P (check_replies rs)) + length (filter (\<lambda>r. r = CheckPending) rs) + length (filter (\<lambda>r. r = CheckError) rs) =
   length (filter (\<lambda>r. case r of CheckReply sid h \<Rightarrow> P (sid, h) | _ \<Rightarrow> True) rs)"
  by (induction rs) (auto simp: check_replies_def split: check_result.split)

lemma suspects_counted:
  "count_suspects rs = length (filter (counts_as_suspect rs) rs)"
proof -
  let ?H = "checks_with Healthy rs"
  let ?P = "\<lambda>p. target_status (snd p) = Some Suspect \<and> (\<forall>q \<in> set ?H. fst q < fst p)"
  have "count_suspects rs = length (filter ?P (sorted_checks rs)) + length (filter (\<lambda>r. r = CheckPending) rs) +
      length (filter (\<lambda>r. r = CheckError) rs)"
    by (simp add: count_suspects_def Let_def all_newer checks_with_def [of Suspect] conj_commute case_prod_unfold)
  then have c: "count_suspects rs = length (filter (\<lambda>r. case r of CheckReply sid h \<Rightarrow> ?P (sid, h) | _ \<Rightarrow> True) rs)"
    by (simp only: length_filter_sorted count_three)
  have h: "(\<forall>q \<in> set ?H. fst q < k) \<longleftrightarrow>
      list_all (\<lambda>q. case q of CheckReply hid g \<Rightarrow> target_status g \<noteq> Some Healthy \<or> hid < k | _ \<Rightarrow> True) rs" for k
    by (fastforce simp: checks_with_def sorted_checks_def list_all_iff set_check_replies split: check_result.split)
  show ?thesis unfolding c counts_as_suspect_def fst_conv snd_conv h ..
qed

text \<open>C32: the number of nodes that confirm a suspicion is that of the checks that failed or did not end in
  time and of the replies that call the node suspect and are newer than every reply that calls it
  healthy.\<close>

theorem confirmations_counted: "count_suspects rs = length (filter (counts_as_suspect rs) rs)"
  by (rule suspects_counted)

text \<open>One healthy answer is enough to end a suspicion: when the newest reply calls the node healthy and fewer
  checks failed or hung than nodes were asked, the node is set healthy, however many of them
  have confirmed the suspicion.\<close>

theorem one_healthy_answer_clears:
  assumes "CheckReply sid h \<in> set rs" "target_status h = Some Healthy"
    "\<And>i g. CheckReply i g \<in> set rs \<Longrightarrow> i \<le> sid"
    "length (filter (\<lambda>r. r = CheckError \<or> r = CheckPending) rs) < members"
    "suspect_verdict n a members (count_suspects rs) = (n', cleared)"
  shows "cleared \<and> map_of (node_statuses n') a = Some Healthy \<and> confirmed_suspicions n' a = 0"
proof -
  have "counts_as_suspect rs r \<longleftrightarrow> r = CheckError \<or> r = CheckPending" if "r \<in> set rs" for r
  proof (cases r)
    case (CheckReply i g)
    then have "\<not> sid < i" using that assms(3) by (simp add: not_less)
    then have "\<not> counts_as_suspect rs r" using assms(1,2) CheckReply
      by (force simp: counts_as_suspect_def list_all_iff)
    then show ?thesis using CheckReply by simp
  qed (simp_all add: counts_as_suspect_def)
  then have "filter (counts_as_suspect rs) rs = filter (\<lambda>r. r = CheckError \<or> r = CheckPending) rs" by (intro filter_cong) simp_all
  moreover have "count_suspects rs = length (filter (counts_as_suspect rs) rs)"
    by (rule suspects_counted)
  ultimately show ?thesis using assms(4,5) by (auto simp: suspect_verdict_def Let_def update_conv' split: if_splits)
qed

definition example_answer :: "node_status \<Rightarrow> health_check" where
  "example_answer s = (health_message (example_monitor []) (''me'', 1))\<lparr>target_status := Some s\<rparr>"

theorem one_healthy_answer_clears_witness:
  "map_of (node_statuses (fst (suspect_verdict (example_monitor [((''a'', 2), Suspect)]) (''a'', 2) 3
     (count_suspects [CheckReply 10 (example_answer Suspect), CheckReply 20 (example_answer Suspect),
        CheckReply 30 (example_answer Healthy), CheckError])))) (''a'', 2) = Some Healthy"
proof -
  let ?rs = "[CheckReply 10 (example_answer Suspect), CheckReply 20 (example_answer Suspect),
        CheckReply 30 (example_answer Healthy), CheckError]"
  obtain n' cleared where v: "suspect_verdict (example_monitor [((''a'', 2), Suspect)]) (''a'', 2) 3 (count_suspects ?rs) = (n', cleared)"
    by fastforce
  have newest: "\<And>i g. CheckReply i g \<in> set ?rs \<Longrightarrow> i \<le> 30" by auto
  have "map_of (node_statuses n') (''a'', 2) = Some Healthy"
    using one_healthy_answer_clears [OF _ _ newest _ v, of "example_answer Healthy"] by (simp add: example_answer_def)
  then show ?thesis by (simp add: v)
qed

lemma py_round_of_int [simp]: "py_round (of_int k) = k"
  by (simp add: py_round_def)

lemma py_round_between: "\<lfloor>x\<rfloor> \<le> py_round x" "py_round x \<le> \<lfloor>x\<rfloor> + 1"
  by (simp_all add: py_round_def Let_def)

lemma py_round_mono:
  assumes "x \<le> y"
  shows "py_round x \<le> py_round y"
proof (cases "\<lfloor>x\<rfloor> = \<lfloor>y\<rfloor>")
  case True
  then show ?thesis using assms by (simp add: py_round_def Let_def)
next
  case False
  then have "\<lfloor>x\<rfloor> + 1 \<le> \<lfloor>y\<rfloor>" using floor_mono [OF assms] by simp
  then show ?thesis using py_round_between [of x] py_round_between [of y] by linarith
qed

lemma round2_mono: "x \<le> y \<Longrightarrow> round2 x \<le> round2 y"
  by (simp add: round2_def py_round_mono divide_right_mono)

lemma round2_nonneg: "0 \<le> x \<Longrightarrow> 0 \<le> round2 x"
  using round2_mono [of 0 x] py_round_of_int [of 0] by (simp add: round2_def)

lemma round2_multiple: "round2 (of_int k * round2 x) = of_int k * round2 x"
proof -
  have "round2 (of_int k * round2 x) = of_int (py_round (of_int (k * py_round (x * 100)))) / 100"
    by (simp add: round2_def)
  then show ?thesis by (simp only: py_round_of_int) (simp add: round2_def)
qed

lemma max_timeout: "calculate_max_suspect_timeout n (calculate_min_suspect_timeout n current) =
    of_int (max_suspect_multiplier (config n)) * calculate_min_suspect_timeout n current"
  by (simp add: calculate_max_suspect_timeout_def calculate_min_suspect_timeout_def round2_multiple)

lemma min_timeout_nonneg:
  assumes "0 \<le> min_suspect_multiplier (config n)" "0 \<le> current"
  shows "0 \<le> calculate_min_suspect_timeout n current"
  unfolding calculate_min_suspect_timeout_def using assms
  by (intro round2_nonneg mult_nonneg_nonneg) simp_all

lemma suspicion_timeout_range:
  assumes "1 \<le> max_suspect_multiplier (config n)" "0 \<le> min_suspect_multiplier (config n)"
    "0 < min_suspect_node_count (config n)" "0 \<le> current"
  defines "min_timeout \<equiv> calculate_min_suspect_timeout n current"
    and "max_timeout \<equiv> of_int (max_suspect_multiplier (config n)) * calculate_min_suspect_timeout n current"
  shows "\<exists>t. calculate_suspicion_timeout n current a = Inr t \<and> min_timeout \<le> t \<and> t \<le> max_timeout \<and>
    (confirmed_suspicions n a \<le> 0 \<longrightarrow> t = max_timeout) \<and>
    (min_suspect_node_count (config n) \<le> confirmed_suspicions n a \<longrightarrow> t = min_timeout)"
proof -
  let ?N = "min_suspect_node_count (config n)" and ?c = "max 0 (confirmed_suspicions n a)"
  define q where "q = ln (real_of_int (?c + 1)) / ln (real_of_int (?N + 1))"
  have p: "0 \<le> min_timeout" unfolding min_timeout_def using assms(2,4) by (rule min_timeout_nonneg)
  have "1 * min_timeout \<le> max_timeout" unfolding max_timeout_def min_timeout_def [symmetric]
    using assms(1) p by (intro mult_right_mono) simp_all
  then have d: "0 \<le> max_timeout - min_timeout" by simp
  have l: "0 < ln (real_of_int (?N + 1))" using assms(3) by simp
  then have q0: "0 \<le> q" unfolding q_def by (intro divide_nonneg_pos) simp_all
  have qc: "1 \<le> q" if "?N \<le> confirmed_suspicions n a"
  proof -
    have "ln (real_of_int (?N + 1)) \<le> ln (real_of_int (?c + 1))" using that assms(3) by simp
    then show ?thesis unfolding q_def using l by simp
  qed
  have dq: "max_timeout - min_timeout \<le> (max_timeout - min_timeout) * q" if "1 \<le> q"
    using mult_left_mono [OF that d] by simp
  have z: "q = 0" if "confirmed_suspicions n a \<le> 0" using that by (simp add: q_def max_def)
  have "calculate_suspicion_timeout n current a =
      Inr (max min_timeout (max_timeout - (max_timeout - min_timeout) * q))"
    using assms(3) by (simp add: calculate_suspicion_timeout_def Let_def max_timeout q_def min_timeout_def max_timeout_def)
  then show ?thesis using d q0 qc dq z mult_nonneg_nonneg [OF d q0] by (auto simp: max_def)
qed

text \<open>The timeout of a suspicion lies between the minimal timeout of the cluster and its multiple, is the
  largest while no other node has confirmed the suspicion, and has come down to the minimum
  once the threshold of confirmations is reached.\<close>

theorem suspicion_timeout_bounds:
  assumes "1 \<le> max_suspect_multiplier (config n)" "0 \<le> min_suspect_multiplier (config n)"
    "0 < min_suspect_node_count (config n)" "0 \<le> current"
  defines "min_timeout \<equiv> calculate_min_suspect_timeout n current"
    and "max_timeout \<equiv> of_int (max_suspect_multiplier (config n)) * calculate_min_suspect_timeout n current"
  shows "\<exists>t. calculate_suspicion_timeout n current a = Inr t \<and> min_timeout \<le> t \<and> t \<le> max_timeout \<and>
    (confirmed_suspicions n a \<le> 0 \<longrightarrow> t = max_timeout) \<and>
    (min_suspect_node_count (config n) \<le> confirmed_suspicions n a \<longrightarrow> t = min_timeout)"
  unfolding min_timeout_def max_timeout_def by (rule suspicion_timeout_range [OF assms(1-4)])

theorem suspicion_timeout_bounds_witness:
  "calculate_suspicion_timeout (example_monitor (map (\<lambda>i. ((''a'', i), Healthy)) [2 .. 10])) 1 (''a'', 2) = Inr 28"
proof -
  define n where "n = example_monitor (map (\<lambda>i. ((''a'', i), Healthy)) [2 .. 10])"
  have l: "length (node_statuses n) = 9" "config n = example_config" "confirmed_suspicions n = (\<lambda>_. 0)"
    by (simp_all add: n_def example_monitor_simps)
  have "round2 4 = 4" using round2_multiple [of 4 "1"] py_round_of_int [of 400] by (simp add: round2_def)
  then have m: "calculate_min_suspect_timeout n 1 = 4"
    unfolding calculate_min_suspect_timeout_def l by (simp add: example_config_simps)
  then show ?thesis using suspicion_timeout_bounds [of n 1 "(''a'', 2)"]
    unfolding n_def [symmetric] by (auto simp: l example_config_simps)
qed

text \<open>Registering again changes nothing for a node that is already known: one that has left, was declared
  failed or is suspect keeps that status, whoever announces it.\<close>

lemma register_one_known:
  "map_of (node_statuses n) a = Some s \<Longrightarrow> map_of (node_statuses (register_one n p)) a = Some s"
  by (auto simp: register_one_def Let_def check_is_not_registered_def update_conv')

lemma register_all_known:
  "map_of (node_statuses n) a = Some s \<Longrightarrow> map_of (node_statuses (foldl register_one n ps)) a = Some s"
  by (induction ps arbitrary: n) (simp_all add: register_one_known)

theorem rejoin_ignored:
  assumes "map_of (node_statuses n) a = Some s"
  shows "map_of (node_statuses (fst (register_node n sid h))) a = Some s"
proof -
  define n1 where "n1 = (if check_is_not_self n (hc_source h) \<and> check_is_not_registered n (hc_source h)
    then set_status (hc_source h) Healthy n else n)"
  define n2 where "n2 = set_instance (hc_source h) (sf_instance (snowflake_parse sid 0)) n1"
  have "map_of (node_statuses n1) a = Some s"
    using assms by (auto simp: n1_def check_is_not_registered_def update_conv')
  then have "map_of (node_statuses n2) a = Some s" by (simp add: n2_def)
  from register_all_known [OF this]
  show ?thesis
    by (simp only: register_node_def Let_def n1_def [symmetric] n2_def [symmetric]) (simp split: option.split)
qed

theorem rejoin_ignored_witness:
  "map_of (node_statuses (fst (register_node (fst (deregister_node (example_monitor [((''a'', 2), Healthy)])
       ((example_answer Healthy)\<lparr>hc_source := (''a'', 2)\<rparr>))) 7
     ((example_answer Healthy)\<lparr>hc_source := (''a'', 2), registered_count := Some 1\<rparr>)))) (''a'', 2) = Some Inactive"
  by (rule rejoin_ignored) (simp add: deregister_node_def Let_def example_monitor_simps)

text \<open>A node that has left cannot be spoken of: requests and replies about it raise while they are built,
  and its own next health update is stored but answered with an exception.\<close>

theorem departed_node_unreportable:
  assumes "map_of (node_statuses n) (hc_source h) = Some s" "deregister_node n h = (n', r)"
    "hc_source h2 = hc_source h" "update_node_health n' sid h2 = (n'', r2)"
  shows "request_indirect_check n' b (hc_source h) = Inl ValueError \<and> indirect_check_reply n' q (hc_source h) = Inl ValueError \<and>
    r2 = Inl ValueError \<and> map_of (node_statuses n'') (hc_source h) = Some (hc_status h2)"
proof -
  have l: "map_of (node_statuses n') (hc_source h) = Some Inactive"
    using assms(1,2) by (auto simp: deregister_node_def Let_def update_conv')
  then show ?thesis using assms(3,4)
    by (auto simp: request_indirect_check_def indirect_check_reply_def update_node_health_def HealthCheck_def
        health_check_valid_def health_message_def Let_def update_conv')
qed

theorem departed_node_unreportable_witness:
  "\<exists>n' r. deregister_node (example_monitor [((''a'', 2), Healthy)]) ((example_answer Healthy)\<lparr>hc_source := (''a'', 2)\<rparr>) = (n', r) \<and>
     request_indirect_check n' (''b'', 3) (''a'', 2) = Inl ValueError"
proof -
  let ?n = "example_monitor [((''a'', 2), Healthy)]" and ?h = "(example_answer Healthy)\<lparr>hc_source := (''a'', 2)\<rparr>"
  obtain n' r where d: "deregister_node ?n ?h = (n', r)" by fastforce
  obtain n'' r2 where u: "update_node_health n' 0 ?h = (n'', r2)" by fastforce
  show ?thesis using departed_node_unreportable [OF _ d _ u] d by (auto simp: example_monitor_simps)
qed

text \<open>Status reports are not ordered by their timestamps: of two reports about a node that are newer than its
  last health update, the one that arrives last decides, also when it is the older one.\<close>

theorem older_report_wins:
  assumes "given_address (target_host h1) (target_port h1) = Some a" "given_address (target_host h2) (target_port h2) = Some a"
    "target_last_updated h1 = Some t1" "target_last_updated h2 = Some t2" "latest_update n a < t2" "t2 < t1"
    "target_status h1 = Some s1" "target_status h2 = Some s2"
  shows "map_of (node_statuses (fst (update_node_status n i1 h1))) a = Some s1 \<and>
    map_of (node_statuses (fst (update_node_status (fst (update_node_status n i1 h1)) i2 h2))) a = Some s2"
  using assms by (simp add: update_node_status_def Let_def reduce_multiplier_def update_conv')

definition example_report :: "node_status \<Rightarrow> int \<Rightarrow> health_check" where
  "example_report s t = (example_answer s)\<lparr>target_host := Some ''a'', target_port := Some 2, target_last_updated := Some t\<rparr>"

theorem older_report_wins_witness:
  "map_of (node_statuses (fst (update_node_status (fst (update_node_status (example_monitor []) 1 (example_report Healthy 9))) 2
     (example_report Failed 5)))) (''a'', 2) = Some Failed"
  using older_report_wins [of "example_report Healthy 9" "(''a'', 2)" "example_report Failed 5" 9 5 "example_monitor []" Healthy Failed 1 2]
  by (simp add: example_report_def example_answer_def given_address_def example_monitor_simps)

text \<open>A round of the cleanup drops exactly the suspicions and failures that have reached their age, and, when the
  age of removed nodes is at least that of failed ones, every failure stays among the removed
  nodes for good.\<close>

lemma remove_all_filter: "foldl (\<lambda>ns p. if P p then remove1 p ns else ns) xs xs = filter (\<lambda>p. \<not> P p) xs"
proof -
  have "foldl (\<lambda>ns p. if P p then remove1 p ns else ns) (qs @ ps) ps = qs @ filter (\<lambda>p. \<not> P p) ps"
    if "\<forall>q \<in> set qs. \<not> P q" for qs ps
    using that
  proof (induction ps arbitrary: qs)
    case (Cons p ps)
    then show ?case using Cons.IH [of qs] Cons.IH [of "qs @ [p]"] by (auto simp: remove1_append)
  qed simp
  from this [of "[]" xs] show ?thesis by simp
qed

lemma expire_failed_steps:
  assumes "failed_max_age (config n) \<le> removed_max_age (config n)"
  shows "failed_nodes (foldl (expire_failed_one now) n ps) =
      foldl (\<lambda>ns p. if now - snd p \<ge> failed_max_age (config n) then remove1 p ns else ns) (failed_nodes n) ps \<and>
    set (removed_nodes (foldl (expire_failed_one now) n ps)) = set (removed_nodes n) \<union> set ps \<and>
    suspect_history (foldl (expire_failed_one now) n ps) = suspect_history n"
  using assms
proof (induction ps arbitrary: n)
  case (Cons p ps)
  have c: "config (expire_failed_one now n p) = config n" by (simp add: expire_failed_one_def Let_def)
  have s: "failed_nodes (expire_failed_one now n p) =
      (if now - snd p \<ge> failed_max_age (config n) then remove1 p (failed_nodes n) else failed_nodes n)"
    "set (removed_nodes (expire_failed_one now n p)) = insert p (set (removed_nodes n))"
    "suspect_history (expire_failed_one now n p) = suspect_history n"
    using Cons.prems by (auto simp: expire_failed_one_def Let_def)
  show ?case using Cons.IH [of "expire_failed_one now n p"] Cons.prems s c by auto
qed simp

theorem cleanup_expires:
  assumes "failed_max_age (config n) \<le> removed_max_age (config n)" "cleanup_tick n finished now = n'"
  shows "suspect_history n' = filter (\<lambda>p. now - snd p < suspect_max_age (config n)) (suspect_history n) \<and>
    failed_nodes n' = filter (\<lambda>p. now - snd p < failed_max_age (config n)) (failed_nodes n) \<and>
    set (removed_nodes n') = set (removed_nodes n) \<union> set (failed_nodes n)"
  using assms expire_failed_steps [of "expire_suspects (n\<lparr>pending := filter (\<lambda>t. \<not> finished t) (pending n)\<rparr>) now" now "failed_nodes n"]
  by (auto simp: cleanup_tick_def expire_failed_def expire_suspects_def remove_all_filter not_le)

theorem cleanup_expires_witness:
  "removed_nodes (cleanup_tick ((example_monitor [])\<lparr>failed_nodes := [((''a'', 2), 0)]\<rparr>) (\<lambda>_. True) 1000) \<noteq> []"
  using cleanup_expires [of "(example_monitor [])\<lparr>failed_nodes := [((''a'', 2), 0)]\<rparr>" "\<lambda>_. True" 1000]
  by (force simp: example_monitor_simps example_config_simps)

text \<open>
  The end of a suspicion: a bound on its timeout that depends only on the configuration and the
  number of known nodes.
\<close>

definition suspicion_config_ok :: "monitor_config \<Rightarrow> bool" where
  "suspicion_config_ok cfg \<longleftrightarrow>
     1 \<le> max_suspect_multiplier cfg \<and> 0 \<le> min_suspect_multiplier cfg \<and> 0 < min_suspect_node_count cfg \<and>
     0 \<le> initial_expected_nodes cfg \<and> 0 \<le> poll_timeout cfg"

definition longest_timeout :: "monitor_config \<Rightarrow> nat \<Rightarrow> real" where
  "longest_timeout cfg k =
     poll_timeout cfg + of_int ((max_suspect_multiplier cfg + 1) * max (int k) (initial_expected_nodes cfg))"

definition suspicion_bound :: "monitor_config \<Rightarrow> nat \<Rightarrow> real" where
  "suspicion_bound cfg k =
     of_int (max_suspect_multiplier cfg) *
       round2 (of_int (min_suspect_multiplier cfg) * log 10 (real (k + 1)) * longest_timeout cfg k)"

lemma current_timeout_range:
  assumes "monitor_ok cfg n ws" "suspicion_config_ok cfg"
  shows "0 \<le> calculate_current_timeout n a" "calculate_current_timeout n a \<le> longest_timeout cfg (card (known n))"
proof -
  let ?h = "int (length (healthy_members n))" and ?e = "initial_expected_nodes cfg"
  have d: "distinct (map fst (node_statuses n))" using assms(1) by (simp add: monitor_ok_def)
  then have l: "card (known n) = length (node_statuses n)"
    using distinct_card [OF d] by (simp add: known_def)
  have h: "?h \<le> int (card (known n))" by (simp add: l healthy_members_def)
  have m: "0 \<le> multipliers n a" "multipliers n a \<le> max_suspect_multiplier cfg" "config n = cfg"
    using ok_range [OF assms(1)] by blast+
  have "(multipliers n a + 1) * max ?h ?e \<le> (max_suspect_multiplier cfg + 1) * max (int (card (known n))) ?e"
    using m h by (intro mult_mono) auto
  then have "real_of_int ((multipliers n a + 1) * max ?h ?e) \<le>
      of_int ((max_suspect_multiplier cfg + 1) * max (int (card (known n))) ?e)" by (simp only: of_int_le_iff)
  then show "calculate_current_timeout n a \<le> longest_timeout cfg (card (known n))"
    unfolding calculate_current_timeout_def longest_timeout_def m(3) by simp
  have "0 \<le> (multipliers n a + 1) * max ?h ?e" using m by simp
  then have "0 \<le> real_of_int ((multipliers n a + 1) * max ?h ?e)" by (simp only: of_int_0_le_iff)
  then show "0 \<le> calculate_current_timeout n a"
    unfolding calculate_current_timeout_def m(3) using assms(2) by (simp add: suspicion_config_ok_def)
qed

lemma suspicion_timeout_bounded:
  assumes "monitor_ok cfg n ws" "suspicion_config_ok cfg"
  shows "\<exists>t. calculate_suspicion_timeout n (calculate_current_timeout n a) a = Inr t \<and> t \<le> suspicion_bound cfg (card (known n))"
proof -
  let ?c = "calculate_current_timeout n a"
  have d: "distinct (map fst (node_statuses n))" using assms(1) by (simp add: monitor_ok_def)
  have l: "length (node_statuses n) = card (known n)" using distinct_card [OF d] by (simp add: known_def)
  have cfg: "config n = cfg" using assms(1) by (rule ok_range)
  have "calculate_min_suspect_timeout n ?c \<le>
      round2 (of_int (min_suspect_multiplier cfg) * log 10 (real (card (known n) + 1)) * longest_timeout cfg (card (known n)))"
    unfolding calculate_min_suspect_timeout_def l cfg using assms(2) current_timeout_range(2) [OF assms]
    by (intro round2_mono mult_left_mono mult_nonneg_nonneg) (simp_all add: suspicion_config_ok_def)
  then have "of_int (max_suspect_multiplier cfg) * calculate_min_suspect_timeout n ?c \<le> suspicion_bound cfg (card (known n))"
    unfolding suspicion_bound_def using assms(2) by (intro mult_left_mono) (simp_all add: suspicion_config_ok_def)
  moreover obtain t where "calculate_suspicion_timeout n ?c a = Inr t"
    "t \<le> of_int (max_suspect_multiplier cfg) * calculate_min_suspect_timeout n ?c"
    using suspicion_timeout_range [of n ?c a] current_timeout_range(1) [OF assms] assms(2) cfg
    by (auto simp: suspicion_config_ok_def)
  ultimately show ?thesis by fastforce
qed

text \<open>The answers to the own check come from nodes the monitor knows.\<close>

definition own_replies :: "own_check \<Rightarrow> health_check outcome list" where
  "own_replies c = (case c of OwnFinished xs \<Rightarrow> xs | OwnCancelled xs \<Rightarrow> xs)"

definition from_known :: "address set \<Rightarrow> health_check outcome list \<Rightarrow> bool" where
  "from_known K xs \<longleftrightarrow> (\<forall>sid h. Reply sid h \<in> set xs \<longrightarrow> hc_source h \<in> K)"

lemma retry_keeps:
  assumes "monitor_ok cfg n ws" "from_known (known n) xs"
  shows "monitor_ok cfg (fst (retry_loop (tcp_healthcheck_try a) seen n xs)) ws \<and>
    known (fst (retry_loop (tcp_healthcheck_try a) seen n xs)) = known n"
  using assms
proof (induction xs arbitrary: n seen)
  case (Cons x xs)
  let ?m = "tcp_healthcheck_try a n x"
  have ok: "monitor_ok cfg ?m ws" using ok_try [OF Cons.prems(1), of tcp_healthcheck_try] by simp
  have k: "known ?m = known n" using Cons.prems(2)
    by (auto simp: tcp_healthcheck_try_def known_def reduce_multiplier_def increase_multiplier_def from_known_def dom_update
        split: outcome.split)
  have "from_known (known ?m) xs" using Cons.prems(2) by (auto simp: k from_known_def)
  then show ?case using Cons.IH [OF ok] ok k by (auto split: outcome.split)
qed simp

lemma failed_keeps: "known (healthcheck_failed n a target r) = known n"
  by (auto simp: healthcheck_failed_def Let_def known_def dom_update dest: map_of_SomeD intro: rev_image_eqI split: option.split)

lemma probe_keeps:
  assumes "monitor_ok cfg n ws" "from_known (known n) (own_replies c)" "request_indirect_probe n a rs c = (n', k)"
  shows "monitor_ok cfg n' ws \<and> known n' = known n"
proof -
  have "from_known (known n) (retries n (own_replies c))"
    using assms(2) by (auto simp: from_known_def retries_def dest: in_set_takeD)
  note keeps = retry_keeps [OF assms(1) this, of a False]
  obtain m e where l: "retry_loop (tcp_healthcheck_try a) False n (retries n (own_replies c)) = (m, e)" by fastforce
  with keeps have m: "monitor_ok cfg m ws" "known m = known n" by simp_all
  have "fst (run_own_check n a c) \<in> {m, healthcheck_failed m a None e}"
    using l by (cases c; cases e) (simp_all add: run_own_check_def own_replies_def run_tcp_healthcheck_def run_tries_def)
  then consider "fst (run_own_check n a c) = m" | "fst (run_own_check n a c) = healthcheck_failed m a None e" by blast
  then have "monitor_ok cfg (fst (run_own_check n a c)) ws \<and> known (fst (run_own_check n a c)) = known n"
    by cases (simp_all add: m failed_keeps ok_failed [OF m(1)])
  then show ?thesis using assms(3) by (cases "run_own_check n a c") (simp add: request_indirect_probe_def)
qed

lemma round_members:
  assumes "monitor_ok cfg n ws"
  shows "\<exists>n' members. suspect_round sample n a = (n', Inr members)"
proof -
  have "0 \<le> check_nodes_count n" using assms unfolding monitor_ok_def by blast
  then show ?thesis by (simp add: suspect_round_def get_confirmation_members_def Let_def not_less)
qed

lemma verdict_statuses:
  "node_statuses (fst (suspect_verdict n a members k)) =
     (if k < members then AList.update a Healthy (node_statuses n) else node_statuses n)"
  by (simp add: suspect_verdict_def Let_def increase_multiplier_def)

lemma verdict_known: "a \<in> known n \<Longrightarrow> known (fst (suspect_verdict n a members k)) = known n"
  by (simp add: known_def verdict_statuses dom_update insert_absorb)

lemma end_not_suspect: "map_of (node_statuses (suspect_end n a)) a \<noteq> Some Suspect"
  by (simp add: suspect_end_def Let_def update_conv')

text \<open>C27: a suspicion ends: with answers from known nodes only, whatever they say, the suspect monitor stops once a
  round ends after the bound, if it has not stopped before; it then returns without an error, and
  the node is no longer suspect.\<close>

theorem suspicion_ends:
  assumes "monitor_ok cfg n ws" "suspicion_config_ok cfg" "a \<in> known n"
    "\<forall>r \<in> set rs. from_known (known n) (own_replies (own r))"
    "suspicion_bound cfg (card (known n)) \<le> elapsed \<or> (\<exists>r \<in> set rs. suspicion_bound cfg (card (known n)) \<le> elapsed_after r)"
  shows "\<exists>n'. suspect_rounds sample calculate_current_timeout n a elapsed rs = Some (n', Inr ()) \<and>
    map_of (node_statuses n') a \<noteq> Some Suspect"
  using assms(1,3,4,5)
proof (induction rs arbitrary: n elapsed)
  case Nil
  obtain s where "map_of (node_statuses n) a = Some s" using known_status [OF Nil.prems(2)] by blast
  moreover obtain t where "calculate_suspicion_timeout n (calculate_current_timeout n a) a = Inr t"
    "t \<le> suspicion_bound cfg (card (known n))"
    using suspicion_timeout_bounded [OF Nil.prems(1) assms(2)] by blast
  moreover have "\<not> elapsed < t" using calculation(3) Nil.prems(4) by simp
  ultimately show ?case
    by (subst suspect_rounds.simps) (simp add: suspect_continues_def end_not_suspect)
next
  case (Cons r rs)
  obtain s where s: "map_of (node_statuses n) a = Some s" using known_status [OF Cons.prems(2)] by blast
  obtain t where t: "calculate_suspicion_timeout n (calculate_current_timeout n a) a = Inr t"
    "t \<le> suspicion_bound cfg (card (known n))"
    using suspicion_timeout_bounded [OF Cons.prems(1) assms(2)] by blast
  show ?case
  proof (cases "elapsed < t \<and> s = Suspect")
    case False
    then have "(elapsed < t \<and> s = Suspect) = False" by simp
    then show ?thesis using s t(1)
      by (subst suspect_rounds.simps) (simp only: suspect_continues_def option.case sum.case bool.case, simp add: end_not_suspect)
  next
    case True
    obtain n1 members where r1: "suspect_round sample n a = (n1, Inr members)"
      using round_members [OF Cons.prems(1)] by blast
    have n1: "monitor_ok cfg n1 ws" "known n1 = known n"
      using ok_round [OF Cons.prems(1), of sample a] r1
      by (auto simp: suspect_round_def get_confirmation_members_def Let_def known_def)
    obtain n2 k where r2: "request_indirect_probe n1 a (take (length members) (answers r)) (own r) = (n2, k)" by fastforce
    have n2: "monitor_ok cfg n2 ws" "known n2 = known n"
      using probe_keeps [OF n1(1) _ r2] n1(2) Cons.prems(3) by auto
    obtain n3 cleared where r3: "suspect_verdict n2 a (length members) k = (n3, cleared)" by fastforce
    have "known n3 = known n2" using verdict_known [of a n2 "length members" k] r3 n2(2) Cons.prems(2) by simp
    then have n3: "monitor_ok cfg n3 ws" "known n3 = known n"
      using ok_verdict [OF n2(1), of a "length members" k] n2(2) r3 by simp_all
    have bound: "suspicion_bound cfg (card (known n)) \<le> elapsed_after r \<or>
        (\<exists>r \<in> set rs. suspicion_bound cfg (card (known n)) \<le> elapsed_after r)"
      using True t(2) Cons.prems(4) by auto
    have step: "suspect_rounds sample calculate_current_timeout n a elapsed (r # rs) =
        (if cleared then Some (suspect_end n3 a, Inr ())
         else suspect_rounds sample calculate_current_timeout n3 a (elapsed_after r) rs)"
      using s t(1) True by (subst suspect_rounds.simps) (simp add: suspect_continues_def r1 r2 r3 split: bool.split)
    show ?thesis using Cons.IH [OF n3(1), of "elapsed_after r"] Cons.prems(2,3) n3(2) bound
      by (auto simp: step end_not_suspect)
  qed
qed

theorem suspicion_ends_witness:
  "\<exists>n'. suspect_rounds (\<lambda>xs k. take k xs) calculate_current_timeout (example_monitor [((''a'', 2), Suspect)]) (''a'', 2) 0
     [\<lparr>answers = [], own = OwnFinished (replicate 5 Raised), elapsed_after = suspicion_bound example_config 1\<rparr>] = Some (n', Inr ()) \<and>
     map_of (node_statuses n') (''a'', 2) \<noteq> Some Suspect"
proof (rule suspicion_ends [of example_config _ "[]"])
  show "monitor_ok example_config (example_monitor [((''a'', 2), Suspect)]) []"
    by (simp add: monitor_ok_def example_monitor_def Monitor_init_def health_status_def example_config_simps)
qed (auto simp: suspicion_config_ok_def example_config_simps known_def example_monitor_simps own_replies_def from_known_def)

lemma multiplier_kept [simp]:
  "check_nodes_count (reduce_multiplier n a) = check_nodes_count n"
  "check_nodes_count (increase_multiplier n a) = check_nodes_count n"
  by (simp_all add: reduce_multiplier_def increase_multiplier_def)

lemma register_kept [simp]: "check_nodes_count (foldl register_one n ps) = check_nodes_count n"
  by (induction ps arbitrary: n) (simp_all add: register_one_def Let_def)

lemma expire_kept [simp]: "check_nodes_count (foldl (expire_failed_one now) n ps) = check_nodes_count n"
  by (induction ps arbitrary: n) (simp_all add: expire_failed_one_def Let_def)

lemma hooks_kept [simp]:
  "check_nodes_count (fst (register_node n sid h)) = check_nodes_count n"
  "check_nodes_count (fst (deregister_node n h)) = check_nodes_count n"
  "check_nodes_count (fst (update_node_status n sid h)) = check_nodes_count n"
  "check_nodes_count (fst (update_as_suspect n h)) = check_nodes_count n"
  "check_nodes_count (fst (update_acknowledged n h a)) = check_nodes_count n"
  "check_nodes_count (fst (update_node_health n sid h)) = check_nodes_count n"
  "check_nodes_count (indirect_check_done n a) = check_nodes_count n"
  by (simp_all add: register_node_def deregister_node_def update_node_status_def update_as_suspect_def
      update_acknowledged_def update_node_health_def indirect_check_done_def Let_def split: option.split)

lemma tries_kept:
  "attempt \<in> {tcp_healthcheck_try, healthcheck_try, acknowledge_try, status_try, tcp_status_try, suspect_update_try} \<Longrightarrow>
   check_nodes_count (attempt a n x) = check_nodes_count n"
  by (auto simp: tcp_healthcheck_try_def healthcheck_try_def acknowledge_try_def status_try_def tcp_status_try_def
      suspect_update_try_def Let_def split: outcome.split)

lemma ticks_kept [simp]:
  "check_nodes_count (healthcheck_failed n a target r) = check_nodes_count n"
  "check_nodes_count (health_monitor_tick n choice) = check_nodes_count n"
  "check_nodes_count (udp_sync_tick n) = check_nodes_count n"
  "check_nodes_count (tcp_sync_tick n) = check_nodes_count n"
  "check_nodes_count (cleanup_tick n finished now) = check_nodes_count n"
  "check_nodes_count (start_register n a) = check_nodes_count n"
  "check_nodes_count (cancel_suspicion_probe n a) = check_nodes_count n"
  "check_nodes_count (fst (suspect_begin n now)) = check_nodes_count n"
  "check_nodes_count (fst (suspect_verdict n a members k)) = check_nodes_count n"
  "check_nodes_count (suspect_end n a) = check_nodes_count n"
  by (simp_all add: healthcheck_failed_def health_monitor_tick_def udp_sync_tick_def tcp_sync_tick_def cleanup_tick_def
      expire_failed_def expire_suspects_def start_register_def cancel_suspicion_probe_def suspect_begin_def
      suspect_verdict_def suspect_end_def Let_def split: option.split)

lemma round_lowers: "check_nodes_count (fst (suspect_round sample n a)) \<le> check_nodes_count n"
  by (simp add: suspect_round_def get_confirmation_members_def Let_def)

text \<open>The number of nodes a monitor asks about a suspect never grows again: after a suspicion about the only
  node known it is 0, and whatever happens later, with however many nodes, no other node is
  asked.\<close>

theorem lone_suspicion_stops_asking:
  assumes "other_nodes n0 a = []" "suspect_round sample n0 a = (n1, r)" "monitor_run n1 n ws"
    "suspect_round sample n b = (n', Inr members)"
  shows "members = sample (other_nodes n b) 0"
proof -
  have "check_nodes_count n1 \<le> 0"
    using assms(1,2) by (auto simp: suspect_round_def get_confirmation_members_def other_nodes_def Let_def)
  moreover have "check_nodes_count n \<le> check_nodes_count n1" using assms(3)
  proof (induction rule: monitor_run.induct)
    case (on_begin n ws now n' r)
    then show ?case using ticks_kept(8) [of n now] by simp
  next
    case (on_round n ws a sample)
    then show ?case using round_lowers [of sample n a] by linarith
  qed (auto simp: tries_kept)
  ultimately show ?thesis
    using assms(4) by (auto simp: suspect_round_def get_confirmation_members_def other_nodes_def Let_def split: if_splits)
qed

theorem lone_suspicion_stops_asking_witness:
  "snd (suspect_round (\<lambda>xs k. take k xs)
     (set_status (''b'', 3) Healthy (fst (suspect_round (\<lambda>xs k. take k xs) (example_monitor [((''a'', 2), Suspect)]) (''a'', 2)))) (''a'', 2)) = Inr []"
proof -
  let ?s = "\<lambda>xs k. take k xs :: address list" and ?n = "example_monitor [((''a'', 2), Suspect)]"
  let ?h = "(example_answer Healthy)\<lparr>hc_source := (''b'', 3), hc_status := Healthy\<rparr>"
  obtain n1 r where 1: "suspect_round ?s ?n (''a'', 2) = (n1, r)" by fastforce
  have "monitor_run n1 (acknowledge_try (''b'', 3) n1 (Reply 0 ?h)) []" by (rule on_try [OF monitor_start]) simp
  moreover have "check_is_not_self n1 (''b'', 3)" using 1
    by (auto simp: suspect_round_def get_confirmation_members_def Let_def check_is_not_self_def example_monitor_simps)
  ultimately have run: "monitor_run n1 (set_status (''b'', 3) Healthy n1) []"
    by (simp add: acknowledge_try_def example_answer_def health_message_def example_monitor_simps)
  have "0 \<le> check_nodes_count n1" using 1
    by (auto simp: suspect_round_def get_confirmation_members_def Let_def example_monitor_simps)
  then have "\<exists>n' members. suspect_round ?s (set_status (''b'', 3) Healthy n1) (''a'', 2) = (n', Inr members)"
    by (simp add: suspect_round_def get_confirmation_members_def Let_def not_less)
  then obtain n' members where 2: "suspect_round ?s (set_status (''b'', 3) Healthy n1) (''a'', 2) = (n', Inr members)" by blast
  have "other_nodes ?n (''a'', 2) = []" by (simp add: other_nodes_def example_monitor_simps)
  from lone_suspicion_stops_asking [OF this 1 run 2] show ?thesis using 1 2 by simp
qed

end
