(* ===== verification/Raft_Node.thy ===== *)
theory Raft_Node
  imports Log_Queue Monitor_Suspicion
begin

text \<open>
  A node of the replicated controller (\<open>distributed/replication/replication_controller.py\<close>, class
  \<open>ReplicationController\<close>, a subclass of \<open>Monitor\<close>): the server hooks for votes, log updates,
  forwarded entries and failures, the choice of a leader, the election, the submission of
  logs, and what follows a suspicion. A handler is a function on the state of the node; what it
  puts into \<open>_tasks_queue\<close> is a list of task descriptions, each of which runs later. A coroutine that
  awaits in its middle, its loggers or the answers of the members, is cut there into several
  functions, between which other handlers may run: a log update is its arrival and the rest, an
  election its begin, the choice of the leader, taking the lead and its end. The log messages
  themselves are left out. The clock reading of a call is an argument.
\<close>

section \<open>State\<close>

datatype node_state = FOLLOWER | CANDIDATE | LEADER
datatype election_state = ACTIVE | CONFIRMED | PENDING | READY
datatype vote_result = ACCEPTED | REJECTED

record raft_message =
  msg_to :: address
  msg_source :: address
  msg_elected :: "address option"
  msg_failed :: "address option"
  msg_vote :: "vote_result option"
  msg_role :: node_state
  msg_health :: node_status
  msg_entries :: "log_entry list option"
  msg_term :: int
  msg_received :: "int option"
  msg_error :: bool

datatype raft_task =
    CancelElection raft_message
  | SubmitLogs "log_entry list"
  | RunElection "address option"

text \<open>
  \<open>term_leaders\<close> holds \<open>(None, None)\<close> for a term without a known leader. The last fields are the coroutines that
  wait: log updates of a later term whose leader is not recorded yet, with that leader; elections that have
  begun (\<open>candidacies\<close>), those that have chosen this node (\<open>victories\<close>) and those that wait for their end
  (\<open>elections\<close>), each with its \<open>next_term\<close>. The tasks of the monitor are in its own field \<open>pending\<close>.
\<close>

record raft_node = monitor +
  instance_id :: int
  term_number :: int
  election_status :: election_state
  role :: node_state
  term_leaders :: "address option list"
  node_logs :: log_queue
  tasks :: "raft_task list"
  id_generator :: generator
  later_updates :: "(raft_message \<times> address) list"
  candidacies :: "int list"
  victories :: "int list"
  elections :: "int list"

definition ReplicationController_init :: "address \<Rightarrow> monitor_config \<Rightarrow> int \<Rightarrow> int \<Rightarrow> log_queue \<Rightarrow> int \<Rightarrow> raft_node" where
  "ReplicationController_init addr cfg check_nodes i logs current =
     monitor.extend (Monitor_init addr cfg check_nodes)
       (raft_node.fields i 0 READY FOLLOWER [] logs [] (SnowflakeGenerator_init i 0 None current) [] [] [] [])"

lemmas controller_init = ReplicationController_init_def Monitor_init_def monitor.defs raft_node.defs

section \<open>Helpers\<close>

definition instance_key :: "raft_node \<Rightarrow> address \<Rightarrow> int" where
  "instance_key n a = (case map_of (instance_ids n) a of None \<Rightarrow> instance_id n | Some i \<Rightarrow> i)"

definition get_max_instance_id :: "raft_node \<Rightarrow> address" where
  "get_max_instance_id n = last (sort_key (instance_key n) (healthy_members n @ [node_address n]))"

text \<open>The f-strings of the log entries; the port is printed in decimal.\<close>

fun str_nat :: "nat \<Rightarrow> string" where
  "str_nat k = (if k < 10 then [char_of (48 + k)] else str_nat (k div 10) @ [char_of (48 + k mod 10)])"

declare str_nat.simps [simp del]

definition str_int :: "int \<Rightarrow> string" where
  "str_int i = (if i < 0 then CHR ''-'' # str_nat (nat (- i)) else str_nat (nat i))"

definition show_address :: "address \<Rightarrow> string" where
  "show_address a = fst a @ '':'' @ str_int (snd a)"

definition update_text :: "raft_node \<Rightarrow> string" where
  "update_text n = ''Node - '' @ show_address (node_address n) @ '' - submitted log update''"

definition election_text :: "raft_node \<Rightarrow> string" where
  "election_text n = ''Election complete! Elected - '' @ show_address (node_address n)"

text \<open>\<open>Entry.from_data\<close> with a fresh id; a generator that refuses makes the entry invalid.\<close>

definition make_entry :: "raft_node \<Rightarrow> int \<Rightarrow> address \<Rightarrow> string \<Rightarrow> string \<Rightarrow> raft_node \<times> log_entry res" where
  "make_entry n current leader key val =
     (case generate (id_generator n) current of
        (g, None) \<Rightarrow> (n\<lparr>id_generator := g\<rparr>, Inl ValueError)
      | (g, Some i) \<Rightarrow>
          (n\<lparr>id_generator := g\<rparr>,
           Inr \<lparr>entry_id = i, entry_key = key, entry_data = val, entry_term = term_number n,
                leader_host = fst leader, leader_port = snd leader\<rparr>))"

text \<open>The reply fields the handlers share.\<close>

definition reply_to :: "raft_node \<Rightarrow> address \<Rightarrow> raft_message" where
  "reply_to n dest =
     \<lparr>msg_to = dest, msg_source = node_address n, msg_elected = None, msg_failed = None, msg_vote = None,
      msg_role = role n, msg_health = own_health n, msg_entries = None, msg_term = term_number n,
      msg_received = None, msg_error = False\<rparr>"

section \<open>Server hooks\<close>

definition receive_vote_request :: "raft_node \<Rightarrow> raft_message \<Rightarrow> raft_message res" where
  "receive_vote_request n m =
     (let vote = (\<lambda>elected.
            Inr ((reply_to n (msg_source m))\<lparr>msg_elected := Some elected, msg_term := msg_term m,
                   msg_vote := Some (if elected = msg_source m then ACCEPTED else REJECTED)\<rparr>))
      in if msg_term m > term_number n then vote (msg_source m)
         else if msg_term m = term_number n \<and> role n \<noteq> LEADER then vote (get_max_instance_id n)
         else if term_leaders n = [] then Inl IndexError
         else (case last (term_leaders n) of
                 None \<Rightarrow> Inl ValueError
               | Some leader \<Rightarrow>
                   Inr ((reply_to n (msg_source m))\<lparr>msg_elected := Some leader, msg_vote := Some REJECTED,
                          msg_error := True\<rparr>)))"

text \<open>
  \<open>receive_log_update\<close>. A message of a later term only moves the node to that term: its entries
  are not stored, and its leader is recorded after the log messages have been written. Otherwise suspicions of the
  failed node and of the source are cancelled and the log is updated; an exception of the log becomes an error in
  the reply.
\<close>

definition later_term :: "raft_node \<Rightarrow> raft_message \<Rightarrow> address \<Rightarrow> raft_node" where
  "later_term n m leader =
     n\<lparr>tasks := tasks n @ [CancelElection m], term_number := msg_term m,
       term_leaders := term_leaders n @ replicate (nat (max (msg_term m - term_number n - 1) 0)) None,
       later_updates := later_updates n @ [(m, leader)]\<rparr>"

definition later_term_leader :: "raft_node \<Rightarrow> raft_message \<Rightarrow> address \<Rightarrow> raft_node \<times> raft_message" where
  "later_term_leader n m leader =
     (let n = n\<lparr>term_leaders := term_leaders n @ [Some leader], election_status := READY, role := FOLLOWER,
                later_updates := remove1 (m, leader) (later_updates n)\<rparr>
      in (n, (reply_to n (msg_source m))\<lparr>msg_elected := Some leader, msg_vote := Some REJECTED, msg_error := True\<rparr>))"

definition cancel_suspicion :: "raft_node \<Rightarrow> address option \<Rightarrow> raft_node" where
  "cancel_suspicion n a =
     (case a of
        None \<Rightarrow> n
      | Some a \<Rightarrow> if a \<in> suspect_tasks n then add_pending [CancelSuspicionProbe a] n else n)"

definition store_entries :: "raft_node \<Rightarrow> raft_message \<Rightarrow> log_entry list \<Rightarrow> address \<Rightarrow> raft_node \<times> raft_message" where
  "store_entries n m entries leader =
     (case log_update (node_logs n) entries of
        (q, UpdateRaises err) \<Rightarrow>
          (let n = n\<lparr>node_logs := q\<rparr>
           in (n, (reply_to n (msg_source m))\<lparr>msg_elected := Some leader, msg_error := True\<rparr>))
      | (q, r) \<Rightarrow>
          (let n = reduce_multiplier (n\<lparr>node_logs := q\<rparr>) (msg_source m)
           in case r of
                Updated \<Rightarrow>
                  (n, (reply_to n (msg_source m))\<lparr>msg_elected := Some leader, msg_received := Some (last_timestamp q)\<rparr>)
              | _ \<Rightarrow> (n, (reply_to n (msg_source m))\<lparr>msg_elected := Some leader, msg_error := True\<rparr>)))"

text \<open>The handler up to its first \<open>await\<close>, and how it goes on.\<close>

datatype log_update_rest = AnsweredNow raft_message | LaterTerm address | Storing "log_entry list" address

definition log_update_arrives :: "raft_node \<Rightarrow> raft_message \<Rightarrow> raft_node \<times> log_update_rest res" where
  "log_update_arrives n m =
     (case msg_entries m of
        None \<Rightarrow> (n, Inl TypeError)
      | Some [] \<Rightarrow> (n, Inr (AnsweredNow (reply_to n (msg_to m))))
      | Some es \<Rightarrow>
          (let entries = sort_key entry_ts es;
               leader = (leader_host (last entries), leader_port (last entries))
           in if msg_term m > term_number n then (later_term n m leader, Inr (LaterTerm leader))
              else (cancel_suspicion n (msg_failed m), Inr (Storing entries leader))))"

text \<open>The whole handler when nothing runs in between.\<close>

definition receive_log_update :: "raft_node \<Rightarrow> raft_message \<Rightarrow> raft_node \<times> raft_message res" where
  "receive_log_update n m =
     (case log_update_arrives n m of
        (n, Inl err) \<Rightarrow> (n, Inl err)
      | (n, Inr (AnsweredNow r)) \<Rightarrow> (n, Inr r)
      | (n, Inr (LaterTerm leader)) \<Rightarrow> map_prod id Inr (later_term_leader n m leader)
      | (n, Inr (Storing entries leader)) \<Rightarrow>
          map_prod id Inr (store_entries (cancel_suspicion n (Some (msg_source m))) m entries leader))"

definition receive_forwarded_entries :: "raft_node \<Rightarrow> int \<Rightarrow> raft_message \<Rightarrow> raft_node \<times> raft_message res" where
  "receive_forwarded_entries n current m =
     (let answer = (\<lambda>n. Inr ((reply_to n (msg_to m))\<lparr>msg_received := Some (last_timestamp (node_logs n))\<rparr>))
      in case msg_entries m of
           Some (e # es) \<Rightarrow>
             (if role n = LEADER
              then (case make_entry n current (node_address n) ''logs_update'' (update_text n) of
                      (n, Inl err) \<Rightarrow> (n, Inl err)
                    | (n, Inr new) \<Rightarrow>
                        (let n = n\<lparr>tasks := tasks n @ [SubmitLogs (e # es @ [new])]\<rparr> in (n, answer n)))
              else (n, answer n))
         | _ \<Rightarrow> (n, answer n))"

text \<open>
  \<open>failed_node not in self.failed_nodes\<close> compares a pair with triples and is always true. A
  message without a failed node raises inside the \<open>try\<close> and is answered with None.
\<close>

definition receive_failure_notification :: "raft_node \<Rightarrow> real \<Rightarrow> raft_message \<Rightarrow> raft_node \<times> raft_message option" where
  "receive_failure_notification n now m =
     (case msg_failed m of
        None \<Rightarrow> (n, None)
      | Some a \<Rightarrow>
          (let n = (if check_is_not_self n a \<and> election_status n = READY
                    then (set_status a Failed n)\<lparr>failed_nodes := failed_nodes n @ [(a, now)],
                           election_status := ACTIVE, tasks := tasks n @ [RunElection (Some a)]\<rparr>
                    else n)
           in (n, Some ((reply_to n (msg_to m))\<lparr>msg_received := Some (last_timestamp (node_logs n))\<rparr>))))"

section \<open>Tasks\<close>

text \<open>\<open>_cancel_election\<close>; \<open>_election_task\<close> is never assigned a task.\<close>

definition cancel_election :: "raft_node \<Rightarrow> raft_message \<Rightarrow> raft_node" where
  "cancel_election n m = n\<lparr>election_status := READY, term_number := msg_term m\<rparr>"

text \<open>
  \<open>run_election\<close>, cut at its log messages and at the log updates of a new leader. The log entry of a new leader may
  be refused, and reading the latest logs may raise; the messages are those of \<open>submit_log_update\<close>.
\<close>

definition log_update_message :: "raft_node \<Rightarrow> log_entry list \<Rightarrow> address option \<Rightarrow> address \<Rightarrow> raft_message" where
  "log_update_message n es failed dest = (reply_to n dest)\<lparr>msg_entries := Some es, msg_failed := failed\<rparr>"

definition begin_election :: "raft_node \<Rightarrow> raft_node" where
  "begin_election n = n\<lparr>role := CANDIDATE, candidacies := candidacies n @ [term_number n + 1]\<rparr>"

text \<open>The flag says whether the node has chosen itself.\<close>

definition choose_leader :: "raft_node \<Rightarrow> int \<Rightarrow> raft_node \<times> bool" where
  "choose_leader n next_term =
     (let elected = get_max_instance_id n;
          n = n\<lparr>term_leaders := term_leaders n @ [Some elected], candidacies := remove1 next_term (candidacies n)\<rparr>
      in if elected = node_address n
         then (n\<lparr>victories := victories n @ [next_term]\<rparr>, True)
         else (n\<lparr>role := FOLLOWER, elections := elections n @ [next_term]\<rparr>, False))"

definition take_lead :: "raft_node \<Rightarrow> int \<Rightarrow> address option \<Rightarrow> int \<Rightarrow> raft_node \<times> raft_message list res" where
  "take_lead n current failed next_term =
     (let n = n\<lparr>role := LEADER, term_number := term_number n + 1, victories := remove1 next_term (victories n)\<rparr>
      in case make_entry n current (node_address n) ''election_update'' (election_text n) of
           (n, Inl err) \<Rightarrow> (n, Inl err)
         | (n, Inr e) \<Rightarrow>
             (case log_update (node_logs n) [e] of
                (q, UpdateRaises err) \<Rightarrow> (n\<lparr>node_logs := q\<rparr>, Inl err)
              | (q, _) \<Rightarrow>
                  (let n = n\<lparr>node_logs := q\<rparr>
                   in case latest q of
                        Inl err \<Rightarrow> (n, Inl err)
                      | Inr es \<Rightarrow>
                          (n\<lparr>elections := elections n @ [next_term]\<rparr>,
                           Inr (map (log_update_message n es failed) (healthy_members n))))))"

text \<open>The election up to its log updates when nothing runs in between.\<close>

definition start_election :: "raft_node \<Rightarrow> int \<Rightarrow> address option \<Rightarrow> raft_node \<times> raft_message list res" where
  "start_election n current failed =
     (let next_term = term_number n + 1
      in case choose_leader (begin_election n) next_term of
           (n, True) \<Rightarrow> take_lead n current failed next_term
         | (n, False) \<Rightarrow> (n, Inr []))"

definition finish_election :: "raft_node \<Rightarrow> int \<Rightarrow> raft_node" where
  "finish_election n next_term =
     n\<lparr>term_number := (if term_number n > next_term then next_term else term_number n), election_status := READY,
       elections := remove1 next_term (elections n)\<rparr>"

text \<open>\<open>_submit_logs_to_members\<close>: update and send, then commit once the members have answered.\<close>

definition start_submit :: "raft_node \<Rightarrow> log_entry list \<Rightarrow> raft_node \<times> raft_message list res" where
  "start_submit n entries =
     (case log_update (node_logs n) entries of
        (q, UpdateRaises err) \<Rightarrow> (n\<lparr>node_logs := q\<rparr>, Inl err)
      | (q, _) \<Rightarrow>
          (let n = n\<lparr>node_logs := q\<rparr>
           in case latest q of
                Inl err \<Rightarrow> (n, Inl err)
              | Inr es \<Rightarrow> (n, Inr (map (log_update_message n es None) (healthy_members n)))))"

definition finish_submit :: "raft_node \<Rightarrow> raft_node" where
  "finish_submit n = n\<lparr>node_logs := commit (node_logs n)\<rparr>"

text \<open>
  One round of \<open>_run_raft_monitor\<close> and of \<open>_cleanup_pending_raft_tasks\<close>. A refused id or an
  error of the log ends the background task and leaves the node as it is.
\<close>

definition raft_monitor_tick :: "raft_node \<Rightarrow> int \<Rightarrow> raft_node" where
  "raft_monitor_tick n current =
     (if role n = LEADER
      then (case make_entry n current (node_address n) ''logs_update'' (update_text n) of
              (n, Inl _) \<Rightarrow> n
            | (n, Inr e) \<Rightarrow> n\<lparr>tasks := tasks n @ [SubmitLogs [e]]\<rparr>)
      else n)"

definition prune_tick :: "raft_node \<Rightarrow> int \<Rightarrow> raft_node" where
  "prune_tick n now = (case prune (node_logs n) now of Inl _ \<Rightarrow> n | Inr q \<Rightarrow> n\<lparr>node_logs := q\<rparr>)"

section \<open>Reachable states\<close>

text \<open>
  The runs of a node: every piece of a handler or task at any time, in any order, with any message and any
  clock; a piece that goes on with a waiting coroutine needs one that waits. The hooks of the monitor
  (\<open>observe\<close>) may change what the node knows of the others; the end of a suspicion makes an election active
  (\<open>on_suspicion\<close>); pushing entries takes ids (\<open>run_ids\<close>).
\<close>

inductive raft_run :: "raft_node \<Rightarrow> raft_node \<Rightarrow> bool" for n0 where
  run_init: "raft_run n0 n0"
| observe: "raft_run n0 n \<Longrightarrow>
    raft_run n0 (monitor.extend (m :: monitor) (monitor.more n))"
| on_log_update: "raft_run n0 n \<Longrightarrow> raft_run n0 (fst (log_update_arrives n m))"
| on_later_leader: "raft_run n0 n \<Longrightarrow> (m, leader) \<in> set (later_updates n) \<Longrightarrow> raft_run n0 (fst (later_term_leader n m leader))"
| on_source: "raft_run n0 n \<Longrightarrow> raft_run n0 (cancel_suspicion n a)"
| on_store: "raft_run n0 n \<Longrightarrow> raft_run n0 (fst (store_entries n m entries leader))"
| on_forwarded: "raft_run n0 n \<Longrightarrow> raft_run n0 (fst (receive_forwarded_entries n current m))"
| on_failure: "raft_run n0 n \<Longrightarrow> raft_run n0 (fst (receive_failure_notification n now m))"
| on_suspicion: "raft_run n0 n \<Longrightarrow> raft_run n0 (n\<lparr>failed_nodes := fs, election_status := ACTIVE\<rparr>)"
| run_cancel: "raft_run n0 n \<Longrightarrow> CancelElection m \<in> set (tasks n) \<Longrightarrow>
    raft_run n0 ((cancel_election n m)\<lparr>tasks := remove1 (CancelElection m) (tasks n)\<rparr>)"
| run_begin: "raft_run n0 n \<Longrightarrow> raft_run n0 (begin_election n)"
| run_choose: "raft_run n0 n \<Longrightarrow> t \<in> set (candidacies n) \<Longrightarrow> raft_run n0 (fst (choose_leader n t))"
| run_lead: "raft_run n0 n \<Longrightarrow> t \<in> set (victories n) \<Longrightarrow> raft_run n0 (fst (take_lead n current failed t))"
| run_finish: "raft_run n0 n \<Longrightarrow> t \<in> set (elections n) \<Longrightarrow> raft_run n0 (finish_election n t)"
| run_submit: "raft_run n0 n \<Longrightarrow> raft_run n0 (fst (start_submit n es))"
| run_commit: "raft_run n0 n \<Longrightarrow> raft_run n0 (finish_submit n)"
| run_tick: "raft_run n0 n \<Longrightarrow> raft_run n0 (raft_monitor_tick n current)"
| run_prune: "raft_run n0 n \<Longrightarrow> raft_run n0 (prune_tick n now)"
| run_ids: "raft_run n0 n \<Longrightarrow> raft_run n0 (n\<lparr>id_generator := g\<rparr>)"

text \<open>
  The list of leaders, with the leaders that later terms have still to add, covers every term the node is in, is
  about to enter or may return to; its last element is known unless a later term waits.
\<close>

definition coming_terms :: "raft_node \<Rightarrow> int" where
  "coming_terms n = int (length (term_leaders n)) + int (length (later_updates n)) - int (length (victories n))"

definition raft_inv :: "raft_node \<Rightarrow> bool" where
  "raft_inv n \<longleftrightarrow>
     0 \<le> term_number n \<and> term_number n \<le> coming_terms n \<and>
     (role n = LEADER \<or> victories n \<noteq> [] \<longrightarrow> term_leaders n \<noteq> []) \<and>
     (later_updates n = [] \<and> term_leaders n \<noteq> [] \<longrightarrow> last (term_leaders n) \<noteq> None) \<and>
     (\<forall>m. CancelElection m \<in> set (tasks n) \<longrightarrow> 0 \<le> msg_term m \<and> msg_term m \<le> coming_terms n) \<and>
     (\<forall>t \<in> set (candidacies n) \<union> set (victories n) \<union> set (elections n). 0 \<le> t)"

named_theorems raft_steps \<open>each operation of a node keeps the invariant\<close>

lemma make_entry_node: "fst (make_entry n current leader key val) = n\<lparr>id_generator := fst (generate (id_generator n) current)\<rparr>"
  by (simp add: make_entry_def split: prod.split option.split)

lemma length_waiting: "x \<in> set xs \<Longrightarrow> int (length (remove1 x xs)) = int (length xs) - 1"
  by (cases "length xs") (auto simp: length_remove1)

lemma inv_later_term:
  assumes "raft_inv n" "msg_term m > term_number n"
  shows "raft_inv (later_term n m leader)"
proof -
  have c: "coming_terms (later_term n m leader) = coming_terms n + (msg_term m - term_number n)"
    using assms(2) by (simp add: coming_terms_def later_term_def)
  show ?thesis using assms unfolding raft_inv_def c by (auto simp: later_term_def)
qed

lemma inv_fields [simp]:
  "raft_inv (n\<lparr>pending := ts\<rparr>) = raft_inv n" "raft_inv (n\<lparr>node_logs := q\<rparr>) = raft_inv n"
  "raft_inv (reduce_multiplier n a) = raft_inv n" "raft_inv (increase_multiplier n a) = raft_inv n"
  "raft_inv (set_status a s n) = raft_inv n" "raft_inv (n\<lparr>failed_nodes := fs\<rparr>) = raft_inv n"
  by (simp_all add: raft_inv_def coming_terms_def reduce_multiplier_def increase_multiplier_def)

lemma inv_arrives [raft_steps]: "raft_inv n \<Longrightarrow> raft_inv (fst (log_update_arrives n m))"
  using inv_later_term [of n m]
  by (simp add: log_update_arrives_def Let_def cancel_suspicion_def split: option.split list.split)

lemma inv_later_leader [raft_steps]:
  assumes "raft_inv n" "(m, leader) \<in> set (later_updates n)"
  shows "raft_inv (fst (later_term_leader n m leader))"
proof -
  have c: "coming_terms (fst (later_term_leader n m leader)) = coming_terms n"
    using assms(2) by (simp add: coming_terms_def later_term_leader_def Let_def length_waiting)
  show ?thesis using assms unfolding raft_inv_def c by (auto simp: later_term_leader_def Let_def)
qed

lemma inv_source [raft_steps]: "raft_inv n \<Longrightarrow> raft_inv (cancel_suspicion n a)"
  by (simp add: cancel_suspicion_def split: option.split)

lemma inv_store [raft_steps]: "raft_inv n \<Longrightarrow> raft_inv (fst (store_entries n m entries leader))"
  by (simp add: store_entries_def Let_def split: prod.split update_result.split)

lemma inv_forwarded [raft_steps]: "raft_inv n \<Longrightarrow> raft_inv (fst (receive_forwarded_entries n current m))"
  by (auto simp: receive_forwarded_entries_def make_entry_def Let_def raft_inv_def coming_terms_def
      split: option.split list.split prod.split sum.split)

lemma inv_failure [raft_steps]: "raft_inv n \<Longrightarrow> raft_inv (fst (receive_failure_notification n now m))"
  by (auto simp: receive_failure_notification_def Let_def raft_inv_def coming_terms_def split: option.split)

lemma inv_cancel [raft_steps]:
  assumes "raft_inv n" "CancelElection m \<in> set (tasks n)"
  shows "raft_inv ((cancel_election n m)\<lparr>tasks := remove1 (CancelElection m) (tasks n)\<rparr>)"
  using assms by (auto simp: raft_inv_def cancel_election_def coming_terms_def dest: set_remove1_subset [THEN subsetD])

lemma inv_begin [raft_steps]: "raft_inv n \<Longrightarrow> raft_inv (begin_election n)"
  by (auto simp: raft_inv_def begin_election_def coming_terms_def)

lemma inv_choose [raft_steps]:
  assumes "raft_inv n" "t \<in> set (candidacies n)"
  shows "raft_inv (fst (choose_leader n t))"
proof -
  let ?n = "n\<lparr>term_leaders := term_leaders n @ [Some (get_max_instance_id n)], candidacies := remove1 t (candidacies n)\<rparr>"
  have b: "\<forall>x \<in> set (candidacies n) \<union> set (victories n) \<union> set (elections n). 0 \<le> x" using assms(1) by (simp add: raft_inv_def)
  then have e: "\<forall>x \<in> set (remove1 t (candidacies n)) \<union> set (victories n) \<union> set (elections n). 0 \<le> x" "0 \<le> t"
    using assms(2) set_remove1_subset [of t "candidacies n"] by blast+
  have i: "0 \<le> term_number n" "term_number n \<le> coming_terms n"
    "\<forall>k. CancelElection k \<in> set (tasks n) \<longrightarrow> 0 \<le> msg_term k \<and> msg_term k \<le> coming_terms n"
    using assms(1) by (simp_all add: raft_inv_def)
  have "coming_terms (?n\<lparr>victories := victories n @ [t]\<rparr>) = coming_terms n"
    "coming_terms (?n\<lparr>role := FOLLOWER, elections := elections n @ [t]\<rparr>) = coming_terms n + 1"
    by (simp_all add: coming_terms_def)
  then have "raft_inv (?n\<lparr>victories := victories n @ [t]\<rparr>)" "raft_inv (?n\<lparr>role := FOLLOWER, elections := elections n @ [t]\<rparr>)"
    using i e unfolding raft_inv_def by (simp, fastforce)
  then show ?thesis by (cases "get_max_instance_id n = node_address n") (simp_all add: choose_leader_def Let_def)
qed

lemma take_lead_fields:
  "\<exists>g q es. fst (take_lead n current failed t) =
     n\<lparr>role := LEADER, term_number := term_number n + 1, victories := remove1 t (victories n),
       id_generator := g, node_logs := q, elections := es\<rparr> \<and> set es \<subseteq> insert t (set (elections n))"
proof -
  let ?n = "n\<lparr>role := LEADER, term_number := term_number n + 1, victories := remove1 t (victories n)\<rparr>"
  obtain g where g: "fst (make_entry ?n current (node_address n) ''election_update'' (election_text ?n)) = ?n\<lparr>id_generator := g\<rparr>"
    using make_entry_node by blast
  have q: "?n\<lparr>id_generator := g, node_logs := q\<rparr> = ?n\<lparr>id_generator := g, node_logs := q, elections := elections n\<rparr>" for q by simp
  have n: "?n\<lparr>id_generator := g\<rparr> = ?n\<lparr>id_generator := g, node_logs := node_logs n, elections := elections n\<rparr>" by simp
  obtain n' r where m: "make_entry ?n current (node_address n) ''election_update'' (election_text ?n) = (n', r)" by fastforce
  then have n': "n' = ?n\<lparr>id_generator := g\<rparr>" using g by simp
  have "\<exists>q es. fst (take_lead n current failed t) = ?n\<lparr>id_generator := g, node_logs := q, elections := es\<rparr> \<and>
      (es = elections n \<or> es = elections n @ [t])"
  proof (cases r)
    case (Inl err)
    then have "fst (take_lead n current failed t) = ?n\<lparr>id_generator := g\<rparr>" using m n' by (simp add: take_lead_def)
    then show ?thesis using n by metis
  next
    case (Inr e)
    obtain q u where u: "log_update (node_logs n) [e] = (q, u)" by fastforce
    show ?thesis
    proof (cases "\<exists>err. u = UpdateRaises err \<or> latest q = Inl err")
      case True
      then have "fst (take_lead n current failed t) = ?n\<lparr>id_generator := g, node_logs := q\<rparr>"
        using m n' Inr u by (cases u) (auto simp: take_lead_def Let_def)
      then show ?thesis using q by metis
    next
      case False
      then obtain ls where "latest q = Inr ls" by (cases "latest q") auto
      then have "fst (take_lead n current failed t) = ?n\<lparr>id_generator := g, node_logs := q, elections := elections n @ [t]\<rparr>"
        using m n' Inr u False by (cases u) (auto simp: take_lead_def Let_def)
      then show ?thesis by blast
    qed
  qed
  then show ?thesis by fastforce
qed

lemma inv_lead [raft_steps]:
  assumes "raft_inv n" "t \<in> set (victories n)"
  shows "raft_inv (fst (take_lead n current failed t))"
proof -
  obtain g q es where f: "fst (take_lead n current failed t) =
      n\<lparr>role := LEADER, term_number := term_number n + 1, victories := remove1 t (victories n),
        id_generator := g, node_logs := q, elections := es\<rparr>" "set es \<subseteq> insert t (set (elections n))"
    using take_lead_fields by blast
  have c: "coming_terms (fst (take_lead n current failed t)) = coming_terms n + 1"
    using assms(2) by (simp add: f(1) coming_terms_def length_waiting)
  have b: "\<forall>x \<in> set (candidacies n) \<union> set (victories n) \<union> set (elections n). 0 \<le> x" using assms(1) by (simp add: raft_inv_def)
  have "\<forall>x \<in> set (candidacies n) \<union> set (remove1 t (victories n)) \<union> set es. 0 \<le> x"
    using b f(2) assms(2) set_remove1_subset [of t "victories n"] by blast
  moreover have "term_leaders n \<noteq> []" using assms by (auto simp: raft_inv_def)
  moreover have "\<forall>k. CancelElection k \<in> set (tasks n) \<longrightarrow> 0 \<le> msg_term k \<and> msg_term k \<le> coming_terms n + 1"
    using assms(1) by (auto simp: raft_inv_def)
  moreover have "0 \<le> term_number n" "term_number n \<le> coming_terms n" "later_updates n = [] \<longrightarrow> last (term_leaders n) \<noteq> None"
    using assms(1) \<open>term_leaders n \<noteq> []\<close> by (simp_all add: raft_inv_def)
  ultimately show ?thesis unfolding raft_inv_def c by (simp add: f(1))
qed

lemma inv_finish [raft_steps]: "raft_inv n \<Longrightarrow> t \<in> set (elections n) \<Longrightarrow> raft_inv (finish_election n t)"
  by (auto simp: raft_inv_def finish_election_def coming_terms_def dest: notin_set_remove1)

lemma inv_submit [raft_steps]: "raft_inv n \<Longrightarrow> raft_inv (fst (start_submit n es))"
  by (auto simp: start_submit_def Let_def raft_inv_def coming_terms_def split: prod.split sum.split update_result.split)

lemma inv_others [raft_steps]:
  "raft_inv n \<Longrightarrow> raft_inv (finish_submit n)" "raft_inv n \<Longrightarrow> raft_inv (raft_monitor_tick n current)"
  "raft_inv n \<Longrightarrow> raft_inv (prune_tick n now)"
  "raft_inv n \<Longrightarrow> raft_inv (n\<lparr>failed_nodes := fs, election_status := ACTIVE\<rparr>)" "raft_inv n \<Longrightarrow> raft_inv (n\<lparr>id_generator := g\<rparr>)"
  by (auto simp: raft_inv_def coming_terms_def finish_submit_def raft_monitor_tick_def make_entry_def prune_tick_def
      split: prod.split sum.split option.split)

lemma inv_observe [raft_steps]: "raft_inv n \<Longrightarrow> raft_inv (monitor.extend (m :: monitor) (monitor.more n))"
  by (cases n) (simp add: monitor.defs raft_inv_def coming_terms_def)

lemma raft_run_inv: "raft_run n0 n \<Longrightarrow> raft_inv n0 \<Longrightarrow> raft_inv n"
  by (induction rule: raft_run.induct) (auto intro: raft_steps)

lemma map_of_eqI_distinct:
  assumes "distinct (map fst xs)" "distinct (map fst ys)" "set xs = set ys"
  shows "map_of xs = map_of ys"
proof
  fix k
  show "map_of xs k = map_of ys k"
  proof (cases "map_of xs k")
    case None
    then have "k \<notin> fst ` set ys" using assms(3) by (simp add: map_of_eq_None_iff)
    then show ?thesis using None by (simp add: map_of_eq_None_iff [symmetric])
  next
    case (Some v)
    then have "(k, v) \<in> set ys" using assms(3) map_of_SomeD by fastforce
    then show ?thesis using Some assms(2) by simp
  qed
qed

section \<open>The choice of a leader\<close>

abbreviation electorate :: "raft_node \<Rightarrow> address set" where
  "electorate n \<equiv> insert (node_address n) (set (healthy_members n))"

lemma max_instance:
  "get_max_instance_id n \<in> electorate n"
  "a \<in> electorate n \<Longrightarrow> instance_key n a \<le> instance_key n (get_max_instance_id n)"
proof -
  let ?xs = "sort_key (instance_key n) (healthy_members n @ [node_address n])"
  have s: "set ?xs = electorate n" by auto
  then have ne: "?xs \<noteq> []" by (metis empty_not_insert list.set(1))
  then have "last ?xs \<in> set ?xs" by (rule last_in_set)
  with s show "get_max_instance_id n \<in> electorate n" by (simp only: get_max_instance_id_def)
  assume "a \<in> electorate n"
  with s have "instance_key n a \<in> set (map (instance_key n) ?xs)" by auto
  then have "instance_key n a \<le> last (map (instance_key n) ?xs)" by (rule sorted_last_max [OF sorted_sort_key])
  then show "instance_key n a \<le> instance_key n (get_max_instance_id n)"
    using ne by (simp add: get_max_instance_id_def last_map)
qed

lemma same_max:
  assumes "electorate a = electorate b" "\<forall>x \<in> electorate a. instance_key a x = instance_key b x"
    "inj_on (instance_key a) (electorate a)"
  shows "get_max_instance_id a = get_max_instance_id b"
proof -
  note m = max_instance(1) [of a] max_instance(1) [of b]
  have "instance_key a (get_max_instance_id b) \<le> instance_key a (get_max_instance_id a)"
    using max_instance(2) [of "get_max_instance_id b" a] m assms(1) by simp
  moreover have "instance_key b (get_max_instance_id a) \<le> instance_key b (get_max_instance_id b)"
    using max_instance(2) [of "get_max_instance_id a" b] m assms(1) by simp
  moreover have "instance_key b (get_max_instance_id a) = instance_key a (get_max_instance_id a)"
    "instance_key b (get_max_instance_id b) = instance_key a (get_max_instance_id b)"
    using assms(1,2) m by auto
  ultimately have "instance_key a (get_max_instance_id a) = instance_key a (get_max_instance_id b)" by simp
  then show ?thesis using assms(1,3) m by (auto simp: inj_on_def)
qed

lemma max_instance_cong:
  assumes "node_statuses a = node_statuses b" "instance_ids a = instance_ids b" "instance_id a = instance_id b"
    "node_address a = node_address b"
  shows "get_max_instance_id a = get_max_instance_id b"
proof -
  have "healthy_members a = healthy_members b" using assms(1) by (simp add: healthy_members_def)
  moreover have "instance_key a = instance_key b" by (rule ext) (simp add: instance_key_def assms(2,3) split: option.split)
  ultimately show ?thesis using assms(4) by (simp add: get_max_instance_id_def)
qed

lemma begin_election_same [simp]:
  "get_max_instance_id (begin_election n) = get_max_instance_id n" "node_address (begin_election n) = node_address n"
  "term_leaders (begin_election n) = term_leaders n" "term_number (begin_election n) = term_number n"
  "election_status (begin_election n) = election_status n" "later_updates (begin_election n) = later_updates n"
  by (rule max_instance_cong; simp add: begin_election_def) (simp_all add: begin_election_def)

text \<open>What the choice of a leader does to a node.\<close>

lemma choose_leader_simps:
  "snd (choose_leader n t) \<longleftrightarrow> get_max_instance_id n = node_address n"
  "term_leaders (fst (choose_leader n t)) = term_leaders n @ [Some (get_max_instance_id n)]"
  "role (fst (choose_leader n t)) = (if get_max_instance_id n = node_address n then role n else FOLLOWER)"
  "term_number (fst (choose_leader n t)) = term_number n"
  "election_status (fst (choose_leader n t)) = election_status n" "later_updates (fst (choose_leader n t)) = later_updates n"
  "t \<in> set (if get_max_instance_id n = node_address n then victories (fst (choose_leader n t)) else elections (fst (choose_leader n t)))"
  by (simp_all add: choose_leader_def Let_def)

lemma take_lead_simps:
  "role (fst (take_lead n current failed t)) = LEADER" "term_number (fst (take_lead n current failed t)) = term_number n + 1"
  "term_leaders (fst (take_lead n current failed t)) = term_leaders n"
  "election_status (fst (take_lead n current failed t)) = election_status n"
  "later_updates (fst (take_lead n current failed t)) = later_updates n"
  using take_lead_fields [of n current failed t] by auto

lemma start_election_cases:
  "start_election n current failed =
     (if get_max_instance_id n = node_address n
      then take_lead (fst (choose_leader (begin_election n) (term_number n + 1))) current failed (term_number n + 1)
      else (fst (choose_leader (begin_election n) (term_number n + 1)), Inr []))"
  using choose_leader_simps(1) [of "begin_election n" "term_number n + 1"]
  by (cases "choose_leader (begin_election n) (term_number n + 1)") (simp add: start_election_def Let_def split: bool.split)

lemma start_election_role:
  "role (fst (start_election n current failed)) = (if get_max_instance_id n = node_address n then LEADER else FOLLOWER)"
  "term_number (fst (start_election n current failed)) =
     (if get_max_instance_id n = node_address n then term_number n + 1 else term_number n)"
  by (simp_all add: start_election_cases take_lead_simps choose_leader_simps)

lemma election_leader:
  "term_leaders (fst (start_election n current failed)) = term_leaders n @ [Some (get_max_instance_id n)]"
  by (simp add: start_election_cases take_lead_simps choose_leader_simps)

lemma run_election_whole:
  assumes "raft_run n0 n"
  shows "raft_run n0 (fst (start_election n current failed))"
proof -
  let ?t = "term_number n + 1" and ?b = "begin_election n"
  have b: "raft_run n0 (fst (choose_leader ?b ?t))"
    by (rule run_choose [OF run_begin [OF assms]]) (simp add: begin_election_def)
  show ?thesis
  proof (cases "get_max_instance_id n = node_address n")
    case True
    then have "?t \<in> set (victories (fst (choose_leader ?b ?t)))" using choose_leader_simps(7) [of ?t ?b] by simp
    from run_lead [OF b this] show ?thesis using True by (simp add: start_election_cases)
  qed (use b in \<open>simp add: start_election_cases\<close>)
qed

lemma later_term_same [simp]: "node_logs (later_term n m leader) = node_logs n" "term_number (later_term n m leader) = msg_term m"
  by (simp_all add: later_term_def)

lemma later_term_leader_simps [simp]:
  "node_logs (fst (later_term_leader n m leader)) = node_logs n" "term_number (fst (later_term_leader n m leader)) = term_number n"
  "msg_error (snd (later_term_leader n m leader))"
  by (simp_all add: later_term_leader_def Let_def)

lemma later_update_moves_term:
  "msg_entries m = Some (e # es) \<Longrightarrow> term_number n < msg_term m \<Longrightarrow> term_number (fst (receive_log_update n m)) = msg_term m"
  by (simp add: receive_log_update_def log_update_arrives_def Let_def)

lemma cancel_suspicion_same [simp]: "node_logs (cancel_suspicion n a) = node_logs n"
  by (simp add: cancel_suspicion_def split: option.split)

section \<open>Properties\<close>

text \<open>C21: Whatever has happened to a node, in whatever order the pieces of its handlers and tasks have run, a vote
  request with a nonnegative term is answered, with a known leader, unless a log update of a later term has not yet
  recorded its leader; the vote is accepted only when the request is not of an earlier term and its sender is the
  leader named.\<close>

theorem vote_request_answered:
  assumes "raft_run (ReplicationController_init addr cfg k i logs current) n" "later_updates n = []" "0 \<le> msg_term m"
  shows "\<exists>reply leader. receive_vote_request n m = Inr reply \<and> msg_elected reply = Some leader \<and>
    (msg_vote reply = Some ACCEPTED \<longrightarrow> leader = msg_source m \<and> term_number n \<le> msg_term m)"
proof -
  have "raft_inv (ReplicationController_init addr cfg k i logs current)" by (simp add: raft_inv_def coming_terms_def controller_init)
  with assms(1) have inv: "raft_inv n" by (rule raft_run_inv)
  consider "msg_term m > term_number n" | "msg_term m = term_number n" "role n \<noteq> LEADER"
    | "msg_term m \<le> term_number n" "msg_term m \<noteq> term_number n \<or> role n = LEADER" by linarith
  then show ?thesis
  proof cases
    case 3
    then have "term_leaders n \<noteq> []" using inv assms(2,3) by (auto simp: raft_inv_def coming_terms_def)
    with inv assms(2) obtain leader where "term_leaders n \<noteq> []" "last (term_leaders n) = Some leader" by (auto simp: raft_inv_def)
    with 3 show ?thesis by (auto simp: receive_vote_request_def Let_def)
  qed (cases "msg_source m"; simp add: receive_vote_request_def Let_def)+
qed

definition example_node :: "address \<Rightarrow> int \<Rightarrow> raft_node" where
  "example_node addr i = ReplicationController_init addr example_config 3 i (LogQueue_init 3600 1000) 1000"

definition example_message :: raft_message where
  "example_message = reply_to (example_node (''a'', 1) 1) (''b'', 2)"

theorem vote_request_answered_witness:
  "\<exists>reply leader. receive_vote_request (fst (start_election (example_node (''b'', 2) 5) 2000 None)) example_message = Inr reply \<and>
     msg_elected reply = Some leader"
proof -
  let ?n = "fst (start_election (example_node (''b'', 2) 5) 2000 None)"
  have "raft_run (ReplicationController_init (''b'', 2) example_config 3 5 (LogQueue_init 3600 1000) 1000) ?n"
    unfolding example_node_def by (rule run_election_whole [OF run_init])
  moreover have "later_updates ?n = []"
    by (simp add: start_election_cases take_lead_simps choose_leader_simps) (simp add: example_node_def controller_init)
  moreover have "0 \<le> msg_term example_message" by (simp add: example_message_def reply_to_def example_node_def controller_init)
  ultimately show ?thesis using vote_request_answered by blast
qed

text \<open>C30: nodes that see the same healthy members with the same distinct instance ids elect the same node:
  if the elections of two of them make both a leader, they are the same node.\<close>

theorem election_agreement:
  assumes "electorate a = electorate b" "\<forall>x \<in> electorate a. instance_key a x = instance_key b x"
    "inj_on (instance_key a) (electorate a)"
    "role (fst (start_election a t1 f1)) = LEADER" "role (fst (start_election b t2 f2)) = LEADER"
  shows "node_address a = node_address b"
  using same_max [OF assms(1-3)] assms(4,5) by (simp add: start_election_role split: if_splits)

definition example_pair :: "address \<Rightarrow> int \<Rightarrow> raft_node" where
  "example_pair addr i =
     (example_node addr i)\<lparr>node_statuses := [((''a'', 1), Healthy), ((''b'', 2), Healthy)],
       instance_ids := [((''a'', 1), 1), ((''b'', 2), 5)]\<rparr>"

lemma example_pair_simps:
  "healthy_members (example_pair addr i) = [(''a'', 1), (''b'', 2)]" "node_address (example_pair addr i) = addr"
  "instance_key (example_pair addr i) (''a'', 1) = 1" "instance_key (example_pair addr i) (''b'', 2) = 5"
  "instance_id (example_pair addr i) = i"
  by (simp_all add: example_pair_def example_node_def controller_init healthy_members_def instance_key_def)

theorem election_agreement_witness:
  "role (fst (start_election (example_pair (''b'', 2) 5) 2000 None)) = LEADER \<and>
   role (fst (start_election (example_pair (''a'', 1) 1) 2000 None)) \<noteq> LEADER"
proof
  show l: "role (fst (start_election (example_pair (''b'', 2) 5) 2000 None)) = LEADER"
    by (simp add: start_election_role get_max_instance_id_def example_pair_simps)
  show "role (fst (start_election (example_pair (''a'', 1) 1) 2000 None)) \<noteq> LEADER"
    using election_agreement [of "example_pair (''b'', 2) 5" "example_pair (''a'', 1) 1" 2000 None 2000 None] l
    by (auto simp: example_pair_simps)
qed

text \<open>An election counts no votes: nodes that see no healthy member, as after a network partition, all
  become leader, of the same new term when they were in the same term.\<close>

theorem isolated_nodes_all_lead:
  assumes "\<forall>n \<in> set ns. healthy_members n = [] \<and> term_number n = t"
  shows "\<forall>n \<in> set ns. role (fst (start_election n current failed)) = LEADER \<and>
    term_number (fst (start_election n current failed)) = t + 1"
  using assms by (simp add: start_election_role get_max_instance_id_def)

theorem isolated_nodes_all_lead_witness:
  "role (fst (start_election (example_node (''a'', 1) 1) 2000 None)) = LEADER \<and>
   role (fst (start_election (example_node (''b'', 2) 5) 2000 None)) = LEADER"
  using isolated_nodes_all_lead [of "[example_node (''a'', 1) 1, example_node (''b'', 2) 5]" 0 2000 None]
  by (simp add: example_node_def controller_init healthy_members_def)

text \<open>A vote request that comes before the leader of a later term is recorded raises, when the terms in between are
  unknown too.\<close>

theorem vote_before_leader_raises:
  assumes "log_update_arrives n m = (n1, Inr (LaterTerm leader))" "term_number n + 1 < msg_term m" "msg_term v < msg_term m"
  shows "receive_vote_request n1 v = Inl ValueError"
proof -
  have n1: "n1 = later_term n m leader"
    using assms(1) by (auto simp: log_update_arrives_def Let_def split: option.splits list.splits if_splits)
  obtain k where k: "nat (max (msg_term m - term_number n - 1) 0) = Suc k"
    using assms(2) by (cases "nat (max (msg_term m - term_number n - 1) 0)") auto
  then have "term_leaders n1 = term_leaders n @ replicate (Suc k) None" "term_number n1 = msg_term m"
    unfolding n1 later_term_def k by simp_all
  then show ?thesis using assms(3) by (simp add: receive_vote_request_def Let_def)
qed

theorem vote_before_leader_raises_witness:
  "receive_vote_request (fst (log_update_arrives (example_node (''b'', 2) 5)
     (example_message\<lparr>msg_entries := Some [example_entry 10 0], msg_term := 7\<rparr>))) example_message = Inl ValueError"
proof -
  let ?m = "example_message\<lparr>msg_entries := Some [example_entry 10 0], msg_term := 7\<rparr>"
  have t: "term_number (example_node (''b'', 2) 5) = 0" "msg_term example_message = 0"
    by (simp_all add: example_message_def reply_to_def example_node_def controller_init)
  then obtain n1 leader where a: "log_update_arrives (example_node (''b'', 2) 5) ?m = (n1, Inr (LaterTerm leader))"
    by (simp add: log_update_arrives_def Let_def)
  from vote_before_leader_raises [OF a] t show ?thesis by (simp add: a)
qed



text \<open>A failure notification about a node that shares the host or the port of the receiver changes
  nothing: no status is recorded and no election starts, so a cluster that uses one port for
  all its hosts never reacts to a failed node this way.\<close>

theorem same_port_failure_ignored:
  assumes "msg_failed m = Some a" "fst a = fst (node_address n) \<or> snd a = snd (node_address n)"
  shows "fst (receive_failure_notification n now m) = n"
  using assms by (auto simp: receive_failure_notification_def check_is_not_self_def)

theorem same_port_failure_ignored_witness:
  "fst (receive_failure_notification (example_node (''b'', 8000) 5) 7 (example_message\<lparr>msg_failed := Some (''a'', 8000)\<rparr>)) =
     example_node (''b'', 8000) 5"
  by (rule same_port_failure_ignored [where a = "(''a'', 8000)"])
    (simp_all add: example_node_def controller_init)

text \<open>The term of a node can fall back: when a log update of a later term arrives while an election of
  the node waits for its members, the end of the election sets the term back to that of the
  election.\<close>

theorem term_falls_back:
  assumes "msg_entries m = Some (e # es)" "msg_term m > term_number n + 1"
    "start_election n current failed = (n1, r1)" "receive_log_update n1 m = (n2, r2)"
  shows "term_number n2 = msg_term m \<and> term_number (finish_election n2 (term_number n + 1)) = term_number n + 1"
proof -
  have "term_number n1 \<le> term_number n + 1"
    using start_election_role(2) [of n current failed] assms(3) by simp
  then have "msg_term m > term_number n1" using assms(2) by linarith
  then have "term_number n2 = msg_term m"
    using later_update_moves_term [OF assms(1)] assms(4) by force
  then show ?thesis using assms(2) by (simp add: finish_election_def)
qed

theorem term_falls_back_witness:
  "\<exists>n1 n2 r1 r2. start_election (example_node (''b'', 2) 5) 2000 None = (n1, r1) \<and>
     receive_log_update n1 (example_message\<lparr>msg_entries := Some [example_entry 10 0], msg_term := 7\<rparr>) = (n2, r2) \<and>
     term_number n2 = 7 \<and> term_number (finish_election n2 1) = 1"
proof -
  obtain n1 r1 where 1: "start_election (example_node (''b'', 2) 5) 2000 None = (n1, r1)" by fastforce
  obtain n2 r2 where 2: "receive_log_update n1 (example_message\<lparr>msg_entries := Some [example_entry 10 0], msg_term := 7\<rparr>) = (n2, r2)"
    by fastforce
  have "term_number (example_node (''b'', 2) 5) = 0" by (simp add: example_node_def controller_init)
  with term_falls_back [OF _ _ 1 2] have "term_number n2 = 7 \<and> term_number (finish_election n2 1) = 1" by simp
  with 1 2 show ?thesis by blast
qed

end
