(* ===== verification/Raft_Tasks.thy ===== *)
theory Raft_Tasks
  imports Raft_Node
begin

text \<open>
  The rest of \<open>ReplicationController\<close> (\<open>distributed/replication/replication_controller.py\<close>): its
  messages, the update of the logs of a member with retries, what a finished suspicion starts,
  pushing entries of a client into the log, and the counts of registered nodes.
\<close>

section \<open>Messages and timeouts\<close>

definition request_vote :: "raft_node \<Rightarrow> address \<Rightarrow> raft_message" where
  "request_vote n dest = reply_to n dest"

definition forward_entries_to_leader :: "raft_node \<Rightarrow> log_entry list \<Rightarrow> address \<Rightarrow> raft_message" where
  "forward_entries_to_leader n es dest = (reply_to n dest)\<lparr>msg_entries := Some es\<rparr>"

definition submit_failure_notification :: "raft_node \<Rightarrow> address \<Rightarrow> address \<Rightarrow> raft_message" where
  "submit_failure_notification n failed dest = (reply_to n dest)\<lparr>msg_failed := Some failed\<rparr>"

text \<open>The controller multiplies where \<open>Monitor._calculate_current_timeout\<close> adds.\<close>

definition raft_current_timeout :: "raft_node \<Rightarrow> address \<Rightarrow> real" where
  "raft_current_timeout n a =
     poll_timeout (config n) *
       of_int ((multipliers n a + 1) * max (int (length (healthy_members n))) (initial_expected_nodes (config n)))"

section \<open>Updating the logs of a member\<close>

text \<open>\<open>_update_logs\<close> has the loop and the end of \<open>_run_healthcheck\<close>, with replies of another class.\<close>

definition log_update_try :: "address \<Rightarrow> raft_node \<Rightarrow> raft_message outcome \<Rightarrow> raft_node" where
  "log_update_try a n x =
     (case x of
        Reply sid m \<Rightarrow>
          reduce_multiplier (if check_is_not_self n (msg_source m) then set_status (msg_source m) (msg_health m) n else n) a
      | _ \<Rightarrow> increase_multiplier n a)"

definition update_logs :: "raft_node \<Rightarrow> address \<Rightarrow> raft_message outcome list \<Rightarrow> raft_node \<times> raft_message call_end" where
  "update_logs n a outcomes = run_tries log_update_try n a None outcomes"

interpretation log_updates: counted_call log_update_try
  by unfold_locales (simp_all add: log_update_try_def)

section \<open>After a suspicion\<close>

text \<open>
  \<open>_start_suspect_monitor\<close> after the inherited one: unpacking its None raises. \<open>failed_node not in
  self.failed_nodes\<close> compares a pair with triples and is always true. The messages are those of
  \<open>notify_of_failed_node\<close>.
\<close>

definition suspicion_over :: "raft_node \<Rightarrow> real \<Rightarrow> address option \<Rightarrow> raft_node \<times> raft_message list option res" where
  "suspicion_over n now r =
     (case r of
        None \<Rightarrow> (n, Inl TypeError)
      | Some a \<Rightarrow>
          if election_status n = READY \<and> map_of (node_statuses n) a = Some Failed
          then (let n = n\<lparr>failed_nodes := failed_nodes n @ [(a, now)], election_status := ACTIVE\<rparr>
                in (n, Inr (Some (map (submit_failure_notification n a) (filter (\<lambda>b. b \<noteq> a) (healthy_members n))))))
          else (n, Inr None))"

text \<open>
  The rest, in the state in which all members have answered: \<open>notify_of_failed_node\<close> raises the first exception
  among the answers, before the election begins.
\<close>

definition failure_notified :: "raft_node \<Rightarrow> raft_message outcome list \<Rightarrow> raft_node \<times> unit res" where
  "failure_notified n responses =
     (if Raised \<in> set responses then (n, Inl (GenericException ''TimeoutError'')) else (begin_election n, Inr ()))"

section \<open>Pushing entries\<close>

text \<open>
  \<open>_convert_data_to_entries\<close>: the clock is read for every entry. An unknown leader makes the first
  entry invalid.
\<close>

fun make_entries :: "raft_node \<Rightarrow> address \<Rightarrow> (string \<times> string \<times> int) list \<Rightarrow> raft_node \<times> log_entry list res" where
  "make_entries n leader [] = (n, Inr [])"
| "make_entries n leader ((key, val, current) # ds) =
     (case make_entry n current leader key val of
        (n, Inl err) \<Rightarrow> (n, Inl err)
      | (n, Inr e) \<Rightarrow>
          (case make_entries n leader ds of
             (n, Inl err) \<Rightarrow> (n, Inl err)
           | (n, Inr es) \<Rightarrow> (n, Inr (e # es))))"

definition convert_data_to_entries :: "raft_node \<Rightarrow> (string \<times> string \<times> int) list \<Rightarrow> raft_node \<times> log_entry list res" where
  "convert_data_to_entries n ds =
     (if term_leaders n = [] then (n, Inl IndexError)
      else (case last (term_leaders n) of
              Some leader \<Rightarrow> make_entries n leader ds
            | None \<Rightarrow>
                (case ds of
                   [] \<Rightarrow> (n, Inr [])
                 | (key, val, current) # _ \<Rightarrow>
                     (n\<lparr>id_generator := fst (generate (id_generator n) current)\<rparr>, Inl ValueError))))"

text \<open>
  \<open>push_entries\<close> up to the answers of the members or of the leader. An entry about the update is added
  to those of the caller. The reply of a failed forwarding names the leader.
\<close>

definition push_entries :: "raft_node \<Rightarrow> (string \<times> string \<times> int) list \<Rightarrow> int \<Rightarrow> raft_node \<times> raft_message list res" where
  "push_entries n ds current =
     (case convert_data_to_entries n (ds @ [(''logs_update'', update_text n, current)]) of
        (n, Inl err) \<Rightarrow> (n, Inl err)
      | (n, Inr es) \<Rightarrow>
          if role n = LEADER then start_submit n es
          else (case last (term_leaders n) of
                  None \<Rightarrow> (n, Inl ValueError)
                | Some leader \<Rightarrow> (n, Inr [forward_entries_to_leader n es leader])))"

definition forward_failed :: "raft_node \<Rightarrow> address \<Rightarrow> raft_message" where
  "forward_failed n leader = (reply_to n leader)\<lparr>msg_elected := Some leader, msg_error := True\<rparr>"

section \<open>Registration\<close>

definition calculate_all_registered_nodes :: "raft_node \<Rightarrow> raft_node \<times> nat" where
  "calculate_all_registered_nodes n =
     (let n = n\<lparr>registered_counts := AList.update (node_address n) (int (length (instance_ids n))) (registered_counts n)\<rparr>
      in (n, length (filter (\<lambda>p. snd p = initial_expected_nodes (config n)) (registered_counts n))))"

definition check_all_nodes_registered :: "raft_node \<Rightarrow> raft_node \<times> bool" where
  "check_all_nodes_registered n =
     (case calculate_all_registered_nodes n of (n, k) \<Rightarrow> (n, int k = initial_expected_nodes (config n)))"

text \<open>
  \<open>_submit_registration\<close> with the answer to its call; only a health check is used, and one without a
  count raises after the rest has been stored.
\<close>

definition registration_answered :: "raft_node \<Rightarrow> health_check outcome \<Rightarrow> raft_node \<times> unit res" where
  "registration_answered n x =
     (case x of
        Reply sid h \<Rightarrow>
          (let source = hc_source h;
               n = set_instance source (sf_instance (snowflake_parse sid 0)) n;
               n = (if check_is_not_self n source then set_status source Healthy n else n)
           in case registered_count h of
                None \<Rightarrow> (n\<lparr>registered_counts := AList.update source (count_of n source) (registered_counts n)\<rparr>, Inl TypeError)
              | Some c \<Rightarrow>
                  (n\<lparr>registered_counts := AList.update source (max c (count_of n source)) (registered_counts n)\<rparr>, Inr ()))
      | TransportError \<Rightarrow> (n, Inr ())
      | Raised \<Rightarrow> (n, Inl (GenericException ''TimeoutError'')))"

section \<open>Properties\<close>

lemma suspicion_over_Some:
  "snd (suspicion_over n now r) = Inr (Some msgs) \<Longrightarrow>
   \<exists>a. r = Some a \<and> election_status n = READY \<and> map_of (node_statuses n) a = Some Failed \<and>
     fst (suspicion_over n now r) = n\<lparr>failed_nodes := failed_nodes n @ [(a, now)], election_status := ACTIVE\<rparr>"
  by (auto simp: suspicion_over_def Let_def split: option.splits if_splits)

text \<open>C31: A suspicion that ends with a node marked failed, while no election is active, makes an election active and
  notifies every healthy member but the failed node. Once all have answered, in whatever state the node is by then,
  an election for the next term begins; when its leader is chosen, in whatever state the node is by then, it is
  another node than the failed one unless that is healthy again, and the node either follows and waits for the end
  of the election or, if it has chosen itself, goes on to lead.\<close>

theorem failure_starts_election:
  assumes "suspicion_over n now (Some a) = (n1, Inr (Some msgs))" "Raised \<notin> set responses"
    "a \<noteq> node_address n3" "a \<notin> set (healthy_members n3)"
  shows "election_status n = READY \<and> map_of (node_statuses n) a = Some Failed \<and> election_status n1 = ACTIVE \<and>
    msgs = map (submit_failure_notification n1 a) (filter (\<lambda>b. b \<noteq> a) (healthy_members n)) \<and>
    (\<exists>n2'. failure_notified n2 responses = (n2', Inr ()) \<and> role n2' = CANDIDATE \<and> term_number n2 + 1 \<in> set (candidacies n2')) \<and>
    (\<exists>n4 won leader. choose_leader n3 t = (n4, won) \<and> leader \<noteq> a \<and> term_leaders n4 = term_leaders n3 @ [Some leader] \<and>
      (if leader = node_address n3 then won \<and> t \<in> set (victories n4) \<and> (\<forall>n5 current.
           role (fst (take_lead n5 current (Some a) t)) = LEADER \<and> term_number (fst (take_lead n5 current (Some a) t)) = term_number n5 + 1)
       else \<not> won \<and> role n4 = FOLLOWER \<and> t \<in> set (elections n4)))"
proof -
  have "election_status n = READY \<and> map_of (node_statuses n) a = Some Failed \<and> election_status n1 = ACTIVE \<and>
      msgs = map (submit_failure_notification n1 a) (filter (\<lambda>b. b \<noteq> a) (healthy_members n))"
    using assms(1) by (auto simp: suspicion_over_def Let_def healthy_members_def split: if_splits)
  moreover have "\<exists>n2'. failure_notified n2 responses = (n2', Inr ()) \<and> role n2' = CANDIDATE \<and> term_number n2 + 1 \<in> set (candidacies n2')"
    using assms(2) by (simp add: failure_notified_def begin_election_def)
  moreover have "\<exists>n4 won leader. choose_leader n3 t = (n4, won) \<and> leader \<noteq> a \<and> term_leaders n4 = term_leaders n3 @ [Some leader] \<and>
      (if leader = node_address n3 then won \<and> t \<in> set (victories n4) \<and> (\<forall>n5 current.
           role (fst (take_lead n5 current (Some a) t)) = LEADER \<and> term_number (fst (take_lead n5 current (Some a) t)) = term_number n5 + 1)
       else \<not> won \<and> role n4 = FOLLOWER \<and> t \<in> set (elections n4))"
  proof -
    obtain n4 won where n4: "choose_leader n3 t = (n4, won)" by fastforce
    have "get_max_instance_id n3 \<noteq> a" using max_instance(1) [of n3] assms(3,4) by auto
    then show ?thesis using choose_leader_simps [where n = n3 and t = t] unfolding n4
      by (intro exI [of _ n4] exI [of _ won] exI [of _ "get_max_instance_id n3"]) (simp add: take_lead_simps split: if_splits)
  qed
  ultimately show ?thesis by blast
qed

theorem failure_starts_election_witness:
  "\<exists>n1 msgs n2 n3. suspicion_over ((example_node (''b'', 2) 5)\<lparr>node_statuses := [((''a'', 1), Failed)]\<rparr>) 7 (Some (''a'', 1)) = (n1, Inr (Some msgs)) \<and>
     failure_notified n1 [] = (n2, Inr ()) \<and> choose_leader n2 1 = (n3, True) \<and> role (fst (take_lead n3 2000 (Some (''a'', 1)) 1)) = LEADER"
proof -
  let ?n = "(example_node (''b'', 2) 5)\<lparr>node_statuses := [((''a'', 1), Failed)]\<rparr>"
  obtain n1 msgs where 1: "suspicion_over ?n 7 (Some (''a'', 1)) = (n1, Inr (Some msgs))"
    by (simp add: suspicion_over_def example_node_def controller_init Let_def)
  then have n1: "n1 = ?n\<lparr>failed_nodes := failed_nodes ?n @ [((''a'', 1), 7)], election_status := ACTIVE\<rparr>"
    using suspicion_over_Some [of ?n 7 "Some (''a'', 1)" msgs] by auto
  obtain n2 where 2: "failure_notified n1 [] = (n2, Inr ())" by (simp add: failure_notified_def)
  then have "n2 = begin_election n1" by (simp add: failure_notified_def)
  then have h: "healthy_members n2 = []" "node_address n2 = (''b'', 2)"
    by (simp_all add: n1 begin_election_def healthy_members_def example_node_def controller_init)
  have a: "(''a'', 1) \<noteq> node_address n2" "(''a'', 1) \<notin> set (healthy_members n2)" by (simp_all add: h)
  have "\<exists>n4 won leader. choose_leader n2 1 = (n4, won) \<and>
      (if leader = node_address n2 then won \<and> (\<forall>n5 current. role (fst (take_lead n5 current (Some (''a'', 1)) 1)) = LEADER) else \<not> won)"
    using failure_starts_election [OF 1 _ a, of "[]" n1 1] by (simp split: if_splits) metis
  moreover have "snd (choose_leader n2 1)" using choose_leader_simps(1) [of n2 1] h by (simp add: get_max_instance_id_def)
  ultimately show ?thesis using 1 2 by (auto split: if_splits)
qed

text \<open>When one member does not answer the notification of a failure, no election is held, and a node whose election is
  still active by then stays so: no later failure, detected or reported, makes it hold one.\<close>

theorem unanswered_notification_blocks:
  assumes "suspicion_over n now r = (n1, Inr (Some msgs))" "Raised \<in> set responses" "election_status n2 = ACTIVE"
    "failure_notified n2 responses = (n3, out)"
  shows "election_status n1 = ACTIVE \<and> n3 = n2 \<and> out = Inl (GenericException ''TimeoutError'') \<and>
    (\<forall>b t. suspicion_over n3 t (Some b) = (n3, Inr None)) \<and> (\<forall>m t. fst (receive_failure_notification n3 t m) = n3)"
proof -
  have "n3 = n2" "out = Inl (GenericException ''TimeoutError'')" using assms(2,4) by (auto simp: failure_notified_def)
  moreover have "election_status n1 = ACTIVE" using suspicion_over_Some [of n now r msgs] assms(1) by auto
  ultimately show ?thesis using assms(3)
    by (simp add: suspicion_over_def receive_failure_notification_def Let_def split: option.split)
qed

theorem unanswered_notification_blocks_witness:
  "\<exists>n1 msgs. suspicion_over ((example_node (''b'', 2) 5)\<lparr>node_statuses := [((''a'', 1), Failed), ((''c'', 3), Healthy)]\<rparr>) 7 (Some (''a'', 1)) =
       (n1, Inr (Some msgs)) \<and> election_status (fst (failure_notified n1 [Raised])) = ACTIVE"
proof -
  let ?n = "(example_node (''b'', 2) 5)\<lparr>node_statuses := [((''a'', 1), Failed), ((''c'', 3), Healthy)]\<rparr>"
  obtain n1 msgs where 1: "suspicion_over ?n 7 (Some (''a'', 1)) = (n1, Inr (Some msgs))"
    by (simp add: suspicion_over_def example_node_def controller_init Let_def)
  then have a: "election_status n1 = ACTIVE" using suspicion_over_Some [of ?n 7 "Some (''a'', 1)" msgs] by auto
  obtain n2 out where 2: "failure_notified n1 [Raised] = (n2, out)" by fastforce
  from unanswered_notification_blocks [OF 1 _ a 2] 1 2 a show ?thesis by simp
qed

lemma make_entry_parts:
  assumes "make_entry n t leader key val = (n', Inr e)"
  shows "n' = n\<lparr>id_generator := fst (generate (id_generator n) t)\<rparr>" "entry_key e = key" "entry_data e = val"
    "entry_term e = term_number n" "snd (generate (id_generator n) t) = Some (entry_id e)"
  using assms by (auto simp: make_entry_def split: prod.splits option.splits)

lemma generated_timestamp:
  assumes "gen_ok g" "generate g t = (g', Some i)"
  shows "gen_ok g'" "sf_timestamp (snowflake_parse i 0) = t"
proof -
  have g: "gen_ok g'" "i = gen_id g'" "gen_ts g' = t" using generate_ok [OF assms] by auto
  then show "gen_ok g'" by simp
  obtain j where "gen_inf g' = push_bit 12 j" "id_fields_ok j (gen_seq g')" using g(1) by (auto simp: gen_ok_def)
  then show "sf_timestamp (snowflake_parse i 0) = t" using g by (simp add: gen_id_def id_value parse_id)
qed

lemma made_entries:
  assumes "make_entries n leader ds = (n', Inr es)" "gen_ok (id_generator n)" "\<forall>(k, v, c) \<in> set ds. c = t"
  shows "map entry_key es = map fst ds \<and> map entry_data es = map (fst \<circ> snd) ds \<and>
    (\<forall>e \<in> set es. entry_ts e = t \<and> entry_term e = term_number n) \<and>
    (\<exists>g. n' = n\<lparr>id_generator := g\<rparr>)"
  using assms
proof (induction n leader ds arbitrary: n' es rule: make_entries.induct)
  case (1 n leader)
  have "n = n\<lparr>id_generator := id_generator n\<rparr>" by simp
  then have "\<exists>g. n = n\<lparr>id_generator := g\<rparr>" by (rule exI)
  then show ?case using "1.prems"(1) by simp
next
  case (2 n leader key val current ds)
  obtain n1 e where 1: "make_entry n current leader key val = (n1, Inr e)"
    using "2.prems"(1) by (auto split: prod.splits sum.splits)
  obtain es' where es: "make_entries n1 leader ds = (n', Inr es')" "es = e # es'"
    using "2.prems"(1) 1 by (auto split: prod.splits sum.splits)
  note parts = make_entry_parts [OF 1]
  obtain g' where g': "generate (id_generator n) current = (g', Some (entry_id e))" using parts(5) by (cases "generate (id_generator n) current") auto
  have ts: "gen_ok (id_generator n1)" "entry_ts e = current"
    using generated_timestamp [OF "2.prems"(2) g'] parts(1) g' by (simp_all add: entry_ts_def)
  have "current = t" "\<forall>(k, v, c) \<in> set ds. c = t" using "2.prems"(3) by auto
  then show ?case using "2.IH" [OF 1 [symmetric] refl es(1) ts(1)] parts ts(2) es(2) by auto
qed

text \<open>A leader that pushes entries loses them when all of them get their ids in one millisecond, as the entry
  about the update that is added at the end does too: after the push only that one has been
  added to the log.\<close>

theorem pushed_entries_lost:
  assumes "role n = LEADER" "gen_ok (id_generator n)" "lq_ok (node_logs n)" "lq_logs (node_logs n) \<noteq> []"
    "last_timestamp (node_logs n) < t" "lq_term (node_logs n) \<le> term_number n"
    "\<forall>(k, v, c) \<in> set ds. c = t"
    "convert_data_to_entries n (ds @ [(''logs_update'', update_text n, t)]) = (n1, Inr es)" "push_entries n ds t = (n', r)"
  shows "\<exists>e. lq_logs (node_logs n') = lq_logs (node_logs n) @ [e] \<and> entry_key e = ''logs_update'' \<and> entry_data e = update_text n"
proof -
  let ?ds = "ds @ [(''logs_update'', update_text n, t)]"
  have r: "role n1 = LEADER \<longrightarrow> start_submit n1 es = (n', r)"
    using assms(8,9) by (auto simp: push_entries_def)
  obtain leader where "make_entries n leader ?ds = (n1, Inr es)" using assms(8)
    by (auto simp: convert_data_to_entries_def split: if_splits option.splits list.splits)
  from made_entries [OF this assms(2), of t] assms(7)
  have es: "map entry_key es = map fst ?ds" "map entry_data es = map (fst \<circ> snd) ?ds"
    "\<forall>e \<in> set es. entry_ts e = t \<and> entry_term e = term_number n" and n1: "\<exists>g. n1 = n\<lparr>id_generator := g\<rparr>" by auto
  have ne: "es \<noteq> []" using es(1) by auto
  have q: "node_logs n1 = node_logs n" "role n1 = LEADER" using n1 assms(1) by auto
  have "last (map entry_key es) = ''logs_update''" "last (map entry_data es) = update_text n" unfolding es(1,2) by simp_all
  then have l: "entry_key (last es) = ''logs_update''" "entry_data (last es) = update_text n" using ne by (simp_all add: last_map)
  have "lq_term (node_logs n) \<le> entry_term (last es)" using es(3) ne assms(6) by simp
  then obtain q' where "log_update (node_logs n) es = (q', Updated)" "lq_logs q' = lq_logs (node_logs n) @ [last es]"
    using same_millisecond_batch [OF assms(3,4) ne, of t] es(3) assms(5) by auto
  then show ?thesis using r q l by (auto simp: start_submit_def Let_def split: sum.splits)
qed

theorem pushed_entries_lost_witness:
  "\<exists>e. lq_logs (node_logs (fst (push_entries ((example_node (''b'', 2) 5)\<lparr>term_number := 1, role := LEADER, term_leaders := [Some (''b'', 2)],
      node_logs := example_log\<rparr>) [(''k'', ''v'', 2000)] 2000))) = lq_logs example_log @ [e] \<and> entry_key e = ''logs_update''"
proof -
  let ?n = "(example_node (''b'', 2) 5)\<lparr>term_number := 1, role := LEADER, term_leaders := [Some (''b'', 2)], node_logs := example_log\<rparr>"
  have g: "id_generator ?n = SnowflakeGenerator_init 5 0 None 1000" "term_number ?n = 1"
    by (simp_all add: example_node_def controller_init)
  then have ok: "gen_ok (id_generator ?n)" unfolding gen_ok_def by (intro exI [of _ 5]) (simp add: SnowflakeGenerator_init_def id_fields_ok_def)
  have "\<exists>n1 es. convert_data_to_entries ?n ([(''k'', ''v'', 2000)] @ [(''logs_update'', update_text ?n, 2000)]) = (n1, Inr es)"
    by (simp add: convert_data_to_entries_def make_entry_def generate_def g SnowflakeGenerator_init_def MAX_SEQ_def Let_def)
  then obtain n1 es where c: "convert_data_to_entries ?n ([(''k'', ''v'', 2000)] @ [(''logs_update'', update_text ?n, 2000)]) = (n1, Inr es)" by blast
  obtain n' r where p: "push_entries ?n [(''k'', ''v'', 2000)] 2000 = (n', r)" by fastforce
  show ?thesis using pushed_entries_lost [OF _ ok _ _ _ _ _ c p] p example_log_ok
    by (auto simp: last_timestamp_def g)
qed

end
