(* ===== verification/Rate_Limiters.thy ===== *)
theory Rate_Limiters
  imports Complex_Main
begin

text \<open>
  The rate limiters of \<open>distributed/rate_limiting/limiters\<close>: the base class with \<open>acquire\<close> and the
  leaky bucket, token bucket and sliding window that implement \<open>has_capacity\<close>. Floating point
  numbers are reals, a call of \<open>has_capacity\<close> reads the clock once, and the readings of the
  calls inside one \<open>acquire\<close> are a list. Waking up another waiting task only makes that task
  call \<open>has_capacity\<close> again and is left out. The locale states what makes a bucket a rate
  limit.
\<close>

section \<open>The base class\<close>

record base_limiter =
  max_rate :: real
  time_period :: real
  rate_per_sec :: real
  level :: real
  reject_requests :: bool

datatype acquire_result = Acquired bool | Rejected | StillWaiting | AcquireValueError

text \<open>
  \<open>while not self.has_capacity(amount)\<close>: \<open>take\<close> is the change of the level, \<open>rejected\<close> the local
  of that name. Without a further clock reading the task is still waiting.
\<close>

fun acquire_loop :: "('s \<Rightarrow> real \<Rightarrow> real \<Rightarrow> 's \<times> bool) \<Rightarrow> ('s \<Rightarrow> real \<Rightarrow> 's) \<Rightarrow> bool \<Rightarrow> real \<Rightarrow> bool \<Rightarrow> 's \<Rightarrow> real list \<Rightarrow>
    's \<times> acquire_result" where
  "acquire_loop has_capacity take_level reject amount rejected s [] = (s, StillWaiting)"
| "acquire_loop has_capacity take_level reject amount rejected s (t # ts) =
     (case has_capacity s t amount of
        (s, True) \<Rightarrow> (take_level s amount, Acquired rejected)
      | (s, False) \<Rightarrow> acquire_loop has_capacity take_level reject amount (rejected \<or> reject) s ts)"

definition acquire :: "('s \<Rightarrow> real \<Rightarrow> real \<Rightarrow> 's \<times> bool) \<Rightarrow> ('s \<Rightarrow> real \<Rightarrow> 's) \<Rightarrow> real \<Rightarrow> bool \<Rightarrow> real \<Rightarrow> 's \<Rightarrow> real list \<Rightarrow>
    's \<times> acquire_result" where
  "acquire has_capacity take_level limit reject amount s ts =
     (if amount > limit then (s, AcquireValueError)
      else
        (case ts of
           [] \<Rightarrow> (s, StillWaiting)
         | t # ts \<Rightarrow>
             (case has_capacity s t amount of
                (s, b) \<Rightarrow>
                  if \<not> b \<and> reject then (s, Rejected)
                  else acquire_loop has_capacity take_level reject amount False s ts)))"

section \<open>The limiters\<close>

record bucket = base_limiter + last_check :: real

definition LeakyBucket_init :: "real \<Rightarrow> real \<Rightarrow> bool \<Rightarrow> bucket" where
  "LeakyBucket_init limit period reject =
     \<lparr>max_rate = limit, time_period = period, rate_per_sec = limit / period, level = 0, reject_requests = reject,
      last_check = 0\<rparr>"

definition leak :: "bucket \<Rightarrow> real \<Rightarrow> bucket" where
  "leak b now =
     (let b = (if level b \<noteq> 0 then b\<lparr>level := max (level b - (now - last_check b) * rate_per_sec b) 0\<rparr> else b)
      in b\<lparr>last_check := now\<rparr>)"

definition leaky_has_capacity :: "bucket \<Rightarrow> real \<Rightarrow> real \<Rightarrow> bucket \<times> bool" where
  "leaky_has_capacity b now amount = (let b = leak b now in (b, level b + amount \<le> max_rate b))"

definition fill_level :: "bucket \<Rightarrow> real \<Rightarrow> bucket" where
  "fill_level b amount = b\<lparr>level := level b + amount\<rparr>"

definition TokenBucket_init :: "real \<Rightarrow> real \<Rightarrow> bool \<Rightarrow> real \<Rightarrow> bucket" where
  "TokenBucket_init limit period reject now =
     \<lparr>max_rate = limit, time_period = period, rate_per_sec = limit / period, level = limit, reject_requests = reject,
      last_check = now\<rparr>"

definition token_has_capacity :: "bucket \<Rightarrow> real \<Rightarrow> real \<Rightarrow> bucket \<times> bool" where
  "token_has_capacity b now amount =
     (let b = (if level b < max_rate b
               then b\<lparr>level := min (max_rate b) (level b + rate_per_sec b * (now - last_check b)), last_check := now\<rparr>
               else b)
      in (b, amount < level b))"

definition drain_level :: "bucket \<Rightarrow> real \<Rightarrow> bucket" where
  "drain_level b amount = b\<lparr>level := level b - amount\<rparr>"

record sliding = base_limiter +
  window_start :: real
  previous_count :: real

definition SlidingWindow_init :: "real \<Rightarrow> real \<Rightarrow> bool \<Rightarrow> real \<Rightarrow> sliding" where
  "SlidingWindow_init limit period reject now =
     \<lparr>max_rate = limit, time_period = period, rate_per_sec = limit / period, level = 0, reject_requests = reject,
      window_start = now, previous_count = limit\<rparr>"

definition sliding_has_capacity :: "sliding \<Rightarrow> real \<Rightarrow> real \<Rightarrow> sliding \<times> bool" where
  "sliding_has_capacity w now amount =
     (let w = (if now - window_start w > time_period w
               then w\<lparr>window_start := of_int \<lfloor>now / time_period w\<rfloor> * time_period w, previous_count := level w, level := 0\<rparr>
               else w);
          r = previous_count w * (time_period w - (now - window_start w)) / time_period w + (level w + amount)
      in (w\<lparr>rate_per_sec := r\<rparr>, r \<le> max_rate w))"

definition sliding_fill :: "sliding \<Rightarrow> real \<Rightarrow> sliding" where
  "sliding_fill w amount = w\<lparr>level := level w + amount\<rparr>"

lemma sorted_le_last: "sorted xs \<Longrightarrow> v \<in> set xs \<Longrightarrow> v \<le> last (xs :: real list)"
  by (induction xs) auto

section \<open>The contract of a bucket\<close>

text \<open>
  A bucket at any time owes its users between nothing and \<open>limit\<close> (\<open>debt\<close>), pays back at most
  \<open>rate\<close> per second of the time its \<open>mark\<close> advances, and adds what is taken.
\<close>

locale rate_bucket =
  fixes good :: "'s \<Rightarrow> bool" and debt :: "'s \<Rightarrow> real" and mark :: "'s \<Rightarrow> real"
    and check :: "'s \<Rightarrow> real \<Rightarrow> real \<Rightarrow> 's \<times> bool" and take_amount :: "'s \<Rightarrow> real \<Rightarrow> 's"
    and limit :: "'s \<Rightarrow> real" and rate :: "'s \<Rightarrow> real"
  assumes rate_nonneg: "good s \<Longrightarrow> 0 \<le> rate s"
    and good_debt: "good s \<Longrightarrow> 0 \<le> debt s \<and> debt s \<le> limit s"
    and check_good: "good s \<Longrightarrow> mark s \<le> t \<Longrightarrow> check s t a = (s', b) \<Longrightarrow> good s' \<and> mark s \<le> mark s' \<and> mark s' \<le> t"
    and check_keeps: "good s \<Longrightarrow> mark s \<le> t \<Longrightarrow> check s t a = (s', b) \<Longrightarrow> limit s' = limit s \<and> rate s' = rate s"
    and check_pays: "good s \<Longrightarrow> mark s \<le> t \<Longrightarrow> check s t a = (s', b) \<Longrightarrow> debt s - rate s * (mark s' - mark s) \<le> debt s'"
    and check_take: "good s \<Longrightarrow> mark s \<le> t \<Longrightarrow> 0 \<le> a \<Longrightarrow> check s t a = (s', True) \<Longrightarrow>
      good (take_amount s' a) \<and> debt (take_amount s' a) = debt s' + a \<and> mark (take_amount s' a) = mark s'"
    and take_keeps: "limit (take_amount s a) = limit s \<and> rate (take_amount s a) = rate s"
begin

definition taken :: "real \<Rightarrow> acquire_result \<Rightarrow> real" where
  "taken a r = (case r of Acquired _ \<Rightarrow> a | _ \<Rightarrow> 0)"

text \<open>What one operation may do to the state at time \<open>t\<close> when it takes \<open>x\<close>.\<close>

definition step_ok :: "'s \<Rightarrow> 's \<Rightarrow> real \<Rightarrow> real \<Rightarrow> bool" where
  "step_ok s s' t x \<longleftrightarrow> good s' \<and> mark s \<le> mark s' \<and> mark s' \<le> t \<and> limit s' = limit s \<and> rate s' = rate s \<and>
     debt s + x - rate s * (mark s' - mark s) \<le> debt s'"

lemma step_ok_trans: "step_ok s s1 t1 x \<Longrightarrow> step_ok s1 s2 t2 y \<Longrightarrow> step_ok s s2 t2 (x + y)"
  by (auto simp: step_ok_def algebra_simps)

lemma check_step:
  assumes "good s" "mark s \<le> t" "0 \<le> a" "check s t a = (s', b)"
  shows "step_ok s s' t 0" "b \<Longrightarrow> step_ok s (take_amount s' a) t a"
  using check_good [OF assms(1,2,4)] check_keeps [OF assms(1,2,4)] check_pays [OF assms(1,2,4)]
    check_take [OF assms(1,2,3)] take_keeps assms(4)
  by (auto simp: step_ok_def)

lemma loop_step:
  assumes "good s" "sorted (mark s # ts)" "0 \<le> a" "\<forall>u \<in> set ts. u \<le> t" "mark s \<le> t"
    "acquire_loop check take_amount reject a rejected s ts = (s', r)"
  shows "step_ok s s' t (taken a r)"
  using assms
proof (induction ts arbitrary: s rejected)
  case Nil
  then show ?case by (auto simp: step_ok_def taken_def)
next
  case (Cons u ts)
  obtain s1 b where c: "check s u a = (s1, b)" by fastforce
  have u: "mark s \<le> u" "u \<le> t" using Cons.prems(2,4) by auto
  note st = check_step [OF Cons.prems(1) u(1) Cons.prems(3) c]
  show ?case
  proof (cases b)
    case True
    with st(2) c Cons.prems(6) u show ?thesis by (auto simp: step_ok_def taken_def)
  next
    case False
    have m: "good s1" "mark s1 \<le> u" using st(1) by (auto simp: step_ok_def)
    have "step_ok s1 s' t (taken a r)"
      by (rule Cons.IH [of s1 "rejected \<or> reject"]) (use m u Cons.prems c False in auto)
    with step_ok_trans [OF st(1)] show ?thesis by simp
  qed
qed

lemma acquire_step:
  assumes "good s" "sorted (mark s # ts)" "0 \<le> a" "\<forall>u \<in> set ts. u \<le> t" "mark s \<le> t"
    "acquire check take_amount limit' reject a s ts = (s', r)"
  shows "step_ok s s' t (taken a r)"
proof (cases "a > limit' \<or> ts = []")
  case True
  then have "s' = s" "taken a r = 0" using assms(6) by (auto simp: acquire_def taken_def split: if_splits)
  with assms(1,5) show ?thesis by (simp add: step_ok_def)
next
  case False
  then obtain u us where ts: "ts = u # us" by (cases ts) auto
  obtain s1 b where c: "check s u a = (s1, b)" by fastforce
  have u: "mark s \<le> u" "u \<le> t" using assms(2,4) ts by auto
  note st = check_step(1) [OF assms(1) u(1) assms(3) c]
  have m: "good s1" "mark s1 \<le> u" using st by (auto simp: step_ok_def)
  show ?thesis
  proof (cases "\<not> b \<and> reject")
    case True
    with assms(6) False ts c st u show ?thesis by (auto simp: acquire_def taken_def step_ok_def)
  next
    case no: False
    have "step_ok s1 s' t (taken a r)"
      by (rule loop_step [of s1 us a t reject False]) (use m u assms ts c False no in \<open>auto simp: acquire_def\<close>)
    with step_ok_trans [OF st] show ?thesis by simp
  qed
qed

fun acquires :: "real \<Rightarrow> bool \<Rightarrow> 's \<Rightarrow> (real \<times> real list) list \<Rightarrow> real" where
  "acquires limit' reject s [] = 0"
| "acquires limit' reject s ((a, ts) # reqs) =
     (case acquire check take_amount limit' reject a s ts of (s', r) \<Rightarrow> taken a r + acquires limit' reject s' reqs)"

lemma acquires_bound:
  assumes "good s" "sorted (mark s # concat (map snd reqs))" "\<forall>(a, ts) \<in> set reqs. 0 \<le> a"
    "\<forall>u \<in> set (concat (map snd reqs)). u \<le> t" "mark s \<le> t"
  shows "acquires limit' reject s reqs \<le> limit s - debt s + rate s * (t - mark s)"
  using assms
proof (induction reqs arbitrary: s)
  case Nil
  then show ?case using good_debt [of s] rate_nonneg [of s] by simp
next
  case (Cons q reqs)
  obtain a ts where q: "q = (a, ts)" by (cases q)
  obtain s1 r where c: "acquire check take_amount limit' reject a s ts = (s1, r)" by fastforce
  define u where "u = (if ts = [] then mark s else last ts)"
  have p: "sorted (mark s # ts)" "\<forall>v \<in> set ts. v \<le> t" using Cons.prems(2,4) q by (auto simp: sorted_append)
  have so: "\<forall>v \<in> set ts. v \<le> u" "mark s \<le> u" "u \<le> t"
    using p Cons.prems(5) sorted_le_last [of ts] by (cases "ts = []", simp_all add: u_def)
  have st: "step_ok s s1 u (taken a r)"
    by (rule acquire_step [OF Cons.prems(1) p(1) _ so(1,2) c]) (use Cons.prems(3) q in auto)
  have "\<forall>v \<in> set (concat (map snd reqs)). u \<le> v"
    using Cons.prems(2) q by (auto simp: u_def sorted_append)
  then have "\<forall>v \<in> set (concat (map snd reqs)). mark s1 \<le> v" using st unfolding step_ok_def by fastforce
  moreover have "sorted (concat (map snd reqs))" using Cons.prems(2) q by (simp add: sorted_append)
  ultimately have "sorted (mark s1 # concat (map snd reqs))" by simp
  from Cons.IH [OF _ this] st so Cons.prems q have "acquires limit' reject s1 reqs \<le> limit s1 - debt s1 + rate s1 * (t - mark s1)"
    by (auto simp: step_ok_def)
  with st c q show ?case by (auto simp: step_ok_def algebra_simps)
qed

end

section \<open>The buckets keep the contract\<close>

definition bucket_good :: "bucket \<Rightarrow> bool" where
  "bucket_good b \<longleftrightarrow> 0 \<le> rate_per_sec b \<and> 0 \<le> level b \<and> level b \<le> max_rate b"

lemma bucket_pays: "bucket_good b \<Longrightarrow> last_check b \<le> t \<Longrightarrow> 0 \<le> rate_per_sec b * (t - last_check b)"
  by (simp add: bucket_good_def)

lemma leak_simps:
  "level (leak b t) = (if level b = 0 then 0 else max (level b - rate_per_sec b * (t - last_check b)) 0)"
  "last_check (leak b t) = t" "max_rate (leak b t) = max_rate b" "rate_per_sec (leak b t) = rate_per_sec b"
  by (simp_all add: leak_def Let_def mult.commute)

interpretation leaky: rate_bucket bucket_good level last_check leaky_has_capacity fill_level max_rate rate_per_sec
proof
  fix b b' :: bucket and t a :: real and c
  show "max_rate (fill_level b a) = max_rate b \<and> rate_per_sec (fill_level b a) = rate_per_sec b" by (simp add: fill_level_def)
  assume g: "bucket_good b"
  then show "0 \<le> rate_per_sec b" "0 \<le> level b \<and> level b \<le> max_rate b" by (simp_all add: bucket_good_def)
  assume t: "last_check b \<le> t"
  note p = bucket_pays [OF g t]
  { assume "leaky_has_capacity b t a = (b', c)"
    then have b': "b' = leak b t" by (simp add: leaky_has_capacity_def Let_def)
    have "level b - rate_per_sec b * (t - last_check b) \<le> max_rate b" using p g unfolding bucket_good_def by linarith
    with b' show "bucket_good b' \<and> last_check b \<le> last_check b' \<and> last_check b' \<le> t"
      "max_rate b' = max_rate b \<and> rate_per_sec b' = rate_per_sec b"
      "level b - rate_per_sec b * (last_check b' - last_check b) \<le> level b'"
      using g p t by (auto simp: bucket_good_def leak_simps) }
  assume a: "0 \<le> a" "leaky_has_capacity b t a = (b', True)"
  then have "b' = leak b t" "level b' + a \<le> max_rate b'" by (auto simp: leaky_has_capacity_def Let_def)
  then show "bucket_good (fill_level b' a) \<and> level (fill_level b' a) = level b' + a \<and>
      last_check (fill_level b' a) = last_check b'"
    using g a(1) by (auto simp: fill_level_def bucket_good_def leak_simps)
qed

interpretation token: rate_bucket bucket_good "\<lambda>b. max_rate b - level b" last_check token_has_capacity drain_level max_rate rate_per_sec
proof
  fix b b' :: bucket and t a :: real and c
  show "max_rate (drain_level b a) = max_rate b \<and> rate_per_sec (drain_level b a) = rate_per_sec b" by (simp add: drain_level_def)
  assume g: "bucket_good b"
  then show "0 \<le> rate_per_sec b" "0 \<le> max_rate b - level b \<and> max_rate b - level b \<le> max_rate b" by (simp_all add: bucket_good_def)
  assume t: "last_check b \<le> t"
  note p = bucket_pays [OF g t]
  show "bucket_good b' \<and> last_check b \<le> last_check b' \<and> last_check b' \<le> t"
    "max_rate b' = max_rate b \<and> rate_per_sec b' = rate_per_sec b"
    "max_rate b - level b - rate_per_sec b * (last_check b' - last_check b) \<le> max_rate b' - level b'"
    if "token_has_capacity b t a = (b', c)"
    using that g p t by (auto simp: token_has_capacity_def bucket_good_def Let_def split: if_splits)
  assume a: "0 \<le> a" "token_has_capacity b t a = (b', True)"
  have "a < level b'" "bucket_good b'"
    using a(2) g p t by (auto simp: token_has_capacity_def bucket_good_def Let_def split: if_splits)
  then show "bucket_good (drain_level b' a) \<and> max_rate (drain_level b' a) - level (drain_level b' a) = max_rate b' - level b' + a \<and>
      last_check (drain_level b' a) = last_check b'"
    using a(1) by (simp add: drain_level_def bucket_good_def)
qed

section \<open>Properties\<close>

text \<open>The amount a sequence of calls of \<open>acquire\<close> obtains; each call has its amount and its clock readings.\<close>

fun granted :: "('s \<Rightarrow> real \<Rightarrow> real \<Rightarrow> 's \<times> bool) \<Rightarrow> ('s \<Rightarrow> real \<Rightarrow> 's) \<Rightarrow> real \<Rightarrow> bool \<Rightarrow> 's \<Rightarrow> (real \<times> real list) list \<Rightarrow> real" where
  "granted has_capacity take_level limit reject s [] = 0"
| "granted has_capacity take_level limit reject s ((a, ts) # reqs) =
     (case acquire has_capacity take_level limit reject a s ts of
        (s', r) \<Rightarrow> (case r of Acquired _ \<Rightarrow> a | _ \<Rightarrow> 0) + granted has_capacity take_level limit reject s' reqs)"

lemma granted_leaky: "granted leaky_has_capacity fill_level limit reject s reqs = leaky.acquires limit reject s reqs"
  by (induction reqs arbitrary: s) (auto simp: leaky.taken_def split: prod.split acquire_result.split)

lemma granted_token: "granted token_has_capacity drain_level limit reject s reqs = token.acquires limit reject s reqs"
  by (induction reqs arbitrary: s) (auto simp: token.taken_def split: prod.split acquire_result.split)

text \<open>An empty leaky bucket does not use the time of its last check.\<close>

lemma leaky_empty: "level b = 0 \<Longrightarrow> leaky_has_capacity (b\<lparr>last_check := x\<rparr>) t a = leaky_has_capacity b t a"
  by (simp add: leaky_has_capacity_def leak_def Let_def)

lemma granted_leaky_empty:
  "level b = 0 \<Longrightarrow> granted leaky_has_capacity fill_level limit reject (b\<lparr>last_check := x\<rparr>) reqs =
     granted leaky_has_capacity fill_level limit reject b reqs"
proof (induction reqs)
  case (Cons q reqs)
  obtain a ts where q: "q = (a, ts)" by (cases q)
  show ?case
  proof (cases "a > limit \<or> ts = []")
    case True
    with Cons q show ?thesis by (auto simp: acquire_def)
  next
    case False
    then have "acquire leaky_has_capacity fill_level limit reject a (b\<lparr>last_check := x\<rparr>) ts =
        acquire leaky_has_capacity fill_level limit reject a b ts"
      using leaky_empty [OF Cons.prems] by (cases ts) (simp_all add: acquire_def)
    then show ?thesis using q by simp
  qed
qed simp

text \<open>C26: the buckets limit the rate: in the time from the creation of a leaky or a token bucket to any later
  moment, however the requests come and whether they are rejected or wait, the amount
  granted is at most the capacity plus the rate times that duration.\<close>

theorem buckets_limit_rate:
  assumes "0 < limit" "0 < period" "sorted (now # concat (map snd reqs))" "\<forall>(a, ts) \<in> set reqs. 0 \<le> a"
    "\<forall>u \<in> set (concat (map snd reqs)). u \<le> t" "now \<le> t"
  shows "granted leaky_has_capacity fill_level limit reject (LeakyBucket_init limit period reject) reqs
      \<le> limit + limit / period * (t - now) \<and>
    granted token_has_capacity drain_level limit reject (TokenBucket_init limit period reject now) reqs
      \<le> limit + limit / period * (t - now)"
proof -
  have g: "bucket_good ((LeakyBucket_init limit period reject)\<lparr>last_check := now\<rparr>)" "bucket_good (TokenBucket_init limit period reject now)"
    using assms(1,2) by (simp_all add: bucket_good_def LeakyBucket_init_def TokenBucket_init_def)
  show ?thesis
    using granted_leaky_empty [of "LeakyBucket_init limit period reject" limit reject now reqs]
    unfolding granted_leaky granted_token
    using leaky.acquires_bound [OF g(1), of reqs t limit reject] token.acquires_bound [OF g(2), of reqs t limit reject] assms
    by (simp add: LeakyBucket_init_def TokenBucket_init_def)
qed

theorem buckets_limit_rate_witness:
  "granted leaky_has_capacity fill_level 2 True (LeakyBucket_init 2 1 True) [(1, [0, 0]), (1, [0, 0]), (1, [0, 0])] \<le> 2"
  using buckets_limit_rate [of 2 1 0 "[(1, [0, 0]), (1, [0, 0]), (1, [0, 0])]" 0 True] by simp

text \<open>A token bucket for one request per period never grants a request, because the capacity has to be
  strictly larger than the amount.\<close>

theorem token_bucket_of_one:
  assumes "level b \<le> 1" "max_rate b = 1"
  shows "snd (acquire token_has_capacity drain_level 1 True 1 b ts) \<in> {Rejected, StillWaiting}"
proof -
  have "\<not> snd (token_has_capacity b t 1)" for t
    using assms by (auto simp: token_has_capacity_def Let_def)
  then show ?thesis by (auto simp: acquire_def split: list.split prod.split) (metis snd_conv)
qed

theorem token_bucket_of_one_witness:
  "snd (acquire token_has_capacity drain_level 1 True 1 (TokenBucket_init 1 60 True 0) [100, 100]) \<in> {Rejected, StillWaiting}"
  by (rule token_bucket_of_one) (simp_all add: TokenBucket_init_def)

text \<open>A new sliding window counts a full previous window that never was: while it is in its first period,
  a request is granted only up to the share of the period that has passed; at the start
  every request is rejected.\<close>

theorem sliding_window_starts_full:
  assumes "0 < limit" "0 < period" "now \<le> t" "t \<le> now + period" "w = SlidingWindow_init limit period reject now"
  shows "snd (sliding_has_capacity (w\<lparr>level := n\<rparr>) t amount) \<longleftrightarrow> n + amount \<le> limit * (t - now) / period"
proof -
  have "limit * (period - (t - now)) / period = limit - limit * (t - now) / period"
    using assms(2) by (simp add: field_simps)
  then show ?thesis using assms(3-5) by (auto simp: sliding_has_capacity_def SlidingWindow_init_def Let_def)
qed

theorem sliding_window_starts_full_witness:
  "\<not> snd (sliding_has_capacity (SlidingWindow_init 100 60 True 5) 5 1)"
  using sliding_window_starts_full [of 100 60 5 5 "SlidingWindow_init 100 60 True 5" True 0 1]
  by (simp add: SlidingWindow_init_def)

end
