(* ===== verification/Ip_Text.thy ===== *)
theory Ip_Text
  imports Dns_Names
begin

text \<open>
  Internet addresses as text: the functions \<open>inet_ntoa\<close>, \<open>inet_aton\<close>, \<open>inet_ntop\<close> and \<open>inet_pton\<close> (for
  \<open>AF_INET6\<close>) of Python's \<open>socket\<close> module, which hand their argument to the C library. Text is
  ASCII bytes. An \<open>OSError\<close> is \<open>GenericException ''OSError''\<close>; a zero byte in the text is a
  \<open>ValueError\<close>.
\<close>

definition os_error :: py_error where "os_error = GenericException ''OSError''"

section \<open>Numbers\<close>

definition digit_val :: "byte \<Rightarrow> nat option" where
  "digit_val b =
     (let n = unat b
      in if 48 \<le> n \<and> n \<le> 57 then Some (n - 48)
         else if 97 \<le> n \<and> n \<le> 102 then Some (n - 87)
         else if 65 \<le> n \<and> n \<le> 70 then Some (n - 55)
         else None)"

definition is_decimal :: "byte \<Rightarrow> bool" where
  "is_decimal b \<longleftrightarrow> 48 \<le> unat b \<and> unat b \<le> 57"

fun scan_number :: "nat \<Rightarrow> nat \<Rightarrow> bytes \<Rightarrow> nat \<times> bytes" where
  "scan_number base acc [] = (acc, [])"
| "scan_number base acc (b # bs) =
     (case digit_val b of
        Some d \<Rightarrow> if d < base then scan_number base (acc * base + d) bs else (acc, b # bs)
      | None \<Rightarrow> (acc, b # bs))"

text \<open>\<open>strtoul\<close> with base 0.\<close>

definition scan_c_number :: "bytes \<Rightarrow> nat \<times> bytes" where
  "scan_c_number bs =
     (case bs of
        z # x # d # rest \<Rightarrow>
          if z = 48 \<and> (x = 120 \<or> x = 88) \<and> digit_val d \<noteq> None then scan_number 16 0 (d # rest)
          else if z = 48 then scan_number 8 0 (x # d # rest)
          else scan_number 10 0 bs
      | z # rest \<Rightarrow> if z = 48 then scan_number 8 0 rest else scan_number 10 0 bs
      | [] \<Rightarrow> (0, []))"

fun print_base :: "nat \<Rightarrow> nat \<Rightarrow> nat \<Rightarrow> bytes" where
  "print_base 0 base n = []"
| "print_base (Suc k) base n =
     (if n < base then [] else print_base k base (n div base)) @
     [word_of_nat (if n mod base < 10 then 48 + n mod base else 87 + n mod base)]"

section \<open>IPv4\<close>

definition inet_ntoa :: "bytes \<Rightarrow> bytes res" where
  "inet_ntoa bs = (if length bs = 4 then Inr (join_dot (map (\<lambda>b. print_base 3 10 (unat b)) bs)) else Inl os_error)"

fun aton_parts :: "nat \<Rightarrow> bytes \<Rightarrow> (nat list \<times> bytes) option" where
  "aton_parts 0 bs = None"
| "aton_parts (Suc k) bs =
     (if bs \<noteq> [] \<and> is_decimal (hd bs)
      then (case scan_c_number bs of
              (v, rest) \<Rightarrow>
                if v > 0xffffffff then None
                else if rest \<noteq> [] \<and> hd rest = 46
                then (if v > 0xff then None else map_option (apfst ((#) v)) (aton_parts k (tl rest)))
                else Some ([v], rest))
      else None)"

definition inet_aton :: "bytes \<Rightarrow> bytes res" where
  "inet_aton t =
     (if 0 \<in> set t then Inl ValueError
      else
        (case aton_parts 4 t of
           None \<Rightarrow> Inl os_error
         | Some (vs, rest) \<Rightarrow>
             (let w = 5 - length vs
              in if (rest = [] \<or> unat (hd rest) \<in> {9, 10, 11, 12, 13, 32}) \<and> last vs < 256 ^ w
                 then Inr (map word_of_nat (butlast vs) @ be_bytes w (last vs))
                 else Inl os_error)))"

section \<open>IPv6\<close>

fun groups :: "bytes \<Rightarrow> nat list" where
  "groups (a # b # bs) = (unat a * 256 + unat b) # groups bs"
| "groups _ = []"

definition zero_run :: "nat list \<Rightarrow> nat \<Rightarrow> nat" where
  "zero_run ws i = length (takeWhile (\<lambda>w. w = 0) (drop i ws))"

definition best_run :: "nat list \<Rightarrow> nat \<times> nat" where
  "best_run ws = foldl (\<lambda>(i, n) j. if zero_run ws j > n then (j, zero_run ws j) else (i, n)) (0, 0) [0..<8]"

fun print_groups :: "nat list \<Rightarrow> bytes \<Rightarrow> nat \<times> nat \<Rightarrow> nat list \<Rightarrow> bytes res" where
  "print_groups ws bs run [] = Inr (if fst run + snd run = 8 \<and> snd run \<noteq> 0 then [58] else [])"
| "print_groups ws bs (base, n) (i # is) =
     (if base \<le> i \<and> i < base + n
      then rbind (print_groups ws bs (base, n) is) (\<lambda>r. Inr ((if i = base then [58] else []) @ r))
      else if i = 6 \<and> base = 0 \<and> (n = 6 \<or> n = 5 \<and> ws ! 5 = 0xffff)
      then rbind (inet_ntoa (drop 12 bs)) (\<lambda>r. Inr (58 # r))
      else rbind (print_groups ws bs (base, n) is) (\<lambda>r. Inr ((if i \<noteq> 0 then [58] else []) @ print_base 4 16 (ws ! i) @ r)))"

definition inet_ntop6 :: "bytes \<Rightarrow> bytes res" where
  "inet_ntop6 bs =
     (if length bs = 16
      then (let ws = groups bs; run = best_run ws
            in print_groups ws bs (if snd run < 2 then (8, 0) else run) [0..<8])
      else Inl ValueError)"

text \<open>Strict dotted decimal, the tail of some IPv6 addresses.\<close>

definition octet_of :: "bytes \<Rightarrow> nat option" where
  "octet_of p =
     (if p \<noteq> [] \<and> length p \<le> 3 \<and> list_all is_decimal p \<and> (length p > 1 \<longrightarrow> hd p \<noteq> 48) \<and> fst (scan_number 10 0 p) < 256
      then Some (fst (scan_number 10 0 p)) else None)"

definition pton4 :: "bytes \<Rightarrow> bytes option" where
  "pton4 t =
     (let ps = map octet_of (split_dot t)
      in if length ps = 4 \<and> None \<notin> set ps then Some (map (word_of_nat \<circ> the) ps) else None)"

fun pton6_loop :: "bytes \<Rightarrow> bytes \<Rightarrow> nat \<Rightarrow> nat \<Rightarrow> bytes \<Rightarrow> nat option \<Rightarrow> (bytes \<times> nat option) option" where
  "pton6_loop [] tok v digits out colon =
     (if digits > 0 then (if length out + 2 \<le> 16 then Some (out @ be_bytes 2 v, colon) else None)
      else Some (out, colon))"
| "pton6_loop (c # cs) tok v digits out colon =
     (case digit_val c of
        Some d \<Rightarrow> if digits = 4 then None else pton6_loop cs tok (v * 16 + d) (digits + 1) out colon
      | None \<Rightarrow>
          if c = 58
          then (if digits = 0
                then (if colon \<noteq> None then None else pton6_loop cs cs 0 0 out (Some (length out)))
                else if cs = [] \<or> length out + 2 > 16 then None
                else pton6_loop cs cs 0 0 (out @ be_bytes 2 v) colon)
          else if c = 46 \<and> length out + 4 \<le> 16 then map_option (\<lambda>a. (out @ a, colon)) (pton4 tok)
          else None)"

definition inet_pton6 :: "bytes \<Rightarrow> bytes res" where
  "inet_pton6 t =
     (if 0 \<in> set t then Inl ValueError
      else if t = [] \<or> hd t = 58 \<and> (length t < 2 \<or> t ! 1 \<noteq> 58) then Inl os_error
      else
        (let src = (if hd t = 58 then tl t else t)
         in case pton6_loop src src 0 0 [] None of
              None \<Rightarrow> Inl os_error
            | Some (out, None) \<Rightarrow> if length out = 16 then Inr out else Inl os_error
            | Some (out, Some c) \<Rightarrow>
                if length out = 16 then Inl os_error
                else Inr (take c out @ replicate (16 - length out) 0 @ drop c out)))"

end
