(* ===== verification/Dns_Records.thy ===== *)
theory Dns_Records
  imports Ip_Text
begin

text \<open>
  DNS resource records (\<open>discovery/dns/core/record\<close>): the types, the data of each type with its
  \<open>load\<close> and \<open>dump\<close>, and \<open>Record\<close> with \<open>parse\<close> and \<open>pack\<close>. Names and addresses are text as in
  \<open>Dns_Names\<close> and \<open>Ip_Text\<close>; the clock \<open>int(time.time())\<close> is an argument.
\<close>

section \<open>Types\<close>

datatype record_type =
  T_NONE | T_A | T_NS | T_CNAME | T_SOA | T_PTR | T_MX | T_TXT | T_AAAA | T_SRV | T_NAPTR | T_ANY

fun record_type_value :: "record_type \<Rightarrow> int" where
  "record_type_value T_NONE = 0"
| "record_type_value T_A = 1"
| "record_type_value T_NS = 2"
| "record_type_value T_CNAME = 5"
| "record_type_value T_SOA = 6"
| "record_type_value T_PTR = 12"
| "record_type_value T_MX = 15"
| "record_type_value T_TXT = 16"
| "record_type_value T_AAAA = 28"
| "record_type_value T_SRV = 33"
| "record_type_value T_NAPTR = 35"
| "record_type_value T_ANY = 255"

definition types_by_code :: "int \<Rightarrow> record_type option" where
  "types_by_code =
     map_of (map (\<lambda>t. (record_type_value t, t))
       [T_NONE, T_A, T_NS, T_CNAME, T_SOA, T_PTR, T_MX, T_TXT, T_AAAA, T_SRV, T_NAPTR, T_ANY])"

lemma types_by_code_value [simp]: "types_by_code (record_type_value t) = Some t"
  by (cases t) (simp_all add: types_by_code_def)

datatype query_type = REQUEST | RESPONSE

fun query_type_value :: "query_type \<Rightarrow> int" where
  "query_type_value REQUEST = 0"
| "query_type_value RESPONSE = 1"

definition query_by_value :: "int \<Rightarrow> query_type" where
  "query_by_value v = (if v = 1 then RESPONSE else REQUEST)"

section \<open>Record data\<close>

text \<open>The text of an \<open>UnsupportedRecordData\<close> is a \<open>str\<close>.\<close>

datatype record_data =
    ARecordData bytes
  | AAAARecordData bytes
  | CNAMERecordData bytes
  | NSRecordData bytes
  | PTRRecordData bytes
  | MXRecordData int bytes
  | SRVRecordData int int int bytes
  | SOARecordData bytes bytes int int int int int
  | NAPTRRecordData int int bytes bytes bytes bytes
  | TXTRecordData bytes
  | UnsupportedRecordData "record_type option" bytes

text \<open>
  \<open>dump\<close> of each class, joined to one byte string. A \<open>str\<close> cannot be joined to bytes.
\<close>

type_synonym dumper = "name_positions \<Rightarrow> nat \<Rightarrow> name_positions \<times> bytes res"

definition a_dump :: "bytes \<Rightarrow> dumper" where
  "a_dump ip names offset = (names, inet_aton ip)"

definition aaaa_dump :: "bytes \<Rightarrow> dumper" where
  "aaaa_dump ip names offset = (names, inet_pton6 ip)"

definition domain_dump :: "bytes \<Rightarrow> dumper" where
  "domain_dump name names offset = pack_domain_name name names (offset + 2)"

definition mx_dump :: "int \<Rightarrow> bytes \<Rightarrow> dumper" where
  "mx_dump preference exchange names offset =
     (case pack_struct [2] [preference] of
        Inl err \<Rightarrow> (names, Inl err)
      | Inr b \<Rightarrow>
          (case pack_domain_name exchange names (offset + 4) of
             (names, r) \<Rightarrow> (names, rbind r (\<lambda>d. Inr (b @ d)))))"

definition srv_dump :: "int \<Rightarrow> int \<Rightarrow> int \<Rightarrow> bytes \<Rightarrow> dumper" where
  "srv_dump priority weight port hostname names offset =
     (case pack_struct [2, 2, 2] [priority, weight, port] of
        Inl err \<Rightarrow> (names, Inl err)
      | Inr b \<Rightarrow>
          (case pack_domain_name hostname names (offset + 8) of
             (names, r) \<Rightarrow> (names, rbind r (\<lambda>d. Inr (b @ d)))))"

definition soa_dump :: "bytes \<Rightarrow> bytes \<Rightarrow> int list \<Rightarrow> dumper" where
  "soa_dump mname rname numbers names offset =
     (case pack_domain_name mname names (offset + 2) of
        (names, Inl err) \<Rightarrow> (names, Inl err)
      | (names, Inr m) \<Rightarrow>
          (case pack_domain_name rname names (offset + 2 + length m) of
             (names, r) \<Rightarrow>
               (names, rbind r (\<lambda>d. rbind (pack_struct [4, 4, 4, 4, 4] numbers) (\<lambda>b. Inr (m @ d @ b))))))"

definition naptr_dump :: dumper where
  "naptr_dump names offset = (names, Inl (GenericException ''NotImplementedError''))"

definition txt_dump :: "bytes \<Rightarrow> dumper" where
  "txt_dump text names offset = (names, pack_string 1 text)"

definition unsupported_dump :: dumper where
  "unsupported_dump names offset = (names, Inl TypeError)"

lemmas dump_defs = a_dump_def aaaa_dump_def domain_dump_def mx_dump_def srv_dump_def soa_dump_def naptr_dump_def
  txt_dump_def unsupported_dump_def

fun dump :: "record_data \<Rightarrow> dumper" where
  "dump (ARecordData ip) = a_dump ip"
| "dump (AAAARecordData ip) = aaaa_dump ip"
| "dump (CNAMERecordData name) = domain_dump name"
| "dump (NSRecordData name) = domain_dump name"
| "dump (PTRRecordData name) = domain_dump name"
| "dump (MXRecordData preference exchange) = mx_dump preference exchange"
| "dump (SRVRecordData priority weight port hostname) = srv_dump priority weight port hostname"
| "dump (SOARecordData mname rname serial refresh retry expire minimum) =
     soa_dump mname rname [serial, refresh, retry, expire, minimum]"
| "dump (NAPTRRecordData _ _ _ _ _ _) = naptr_dump"
| "dump (TXTRecordData text) = txt_dump text"
| "dump (UnsupportedRecordData _ raw) = unsupported_dump"

definition octets :: "bytes \<Rightarrow> nat \<Rightarrow> nat \<Rightarrow> bytes" where
  "octets buf pos n = take n (drop pos buf)"

text \<open>\<open>length = data[pos]; data[pos + 1:pos + 1 + length].decode()\<close> in \<open>NAPTRRecordData.load\<close>.\<close>

definition load_text :: "bytes \<Rightarrow> nat \<Rightarrow> (nat \<times> bytes) res" where
  "load_text buf pos =
     rbind (load_string buf pos) (\<lambda>(pos, s). rbind (py_decode s) (\<lambda>s. Inr (pos, s)))"

text \<open>\<open>load\<close> of each class, from a position and with the size of the data.\<close>

type_synonym loader = "bytes \<Rightarrow> nat \<Rightarrow> nat \<Rightarrow> (nat \<times> record_data) res"

definition a_load :: loader where
  "a_load buf pos sz = rbind (inet_ntoa (octets buf pos sz)) (\<lambda>ip. Inr (pos + sz, ARecordData ip))"

definition aaaa_load :: loader where
  "aaaa_load buf pos sz = rbind (inet_ntop6 (octets buf pos sz)) (\<lambda>ip. Inr (pos + sz, AAAARecordData ip))"

definition cname_load :: loader where
  "cname_load buf pos sz = rbind (load_domain_name buf pos) (\<lambda>(e, name). Inr (e, CNAMERecordData name))"

definition ns_load :: loader where
  "ns_load buf pos sz = rbind (load_domain_name buf pos) (\<lambda>(e, name). Inr (e, NSRecordData name))"

definition ptr_load :: loader where
  "ptr_load buf pos sz = rbind (load_domain_name buf pos) (\<lambda>(e, name). Inr (e, PTRRecordData name))"

definition mx_load :: loader where
  "mx_load buf pos sz =
     rbind (unpack_struct [2] (octets buf pos 2)) (\<lambda>vs.
     rbind (load_domain_name buf (pos + 2)) (\<lambda>(e, name). Inr (e, MXRecordData (vs ! 0) name)))"

definition srv_load :: loader where
  "srv_load buf pos sz =
     rbind (unpack_struct [2, 2, 2] (octets buf pos 6)) (\<lambda>vs.
     rbind (load_domain_name buf (pos + 6)) (\<lambda>(e, name). Inr (e, SRVRecordData (vs ! 0) (vs ! 1) (vs ! 2) name)))"

definition soa_load :: loader where
  "soa_load buf pos sz =
     rbind (load_domain_name buf pos) (\<lambda>(p1, mname).
     rbind (load_domain_name buf p1) (\<lambda>(p2, rname).
     rbind (unpack_struct [4, 4, 4, 4, 4] (octets buf p2 20)) (\<lambda>vs.
       Inr (p2 + 20, SOARecordData mname rname (vs ! 0) (vs ! 1) (vs ! 2) (vs ! 3) (vs ! 4)))))"

definition naptr_load :: loader where
  "naptr_load buf pos sz =
     rbind (unpack_struct [2, 2] (octets buf pos 4)) (\<lambda>vs.
     rbind (load_text buf (pos + 4)) (\<lambda>(p1, flags).
     rbind (load_text buf p1) (\<lambda>(p2, service).
     rbind (load_text buf p2) (\<lambda>(p3, regexp).
     rbind (load_domain_name buf p3) (\<lambda>(e, replacement).
       Inr (e, NAPTRRecordData (vs ! 0) (vs ! 1) flags service regexp replacement))))))"

definition txt_load :: loader where
  "txt_load buf pos sz =
     rbind (load_string buf pos) (\<lambda>(_, text).
     rbind (py_decode text) (\<lambda>text. Inr (pos + sz, TXTRecordData text)))"

text \<open>
  \<open>UnsupportedRecordData.load\<close> hands bytes to a constructor that calls \<open>encode\<close> on them, which
  bytes do not have.
\<close>

definition unsupported_load :: loader where
  "unsupported_load buf pos sz = Inl AttributeError"

lemmas load_defs = a_load_def aaaa_load_def cname_load_def ns_load_def ptr_load_def mx_load_def srv_load_def soa_load_def
  naptr_load_def txt_load_def unsupported_load_def

definition load_rdata :: "record_type option \<Rightarrow> loader" where
  "load_rdata t =
     (case t of
        Some T_A \<Rightarrow> a_load
      | Some T_AAAA \<Rightarrow> aaaa_load
      | Some T_CNAME \<Rightarrow> cname_load
      | Some T_MX \<Rightarrow> mx_load
      | Some T_NAPTR \<Rightarrow> naptr_load
      | Some T_NS \<Rightarrow> ns_load
      | Some T_PTR \<Rightarrow> ptr_load
      | Some T_SOA \<Rightarrow> soa_load
      | Some T_SRV \<Rightarrow> srv_load
      | Some T_TXT \<Rightarrow> txt_load
      | _ \<Rightarrow> unsupported_load)"

section \<open>Records\<close>

text \<open>\<open>query_type\<close> is an enum, but a caller may also pass its integer value.\<close>

datatype query_kind = QueryEnum query_type | QueryInt int

record dns_record =
  rec_query :: query_kind
  rec_name :: bytes
  rec_type :: "record_type option"
  rec_qclass :: int
  rec_ttl :: int
  rec_data :: "record_data option"
  rec_timestamp :: int

definition Record_init :: "query_kind \<Rightarrow> int \<Rightarrow> dns_record" where
  "Record_init query now =
     \<lparr>rec_query = query, rec_name = [], rec_type = Some T_ANY, rec_qclass = 1, rec_ttl = 0, rec_data = None,
      rec_timestamp = now\<rparr>"

definition MAXAGE :: int where "MAXAGE = 3600000"

definition record_parse :: "dns_record \<Rightarrow> bytes \<Rightarrow> nat \<Rightarrow> int \<Rightarrow> dns_record \<times> nat res" where
  "record_parse r buf pos now =
     (case load_domain_name buf pos of
        Inl err \<Rightarrow> (r, Inl err)
      | Inr (pos, name) \<Rightarrow>
          (let r = r\<lparr>rec_name := name\<rparr>
           in case unpack_struct [2, 2] (octets buf pos 4) of
                Inl err \<Rightarrow> (r, Inl err)
              | Inr vs \<Rightarrow>
                  (let r = r\<lparr>rec_qclass := vs ! 1, rec_type := types_by_code (vs ! 0)\<rparr>; pos = pos + 4
                   in if rec_query r = QueryEnum RESPONSE
                      then
                        (let r = r\<lparr>rec_timestamp := now\<rparr>
                         in case unpack_struct [4, 2] (octets buf pos 6) of
                              Inl err \<Rightarrow> (r, Inl err)
                            | Inr ws \<Rightarrow>
                                (let r = r\<lparr>rec_ttl := ws ! 0\<rparr>; pos = pos + 6; sz = nat (ws ! 1)
                                 in case load_rdata (rec_type r) buf pos sz of
                                      Inl err \<Rightarrow> (r, Inl err)
                                    | Inr (_, d) \<Rightarrow> (r\<lparr>rec_data := Some d\<rparr>, Inr (pos + sz))))
                      else (r, Inr pos))))"

text \<open>The remaining time to live of a record; a negative one never expires and stays as it is.\<close>

definition remaining_ttl :: "dns_record \<Rightarrow> int \<Rightarrow> int" where
  "remaining_ttl r now = max 0 (rec_ttl r - (now - rec_timestamp r))"

definition age :: "dns_record \<Rightarrow> int \<Rightarrow> dns_record \<times> int" where
  "age r now =
     (if rec_ttl r < 0 then (r, MAXAGE)
      else (let t = remaining_ttl r now in (r\<lparr>rec_ttl := t, rec_timestamp := now\<rparr>, t)))"

definition pack_data :: "dns_record \<Rightarrow> name_positions \<Rightarrow> nat \<Rightarrow> int \<Rightarrow> name_positions \<times> dns_record \<times> bytes res" where
  "pack_data r names pos now =
     (case age r now of
        (r, ttl) \<Rightarrow>
          (case pack_struct [4] [ttl] of
             Inl err \<Rightarrow> (names, r, Inl err)
           | Inr t \<Rightarrow>
               (case rec_data r of
                  None \<Rightarrow> (names, r, Inl AttributeError)
                | Some d \<Rightarrow>
                    (case dump d names (pos + 4) of
                       (names, s) \<Rightarrow>
                         (names, r, rbind s (\<lambda>s. rbind (pack_string 2 s) (\<lambda>s. Inr (t @ s))))))))"

definition record_pack :: "dns_record \<Rightarrow> name_positions \<Rightarrow> nat \<Rightarrow> int \<Rightarrow> name_positions \<times> dns_record \<times> bytes res" where
  "record_pack r names offset now =
     (case pack_domain_name (rec_name r) names offset of
        (names, Inl err) \<Rightarrow> (names, r, Inl err)
      | (names, Inr n) \<Rightarrow>
          (case rec_type r of
             None \<Rightarrow> (names, r, Inl AttributeError)
           | Some t \<Rightarrow>
               (case pack_struct [2, 2] [record_type_value t, rec_qclass r] of
                  Inl err \<Rightarrow> (names, r, Inl err)
                | Inr h \<Rightarrow>
                    (if rec_query r = QueryEnum RESPONSE
                     then (case pack_data r names (offset + length n + 4) now of
                             (names, r, d) \<Rightarrow> (names, r, rbind d (\<lambda>d. Inr (n @ h @ d))))
                     else (names, r, Inr (n @ h))))))"

section \<open>Well-formed data\<close>

fun data_type :: "record_data \<Rightarrow> record_type" where
  "data_type (ARecordData _) = T_A"
| "data_type (AAAARecordData _) = T_AAAA"
| "data_type (CNAMERecordData _) = T_CNAME"
| "data_type (NSRecordData _) = T_NS"
| "data_type (PTRRecordData _) = T_PTR"
| "data_type (MXRecordData _ _) = T_MX"
| "data_type (SRVRecordData _ _ _ _) = T_SRV"
| "data_type (SOARecordData _ _ _ _ _ _ _) = T_SOA"
| "data_type (NAPTRRecordData _ _ _ _ _ _) = T_NAPTR"
| "data_type (TXTRecordData _) = T_TXT"
| "data_type (UnsupportedRecordData _ _) = T_NONE"

text \<open>Names that can be packed, addresses in the form the C library prints, valid text.\<close>

fun data_ok :: "record_data \<Rightarrow> bool" where
  "data_ok (ARecordData ip) = (rbind (inet_aton ip) inet_ntoa = Inr ip)"
| "data_ok (AAAARecordData ip) = (rbind (inet_pton6 ip) inet_ntop6 = Inr ip)"
| "data_ok (CNAMERecordData name) = domain_ok name"
| "data_ok (NSRecordData name) = domain_ok name"
| "data_ok (PTRRecordData name) = domain_ok name"
| "data_ok (MXRecordData _ name) = domain_ok name"
| "data_ok (SRVRecordData _ _ _ name) = domain_ok name"
| "data_ok (SOARecordData mname rname _ _ _ _ _) = (domain_ok mname \<and> domain_ok rname)"
| "data_ok (TXTRecordData text) = utf8_ok text"
| "data_ok _ = False"

section \<open>Dumping and loading\<close>

lemma octets_mid [simp]: "octets (buf @ b @ rest) (length buf) (length b) = b"
  by (simp add: octets_def)

lemma unpack_octets:
  assumes "pack_struct ns vs = Inr b" "n = sum_list ns"
  shows "unpack_struct ns (octets (buf @ b @ rest) (length buf) n) = Inr vs"
  using unpack_pack_struct [OF assms(1)] pack_struct_length [OF assms(1)] assms(2) by (metis octets_mid)

lemma pack_string_ok:
  assumes "pack_string w s = Inr bs"
  shows "\<exists>l. bs = l @ s \<and> length l = w \<and> unpack_be w l = Inr (int (length s))"
  using assms unpack_pack_be by (auto simp: pack_string_def)

lemma load_string_mid:
  assumes "pack_string 1 s = Inr bs"
  shows "load_string (buf @ bs @ rest) (length buf) = Inr (length buf + length bs, s)"
proof -
  obtain l where l: "bs = l @ s" "length l = 1" "unpack_be 1 l = Inr (int (length s))"
    using pack_string_ok [OF assms] by blast
  then obtain b where b: "l = [b]" by (metis One_nat_def length_0_conv length_Suc_conv)
  have "int (be_value l) = int (length s)" using l(2,3) by (simp only: unpack_be_def if_True sum.inject simp_thms)
  then have "unat b = length s" using b by (simp only: of_nat_eq_iff be_value_def foldl.simps mult_0 add_0)
  then show ?thesis using l(1) b by (simp add: load_string_def Let_def)
qed

text \<open>A name packed after a block of bytes.\<close>

lemma packed_name_after:
  assumes "domain_ok name" "names_ok buf {} names" "pack_domain_name name names pos = (names', Inr d)"
    "pos = length buf + length b"
  shows "load_domain_name (buf @ b @ d @ rest) pos = Inr (pos + length d, name)" "names_ok (buf @ b @ d) {} names'"
  using pack_domain_name_ok(1) [OF assms(1) names_ok_append [OF assms(2), of b], of names' d rest]
    pack_domain_name_ok(2) [OF assms(1) names_ok_append [OF assms(2), of b], of names' d] assms(3,4)
  by simp_all

lemma dump_load:
  assumes "data_ok d" "names_ok buf {} names" "dump d names off = (names', Inr bs)" "length buf = off + 2"
  shows "\<exists>e. load_rdata (Some (data_type d)) (buf @ bs @ rest) (length buf) (length bs) = Inr (e, d)" "names_ok (buf @ bs) {} names'"
proof -
  have off: "off + 2 = length buf" "off + 4 = length buf + 2" "off + 8 = length buf + 6" using assms(4) by simp_all
  have "(\<exists>e. load_rdata (Some (data_type d)) (buf @ bs @ rest) (length buf) (length bs) = Inr (e, d)) \<and> names_ok (buf @ bs) {} names'"
  proof (cases d)
    case (MXRecordData p name)
    then obtain b n where b: "pack_struct [2] [p] = Inr b" "pack_domain_name name names (off + 4) = (names', Inr n)" "bs = b @ n"
      using assms(3) by (auto simp: dump_defs split: sum.splits prod.splits)
    note u = unpack_octets [OF b(1), of 2 buf "n @ rest"]
    have "length b = 2" using pack_struct_length [OF b(1)] by simp
    then show ?thesis
      using packed_name_after(1) [OF _ assms(2) b(2) [unfolded off], of b rest] packed_name_after(2) [OF _ assms(2) b(2) [unfolded off], of b] u b(3) assms(1,4) MXRecordData by (simp add: load_rdata_def load_defs)
  next
    case (SRVRecordData p w q name)
    then obtain b n where b: "pack_struct [2, 2, 2] [p, w, q] = Inr b" "pack_domain_name name names (off + 8) = (names', Inr n)" "bs = b @ n"
      using assms(3) by (auto simp: dump_defs split: sum.splits prod.splits)
    note u = unpack_octets [OF b(1), of 6 buf "n @ rest"]
    have "length b = 6" using pack_struct_length [OF b(1)] by simp
    then show ?thesis
      using packed_name_after(1) [OF _ assms(2) b(2) [unfolded off], of b rest] packed_name_after(2) [OF _ assms(2) b(2) [unfolded off], of b] u b(3) assms(1,4) SRVRecordData by (simp add: load_rdata_def load_defs)
  next
    case (SOARecordData mname rname v1 v2 v3 v4 v5)
    then obtain n1 m n b where b: "pack_domain_name mname names (off + 2) = (n1, Inr m)"
      "pack_domain_name rname n1 (off + 2 + length m) = (names', Inr n)"
      "pack_struct [4, 4, 4, 4, 4] [v1, v2, v3, v4, v5] = Inr b" "bs = m @ n @ b"
      using assms(3) by (auto simp: dump_defs split: sum.splits prod.splits)
    have ok: "domain_ok mname" "domain_ok rname" using assms(1) SOARecordData by simp_all
    note p = packed_name_after(1) [OF ok(1) assms(2) b(1) [unfolded off], of "[]" "n @ b @ rest"] packed_name_after(2) [OF ok(1) assms(2) b(1) [unfolded off], of "[]"]
    have 1: "names_ok (buf @ m) {} n1" "load_domain_name (buf @ m @ n @ b @ rest) (length buf) = Inr (length buf + length m, mname)"
      using p assms(4) by simp_all
    note q = packed_name_after(1) [OF ok(2) 1(1) b(2) [unfolded off], of "[]" "b @ rest"] packed_name_after(2) [OF ok(2) 1(1) b(2) [unfolded off], of "[]"]
    have 2: "names_ok (buf @ m @ n) {} names'"
      "load_domain_name (buf @ m @ n @ b @ rest) (length buf + length m) = Inr (length buf + length m + length n, rname)"
      using q assms(4) by simp_all
    have u: "unpack_struct [4, 4, 4, 4, 4] (octets (buf @ m @ n @ b @ rest) (length buf + length m + length n) 20) = Inr [v1, v2, v3, v4, v5]"
      using unpack_octets [OF b(3), of 20 "buf @ m @ n" rest] by (simp add: add.assoc)
    have "names_ok (buf @ bs) {} names'" using names_ok_append [OF 2(1), of b] b(4) by simp
    with 1(2) 2(2) u b(4) SOARecordData show ?thesis by (simp add: load_rdata_def load_defs)
  next
    case (TXTRecordData t)
    then show ?thesis
      using load_string_mid [of t bs buf rest] assms(1-3) names_ok_append [OF assms(2)] by (auto simp: load_rdata_def load_defs dump_defs py_decode_def)
  next
    case (ARecordData ip)
    then show ?thesis using assms(1-3) names_ok_append [OF assms(2)] by (auto simp: load_rdata_def load_defs dump_defs)
  next
    case (AAAARecordData ip)
    then show ?thesis using assms(1-3) names_ok_append [OF assms(2)] by (auto simp: load_rdata_def load_defs dump_defs)
  qed (use assms packed_name_after(1) [OF _ assms(2), of _ "off + 2" names' bs "[]" rest]
      packed_name_after(2) [OF _ assms(2), of _ "off + 2" names' bs "[]"] in \<open>auto simp: load_rdata_def load_defs dump_defs\<close>)
  then show "\<exists>e. load_rdata (Some (data_type d)) (buf @ bs @ rest) (length buf) (length bs) = Inr (e, d)" "names_ok (buf @ bs) {} names'"
    by blast+
qed

section \<open>Packing and parsing records\<close>

definition record_ok :: "dns_record \<Rightarrow> bool" where
  "record_ok r \<longleftrightarrow> rec_query r = QueryEnum RESPONSE \<and> domain_ok (rec_name r) \<and>
     (case rec_data r of None \<Rightarrow> False | Some d \<Rightarrow> rec_type r = Some (data_type d) \<and> data_ok d)"

text \<open>The record the receiver sees: the same with the remaining time to live, as of its own clock.\<close>

definition received_record :: "dns_record \<Rightarrow> int \<Rightarrow> int \<Rightarrow> dns_record" where
  "received_record r now now' = r\<lparr>rec_ttl := snd (age r now), rec_timestamp := now'\<rparr>"

lemma age_fields [simp]:
  "rec_data (fst (age r now)) = rec_data r" "rec_type (fst (age r now)) = rec_type r" "rec_name (fst (age r now)) = rec_name r"
  by (simp_all add: age_def Let_def)

lemma pack_data_split:
  assumes "pack_data r names pos now = (names', r', Inr bs)"
  shows "\<exists>d t z s. rec_data r = Some d \<and> pack_struct [4] [snd (age r now)] = Inr t \<and> dump d names (pos + 4) = (names', Inr s) \<and>
    pack_be 2 (int (length s)) = Inr z \<and> bs = t @ z @ s"
  using assms age_fields(1) [of r now]
  by (cases "age r now") (auto simp: pack_data_def pack_string_def simp del: age_fields split: sum.splits option.splits prod.splits)

lemma pack_struct_concat:
  "pack_struct [4] [v] = Inr t \<Longrightarrow> pack_be 2 w = Inr z \<Longrightarrow> pack_struct [4, 2] [v, w] = Inr (t @ z)"
  by (auto split: sum.splits)

lemma record_pack_parse:
  assumes "record_ok r" "names_ok buf {} names" "record_pack r names (length buf) now = (names', r', Inr bs)"
  shows "record_parse (Record_init (QueryEnum RESPONSE) now0) (buf @ bs @ rest) (length buf) now' =
    (received_record r now now', Inr (length buf + length bs))" "names_ok (buf @ bs) {} names'"
proof -
  obtain d where d: "rec_data r = Some d" "rec_type r = Some (data_type d)" "data_ok d"
    and q: "rec_query r = QueryEnum RESPONSE" "domain_ok (rec_name r)"
    using assms(1) by (auto simp: record_ok_def split: option.splits)
  obtain n1 n h b where p: "pack_domain_name (rec_name r) names (length buf) = (n1, Inr n)"
    "pack_struct [2, 2] [record_type_value (data_type d), rec_qclass r] = Inr h"
    "pack_data r n1 (length buf + length n + 4) now = (names', r', Inr b)" "bs = n @ h @ b"
    using assms(3) d(2) q(1) by (auto simp: record_pack_def split: sum.splits prod.splits)
  obtain t z s where s: "pack_struct [4] [snd (age r now)] = Inr t" "dump d n1 (length buf + length n + 4 + 4) = (names', Inr s)"
    "pack_be 2 (int (length s)) = Inr z" "b = t @ z @ s"
    using pack_data_split [OF p(3)] d(1) by auto
  have l: "length h = 4" "length t = 4" "length z = 2"
    using pack_struct_length [OF p(2)] pack_struct_length [OF s(1)] unpack_pack_be [OF s(3)] by simp_all
  let ?all = "buf @ bs @ rest"
  note name = pack_domain_name_ok [OF q(2) assms(2) p(1)]
  have 1: "load_domain_name ?all (length buf) = Inr (length buf + length n, rec_name r)"
    using name(1) [of "h @ b @ rest"] p(4) by simp
  have 2: "unpack_struct [2, 2] (octets ?all (length buf + length n) 4) = Inr [record_type_value (data_type d), rec_qclass r]"
    using unpack_octets [OF p(2), of 4 "buf @ n" "b @ rest"] p(4) by simp
  have 3: "unpack_struct [4, 2] (octets ?all (length buf + length n + 4) 6) = Inr [snd (age r now), int (length s)]"
    using unpack_octets [OF pack_struct_concat [OF s(1,3)], of 6 "buf @ n @ h" "s @ rest"] p(4) s(4) l(1) by (simp add: add.assoc)
  have "names_ok (buf @ n @ h @ t @ z) {} n1" using names_ok_append [OF name(2), of "h @ t @ z"] by simp
  note ld = dump_load [OF d(3) this s(2)]
  have len: "length (buf @ n @ h @ t @ z) = length buf + length n + 4 + 4 + 2" using l by simp
  from ld(1) [OF len, of rest] obtain e where 4: "load_rdata (Some (data_type d)) ?all (length buf + length n + 4 + 6) (length s) = Inr (e, d)"
    using p(4) s(4) l by (auto simp: add.assoc)
  have "length bs = length n + 4 + 6 + length s" using p(4) s(4) l by simp
  with 1 2 3 4 d(1,2) q show "record_parse (Record_init (QueryEnum RESPONSE) now0) ?all (length buf) now' =
    (received_record r now now', Inr (length buf + length bs))"
    by (simp add: record_parse_def Record_init_def received_record_def Let_def add.assoc)
  show "names_ok (buf @ bs) {} names'" using ld(2) [OF len] p(4) s(4) by simp
qed

end
