(* ===== verification/Dns_Message.thy ===== *)
theory Dns_Message
  imports Dns_Records
begin

text \<open>
  DNS messages (\<open>models/dns/dns_message.py\<close>): \<open>pack\<close> writes the four groups of records behind a
  header of twelve bytes and \<open>parse\<close> reads them. The fields \<open>record_types\<close> and
  \<open>query_has_result\<close> are not read here and left out. The clock is read once per message. The
  stream is the bytes written after the header; \<open>pos\<close> is \<open>buffer.tell()\<close>.
\<close>

section \<open>Definitions\<close>

record dns_message =
  query_type :: query_type
  query_id :: int
  query_opcode :: int
  query_authoritative_answer :: int
  query_truncation :: int
  query_desired_recursion :: int
  query_available_recursion :: int
  query_result_code :: int
  query_domains :: "dns_record list"
  query_answers :: "dns_record list"
  query_namservers :: "dns_record list"
  query_additional_records :: "dns_record list"

definition DNSMessage_init :: dns_message where
  "DNSMessage_init =
     \<lparr>query_type = REQUEST, query_id = 0, query_opcode = 0, query_authoritative_answer = 0, query_truncation = 0,
      query_desired_recursion = 0, query_available_recursion = 0, query_result_code = 0, query_domains = [],
      query_answers = [], query_namservers = [], query_additional_records = []\<rparr>"

definition get_bits :: "int \<Rightarrow> nat \<Rightarrow> int \<times> int" where
  "get_bits num bit_len = (let high = drop_bit bit_len num in (num - push_bit bit_len high, high))"

text \<open>
  \<open>parse_entry\<close> reads \<open>query_type.value\<close> of its argument and hands the integer on to \<open>Record\<close>. An
  integer has no attribute \<open>value\<close>.
\<close>

fun parse_entry :: "query_kind \<Rightarrow> bytes \<Rightarrow> nat \<Rightarrow> nat \<Rightarrow> int \<Rightarrow> (nat \<times> dns_record list) res" where
  "parse_entry q buf pos 0 now = Inr (pos, [])"
| "parse_entry q buf pos (Suc k) now =
     (case q of
        QueryInt _ \<Rightarrow> Inl AttributeError
      | QueryEnum t \<Rightarrow>
          (case record_parse (Record_init (QueryInt (query_type_value t)) now) buf pos now of
             (r, Inl err) \<Rightarrow> Inl err
           | (r, Inr pos) \<Rightarrow> rbind (parse_entry q buf pos k now) (\<lambda>(e, rs). Inr (e, r # rs))))"

definition message_parse :: "bytes \<Rightarrow> int option \<Rightarrow> int \<Rightarrow> dns_message res" where
  "message_parse buf qid now =
     rbind (unpack_struct [2, 2, 2, 2, 2, 2] (take 12 buf)) (\<lambda>vs.
       let request_id = vs ! 0; raw_data = vs ! 1
       in if qid \<noteq> None \<and> qid \<noteq> Some request_id then Inl (GenericException ''DNSError'')
          else
            (let (result_code, raw_data) = get_bits raw_data 4;
                 (_, raw_data) = get_bits raw_data 3;
                 (available_recursion, raw_data) = get_bits raw_data 1;
                 (desired_recursion, raw_data) = get_bits raw_data 1;
                 (truncation, raw_data) = get_bits raw_data 1;
                 (authoritative_answer, raw_data) = get_bits raw_data 1;
                 (opcode, raw_data) = get_bits raw_data 4;
                 (qt, raw_data) = get_bits raw_data 1
             in rbind (parse_entry (QueryInt (query_type_value REQUEST)) buf 12 (nat (vs ! 2)) now) (\<lambda>(p1, domains).
                rbind (parse_entry (QueryInt (query_type_value RESPONSE)) buf p1 (nat (vs ! 3)) now) (\<lambda>(p2, answers).
                rbind (parse_entry (QueryInt (query_type_value RESPONSE)) buf p2 (nat (vs ! 4)) now) (\<lambda>(p3, nameservers).
                rbind (parse_entry (QueryInt (query_type_value RESPONSE)) buf p3 (nat (vs ! 5)) now) (\<lambda>(_, additional).
                  Inr (DNSMessage_init
                    \<lparr>query_type := query_by_value qt, query_opcode := opcode,
                     query_authoritative_answer := authoritative_answer, query_truncation := truncation,
                     query_desired_recursion := desired_recursion, query_available_recursion := available_recursion,
                     query_result_code := result_code, query_domains := domains, query_answers := answers,
                     query_namservers := nameservers, query_additional_records := additional\<rparr>)))))))"

text \<open>The records of a group: what is written, and whether the size limit was reached.\<close>

fun pack_records :: "dns_record list \<Rightarrow> name_positions \<Rightarrow> nat \<Rightarrow> nat option \<Rightarrow> int \<Rightarrow>
    (dns_record list \<times> name_positions \<times> bytes \<times> bool) res" where
  "pack_records [] names pos limit now = Inr ([], names, [], False)"
| "pack_records (r # rs) names pos limit now =
     (case record_pack r names pos now of
        (names, r, Inl err) \<Rightarrow> Inl err
      | (names, r, Inr p) \<Rightarrow>
          (if (case limit of None \<Rightarrow> False | Some n \<Rightarrow> pos + length p > n) then Inr (r # rs, names, [], True)
           else rbind (pack_records rs names (pos + length p) limit now) (\<lambda>(rs, names, bs, t).
                  Inr (r # rs, names, p @ bs, t))))"

fun pack_groups :: "dns_record list list \<Rightarrow> name_positions \<Rightarrow> nat \<Rightarrow> nat option \<Rightarrow> int \<Rightarrow>
    (dns_record list list \<times> name_positions \<times> bytes \<times> bool) res" where
  "pack_groups [] names pos limit now = Inr ([], names, [], False)"
| "pack_groups (g # gs) names pos limit now =
     rbind (pack_records g names pos limit now) (\<lambda>(g, names, bs, t).
       if t then Inr (g # gs, names, bs, True)
       else rbind (pack_groups gs names (pos + length bs) limit now) (\<lambda>(gs, names, bs', t).
              Inr (g # gs, names, bs @ bs', t)))"

definition query_data :: "dns_message \<Rightarrow> int \<Rightarrow> int" where
  "query_data m truncation =
     sum_list [push_bit 15 (query_type_value (query_type m)), push_bit 11 (query_opcode m),
       push_bit 10 (query_authoritative_answer m), push_bit 9 truncation, push_bit 8 (query_desired_recursion m),
       push_bit 7 (query_available_recursion m), push_bit 4 0, query_result_code m]"

definition message_header :: "dns_message \<Rightarrow> int \<Rightarrow> bytes res" where
  "message_header m truncation =
     pack_struct [2, 2, 2, 2, 2, 2]
       [query_id m, query_data m truncation, int (length (query_domains m)), int (length (query_answers m)),
        int (length (query_namservers m)), int (length (query_additional_records m))]"

definition message_groups :: "dns_message \<Rightarrow> dns_record list list" where
  "message_groups m = [query_domains m, query_answers m, query_namservers m, query_additional_records m]"

definition message_pack :: "dns_message \<Rightarrow> nat option \<Rightarrow> int \<Rightarrow> (dns_message \<times> bytes) res" where
  "message_pack m limit now =
     rbind (pack_groups (message_groups m) Map.empty 12 limit now) (\<lambda>(gs, names, body, t).
       let truncation = (if t then 1 else 0);
           m = m\<lparr>query_truncation := truncation, query_domains := gs ! 0, query_answers := gs ! 1,
                 query_namservers := gs ! 2, query_additional_records := gs ! 3\<rparr>
       in rbind (message_header m truncation) (\<lambda>header. Inr (m, header @ body)))"

section \<open>Reading records back\<close>

text \<open>The records of a message read one after the other with \<open>Record.parse\<close>.\<close>

fun read_records :: "query_type list \<Rightarrow> bytes \<Rightarrow> nat \<Rightarrow> int \<Rightarrow> (nat \<times> dns_record list) res" where
  "read_records [] buf pos now = Inr (pos, [])"
| "read_records (q # qs) buf pos now =
     (case record_parse (Record_init (QueryEnum q) now) buf pos now of
        (r, Inl err) \<Rightarrow> Inl err
      | (r, Inr pos) \<Rightarrow> rbind (read_records qs buf pos now) (\<lambda>(e, rs). Inr (e, r # rs)))"

lemma read_records_append:
  "read_records (qs @ qs') buf pos now =
     rbind (read_records qs buf pos now) (\<lambda>(p, rs). rbind (read_records qs' buf p now) (\<lambda>(e, rs'). Inr (e, rs @ rs')))"
proof (induction qs arbitrary: pos)
  case Nil
  show ?case by (cases "read_records qs' buf pos now") auto
next
  case (Cons q qs)
  obtain r x where x: "record_parse (Record_init (QueryEnum q) now) buf pos now = (r, x)" by fastforce
  show ?case
  proof (cases x)
    case (Inr p)
    show ?thesis
    proof (cases "read_records qs buf p now")
      case (Inr y)
      then show ?thesis using x \<open>x = Inr p\<close> Cons.IH by (cases y; cases "read_records qs' buf (fst y) now") auto
    qed (use x Inr Cons.IH in simp)
  qed (use x in simp)
qed

definition question_ok :: "dns_record \<Rightarrow> bool" where
  "question_ok r \<longleftrightarrow> rec_query r = QueryEnum REQUEST \<and> domain_ok (rec_name r)"

definition kind_of :: "dns_record \<Rightarrow> query_type" where
  "kind_of r = (case rec_query r of QueryEnum q \<Rightarrow> q | QueryInt _ \<Rightarrow> REQUEST)"

text \<open>What the receiver sees of a record: of a question only the name, the type and the class.\<close>

definition received :: "int \<Rightarrow> int \<Rightarrow> dns_record \<Rightarrow> dns_record" where
  "received now now' r =
     (if rec_query r = QueryEnum RESPONSE then received_record r now now'
      else (Record_init (QueryEnum REQUEST) now')\<lparr>rec_name := rec_name r, rec_type := rec_type r, rec_qclass := rec_qclass r\<rparr>)"

lemma question_pack_parse:
  assumes "question_ok r" "names_ok buf {} names" "record_pack r names (length buf) now = (names', r', Inr bs)"
  shows "record_parse (Record_init (QueryEnum REQUEST) now0) (buf @ bs @ rest) (length buf) now' =
    ((Record_init (QueryEnum REQUEST) now0)\<lparr>rec_name := rec_name r, rec_type := rec_type r, rec_qclass := rec_qclass r\<rparr>,
     Inr (length buf + length bs))" "names_ok (buf @ bs) {} names'"
proof -
  obtain n t h where p: "pack_domain_name (rec_name r) names (length buf) = (names', Inr n)" "rec_type r = Some t"
    "pack_struct [2, 2] [record_type_value t, rec_qclass r] = Inr h" "bs = n @ h"
    using assms(1,3) by (auto simp: record_pack_def question_ok_def split: sum.splits prod.splits option.splits)
  have q: "domain_ok (rec_name r)" using assms(1) by (simp add: question_ok_def)
  note name = pack_domain_name_ok [OF q assms(2) p(1)]
  have 1: "load_domain_name (buf @ bs @ rest) (length buf) = Inr (length buf + length n, rec_name r)"
    using name(1) [of "h @ rest"] p(4) by simp
  have 2: "unpack_struct [2, 2] (octets (buf @ bs @ rest) (length buf + length n) 4) = Inr [record_type_value t, rec_qclass r]"
    using unpack_octets [OF p(3), of 4 "buf @ n" rest] p(4) by simp
  have "length h = 4" using pack_struct_length [OF p(3)] by simp
  with 1 2 p(2,4) show "record_parse (Record_init (QueryEnum REQUEST) now0) (buf @ bs @ rest) (length buf) now' =
    ((Record_init (QueryEnum REQUEST) now0)\<lparr>rec_name := rec_name r, rec_type := rec_type r, rec_qclass := rec_qclass r\<rparr>,
     Inr (length buf + length bs))"
    by (simp add: record_parse_def Record_init_def Let_def)
  show "names_ok (buf @ bs) {} names'" using names_ok_append [OF name(2), of h] p(4) by simp
qed

lemma pack_parse_any:
  assumes "record_ok r \<or> question_ok r" "names_ok buf {} names" "record_pack r names (length buf) now = (names', r', Inr bs)"
  shows "record_parse (Record_init (QueryEnum (kind_of r)) now') (buf @ bs @ rest) (length buf) now' =
    (received now now' r, Inr (length buf + length bs))" "names_ok (buf @ bs) {} names'"
  using assms(1) record_pack_parse [OF _ assms(2,3)] question_pack_parse [OF _ assms(2,3)]
  by (auto simp: received_def kind_of_def record_ok_def question_ok_def)

lemma pack_records_ok:
  assumes "list_all (\<lambda>r. record_ok r \<or> question_ok r) rs" "names_ok buf {} names"
    "pack_records rs names (length buf) None now = Inr (rs', names', bs, t)"
  shows "\<not> t \<and> names_ok (buf @ bs) {} names' \<and> length rs' = length rs \<and>
    read_records (map kind_of rs) (buf @ bs @ rest) (length buf) now' = Inr (length buf + length bs, map (received now now') rs)"
  using assms
proof (induction rs arbitrary: buf names rs' bs)
  case (Cons r rs)
  obtain n1 r1 p rs2 bs2 where p: "record_pack r names (length buf) now = (n1, r1, Inr p)"
    "pack_records rs n1 (length (buf @ p)) None now = Inr (rs2, names', bs2, t)" "bs = p @ bs2" "rs' = r1 # rs2"
    using Cons.prems(3) by (auto split: sum.splits prod.splits)
  have ok: "record_ok r \<or> question_ok r" "list_all (\<lambda>r. record_ok r \<or> question_ok r) rs" using Cons.prems(1) by simp_all
  note one = pack_parse_any [OF ok(1) Cons.prems(2) p(1)]
  have "record_parse (Record_init (QueryEnum (kind_of r)) now') (buf @ bs @ rest) (length buf) now' =
    (received now now' r, Inr (length buf + length p))"
    using one(1) [of now' "bs2 @ rest"] p(3) by simp
  with Cons.IH [OF ok(2) one(2) p(2)] p(3,4) show ?case by (simp add: add.assoc)
qed simp

lemma pack_groups_ok:
  assumes "\<forall>g \<in> set gs. list_all (\<lambda>r. record_ok r \<or> question_ok r) g" "names_ok buf {} names"
    "pack_groups gs names (length buf) None now = Inr (gs', names', bs, t)"
  shows "\<not> t \<and> names_ok (buf @ bs) {} names' \<and> map length gs' = map length gs \<and>
    read_records (map kind_of (concat gs)) (buf @ bs @ rest) (length buf) now' =
      Inr (length buf + length bs, map (received now now') (concat gs))"
  using assms
proof (induction gs arbitrary: buf names gs' bs)
  case (Cons g gs)
  have ok: "list_all (\<lambda>r. record_ok r \<or> question_ok r) g" "\<forall>g \<in> set gs. list_all (\<lambda>r. record_ok r \<or> question_ok r) g"
    using Cons.prems(1) by simp_all
  obtain g1 n1 b1 t1 where g: "pack_records g names (length buf) None now = Inr (g1, n1, b1, t1)"
    using Cons.prems(3) by (auto split: prod.splits)
  note one = pack_records_ok [OF ok(1) Cons.prems(2) g]
  obtain gs2 b2 where p: "pack_groups gs n1 (length (buf @ b1)) None now = Inr (gs2, names', b2, t)" "bs = b1 @ b2" "gs' = g1 # gs2"
    using Cons.prems(3) g one by (auto split: prod.splits if_splits)
  have "names_ok (buf @ b1) {} n1" using one by blast
  note two = Cons.IH [OF ok(2) this p(1)]
  show ?case using one [of "b2 @ rest" now'] two p(2,3) by (simp add: read_records_append add.assoc)
qed simp

lemma message_pack_split:
  assumes "message_pack m None now = Inr (m', bs)"
  shows "\<exists>gs names body t header. pack_groups (message_groups m) Map.empty 12 None now = Inr (gs, names, body, t) \<and>
    length header = 12 \<and> bs = header @ body"
proof -
  obtain gs names body t where g: "pack_groups (message_groups m) Map.empty 12 None now = Inr (gs, names, body, t)"
    using assms by (auto simp: message_pack_def split: prod.splits)
  obtain m1 tr header where "message_header m1 tr = Inr header" "bs = header @ body"
    using assms g by (auto simp: message_pack_def Let_def)
  with g show ?thesis using pack_struct_length [of _ _ header] by (fastforce simp: message_header_def simp del: pack_struct.simps)
qed

section \<open>The header\<close>

lemma get_bits_field: "0 \<le> low \<Longrightarrow> low < 2 ^ n \<Longrightarrow> get_bits (high * 2 ^ n + low) n = (low, high)"
  by (simp add: get_bits_def drop_bit_eq_div push_bit_eq_mult)

definition flags_ok :: "dns_message \<Rightarrow> bool" where
  "flags_ok m \<longleftrightarrow> 0 \<le> query_opcode m \<and> query_opcode m < 16 \<and> query_authoritative_answer m \<in> {0, 1} \<and>
     query_desired_recursion m \<in> {0, 1} \<and> query_available_recursion m \<in> {0, 1} \<and>
     0 \<le> query_result_code m \<and> query_result_code m < 16"

lemma query_data_fields:
  "query_data m tr =
     ((((((query_type_value (query_type m) * 2 ^ 4 + query_opcode m) * 2 ^ 1 + query_authoritative_answer m) * 2 ^ 1 + tr) * 2 ^ 1 +
       query_desired_recursion m) * 2 ^ 1 + query_available_recursion m) * 2 ^ 3 + 0) * 2 ^ 4 + query_result_code m"
  by (simp add: query_data_def push_bit_eq_mult)

lemma pack_records_length:
  "pack_records rs names pos limit now = Inr (rs', names', bs, t) \<Longrightarrow> length rs' = length rs"
proof (induction rs arbitrary: names pos rs' bs)
  case (Cons r rs)
  obtain n1 r1 x where x: "record_pack r names pos now = (n1, r1, x)" by (metis prod_cases3)
  with Cons.prems obtain p where p: "x = Inr p" by (cases x) auto
  consider "rs' = r1 # rs"
    | rs2 b2 where "pack_records rs n1 (pos + length p) limit now = Inr (rs2, names', b2, t)" "rs' = r1 # rs2"
    using Cons.prems x p by (auto split: if_splits)
  then show ?case by cases (use Cons.IH in auto)
qed simp

lemma pack_groups_lengths:
  "pack_groups gs names pos limit now = Inr (gs', names', bs, t) \<Longrightarrow> map length gs' = map length gs"
proof (induction gs arbitrary: names pos gs' bs)
  case (Cons g gs)
  obtain g1 n1 b1 t1 where g: "pack_records g names pos limit now = Inr (g1, n1, b1, t1)"
    using Cons.prems by (auto split: prod.splits)
  show ?case
  proof (cases t1)
    case False
    then obtain gs2 b2 where "pack_groups gs n1 (pos + length b1) limit now = Inr (gs2, names', b2, t)" "gs' = g1 # gs2"
      using Cons.prems g by (auto split: prod.splits)
    with Cons.IH pack_records_length [OF g] show ?thesis by auto
  qed (use Cons.prems g pack_records_length [OF g] in auto)
qed simp

lemma message_pack_header:
  assumes "message_pack m limit now = Inr (m', bs)"
  shows "unpack_struct [2, 2, 2, 2, 2, 2] (take 12 bs) =
    Inr ([query_id m, query_data m (query_truncation m')] @ map (int \<circ> length) (message_groups m))"
proof -
  obtain gs names body t where g: "pack_groups (message_groups m) Map.empty 12 limit now = Inr (gs, names, body, t)"
    using assms by (auto simp: message_pack_def split: prod.splits)
  have "length gs = 4" "map length gs = map length (message_groups m)"
    using pack_groups_lengths [OF g] by (auto simp: message_groups_def dest: map_eq_imp_length_eq)
  then obtain g0 g1 g2 g3 where gs: "gs = [g0, g1, g2, g3]" "length g0 = length (query_domains m)" "length g1 = length (query_answers m)"
    "length g2 = length (query_namservers m)" "length g3 = length (query_additional_records m)"
    by (auto simp: message_groups_def length_Suc_conv numeral_eq_Suc)
  let ?tr = "if t then 1 else 0"
  let ?m = "m\<lparr>query_truncation := ?tr, query_domains := g0, query_answers := g1, query_namservers := g2, query_additional_records := g3\<rparr>"
  obtain header where h: "message_header ?m ?tr = Inr header" "bs = header @ body" "m' = ?m"
    using assms g gs(1) by (auto simp: message_pack_def Let_def)
  have "query_data ?m ?tr = query_data m ?tr" by (simp add: query_data_def)
  with h gs(2-5) have p: "pack_struct [2, 2, 2, 2, 2, 2] ([query_id m, query_data m ?tr] @ map (int \<circ> length) (message_groups m)) = Inr header"
    by (simp add: message_header_def message_groups_def del: pack_struct.simps)
  show ?thesis using unpack_pack_prefix [OF p, of 12 body] h(2,3) by simp
qed

section \<open>An example\<close>

lemma be_widths:
  "be_bytes 1 v = [word_of_nat (v mod 256)]" "be_bytes 2 v = [word_of_nat (v div 256 mod 256), word_of_nat (v mod 256)]"
  "be_bytes 4 v = [word_of_nat (v div 16777216 mod 256), word_of_nat (v div 65536 mod 256), word_of_nat (v div 256 mod 256),
     word_of_nat (v mod 256)]"
proof -
  have n: "(4 :: nat) = Suc (Suc (Suc (Suc 0)))" "(2 :: nat) = Suc (Suc 0)" by simp_all
  show "be_bytes 1 v = [word_of_nat (v mod 256)]" by simp
  show "be_bytes 2 v = [word_of_nat (v div 256 mod 256), word_of_nat (v mod 256)]" unfolding n be_bytes.simps by simp
  show "be_bytes 4 v = [word_of_nat (v div 16777216 mod 256), word_of_nat (v div 65536 mod 256), word_of_nat (v div 256 mod 256),
     word_of_nat (v mod 256)]"
    unfolding n be_bytes.simps by (simp add: div_mult2_eq [symmetric])
qed

lemma example_address:
  "inet_aton [49, 46, 50, 46, 51, 46, 52] = Inr [1, 2, 3, 4]" "inet_ntoa [1, 2, 3, 4] = Inr [49, 46, 50, 46, 51, 46, 52]"
proof -
  have n: "(3 :: nat) = Suc (Suc (Suc 0))" by simp
  show "inet_ntoa [1, 2, 3, 4] = Inr [49, 46, 50, 46, 51, 46, 52]" unfolding inet_ntoa_def n by simp
  have "aton_parts (Suc (Suc (Suc (Suc 0)))) [49, 46, 50, 46, 51, 46, 52] = Some ([1, 2, 3, 4], [])"
    by (simp add: scan_c_number_def digit_val_def is_decimal_def Let_def)
  then have "aton_parts 4 [49, 46, 50, 46, 51, 46, 52] = Some ([1, 2, 3, 4], [])" by (simp add: numeral_eq_Suc)
  then show "inet_aton [49, 46, 50, 46, 51, 46, 52] = Inr [1, 2, 3, 4]" by (simp add: inet_aton_def be_widths)
qed

text \<open>A question for \<open>a.b\<close>, answered with an alias, the address of the alias and a mail exchange.\<close>

definition example_response :: "bytes \<Rightarrow> record_data \<Rightarrow> dns_record" where
  "example_response name d =
     (Record_init (QueryEnum RESPONSE) 0)\<lparr>rec_name := name, rec_type := Some (data_type d), rec_ttl := 300, rec_data := Some d\<rparr>"

definition example_dns :: dns_message where
  "example_dns = DNSMessage_init\<lparr>query_type := RESPONSE, query_id := 7,
     query_domains := [(Record_init (QueryEnum REQUEST) 0)\<lparr>rec_name := [97, 46, 98]\<rparr>],
     query_answers := [example_response [97, 46, 98] (CNAMERecordData [99, 46, 98]),
       example_response [99, 46, 98] (ARecordData [49, 46, 50, 46, 51, 46, 52]),
       example_response [97, 46, 98] (MXRecordData 5 [99, 46, 98])]\<rparr>"

lemma example_dns_packs: "\<exists>m' bs. message_pack example_dns None 100 = Inr (m', bs)"
  by (simp add: message_pack_def message_groups_def example_dns_def DNSMessage_init_def record_pack_def Record_init_def
      pack_domain_name_def pack_string_def example_response_def pack_data_def age_def remaining_ttl_def be_widths
      pack_be_def message_header_def query_data_def example_address dump_defs Let_def)

lemma example_dns_ok: "\<forall>g \<in> set (message_groups example_dns). list_all (\<lambda>r. record_ok r \<or> question_ok r) g"
  by (simp add: message_groups_def example_dns_def DNSMessage_init_def Record_init_def example_response_def record_ok_def
      question_ok_def domain_ok_def label_ok_def example_address)

section \<open>Properties\<close>



text \<open>A message with a question or any other record cannot be parsed: parsing raises
  AttributeError on every message that was packed from at least one record.\<close>

theorem dns_parse_raises:
  assumes "message_pack m limit now = Inr (m', bs)" "concat (message_groups m) \<noteq> []"
  shows "message_parse bs None now' = Inl AttributeError"
proof -
  have e: "parse_entry (QueryInt q) bs pos n now' = (if n = 0 then Inr (pos, []) else Inl AttributeError)" for q pos n
    by (cases n) simp_all
  have "\<exists>g \<in> set (message_groups m). g \<noteq> []" using assms(2) by auto
  then show ?thesis using message_pack_header [OF assms(1)]
    by (auto simp: message_parse_def message_groups_def e Let_def split: prod.splits)
qed

theorem dns_parse_raises_witness:
  "\<exists>m' bs. message_pack example_dns None 100 = Inr (m', bs) \<and> message_parse bs None 500 = Inl AttributeError"
proof -
  obtain m' bs where p: "message_pack example_dns None 100 = Inr (m', bs)" using example_dns_packs by blast
  have "concat (message_groups example_dns) \<noteq> []" by (simp add: message_groups_def example_dns_def)
  from dns_parse_raises [OF p this] p show ?thesis by blast
qed

text \<open>The flags of a message without records survive packing and parsing; its id does not.\<close>

theorem dns_header_roundtrip:
  assumes "flags_ok m" "0 \<le> query_id m" "query_id m < 65536" "concat (message_groups m) = []"
  shows "\<exists>bs. message_pack m None now = Inr (m\<lparr>query_truncation := 0\<rparr>, bs) \<and> length bs = 12 \<and>
    message_parse bs None now' = Inr (m\<lparr>query_id := 0, query_truncation := 0\<rparr>)"
proof -
  have e: "query_domains m = []" "query_answers m = []" "query_namservers m = []" "query_additional_records m = []"
    using assms(4) by (auto simp: message_groups_def)
  let ?m = "m\<lparr>query_truncation := 0\<rparr>"
  have f: "0 \<le> query_opcode m" "query_opcode m < 16" "query_authoritative_answer m \<in> {0, 1}" "query_desired_recursion m \<in> {0, 1}"
    "query_available_recursion m \<in> {0, 1}" "0 \<le> query_result_code m" "query_result_code m < 16" "query_type_value (query_type m) \<in> {0, 1}"
    using assms(1) by (cases "query_type m"; simp add: flags_ok_def)+
  then have q: "0 \<le> query_data m 0" "query_data m 0 < 65536" by (auto simp: query_data_fields)
  then obtain h where h: "pack_struct [2, 2, 2, 2, 2, 2] [query_id m, query_data m 0, 0, 0, 0, 0] = Inr h"
    using pack_struct_ok [of "[2, 2, 2, 2, 2, 2]" "[query_id m, query_data m 0, 0, 0, 0, 0]"] assms(2,3) by auto
  have m: "m\<lparr>query_truncation := 0, query_domains := [], query_answers := [], query_namservers := [], query_additional_records := []\<rparr> = ?m"
    using e by simp
  have pk: "message_pack m None now = Inr (?m, h)"
    using h e m by (simp add: message_pack_def message_groups_def message_header_def query_data_def Let_def del: pack_struct.simps)
  define d5 where "d5 = query_type_value (query_type m) * 2 ^ 4 + query_opcode m"
  define d4 where "d4 = d5 * 2 ^ 1 + query_authoritative_answer m"
  define d3 where "d3 = d4 * 2 ^ 1 + (0 :: int)"
  define d2 where "d2 = d3 * 2 ^ 1 + query_desired_recursion m"
  define d1 where "d1 = d2 * 2 ^ 1 + query_available_recursion m"
  define d0 where "d0 = d1 * 2 ^ 3 + (0 :: int)"
  have d: "query_data m 0 = d0 * 2 ^ 4 + query_result_code m"
    unfolding query_data_fields d0_def d1_def d2_def d3_def d4_def d5_def by (rule refl)
  have bits: "get_bits (query_data m 0) 4 = (query_result_code m, d0)" "get_bits d0 3 = (0, d1)"
    "get_bits d1 1 = (query_available_recursion m, d2)" "get_bits d2 1 = (query_desired_recursion m, d3)"
    "get_bits d3 1 = (0, d4)" "get_bits d4 1 = (query_authoritative_answer m, d5)"
    "get_bits d5 4 = (query_opcode m, query_type_value (query_type m))"
    "get_bits (0 * 2 ^ 1 + query_type_value (query_type m)) 1 = (query_type_value (query_type m), 0)"
    unfolding d d0_def d1_def d2_def d3_def d4_def d5_def by (rule get_bits_field; use f in auto)+
  have u: "unpack_struct [2, 2, 2, 2, 2, 2] (take 12 h) = Inr [query_id m, query_data m 0, 0, 0, 0, 0]" "length h = 12"
    using message_pack_header [OF pk] e pack_struct_length [OF h] by (simp_all add: message_groups_def)
  have "query_by_value (query_type_value (query_type m)) = query_type m" by (cases "query_type m") (simp_all add: query_by_value_def)
  then have "message_parse h None now' = Inr (m\<lparr>query_id := 0, query_truncation := 0\<rparr>)"
    using u(1) bits e by (simp add: message_parse_def Let_def DNSMessage_init_def)
  with pk u(2) show ?thesis by blast
qed

theorem dns_header_roundtrip_witness:
  "\<exists>bs. message_pack (DNSMessage_init\<lparr>query_id := 9, query_opcode := 2, query_desired_recursion := 1\<rparr>) None 0 =
       Inr (DNSMessage_init\<lparr>query_id := 9, query_opcode := 2, query_desired_recursion := 1, query_truncation := 0\<rparr>, bs) \<and>
     message_parse bs None 0 = Inr (DNSMessage_init\<lparr>query_opcode := 2, query_desired_recursion := 1\<rparr>)"
  using dns_header_roundtrip [of "DNSMessage_init\<lparr>query_id := 9, query_opcode := 2, query_desired_recursion := 1\<rparr>" 0 0]
  by (auto simp: flags_ok_def DNSMessage_init_def message_groups_def)

text \<open>A name that is empty or ends with a dot is packed with two zero bytes, of which the loader
  reads one: whatever follows is read one byte too early.\<close>

theorem empty_name_misread:
  assumes "names [] = None"
  shows "snd (pack_domain_name [] names (length buf)) = Inr [0, 0]"
    "load_domain_name (buf @ [0, 0] @ rest) (length buf) = Inr (length buf + 1, [])"
proof -
  show "snd (pack_domain_name [] names (length buf)) = Inr [0, 0]"
    using assms by (simp add: pack_domain_name_def pack_string_def pack_be_def)
  have "name_at (buf @ [0, 0] @ rest) (length buf) [] 0 (length buf + 1)" by (rule name_end) simp_all
  then show "load_domain_name (buf @ [0, 0] @ rest) (length buf) = Inr (length buf + 1, [])"
    using load_domain_name_at by fastforce
qed

end
