(* ===== verification/Dns_Cache.thy ===== *)
theory Dns_Cache
  imports Complex_Main Dns_Message "HOL-Library.AList"
begin

text \<open>
  The cache of the resolver (\<open>discovery/dns/core/cache\<close>) and the part of \<open>BaseResolver\<close>
  (\<open>resolver/base_resolver.py\<close>) that answers from it. A dictionary is an association list in
  insertion order; nodes are values and an update rebuilds the path to the node. The time
  \<open>time.time()\<close> of a call is a real, read once; \<open>int(time.time())\<close> is its floor. Records are
  compared by their data; the type inside unsupported data takes part in the comparison here.
\<close>

section \<open>Cache values\<close>

type_synonym cache_value = "(record_type option \<times> (record_data option \<times> dns_record) list) list"

definition check_ttl :: "real \<Rightarrow> dns_record \<Rightarrow> bool" where
  "check_ttl t r \<longleftrightarrow> rec_ttl r < 0 \<or> real_of_int (rec_timestamp r + rec_ttl r) \<ge> t"

text \<open>\<open>get\<close> of one type: expired records are removed, the others are the result.\<close>

definition live_entries :: "real \<Rightarrow> (record_data option \<times> dns_record) list \<Rightarrow> (record_data option \<times> dns_record) list" where
  "live_entries t rs = filter (\<lambda>(d, r). check_ttl t r) rs"

definition value_get_type :: "real \<Rightarrow> cache_value \<Rightarrow> record_type option \<Rightarrow> cache_value \<times> dns_record list" where
  "value_get_type t v ty =
     (case map_of v ty of
        None \<Rightarrow> (v, [])
      | Some rs \<Rightarrow> (AList.update ty (live_entries t rs) v, map snd (live_entries t rs)))"

fun value_get_types :: "real \<Rightarrow> cache_value \<Rightarrow> record_type option list \<Rightarrow> cache_value \<times> dns_record list" where
  "value_get_types t v [] = (v, [])"
| "value_get_types t v (ty # tys) =
     (case value_get_type t v ty of
        (v, rs) \<Rightarrow> (case value_get_types t v tys of (v, rs') \<Rightarrow> (v, rs @ rs')))"

text \<open>\<open>ANY\<close> asks for every type in turn, and for itself without end when a record has that type.\<close>

definition value_get :: "real \<Rightarrow> cache_value \<Rightarrow> record_type option \<Rightarrow> cache_value \<times> dns_record list res" where
  "value_get t v ty =
     (if ty = Some T_ANY
      then (if ty \<in> set (map fst v) then (v, Inl (GenericException ''RecursionError''))
            else (case value_get_types t v (map fst v) of (v, rs) \<Rightarrow> (v, Inr rs)))
      else (case value_get_type t v ty of (v, rs) \<Rightarrow> (v, Inr rs)))"

definition value_add :: "real \<Rightarrow> cache_value \<Rightarrow> dns_record \<Rightarrow> cache_value" where
  "value_add t v r =
     (if check_ttl t r
      then AList.update (rec_type r)
             (AList.update (rec_data r) r (case map_of v (rec_type r) of None \<Rightarrow> [] | Some rs \<Rightarrow> rs)) v
      else v)"

section \<open>Cache nodes\<close>

datatype cache_node = CacheNode (children: "(bytes \<times> cache_node) list") (node_data: cache_value)

definition CacheNode_init :: cache_node where
  "CacheNode_init = CacheNode [] []"

definition star :: bytes where "star = [42]"

text \<open>The key under which a label is found: its own, or the wildcard.\<close>

definition child_key :: "cache_node \<Rightarrow> bytes \<Rightarrow> bytes option" where
  "child_key n k =
     (if map_of (children n) k \<noteq> None then Some k
      else if map_of (children n) star \<noteq> None then Some star else None)"

definition child_at :: "cache_node \<Rightarrow> bytes \<Rightarrow> cache_node option" where
  "child_at n k = Option.bind (child_key n k) (map_of (children n))"

fun node_get :: "cache_node \<Rightarrow> bytes list \<Rightarrow> cache_value option" where
  "node_get n [] = Some (node_data n)"
| "node_get n (k # ks) = (case child_at n k of None \<Rightarrow> None | Some c \<Rightarrow> node_get c ks)"

text \<open>A change of the value that \<open>get\<close> returns; \<open>touch\<close> creates the missing nodes.\<close>

fun node_modify :: "bool \<Rightarrow> (cache_value \<Rightarrow> cache_value) \<Rightarrow> cache_node \<Rightarrow> bytes list \<Rightarrow> cache_node" where
  "node_modify touch f n [] = CacheNode (children n) (f (node_data n))"
| "node_modify touch f n (k # ks) =
     (case child_key n k of
        Some key \<Rightarrow>
          CacheNode (AList.update key (node_modify touch f (the (map_of (children n) key)) ks) (children n)) (node_data n)
      | None \<Rightarrow>
          (if touch then CacheNode (AList.update k (node_modify touch f CacheNode_init ks) (children n)) (node_data n)
           else n))"

definition name_path :: "bytes \<Rightarrow> bytes list" where
  "name_path fqdn = rev (split_dot fqdn)"

definition cache_add :: "real \<Rightarrow> cache_node \<Rightarrow> dns_record \<Rightarrow> cache_node" where
  "cache_add t n r = node_modify True (\<lambda>v. value_add t v r) n (name_path (rec_name r))"

definition cache_query :: "real \<Rightarrow> cache_node \<Rightarrow> bytes \<Rightarrow> record_type \<Rightarrow> cache_node \<times> dns_record list res" where
  "cache_query t n fqdn ty =
     (case node_get n (name_path fqdn) of
        None \<Rightarrow> (n, Inr [])
      | Some v \<Rightarrow>
          (case value_get t v (Some ty) of
             (v, r) \<Rightarrow> (node_modify False (\<lambda>_. v) n (name_path fqdn), r)))"

fun cache_query_all :: "real \<Rightarrow> cache_node \<Rightarrow> bytes \<Rightarrow> record_type list \<Rightarrow> cache_node \<times> dns_record list res" where
  "cache_query_all t n fqdn [] = (n, Inr [])"
| "cache_query_all t n fqdn (ty # tys) =
     (case cache_query t n fqdn ty of
        (n, Inl err) \<Rightarrow> (n, Inl err)
      | (n, Inr rs) \<Rightarrow>
          (case cache_query_all t n fqdn tys of (n, r) \<Rightarrow> (n, rbind r (\<lambda>rs'. Inr (rs @ rs')))))"

section \<open>Answering from the cache\<close>

text \<open>\<open>Record.copy\<close> with a new name: the copy gets a new timestamp.\<close>

definition copy_record :: "real \<Rightarrow> bytes \<Rightarrow> dns_record \<Rightarrow> dns_record" where
  "copy_record t name r = r\<lparr>rec_name := name, rec_timestamp := \<lfloor>t\<rfloor>\<rparr>"

text \<open>\<open>isinstance(record.data, ...)\<close> together with the name inside the data.\<close>

definition cname_of :: "dns_record \<Rightarrow> bytes option" where
  "cname_of r = (case rec_data r of Some (CNAMERecordData c) \<Rightarrow> Some c | _ \<Rightarrow> None)"

definition ns_of :: "dns_record \<Rightarrow> bytes option" where
  "ns_of r = (case rec_data r of Some (NSRecordData c) \<Rightarrow> Some c | _ \<Rightarrow> None)"

text \<open>The loop of \<open>_add_cache_cname\<close>: it stops at the first alias, later entries are not looked at.\<close>

fun scan_cnames :: "real \<Rightarrow> bytes \<Rightarrow> (record_data option \<times> dns_record) list \<Rightarrow>
    (record_data option \<times> dns_record) list \<times> dns_record list \<times> bytes option" where
  "scan_cnames t fqdn [] = ([], [], None)"
| "scan_cnames t fqdn ((d, r) # rs) =
     (if check_ttl t r
      then (case cname_of r of
              Some c \<Rightarrow> ((d, r) # rs, [copy_record t fqdn r], Some c)
            | None \<Rightarrow> (case scan_cnames t fqdn rs of
                     (rs, answers, c) \<Rightarrow> ((d, r) # rs, copy_record t fqdn r # answers, c)))
      else scan_cnames t fqdn rs)"

definition add_cache_cname :: "real \<Rightarrow> cache_node \<Rightarrow> dns_message \<Rightarrow> bytes \<Rightarrow> cache_node \<times> dns_message \<times> bytes option" where
  "add_cache_cname t n m fqdn =
     (case node_get n (name_path fqdn) of
        None \<Rightarrow> (n, m, None)
      | Some v \<Rightarrow>
          (case map_of v (Some T_CNAME) of
             None \<Rightarrow> (n, m, None)
           | Some rs \<Rightarrow>
               (case scan_cnames t fqdn rs of
                  (rs, answers, c) \<Rightarrow>
                    (node_modify False (AList.update (Some T_CNAME) rs) n (name_path fqdn),
                     m\<lparr>query_answers := query_answers m @ answers\<rparr>, c))))"

text \<open>The loop over the answers in \<open>_add_cache_qtype\<close>.\<close>

fun add_answers :: "real \<Rightarrow> cache_node \<Rightarrow> dns_message \<Rightarrow> bytes \<Rightarrow> bool \<Rightarrow> dns_record list \<Rightarrow>
    cache_node \<times> dns_message \<times> bool res" where
  "add_answers t n m fqdn has [] = (n, m, Inr has)"
| "add_answers t n m fqdn has (r # rs) =
     (case ns_of r of
        Some name \<Rightarrow>
          (case cache_query_all t n name [T_A, T_AAAA] of
             (n, Inl err) \<Rightarrow> (n, m, Inl err)
           | (n, Inr records) \<Rightarrow>
               (if records \<noteq> []
                then add_answers t n
                       (m\<lparr>query_additional_records := query_additional_records m @ records,
                          query_namservers := query_namservers m @ [r]\<rparr>) fqdn True rs
                else add_answers t n m fqdn has rs))
      | None \<Rightarrow> add_answers t n (m\<lparr>query_answers := query_answers m @ [copy_record t fqdn r]\<rparr>) fqdn True rs)"

definition add_cache_qtype :: "real \<Rightarrow> cache_node \<Rightarrow> dns_message \<Rightarrow> bytes \<Rightarrow> record_type \<Rightarrow>
    cache_node \<times> dns_message \<times> bool res" where
  "add_cache_qtype t n m fqdn ty =
     (if ty = T_CNAME then (n, m, Inr False)
      else (case cache_query t n fqdn ty of
              (n, Inl err) \<Rightarrow> (n, m, Inl err)
            | (n, Inr rs) \<Rightarrow> add_answers t n m fqdn False rs))"

section \<open>Alias targets\<close>

text \<open>The targets of the aliases at or below a node: following aliases ends because they are finitely many.\<close>

definition record_targets :: "dns_record \<Rightarrow> bytes set" where
  "record_targets r = set_option (cname_of r)"

definition value_targets :: "cache_value \<Rightarrow> bytes set" where
  "value_targets v = (\<Union>x \<in> set v. \<Union>y \<in> set (snd x). record_targets (snd y))"

fun targets :: "cache_node \<Rightarrow> bytes set" where
  "targets (CacheNode cs v) = value_targets v \<union> (\<Union>x \<in> set cs. targets (snd x))"

lemma finite_targets [simp]: "finite (targets n)"
proof (induction n rule: targets.induct)
  case (1 cs v)
  have "finite (record_targets r)" for r by (simp add: record_targets_def)
  then show ?case using 1 by (simp add: value_targets_def)
qed

lemma update_set: "x \<in> set (AList.update k v xs) \<Longrightarrow> x \<in> set xs \<or> x = (k, v)"
  by (induction xs) (auto split: if_splits)

lemma targets_child: "map_of (children n) k = Some c \<Longrightarrow> targets c \<subseteq> targets n"
  by (cases n) (fastforce dest: map_of_SomeD)

lemma targets_node_get: "node_get n ks = Some v \<Longrightarrow> value_targets v \<subseteq> targets n"
proof (induction ks arbitrary: n)
  case Nil
  then show ?case by (cases n) auto
next
  case (Cons k ks)
  then obtain c where c: "child_at n k = Some c" "node_get c ks = Some v" by (auto split: option.splits)
  then obtain key where "map_of (children n) key = Some c" by (auto simp: child_at_def bind_eq_Some_conv)
  from targets_child [OF this] Cons.IH [OF c(2)] show ?case by blast
qed

lemma targets_modify:
  assumes "\<And>v. node_get n ks = Some v \<Longrightarrow> value_targets (f v) \<subseteq> value_targets v"
  shows "targets (node_modify False f n ks) \<subseteq> targets n"
  using assms
proof (induction ks arbitrary: n)
  case Nil
  then show ?case by (cases n) auto
next
  case (Cons k ks)
  show ?case
  proof (cases "child_key n k")
    case (Some key)
    then obtain c where c: "map_of (children n) key = Some c" by (auto simp: child_key_def split: if_splits)
    then have "child_at n k = Some c" using Some by (simp add: child_at_def)
    then have ih: "targets (node_modify False f c ks) \<subseteq> targets c" using Cons by simp
    have "targets (snd x) \<subseteq> targets n" if "x \<in> set (AList.update key (node_modify False f c ks) (children n))" for x
      using update_set [OF that] ih targets_child [OF c] by (cases n) auto
    then show ?thesis using Some c by (cases n) auto
  qed simp
qed

lemma scan_cnames_targets:
  "scan_cnames t fqdn rs = (rs', answers, c) \<Longrightarrow>
     set rs' \<subseteq> set rs \<and> (\<forall>x. c = Some x \<longrightarrow> x \<in> (\<Union>y \<in> set rs. record_targets (snd y)))"
proof (induction rs arbitrary: rs' answers)
  case (Cons y rs)
  obtain d r where y: "y = (d, r)" by fastforce
  obtain rs1 a1 c1 where s: "scan_cnames t fqdn rs = (rs1, a1, c1)" by (metis prod_cases3)
  show ?case
  proof (cases "check_ttl t r")
    case True
    then show ?thesis using Cons y s by (cases "cname_of r") (auto simp: record_targets_def)
  next
    case False
    then have "scan_cnames t fqdn rs = (rs', answers, c)" using Cons.prems y by simp
    from Cons.IH [OF this] show ?thesis by auto
  qed
qed simp

lemma value_targets_entry: "map_of v ty = Some rs \<Longrightarrow> y \<in> set rs \<Longrightarrow> record_targets (snd y) \<subseteq> value_targets v"
  using map_of_SomeD [of v ty rs] unfolding value_targets_def by force

lemma value_targets_update:
  assumes "map_of v ty = Some rs" "set rs' \<subseteq> set rs"
  shows "value_targets (AList.update ty rs' v) \<subseteq> value_targets v"
proof
  fix c
  assume "c \<in> value_targets (AList.update ty rs' v)"
  then obtain x y where x: "x \<in> set (AList.update ty rs' v)" "y \<in> set (snd x)" "c \<in> record_targets (snd y)"
    by (auto simp: value_targets_def)
  from update_set [OF x(1)] show "c \<in> value_targets v"
  proof
    assume "x \<in> set v"
    with x(2,3) show ?thesis unfolding value_targets_def by blast
  next
    assume "x = (ty, rs')"
    with x(2) assms(2) have "y \<in> set rs" by auto
    with value_targets_entry [OF assms(1)] x(3) show ?thesis by blast
  qed
qed

lemma add_cache_cname_targets:
  assumes "add_cache_cname t n m fqdn = (n', m', c)"
  shows "targets n' \<subseteq> targets n" "c = Some x \<Longrightarrow> x \<in> targets n"
proof -
  have "targets n' \<subseteq> targets n \<and> (c = Some x \<longrightarrow> x \<in> targets n)"
  proof (cases "node_get n (name_path fqdn)")
    case (Some v)
    show ?thesis
    proof (cases "map_of v (Some T_CNAME)")
      case rs: (Some rs)
      obtain rs' answers c' where sc: "scan_cnames t fqdn rs = (rs', answers, c')" by (metis prod_cases3)
      have u: "value_targets (AList.update (Some T_CNAME) rs' v) \<subseteq> value_targets v"
        by (rule value_targets_update [OF rs]) (use scan_cnames_targets [OF sc] in blast)
      have "targets (node_modify False (AList.update (Some T_CNAME) rs') n (name_path fqdn)) \<subseteq> targets n"
        by (rule targets_modify) (use Some u in simp)
      moreover have "x \<in> targets n" if "c' = Some x"
        using scan_cnames_targets [OF sc] that value_targets_entry [OF rs] targets_node_get [OF Some] by blast
      ultimately show ?thesis using assms Some rs sc by (auto simp: add_cache_cname_def)
    qed (use assms Some in \<open>auto simp: add_cache_cname_def\<close>)
  qed (use assms in \<open>auto simp: add_cache_cname_def\<close>)
  then show "targets n' \<subseteq> targets n" "c = Some x \<Longrightarrow> x \<in> targets n" by blast+
qed

section \<open>The query\<close>

function cname_loop :: "real \<Rightarrow> cache_node \<Rightarrow> dns_message \<Rightarrow> bytes \<Rightarrow> bytes set \<Rightarrow>
    cache_node \<times> dns_message \<times> bytes \<times> bytes option" where
  "cname_loop t n m fqdn cnames =
     (case add_cache_cname t n m fqdn of
        (n, m, None) \<Rightarrow> (n, m, fqdn, None)
      | (n, m, Some c) \<Rightarrow>
          (if c = [] then (n, m, fqdn, None)
           else if c \<in> cnames then (n, m, fqdn, Some c)
           else cname_loop t n m c (insert c cnames)))"
  by pat_completeness auto
termination
proof (relation "measure (\<lambda>(t, n, m, fqdn, cnames). card (targets n - cnames))")
  fix t n m fqdn cnames n' y m' z c
  assume a: "(n', y) = add_cache_cname t n m fqdn" "(m', z) = y" "z = Some c" "c \<noteq> []" "c \<notin> cnames"
  then have "add_cache_cname t n m fqdn = (n', m', Some c)" by simp
  note s = add_cache_cname_targets(1) [OF this] add_cache_cname_targets(2) [OF this refl]
  then have "targets n' - insert c cnames \<subset> targets n - cnames" using a(5) by blast
  then have "card (targets n' - insert c cnames) < card (targets n - cnames)" by (intro psubset_card_mono) auto
  then show "((t, n', m', c, insert c cnames), t, n, m, fqdn, cnames) \<in> measure (\<lambda>(t, n, m, fqdn, cnames). card (targets n - cnames))"
    by simp
qed simp

declare cname_loop.simps [simp del]

definition ends_with :: "bytes \<Rightarrow> bytes \<Rightarrow> bool" where
  "ends_with s suffix \<longleftrightarrow> length suffix \<le> length s \<and> drop (length s - length suffix) s = suffix"

text \<open>\<open>set_zone_domains\<close> strips the leading dots.\<close>

definition set_zone_domains :: "bytes list \<Rightarrow> bytes list" where
  "set_zone_domains domains = map (dropWhile (\<lambda>c. c = 46)) domains"

definition query_cache :: "real \<Rightarrow> bytes list \<Rightarrow> cache_node \<Rightarrow> dns_message \<Rightarrow> bytes \<Rightarrow> record_type \<Rightarrow>
    cache_node \<times> dns_message \<times> (bool \<times> bytes) res" where
  "query_cache t zone_domains n m fqdn ty =
     (case cname_loop t n m fqdn {} of
        (n, m, fqdn, cname) \<Rightarrow>
          (let has_result = (cname \<noteq> None \<and> ty \<in> {T_CNAME, T_ANY})
           in case (if ty \<noteq> T_CNAME then add_cache_qtype t n m fqdn ty else (n, m, Inr False)) of
                (n, m, Inl err) \<Rightarrow> (n, m, Inl err)
              | (n, m, Inr found) \<Rightarrow>
                  (let has_result = (found \<or> has_result)
                   in if \<exists>root \<in> set zone_domains. ends_with (46 # fqdn) root
                      then (n, (if has_result then m else m\<lparr>query_result_code := 3\<rparr>)\<lparr>query_authoritative_answer := 1\<rparr>,
                            Inr (True, fqdn))
                      else (n, m, Inr (has_result, fqdn)))))"

section \<open>What a value holds\<close>

definition value_lookup :: "cache_value \<Rightarrow> record_type option \<Rightarrow> record_data option \<Rightarrow> dns_record option" where
  "value_lookup v ty d = Option.bind (map_of v ty) (\<lambda>rs. map_of rs d)"

definition value_ok :: "cache_value \<Rightarrow> bool" where
  "value_ok v \<longleftrightarrow> (\<forall>x \<in> set v. distinct (map fst (snd x)))"

lemma value_ok_add: "value_ok v \<Longrightarrow> value_ok (value_add t v r)"
proof -
  assume v: "value_ok v"
  have "distinct (map fst (AList.update (rec_data r) r (case map_of v (rec_type r) of None \<Rightarrow> [] | Some rs \<Rightarrow> rs)))"
    using v by (intro distinct_update) (fastforce simp: value_ok_def dest: map_of_SomeD split: option.split)
  then show ?thesis using v update_set by (fastforce simp: value_ok_def value_add_def)
qed

lemma value_lookup_add:
  "value_lookup (value_add t v r) ty d =
     (if check_ttl t r \<and> ty = rec_type r \<and> d = rec_data r then Some r else value_lookup v ty d)"
  by (auto simp: value_lookup_def value_add_def update_conv' split: option.splits)

lemma value_get_type_records:
  assumes "value_ok v"
  shows "set (snd (value_get_type t v ty)) = {r. \<exists>d. value_lookup v ty d = Some r \<and> check_ttl t r}"
proof (cases "map_of v ty")
  case (Some rs)
  then have "distinct (map fst rs)" using assms by (fastforce simp: value_ok_def dest: map_of_SomeD)
  then show ?thesis using Some by (force simp: value_get_type_def live_entries_def value_lookup_def)
qed (simp add: value_get_type_def value_lookup_def)

section \<open>What a cache holds\<close>

definition cache_view :: "cache_node \<Rightarrow> bytes \<Rightarrow> cache_value" where
  "cache_view n name = (case node_get n (name_path name) of None \<Rightarrow> [] | Some v \<Rightarrow> v)"

fun star_free :: "cache_node \<Rightarrow> bool" where
  "star_free (CacheNode cs v) \<longleftrightarrow> (\<forall>x \<in> set cs. fst x \<noteq> star \<and> star_free (snd x))"

lemma star_free_key: "star_free n \<Longrightarrow> child_key n k = (if map_of (children n) k \<noteq> None then Some k else None)"
  by (cases n) (fastforce simp: child_key_def dest: map_of_SomeD)

lemma star_free_child: "star_free n \<Longrightarrow> map_of (children n) k = Some c \<Longrightarrow> star_free c"
  by (cases n) (fastforce dest: map_of_SomeD)

lemma star_free_init [simp]: "star_free CacheNode_init"
  by (simp add: CacheNode_init_def)

lemma star_free_modify: "star_free n \<Longrightarrow> star \<notin> set ks \<Longrightarrow> star_free (node_modify True f n ks)"
proof (induction ks arbitrary: n)
  case Nil
  then show ?case by (cases n) simp
next
  case (Cons k ks)
  let ?c = "case map_of (children n) k of None \<Rightarrow> CacheNode_init | Some c \<Rightarrow> c"
  have "star_free ?c" using Cons.prems star_free_child by (simp split: option.split)
  then have "star_free (node_modify True f ?c ks)" using Cons by simp
  then have "star_free (CacheNode (AList.update k (node_modify True f ?c ks) (children n)) (node_data n))"
    using Cons.prems by (cases n) (auto dest!: update_set)
  then show ?case using Cons.prems by (auto simp: star_free_key split: option.splits)
qed

text \<open>Changing the value at a path changes what is found there and nothing else.\<close>

definition value_at :: "cache_node \<Rightarrow> bytes list \<Rightarrow> cache_value" where
  "value_at n ks = (case node_get n ks of None \<Rightarrow> [] | Some v \<Rightarrow> v)"

lemma value_at_init [simp]: "value_at CacheNode_init ks = []"
  by (cases ks) (simp_all add: value_at_def CacheNode_init_def child_at_def child_key_def)

lemma value_at_Cons: "star_free n \<Longrightarrow> value_at n (k # ks) = (case map_of (children n) k of None \<Rightarrow> [] | Some c \<Rightarrow> value_at c ks)"
  by (auto simp: value_at_def child_at_def star_free_key split: option.split)

lemma value_at_modify:
  "star_free n \<Longrightarrow> star \<notin> set ks \<Longrightarrow>
     value_at (node_modify True f n ks) ls = (if ls = ks then f (value_at n ks) else value_at n ls)"
proof (induction ks arbitrary: n ls)
  case Nil
  then show ?case
    by (cases ls; cases n) (simp_all add: value_at_def child_at_def child_key_def)
next
  case (Cons k ks)
  let ?c = "case map_of (children n) k of None \<Rightarrow> CacheNode_init | Some c \<Rightarrow> c"
  have c: "star_free ?c" using Cons.prems star_free_child by (simp split: option.split)
  have m: "node_modify True f n (k # ks) = CacheNode (AList.update k (node_modify True f ?c ks) (children n)) (node_data n)"
    using Cons.prems by (auto simp: star_free_key split: option.splits)
  have sf: "star_free (node_modify True f n (k # ks))" by (rule star_free_modify [OF Cons.prems])
  show ?case
  proof (cases ls)
    case Nil
    then show ?thesis using m by (simp add: value_at_def)
  next
    case (Cons l ls')
    have 1: "value_at ?c ks' = value_at n (k # ks')" for ks'
      using Cons.prems by (simp add: value_at_Cons split: option.split)
    have "value_at (node_modify True f n (k # ks)) (l # ls') =
      (if l = k then value_at (node_modify True f ?c ks) ls' else value_at n (l # ls'))"
      unfolding value_at_Cons [OF sf] value_at_Cons [OF Cons.prems(1)] unfolding m by (simp add: update_conv')
    also have "\<dots> = (if l = k then (if ls' = ks then f (value_at n (k # ks)) else value_at n (k # ls')) else value_at n (l # ls'))"
      using Cons.IH [OF c, of ls'] Cons.prems(2) 1 by simp
    finally show ?thesis using Cons by auto
  qed
qed

text \<open>
  The contract of a store of records: adding a record changes the value of its own name by
  \<open>combine\<close> and leaves the others alone.
\<close>

locale record_store =
  fixes good :: "'s \<Rightarrow> bool" and admissible :: "'r \<Rightarrow> bool" and key_of :: "'r \<Rightarrow> 'k" and view :: "'s \<Rightarrow> 'k \<Rightarrow> 'v"
    and put :: "'s \<Rightarrow> 'r \<Rightarrow> 's" and combine :: "'v \<Rightarrow> 'r \<Rightarrow> 'v"
  assumes put_good: "good s \<Longrightarrow> admissible r \<Longrightarrow> good (put s r)"
    and put_view: "good s \<Longrightarrow> admissible r \<Longrightarrow>
      view (put s r) k = (if k = key_of r then combine (view s k) r else view s k)"
begin

lemma puts_good: "good s \<Longrightarrow> \<forall>r \<in> set rs. admissible r \<Longrightarrow> good (foldl put s rs)"
  by (induction rs arbitrary: s) (auto simp: put_good)

lemma puts_view:
  "good s \<Longrightarrow> \<forall>r \<in> set rs. admissible r \<Longrightarrow>
     view (foldl put s rs) k = foldl combine (view s k) (filter (\<lambda>r. key_of r = k) rs)"
  by (induction rs arbitrary: s) (auto simp: put_good put_view)

end

text \<open>Additions with their times.\<close>

definition add_timed :: "cache_node \<Rightarrow> real \<times> dns_record \<Rightarrow> cache_node" where
  "add_timed n x = cache_add (fst x) n (snd x)"

definition value_add_timed :: "cache_value \<Rightarrow> real \<times> dns_record \<Rightarrow> cache_value" where
  "value_add_timed v x = value_add (fst x) v (snd x)"

definition plain_name :: "real \<times> dns_record \<Rightarrow> bool" where
  "plain_name x \<longleftrightarrow> star \<notin> set (split_dot (rec_name (snd x)))"

lemma name_path_inj: "name_path a = name_path b \<longleftrightarrow> a = b"
  by (metis join_split_dot name_path_def rev_rev_ident)

interpretation cache: record_store star_free plain_name "\<lambda>x. rec_name (snd x)" cache_view add_timed value_add_timed
proof
  fix n x k
  assume n: "star_free n" "plain_name x"
  then have p: "star \<notin> set (name_path (rec_name (snd x)))" by (simp add: plain_name_def name_path_def)
  show "star_free (add_timed n x)"
    unfolding add_timed_def cache_add_def by (rule star_free_modify [OF n(1) p])
  have v: "cache_view n k = value_at n (name_path k)" for n k by (simp add: cache_view_def value_at_def)
  show "cache_view (add_timed n x) k = (if k = rec_name (snd x) then value_add_timed (cache_view n k) x else cache_view n k)"
    unfolding v add_timed_def cache_add_def value_at_modify [OF n(1) p] by (auto simp: name_path_inj value_add_timed_def)
qed

lemma value_lookup_adds:
  "value_lookup (foldl value_add_timed v xs) ty d =
     (case find (\<lambda>x. check_ttl (fst x) (snd x) \<and> rec_type (snd x) = ty \<and> rec_data (snd x) = d) (rev xs) of
        Some x \<Rightarrow> Some (snd x) | None \<Rightarrow> value_lookup v ty d)"
  by (induction xs rule: rev_induct) (auto simp: value_add_timed_def value_lookup_add)

lemma value_ok_adds: "value_ok v \<Longrightarrow> value_ok (foldl value_add_timed v xs)"
  by (induction xs rule: rev_induct) (simp_all add: value_add_timed_def value_ok_add)

section \<open>Wildcards\<close>

text \<open>Two labels that are both covered by the wildcard below a path share one node.\<close>

fun node_at :: "cache_node \<Rightarrow> bytes list \<Rightarrow> cache_node option" where
  "node_at n [] = Some n"
| "node_at n (k # ks) = Option.bind (child_at n k) (\<lambda>c. node_at c ks)"

lemma node_get_append: "node_get n (ks @ ls) = Option.bind (node_at n ks) (\<lambda>c. node_get c ls)"
  by (induction ks arbitrary: n) (auto split: option.split)

lemma child_key_SomeD: "child_key n k = Some key \<Longrightarrow> \<exists>c. map_of (children n) key = Some c"
  by (auto simp: child_key_def split: if_splits)

lemma child_at_modify:
  assumes "child_key n k = Some key" "child_key n l = Some key"
  shows "child_at (CacheNode (AList.update key c (children n)) v) l = Some c"
  using assms by (auto simp: child_at_def child_key_def update_conv' split: if_splits)

lemma modify_shared:
  assumes "node_at n ks = Some z" "child_key z k = Some star" "child_key z l = Some star"
  shows "node_get (node_modify touch f n (ks @ [k])) (ks @ [l]) = map_option f (node_get n (ks @ [l]))"
  using assms(1)
proof (induction ks arbitrary: n)
  case Nil
  obtain c where c: "map_of (children z) star = Some c" using child_key_SomeD [OF assms(2)] by blast
  with Nil assms(2,3) child_at_modify [OF assms(2,3)] show ?case by (simp add: child_at_def)
next
  case (Cons j ks)
  then obtain c where c: "child_at n j = Some c" "node_at c ks = Some z" by (auto simp: bind_eq_Some_conv)
  then obtain key where k: "child_key n j = Some key" "map_of (children n) key = Some c"
    by (auto simp: child_at_def bind_eq_Some_conv)
  with c Cons.IH [OF c(2)] child_at_modify [OF k(1) k(1)] show ?case by simp
qed

section \<open>Following aliases\<close>

text \<open>The alias of a name, as \<open>_add_cache_cname\<close> finds it.\<close>

definition alias_of :: "real \<Rightarrow> cache_node \<Rightarrow> bytes \<Rightarrow> bytes option" where
  "alias_of t n name = snd (snd (add_cache_cname t n DNSMessage_init name))"

definition first_alias :: "real \<Rightarrow> cache_value \<Rightarrow> bytes option" where
  "first_alias t v = Option.bind (map_of v (Some T_CNAME)) (\<lambda>rs. snd (snd (scan_cnames t [] rs)))"

lemma scan_cnames_alias: "snd (snd (scan_cnames t a rs)) = snd (snd (scan_cnames t [] rs))"
  by (induction rs) (auto split: option.split prod.split)

lemma scan_cnames_again: "snd (snd (scan_cnames t a (fst (scan_cnames t b rs)))) = snd (snd (scan_cnames t [] rs))"
proof (induction rs)
  case (Cons x rs)
  obtain d r where x: "x = (d, r)" by fastforce
  obtain r1 a1 c1 where "scan_cnames t b rs = (r1, a1, c1)" by (metis prod_cases3)
  with Cons x show ?case by (auto split: option.split prod.split)
qed simp

lemma add_cache_cname_alias: "snd (snd (add_cache_cname t n m name)) = Option.bind (node_get n (name_path name)) (first_alias t)"
  by (auto simp: add_cache_cname_def first_alias_def scan_cnames_alias [of t name] split: option.split prod.split dest: arg_cong [where f = "\<lambda>x. snd (snd x)"])

lemma alias_of_eq: "alias_of t n name = Option.bind (node_get n (name_path name)) (first_alias t)"
  by (simp add: alias_of_def add_cache_cname_alias)

text \<open>A change at one place that no alias depends on leaves all aliases as they are.\<close>

lemma node_get_modify_cases:
  "node_get (node_modify False f n ks) ls = node_get n ls \<or>
   (\<exists>v. node_get n ks = Some v \<and> node_get n ls = Some v \<and> node_get (node_modify False f n ks) ls = Some (f v))"
proof (induction ks arbitrary: n ls)
  case Nil
  then show ?case by (cases ls) (simp_all add: child_at_def child_key_def)
next
  case (Cons k ks)
  show ?case
  proof (cases "child_key n k")
    case (Some key)
    then obtain c where c: "map_of (children n) key = Some c" using child_key_SomeD by blast
    let ?m = "CacheNode (AList.update key (node_modify False f c ks) (children n)) (node_data n)"
    have m: "node_modify False f n (k # ks) = ?m" using Some c by simp
    show ?thesis
    proof (cases ls)
      case (Cons l ls')
      have keys: "child_key ?m l = child_key n l" using c by (auto simp: child_key_def update_conv')
      show ?thesis
      proof (cases "child_key n l = Some key")
        case True
        then have "child_at ?m l = Some (node_modify False f c ks)" "child_at n l = Some c" "child_at n k = Some c"
          using keys c Some by (simp_all add: child_at_def update_conv')
        then show ?thesis using Cons.IH [of c ls'] Cons m by auto
      next
        case False
        then have "child_at ?m l = child_at n l" using keys by (auto simp: child_at_def update_conv' split: option.splits intro: Option.bind_cong)
        then show ?thesis using Cons m by simp
      qed
    qed (use m in simp)
  qed simp
qed

lemma alias_of_kept:
  assumes "add_cache_cname t n m name = (n', m', c)"
  shows "alias_of t n' a = alias_of t n a" "c = alias_of t n name"
proof -
  show "c = alias_of t n name" using add_cache_cname_alias [of t n m name] assms by (simp add: alias_of_eq)
  consider "n' = n"
    | v rs where "node_get n (name_path name) = Some v" "map_of v (Some T_CNAME) = Some rs"
      "n' = node_modify False (AList.update (Some T_CNAME) (fst (scan_cnames t name rs))) n (name_path name)"
    using assms by (auto simp: add_cache_cname_def split: option.splits prod.splits)
  then show "alias_of t n' a = alias_of t n a"
  proof cases
    case 2
    let ?f = "AList.update (Some T_CNAME) (fst (scan_cnames t name rs))"
    have "first_alias t (?f v) = first_alias t v" using 2(2) by (simp add: first_alias_def update_conv' scan_cnames_again)
    with node_get_modify_cases [of ?f n "name_path name" "name_path a"] 2(1) show ?thesis
      unfolding 2(3) alias_of_eq by auto
  qed simp
qed

definition alias_rel :: "real \<Rightarrow> cache_node \<Rightarrow> (bytes \<times> bytes) set" where
  "alias_rel t n = {(a, b). alias_of t n a = Some b \<and> b \<noteq> []}"

lemma cname_loop_chain:
  assumes "cname_loop t n m fqdn cnames = (n', m', f, c)" "\<forall>x \<in> cnames. (x, fqdn) \<in> (alias_rel t n)\<^sup>*"
  shows "(fqdn, f) \<in> (alias_rel t n)\<^sup>* \<and>
    (case c of None \<Rightarrow> f \<notin> Domain (alias_rel t n) | Some b \<Rightarrow> (f, b) \<in> alias_rel t n \<and> (b, f) \<in> (alias_rel t n)\<^sup>*)"
  using assms
proof (induction t n m fqdn cnames rule: cname_loop.induct)
  case (1 t n m fqdn cnames)
  obtain n1 m1 c1 where a: "add_cache_cname t n m fqdn = (n1, m1, c1)" by (metis prod_cases3)
  note k = alias_of_kept [OF a]
  have rel: "alias_rel t n1 = alias_rel t n" using k(1) by (simp add: alias_rel_def)
  show ?case
  proof (cases c1)
    case None
    then have "f = fqdn" "c = None" using 1(2) a by (auto simp: cname_loop.simps [of t n m fqdn])
    then show ?thesis using None k(2) by (auto simp: alias_rel_def)
  next
    case (Some b)
    then have al: "alias_of t n fqdn = Some b" using k(2) by simp
    consider "b = []" | "b \<noteq> []" "b \<in> cnames" | "b \<noteq> []" "b \<notin> cnames" by blast
    then show ?thesis
    proof cases
      case 1
      then have "f = fqdn" "c = None" using "1.prems"(1) a Some by (auto simp: cname_loop.simps [of t n m fqdn])
      then show ?thesis using al 1 by (auto simp: alias_rel_def)
    next
      case 2
      then have "f = fqdn" "c = Some b" using "1.prems"(1) a Some by (auto simp: cname_loop.simps [of t n m fqdn])
      then show ?thesis using al 2 "1.prems"(2) by (auto simp: alias_rel_def)
    next
      case 3
      then have l: "cname_loop t n1 m1 b (insert b cnames) = (n', m', f, c)"
        using "1.prems"(1) a Some by (auto simp: cname_loop.simps [of t n m fqdn])
      have e: "(fqdn, b) \<in> alias_rel t n" using al 3 by (simp add: alias_rel_def)
      have "\<forall>x \<in> insert b cnames. (x, b) \<in> (alias_rel t n1)\<^sup>*"
        using "1.prems"(2) e unfolding rel by (auto intro: rtrancl_into_rtrancl)
      with "1.IH" [OF a [symmetric] _ Some] 3 l have "(b, f) \<in> (alias_rel t n1)\<^sup>* \<and>
        (case c of None \<Rightarrow> f \<notin> Domain (alias_rel t n1) | Some b \<Rightarrow> (f, b) \<in> alias_rel t n1 \<and> (b, f) \<in> (alias_rel t n1)\<^sup>*)"
        by simp
      with e show ?thesis unfolding rel by (auto intro: converse_rtrancl_into_rtrancl)
    qed
  qed
qed

section \<open>Properties\<close>

text \<open>What was last stored for a name, a type and data, not counting what was already expired then.\<close>

definition newest :: "(real \<times> dns_record) list \<Rightarrow> bytes \<Rightarrow> record_type \<Rightarrow> record_data option \<Rightarrow> dns_record option" where
  "newest xs name ty d =
     map_option snd (find (\<lambda>x. check_ttl (fst x) (snd x) \<and> rec_name (snd x) = name \<and> rec_type (snd x) = Some ty \<and>
       rec_data (snd x) = d) (rev xs))"

lemma find_filter: "find P (filter Q xs) = find (\<lambda>x. Q x \<and> P x) xs"
  by (induction xs) auto

lemma cache_query_view:
  "ty \<noteq> T_ANY \<Longrightarrow> snd (cache_query t n name ty) = Inr (snd (value_get_type t (cache_view n name) (Some ty)))"
  by (auto simp: cache_query_def cache_view_def value_get_def value_get_type_def split: option.split prod.split)

text \<open>C33: the cache without wildcards implements a dictionary of records: whatever was added at whatever
  times, a query for a name and a type other than ANY answers exactly the records last added for them, one
  for each data, that have not expired.\<close>

theorem cache_answers:
  assumes "\<forall>x \<in> set xs. plain_name x" "ty \<noteq> T_ANY"
  shows "\<exists>n' answers. cache_query t (foldl add_timed CacheNode_init xs) name ty = (n', Inr answers) \<and>
    set answers = {r. \<exists>d. newest xs name ty d = Some r \<and> check_ttl t r}"
proof -
  let ?n = "foldl add_timed CacheNode_init xs"
  have e: "cache_view CacheNode_init name = []" using value_at_init by (simp add: cache_view_def value_at_def)
  have v: "cache_view ?n name = foldl value_add_timed [] (filter (\<lambda>x. rec_name (snd x) = name) xs)"
    using cache.puts_view [OF star_free_init assms(1), of name] e by simp
  have "value_lookup (cache_view ?n name) (Some ty) d = newest xs name ty d" for d
    unfolding v value_lookup_adds by (auto simp: newest_def value_lookup_def rev_filter find_filter conj_commute conj_left_commute split: option.split)
  moreover have "value_ok (cache_view ?n name)" unfolding v by (rule value_ok_adds) (simp add: value_ok_def)
  ultimately have "set (snd (value_get_type t (cache_view ?n name) (Some ty))) = {r. \<exists>d. newest xs name ty d = Some r \<and> check_ttl t r}"
    by (simp add: value_get_type_records)
  then show ?thesis using cache_query_view [OF assms(2), of t ?n name] by (metis prod.collapse)
qed

theorem cache_answers_witness:
  "\<exists>n' answers. cache_query 5 (foldl add_timed CacheNode_init
       [(0, example_response [97, 46, 98] (TXTRecordData [120])), (1, example_response [98] (TXTRecordData [121]))])
     [97, 46, 98] T_TXT = (n', Inr answers) \<and> set answers = {example_response [97, 46, 98] (TXTRecordData [120])}"
proof -
  let ?xs = "[(0, example_response [97, 46, 98] (TXTRecordData [120])), (1, example_response [98] (TXTRecordData [121]))] :: (real \<times> dns_record) list"
  have "\<forall>x \<in> set ?xs. plain_name x" by (simp add: plain_name_def example_response_def star_def)
  moreover have "{r. \<exists>d. newest ?xs [97, 46, 98] T_TXT d = Some r \<and> check_ttl 5 r} = {example_response [97, 46, 98] (TXTRecordData [120])}"
    by (auto simp: newest_def example_response_def Record_init_def check_ttl_def split: if_splits)
  ultimately show ?thesis using cache_answers [of ?xs T_TXT 5 "[97, 46, 98]"] by simp
qed

text \<open>Below a wildcard a record that is added for one name is answered for every other name the
  wildcard covers as well.\<close>

theorem wildcard_captures:
  assumes "node_at n ks = Some z" "child_key z k = Some star" "child_key z l = Some star"
    "name_path (rec_name r) = ks @ [k]" "name_path other = ks @ [l]" "rec_type r = Some ty" "ty \<noteq> T_ANY" "check_ttl t r"
  shows "\<exists>n' answers. cache_query t (cache_add t n r) other ty = (n', Inr answers) \<and> r \<in> set answers"
proof -
  obtain c where "map_of (children z) star = Some c" using child_key_SomeD [OF assms(2)] by blast
  then have "node_get n (ks @ [l]) = Some (node_data c)"
    using assms(1,3) by (simp add: node_get_append child_at_def)
  then have "node_get (cache_add t n r) (name_path other) = Some (value_add t (node_data c) r)"
    using modify_shared [OF assms(1-3)] assms(4,5) by (simp add: cache_add_def)
  moreover have "r \<in> snd ` set (AList.update (rec_data r) r rs)" for rs
    by (metis image_eqI map_of_SomeD snd_conv update_conv' fun_upd_same)
  then have "r \<in> set (snd (value_get_type t (value_add t (node_data c) r) (Some ty)))"
    using assms(6,8) by (fastforce simp: value_get_type_def value_add_def update_conv' live_entries_def)
  ultimately show ?thesis using assms(7) by (auto simp: cache_query_def value_get_def split: prod.splits)
qed

theorem wildcard_captures_witness:
  "\<exists>n' answers. cache_query 5 (cache_add 5 (cache_add 5 CacheNode_init (example_response [42, 46, 98] (TXTRecordData [120])))
       (example_response [97, 46, 98] (TXTRecordData [121]))) [99, 46, 98] T_TXT = (n', Inr answers) \<and>
     example_response [97, 46, 98] (TXTRecordData [121]) \<in> set answers"
proof -
  let ?n = "cache_add 5 CacheNode_init (example_response [42, 46, 98] (TXTRecordData [120]))"
  obtain z where z: "node_at ?n [[98]] = Some z" "child_key z [97] = Some star" "child_key z [99] = Some star"
    by (simp add: cache_add_def name_path_def example_response_def CacheNode_init_def child_at_def child_key_def star_def)
  show ?thesis
    by (rule wildcard_captures [OF z]) (simp_all add: name_path_def example_response_def Record_init_def check_ttl_def)
qed

lemma cache_query_returns: "ty \<noteq> T_ANY \<Longrightarrow> \<exists>n' rs. cache_query t n name ty = (n', Inr rs)"
  using cache_query_view [of ty t n name] by (metis prod.collapse)

lemma cache_query_all_returns: "T_ANY \<notin> set tys \<Longrightarrow> \<exists>n' rs. cache_query_all t n name tys = (n', Inr rs)"
proof (induction tys arbitrary: n)
  case (Cons ty tys)
  then obtain n1 rs where "cache_query t n name ty = (n1, Inr rs)" using cache_query_returns by fastforce
  moreover obtain n2 rs2 where "cache_query_all t n1 name tys = (n2, Inr rs2)" using Cons by fastforce
  ultimately show ?case by simp
qed simp

lemma add_answers_returns: "\<exists>n' m' b. add_answers t n m fqdn has_result rs = (n', m', Inr b)"
proof (induction rs arbitrary: n m has_result)
  case (Cons r rs)
  show ?case
  proof (cases "ns_of r")
    case (Some name)
    obtain n1 records where "cache_query_all t n name [T_A, T_AAAA] = (n1, Inr records)"
      using cache_query_all_returns [of "[T_A, T_AAAA]" t n name] by auto
    with Some Cons show ?thesis by auto
  qed (use Cons in simp)
qed simp

lemma add_cache_qtype_returns: "ty \<noteq> T_ANY \<Longrightarrow> \<exists>n' m' b. add_cache_qtype t n m fqdn ty = (n', m', Inr b)"
  using cache_query_returns [of ty t n fqdn] add_answers_returns by (fastforce simp: add_cache_qtype_def)

text \<open>C40: a query for a given type always ends and gives an answer, also when aliases form a cycle: the name
  it ends with is reached from the name asked for by following aliases, and either has no
  alias or its alias leads back to it.\<close>

theorem alias_chain_resolved:
  assumes "ty \<noteq> T_ANY"
  shows "\<exists>n' m' has_result final. query_cache t zones n m fqdn ty = (n', m', Inr (has_result, final)) \<and>
    (fqdn, final) \<in> (alias_rel t n)\<^sup>* \<and>
    (final \<notin> Domain (alias_rel t n) \<or> (final, final) \<in> (alias_rel t n)\<^sup>+)"
proof -
  obtain n1 m1 f c where l: "cname_loop t n m fqdn {} = (n1, m1, f, c)" by (metis prod_cases4)
  obtain n2 m2 b where "(if ty \<noteq> T_CNAME then add_cache_qtype t n1 m1 f ty else (n1, m1, Inr False)) = (n2, m2, Inr b)"
    using add_cache_qtype_returns [OF assms, of t n1 m1 f] by (cases "ty = T_CNAME") auto
  then have "\<exists>n' m' h. query_cache t zones n m fqdn ty = (n', m', Inr (h, f))"
    using l by (simp add: query_cache_def Let_def) (metis (full_types))
  moreover have "(fqdn, f) \<in> (alias_rel t n)\<^sup>* \<and> (f \<notin> Domain (alias_rel t n) \<or> (f, f) \<in> (alias_rel t n)\<^sup>+)"
    using cname_loop_chain [OF l] by (auto split: option.splits intro: rtrancl_into_trancl2)
  ultimately show ?thesis by blast
qed

theorem alias_chain_resolved_witness:
  "\<exists>n' m' has_result final. query_cache 5 [] (foldl add_timed CacheNode_init
       [(0, example_response [97] (CNAMERecordData [98])), (0, example_response [98] (CNAMERecordData [97]))])
     DNSMessage_init [97] T_TXT = (n', m', Inr (has_result, final))"
  using alias_chain_resolved [of T_TXT 5 "[]" "foldl add_timed CacheNode_init
    [(0, example_response [97] (CNAMERecordData [98])), (0, example_response [98] (CNAMERecordData [97]))]" DNSMessage_init "[97]"]
  by blast

end
