(* ===== verification/Stage_Batches.thy ===== *)
theory Stage_Batches
  imports Py_Prelude "HOL-Library.AList" "HOL-Library.Multiset"
begin

text \<open>
  How the stages of one generation of a test graph share the workers
  (\<open>core/graphs/stages/base/parallel/stage_priority.py\<close>, the partitioning in
  \<open>core/graphs/stages/base/parallel/batch_executor.py\<close> and the ordering of the batches in
  \<open>core/graphs/transitions/transition_group.py\<close>). A transition is the record of the attributes the
  executor reads; the keys of \<open>transitions_by_edge\<close> make the transitions of a group distinct, so
  equality of records stands for identity. Divisions of positive integers by floats are exact.
\<close>

section \<open>Priorities\<close>

datatype stage_priority = LOW | NORMAL | HIGH | EXCLUSIVE | AUTO

primrec priority_value :: "stage_priority \<Rightarrow> int" where
  "priority_value LOW = 1"
| "priority_value NORMAL = 2"
| "priority_value HIGH = 3"
| "priority_value EXCLUSIVE = 4"
| "priority_value AUTO = 5"

definition priority_map :: "string option \<Rightarrow> stage_priority" where
  "priority_map p =
     (case p of
        None \<Rightarrow> AUTO
      | Some s \<Rightarrow>
          (case map_of [(''low'', LOW), (''normal'', NORMAL), (''high'', HIGH), (''exclusive'', EXCLUSIVE), (''auto'', AUTO)] s of
             None \<Rightarrow> AUTO | Some q \<Rightarrow> q))"

text \<open>\<open>math.ceil(a / b)\<close>.\<close>

definition ceil_div :: "int \<Rightarrow> int \<Rightarrow> int" where
  "ceil_div a b = - ((- a) div b)"

fun worker_allocation_range :: "stage_priority \<Rightarrow> int \<Rightarrow> int \<times> int" where
  "worker_allocation_range LOW pool = (1, ceil_div pool 4)"
| "worker_allocation_range NORMAL pool = (ceil_div pool 4, ceil_div (3 * pool) 4)"
| "worker_allocation_range HIGH pool = (ceil_div (3 * pool) 4, pool)"
| "worker_allocation_range EXCLUSIVE pool = (pool, pool)"
| "worker_allocation_range AUTO pool = (1, pool)"

section \<open>Batches of stages\<close>

text \<open>
  \<open>partion_stage_batches\<close>; the flag is \<open>batch_by_stages\<close>. No stage or no worker is a division by zero. Every batch is a list of worker counts; the
  batch at \<open>batch_sets_count - 1\<close> gets the remaining workers one by one. The counts of each batch are
  given to the stages from the first one on, whatever the earlier batches have used.
\<close>

definition batch_counts :: "nat \<Rightarrow> nat \<Rightarrow> nat list list" where
  "batch_counts cpus stages_count =
     (let sets = max (nat (ceil_div (int stages_count) (int cpus))) 1;
          rest = stages_count mod cpus;
          counts =
            (if rest > 0 \<and> stages_count > cpus
             then replicate (sets - 1) (replicate cpus (cpus div cpus))
             else replicate sets (replicate (stages_count div sets) (cpus div (stages_count div sets))));
          counts = (if rest > 0 \<and> stages_count > cpus then counts @ [replicate rest (cpus div rest)] else counts);
          spread = counts ! (sets - 1);
          remainder = cpus mod length spread
      in counts[sets - 1 := map Suc (take remainder spread) @ drop remainder spread])"

definition assign_batches :: "'a list \<Rightarrow> nat list list \<Rightarrow> ('a \<times> nat) list" where
  "assign_batches stages counts = concat (map (\<lambda>batch. zip stages batch) counts)"

definition partion_stage_batches :: "bool \<Rightarrow> nat \<Rightarrow> 'a list \<Rightarrow> ('a \<times> nat) list res" where
  "partion_stage_batches by_stages cpus stages =
     (if by_stages then Inr (map (\<lambda>s. (s, 1)) stages)
      else if cpus = 0 \<or> stages = [] then Inl (GenericException ''ZeroDivisionError'')
      else Inr (assign_batches stages (batch_counts cpus (length stages))))"

section \<open>Batches of transitions\<close>

record transition_info =
  source :: string
  destination :: string
  priority :: "string option"
  priority_level :: stage_priority
  workers :: int
  allow_parallel :: bool
  skip_stage :: bool

type_synonym transition_config = "string \<times> string \<times> string option \<times> int"

definition config_of :: "transition_info \<Rightarrow> int \<Rightarrow> transition_config" where
  "config_of t k = (source t, destination t, priority t, k)"

definition sorted_transitions :: "transition_info list \<Rightarrow> transition_info list" where
  "sorted_transitions ts = sort_key (\<lambda>t. priority_value (priority_level t)) ts"

definition bypassed :: "transition_info \<Rightarrow> bool" where
  "bypassed t \<longleftrightarrow> skip_stage t \<or> \<not> allow_parallel t"

text \<open>The dictionary of stages: of several transitions with the same source the last one counts.\<close>

definition stage_table :: "transition_info list \<Rightarrow> (string \<times> transition_info) list" where
  "stage_table ts = foldl (\<lambda>d t. AList.update (source t) t d) [] ts"

definition parallel_count :: "transition_info list \<Rightarrow> nat" where
  "parallel_count ts = length (filter (\<lambda>p. allow_parallel (snd p)) (stage_table ts))"

definition auto_count :: "transition_info list \<Rightarrow> nat" where
  "auto_count ts = length (filter (\<lambda>p. priority_level (snd p) = AUTO) (stage_table ts))"

text \<open>
  The two dictionaries of bounds: the range of the last transition with the given source that is not
  bypassed; a missing key gives None, and adding None raises.
\<close>

definition worker_bounds :: "int \<Rightarrow> transition_info list \<Rightarrow> string \<Rightarrow> (int \<times> int) option" where
  "worker_bounds pool ts name =
     map_of (rev (map (\<lambda>t. (source t, worker_allocation_range (priority_level t) pool)) (filter (\<lambda>t. \<not> bypassed t) ts))) name"

text \<open>The inner \<open>while\<close>: workers are taken from the other transition until both fit or its minimum is passed.\<close>

function shrink_workers :: "int \<Rightarrow> int \<Rightarrow> int \<Rightarrow> int \<Rightarrow> int" where
  "shrink_workers pool allocated least k =
     (if allocated + k > pool \<and> k \<ge> least then shrink_workers pool allocated least (k - 1) else k)"
  by pat_completeness auto
termination
  by (relation "measure (\<lambda>(pool, allocated, least, k). nat (k - least + 1))") auto

declare shrink_workers.simps [simp del]

text \<open>
  The inner \<open>for\<close> with the local state: workers allocated, the group, the transitions seen. The test
  \<open>transition not in seen_transitions\<close> is about the transition of the outer loop, which is added only
  later, so transitions that have been placed are taken again.
\<close>

fun fill_group :: "int \<Rightarrow> (string \<Rightarrow> (int \<times> int) option) \<Rightarrow> transition_info \<Rightarrow> transition_info list \<Rightarrow> int \<Rightarrow> transition_config list \<Rightarrow>
    transition_info list \<Rightarrow> (int \<times> transition_config list \<times> transition_info list) res" where
  "fill_group pool bounds t [] allocated grp seen = Inr (allocated, grp, seen)"
| "fill_group pool bounds t (u # us) allocated grp seen =
     (if u \<noteq> t \<and> t \<notin> set seen
      then (case bounds (source u) of
              None \<Rightarrow> Inl TypeError
            | Some (least, most) \<Rightarrow>
                (let k = shrink_workers pool allocated least most
                 in if allocated + k \<le> pool \<and> k > 0
                    then fill_group pool bounds t us (allocated + k) (grp @ [config_of u k]) (seen @ [u])
                    else fill_group pool bounds t us allocated grp seen))
      else fill_group pool bounds t us allocated grp seen)"

fun fill_batches :: "int \<Rightarrow> (string \<Rightarrow> (int \<times> int) option) \<Rightarrow> transition_info list \<Rightarrow> transition_info list \<Rightarrow> transition_config list list \<Rightarrow>
    transition_info list \<Rightarrow> transition_config list list res" where
  "fill_batches pool bounds all [] batches seen = Inr batches"
| "fill_batches pool bounds all (t # ts) batches seen =
     (if t \<in> set seen then fill_batches pool bounds all ts batches seen
      else (case bounds (source t) of
              None \<Rightarrow> Inl TypeError
            | Some (least, most) \<Rightarrow>
                (case fill_group pool bounds t all most [config_of t most] seen of
                   Inl e \<Rightarrow> Inl e
                 | Inr (_, grp, seen) \<Rightarrow> fill_batches pool bounds all ts (batches @ [grp]) (seen @ [t]))))"

text \<open>
  \<open>partion_prioritized_stage_batches\<close>. With exactly one parallel stage only the last transition that is
  not skipped remains; \<open>pop\<close> on an empty list raises.
\<close>

definition partion_prioritized :: "int \<Rightarrow> transition_info list \<Rightarrow> transition_config list list res" where
  "partion_prioritized pool transitions =
     (let ts = sorted_transitions transitions;
          unskipped = filter (\<lambda>t. \<not> skip_stage t) ts
      in if parallel_count ts = 1
         then (if unskipped = [] then Inl IndexError
               else Inr [[config_of (last unskipped) (workers (last unskipped))]])
         else if auto_count ts = length (stage_table ts) \<and> parallel_count ts > 0
         then Inr [map (\<lambda>t. config_of t (workers t)) unskipped]
         else fill_batches pool (worker_bounds pool ts) ts ts [map (\<lambda>t. config_of t 0) (filter bypassed ts)] (filter bypassed ts))"

section \<open>The order of the batches\<close>

text \<open>
  \<open>sort_and_map_transitions\<close>: the priority of a batch is the largest of its transitions, AUTO counts as
  0, empty batches are dropped. \<open>level\<close> looks the priority of a source up.
\<close>

definition group_priority :: "(string \<Rightarrow> stage_priority) \<Rightarrow> transition_config list \<Rightarrow> int" where
  "group_priority level grp =
     Max (set (map (\<lambda>c. if level (fst c) = AUTO then 0 else priority_value (level (fst c))) grp))"

definition order_groups :: "(string \<Rightarrow> stage_priority) \<Rightarrow> transition_config list list \<Rightarrow> transition_config list list" where
  "order_groups level batches = sort_key (\<lambda>g. - group_priority level g) (filter (\<lambda>g. g \<noteq> []) batches)"

text \<open>\<open>execute_group\<close> starts the transitions of a batch by their number of workers, the largest first.\<close>

definition start_order :: "transition_config list \<Rightarrow> transition_config list" where
  "start_order grp = sort_key (\<lambda>c. - snd (snd (snd c))) grp"

section \<open>Stages and workers\<close>

lemma sum_bumped: "k \<le> length ns \<Longrightarrow> sum_list (map Suc (take k ns) @ drop k ns) = sum_list ns + k"
proof -
  assume k: "k \<le> length ns"
  have "sum_list (map Suc ms) = sum_list ms + length ms" for ms :: "nat list" by (induction ms) simp_all
  then have "sum_list (map Suc (take k ns)) = sum_list (take k ns) + k" using k by simp
  moreover have "sum_list (take k ns) + sum_list (drop k ns) = sum_list ns"
    by (metis append_take_drop_id sum_list_append)
  ultimately show ?thesis by simp
qed

lemma one_batch:
  assumes "0 < m" "m \<le> cpus"
  shows "batch_counts cpus m =
    [map Suc (take (cpus mod m) (replicate m (cpus div m))) @ drop (cpus mod m) (replicate m (cpus div m))]"
proof -
  have "(- int m) div int cpus = - 1"
    by (rule int_div_pos_eq [where r = "int cpus - int m"]) (use assms in auto)
  then have c: "ceil_div (int m) (int cpus) = 1" by (simp add: ceil_div_def)
  show ?thesis using assms by (simp add: batch_counts_def Let_def c)
qed

lemma zip_map_fst: "length ns = length xs \<Longrightarrow> map fst (zip xs ns) = xs \<and> map snd (zip xs ns) = ns"
  by simp

lemma in_set_update: "b \<in> set (xs[i := y]) \<Longrightarrow> b \<in> set xs \<or> i < length xs \<and> b = y"
  by (metis insert_iff list_update_beyond not_le set_update_subset_insert subsetD)

lemma batch_length:
  assumes "0 < cpus" "cpus < m" "b \<in> set (batch_counts cpus m)"
  shows "length b \<le> cpus"
proof -
  let ?sets = "max (nat (ceil_div (int m) (int cpus))) 1"
  define counts where "counts = (if m mod cpus > 0
    then replicate (?sets - 1) (replicate cpus (cpus div cpus)) @ [replicate (m mod cpus) (cpus div (m mod cpus))]
    else replicate ?sets (replicate (m div ?sets) (cpus div (m div ?sets))))"
  have l: "length c \<le> cpus" if "c \<in> set counts" for c
  proof (cases "m mod cpus > 0")
    case True
    then show ?thesis using that assms(1) by (auto simp: counts_def split: if_splits)
  next
    case False
    then obtain q where q: "m = cpus * q" by auto
    have "- int m = - int q * int cpus" by (simp add: q)
    then have "(- int m) div int cpus = - int q"
      using assms(1) nonzero_mult_div_cancel_right [of "int cpus" "- int q"] by simp
    then have "ceil_div (int m) (int cpus) = int q" by (simp add: ceil_div_def)
    moreover have "0 < q" using q assms(2) by (cases q) simp_all
    ultimately show ?thesis using that False q by (auto simp: counts_def max_def split: if_splits)
  qed
  define i spread where "i = ?sets - 1" and "spread = counts ! i"
  have "batch_counts cpus m = counts[i := map Suc (take (cpus mod length spread) spread) @ drop (cpus mod length spread) spread]"
    using assms by (simp add: batch_counts_def Let_def counts_def i_def spread_def)
  then consider "b \<in> set counts" | "i < length counts" "b = map Suc (take (cpus mod length spread) spread) @ drop (cpus mod length spread) spread"
    using assms(3) in_set_update by fastforce
  then show ?thesis
  proof cases
    case 2
    then show ?thesis using l [of spread] by (simp add: spread_def)
  qed (rule l)
qed

lemma fst_zip_take: "fst ` set (zip xs ns) \<subseteq> set (take (length ns) xs)"
  by (auto simp: set_zip in_set_conv_nth) (metis nth_take)

text \<open>With at most as many stages as workers, every stage gets workers, all workers are given out, and the
  shares of two stages differ by at most one.\<close>

theorem stages_share_workers:
  assumes "stages \<noteq> []" "length stages \<le> cpus"
  shows "\<exists>shares. partion_stage_batches False cpus stages = Inr shares \<and> map fst shares = stages \<and>
    sum_list (map snd shares) = cpus \<and> snd ` set shares \<subseteq> {cpus div length stages, cpus div length stages + 1}"
proof -
  let ?m = "length stages" and ?ns = "replicate (length stages) (cpus div length stages)"
  let ?b = "map Suc (take (cpus mod length stages) ?ns) @ drop (cpus mod length stages) ?ns"
  have m: "0 < ?m" using assms(1) by simp
  have r: "cpus mod ?m \<le> ?m" using m by (simp add: less_imp_le)
  then have l: "length ?b = ?m" by simp
  have p: "partion_stage_batches False cpus stages = Inr (zip stages ?b)"
    using m assms order.strict_trans2 [OF m assms(2)] by (auto simp: partion_stage_batches_def assign_batches_def one_batch [OF m assms(2)])
  have "sum_list ?b = sum_list ?ns + cpus mod ?m" by (rule sum_bumped) (use r in simp)
  then have "sum_list ?b = cpus" by (simp add: sum_list_replicate)
  moreover have "set ?b \<subseteq> {cpus div ?m, cpus div ?m + 1}" by (auto dest: in_set_takeD in_set_dropD)
  moreover have "snd ` set (zip stages ?b) = set ?b" using l by (metis list.set_map map_snd_zip)
  ultimately show ?thesis unfolding p using zip_map_fst [OF l] by simp
qed

theorem stages_share_workers_witness:
  "partion_stage_batches False 4 [''a'', ''b'', ''c''] = Inr [(''a'', 2), (''b'', 1), (''c'', 1)] \<and>
   (\<exists>shares. partion_stage_batches False 4 [''a'', ''b'', ''c''] = Inr shares \<and> sum_list (map snd shares) = 4)"
proof
  show "partion_stage_batches False 4 [''a'', ''b'', ''c''] = Inr [(''a'', 2), (''b'', 1), (''c'', 1)]"
    by (simp add: partion_stage_batches_def assign_batches_def batch_counts_def ceil_div_def)
  show "\<exists>shares. partion_stage_batches False 4 [''a'', ''b'', ''c''] = Inr shares \<and> sum_list (map snd shares) = 4"
    using stages_share_workers [of "[''a'', ''b'', ''c'']" 4] by fastforce
qed

text \<open>With more stages than workers the stages beyond the number of workers get none: every batch begins
  again with the first stage.\<close>

theorem later_stages_starve:
  assumes "0 < cpus" "cpus < length stages"
  shows "\<exists>shares. partion_stage_batches False cpus stages = Inr shares \<and> fst ` set shares \<subseteq> set (take cpus stages)"
proof -
  have "x \<in> set (take cpus stages)" if "x \<in> fst ` set (assign_batches stages (batch_counts cpus (length stages)))" for x
  proof -
    from that have "\<exists>b \<in> set (batch_counts cpus (length stages)). x \<in> fst ` set (zip stages b)"
      by (auto simp: assign_batches_def)
    then obtain b where b: "b \<in> set (batch_counts cpus (length stages))" "x \<in> fst ` set (zip stages b)" by blast
    from batch_length [OF assms b(1)] have "set (take (length b) stages) \<subseteq> set (take cpus stages)"
      by (rule set_take_subset_set_take)
    then show ?thesis using b(2) fst_zip_take by fast
  qed
  then show ?thesis using assms by (auto simp: partion_stage_batches_def)
qed

theorem later_stages_starve_witness:
  "\<exists>shares. partion_stage_batches False 2 [''a'', ''b'', ''c''] = Inr shares \<and> ''c'' \<notin> fst ` set shares"
  using later_stages_starve [of 2 "[''a'', ''b'', ''c'']"] by fastforce

section \<open>Prioritised batches\<close>

lemma shrink_workers_range:
  "shrink_workers pool allocated least k \<le> k \<and>
   (allocated + shrink_workers pool allocated least k \<le> pool \<or> shrink_workers pool allocated least k < least)"
proof (induction pool allocated least k rule: shrink_workers.induct)
  case (1 pool allocated least k)
  then show ?case by (subst (1 2 3) shrink_workers.simps) auto
qed

text \<open>The workers of a batch, and whether a batch holds a transition.\<close>

definition batch_workers :: "transition_config list \<Rightarrow> int" where
  "batch_workers g = sum_list (map (\<lambda>c. snd (snd (snd c))) g)"

definition placed :: "transition_config list list \<Rightarrow> transition_info \<Rightarrow> bool" where
  "placed batches t \<longleftrightarrow> (\<exists>g \<in> set batches. \<exists>k. config_of t k \<in> set g)"

lemma batch_workers_simps [simp]:
  "batch_workers [] = 0" "batch_workers (g @ [config_of t k]) = batch_workers g + k" "batch_workers [config_of t k] = k"
  by (simp_all add: batch_workers_def config_of_def)

lemma fill_group_ok:
  assumes "\<forall>u \<in> set us. bounds (source u) \<noteq> None" "t \<notin> set seen" "batch_workers grp = allocated" "allocated \<le> pool"
  shows "\<exists>allocated' grp' seen' new. fill_group pool bounds t us allocated grp seen = Inr (allocated', grp', seen') \<and>
    batch_workers grp' \<le> pool \<and> set grp \<subseteq> set grp' \<and> seen' = seen @ new \<and> t \<notin> set new \<and> set new \<subseteq> set us \<and>
    (\<forall>u \<in> set new. \<exists>k. config_of u k \<in> set grp')"
  using assms
proof (induction us arbitrary: allocated grp seen)
  case (Cons u us)
  show ?case
  proof (cases "u \<noteq> t")
    case False
    then show ?thesis using Cons.IH [of seen grp allocated] Cons.prems by fastforce
  next
    case True
    obtain least most where b: "bounds (source u) = Some (least, most)" using Cons.prems(1) by fastforce
    define k where "k = shrink_workers pool allocated least most"
    show ?thesis
    proof (cases "allocated + k \<le> pool \<and> k > 0")
      case False
      have "fill_group pool bounds t (u # us) allocated grp seen = fill_group pool bounds t us allocated grp seen"
        using True b False Cons.prems(2) by (auto simp: k_def [symmetric] Let_def)
      then show ?thesis using Cons.IH [of seen grp allocated] Cons.prems by fastforce
    next
      case fits: True
      let ?g = "grp @ [config_of u k]"
      have step: "fill_group pool bounds t (u # us) allocated grp seen = fill_group pool bounds t us (allocated + k) ?g (seen @ [u])"
        using True b fits Cons.prems(2) by (simp add: k_def [symmetric] Let_def)
      have "t \<notin> set (seen @ [u])" "batch_workers ?g = allocated + k" "\<forall>u \<in> set us. bounds (source u) \<noteq> None"
        using True Cons.prems by auto
      then obtain allocated' grp' seen' new where r: "fill_group pool bounds t us (allocated + k) ?g (seen @ [u]) = Inr (allocated', grp', seen')"
        "batch_workers grp' \<le> pool" "set ?g \<subseteq> set grp'" "seen' = (seen @ [u]) @ new" "t \<notin> set new" "set new \<subseteq> set us"
        "\<forall>u \<in> set new. \<exists>k. config_of u k \<in> set grp'"
        using Cons.IH [of "seen @ [u]" ?g "allocated + k"] fits by blast
      have "config_of u k \<in> set grp'" "set grp \<subseteq> set grp'" using r(3) by auto
      then show ?thesis using step r(1,2,4-7) True
        by (intro exI [of _ allocated'] exI [of _ grp'] exI [of _ seen'] exI [of _ "u # new"]) auto
    qed
  qed
qed auto

lemma placed_mono: "set batches \<subseteq> set batches' \<Longrightarrow> placed batches t \<Longrightarrow> placed batches' t"
  unfolding placed_def by blast

lemma fill_batches_ok:
  assumes "\<forall>u \<in> set all \<union> set ts. \<exists>least most. bounds (source u) = Some (least, most) \<and> most \<le> pool"
    "\<forall>g \<in> set batches. batch_workers g \<le> pool" "\<forall>u \<in> set seen. placed batches u"
  shows "\<exists>batches'. fill_batches pool bounds all ts batches seen = Inr batches' \<and> (\<forall>g \<in> set batches'. batch_workers g \<le> pool) \<and>
    (\<forall>u \<in> set seen \<union> set ts. placed batches' u)"
  using assms
proof (induction ts arbitrary: batches seen)
  case (Cons t ts)
  show ?case
  proof (cases "t \<in> set seen")
    case True
    then show ?thesis using Cons.IH [of batches seen] Cons.prems by auto
  next
    case False
    obtain least most where b: "bounds (source t) = Some (least, most)" "most \<le> pool" using Cons.prems(1) by fastforce
    have known: "\<forall>u \<in> set all. bounds (source u) \<noteq> None" using Cons.prems(1) by fastforce
    obtain allocated' grp seen' new where g: "fill_group pool bounds t all most [config_of t most] seen = Inr (allocated', grp, seen')"
      "batch_workers grp \<le> pool" "set [config_of t most] \<subseteq> set grp" "seen' = seen @ new"
      "\<forall>u \<in> set new. \<exists>k. config_of u k \<in> set grp"
      using fill_group_ok [OF known False, of "[config_of t most]" most pool] b(2) by auto
    have t: "placed (batches @ [grp]) t" using g(3) by (auto simp: placed_def)
    have "\<forall>u \<in> set (seen' @ [t]). placed (batches @ [grp]) u"
      using Cons.prems(3) g(4,5) t placed_mono [of batches "batches @ [grp]"] by (auto simp: placed_def)
    moreover have "\<forall>g \<in> set (batches @ [grp]). batch_workers g \<le> pool" using Cons.prems(2) g(2) by auto
    moreover have "\<forall>u \<in> set all \<union> set ts. \<exists>least most. bounds (source u) = Some (least, most) \<and> most \<le> pool"
      using Cons.prems(1) by simp
    ultimately obtain batches' where r: "fill_batches pool bounds all ts (batches @ [grp]) (seen' @ [t]) = Inr batches'"
      "\<forall>g \<in> set batches'. batch_workers g \<le> pool" "\<forall>u \<in> set (seen' @ [t]) \<union> set ts. placed batches' u"
      using Cons.IH by blast
    then show ?thesis using False b(1) g(1,4) by auto
  qed
qed simp

lemma allocation_fits: "0 \<le> pool \<Longrightarrow> snd (worker_allocation_range p pool) \<le> pool"
proof -
  assume p: "0 \<le> pool"
  have "- pool \<le> (- pool) div 4" "- pool \<le> (- (3 * pool)) div 4" using p by linarith+
  then show ?thesis by (cases p) (simp_all add: ceil_div_def)
qed

lemma sorted_set [simp]: "set (sorted_transitions ts) = set ts"
  by (simp add: sorted_transitions_def)

lemma worker_bounds_known:
  assumes "u \<in> set ts" "\<not> bypassed u" "0 \<le> pool"
  shows "\<exists>least most. worker_bounds pool ts (source u) = Some (least, most) \<and> most \<le> pool"
proof -
  let ?xs = "rev (map (\<lambda>t. (source t, worker_allocation_range (priority_level t) pool)) (filter (\<lambda>t. \<not> bypassed t) ts))"
  have "(source u, worker_allocation_range (priority_level u) pool) \<in> set ?xs" using assms(1,2) by auto
  from weak_map_of_SomeI [OF this] obtain r where r: "map_of ?xs (source u) = Some r" by blast
  then have "(source u, r) \<in> set ?xs" by (rule map_of_SomeD)
  then have "snd r \<le> pool" using allocation_fits [OF assms(3)] by auto
  then show ?thesis using r by (cases r) (simp add: worker_bounds_def)
qed

text \<open>C18: When the number of parallel stages is not exactly one (then only one transition would be kept), not all stages
  have automatic priority, no transition is bypassed and the number of workers is not negative, the partition
  succeeds, no batch uses more workers than there are, and every transition is in some batch.\<close>

theorem prioritised_batches_fit:
  assumes "parallel_count (sorted_transitions ts) \<noteq> 1"
    "auto_count (sorted_transitions ts) \<noteq> length (stage_table (sorted_transitions ts))"
    "\<forall>t \<in> set ts. \<not> bypassed t" "0 \<le> pool"
  shows "\<exists>batches. partion_prioritized pool ts = Inr batches \<and> (\<forall>g \<in> set batches. batch_workers g \<le> pool) \<and>
    (\<forall>t \<in> set ts. placed batches t)"
proof -
  let ?ts = "sorted_transitions ts"
  have "filter bypassed ?ts = []" using assms(3) by (simp add: filter_empty_conv)
  then have "partion_prioritized pool ts = fill_batches pool (worker_bounds pool ?ts) ?ts ?ts [[]] []"
    using assms(1,2) by (simp add: partion_prioritized_def Let_def)
  moreover have "\<forall>u \<in> set ?ts \<union> set ?ts. \<exists>least most. worker_bounds pool ?ts (source u) = Some (least, most) \<and> most \<le> pool"
    using assms(3,4) worker_bounds_known [of _ ?ts pool] by simp
  ultimately show ?thesis
    using fill_batches_ok [of ?ts ?ts "worker_bounds pool ?ts" pool "[[]]" "[]"] assms(4) by auto
qed

definition example_transition :: "string \<Rightarrow> stage_priority \<Rightarrow> bool \<Rightarrow> transition_info" where
  "example_transition name p par =
     \<lparr>source = name, destination = ''end'', priority = None, priority_level = p, workers = 1, allow_parallel = par, skip_stage = False\<rparr>"

lemma example_transition_simps [simp]:
  "source (example_transition name p par) = name" "destination (example_transition name p par) = ''end''"
  "priority (example_transition name p par) = None" "priority_level (example_transition name p par) = p"
  "allow_parallel (example_transition name p par) = par" "skip_stage (example_transition name p par) = False"
  "bypassed (example_transition name p par) = (\<not> par)"
  "example_transition name p par = example_transition name' p' par' \<longleftrightarrow> name = name' \<and> p = p' \<and> par = par'"
  by (auto simp: example_transition_def bypassed_def)

theorem prioritised_batches_fit_witness:
  "\<exists>batches. partion_prioritized 8 [example_transition ''a'' HIGH True, example_transition ''b'' LOW True] = Inr batches \<and>
     (\<forall>g \<in> set batches. batch_workers g \<le> 8)"
  using prioritised_batches_fit [of "[example_transition ''a'' HIGH True, example_transition ''b'' LOW True]" 8]
  by (fastforce simp: parallel_count_def auto_count_def stage_table_def sorted_transitions_def)

lemma fill_group_raises:
  assumes "u \<in> set us" "u \<noteq> t" "bounds (source u) = None" "t \<notin> set seen"
  shows "fill_group pool bounds t us allocated grp seen = Inl TypeError"
  using assms
proof (induction us arbitrary: allocated grp seen)
  case (Cons v us)
  have again: "fill_group pool bounds t us allocated grp seen = Inl TypeError" if "u \<in> set us" "t \<notin> set seen" for allocated grp seen
    using Cons.IH that Cons.prems(2,3) by blast
  show ?case
  proof (cases "u = v")
    case True
    then show ?thesis using Cons.prems by simp
  next
    case False
    then have "u \<in> set us" using Cons.prems(1) by simp
    then show ?thesis using again Cons.prems(4) by (auto simp: Let_def split: option.split prod.split)
  qed
qed simp

lemma fill_batches_raises:
  assumes "u \<in> set all" "bounds (source u) = None" "u \<in> set seen" "t \<in> set ts" "t \<notin> set seen"
  shows "fill_batches pool bounds all ts batches seen = Inl TypeError"
  using assms(4)
proof (induction ts)
  case (Cons v ts)
  show ?case
  proof (cases "v \<in> set seen")
    case True
    then show ?thesis using Cons assms(5) by auto
  next
    case False
    then have "u \<noteq> v" using assms(3) by blast
    then have "fill_group pool bounds v all allocated grp seen = Inl TypeError" for allocated grp
      using fill_group_raises assms(1,2) False by blast
    then show ?thesis using False by (simp split: option.split prod.split)
  qed
qed simp

text \<open>In the same situation a single bypassed stage makes the partition raise a TypeError: as soon as one stage
  is not bypassed, the bounds of the bypassed one are looked up and are None.\<close>

theorem bypassed_stage_raises:
  assumes "parallel_count (sorted_transitions ts) \<noteq> 1"
    "auto_count (sorted_transitions ts) \<noteq> length (stage_table (sorted_transitions ts))"
    "u \<in> set ts" "\<forall>t \<in> set ts. source t = source u \<longrightarrow> bypassed t" "t \<in> set ts" "\<not> bypassed t"
  shows "partion_prioritized pool ts = Inl TypeError"
proof -
  let ?ts = "sorted_transitions ts"
  have "worker_bounds pool ?ts (source u) = None"
    using assms(4) by (auto simp: worker_bounds_def map_of_eq_None_iff)
  then have "fill_batches pool (worker_bounds pool ?ts) ?ts ?ts [map (\<lambda>t. config_of t 0) (filter bypassed ?ts)] (filter bypassed ?ts) = Inl TypeError"
    using assms(3-6) by (intro fill_batches_raises [of u ?ts _ "filter bypassed ?ts" t]) auto
  then show ?thesis using assms(1,2) by (simp add: partion_prioritized_def Let_def)
qed

theorem bypassed_stage_raises_witness:
  "partion_prioritized 8 [example_transition ''a'' HIGH True, example_transition ''b'' LOW True, example_transition ''c'' AUTO False] =
     Inl TypeError"
  by (rule bypassed_stage_raises [of _ "example_transition ''c'' AUTO False" "example_transition ''a'' HIGH True"])
    (simp_all add: parallel_count_def auto_count_def stage_table_def sorted_transitions_def)

text \<open>A stage of low priority next to two of normal priority is executed twice: it is put into the first batch
  with the one normal stage and again into the second with the other.\<close>

theorem low_stage_runs_twice:
  assumes "0 < k" "a \<noteq> b" "a \<noteq> c" "b \<noteq> c"
  shows "partion_prioritized (4 * k) [example_transition a LOW True, example_transition b NORMAL True, example_transition c NORMAL True] =
    Inr [[], [(a, ''end'', None, k), (b, ''end'', None, 3 * k)], [(c, ''end'', None, 3 * k), (a, ''end'', None, k)]]"
proof -
  have r: "ceil_div (4 * k) 4 = k" "ceil_div (12 * k) 4 = 3 * k"
    using nonzero_mult_div_cancel_right [of 4 "- k"] nonzero_mult_div_cancel_right [of 4 "- (3 * k)"]
    by (simp_all add: ceil_div_def)
  have keep: "shrink_workers (4 * k) k l (3 * k) = 3 * k" "shrink_workers (4 * k) (3 * k) l k = k" for l
    by (subst shrink_workers.simps; simp)+
  show ?thesis
    using assms
    by (simp add: partion_prioritized_def sorted_transitions_def parallel_count_def auto_count_def stage_table_def
        worker_bounds_def config_of_def keep r Let_def)
qed

theorem low_stage_runs_twice_witness:
  "partion_prioritized 8 [example_transition ''a'' LOW True, example_transition ''b'' NORMAL True, example_transition ''c'' NORMAL True] =
     Inr [[], [(''a'', ''end'', None, 2), (''b'', ''end'', None, 6)], [(''c'', ''end'', None, 6), (''a'', ''end'', None, 2)]]"
  using low_stage_runs_twice [of 2 "''a''" "''b''" "''c''"] by simp

section \<open>The order of the batches\<close>

text \<open>Every batch that is not empty is run, the batches of the highest priority first.\<close>

theorem groups_by_priority:
  "mset (order_groups level batches) = filter_mset (\<lambda>g. g \<noteq> []) (mset batches) \<and>
   sorted (map (\<lambda>g. - group_priority level g) (order_groups level batches))"
  by (simp add: order_groups_def)

text \<open>A batch whose stages all have the automatic priority runs after every batch with an explicit one.\<close>

lemma auto_group_last:
  assumes "g \<noteq> []" "h \<noteq> []" "\<forall>c \<in> set g. level (fst c) = AUTO" "c \<in> set h" "level (fst c) \<noteq> AUTO"
  shows "group_priority level g < group_priority level h"
proof -
  let ?rank = "\<lambda>c. if level (fst c) = AUTO then 0 else priority_value (level (fst c))"
  have "?rank ` set g = (\<lambda>_. 0) ` set g" using assms(3) by (intro image_cong) simp_all
  then have "group_priority level g = 0" using assms(1) by (simp add: group_priority_def image_constant_conv)
  moreover have "priority_value (level (fst c)) \<le> group_priority level h"
    unfolding group_priority_def using assms(4,5) by (intro Max_ge) (auto simp: image_iff intro!: bexI [of _ c])
  moreover have "0 < priority_value p" for p by (cases p) simp_all
  ultimately show ?thesis by (metis less_le_trans)
qed

end
