(* ===== verification/Stage_Graph.thy ===== *)
theory Stage_Graph
  imports Stage_Batches
begin

text \<open>
  The graph of the stages of a test: which stage may follow which
  (\<open>core/graphs/transitions/local_transitions.py\<close>), the graph a test is assembled into
  (\<open>core/graphs/graph.py\<close>) and the groups of transitions built from it
  (\<open>core/graphs/transitions/transition_assembler.py\<close>). The graph library is not part of the
  repository: a \<open>DiGraph\<close> is its nodes and edges in the order they were added, and
  \<open>topological_generations\<close> is a parameter with its documented behaviour as a hypothesis.
\<close>

section \<open>Which stage may follow which\<close>

datatype stage_type = IDLE | ACT | ANALYZE | EXECUTE | OPTIMIZE | SETUP | COMPLETE | SUBMIT | ERROR

record transition_metadata =
  allow_multiple_edges :: bool
  is_valid :: bool

definition edge_rule :: "stage_type \<Rightarrow> stage_type \<Rightarrow> bool \<Rightarrow> bool \<Rightarrow> (stage_type \<times> stage_type) \<times> transition_metadata" where
  "edge_rule a b multiple ok = ((a, b), \<lparr>allow_multiple_edges = multiple, is_valid = ok\<rparr>)"

definition local_transitions :: "((stage_type \<times> stage_type) \<times> transition_metadata) list" where
  "local_transitions =
    [edge_rule IDLE IDLE True True, edge_rule IDLE ACT True True, edge_rule IDLE SETUP True True,
     edge_rule IDLE OPTIMIZE True False, edge_rule IDLE EXECUTE True False, edge_rule IDLE ANALYZE True False,
     edge_rule IDLE SUBMIT True False, edge_rule IDLE COMPLETE True False, edge_rule IDLE ERROR True False,
     edge_rule SETUP SETUP False False, edge_rule SETUP ACT False True, edge_rule SETUP IDLE False False,
     edge_rule SETUP OPTIMIZE False True, edge_rule SETUP EXECUTE False True, edge_rule SETUP ANALYZE False False,
     edge_rule SETUP SUBMIT False False, edge_rule SETUP COMPLETE False False, edge_rule SETUP ERROR False False,
     edge_rule OPTIMIZE OPTIMIZE False False, edge_rule OPTIMIZE ACT False True, edge_rule OPTIMIZE IDLE False False,
     edge_rule OPTIMIZE SETUP False False, edge_rule OPTIMIZE EXECUTE False True, edge_rule OPTIMIZE ANALYZE False False,
     edge_rule OPTIMIZE COMPLETE False False, edge_rule OPTIMIZE SUBMIT False False, edge_rule OPTIMIZE ERROR False False,
     edge_rule ACT ACT False True, edge_rule ACT OPTIMIZE False True, edge_rule ACT IDLE False False,
     edge_rule ACT SETUP False True, edge_rule ACT EXECUTE False True, edge_rule ACT ANALYZE False True,
     edge_rule ACT COMPLETE False True, edge_rule ACT SUBMIT False True, edge_rule ACT ERROR False False,
     edge_rule EXECUTE EXECUTE False True, edge_rule EXECUTE ACT False True, edge_rule EXECUTE IDLE False False,
     edge_rule EXECUTE SETUP False True, edge_rule EXECUTE OPTIMIZE False True, edge_rule EXECUTE ANALYZE False True,
     edge_rule EXECUTE SUBMIT False False, edge_rule EXECUTE COMPLETE False False, edge_rule EXECUTE ERROR False False,
     edge_rule ANALYZE ANALYZE False False, edge_rule ANALYZE ACT False True, edge_rule ANALYZE IDLE False False,
     edge_rule ANALYZE SETUP False False, edge_rule ANALYZE OPTIMIZE False False, edge_rule ANALYZE EXECUTE False False,
     edge_rule ANALYZE SUBMIT False True, edge_rule ANALYZE COMPLETE False False, edge_rule ANALYZE ERROR False False,
     edge_rule SUBMIT SUBMIT False True, edge_rule SUBMIT ACT False True, edge_rule SUBMIT IDLE False False,
     edge_rule SUBMIT SETUP False True, edge_rule SUBMIT OPTIMIZE False True, edge_rule SUBMIT EXECUTE False True,
     edge_rule SUBMIT ANALYZE False False, edge_rule SUBMIT COMPLETE False True, edge_rule SUBMIT ERROR False False,
     edge_rule COMPLETE COMPLETE False True, edge_rule COMPLETE ACT False True, edge_rule COMPLETE IDLE False True,
     edge_rule COMPLETE SETUP False True, edge_rule COMPLETE OPTIMIZE False True, edge_rule COMPLETE EXECUTE False True,
     edge_rule COMPLETE ANALYZE False True, edge_rule COMPLETE SUBMIT False True, edge_rule COMPLETE ERROR False False,
     edge_rule ERROR ERROR False False, edge_rule ERROR ACT False False, edge_rule ERROR IDLE False False,
     edge_rule ERROR SETUP False False, edge_rule ERROR OPTIMIZE False False, edge_rule ERROR EXECUTE False False,
     edge_rule ERROR ANALYZE False False, edge_rule ERROR SUBMIT False False, edge_rule ERROR COMPLETE False False]"

definition may_follow :: "stage_type \<Rightarrow> stage_type \<Rightarrow> bool" where
  "may_follow a b \<longleftrightarrow> (case map_of local_transitions (a, b) of None \<Rightarrow> False | Some m \<Rightarrow> is_valid m)"

section \<open>Graphs\<close>

record digraph =
  nodes :: "string list"
  edges :: "(string \<times> string) list"

definition add_node :: "string \<Rightarrow> digraph \<Rightarrow> digraph" where
  "add_node n g = (if n \<in> set (nodes g) then g else g\<lparr>nodes := nodes g @ [n]\<rparr>)"

definition add_edge :: "string \<Rightarrow> string \<Rightarrow> digraph \<Rightarrow> digraph" where
  "add_edge a b g = (if (a, b) \<in> set (edges g) then g else g\<lparr>edges := edges g @ [(a, b)]\<rparr>)"

definition neighbors :: "digraph \<Rightarrow> string \<Rightarrow> string list" where
  "neighbors g n = map snd (filter (\<lambda>e. fst e = n) (edges g))"

definition predecessors :: "digraph \<Rightarrow> string \<Rightarrow> string list" where
  "predecessors g n = map fst (filter (\<lambda>e. snd e = n) (edges g))"

definition isolates :: "digraph \<Rightarrow> string list" where
  "isolates g = filter (\<lambda>n. neighbors g n = [] \<and> predecessors g n = []) (nodes g)"

text \<open>
  What \<open>topological_generations\<close> is documented to yield: the nodes without a predecessor, then those
  without one among the remaining nodes, and so on. \<open>topological\<close> is the hypothesis about the
  library: whenever such generations exist it yields some.
\<close>

definition no_predecessor :: "(string \<times> string) list \<Rightarrow> string list \<Rightarrow> string list" where
  "no_predecessor E ns = filter (\<lambda>n. \<forall>a \<in> set ns. (a, n) \<notin> set E) ns"

fun layered :: "(string \<times> string) list \<Rightarrow> string list \<Rightarrow> string list list \<Rightarrow> bool" where
  "layered E ns [] \<longleftrightarrow> ns = []"
| "layered E ns (l # ls) \<longleftrightarrow>
     l \<noteq> [] \<and> distinct l \<and> set l = set (no_predecessor E ns) \<and>
     layered E (filter (\<lambda>n. n \<notin> set l) ns) ls"

definition generations :: "digraph \<Rightarrow> string list list \<Rightarrow> bool" where
  "generations g gs \<longleftrightarrow> layered (edges g) (nodes g) gs"

definition topological :: "(digraph \<Rightarrow> string list list) \<Rightarrow> bool" where
  "topological gens \<longleftrightarrow> (\<forall>g gs. distinct (nodes g) \<and> generations g gs \<longrightarrow> generations g (gens g))"

section \<open>The graph of a test\<close>

text \<open>A stage class with the attributes its instance starts with.\<close>

record test_stage =
  st_name :: string
  st_type :: stage_type
  st_parallel :: bool
  st_retries :: int
  st_priority :: "string option"
  st_skip :: bool
  st_dependencies :: "string list"

record test_graph =
  graph :: digraph
  execution_order :: "string list list"
  stages :: "(string \<times> test_stage) list"
  instances :: "stage_type \<Rightarrow> nat"

definition link_dependencies :: "test_stage \<Rightarrow> digraph \<Rightarrow> digraph" where
  "link_dependencies s g = foldl (\<lambda>g d. if d \<in> set (nodes g) then add_edge d (st_name s) g else g) g (st_dependencies s)"

definition Graph_init :: "(digraph \<Rightarrow> string list list) \<Rightarrow> (stage_type \<Rightarrow> nat) \<Rightarrow> test_stage list \<Rightarrow> test_graph" where
  "Graph_init gens insts sts =
     (let g = foldl (\<lambda>g s. link_dependencies s g) (foldl (\<lambda>g s. add_node (st_name s) g) \<lparr>nodes = [], edges = []\<rparr> sts) sts
      in \<lparr>graph = g, execution_order = gens g, stages = foldl (\<lambda>d s. AList.update (st_name s) s d) [] sts, instances = insts\<rparr>)"

text \<open>The classes of \<open>stages/idle\<close>, \<open>analyze\<close>, \<open>submit\<close> and \<open>complete\<close> that the graph adds itself.\<close>

definition builtin_name :: "stage_type \<Rightarrow> string" where
  "builtin_name t = (case t of IDLE \<Rightarrow> ''Idle'' | ACT \<Rightarrow> ''Act'' | ANALYZE \<Rightarrow> ''Analyze'' | EXECUTE \<Rightarrow> ''Execute'' | OPTIMIZE \<Rightarrow> ''Optimize''
     | SETUP \<Rightarrow> ''Setup'' | COMPLETE \<Rightarrow> ''Complete'' | SUBMIT \<Rightarrow> ''Submit'' | ERROR \<Rightarrow> ''Error'')"

definition builtin_stage :: "stage_type \<Rightarrow> test_stage" where
  "builtin_stage t = \<lparr>st_name = builtin_name t, st_type = t, st_parallel = (t \<in> {EXECUTE, OPTIMIZE, ANALYZE}), st_retries = 0,
     st_priority = (if t \<in> {IDLE, COMPLETE, ERROR} then None else Some ''auto''), st_skip = False, st_dependencies = []\<rparr>"

text \<open>\<open>_prepend_stage\<close> and \<open>_append_stage\<close>: only the first or the last generation is linked.\<close>

definition prepend_stage :: "(digraph \<Rightarrow> string list list) \<Rightarrow> stage_type \<Rightarrow> test_graph \<Rightarrow> test_graph res" where
  "prepend_stage gens t G =
     (case execution_order G of
        [] \<Rightarrow> Inl IndexError
      | first # _ \<Rightarrow>
          (let s = builtin_stage t;
               g = foldl (\<lambda>g n. add_edge (st_name s) n g) (add_node (st_name s) (graph G)) first
           in Inr (G\<lparr>graph := g, execution_order := gens g, stages := AList.update (st_name s) s (stages G),
                     instances := (instances G)(t := instances G t + 1)\<rparr>)))"

definition append_stage :: "(digraph \<Rightarrow> string list list) \<Rightarrow> stage_type \<Rightarrow> test_graph \<Rightarrow> test_graph res" where
  "append_stage gens t G =
     (if execution_order G = [] then Inl IndexError
      else (let s = builtin_stage t;
                g = foldl (\<lambda>g n. add_edge n (st_name s) g) (add_node (st_name s) (graph G)) (last (execution_order G))
            in Inr (G\<lparr>graph := g, execution_order := gens g, stages := AList.update (st_name s) s (stages G),
                      instances := (instances G)(t := instances G t + 1)\<rparr>)))"

definition append_missing :: "(digraph \<Rightarrow> string list list) \<Rightarrow> stage_type \<Rightarrow> test_graph \<Rightarrow> test_graph res" where
  "append_missing gens t G = (if instances G t < 1 then append_stage gens t G else Inr G)"

section \<open>Groups of transitions\<close>

record stage_transition =
  from_stage :: test_stage
  to_stage :: test_stage
  metadata :: transition_metadata
  transition_idx :: nat

definition edge_name :: "stage_transition \<Rightarrow> string \<times> string" where
  "edge_name t = (st_name (from_stage t), st_name (to_stage t))"

text \<open>
  The workers of one generation: a stage that is not parallel gets one, the parallel ones and Idle share
  the rest. The executor is limited to the cores and raises when it has no worker.
\<close>

definition provision :: "int \<Rightarrow> int \<Rightarrow> test_stage list \<Rightarrow> (string \<times> int) list res" where
  "provision cores cpus sts =
     (let alone = filter (\<lambda>s. \<not> st_parallel s \<and> st_type s \<noteq> IDLE) sts;
          shared = filter (\<lambda>s. st_parallel s \<or> st_type s = IDLE) sts;
          pool = min (cpus - int (length alone)) cores
      in if shared = [] then Inr (map (\<lambda>s. (st_name s, 1)) alone)
         else if pool \<le> 0 then Inl ValueError
         else (case partion_stage_batches False (nat pool) shared of
                 Inl e \<Rightarrow> Inl e
               | Inr shares \<Rightarrow> Inr (map (\<lambda>s. (st_name s, 1)) alone @ map (\<lambda>(s, k). (st_name s, int k)) shares)))"

text \<open>The loop over the neighbours of one stage, and over the stages of one generation; the keys of the
  group's dictionary are the edges of the graph, so every transition is a new entry.\<close>

fun link_neighbors :: "(string \<times> test_stage) list \<Rightarrow> test_stage \<Rightarrow> string list \<Rightarrow> stage_transition list \<Rightarrow> stage_transition list res" where
  "link_neighbors sts s [] grp = Inr grp"
| "link_neighbors sts s (n # ns) grp =
     (case map_of sts n of
        None \<Rightarrow> Inl AttributeError
      | Some d \<Rightarrow>
          (case map_of local_transitions (st_type s, st_type d) of
             None \<Rightarrow> Inl AttributeError
           | Some m \<Rightarrow>
               if is_valid m
               then link_neighbors sts s ns (grp @ [\<lparr>from_stage = s, to_stage = d, metadata = m, transition_idx = length grp\<rparr>])
               else Inl (GenericException ''InvalidTransitionError'')))"

fun link_stages :: "(string \<times> test_stage) list \<Rightarrow> digraph \<Rightarrow> test_stage list \<Rightarrow> stage_transition list \<Rightarrow> stage_transition list res" where
  "link_stages sts g [] grp = Inr grp"
| "link_stages sts g (s # ss) grp =
     (case link_neighbors sts s (neighbors g (st_name s)) grp of
        Inl e \<Rightarrow> Inl e
      | Inr grp' \<Rightarrow> link_stages sts g ss grp')"

fun link_generations :: "int \<Rightarrow> int \<Rightarrow> (string \<times> test_stage) list \<Rightarrow> digraph \<Rightarrow> string list list \<Rightarrow>
    ((string \<times> int) list \<times> stage_transition list) list res" where
  "link_generations cores cpus sts g [] = Inr []"
| "link_generations cores cpus sts g (gen # gs) =
     (case those (map (map_of sts) gen) of
        None \<Rightarrow> Inl AttributeError
      | Some ss \<Rightarrow>
          (case provision cores cpus ss of
             Inl e \<Rightarrow> Inl e
           | Inr ws \<Rightarrow>
               (case link_stages sts g ss [] of
                  Inl e \<Rightarrow> Inl e
                | Inr grp \<Rightarrow>
                    (case link_generations cores cpus sts g gs of
                       Inl e \<Rightarrow> Inl e
                     | Inr groups \<Rightarrow> Inr (if grp \<noteq> [] then (ws, grp) # groups else groups)))))"

definition build_transitions_graph :: "int \<Rightarrow> int \<Rightarrow> test_graph \<Rightarrow> ((string \<times> int) list \<times> stage_transition list) list res" where
  "build_transitions_graph cores cpus G =
     (if isolates (graph G) \<noteq> [] then Inl (GenericException ''IsolatedStageError'')
      else link_generations cores cpus (stages G) (graph G) (execution_order G))"

text \<open>\<open>assemble\<close>: the graph with the added stages, then its groups.\<close>

definition complete_graph :: "(digraph \<Rightarrow> string list list) \<Rightarrow> test_graph \<Rightarrow> test_graph res" where
  "complete_graph gens G =
     (case prepend_stage gens IDLE G of
        Inl e \<Rightarrow> Inl e
      | Inr G \<Rightarrow>
          (case append_missing gens ANALYZE G of
             Inl e \<Rightarrow> Inl e
           | Inr G \<Rightarrow>
               (case append_missing gens SUBMIT G of
                  Inl e \<Rightarrow> Inl e
                | Inr G \<Rightarrow> append_stage gens COMPLETE G)))"

definition assemble :: "(digraph \<Rightarrow> string list list) \<Rightarrow> int \<Rightarrow> int \<Rightarrow> test_graph \<Rightarrow>
    (test_graph \<times> ((string \<times> int) list \<times> stage_transition list) list) res" where
  "assemble gens cores cpus G =
     (case complete_graph gens G of
        Inl e \<Rightarrow> Inl e
      | Inr G' \<Rightarrow> (case build_transitions_graph cores cpus G' of Inl e \<Rightarrow> Inl e | Inr groups \<Rightarrow> Inr (G', groups)))"

section \<open>The table\<close>

lemma table_total: "map_of local_transitions (a, b) \<noteq> None"
  by (cases a; cases b; simp add: local_transitions_def edge_rule_def)

lemma may_follow_analyze: "may_follow a ANALYZE \<longleftrightarrow> a \<in> {ACT, EXECUTE, COMPLETE}"
  by (cases a) (simp_all add: may_follow_def local_transitions_def edge_rule_def)

lemma may_follow_complete: "may_follow a COMPLETE \<longleftrightarrow> a \<in> {ACT, SUBMIT, COMPLETE}"
  by (cases a) (simp_all add: may_follow_def local_transitions_def edge_rule_def)

lemma may_follow_submit: "may_follow a SUBMIT \<longleftrightarrow> a \<in> {ACT, ANALYZE, SUBMIT, COMPLETE}"
  by (cases a) (simp_all add: may_follow_def local_transitions_def edge_rule_def)

lemma may_follow_error: "\<not> may_follow a ERROR" "\<not> may_follow ERROR b"
  by (cases a; simp add: may_follow_def local_transitions_def edge_rule_def)
    (cases b; simp add: may_follow_def local_transitions_def edge_rule_def)

text \<open>A path of stages every step of which is a valid transition.\<close>

fun valid_path :: "stage_type list \<Rightarrow> bool" where
  "valid_path (a # b # p) \<longleftrightarrow> may_follow a b \<and> valid_path (b # p)"
| "valid_path p \<longleftrightarrow> True"

lemma idle_steps: "may_follow a b \<Longrightarrow> a \<in> {IDLE, SETUP, OPTIMIZE} \<Longrightarrow> b \<notin> {ACT, EXECUTE} \<Longrightarrow> b \<in> {IDLE, SETUP, OPTIMIZE}"
  by (cases b) (auto simp: may_follow_analyze may_follow_complete may_follow_submit may_follow_error)

lemma idle_path:
  "valid_path (a # p) \<Longrightarrow> a \<in> {IDLE, SETUP, OPTIMIZE} \<Longrightarrow> ACT \<notin> set p \<Longrightarrow> EXECUTE \<notin> set p \<Longrightarrow> set p \<subseteq> {IDLE, SETUP, OPTIMIZE}"
proof (induction p arbitrary: a)
  case (Cons b p)
  then have "b \<noteq> ACT" "b \<noteq> EXECUTE" "may_follow a b" by auto
  then have "b \<in> {IDLE, SETUP, OPTIMIZE}" using idle_steps [of a b] Cons.prems(2) by blast
  then show ?case using Cons.IH [of b] Cons.prems by simp
qed simp

text \<open>Results are only analysed, submitted or reported as complete after requests have been made: on every
  valid path that starts at Idle, an Act or an Execute stage precedes them.\<close>

theorem results_need_requests:
  assumes "valid_path (IDLE # p)" "last (IDLE # p) \<in> {ANALYZE, SUBMIT, COMPLETE}"
  shows "ACT \<in> set p \<or> EXECUTE \<in> set p"
proof (rule ccontr)
  assume "\<not> (ACT \<in> set p \<or> EXECUTE \<in> set p)"
  then have "set p \<subseteq> {IDLE, SETUP, OPTIMIZE}" using idle_path [of IDLE p] assms(1) by simp
  moreover have "p \<noteq> []" "last p \<in> {ANALYZE, SUBMIT, COMPLETE}" using assms(2) by (auto split: if_splits)
  ultimately have "last p \<in> {IDLE, SETUP, OPTIMIZE} \<inter> {ANALYZE, SUBMIT, COMPLETE}" using last_in_set [of p] by blast
  then show False by simp
qed

theorem results_need_requests_witness: "ACT \<in> set [SETUP, EXECUTE, ANALYZE] \<or> EXECUTE \<in> set [SETUP, EXECUTE, ANALYZE]"
  by (rule results_need_requests) (simp_all add: may_follow_analyze may_follow_def local_transitions_def edge_rule_def)

section \<open>Generations\<close>

lemma no_predecessor_subset: "set (no_predecessor E ns) \<subseteq> set ns"
  by (auto simp: no_predecessor_def)

declare layered.simps(2) [simp del]

lemma layered_head: "layered E ns (l # ls) \<Longrightarrow> l \<noteq> [] \<and> distinct l \<and> set l = set (no_predecessor E ns)"
  using layered.simps(2) [of E ns l ls] by blast

lemma layered_tail: "layered E ns (l # ls) \<Longrightarrow> layered E (filter (\<lambda>n. n \<notin> set l) ns) ls"
  using layered.simps(2) [of E ns l ls] by blast

lemma layered_nodes: "layered E ns gs \<Longrightarrow> set (concat gs) = set ns"
proof (induction gs arbitrary: ns)
  case (Cons l gs)
  have "set (concat gs) = set (filter (\<lambda>n. n \<notin> set l) ns)" by (rule Cons.IH [OF layered_tail [OF Cons.prems]])
  moreover have "set l \<subseteq> set ns" using layered_head [OF Cons.prems] no_predecessor_subset by metis
  ultimately show ?case by auto
qed simp

lemma layered_nonempty: "layered E ns gs \<Longrightarrow> l \<in> set gs \<Longrightarrow> l \<noteq> [] \<and> distinct l \<and> set l \<subseteq> set ns"
proof (induction gs arbitrary: ns)
  case (Cons k gs)
  have k: "k \<noteq> [] \<and> distinct k \<and> set k \<subseteq> set ns" using layered_head [OF Cons.prems(1)] no_predecessor_subset [of E ns] by simp
  from Cons.IH [OF layered_tail [OF Cons.prems(1)]] k Cons.prems(2) show ?case by auto
qed simp

lemma layered_unique: "layered E ns gs \<Longrightarrow> layered E ns hs \<Longrightarrow> map set gs = map set hs"
proof (induction gs arbitrary: ns hs)
  case Nil
  then show ?case by (cases hs) (auto simp: no_predecessor_def dest: layered_head)
next
  case (Cons l gs)
  then obtain k hs' where hs: "hs = k # hs'" by (cases hs) (auto simp: no_predecessor_def dest: layered_head)
  then have k: "set l = set k" using Cons.prems layered_head by metis
  have "layered E (filter (\<lambda>n. n \<notin> set l) ns) gs" "layered E (filter (\<lambda>n. n \<notin> set l) ns) hs'"
    using layered_tail Cons.prems hs k by metis+
  from Cons.IH [OF this] k hs show ?case by simp
qed

lemma layered_edges:
  "\<forall>a \<in> set ns. \<forall>n \<in> set ns. (a, n) \<in> set E \<longleftrightarrow> (a, n) \<in> set E' \<Longrightarrow> layered E ns gs \<longleftrightarrow> layered E' ns gs"
proof (induction gs arbitrary: ns)
  case (Cons l gs)
  have "set (no_predecessor E ns) = set (no_predecessor E' ns)" using Cons.prems by (auto simp: no_predecessor_def)
  moreover have "layered E (filter (\<lambda>n. n \<notin> set l) ns) gs \<longleftrightarrow> layered E' (filter (\<lambda>n. n \<notin> set l) ns) gs"
    by (rule Cons.IH) (use Cons.prems in simp)
  ultimately show ?case by (simp add: layered.simps(2))
qed simp

lemma layered_prepend:
  assumes "layered E ns gs" "gs \<noteq> []" "r \<notin> set ns"
    "\<forall>a \<in> set ns. \<forall>n \<in> set ns. (a, n) \<in> set E \<longleftrightarrow> (a, n) \<in> set E'"
    "\<forall>a. (a, r) \<notin> set E'" "\<forall>n \<in> set (hd gs). (r, n) \<in> set E'"
  shows "layered E' (ns @ [r]) ([r] # gs)"
proof -
  obtain l ls where gs: "gs = l # ls" using assms(2) by (cases gs) auto
  have "\<exists>a \<in> set (ns @ [r]). (a, n) \<in> set E'" if "n \<in> set ns" for n
  proof (cases "n \<in> set l")
    case True
    then show ?thesis using assms(6) gs by auto
  next
    case False
    then have "n \<notin> set (no_predecessor E ns)" using layered_head assms(1) gs by metis
    then show ?thesis using that assms(4) by (auto simp: no_predecessor_def)
  qed
  then have "set [r] = set (no_predecessor E' (ns @ [r]))"
    using assms(5) by (fastforce simp: no_predecessor_def)
  moreover have "filter (\<lambda>n. n \<notin> set [r]) (ns @ [r]) = ns" using assms(3) by (auto simp: filter_id_conv)
  moreover have "layered E' ns gs" using layered_edges [OF assms(4)] assms(1) by blast
  ultimately show ?thesis using layered.simps(2) [of E' "ns @ [r]" "[r]" gs] by (metis distinct_singleton list.distinct(1))
qed

lemma layered_append:
  assumes "layered E ns gs" "gs \<noteq> []" "x \<notin> set ns"
    "\<forall>a \<in> set ns. \<forall>n \<in> set ns. (a, n) \<in> set E \<longleftrightarrow> (a, n) \<in> set E'"
    "\<forall>n. (x, n) \<notin> set E'" "\<forall>a \<in> set ns. (a, x) \<in> set E' \<longleftrightarrow> a \<in> set (last gs)"
  shows "layered E' (ns @ [x]) (gs @ [[x]])"
  using assms
proof (induction gs arbitrary: ns)
  case (Cons l gs)
  let ?rest = "filter (\<lambda>n. n \<notin> set l) ns"
  have "last (l # gs) \<in> set (l # gs)" by (rule last_in_set) simp
  then have last: "last (l # gs) \<noteq> []" "set (last (l # gs)) \<subseteq> set ns" using layered_nonempty [OF Cons.prems(1)] by blast+
  then obtain a where a: "a \<in> set ns" "(a, x) \<in> set E'" using Cons.prems(6) by (cases "last (l # gs)") auto
  have head: "l \<noteq> []" "distinct l" "set l = set (no_predecessor E ns)" using layered_head [OF Cons.prems(1)] by simp_all
  note head(3)
  also have "\<dots> = set (no_predecessor E' (ns @ [x]))"
    using Cons.prems(4,5) a by (auto simp: no_predecessor_def)
  finally have l: "set l = set (no_predecessor E' (ns @ [x]))" .
  have "set l \<subseteq> set ns" using head(3) no_predecessor_subset [of E ns] by simp
  then have rest: "filter (\<lambda>n. n \<notin> set l) (ns @ [x]) = ?rest @ [x]" using Cons.prems(3) by auto
  have "layered E' (?rest @ [x]) (gs @ [[x]])"
  proof (cases "gs = []")
    case True
    then have "?rest = []" using layered_tail [OF Cons.prems(1)] by simp
    then show ?thesis using True Cons.prems(5) by (simp add: no_predecessor_def layered.simps(2))
  next
    case False
    have "last gs = last (l # gs)" using False by simp
    then show ?thesis using Cons.prems(3-6) layered_tail [OF Cons.prems(1)] False by (intro Cons.IH) auto
  qed
  then show ?case using l rest head(1,2) layered.simps(2) [of E' "ns @ [x]" l "gs @ [[x]]"] by simp
qed simp

section \<open>The groups follow the graph\<close>

definition names_ok :: "(string \<times> test_stage) list \<Rightarrow> bool" where
  "names_ok sts \<longleftrightarrow> (\<forall>n d. map_of sts n = Some d \<longrightarrow> st_name d = n)"

definition type_at :: "(string \<times> test_stage) list \<Rightarrow> string \<Rightarrow> stage_type" where
  "type_at sts n = st_type (the (map_of sts n))"

lemma link_neighbors_names:
  "link_neighbors sts s ns grp = Inr grp' \<Longrightarrow> names_ok sts \<Longrightarrow>
     map edge_name grp' = map edge_name grp @ map (\<lambda>n. (st_name s, n)) ns \<and> (\<forall>n \<in> set ns. may_follow (st_type s) (type_at sts n))"
proof (induction ns arbitrary: grp)
  case (Cons n ns)
  then obtain d m where d: "map_of sts n = Some d" "map_of local_transitions (st_type s, st_type d) = Some m" "is_valid m"
    by (auto split: option.splits if_splits)
  let ?t = "\<lparr>from_stage = s, to_stage = d, metadata = m, transition_idx = length grp\<rparr>"
  have n: "st_name d = n" using Cons.prems(2) d(1) by (auto simp: names_ok_def)
  have "link_neighbors sts s ns (grp @ [?t]) = Inr grp'" using Cons.prems(1) d by simp
  from Cons.IH [OF this Cons.prems(2)] n d show ?case by (simp add: edge_name_def may_follow_def type_at_def)
qed simp

lemma link_neighbors_ok:
  "\<forall>n \<in> set ns. map_of sts n \<noteq> None \<and> may_follow (st_type s) (type_at sts n) \<Longrightarrow> \<exists>grp'. link_neighbors sts s ns grp = Inr grp'"
proof (induction ns arbitrary: grp)
  case (Cons n ns)
  then obtain d where d: "map_of sts n = Some d" by auto
  moreover have "may_follow (st_type s) (st_type d)" using Cons.prems d by (simp add: type_at_def)
  ultimately show ?case using Cons by (auto simp: may_follow_def split: option.splits)
qed simp

lemma link_stages_names:
  "link_stages sts g ss grp = Inr grp' \<Longrightarrow> names_ok sts \<Longrightarrow>
     map edge_name grp' = map edge_name grp @ concat (map (\<lambda>s. map (Pair (st_name s)) (neighbors g (st_name s))) ss) \<and>
     (\<forall>s \<in> set ss. \<forall>n \<in> set (neighbors g (st_name s)). may_follow (st_type s) (type_at sts n))"
proof (induction ss arbitrary: grp)
  case (Cons s ss)
  then obtain mid where m: "link_neighbors sts s (neighbors g (st_name s)) grp = Inr mid" "link_stages sts g ss mid = Inr grp'"
    by (auto split: sum.splits)
  show ?case using link_neighbors_names [OF m(1) Cons.prems(2)] Cons.IH [OF m(2) Cons.prems(2)] by simp
qed simp

lemma link_stages_ok:
  "\<forall>s \<in> set ss. \<forall>n \<in> set (neighbors g (st_name s)). map_of sts n \<noteq> None \<and> may_follow (st_type s) (type_at sts n) \<Longrightarrow>
     \<exists>grp'. link_stages sts g ss grp = Inr grp'"
proof (induction ss arbitrary: grp)
  case (Cons s ss)
  obtain mid where "link_neighbors sts s (neighbors g (st_name s)) grp = Inr mid"
    using link_neighbors_ok [of "neighbors g (st_name s)" sts s grp] Cons.prems by auto
  then show ?case using Cons by simp
qed simp

text \<open>The stages of a generation, looked up by name.\<close>

definition stages_at :: "(string \<times> test_stage) list \<Rightarrow> string list \<Rightarrow> test_stage list" where
  "stages_at sts gen = map (\<lambda>n. the (map_of sts n)) gen"

lemma those_stages: "\<forall>n \<in> set gen. map_of sts n \<noteq> None \<Longrightarrow> those (map (map_of sts) gen) = Some (stages_at sts gen)"
  by (induction gen) (auto simp: stages_at_def)

lemma those_known: "those (map f xs) = Some ys \<Longrightarrow> \<forall>x \<in> set xs. f x \<noteq> None"
  by (induction xs arbitrary: ys) (auto split: option.splits)

lemma provision_ok:
  assumes "int (length (filter (\<lambda>s. \<not> st_parallel s \<and> st_type s \<noteq> IDLE) ss)) < cpus" "0 < cores"
  shows "\<exists>ws. provision cores cpus ss = Inr ws"
proof -
  have "\<not> min (cpus - int (length (filter (\<lambda>s. \<not> st_parallel s \<and> st_type s \<noteq> IDLE) ss))) cores \<le> 0" using assms by simp
  then show ?thesis by (simp add: provision_def Let_def partion_stage_batches_def)
qed

text \<open>All the edges that leave one generation, in the order of the group.\<close>

definition edges_from :: "digraph \<Rightarrow> string list \<Rightarrow> (string \<times> string) list" where
  "edges_from g gen = concat (map (\<lambda>n. map (Pair n) (neighbors g n)) gen)"

lemma link_generations_names:
  assumes "names_ok sts"
  shows "link_generations cores cpus sts g gs = Inr groups \<Longrightarrow>
     map (map edge_name \<circ> snd) groups = filter (\<lambda>es. es \<noteq> []) (map (edges_from g) gs) \<and>
     (\<forall>gen \<in> set gs. \<forall>a \<in> set gen. \<forall>b \<in> set (neighbors g a). may_follow (type_at sts a) (type_at sts b))"
proof (induction gs arbitrary: groups)
  case (Cons gen gs)
  then obtain ss ws grp rest where r: "those (map (map_of sts) gen) = Some ss" "provision cores cpus ss = Inr ws"
    "link_stages sts g ss [] = Inr grp" "link_generations cores cpus sts g gs = Inr rest"
    "groups = (if grp \<noteq> [] then (ws, grp) # rest else rest)"
    by (auto split: option.splits sum.splits)
  have known: "\<forall>n \<in> set gen. map_of sts n \<noteq> None" using those_known [OF r(1)] .
  then have ss: "ss = stages_at sts gen" using those_stages r(1) by fastforce
  have names: "st_name (the (map_of sts n)) = n" if "n \<in> set gen" for n
    using known assms that by (auto simp: names_ok_def)
  note l = link_stages_names [OF r(3) assms]
  have "map (\<lambda>s. map (Pair (st_name s)) (neighbors g (st_name s))) (stages_at sts gen) = map (\<lambda>n. map (Pair n) (neighbors g n)) gen"
    using names by (simp add: stages_at_def)
  then have "map edge_name grp = edges_from g gen" using l ss by (simp add: edges_from_def)
  moreover have "\<forall>a \<in> set gen. \<forall>b \<in> set (neighbors g a). may_follow (type_at sts a) (type_at sts b)"
    using l ss names by (auto simp: stages_at_def type_at_def)
  ultimately show ?case using Cons.IH [OF r(4)] r(5) by auto
qed simp

lemma link_generations_ok:
  assumes "names_ok sts" "\<forall>gen \<in> set gs. \<forall>a \<in> set gen. map_of sts a \<noteq> None \<and> (\<forall>b \<in> set (neighbors g a). map_of sts b \<noteq> None)"
    "\<forall>gen \<in> set gs. \<exists>ws. provision cores cpus (stages_at sts gen) = Inr ws"
    "\<forall>gen \<in> set gs. \<forall>a \<in> set gen. \<forall>b \<in> set (neighbors g a). may_follow (type_at sts a) (type_at sts b)"
  shows "\<exists>groups. link_generations cores cpus sts g gs = Inr groups"
  using assms(2-4)
proof (induction gs)
  case (Cons gen gs)
  then obtain rest ws where r: "link_generations cores cpus sts g gs = Inr rest" "provision cores cpus (stages_at sts gen) = Inr ws"
    by auto
  have "st_name (the (map_of sts n)) = n" if "n \<in> set gen" for n
    using Cons.prems(1) assms(1) that by (fastforce simp: names_ok_def)
  then have "\<forall>s \<in> set (stages_at sts gen). \<forall>n \<in> set (neighbors g (st_name s)). map_of sts n \<noteq> None \<and> may_follow (st_type s) (type_at sts n)"
    using Cons.prems(1,3) by (auto simp: stages_at_def type_at_def)
  then obtain grp where "link_stages sts g (stages_at sts gen) [] = Inr grp" using link_stages_ok by blast
  moreover have "those (map (map_of sts) gen) = Some (stages_at sts gen)" using Cons.prems(1) by (intro those_stages) simp
  ultimately show ?case using r by simp
qed simp

section \<open>Assembled graphs\<close>

definition graph_ok :: "test_graph \<Rightarrow> bool" where
  "graph_ok G \<longleftrightarrow> distinct (nodes (graph G)) \<and> set (edges (graph G)) \<subseteq> set (nodes (graph G)) \<times> set (nodes (graph G)) \<and>
     generations (graph G) (execution_order G) \<and> names_ok (stages G) \<and>
     (\<forall>n. map_of (stages G) n \<noteq> None \<longleftrightarrow> n \<in> set (nodes (graph G)))"

lemma neighbors_iff: "b \<in> set (neighbors g a) \<longleftrightarrow> (a, b) \<in> set (edges g)"
  by (auto simp: neighbors_def image_iff)

text \<open>C12: Building the groups succeeds exactly when no stage is isolated and every edge is a valid transition,
  given that each generation leaves a worker for its parallel stages.\<close>

theorem groups_built_iff_valid:
  assumes "graph_ok G" "0 < cores"
    "\<forall>gen \<in> set (execution_order G). int (length (filter (\<lambda>s. \<not> st_parallel s \<and> st_type s \<noteq> IDLE) (stages_at (stages G) gen))) < cpus"
  shows "(\<exists>groups. build_transitions_graph cores cpus G = Inr groups) \<longleftrightarrow>
    isolates (graph G) = [] \<and> (\<forall>(a, b) \<in> set (edges (graph G)). may_follow (type_at (stages G) a) (type_at (stages G) b))"
proof -
  have n: "names_ok (stages G)" using assms(1) by (simp add: graph_ok_def)
  have o: "set (concat (execution_order G)) = set (nodes (graph G))"
    by (rule layered_nodes [of "edges (graph G)"]) (use assms(1) in \<open>simp add: graph_ok_def generations_def\<close>)
  have "set (edges (graph G)) \<subseteq> set (nodes (graph G)) \<times> set (nodes (graph G))" using assms(1) by (simp add: graph_ok_def)
  then have e: "(\<forall>gen \<in> set (execution_order G). \<forall>a \<in> set gen. \<forall>b \<in> set (neighbors (graph G) a). P a b) \<longleftrightarrow>
      (\<forall>(a, b) \<in> set (edges (graph G)). P a b)" for P
  proof -
    have "(\<forall>gen \<in> set (execution_order G). \<forall>a \<in> set gen. \<forall>b \<in> set (neighbors (graph G) a). P a b) \<longleftrightarrow>
        (\<forall>a \<in> set (concat (execution_order G)). \<forall>b. (a, b) \<in> set (edges (graph G)) \<longrightarrow> P a b)"
      by (simp add: neighbors_iff Ball_def) blast
    with \<open>set (edges (graph G)) \<subseteq> _\<close> show ?thesis unfolding o by blast
  qed
  have known: "\<forall>gen \<in> set (execution_order G). \<forall>a \<in> set gen.
      map_of (stages G) a \<noteq> None \<and> (\<forall>b \<in> set (neighbors (graph G) a). map_of (stages G) b \<noteq> None)"
    using assms(1) o by (auto simp: graph_ok_def neighbors_iff)
  have p: "\<forall>gen \<in> set (execution_order G). \<exists>ws. provision cores cpus (stages_at (stages G) gen) = Inr ws"
    using provision_ok assms(2,3) by blast
  let ?valid = "\<lambda>a b. may_follow (type_at (stages G) a) (type_at (stages G) b)"
  show ?thesis
  proof
    assume "\<exists>groups. build_transitions_graph cores cpus G = Inr groups"
    then obtain groups where "isolates (graph G) = []" "link_generations cores cpus (stages G) (graph G) (execution_order G) = Inr groups"
      by (auto simp: build_transitions_graph_def split: if_splits)
    with link_generations_names [OF n this(2)] e [of ?valid]
    show "isolates (graph G) = [] \<and> (\<forall>(a, b) \<in> set (edges (graph G)). ?valid a b)" by simp
  next
    assume a: "isolates (graph G) = [] \<and> (\<forall>(a, b) \<in> set (edges (graph G)). ?valid a b)"
    with link_generations_ok [OF n known p] e [of ?valid]
    show "\<exists>groups. build_transitions_graph cores cpus G = Inr groups" by (simp add: build_transitions_graph_def)
  qed
qed

lemma add_edges_to: "set (edges (foldl (\<lambda>g n. add_edge n x g) g l)) = set (edges g) \<union> (\<lambda>n. (n, x)) ` set l \<and> nodes (foldl (\<lambda>g n. add_edge n x g) g l) = nodes g"
  by (induction l arbitrary: g) (auto simp: add_edge_def)

lemma add_edges_from: "set (edges (foldl (\<lambda>g n. add_edge x n g) g l)) = set (edges g) \<union> (\<lambda>n. (x, n)) ` set l \<and> nodes (foldl (\<lambda>g n. add_edge x n g) g l) = nodes g"
  by (induction l arbitrary: g) (auto simp: add_edge_def)

lemma names_ok_update: "names_ok sts \<Longrightarrow> st_name s = n \<Longrightarrow> names_ok (AList.update n s sts)"
  by (auto simp: names_ok_def update_conv' fun_upd_def split: if_splits)

lemma names_known_update:
  "\<forall>m. map_of sts m \<noteq> None \<longleftrightarrow> m \<in> N \<Longrightarrow> \<forall>m. map_of (AList.update n s sts) m \<noteq> None \<longleftrightarrow> m \<in> insert n N"
  by (auto simp: update_conv' fun_upd_def)

lemma order_nonempty: "graph_ok G \<Longrightarrow> execution_order G \<noteq> [] \<Longrightarrow> hd (execution_order G) \<noteq> [] \<and> last (execution_order G) \<noteq> [] \<and>
    set (hd (execution_order G)) \<subseteq> set (nodes (graph G)) \<and> set (last (execution_order G)) \<subseteq> set (nodes (graph G))"
  using layered_nonempty [of "edges (graph G)" "nodes (graph G)" "execution_order G"] by (auto simp: graph_ok_def generations_def)

text \<open>Whatever the library yields for a graph with known generations has the same stages in each.\<close>

lemma topological_same:
  assumes "topological gens" "distinct (nodes g)" "generations g gs"
  shows "generations g (gens g) \<and> map set (gens g) = map set gs"
proof -
  have "generations g (gens g)" using assms unfolding topological_def by blast
  then show ?thesis using assms(3) layered_unique unfolding generations_def by blast
qed

lemma append_stage_ok:
  assumes "topological gens" "graph_ok G" "execution_order G \<noteq> []" "builtin_name t \<notin> set (nodes (graph G))"
  shows "\<exists>G'. append_stage gens t G = Inr G' \<and> graph_ok G' \<and>
    map set (execution_order G') = map set (execution_order G) @ [{builtin_name t}] \<and>
    set (nodes (graph G')) = insert (builtin_name t) (set (nodes (graph G))) \<and>
    set (edges (graph G')) = set (edges (graph G)) \<union> (\<lambda>n. (n, builtin_name t)) ` set (last (execution_order G)) \<and>
    instances G' = (instances G)(t := instances G t + 1) \<and>
    stages G' = AList.update (builtin_name t) (builtin_stage t) (stages G)"
proof -
  let ?x = "builtin_name t" and ?o = "execution_order G"
  let ?g = "foldl (\<lambda>g n. add_edge n ?x g) (add_node ?x (graph G)) (last ?o)"
  let ?G = "G\<lparr>graph := ?g, execution_order := gens ?g, stages := AList.update ?x (builtin_stage t) (stages G),
    instances := (instances G)(t := instances G t + 1)\<rparr>"
  have name: "st_name (builtin_stage t) = ?x" by (simp add: builtin_stage_def)
  have g: "nodes ?g = nodes (graph G) @ [?x]" "set (edges ?g) = set (edges (graph G)) \<union> (\<lambda>n. (n, ?x)) ` set (last ?o)"
    using assms(4) by (simp_all add: add_edges_to add_node_def)
  have ok: "distinct (nodes (graph G))" "set (edges (graph G)) \<subseteq> set (nodes (graph G)) \<times> set (nodes (graph G))"
    "layered (edges (graph G)) (nodes (graph G)) ?o" "names_ok (stages G)"
    "\<forall>n. map_of (stages G) n \<noteq> None \<longleftrightarrow> n \<in> set (nodes (graph G))"
    using assms(2) by (auto simp: graph_ok_def generations_def)
  note last = order_nonempty [OF assms(2,3)]
  have "layered (edges ?g) (nodes (graph G) @ [?x]) (?o @ [[?x]])"
    by (rule layered_append [OF ok(3) assms(3,4)]) (use ok(2) g(2) assms(4) last in auto)
  then have "generations ?g (?o @ [[?x]])" using g(1) by (simp add: generations_def)
  moreover have "distinct (nodes ?g)" using g(1) ok(1) assms(4) by simp
  ultimately have gens: "generations ?g (gens ?g)" "map set (gens ?g) = map set ?o @ [{?x}]"
    using topological_same [OF assms(1)] by auto
  have "graph_ok ?G"
    using ok(1,2) last g gens(1) assms(4) names_ok_update [OF ok(4) name] names_known_update [OF ok(5), of ?x "builtin_stage t"]
    by (auto simp: graph_ok_def)
  moreover have "append_stage gens t G = Inr ?G" using assms(3) name by (simp add: append_stage_def Let_def)
  ultimately show ?thesis using g gens(2) by auto
qed

lemma prepend_stage_ok:
  assumes "topological gens" "graph_ok G" "execution_order G \<noteq> []" "builtin_name t \<notin> set (nodes (graph G))"
  shows "\<exists>G'. prepend_stage gens t G = Inr G' \<and> graph_ok G' \<and>
    map set (execution_order G') = {builtin_name t} # map set (execution_order G) \<and>
    set (nodes (graph G')) = insert (builtin_name t) (set (nodes (graph G))) \<and>
    set (edges (graph G')) = set (edges (graph G)) \<union> (\<lambda>n. (builtin_name t, n)) ` set (hd (execution_order G)) \<and>
    instances G' = (instances G)(t := instances G t + 1) \<and>
    stages G' = AList.update (builtin_name t) (builtin_stage t) (stages G)"
proof -
  let ?x = "builtin_name t" and ?o = "execution_order G"
  let ?g = "foldl (\<lambda>g n. add_edge ?x n g) (add_node ?x (graph G)) (hd ?o)"
  let ?G = "G\<lparr>graph := ?g, execution_order := gens ?g, stages := AList.update ?x (builtin_stage t) (stages G),
    instances := (instances G)(t := instances G t + 1)\<rparr>"
  have name: "st_name (builtin_stage t) = ?x" by (simp add: builtin_stage_def)
  have g: "nodes ?g = nodes (graph G) @ [?x]" "set (edges ?g) = set (edges (graph G)) \<union> (\<lambda>n. (?x, n)) ` set (hd ?o)"
    using assms(4) by (simp_all add: add_edges_from add_node_def)
  have ok: "distinct (nodes (graph G))" "set (edges (graph G)) \<subseteq> set (nodes (graph G)) \<times> set (nodes (graph G))"
    "layered (edges (graph G)) (nodes (graph G)) ?o" "names_ok (stages G)"
    "\<forall>n. map_of (stages G) n \<noteq> None \<longleftrightarrow> n \<in> set (nodes (graph G))"
    using assms(2) by (auto simp: graph_ok_def generations_def)
  note first = order_nonempty [OF assms(2,3)]
  have "layered (edges ?g) (nodes (graph G) @ [?x]) ([?x] # ?o)"
    by (rule layered_prepend [OF ok(3) assms(3,4)]) (use ok(2) g(2) assms(4) first in auto)
  then have "generations ?g ([?x] # ?o)" using g(1) by (simp add: generations_def)
  moreover have "distinct (nodes ?g)" using g(1) ok(1) assms(4) by simp
  ultimately have gens: "generations ?g (gens ?g)" "map set (gens ?g) = {?x} # map set ?o"
    using topological_same [OF assms(1)] by auto
  have "graph_ok ?G"
    using ok(1,2) first g gens(1) assms(4) names_ok_update [OF ok(4) name] names_known_update [OF ok(5), of ?x "builtin_stage t"]
    by (auto simp: graph_ok_def)
  moreover have "prepend_stage gens t G = Inr ?G" using assms(3) name by (cases ?o) (simp_all add: prepend_stage_def Let_def)
  ultimately show ?thesis using g gens(2) by auto
qed

lemma builtin_name_inject [simp]: "builtin_name s = builtin_name t \<longleftrightarrow> s = t"
  by (cases s; cases t; simp add: builtin_name_def)

text \<open>The stages \<open>assemble\<close> appends: Analyze and Submit when the test has none, and always Complete.\<close>

definition added_types :: "(stage_type \<Rightarrow> nat) \<Rightarrow> stage_type list" where
  "added_types insts = filter (\<lambda>t. insts t < 1) [ANALYZE, SUBMIT] @ [COMPLETE]"

fun append_all :: "(digraph \<Rightarrow> string list list) \<Rightarrow> stage_type list \<Rightarrow> test_graph \<Rightarrow> test_graph res" where
  "append_all gens [] G = Inr G"
| "append_all gens (t # ts) G = (case append_stage gens t G of Inl e \<Rightarrow> Inl e | Inr G' \<Rightarrow> append_all gens ts G')"

lemma append_stage_instances: "append_stage gens t G = Inr G' \<Longrightarrow> instances G' = (instances G)(t := instances G t + 1)"
  by (auto simp: append_stage_def Let_def split: if_splits)

lemma complete_graph_eq:
  "complete_graph gens G = (case prepend_stage gens IDLE G of Inl e \<Rightarrow> Inl e | Inr G1 \<Rightarrow> append_all gens (added_types (instances G1)) G1)"
  by (auto simp: complete_graph_def append_missing_def added_types_def split: sum.splits dest!: append_stage_instances)

lemma last_map_set: "map set xs = map set ys @ [S] \<Longrightarrow> xs \<noteq> [] \<and> set (last xs) = S"
  by (cases xs rule: rev_cases) auto

lemma append_all_ok:
  assumes "topological gens" "distinct ts" "\<forall>t \<in> set ts. builtin_name t \<notin> set (nodes (graph G))" "graph_ok G" "execution_order G \<noteq> []"
  shows "\<exists>G'. append_all gens ts G = Inr G' \<and> graph_ok G' \<and>
    map set (execution_order G') = map set (execution_order G) @ map (\<lambda>t. {builtin_name t}) ts \<and>
    (\<forall>n \<in> set (nodes (graph G)). map_of (stages G') n = map_of (stages G) n) \<and>
    (\<forall>a \<in> set (nodes (graph G)) - set (last (execution_order G)). \<forall>b. (a, b) \<in> set (edges (graph G')) \<longleftrightarrow> (a, b) \<in> set (edges (graph G))) \<and>
    (\<forall>a \<in> set (last (execution_order G)). \<forall>b. (a, b) \<in> set (edges (graph G')) \<longleftrightarrow>
       (a, b) \<in> set (edges (graph G)) \<or> ts \<noteq> [] \<and> b = builtin_name (hd ts))"
  using assms(2-)
proof (induction ts arbitrary: G)
  case (Cons t ts)
  let ?x = "builtin_name t"
  obtain G1 where g1: "append_stage gens t G = Inr G1" "graph_ok G1"
    "map set (execution_order G1) = map set (execution_order G) @ [{?x}]"
    "set (nodes (graph G1)) = insert ?x (set (nodes (graph G)))"
    "set (edges (graph G1)) = set (edges (graph G)) \<union> (\<lambda>n. (n, ?x)) ` set (last (execution_order G))"
    "stages G1 = AList.update ?x (builtin_stage t) (stages G)"
    using append_stage_ok [OF assms(1) Cons.prems(3,4), of t] Cons.prems(2) by auto
  note l1 = last_map_set [OF g1(3)]
  have x: "?x \<notin> set (nodes (graph G))" using Cons.prems(2) by simp
  have "\<forall>u \<in> set ts. builtin_name u \<notin> set (nodes (graph G1))" using Cons.prems(1,2) g1(4) by auto
  then obtain G' where g': "append_all gens ts G1 = Inr G'" "graph_ok G'"
    "map set (execution_order G') = map set (execution_order G1) @ map (\<lambda>t. {builtin_name t}) ts"
    "\<forall>n \<in> set (nodes (graph G1)). map_of (stages G') n = map_of (stages G1) n"
    "\<forall>a \<in> set (nodes (graph G1)) - set (last (execution_order G1)). \<forall>b. (a, b) \<in> set (edges (graph G')) \<longleftrightarrow> (a, b) \<in> set (edges (graph G1))"
    using Cons.IH [OF _ _ g1(2)] Cons.prems(1) l1 by auto
  have keep: "\<forall>a \<in> set (nodes (graph G)). \<forall>b. (a, b) \<in> set (edges (graph G')) \<longleftrightarrow> (a, b) \<in> set (edges (graph G1))"
    using g'(5) g1(4) l1 x by auto
  have "\<forall>n \<in> set (nodes (graph G)). map_of (stages G') n = map_of (stages G) n"
    using g'(4) g1(4,6) x by (auto simp: update_conv')
  moreover note order_nonempty [OF Cons.prems(3,4)]
  ultimately show ?case using g'(1,2,3) g1(1,3,5) keep by (intro exI [of _ G']) (auto simp: image_iff)
qed simp

text \<open>The assembled graph: Idle comes first, the generations of the test keep their order, and the added
  stages follow one by one. Only the last generation of the test gets an edge to them.\<close>

lemma completed_graph:
  assumes "topological gens" "graph_ok G" "execution_order G \<noteq> []"
    "\<forall>t \<in> {IDLE, ANALYZE, SUBMIT, COMPLETE}. builtin_name t \<notin> set (nodes (graph G))"
  shows "\<exists>G'. complete_graph gens G = Inr G' \<and> graph_ok G' \<and>
    map set (execution_order G') = {''Idle''} # map set (execution_order G) @ map (\<lambda>t. {builtin_name t}) (added_types (instances G)) \<and>
    (\<forall>n \<in> set (nodes (graph G)). map_of (stages G') n = map_of (stages G) n) \<and>
    (\<forall>a \<in> set (nodes (graph G)) - set (last (execution_order G)). \<forall>b. (a, b) \<in> set (edges (graph G')) \<longleftrightarrow> (a, b) \<in> set (edges (graph G))) \<and>
    (\<forall>a \<in> set (last (execution_order G)). \<forall>b. (a, b) \<in> set (edges (graph G')) \<longleftrightarrow>
       (a, b) \<in> set (edges (graph G)) \<or> b = builtin_name (hd (added_types (instances G))))"
proof -
  obtain G1 where g1: "prepend_stage gens IDLE G = Inr G1" "graph_ok G1"
    "map set (execution_order G1) = {builtin_name IDLE} # map set (execution_order G)"
    "set (nodes (graph G1)) = insert (builtin_name IDLE) (set (nodes (graph G)))"
    "set (edges (graph G1)) = set (edges (graph G)) \<union> (\<lambda>n. (builtin_name IDLE, n)) ` set (hd (execution_order G))"
    "instances G1 = (instances G)(IDLE := instances G IDLE + 1)"
    "stages G1 = AList.update (builtin_name IDLE) (builtin_stage IDLE) (stages G)"
    using prepend_stage_ok [OF assms(1-3), of IDLE] assms(4) by auto
  have added: "added_types (instances G1) = added_types (instances G)" by (simp add: added_types_def g1(6))
  have ts: "distinct (added_types (instances G))" "set (added_types (instances G)) \<subseteq> {ANALYZE, SUBMIT, COMPLETE}"
    "added_types (instances G) \<noteq> []" by (auto simp: added_types_def)
  have o: "execution_order G1 \<noteq> []" using g1(3) by (cases "execution_order G1") simp_all
  have fresh: "\<forall>t \<in> set (added_types (instances G)). builtin_name t \<notin> set (nodes (graph G1))" using ts(2) assms(4) g1(4) by auto
  have "map set (execution_order G1) = map set (IDLE_first # execution_order G)" if "set IDLE_first = {builtin_name IDLE}" for IDLE_first
    using g1(3) that by simp
  from arg_cong [OF this [of "[builtin_name IDLE]"], of last] have last: "set (last (execution_order G1)) = set (last (execution_order G))"
    using assms(3) o by (simp add: last_map)
  obtain G' where r: "append_all gens (added_types (instances G)) G1 = Inr G'" "graph_ok G'"
    "map set (execution_order G') = map set (execution_order G1) @ map (\<lambda>t. {builtin_name t}) (added_types (instances G))"
    "\<forall>n \<in> set (nodes (graph G1)). map_of (stages G') n = map_of (stages G1) n"
    "\<forall>a \<in> set (nodes (graph G1)) - set (last (execution_order G1)). \<forall>b. (a, b) \<in> set (edges (graph G')) \<longleftrightarrow> (a, b) \<in> set (edges (graph G1))"
    "\<forall>a \<in> set (last (execution_order G1)). \<forall>b. (a, b) \<in> set (edges (graph G')) \<longleftrightarrow>
       (a, b) \<in> set (edges (graph G1)) \<or> added_types (instances G) \<noteq> [] \<and> b = builtin_name (hd (added_types (instances G)))"
    by (rule exE [OF append_all_ok [OF assms(1) ts(1) fresh g1(2) o]], elim conjE) (rule that; assumption)
  have idle: "builtin_name IDLE \<notin> set (nodes (graph G))" "builtin_name IDLE = ''Idle''" using assms(4) by (simp_all add: builtin_name_def)
  have sub: "set (last (execution_order G)) \<subseteq> set (nodes (graph G))" using order_nonempty [OF assms(2,3)] by simp
  have G': "complete_graph gens G = Inr G'" "graph_ok G'"
    "map set (execution_order G') = {''Idle''} # map set (execution_order G) @ map (\<lambda>t. {builtin_name t}) (added_types (instances G))"
    "\<forall>n \<in> set (nodes (graph G)). map_of (stages G') n = map_of (stages G) n"
    using r g1 added idle by (auto simp: complete_graph_eq update_conv')
  have e1: "\<forall>a \<in> set (nodes (graph G)). \<forall>b. (a, b) \<in> set (edges (graph G1)) \<longleftrightarrow> (a, b) \<in> set (edges (graph G))"
    using g1(5) idle(1) by auto
  have "\<forall>a \<in> set (nodes (graph G)) - set (last (execution_order G)). \<forall>b. (a, b) \<in> set (edges (graph G')) \<longleftrightarrow> (a, b) \<in> set (edges (graph G))"
    using r(5) e1 last g1(4) by simp
  moreover have "\<forall>a \<in> set (last (execution_order G)). \<forall>b. (a, b) \<in> set (edges (graph G')) \<longleftrightarrow>
      (a, b) \<in> set (edges (graph G)) \<or> b = builtin_name (hd (added_types (instances G)))"
    using r(6) e1 last sub ts(3) by (simp add: subset_iff)
  ultimately show ?thesis using G' by (intro exI [of _ G'] conjI)
qed

lemma layered_forward:
  "layered E ns gs \<Longrightarrow> sorted_wrt (\<lambda>l k. \<forall>a \<in> set k. \<forall>b \<in> set l. (a, b) \<notin> set E) gs \<and> (\<forall>l \<in> set gs. \<forall>a \<in> set l. \<forall>b \<in> set l. (a, b) \<notin> set E)"
proof (induction E ns gs rule: layered.induct)
  case (2 E ns l ls)
  note h = layered_head [OF 2(2)] and l = layered_tail [OF 2(2)]
  have "set k \<subseteq> set ns" if "k \<in> set ls" for k using layered_nonempty [OF l that] by auto
  moreover have "\<forall>a \<in> set ns. \<forall>b \<in> set l. (a, b) \<notin> set E" "set l \<subseteq> set ns" using h by (auto simp: no_predecessor_def)
  ultimately have "\<forall>k \<in> set ls. \<forall>a \<in> set k. \<forall>b \<in> set l. (a, b) \<notin> set E" "\<forall>a \<in> set l. \<forall>b \<in> set l. (a, b) \<notin> set E" by blast+
  then show ?case using 2(1) [OF l] by simp
qed simp

lemma edges_from_source: "e \<in> set (edges_from g gen) \<Longrightarrow> fst e \<in> set gen \<and> e \<in> set (edges g)"
  by (auto simp: edges_from_def neighbors_iff)

text \<open>C23: A stage runs only after the stages it depends on: of two transitions, the one whose source depends on the
  source of the other is in a later group.\<close>

theorem dependencies_run_first:
  assumes "graph_ok G" "build_transitions_graph cores cpus G = Inr groups"
    "i < length groups" "j < length groups" "t \<in> set (snd (groups ! i))" "u \<in> set (snd (groups ! j))"
    "(st_name (from_stage t), st_name (from_stage u)) \<in> set (edges (graph G))"
  shows "i < j"
proof (rule ccontr)
  let ?E = "set (edges (graph G))"
  let ?es = "filter (\<lambda>es. es \<noteq> []) (map (edges_from (graph G)) (execution_order G))"
  assume "\<not> i < j"
  have l: "layered (edges (graph G)) (nodes (graph G)) (execution_order G)" "names_ok (stages G)"
    using assms(1) by (simp_all add: graph_ok_def generations_def)
  have names: "map (map edge_name \<circ> snd) groups = ?es"
    using assms(2) link_generations_names [OF l(2)] by (auto simp: build_transitions_graph_def split: if_splits)
  have "sorted_wrt (\<lambda>es fs. \<forall>f \<in> set fs. \<forall>e \<in> set es. (fst f, fst e) \<notin> ?E) (map (edges_from (graph G)) (execution_order G))"
    unfolding sorted_wrt_map
    by (rule sorted_wrt_mono_rel [rotated, OF conjunct1 [OF layered_forward [OF l(1)]]]) (blast dest: edges_from_source)
  then have sorted: "sorted_wrt (\<lambda>es fs. \<forall>f \<in> set fs. \<forall>e \<in> set es. (fst f, fst e) \<notin> ?E) ?es" by (rule sorted_wrt_filter)
  have same: "\<forall>es \<in> set ?es. \<forall>e \<in> set es. \<forall>f \<in> set es. (fst f, fst e) \<notin> ?E"
    using layered_forward [OF l(1)] by (auto dest!: edges_from_source)
  have len: "length ?es = length groups" using arg_cong [OF names, of length] by simp
  have at: "?es ! k = map edge_name (snd (groups ! k))" if "k < length groups" for k
    using arg_cong [OF names, of "\<lambda>xs. xs ! k"] that by simp
  have t: "edge_name t \<in> set (?es ! i)" "edge_name u \<in> set (?es ! j)" using assms(3-6) at by auto
  have e: "(fst (edge_name t), fst (edge_name u)) \<in> ?E" using assms(7) by (simp add: edge_name_def)
  show False
  proof (cases "i = j")
    case True
    then show ?thesis using same t e assms(3) len nth_mem by metis
  next
    case False
    then have "j < i" using \<open>\<not> i < j\<close> by simp
    then show ?thesis using sorted_wrt_nth_less [OF sorted, of j i] t e assms(3) len by auto
  qed
qed

text \<open>A stage of the test that nothing depends on is never run unless it is in the last generation: no
  transition of the assembled graph starts at it.\<close>

theorem short_branch_never_runs:
  assumes "topological gens" "graph_ok G" "execution_order G \<noteq> []"
    "\<forall>t \<in> {IDLE, ANALYZE, SUBMIT, COMPLETE}. builtin_name t \<notin> set (nodes (graph G))"
    "n \<in> set (nodes (graph G))" "n \<notin> set (last (execution_order G))" "\<forall>b. (n, b) \<notin> set (edges (graph G))"
    "assemble gens cores cpus G = Inr (G', groups)"
  shows "\<forall>grp \<in> set groups. \<forall>t \<in> set (snd grp). st_name (from_stage t) \<noteq> n"
proof (intro ballI notI)
  fix grp t
  assume t: "grp \<in> set groups" "t \<in> set (snd grp)" "st_name (from_stage t) = n"
  have c: "complete_graph gens G = Inr G'" "build_transitions_graph cores cpus G' = Inr groups"
    using assms(8) by (auto simp: assemble_def split: sum.splits)
  obtain G1 where g1: "complete_graph gens G = Inr G1" "graph_ok G1"
    "\<forall>a \<in> set (nodes (graph G)) - set (last (execution_order G)). \<forall>b. (a, b) \<in> set (edges (graph G1)) \<longleftrightarrow> (a, b) \<in> set (edges (graph G))"
    by (rule exE [OF completed_graph [OF assms(1-4)]], elim conjE) (rule that; assumption)
  then have "G1 = G'" using c(1) by simp
  then have g: "names_ok (stages G')" "\<forall>b. (n, b) \<notin> set (edges (graph G'))" using g1(2,3) assms(5-7) by (simp_all add: graph_ok_def)
  have "map (map edge_name \<circ> snd) groups = filter (\<lambda>es. es \<noteq> []) (map (edges_from (graph G')) (execution_order G'))"
    using c(2) link_generations_names [OF g(1)] by (auto simp: build_transitions_graph_def split: if_splits)
  moreover have "map edge_name (snd grp) \<in> set (map (map edge_name \<circ> snd) groups)" using t(1) by simp
  ultimately obtain gen where "map edge_name (snd grp) = edges_from (graph G') gen" by (simp only: set_filter set_map) blast
  then have "edge_name t \<in> set (edges_from (graph G') gen)" using t(2) by (metis image_eqI list.set_map)
  from edges_from_source [OF this] show False using g(2) t(3) by (simp add: edge_name_def)
qed

section \<open>A library that keeps its promise\<close>

text \<open>One function with the documented behaviour, to show that the hypothesis can hold.\<close>

fun kahn :: "nat \<Rightarrow> (string \<times> string) list \<Rightarrow> string list \<Rightarrow> string list list" where
  "kahn 0 E ns = []"
| "kahn (Suc k) E ns =
     (if ns = [] then [] else no_predecessor E ns # kahn k E (filter (\<lambda>n. n \<notin> set (no_predecessor E ns)) ns))"

definition kahn_generations :: "digraph \<Rightarrow> string list list" where
  "kahn_generations g = kahn (length (nodes g)) (edges g) (nodes g)"

lemma kahn_layered: "layered E ns gs \<Longrightarrow> distinct ns \<Longrightarrow> length ns \<le> k \<Longrightarrow> layered E ns (kahn k E ns)"
proof (induction k arbitrary: ns gs)
  case (Suc k)
  show ?case
  proof (cases gs)
    case Nil
    then show ?thesis using Suc.prems(1) by simp
  next
    case (Cons l ls)
    note h = layered_head [OF Suc.prems(1) [unfolded Cons]]
    let ?rest = "filter (\<lambda>n. n \<notin> set (no_predecessor E ns)) ns"
    have nonempty: "no_predecessor E ns \<noteq> []" using h by auto
    then have "\<exists>n \<in> set ns. n \<in> set (no_predecessor E ns)" using no_predecessor_subset [of E ns] by (cases "no_predecessor E ns") auto
    then have "length ?rest < length ns" by (auto intro: length_filter_less)
    moreover have "layered E ?rest ls" using layered_tail [OF Suc.prems(1) [unfolded Cons]] h by simp
    ultimately have "layered E ?rest (kahn k E ?rest)" using Suc.IH Suc.prems(2,3) by simp
    moreover have "distinct (no_predecessor E ns)" using Suc.prems(2) by (simp add: no_predecessor_def)
    moreover have "ns \<noteq> []" using nonempty by (auto simp: no_predecessor_def)
    ultimately show ?thesis using nonempty by (simp add: layered.simps(2))
  qed
qed simp

lemma kahn_topological: "topological kahn_generations"
  unfolding topological_def generations_def kahn_generations_def using kahn_layered by blast

section \<open>The graph of the user's stages\<close>

lemma init_nodes:
  "distinct (map st_name sts) \<Longrightarrow> set (map st_name sts) \<inter> set (nodes g) = {} \<Longrightarrow>
     nodes (foldl (\<lambda>g s. add_node (st_name s) g) g sts) = nodes g @ map st_name sts \<and>
     edges (foldl (\<lambda>g s. add_node (st_name s) g) g sts) = edges g"
  by (induction sts arbitrary: g) (auto simp: add_node_def)

lemma link_dependencies_ok:
  assumes "st_name s \<in> set (nodes g)" "set (edges g) \<subseteq> set (nodes g) \<times> set (nodes g)"
  shows "nodes (link_dependencies s g) = nodes g \<and> set (edges (link_dependencies s g)) \<subseteq> set (nodes g) \<times> set (nodes g)"
proof -
  have "nodes (foldl (\<lambda>g d. if d \<in> set (nodes g) then add_edge d (st_name s) g else g) g ds) = nodes g \<and>
      set (edges (foldl (\<lambda>g d. if d \<in> set (nodes g) then add_edge d (st_name s) g else g) g ds)) \<subseteq> set (nodes g) \<times> set (nodes g)" for ds
    using assms
  proof (induction ds arbitrary: g)
    case (Cons d ds)
    let ?g = "if d \<in> set (nodes g) then add_edge d (st_name s) g else g"
    have "nodes ?g = nodes g" "set (edges ?g) \<subseteq> set (nodes g) \<times> set (nodes g)" using Cons.prems by (auto simp: add_edge_def)
    then show ?case using Cons.IH [of ?g] Cons.prems by simp
  qed simp
  then show ?thesis by (simp add: link_dependencies_def)
qed

lemma init_edges:
  "set (map st_name sts) \<subseteq> set (nodes g) \<Longrightarrow> set (edges g) \<subseteq> set (nodes g) \<times> set (nodes g) \<Longrightarrow>
     nodes (foldl (\<lambda>g s. link_dependencies s g) g sts) = nodes g \<and>
     set (edges (foldl (\<lambda>g s. link_dependencies s g) g sts)) \<subseteq> set (nodes g) \<times> set (nodes g)"
proof (induction sts arbitrary: g)
  case (Cons s sts)
  then show ?case using link_dependencies_ok [of s g] Cons.IH [of "link_dependencies s g"] by simp
qed simp

lemma init_names: "names_ok d \<Longrightarrow> names_ok (foldl (\<lambda>d s. AList.update (st_name s) s d) d sts)"
proof (induction sts arbitrary: d)
  case (Cons s sts)
  show ?case using Cons.IH [OF names_ok_update [OF Cons.prems refl, of s]] by (simp only: foldl.simps)
qed simp

lemma init_known:
  "map_of (foldl (\<lambda>d s. AList.update (st_name s) s d) d sts) n = None \<longleftrightarrow> n \<notin> set (map st_name sts) \<and> map_of d n = None"
  by (induction sts arbitrary: d) (simp_all add: update_conv')

lemma graph_init_ok:
  assumes "topological gens" "distinct (map st_name sts)" "generations (graph (Graph_init gens insts sts)) gs"
  shows "graph_ok (Graph_init gens insts sts)"
proof -
  let ?n = "foldl (\<lambda>g s. add_node (st_name s) g) \<lparr>nodes = [], edges = []\<rparr> sts"
  have n: "nodes ?n = map st_name sts" "edges ?n = []" using init_nodes [OF assms(2), of "\<lparr>nodes = [], edges = []\<rparr>"] by simp_all
  have g: "graph (Graph_init gens insts sts) = foldl (\<lambda>g s. link_dependencies s g) ?n sts" by (simp add: Graph_init_def Let_def)
  have e: "nodes (graph (Graph_init gens insts sts)) = map st_name sts"
    "set (edges (graph (Graph_init gens insts sts))) \<subseteq> set (map st_name sts) \<times> set (map st_name sts)"
    using init_edges [of sts ?n] n g by simp_all
  have "generations (graph (Graph_init gens insts sts)) (execution_order (Graph_init gens insts sts))"
    using topological_same [OF assms(1) _ assms(3)] assms(2) e(1) by (simp add: Graph_init_def Let_def)
  moreover have st: "stages (Graph_init gens insts sts) = foldl (\<lambda>d s. AList.update (st_name s) s d) [] sts"
    by (simp add: Graph_init_def Let_def)
  moreover have "names_ok []" by (simp add: names_ok_def)
  then have "names_ok (stages (Graph_init gens insts sts))" unfolding st by (rule init_names)
  moreover have "\<forall>n. map_of (stages (Graph_init gens insts sts)) n \<noteq> None \<longleftrightarrow> n \<in> set (map st_name sts)"
    unfolding st init_known by simp
  ultimately show ?thesis using assms(2) e unfolding graph_ok_def by (simp only: simp_thms)
qed

definition user_stage :: "string \<Rightarrow> stage_type \<Rightarrow> string list \<Rightarrow> test_stage" where
  "user_stage name t deps = \<lparr>st_name = name, st_type = t, st_parallel = (t \<in> {EXECUTE, OPTIMIZE, ANALYZE}), st_retries = 0,
     st_priority = Some ''auto'', st_skip = False, st_dependencies = deps\<rparr>"

text \<open>A test with two branches: a load run after its setup, and one action stage of its own.\<close>

definition two_branches :: test_graph where
  "two_branches = Graph_init kahn_generations (\<lambda>_. 0)
     [user_stage ''Prepare'' SETUP [], user_stage ''Load'' EXECUTE [''Prepare''], user_stage ''Check'' ACT []]"

lemma two_branches_graph:
  "graph two_branches = \<lparr>nodes = [''Prepare'', ''Load'', ''Check''], edges = [(''Prepare'', ''Load'')]\<rparr>"
  "execution_order two_branches = [[''Prepare'', ''Check''], [''Load'']]"
  "instances two_branches = (\<lambda>_. 0)"
  by (simp_all add: two_branches_def Graph_init_def Let_def user_stage_def link_dependencies_def add_node_def add_edge_def
      kahn_generations_def no_predecessor_def)

lemma two_branches_ok: "graph_ok two_branches"
proof -
  have "generations (graph two_branches) [[''Prepare'', ''Check''], [''Load'']]"
    by (simp add: two_branches_graph generations_def layered.simps(2) no_predecessor_def)
  then show ?thesis
    unfolding two_branches_def by (intro graph_init_ok [OF kahn_topological]) (simp_all add: user_stage_def)
qed

lemma two_branches_assemble: "\<exists>G groups. assemble kahn_generations 2 2 two_branches = Inr (G, groups)"
proof -
  have "(case assemble kahn_generations 2 2 two_branches of Inl _ \<Rightarrow> False | Inr _ \<Rightarrow> True)" by code_simp
  then show ?thesis by (auto split: sum.splits)
qed

lemma two_branches_stages:
  "stages two_branches = [(''Prepare'', user_stage ''Prepare'' SETUP []), (''Load'', user_stage ''Load'' EXECUTE [''Prepare'']),
     (''Check'', user_stage ''Check'' ACT [])]"
  by (simp add: two_branches_def Graph_init_def Let_def user_stage_def)

theorem groups_built_iff_valid_witness:
  "\<not> (\<exists>groups. build_transitions_graph 2 3 two_branches = Inr groups) \<and> isolates (graph two_branches) = [''Check'']"
proof -
  have "isolates (graph two_branches) = [''Check'']" by (simp add: two_branches_graph isolates_def neighbors_def predecessors_def)
  moreover have "(\<exists>groups. build_transitions_graph 2 3 two_branches = Inr groups) \<longleftrightarrow>
    isolates (graph two_branches) = [] \<and>
    (\<forall>(a, b) \<in> set (edges (graph two_branches)). may_follow (type_at (stages two_branches) a) (type_at (stages two_branches) b))"
    by (rule groups_built_iff_valid [OF two_branches_ok])
      (simp_all add: two_branches_graph two_branches_stages stages_at_def user_stage_def)
  ultimately show ?thesis by simp
qed

theorem short_branch_never_runs_witness:
  "\<exists>G' groups. assemble kahn_generations 2 2 two_branches = Inr (G', groups) \<and>
     (\<forall>grp \<in> set groups. \<forall>t \<in> set (snd grp). st_name (from_stage t) \<noteq> ''Check'')"
proof -
  obtain G' groups where a: "assemble kahn_generations 2 2 two_branches = Inr (G', groups)" using two_branches_assemble by blast
  have "\<forall>grp \<in> set groups. \<forall>t \<in> set (snd grp). st_name (from_stage t) \<noteq> ''Check''"
    by (rule short_branch_never_runs [OF kahn_topological two_branches_ok _ _ _ _ _ a])
      (simp_all add: two_branches_graph builtin_name_def)
  then show ?thesis using a by blast
qed

text \<open>A test with a setup, a load run and its analysis.\<close>

definition one_run :: test_graph where
  "one_run = Graph_init kahn_generations (\<lambda>_. 0)
     [user_stage ''Prepare'' SETUP [], user_stage ''Load'' EXECUTE [''Prepare''], user_stage ''Report'' ANALYZE [''Load'']]"

lemma one_run_ok: "graph_ok one_run"
proof -
  have "generations (graph one_run) [[''Prepare''], [''Load''], [''Report'']]"
    by (simp add: one_run_def Graph_init_def Let_def user_stage_def link_dependencies_def add_node_def add_edge_def
        generations_def layered.simps(2) no_predecessor_def)
  then show ?thesis
    unfolding one_run_def by (intro graph_init_ok [OF kahn_topological]) (simp_all add: user_stage_def)
qed

definition first_transition :: stage_transition where
  "first_transition = \<lparr>from_stage = user_stage ''Prepare'' SETUP [], to_stage = user_stage ''Load'' EXECUTE [''Prepare''],
     metadata = \<lparr>allow_multiple_edges = False, is_valid = True\<rparr>, transition_idx = 0\<rparr>"

definition second_transition :: stage_transition where
  "second_transition = \<lparr>from_stage = user_stage ''Load'' EXECUTE [''Prepare''], to_stage = user_stage ''Report'' ANALYZE [''Load''],
     metadata = \<lparr>allow_multiple_edges = False, is_valid = True\<rparr>, transition_idx = 0\<rparr>"

lemma one_run_groups:
  "build_transitions_graph 2 2 one_run = Inr [([(''Prepare'', 1)], [first_transition]), ([(''Load'', 2)], [second_transition])]"
  by code_simp

theorem dependencies_run_first_witness:
  "build_transitions_graph 2 2 one_run = Inr [([(''Prepare'', 1)], [first_transition]), ([(''Load'', 2)], [second_transition])] \<and>
   (''Prepare'', ''Load'') \<in> set (edges (graph one_run)) \<and> (0::nat) < 1"
proof -
  have e: "(''Prepare'', ''Load'') \<in> set (edges (graph one_run))"
    by (simp add: one_run_def Graph_init_def Let_def user_stage_def link_dependencies_def add_node_def add_edge_def)
  have "(0::nat) < 1"
    by (rule dependencies_run_first [OF one_run_ok one_run_groups, of 0 1 first_transition second_transition])
      (use e in \<open>simp_all add: first_transition_def second_transition_def user_stage_def\<close>)
  then show ?thesis using e one_run_groups by blast
qed
end
