(* ===== verification/Graph_Run.thy ===== *)
theory Graph_Run
  imports Stage_Graph
begin

text \<open>
  Running an assembled graph: the retries of a transition (\<open>core/graphs/transitions/transition.py\<close> and the
  edges next to it), the order of the transitions of a group
  (\<open>core/graphs/transitions/transition_group.py\<close>) and the main loop of \<open>core/graphs/graph.py\<close>. What a
  stage does when it runs is outside: the function \<open>attempts\<close> says which exception, if any, the n-th
  attempt of a transition ends with. The history the edges pass on, the metrics and the logging are not
  modelled.
\<close>

section \<open>One transition\<close>

datatype stage_error = ProcessKilledError | StageException string

datatype graph_status = GS_IDLE | GS_INITIALIZING | GS_VALIDATING | GS_ASSEMBLING | GS_RUNNING | GS_COMPLETE | GS_CANCELLED | GS_FAILED

type_synonym stage_attempts = "string \<times> string \<Rightarrow> nat \<Rightarrow> stage_error option"

text \<open>The edges that catch the exception of their stage; the others let it through.\<close>

definition catches :: "stage_type \<Rightarrow> bool" where
  "catches t \<longleftrightarrow> t \<in> {ACT, ANALYZE, EXECUTE, OPTIMIZE, SETUP, SUBMIT}"

text \<open>An attempt stores its exception in the edge; an attempt without one leaves the old exception there.\<close>

definition edge_attempt :: "stage_error option \<Rightarrow> stage_error option \<Rightarrow> stage_error option" where
  "edge_attempt stored outcome = (case outcome of None \<Rightarrow> stored | Some e \<Rightarrow> Some e)"

text \<open>The attempts that remain, the number made so far and the exception stored; the result is the number of attempts
  and the exception at the end.\<close>

fun attempt_loop :: "(nat \<Rightarrow> stage_error option) \<Rightarrow> nat \<Rightarrow> nat \<Rightarrow> stage_error option \<Rightarrow> nat \<times> stage_error option" where
  "attempt_loop f 0 i ex = (i, ex)"
| "attempt_loop f (Suc k) i ex =
     (case edge_attempt ex (f i) of None \<Rightarrow> (i + 1, None) | Some e \<Rightarrow> attempt_loop f k (i + 1) (Some e))"

text \<open>A transition is executed from the state its edge is in, the number of attempts it has made and the exception it
  stores: nothing clears the exception, so an edge that is executed again still has that of its earlier execution.\<close>

definition execute_transition :: "stage_attempts \<Rightarrow> stage_transition \<Rightarrow> nat \<times> stage_error option \<Rightarrow> (nat \<times> stage_error option) res" where
  "execute_transition attempts t state =
     (let f = attempts (edge_name t); retries = st_retries (from_stage t); made = fst state; stored = snd state
      in if \<not> catches (st_type (from_stage t)) \<and> f made \<noteq> None then Inl (GenericException ''Exception'')
         else if retries > 0 then Inr (attempt_loop f (nat retries) made stored)
         else Inr (made + 1, edge_attempt stored (f made)))"

section \<open>One group\<close>

text \<open>A stage with several destinations is split: only the edge added first runs it.\<close>

definition siblings :: "stage_transition list \<Rightarrow> stage_transition \<Rightarrow> stage_transition list" where
  "siblings grp t = filter (\<lambda>u. st_name (from_stage u) = st_name (from_stage t)) grp"

definition skips :: "stage_transition list \<Rightarrow> stage_transition \<Rightarrow> bool" where
  "skips grp t \<longleftrightarrow> st_skip (from_stage t) \<or>
     catches (st_type (from_stage t)) \<and> length (siblings grp t) > 1 \<and> Min (set (map transition_idx (siblings grp t))) < transition_idx t"

definition transition_info_of :: "int \<Rightarrow> (string \<times> int) list \<Rightarrow> stage_transition list \<Rightarrow> stage_transition \<Rightarrow> transition_info" where
  "transition_info_of cpus ws grp t =
     \<lparr>source = st_name (from_stage t), destination = st_name (to_stage t), priority = st_priority (from_stage t),
      priority_level = priority_map (st_priority (from_stage t)),
      workers = (case map_of (rev ws) (st_name (from_stage t)) of None \<Rightarrow> cpus | Some k \<Rightarrow> k),
      allow_parallel = st_parallel (from_stage t), skip_stage = skips grp t\<rparr>"

definition level_of :: "stage_transition list \<Rightarrow> string \<Rightarrow> stage_priority" where
  "level_of grp n =
     (case filter (\<lambda>t. st_name (from_stage t) = n) grp of [] \<Rightarrow> AUTO | t # _ \<Rightarrow> priority_map (st_priority (from_stage t)))"

text \<open>
  \<open>sort_and_map_transitions\<close> and the order in which \<open>execute_group\<close> starts the transitions: the batches
  by priority, within a batch the largest number of workers first.
\<close>

definition plan_group :: "int \<Rightarrow> int \<Rightarrow> (string \<times> int) list \<times> stage_transition list \<Rightarrow> (string \<times> string) list res" where
  "plan_group cores cpus g =
     (case g of (ws, grp) \<Rightarrow>
        (case partion_prioritized (min cpus cores) (map (transition_info_of cpus ws grp) grp) of
           Inl e \<Rightarrow> Inl e
         | Inr batches \<Rightarrow> Inr (map (\<lambda>c. (fst c, fst (snd c))) (concat (map start_order (order_groups (level_of grp) batches))))))"

text \<open>The transitions of the plan are executed one after the other; every execution goes on from the state in which the
  edge was left, because a plan may hold a transition more than once. The transitions of one batch, which the code
  starts together, are taken in the order in which they are started.\<close>

type_synonym edge_states = "string \<times> string \<Rightarrow> nat \<times> stage_error option"

fun execute_plan :: "stage_attempts \<Rightarrow> stage_transition list \<Rightarrow> (string \<times> string) list \<Rightarrow> edge_states \<Rightarrow> edge_states res" where
  "execute_plan attempts grp [] states = Inr states"
| "execute_plan attempts grp (e # es) states =
     (case filter (\<lambda>t. edge_name t = e) grp of
        [] \<Rightarrow> Inl AttributeError
      | t # _ \<Rightarrow>
          (case execute_transition attempts t (states e) of
             Inl x \<Rightarrow> Inl x
           | Inr r \<Rightarrow> execute_plan attempts grp es (states(e := r))))"

definition fresh_edges :: edge_states where
  "fresh_edges = (\<lambda>_. (0, None))"

lemma fresh_edge [simp]: "fresh_edges e = (0, None)"
  by (simp add: fresh_edges_def)

section \<open>The graph\<close>

text \<open>The loop over the transitions of a group after it has run: a killed process ends the run at once, any
  other exception marks it as failed.\<close>

fun scan_group :: "edge_states \<Rightarrow> stage_transition list \<Rightarrow> graph_status \<Rightarrow> graph_status" where
  "scan_group states [] st = st"
| "scan_group states (t # ts) st =
     (case snd (states (edge_name t)) of
        Some ProcessKilledError \<Rightarrow> GS_CANCELLED
      | Some (StageException e) \<Rightarrow> scan_group states ts GS_FAILED
      | None \<Rightarrow> scan_group states ts st)"

text \<open>The main loop, with the edges started so far; the status is the one \<open>run\<close> leaves.\<close>

fun run_groups :: "int \<Rightarrow> int \<Rightarrow> stage_attempts \<Rightarrow> ((string \<times> int) list \<times> stage_transition list) list \<Rightarrow> (string \<times> string) list \<Rightarrow>
    (graph_status \<times> (string \<times> string) list) res" where
  "run_groups cores cpus attempts [] log = Inr (GS_COMPLETE, log)"
| "run_groups cores cpus attempts (g # gs) log =
     (case plan_group cores cpus g of
        Inl x \<Rightarrow> Inl x
      | Inr es \<Rightarrow>
          (case execute_plan attempts (snd g) es fresh_edges of
             Inl x \<Rightarrow> Inl x
           | Inr states \<Rightarrow>
               (let st = scan_group states (snd g) GS_RUNNING
                in if st = GS_RUNNING then run_groups cores cpus attempts gs (log @ es) else Inr (st, log @ es))))"

definition run_graph :: "int \<Rightarrow> int \<Rightarrow> stage_attempts \<Rightarrow> ((string \<times> int) list \<times> stage_transition list) list \<Rightarrow>
    (graph_status \<times> (string \<times> string) list) res" where
  "run_graph cores cpus attempts groups = run_groups cores cpus attempts groups []"

section \<open>Retries\<close>

lemma attempt_loop_failed: "\<exists>e'. attempt_loop f k i (Some e) = (i + k, Some e')"
proof (induction k arbitrary: i e)
  case (Suc k)
  obtain e1 where "edge_attempt (Some e) (f i) = Some e1" by (cases "f i") (simp_all add: edge_attempt_def)
  then show ?case using Suc.IH [of "i + 1" e1] by simp
qed simp

lemma attempt_loop_clean: "f i = None \<Longrightarrow> attempt_loop f (Suc k) i None = (i + 1, None)"
  by (simp add: edge_attempt_def)

lemma execute_transition_clean:
  assumes "attempts (edge_name t) k = None"
  shows "execute_transition attempts t (k, None) = Inr (k + 1, None)"
proof (cases "st_retries (from_stage t) > 0")
  case True
  then obtain j where "nat (st_retries (from_stage t)) = Suc j" by (cases "nat (st_retries (from_stage t))") simp_all
  then show ?thesis
    using assms True attempt_loop_clean [of "attempts (edge_name t)" k j] by (simp add: execute_transition_def Let_def)
qed (use assms in \<open>simp add: execute_transition_def Let_def edge_attempt_def\<close>)

lemma execute_transition_ok:
  "attempts (edge_name t) 0 = None \<Longrightarrow> execute_transition attempts t (0, None) = Inr (1, None)"
  using execute_transition_clean [of attempts t 0] by simp

lemma attempt_fails:
  assumes "catches (st_type (from_stage t))" "attempts (edge_name t) k = Some e"
  shows "\<exists>e'. execute_transition attempts t (k, None) = Inr (k + nat (max 1 (st_retries (from_stage t))), Some e')"
proof (cases "st_retries (from_stage t) > 0")
  case True
  then obtain j where j: "nat (st_retries (from_stage t)) = Suc j" by (cases "nat (st_retries (from_stage t))") simp_all
  obtain e' where "attempt_loop (attempts (edge_name t)) j (k + 1) (Some e) = (k + 1 + j, Some e')"
    using attempt_loop_failed by blast
  then show ?thesis using assms True j by (simp add: execute_transition_def Let_def edge_attempt_def max_def)
qed (use assms in \<open>simp add: execute_transition_def Let_def edge_attempt_def max_def\<close>)

lemma failed_edge_stays:
  assumes "catches (st_type (from_stage t))"
  shows "\<exists>m e'. execute_transition attempts t (k, Some e) = Inr (m, Some e')"
proof -
  have "\<exists>e1. edge_attempt (Some e) x = Some e1" for x by (cases x) (simp_all add: edge_attempt_def)
  then show ?thesis
    using assms attempt_loop_failed [of "attempts (edge_name t)" "nat (st_retries (from_stage t))" k e]
    by (auto simp: execute_transition_def Let_def)
qed

text \<open>Retries do not help: once the first attempt has failed, every retry is made, whatever its outcome, and the
  transition counts as failed, because the stored exception is never cleared.\<close>

theorem first_failure_is_final:
  assumes "catches (st_type (from_stage t))" "attempts (edge_name t) 0 = Some e"
  shows "\<exists>e'. execute_transition attempts t (0, None) = Inr (nat (max 1 (st_retries (from_stage t))), Some e')"
  using attempt_fails [of t attempts 0] assms by simp

theorem first_failure_is_final_witness:
  "\<exists>e'. execute_transition (\<lambda>_ n. if n = 0 then Some (StageException ''refused'') else None)
     (second_transition\<lparr>from_stage := (user_stage ''Load'' EXECUTE [''Prepare''])\<lparr>st_retries := 3\<rparr>\<rparr>) (0, None) = Inr (3, Some e')"
  using first_failure_is_final [of "second_transition\<lparr>from_stage := (user_stage ''Load'' EXECUTE [''Prepare''])\<lparr>st_retries := 3\<rparr>\<rparr>"
      "\<lambda>_ n. if n = 0 then Some (StageException ''refused'') else None"]
  by (simp add: catches_def user_stage_def)

section \<open>Plans\<close>

definition named :: "transition_info list \<Rightarrow> transition_config list list \<Rightarrow> bool" where
  "named ts batches \<longleftrightarrow> (\<forall>g \<in> set batches. \<forall>c \<in> set g. (fst c, fst (snd c)) \<in> (\<lambda>t. (source t, destination t)) ` set ts)"

lemma config_named [simp]: "(fst (config_of t k), fst (snd (config_of t k))) = (source t, destination t)"
  by (simp add: config_of_def)

lemma fill_group_named:
  "fill_group pool bounds t us allocated grp seen = Inr (a, grp', seen') \<Longrightarrow> set us \<subseteq> set ts \<Longrightarrow> named ts [grp] \<Longrightarrow> named ts [grp']"
proof (induction us arbitrary: allocated grp seen)
  case (Cons u us)
  have step: "named ts [grp @ [config_of u k]]" for k using Cons.prems(2,3) by (auto simp: named_def config_of_def)
  show ?case
    using Cons.prems Cons.IH [OF _ _ step] Cons.IH by (auto simp: Let_def split: if_splits option.splits)
qed simp

lemma fill_batches_named:
  "fill_batches pool bounds all us batches seen = Inr batches' \<Longrightarrow> set us \<subseteq> set ts \<Longrightarrow> set all \<subseteq> set ts \<Longrightarrow> named ts batches \<Longrightarrow>
     named ts batches'"
proof (induction us arbitrary: batches seen)
  case (Cons u us)
  show ?case
  proof (cases "u \<in> set seen")
    case True
    then show ?thesis using Cons by simp
  next
    case False
    then obtain least most a grp seen' where g: "bounds (source u) = Some (least, most)"
      "fill_group pool bounds u all most [config_of u most] seen = Inr (a, grp, seen')"
      "fill_batches pool bounds all us (batches @ [grp]) (seen' @ [u]) = Inr batches'"
      using Cons.prems(1) by (auto split: option.splits sum.splits)
    have "named ts [[config_of u most]]" using Cons.prems(2) by (auto simp: named_def config_of_def)
    then have "named ts [grp]" using fill_group_named [OF g(2) Cons.prems(3)] by simp
    then have "named ts (batches @ [grp])" using Cons.prems(4) by (auto simp: named_def)
    then show ?thesis using Cons.IH [OF g(3)] Cons.prems(2,3) by simp
  qed
qed simp

lemma partition_named:
  assumes "partion_prioritized pool ts = Inr batches"
  shows "named ts batches"
proof -
  let ?ts = "sorted_transitions ts"
  have bypass: "named ts [map (\<lambda>t. config_of t 0) (filter bypassed ?ts)]" by (auto simp: named_def config_of_def)
  have last: "last (filter (\<lambda>t. \<not> skip_stage t) ?ts) \<in> set ts" if "filter (\<lambda>t. \<not> skip_stage t) ?ts \<noteq> []"
    using last_in_set [OF that] by simp
  show ?thesis
    using assms fill_batches_named [of pool "worker_bounds pool ?ts" ?ts ?ts _ _ batches ts] bypass last
    by (auto simp: partion_prioritized_def Let_def split: if_splits) (auto simp: named_def config_of_def)
qed

lemma plan_named:
  assumes "plan_group cores cpus (ws, grp) = Inr es"
  shows "set es \<subseteq> edge_name ` set grp"
proof -
  obtain batches where b: "partion_prioritized (min cpus cores) (map (transition_info_of cpus ws grp) grp) = Inr batches"
    "es = map (\<lambda>c. (fst c, fst (snd c))) (concat (map start_order (order_groups (level_of grp) batches)))"
    using assms by (auto simp: plan_group_def split: sum.splits)
  have "set (concat (map start_order (order_groups l batches))) \<subseteq> \<Union> (set ` set batches)" for l
    by (auto simp: start_order_def order_groups_def)
  then show ?thesis
    using partition_named [OF b(1)] unfolding b(2) named_def
    by (fastforce simp: edge_name_def transition_info_of_def image_iff)
qed

section \<open>When a run completes\<close>

text \<open>The state of an edge that has been executed k times: when its first k attempts succeed, it has made just these and
  stores nothing; otherwise it stores an exception.\<close>

definition edge_after :: "(nat \<Rightarrow> stage_error option) \<Rightarrow> nat \<Rightarrow> nat \<times> stage_error option \<Rightarrow> bool" where
  "edge_after f k state \<longleftrightarrow> (if \<forall>n < k. f n = None then state = (k, None) else snd state \<noteq> None)"

lemma edge_after_failed: "n < k \<Longrightarrow> f n \<noteq> None \<Longrightarrow> edge_after f k (j, Some e)"
  by (auto simp: edge_after_def)

lemma edge_after_clean: "edge_after f k state \<Longrightarrow> snd state = None \<longleftrightarrow> (\<forall>n < k. f n = None)"
  by (cases "\<forall>n < k. f n = None") (auto simp: edge_after_def)

lemma edge_after_cases:
  assumes "edge_after f k state"
  obtains "state = (k, None)" "\<forall>n < k. f n = None" | m e n where "state = (m, Some e)" "n < k" "f n \<noteq> None"
proof (cases "\<forall>n < k. f n = None")
  case True
  then show thesis using assms that(1) by (simp add: edge_after_def)
next
  case False
  then have "snd state \<noteq> None" using assms edge_after_clean [OF assms] by blast
  then obtain e where "snd state = Some e" by blast
  then have "state = (fst state, Some e)" by (cases state) simp
  then show thesis using that(2) False by blast
qed

lemma execute_transition_after:
  assumes "edge_after (attempts (edge_name t)) k state"
    "catches (st_type (from_stage t)) \<or> (\<forall>n < Suc k. attempts (edge_name t) n = None)"
  shows "\<exists>r. execute_transition attempts t state = Inr r \<and> edge_after (attempts (edge_name t)) (Suc k) r"
  using assms(1)
proof (cases rule: edge_after_cases)
  case 1
  show ?thesis
  proof (cases "attempts (edge_name t) k")
    case None
    have "attempts (edge_name t) n = None" if "n < Suc k" for n using 1(2) None that by (cases "n = k") simp_all
    then have "edge_after (attempts (edge_name t)) (Suc k) (k + 1, None)" by (simp add: edge_after_def)
    then show ?thesis using execute_transition_clean [of attempts t k] None 1(1) by blast
  next
    case (Some e)
    then have nk: "attempts (edge_name t) k \<noteq> None" by simp
    have c: "catches (st_type (from_stage t))" by (rule disjE [OF assms(2)]) (use nk in simp_all)
    obtain e' j where "execute_transition attempts t (k, None) = Inr (j, Some e')" using attempt_fails [OF c, of attempts k e] Some by blast
    moreover have "edge_after (attempts (edge_name t)) (Suc k) (j, Some e')" by (rule edge_after_failed [of k "Suc k", OF lessI]) (rule nk)
    ultimately show ?thesis using 1(1) by blast
  qed
next
  case (2 m e n)
  then have n: "n < Suc k" by simp
  have c: "catches (st_type (from_stage t))" by (rule disjE [OF assms(2)]) (use n 2(3) in simp_all)
  obtain j e' where "execute_transition attempts t (m, Some e) = Inr (j, Some e')" using failed_edge_stays [OF c] by blast
  moreover have "edge_after (attempts (edge_name t)) (Suc k) (j, Some e')" by (rule edge_after_failed [OF n]) (rule 2(3))
  ultimately show ?thesis using 2(1) by blast
qed

lemma execute_plan_result:
  assumes "\<forall>e. edge_after (attempts e) (made e) (states e)" "set es \<subseteq> edge_name ` set grp"
    "\<forall>t \<in> set grp. catches (st_type (from_stage t)) \<or>
       (\<forall>n < made (edge_name t) + count_list es (edge_name t). attempts (edge_name t) n = None)"
  shows "\<exists>states'. execute_plan attempts grp es states = Inr states' \<and>
    (\<forall>e. edge_after (attempts e) (made e + count_list es e) (states' e))"
  using assms
proof (induction es arbitrary: states made)
  case (Cons e es)
  have "\<exists>t \<in> set grp. edge_name t = e" using Cons.prems(2) by auto
  then obtain t ts where t: "filter (\<lambda>t. edge_name t = e) grp = t # ts" by (cases "filter (\<lambda>t. edge_name t = e) grp") (auto simp: filter_empty_conv)
  then have "t \<in> set (filter (\<lambda>t. edge_name t = e) grp)" by simp
  then have at: "t \<in> set grp" "edge_name t = e" by auto
  have "catches (st_type (from_stage t)) \<or> (\<forall>n < Suc (made e). attempts e n = None)" using Cons.prems(3) at by fastforce
  then obtain r where r: "execute_transition attempts t (states e) = Inr r" "edge_after (attempts e) (Suc (made e)) r"
    using execute_transition_after [of attempts t "made e" "states e"] Cons.prems(1) at(2) by blast
  let ?made = "made(e := Suc (made e))"
  have count: "?made d + count_list es d = made d + count_list (e # es) d" for d by simp
  have "\<forall>d. edge_after (attempts d) (?made d) ((states(e := r)) d)" using Cons.prems(1) r(2) by simp
  moreover have "set es \<subseteq> edge_name ` set grp" using Cons.prems(2) by simp
  ultimately have "\<exists>states'. execute_plan attempts grp es (states(e := r)) = Inr states' \<and>
      (\<forall>d. edge_after (attempts d) (?made d + count_list es d) (states' d))"
    using Cons.IH [of ?made "states(e := r)"] Cons.prems(3) unfolding count by blast
  then obtain states' where "execute_plan attempts grp es (states(e := r)) = Inr states'"
    "\<forall>d. edge_after (attempts d) (made d + count_list (e # es) d) (states' d)"
    unfolding count by blast
  then show ?case using t r(1) by simp
qed simp

lemma scan_not_running: "st \<noteq> GS_RUNNING \<Longrightarrow> st \<noteq> GS_COMPLETE \<Longrightarrow> scan_group states ts st \<notin> {GS_RUNNING, GS_COMPLETE}"
  by (induction states ts st rule: scan_group.induct) (auto split: option.splits stage_error.splits)

lemma scan_running: "scan_group states ts GS_RUNNING = GS_RUNNING \<longleftrightarrow> (\<forall>t \<in> set ts. snd (states (edge_name t)) = None)"
proof (induction ts)
  case (Cons t ts)
  show ?case
    using Cons.IH scan_not_running [of GS_FAILED states ts] by (auto split: option.splits stage_error.splits)
qed simp

lemma scan_never_complete: "scan_group states ts GS_RUNNING \<noteq> GS_COMPLETE"
proof (induction ts)
  case (Cons t ts)
  then show ?case using scan_not_running [of GS_FAILED states ts] by (auto split: option.splits stage_error.splits)
qed simp

lemma scan_plan:
  assumes "\<forall>e. edge_after (attempts e) (count_list es e) (states e)" "set es \<subseteq> edge_name ` set grp"
  shows "scan_group states grp GS_RUNNING = GS_RUNNING \<longleftrightarrow> (\<forall>e. \<forall>n < count_list es e. attempts e n = None)"
proof -
  have "e \<in> edge_name ` set grp" if "n < count_list es e" for e n
    using that assms(2) count_notin [of e es] by fastforce
  then have outside: "\<forall>n < count_list es e. attempts e n = None" if "e \<notin> edge_name ` set grp" for e using that by blast
  have stored: "snd (states e) = None \<longleftrightarrow> (\<forall>n < count_list es e. attempts e n = None)" for e
    using edge_after_clean assms(1) by blast
  show ?thesis unfolding scan_running stored using outside by (metis imageE)
qed

text \<open>C11: When every group can be planned, and the attempts of the transitions whose edge does not catch the exception
  of its stage succeed, the run ends without an exception. It is complete exactly when, for every transition of
  every group, the attempts up to the number of times the plan starts it all succeed (once in an ordinary plan,
  more often where the batches repeat it), and then the transitions of all plans have been started, group after
  group.\<close>

theorem run_completes_iff:
  assumes "\<forall>g \<in> set groups. plan_group cores cpus g = Inr (plan g)"
    "\<forall>g \<in> set groups. \<forall>t \<in> set (snd g). catches (st_type (from_stage t)) \<or>
       (\<forall>n < count_list (plan g) (edge_name t). attempts (edge_name t) n = None)"
  shows "\<exists>st log. run_graph cores cpus attempts groups = Inr (st, log) \<and>
    (st = GS_COMPLETE \<longleftrightarrow> (\<forall>g \<in> set groups. \<forall>e. \<forall>n < count_list (plan g) e. attempts e n = None)) \<and>
    (st = GS_COMPLETE \<longrightarrow> log = concat (map plan groups))"
proof -
  have "\<exists>st log'. run_groups cores cpus attempts groups log = Inr (st, log') \<and>
      (st = GS_COMPLETE \<longleftrightarrow> (\<forall>g \<in> set groups. \<forall>e. \<forall>n < count_list (plan g) e. attempts e n = None)) \<and>
      (st = GS_COMPLETE \<longrightarrow> log' = log @ concat (map plan groups))" for log
    using assms
  proof (induction groups arbitrary: log)
    case (Cons g gs)
    obtain ws grp where g: "g = (ws, grp)" by (cases g)
    have plan: "plan_group cores cpus (ws, grp) = Inr (plan g)" using Cons.prems(1) g by simp
    have "\<forall>e. edge_after (attempts e) 0 (fresh_edges e)" by (simp add: edge_after_def)
    then obtain states where states: "execute_plan attempts grp (plan g) fresh_edges = Inr states"
      "\<forall>e. edge_after (attempts e) (count_list (plan g) e) (states e)"
      using execute_plan_result [of attempts "\<lambda>_. 0" fresh_edges "plan g" grp] plan_named [OF plan] Cons.prems(2) g by auto
    have "scan_group states grp GS_RUNNING = GS_RUNNING \<longleftrightarrow> (\<forall>e. \<forall>n < count_list (plan g) e. attempts e n = None)"
      using scan_plan [OF states(2) plan_named [OF plan]] .
    then show ?case
      using Cons.IH [of "log @ plan g"] Cons.prems plan states(1) g scan_never_complete [of states grp] by (auto simp: Let_def)
  qed simp
  from this [of "[]"] show ?thesis by (simp add: run_graph_def)
qed

theorem run_completes_iff_witness:
  "\<exists>st log. run_graph 2 2 (\<lambda>e n. if e = (''Load'', ''Report'') then Some ProcessKilledError else None)
      [([(''Prepare'', 1)], [first_transition]), ([(''Load'', 2)], [second_transition])] = Inr (st, log) \<and> st \<noteq> GS_COMPLETE"
proof -
  let ?groups = "[([(''Prepare'', 1)], [first_transition]), ([(''Load'', 2::int)], [second_transition])]"
  let ?f = "\<lambda>e (n::nat). if e = (''Load'', ''Report'') then Some ProcessKilledError else None"
  have "\<forall>g \<in> set ?groups. plan_group 2 2 g = Inr (map edge_name (snd g))" by code_simp
  then have "\<exists>st log. run_graph 2 2 ?f ?groups = Inr (st, log) \<and>
      (st = GS_COMPLETE \<longleftrightarrow> (\<forall>g \<in> set ?groups. \<forall>e. \<forall>n < count_list (map edge_name (snd g)) e. ?f e n = None)) \<and>
      (st = GS_COMPLETE \<longrightarrow> log = concat (map (\<lambda>g. map edge_name (snd g)) ?groups))"
    by (rule run_completes_iff) (simp add: first_transition_def second_transition_def user_stage_def edge_name_def catches_def)
  then obtain st log where r: "run_graph 2 2 ?f ?groups = Inr (st, log)"
    "st = GS_COMPLETE \<longleftrightarrow> (\<forall>g \<in> set ?groups. \<forall>e. \<forall>n < count_list (map edge_name (snd g)) e. ?f e n = None)" by blast
  have "edge_name second_transition = (''Load'', ''Report'')" by (simp add: second_transition_def user_stage_def edge_name_def)
  then have "0 < count_list (map edge_name [second_transition]) (''Load'', ''Report'')" by simp
  then have "st \<noteq> GS_COMPLETE" using r(2) by fastforce
  then show ?thesis using r(1) by blast
qed

section \<open>Groups of one transition\<close>

lemma siblings_single [simp]: "siblings [t] t = [t]"
  by (simp add: siblings_def)

lemma skips_single [simp]: "skips [t] t \<longleftrightarrow> st_skip (from_stage t)"
  by (simp add: skips_def)

lemma sorted_single [simp]: "sorted_transitions [i] = [i]"
  by (simp add: sorted_transitions_def)

lemma partition_single:
  "partion_prioritized pool [i] =
     (if allow_parallel i then (if skip_stage i then Inl IndexError else Inr [[config_of i (workers i)]]) else Inr [[config_of i 0]])"
  by (simp add: partion_prioritized_def Let_def parallel_count_def auto_count_def stage_table_def bypassed_def)

lemma plan_single:
  "plan_group cores cpus (ws, [t]) =
     (if st_parallel (from_stage t) \<and> st_skip (from_stage t) then Inl IndexError else Inr [edge_name t])"
  by (simp add: plan_group_def partition_single transition_info_of_def order_groups_def start_order_def config_of_def edge_name_def)

text \<open>A chain of stages, none of which is skipped, runs from the first to the last one.\<close>

theorem chain_runs_in_order:
  assumes "\<forall>g \<in> set groups. \<exists>t. snd g = [t] \<and> \<not> st_skip (from_stage t) \<and> attempts (edge_name t) 0 = None"
  shows "run_graph cores cpus attempts groups = Inr (GS_COMPLETE, map edge_name (concat (map snd groups)))"
proof -
  have "run_groups cores cpus attempts groups log = Inr (GS_COMPLETE, log @ map edge_name (concat (map snd groups)))" for log
    using assms
  proof (induction groups arbitrary: log)
    case (Cons g gs)
    then obtain ws t where t: "g = (ws, [t])" "\<not> st_skip (from_stage t)" "attempts (edge_name t) 0 = None" by (cases g) auto
    have "execute_transition attempts t (0, None) = Inr (1, None)" using execute_transition_ok t(3) by blast
    then show ?case using Cons.IH [of "log @ [edge_name t]"] Cons.prems t by (simp add: plan_single Let_def)
  qed simp
  then show ?thesis by (simp add: run_graph_def)
qed

theorem chain_runs_in_order_witness:
  "run_graph 2 2 (\<lambda>_ _. None) [([(''Prepare'', 1)], [first_transition]), ([(''Load'', 2)], [second_transition])] =
     Inr (GS_COMPLETE, [(''Prepare'', ''Load''), (''Load'', ''Report'')])"
  using chain_runs_in_order [of "[([(''Prepare'', 1)], [first_transition]), ([(''Load'', 2)], [second_transition])]" "\<lambda>_ _. None" 2 2]
  by (simp add: first_transition_def second_transition_def user_stage_def edge_name_def)

text \<open>Skipping the only parallel stage of a generation, by the option for skipped stages, stops the whole run with an
  IndexError when its turn comes.\<close>

theorem skipped_stage_raises:
  assumes "\<forall>g \<in> set before. \<exists>t. snd g = [t] \<and> \<not> st_skip (from_stage t) \<and> attempts (edge_name t) 0 = None"
    "st_parallel (from_stage t)" "st_skip (from_stage t)"
  shows "run_graph cores cpus attempts (before @ (ws, [t]) # after) = Inl IndexError"
proof -
  have "run_groups cores cpus attempts (before @ (ws, [t]) # after) log = Inl IndexError" for log
    using assms(1)
  proof (induction before arbitrary: log)
    case Nil
    then show ?case using assms(2,3) by (simp add: plan_single)
  next
    case (Cons g gs)
    then obtain ws t where t: "g = (ws, [t])" "\<not> st_skip (from_stage t)" "attempts (edge_name t) 0 = None" by (cases g) auto
    have "execute_transition attempts t (0, None) = Inr (1, None)" using execute_transition_ok t(3) by blast
    then show ?case using Cons.IH [of "log @ [edge_name t]"] Cons.prems t by (simp add: plan_single Let_def)
  qed
  then show ?thesis by (simp add: run_graph_def)
qed

theorem skipped_stage_raises_witness:
  "run_graph 2 2 (\<lambda>_ _. None)
     ([([(''Prepare'', 1)], [first_transition])] @
      ([(''Load'', 2)], [second_transition\<lparr>from_stage := (user_stage ''Load'' EXECUTE [''Prepare''])\<lparr>st_skip := True\<rparr>\<rparr>]) # []) = Inl IndexError"
  by (rule skipped_stage_raises) (simp_all add: first_transition_def user_stage_def)

section \<open>Groups with one parallel stage\<close>

text \<open>In a group where exactly one stage is parallel, only one transition is started, whatever the others are; when
  its stage succeeds the run goes on and the other stages of the group have never run.\<close>

theorem mixed_group_runs_one:
  assumes "parallel_count (sorted_transitions (map (transition_info_of cpus ws grp) grp)) = 1"
    "t \<in> set grp" "\<not> skips grp t" "\<forall>e. attempts e 0 = None"
  shows "\<exists>u \<in> set grp. \<not> skips grp u \<and> run_graph cores cpus attempts [(ws, grp)] = Inr (GS_COMPLETE, [edge_name u])"
proof -
  let ?infos = "map (transition_info_of cpus ws grp) grp"
  let ?unskipped = "filter (\<lambda>i. \<not> skip_stage i) (sorted_transitions ?infos)"
  have "transition_info_of cpus ws grp t \<in> set ?unskipped" using assms(2,3) by (simp add: transition_info_of_def)
  then have "?unskipped \<noteq> []" by (cases ?unskipped) simp_all
  then have "last ?unskipped \<in> set ?unskipped" by (rule last_in_set)
  then obtain u where u: "u \<in> set grp" "\<not> skips grp u" "last ?unskipped = transition_info_of cpus ws grp u"
    by (auto simp: transition_info_of_def)
  have "plan_group cores cpus (ws, grp) = Inr [edge_name u]"
    using assms(1) \<open>?unskipped \<noteq> []\<close> u(3)
    by (simp add: plan_group_def partion_prioritized_def Let_def order_groups_def start_order_def config_of_def)
      (simp add: transition_info_of_def edge_name_def)
  moreover have "filter (\<lambda>v. edge_name v = edge_name u) grp \<noteq> []" using u(1) by (auto simp: filter_empty_conv)
  then obtain v vs where "filter (\<lambda>v. edge_name v = edge_name u) grp = v # vs" by (cases "filter (\<lambda>v. edge_name v = edge_name u) grp") auto
  moreover have "execute_transition attempts v (0, None) = Inr (1, None)" using execute_transition_ok assms(4) by blast
  moreover have "scan_group (fresh_edges(edge_name u := (1, None))) grp GS_RUNNING = GS_RUNNING"
    by (simp add: scan_running)
  ultimately have "run_graph cores cpus attempts [(ws, grp)] = Inr (GS_COMPLETE, [edge_name u])" by (simp add: run_graph_def)
  then show ?thesis using u by blast
qed

definition check_transition :: stage_transition where
  "check_transition = \<lparr>from_stage = user_stage ''Check'' ACT [], to_stage = user_stage ''Report'' ANALYZE [''Load''],
     metadata = \<lparr>allow_multiple_edges = False, is_valid = True\<rparr>, transition_idx = 1\<rparr>"

theorem mixed_group_runs_one_witness:
  "\<exists>u \<in> {second_transition, check_transition}.
     run_graph 2 2 (\<lambda>_ _. None) [([(''Check'', 1), (''Load'', 1)], [second_transition, check_transition])] = Inr (GS_COMPLETE, [edge_name u])"
  using mixed_group_runs_one [of 2 "[(''Check'', 1), (''Load'', 1)]" "[second_transition, check_transition]" second_transition "\<lambda>_ _. None" 2]
  by (simp add: parallel_count_def stage_table_def sorted_transitions_def transition_info_of_def second_transition_def check_transition_def
      user_stage_def skips_def siblings_def priority_map_def)

end
