(* ===== verification/Client_Pool.thy ===== *)
theory Client_Pool
  imports Py_Prelude "HOL-Library.AList"
begin

text \<open>
  The connection pool of an engine client (\<open>core/engines/types/http/client.py\<close>, \<open>pool.py\<close> and the
  \<open>wait_for_active_threshold\<close> of \<open>core/engines/types/common/base_engine.py\<close>): requests as tasks that
  pass the semaphore, take a connection and give one back. Everything between the points where a
  request touches the pool is outside, so a run is a list of events; connections are counted. A
  request keeps the semaphore it has entered, also when the pool is replaced meanwhile.
\<close>

section \<open>State\<close>

datatype pool_waiter = No_waiter | Waiting | Waiter_cancelled

record client_pool =
  pool_size :: int
  connections :: nat
  current_sem :: nat
  permits :: "nat \<Rightarrow> nat"
  queued :: "(nat \<times> nat) list"
  in_flight :: "(nat \<times> nat) list"
  active :: nat
  waiter :: pool_waiter
  pop_errors :: nat

definition client_init :: "nat \<Rightarrow> client_pool" where
  "client_init n = \<lparr>pool_size = int n, connections = n, current_sem = 0, permits = (\<lambda>_. n), queued = [], in_flight = [],
     active = 0, waiter = No_waiter, pop_errors = 0\<rparr>"

text \<open>The tasks are numbered; the second component is the semaphore a task waits for or holds.\<close>

definition tasks_of :: "(nat \<times> nat) list \<Rightarrow> nat set" where
  "tasks_of xs = set (map fst xs)"

definition known_task :: "nat \<Rightarrow> client_pool \<Rightarrow> bool" where
  "known_task t c \<longleftrightarrow> t \<in> tasks_of (queued c) \<union> tasks_of (in_flight c)"

section \<open>The operations on the pool\<close>

definition begin_request :: "nat \<Rightarrow> client_pool \<Rightarrow> client_pool" where
  "begin_request t c = c\<lparr>active := active c + 1, queued := queued c @ [(t, current_sem c)]\<rparr>"

text \<open>The end of \<open>execute_prepared_request\<close>, inside the semaphore, and the release of the semaphore.\<close>

definition request_done :: "client_pool \<Rightarrow> client_pool" where
  "request_done c =
     (let c = c\<lparr>active := active c - 1\<rparr>
      in if waiter c \<noteq> No_waiter \<and> int (active c) \<le> pool_size c then c\<lparr>waiter := No_waiter\<rparr> else c)"

definition release_permit :: "nat \<Rightarrow> client_pool \<Rightarrow> client_pool" where
  "release_permit g c = c\<lparr>permits := (permits c)(g := permits c g + 1)\<rparr>"

text \<open>A request gets its permit and pops a connection; the exception of an empty pool is caught, recorded in the
  response, and a new connection is added to the pool.\<close>

definition enter_pool :: "nat \<Rightarrow> nat \<Rightarrow> client_pool \<Rightarrow> client_pool" where
  "enter_pool t g c =
     (let c = c\<lparr>queued := AList.delete t (queued c), permits := (permits c)(g := permits c g - 1)\<rparr>
      in if connections c = 0
         then release_permit g (request_done (c\<lparr>connections := connections c + 1, pop_errors := pop_errors c + 1\<rparr>))
         else c\<lparr>connections := connections c - 1, in_flight := (t, g) # in_flight c\<rparr>)"

text \<open>A request ends: it gives back its own connection or, after an exception, a new one; an exception after the
  connection was given back adds a second one.\<close>

definition leave_pool :: "nat \<Rightarrow> nat \<Rightarrow> nat \<Rightarrow> client_pool \<Rightarrow> client_pool" where
  "leave_pool t g returned c =
     release_permit g (request_done (c\<lparr>in_flight := AList.delete t (in_flight c), connections := connections c + returned\<rparr>))"

text \<open>A cancelled request releases its semaphore, nothing else.\<close>

definition cancel_request :: "nat \<Rightarrow> client_pool \<Rightarrow> client_pool" where
  "cancel_request t c =
     (case map_of (in_flight c) t of
        Some g \<Rightarrow> release_permit g (c\<lparr>in_flight := AList.delete t (in_flight c)\<rparr>)
      | None \<Rightarrow> c\<lparr>queued := AList.delete t (queued c)\<rparr>)"

definition new_semaphore :: "int \<Rightarrow> client_pool \<Rightarrow> client_pool res" where
  "new_semaphore n c =
     (if n < 0 then Inl ValueError
      else Inr (c\<lparr>current_sem := current_sem c + 1, permits := (permits c)(current_sem c + 1 := nat n)\<rparr>))"

definition extend_pool :: "nat \<Rightarrow> client_pool \<Rightarrow> client_pool res" where
  "extend_pool k c =
     (let c = c\<lparr>pool_size := pool_size c + int k, connections := connections c + k\<rparr> in new_semaphore (pool_size c) c)"

text \<open>The slice of the connections may have a negative bound.\<close>

definition shrink_pool :: "int \<Rightarrow> client_pool \<Rightarrow> client_pool res" where
  "shrink_pool k c =
     (let c = c\<lparr>pool_size := pool_size c - k\<rparr>;
          c = c\<lparr>connections := clamp_bound (connections c) (pool_size c)\<rparr>
      in new_semaphore (pool_size c) c)"

definition set_pool :: "int \<Rightarrow> client_pool \<Rightarrow> client_pool res" where
  "set_pool n c =
     (case new_semaphore n c of Inl e \<Rightarrow> Inl e | Inr c \<Rightarrow> Inr (c\<lparr>pool_size := n, connections := nat n\<rparr>))"

definition wait_for_active_threshold :: "client_pool \<Rightarrow> client_pool" where
  "wait_for_active_threshold c = (if waiter c = No_waiter then c\<lparr>waiter := Waiting\<rparr> else c)"

text \<open>The timeout around the wait cancels the future, which stays in the client.\<close>

definition wait_timed_out :: "client_pool \<Rightarrow> client_pool" where
  "wait_timed_out c = (if waiter c = Waiting then c\<lparr>waiter := Waiter_cancelled\<rparr> else c)"

section \<open>Runs\<close>

datatype pool_event = Begin nat | Enter nat | Complete nat | Fail_before nat | Fail_after nat | Cancel nat
  | Extend nat | Shrink int | Set_pool int | Await_threshold | Await_timeout

text \<open>None: the event is not possible in this state.\<close>

fun pool_step :: "client_pool \<Rightarrow> pool_event \<Rightarrow> client_pool option" where
  "pool_step c (Begin t) = (if known_task t c then None else Some (begin_request t c))"
| "pool_step c (Enter t) =
     (case map_of (queued c) t of None \<Rightarrow> None | Some g \<Rightarrow> if permits c g > 0 then Some (enter_pool t g c) else None)"
| "pool_step c (Complete t) = (case map_of (in_flight c) t of None \<Rightarrow> None | Some g \<Rightarrow> Some (leave_pool t g 1 c))"
| "pool_step c (Fail_before t) = (case map_of (in_flight c) t of None \<Rightarrow> None | Some g \<Rightarrow> Some (leave_pool t g 1 c))"
| "pool_step c (Fail_after t) = (case map_of (in_flight c) t of None \<Rightarrow> None | Some g \<Rightarrow> Some (leave_pool t g 2 c))"
| "pool_step c (Cancel t) = (if known_task t c then Some (cancel_request t c) else None)"
| "pool_step c (Extend k) = (case extend_pool k c of Inl e \<Rightarrow> None | Inr c' \<Rightarrow> Some c')"
| "pool_step c (Shrink k) = (case shrink_pool k c of Inl e \<Rightarrow> None | Inr c' \<Rightarrow> Some c')"
| "pool_step c (Set_pool n) = (case set_pool n c of Inl e \<Rightarrow> None | Inr c' \<Rightarrow> Some c')"
| "pool_step c Await_threshold = Some (wait_for_active_threshold c)"
| "pool_step c Await_timeout = Some (wait_timed_out c)"

fun pool_run :: "client_pool \<Rightarrow> pool_event list \<Rightarrow> client_pool option" where
  "pool_run c [] = Some c"
| "pool_run c (e # es) = (case pool_step c e of None \<Rightarrow> None | Some c' \<Rightarrow> pool_run c' es)"

lemma pool_run_append: "pool_run c (es @ fs) = (case pool_run c es of None \<Rightarrow> None | Some c' \<Rightarrow> pool_run c' fs)"
  by (induction es arbitrary: c) (auto split: option.split)

section \<open>A pool that is not resized\<close>

fun keeps_pool :: "pool_event \<Rightarrow> bool" where
  "keeps_pool (Cancel t) = False"
| "keeps_pool (Extend k) = False"
| "keeps_pool (Shrink k) = False"
| "keeps_pool (Set_pool n) = False"
| "keeps_pool _ = True"

definition sems_of :: "(nat \<times> nat) list \<Rightarrow> nat set" where
  "sems_of xs = set (map snd xs)"

definition tasks_ok :: "client_pool \<Rightarrow> bool" where
  "tasks_ok c \<longleftrightarrow> distinct (map fst (queued c)) \<and> distinct (map fst (in_flight c)) \<and> tasks_of (queued c) \<inter> tasks_of (in_flight c) = {}"

lemma tasks_of_simps [simp]:
  "tasks_of [] = {}" "tasks_of ((t, g) # xs) = insert t (tasks_of xs)" "tasks_of (xs @ ys) = tasks_of xs \<union> tasks_of ys"
  "tasks_of (AList.delete t xs) = tasks_of xs - {t}" "t \<in> set (map fst xs) \<longleftrightarrow> t \<in> tasks_of xs"
  by (auto simp: tasks_of_def delete_keys)

lemma sems_of_simps [simp]:
  "sems_of [] = {}" "sems_of ((t, g) # xs) = insert g (sems_of xs)" "sems_of (xs @ ys) = sems_of xs \<union> sems_of ys"
  by (auto simp: sems_of_def)

lemma sems_of_delete: "sems_of (AList.delete t xs) \<subseteq> sems_of xs"
  by (auto simp: sems_of_def AList.delete_eq)

lemma fresh_fst [simp]: "t \<notin> fst ` set xs \<longleftrightarrow> t \<notin> tasks_of xs" "t \<in> fst ` set xs \<longleftrightarrow> t \<in> tasks_of xs"
  by (simp_all add: tasks_of_def)

text \<open>The invariant of the first semaphore: nobody uses another, its permits and holders make up the size.\<close>

definition pool_ok :: "nat \<Rightarrow> nat \<Rightarrow> client_pool \<Rightarrow> bool" where
  "pool_ok n extra c \<longleftrightarrow> tasks_ok c \<and> current_sem c = 0 \<and> sems_of (queued c) \<union> sems_of (in_flight c) \<subseteq> {0} \<and>
     pool_size c = int n \<and> permits c 0 + length (in_flight c) = n \<and> connections c + length (in_flight c) = n + extra \<and>
     active c = length (queued c) + length (in_flight c) \<and> pop_errors c = 0"

lemma map_of_in: "map_of xs t = Some g \<Longrightarrow> t \<in> tasks_of xs \<and> g \<in> sems_of xs"
  by (induction xs) (auto split: if_splits)

lemma map_of_out: "map_of xs t = None \<longleftrightarrow> t \<notin> tasks_of xs"
  by (induction xs) auto

lemma delete_absent: "t \<notin> tasks_of xs \<Longrightarrow> AList.delete t xs = xs"
  by (induction xs) auto

lemma length_delete: "distinct (map fst (xs :: (nat \<times> nat) list)) \<Longrightarrow> map_of xs t = Some g \<Longrightarrow> length (AList.delete t xs) + 1 = length xs"
proof (induction xs)
  case (Cons x xs)
  then show ?case using delete_absent [of t xs] by (cases x) (auto split: if_splits)
qed simp

lemma request_done_fields [simp]:
  "pool_size (request_done c) = pool_size c" "connections (request_done c) = connections c" "current_sem (request_done c) = current_sem c"
  "permits (request_done c) = permits c" "queued (request_done c) = queued c" "in_flight (request_done c) = in_flight c"
  "active (request_done c) = active c - 1" "pop_errors (request_done c) = pop_errors c"
  by (simp_all add: request_done_def Let_def)

lemma release_permit_fields [simp]:
  "pool_size (release_permit g c) = pool_size c" "connections (release_permit g c) = connections c"
  "current_sem (release_permit g c) = current_sem c" "queued (release_permit g c) = queued c" "in_flight (release_permit g c) = in_flight c"
  "active (release_permit g c) = active c" "pop_errors (release_permit g c) = pop_errors c" "waiter (release_permit g c) = waiter c"
  "permits (release_permit g c) = (permits c)(g := permits c g + 1)"
  by (simp_all add: release_permit_def)

lemma leave_ok:
  assumes "pool_ok n extra c" "map_of (in_flight c) t = Some g" "0 < k"
  shows "pool_ok n (extra + k - 1) (leave_pool t g k c)"
proof -
  have g: "g = 0" using assms(1,2) map_of_in [of "in_flight c" t g] by (auto simp: pool_ok_def)
  have d: "distinct (map fst (in_flight c))" using assms(1) by (simp add: pool_ok_def tasks_ok_def)
  note l = length_delete [OF d assms(2)]
  have "tasks_ok (leave_pool t g k c)"
    using assms(1) distinct_delete [OF d, of t] by (auto simp: pool_ok_def tasks_ok_def leave_pool_def)
  moreover have "sems_of (queued c) \<union> sems_of (AList.delete t (in_flight c)) \<subseteq> {0}"
    using assms(1) sems_of_delete [of t "in_flight c"] by (auto simp: pool_ok_def)
  ultimately show ?thesis using assms(1,3) l g by (auto simp: pool_ok_def leave_pool_def)
qed

lemma enter_ok:
  assumes "pool_ok n extra c" "map_of (queued c) t = Some g" "permits c g > 0"
  shows "pool_ok n extra (enter_pool t g c)"
proof -
  have g: "g = 0" using assms(1,2) map_of_in [of "queued c" t g] by (auto simp: pool_ok_def)
  have d: "distinct (map fst (queued c))" using assms(1) by (simp add: pool_ok_def tasks_ok_def)
  note l = length_delete [OF d assms(2)]
  have c: "connections c > 0" using assms(1,3) g by (auto simp: pool_ok_def)
  have "t \<notin> tasks_of (in_flight c)" using assms(1) map_of_in [OF assms(2)] by (auto simp: pool_ok_def tasks_ok_def)
  then have "tasks_ok (enter_pool t g c)"
    using assms(1) c distinct_delete [OF d, of t] by (auto simp: pool_ok_def tasks_ok_def enter_pool_def Let_def)
  moreover have "sems_of (AList.delete t (queued c)) \<subseteq> {0}"
    using assms(1) sems_of_delete [of t "queued c"] by (auto simp: pool_ok_def)
  ultimately show ?thesis using assms(1,3) l g c by (auto simp: pool_ok_def enter_pool_def Let_def)
qed

lemma begin_ok: "pool_ok n extra c \<Longrightarrow> \<not> known_task t c \<Longrightarrow> pool_ok n extra (begin_request t c)"
  by (auto simp: pool_ok_def tasks_ok_def begin_request_def known_task_def)

lemma waiter_ok: "pool_ok n extra c \<Longrightarrow> pool_ok n extra (wait_for_active_threshold c) \<and> pool_ok n extra (wait_timed_out c)"
  by (simp add: pool_ok_def tasks_ok_def wait_for_active_threshold_def wait_timed_out_def)

fun late_failure :: "pool_event \<Rightarrow> nat" where
  "late_failure (Fail_after t) = 1"
| "late_failure _ = 0"

lemma step_ok:
  assumes "pool_ok n extra c" "keeps_pool e" "pool_step c e = Some c'"
  shows "pool_ok n (extra + late_failure e) c'"
proof (cases e)
  case (Begin t)
  then show ?thesis using assms begin_ok by (auto split: if_splits)
next
  case (Enter t)
  then show ?thesis using assms enter_ok by (auto split: option.splits if_splits)
next
  case (Complete t)
  then show ?thesis using assms leave_ok [of n extra c t _ 1] by (auto split: option.splits)
next
  case (Fail_before t)
  then show ?thesis using assms leave_ok [of n extra c t _ 1] by (auto split: option.splits)
next
  case (Fail_after t)
  then show ?thesis using assms leave_ok [of n extra c t _ 2] by (auto split: option.splits)
qed (use assms waiter_ok in auto)

lemma run_ok:
  "pool_ok n extra c \<Longrightarrow> \<forall>e \<in> set es. keeps_pool e \<Longrightarrow> pool_run c es = Some c' \<Longrightarrow> pool_ok n (extra + sum_list (map late_failure es)) c'"
proof (induction es arbitrary: c extra)
  case (Cons e es)
  then obtain c1 where c1: "pool_step c e = Some c1" "pool_run c1 es = Some c'" by (auto split: option.splits)
  have "pool_ok n (extra + late_failure e) c1" using step_ok Cons.prems(1,2) c1(1) by simp
  from Cons.IH [OF this _ c1(2)] Cons.prems(2) show ?case by (simp add: add.assoc)
qed simp

lemma pool_init_ok: "pool_ok n 0 (client_init n)"
  by (simp add: pool_ok_def tasks_ok_def client_init_def)

text \<open>C16: In a pool that is not resized and without cancelled requests every request that passes the semaphore
  finds a connection, at most as many requests as the pool is large are in flight, and exactly the
  requests that fail after they have given their connection back make the pool grow, by one each.\<close>

theorem pool_serves_requests:
  assumes "\<forall>e \<in> set es. keeps_pool e" "pool_run (client_init n) es = Some c"
  shows "pop_errors c = 0 \<and> length (in_flight c) \<le> n \<and> active c = length (queued c) + length (in_flight c) \<and>
    connections c + length (in_flight c) = n + sum_list (map late_failure es)"
  using run_ok [OF pool_init_ok assms] by (simp add: pool_ok_def)

theorem pool_serves_requests_witness:
  "\<exists>c. pool_run (client_init 2) [Begin 1, Begin 2, Enter 1, Enter 2, Fail_after 1] = Some c \<and> connections c + length (in_flight c) = 3"
proof -
  let ?es = "[Begin 1, Begin 2, Enter 1, Enter 2, Fail_after 1]"
  obtain c where c: "pool_run (client_init 2) ?es = Some c"
    by (simp add: client_init_def known_task_def begin_request_def enter_pool_def leave_pool_def release_permit_def request_done_def Let_def)
  then show ?thesis using pool_serves_requests [OF _ c] by (simp add: c)
qed

section \<open>A pool that is resized under load\<close>

text \<open>New requests, one after the other, each passing the current semaphore at once.\<close>

definition arrivals_from :: "nat \<Rightarrow> nat \<Rightarrow> pool_event list" where
  "arrivals_from t k = concat (map (\<lambda>i. [Begin i, Enter i]) [t..<t + k])"

lemma arrivals_Suc: "arrivals_from t (Suc k) = Begin t # Enter t # arrivals_from (t + 1) k"
  by (simp add: arrivals_from_def upt_conv_Cons)

lemma arrivals_run:
  assumes "k \<le> connections c" "k \<le> permits c (current_sem c)" "\<forall>i \<ge> t. \<not> known_task i c" "queued c = []"
  shows "\<exists>c'. pool_run c (arrivals_from t k) = Some c' \<and> connections c' = connections c - k \<and>
    permits c' (current_sem c') = permits c (current_sem c) - k \<and> current_sem c' = current_sem c \<and> pop_errors c' = pop_errors c \<and>
    queued c' = [] \<and> (\<forall>i \<ge> t + k. \<not> known_task i c') \<and> pool_size c' = pool_size c"
  using assms
proof (induction k arbitrary: c t)
  case 0
  then show ?case by (simp add: arrivals_from_def)
next
  case (Suc k)
  let ?c = "enter_pool t (current_sem c) (begin_request t c)"
  have new: "\<not> known_task t c" using Suc.prems(3) by simp
  have c: "?c = c\<lparr>active := active c + 1, queued := [], permits := (permits c)(current_sem c := permits c (current_sem c) - 1),
      connections := connections c - 1, in_flight := (t, current_sem c) # in_flight c\<rparr>"
    using Suc.prems by (simp add: enter_pool_def begin_request_def Let_def)
  have "pool_run c (arrivals_from t (Suc k)) = pool_run ?c (arrivals_from (t + 1) k)"
    using Suc.prems new by (simp add: arrivals_Suc) (simp add: begin_request_def)
  moreover have "\<forall>i \<ge> t + 1. \<not> known_task i ?c" using Suc.prems(3) by (auto simp: c known_task_def Suc.prems(4))
  moreover have "k \<le> connections ?c" "k \<le> permits ?c (current_sem ?c)" "queued ?c = []" using Suc.prems(1,2) by (simp_all add: c)
  ultimately show ?case using Suc.IH [of ?c "t + 1"] by (auto simp: c)
qed

text \<open>When the pool is extended while a request is in flight, the new semaphore counts the connection of that request
  as free: after as many new requests as there are connections the next one passes the semaphore and
  fails on the empty pool.\<close>

theorem extend_exhausts_pool:
  assumes "\<forall>e \<in> set es. keeps_pool e" "pool_run (client_init n) es = Some c" "queued c = []"
    "sum_list (map late_failure es) < length (in_flight c)" "\<forall>i \<ge> t. \<not> known_task i c"
  shows "\<exists>c'. pool_run (client_init n) (es @ Extend k # arrivals_from t (connections c + k + 1)) = Some c' \<and> pop_errors c' = 1"
proof -
  have ok: "pool_ok n (sum_list (map late_failure es)) c" using run_ok [OF pool_init_ok assms(1,2)] by simp
  let ?c = "c\<lparr>pool_size := int (n + k), connections := connections c + k, current_sem := 1, permits := (permits c)(1 := n + k)\<rparr>"
  have e: "extend_pool k c = Inr ?c" using ok by (simp add: pool_ok_def extend_pool_def new_semaphore_def nat_add_distrib)
  have less: "connections c + k < n + k" using ok assms(4) by (simp add: pool_ok_def)
  have "\<forall>i \<ge> t. \<not> known_task i ?c" using assms(5) by (simp add: known_task_def)
  then obtain c1 where c1: "pool_run ?c (arrivals_from t (connections c + k)) = Some c1" "connections c1 = 0" "current_sem c1 = 1"
    "permits c1 1 > 0" "pop_errors c1 = 0" "queued c1 = []" "\<forall>i \<ge> t + (connections c + k). \<not> known_task i c1"
    using arrivals_run [of "connections c + k" ?c t] less assms(3) ok by (auto simp: pool_ok_def)
  let ?t = "t + (connections c + k)"
  have "arrivals_from t (connections c + k + 1) = arrivals_from t (connections c + k) @ [Begin ?t, Enter ?t]"
    by (simp add: arrivals_from_def)
  moreover have "\<exists>c'. pool_run c1 [Begin ?t, Enter ?t] = Some c' \<and> pop_errors c' = 1"
    using c1 by (simp add: begin_request_def enter_pool_def)
  ultimately show ?thesis using assms(2) e c1(1) by (auto simp: pool_run_append)
qed

theorem extend_exhausts_pool_witness:
  "\<exists>c'. pool_run (client_init 1) ([Begin 0, Enter 0] @ Extend 1 # arrivals_from 1 2) = Some c' \<and> pop_errors c' = 1"
proof -
  obtain c where c: "pool_run (client_init 1) [Begin 0, Enter 0] = Some c" "queued c = []" "in_flight c = [(0, 0)]" "connections c = 0"
    by (simp add: client_init_def known_task_def begin_request_def enter_pool_def Let_def)
  have "\<exists>c'. pool_run (client_init 1) ([Begin 0, Enter 0] @ Extend 1 # arrivals_from 1 (connections c + 1 + 1)) = Some c' \<and> pop_errors c' = 1"
    by (rule extend_exhausts_pool [OF _ c(1,2)]) (simp_all add: c known_task_def)
  then show ?thesis by (simp add: c numeral_2_eq_2)
qed

section \<open>Cancelled requests\<close>

fun cancels :: "pool_event \<Rightarrow> nat" where
  "cancels (Cancel t) = 1"
| "cancels _ = 0"

text \<open>Every request that is cancelled stays in the count of the active ones.\<close>

lemma active_step:
  assumes "tasks_ok c" "active c = length (queued c) + length (in_flight c) + d" "pool_step c e = Some c'"
  shows "tasks_ok c' \<and> active c' = length (queued c') + length (in_flight c') + (d + cancels e)"
proof -
  have d: "distinct (map fst (queued c))" "distinct (map fst (in_flight c))" "tasks_of (queued c) \<inter> tasks_of (in_flight c) = {}"
    using assms(1) by (simp_all add: tasks_ok_def)
  note dd = distinct_delete [OF d(1)] distinct_delete [OF d(2)]
  show ?thesis
  proof (cases e)
    case (Begin t)
    then show ?thesis using assms by (auto simp: tasks_ok_def begin_request_def known_task_def split: if_splits)
  next
    case (Enter t)
    then obtain g where g: "map_of (queued c) t = Some g" "c' = enter_pool t g c" using assms(3) by (auto split: option.splits if_splits)
    have "t \<notin> tasks_of (in_flight c)" using d(3) map_of_in [OF g(1)] by auto
    then show ?thesis
      using Enter g assms(2) d dd [of t] length_delete [OF d(1) g(1)] by (auto simp: tasks_ok_def enter_pool_def Let_def)
  next
    case (Complete t)
    then obtain g where g: "map_of (in_flight c) t = Some g" "c' = leave_pool t g 1 c" using assms(3) by (auto split: option.splits)
    then show ?thesis using Complete assms(2) d dd [of t] length_delete [OF d(2) g(1)] by (auto simp: tasks_ok_def leave_pool_def)
  next
    case (Fail_before t)
    then obtain g where g: "map_of (in_flight c) t = Some g" "c' = leave_pool t g 1 c" using assms(3) by (auto split: option.splits)
    then show ?thesis using Fail_before assms(2) d dd [of t] length_delete [OF d(2) g(1)] by (auto simp: tasks_ok_def leave_pool_def)
  next
    case (Fail_after t)
    then obtain g where g: "map_of (in_flight c) t = Some g" "c' = leave_pool t g 2 c" using assms(3) by (auto split: option.splits)
    then show ?thesis using Fail_after assms(2) d dd [of t] length_delete [OF d(2) g(1)] by (auto simp: tasks_ok_def leave_pool_def)
  next
    case (Cancel t)
    then have k: "known_task t c" "c' = cancel_request t c" using assms(3) by (auto split: if_splits)
    show ?thesis
    proof (cases "map_of (in_flight c) t")
      case None
      then have "t \<in> tasks_of (queued c)" using k(1) by (simp add: known_task_def map_of_out)
      then obtain g where "map_of (queued c) t = Some g" using map_of_out [of "queued c" t] by (cases "map_of (queued c) t") simp_all
      from length_delete [OF d(1) this] show ?thesis
        using None Cancel k(2) assms(2) d dd [of t] by (auto simp: tasks_ok_def cancel_request_def)
    next
      case (Some g)
      from length_delete [OF d(2) this] show ?thesis
        using Some Cancel k(2) assms(2) d dd [of t] by (auto simp: tasks_ok_def cancel_request_def)
    qed
  qed (use assms in \<open>auto simp: tasks_ok_def extend_pool_def shrink_pool_def set_pool_def new_semaphore_def Let_def
      wait_for_active_threshold_def wait_timed_out_def split: if_splits\<close>)
qed

lemma active_run:
  "tasks_ok c \<Longrightarrow> active c = length (queued c) + length (in_flight c) + d \<Longrightarrow> pool_run c es = Some c' \<Longrightarrow>
     active c' = length (queued c') + length (in_flight c') + (d + sum_list (map cancels es))"
proof (induction es arbitrary: c d)
  case (Cons e es)
  then obtain c1 where c1: "pool_step c e = Some c1" "pool_run c1 es = Some c'" by (auto split: option.splits)
  note s = active_step [OF Cons.prems(1,2) c1(1)]
  from Cons.IH [OF _ _ c1(2), of "d + cancels e"] s show ?case by (simp add: add.assoc)
qed simp

text \<open>Cancelled requests are never taken out of the count of active requests, whatever happens to the pool.\<close>

theorem cancelled_stay_active:
  assumes "pool_run (client_init n) es = Some c"
  shows "active c = length (queued c) + length (in_flight c) + sum_list (map cancels es)"
  using active_run [OF _ _ assms, of 0] by (simp add: client_init_def tasks_ok_def)

theorem cancelled_stay_active_witness:
  "\<exists>c. pool_run (client_init 1) [Begin 0, Enter 0, Begin 1, Cancel 0, Cancel 1] = Some c \<and>
     active c = length (queued c) + length (in_flight c) + 2 \<and> queued c = [] \<and> in_flight c = []"
proof -
  obtain c where c: "pool_run (client_init 1) [Begin 0, Enter 0, Begin 1, Cancel 0, Cancel 1] = Some c" "queued c = []" "in_flight c = []"
    by (simp add: client_init_def known_task_def begin_request_def enter_pool_def cancel_request_def release_permit_def Let_def)
  from cancelled_stay_active [OF c(1)] show ?thesis using c by simp
qed

end
