(* ===== verification/Persona_Generators.thy ===== *)
theory Persona_Generators
  imports Py_Prelude Complex_Main
begin

text \<open>
  The action generators of the personas (\<open>core/personas/types\<close>): which action is started next, for how
  long, and how the pools of the sessions are resized on the way. A generator runs over the readings
  of the clock between two starts; when they are exhausted it is still running. The waits on the
  number of active requests and the sleeps only show in the readings. The sessions are numbered,
  \<open>sess\<close> gives the session of an action.
\<close>

datatype generator_end = Ended | Running | Raised py_error

text \<open>
  The loop all generators but the weighted one share: while time is left an action is started, then the
  state is advanced with the next reading, whose elapsed time decides about the next turn.
\<close>

fun run_generator :: "('s \<Rightarrow> nat) \<Rightarrow> ('s \<Rightarrow> 'r \<Rightarrow> 's res) \<Rightarrow> ('r \<Rightarrow> real) \<Rightarrow> real \<Rightarrow> 's \<Rightarrow> real \<Rightarrow> 'r list \<Rightarrow> nat list \<times> generator_end" where
  "run_generator pick step elapsed total_time s e [] = (if e < total_time then ([pick s], Running) else ([], Ended))"
| "run_generator pick step elapsed total_time s e (r # rs) =
     (if e < total_time
      then (case step s r of
              Inl x \<Rightarrow> ([pick s], Raised x)
            | Inr s' \<Rightarrow> (case run_generator pick step elapsed total_time s' (elapsed r) rs of (ys, z) \<Rightarrow> (pick s # ys, z)))
      else ([], Ended))"

text \<open>\<open>asyncio.sleep\<close> compares its argument with 0.\<close>

definition sleep :: "real option \<Rightarrow> unit res" where
  "sleep t = (case t of None \<Rightarrow> Inl TypeError | Some _ \<Rightarrow> Inr ())"

definition hook_at :: "nat \<Rightarrow> nat \<Rightarrow> unit res" where
  "hook_at n a = (if a < n then Inr () else Inl IndexError)"

definition ZeroDivisionError :: py_error where
  "ZeroDivisionError = GenericException ''ZeroDivisionError''"

definition next_action :: "nat \<Rightarrow> nat \<Rightarrow> nat res" where
  "next_action n a = (if n = 0 then Inl ZeroDivisionError else Inr ((a + 1) mod n))"

section \<open>The generators\<close>

text \<open>The default persona; \<open>n\<close> is the number of actions.\<close>

definition default_step :: "nat \<Rightarrow> nat \<Rightarrow> real \<Rightarrow> nat res" where
  "default_step n a r = (case hook_at n a of Inl x \<Rightarrow> Inl x | Inr _ \<Rightarrow> next_action n a)"

definition default_generator :: "nat \<Rightarrow> real \<Rightarrow> real list \<Rightarrow> nat list \<times> generator_end" where
  "default_generator n total_time rs = run_generator (\<lambda>a. a) (default_step n) (\<lambda>r. r) total_time 0 0 rs"

text \<open>The persona without waiting.\<close>

definition cyclic_generator :: "nat \<Rightarrow> real \<Rightarrow> real list \<Rightarrow> nat list \<times> generator_end" where
  "cyclic_generator n total_time rs =
     (if n = 0 \<and> 0 < total_time then ([], Raised ZeroDivisionError)
      else run_generator (\<lambda>i. i mod n) (\<lambda>i r. Inr (i + 1)) (\<lambda>r. r) total_time 0 0 rs)"

text \<open>The batched persona; the state is the number of starts and the action.\<close>

definition batched_step :: "nat \<Rightarrow> nat \<Rightarrow> real option \<Rightarrow> nat \<times> nat \<Rightarrow> real \<Rightarrow> (nat \<times> nat) res" where
  "batched_step n batch_size interval s r =
     (let i = fst s + 1
      in if batch_size = 0 then Inl ZeroDivisionError
         else if i mod batch_size = 0
         then (case next_action n (snd s) of
                 Inl x \<Rightarrow> Inl x
               | Inr a \<Rightarrow>
                   (case sleep interval of
                      Inl x \<Rightarrow> Inl x
                    | Inr _ \<Rightarrow> (case hook_at n a of Inl x \<Rightarrow> Inl x | Inr _ \<Rightarrow> Inr (i, a))))
         else (case hook_at n (snd s) of Inl x \<Rightarrow> Inl x | Inr _ \<Rightarrow> Inr (i, snd s)))"

definition batched_generator :: "nat \<Rightarrow> nat \<Rightarrow> real option \<Rightarrow> real \<Rightarrow> real list \<Rightarrow> nat list \<times> generator_end" where
  "batched_generator n batch_size interval total_time rs = run_generator snd (batched_step n batch_size interval) (\<lambda>r. r) total_time (0, 0) 0 rs"

text \<open>The persona with a constant spawn rate: the action changes after every start.\<close>

definition spawn_step :: "nat \<Rightarrow> nat \<Rightarrow> real option \<Rightarrow> nat \<times> nat \<Rightarrow> real \<Rightarrow> (nat \<times> nat) res" where
  "spawn_step n batch_size interval s r =
     (let i = fst s + 1
      in if batch_size = 0 then Inl ZeroDivisionError
         else (case (if i mod batch_size = 0 then sleep interval else Inr ()) of
                 Inl x \<Rightarrow> Inl x
               | Inr _ \<Rightarrow>
                   (case next_action n (snd s) of
                      Inl x \<Rightarrow> Inl x
                    | Inr a \<Rightarrow> (case hook_at n a of Inl x \<Rightarrow> Inl x | Inr _ \<Rightarrow> Inr (i, a)))))"

definition spawn_generator :: "nat \<Rightarrow> nat \<Rightarrow> real option \<Rightarrow> real \<Rightarrow> real list \<Rightarrow> nat list \<times> generator_end" where
  "spawn_generator n batch_size interval total_time rs = run_generator snd (spawn_step n batch_size interval) (\<lambda>r. r) total_time (0, 0) 0 rs"

text \<open>The ramped persona: a generation has some starts, after which the generation and the pool of the session of
  the last action grow.\<close>

record ramp =
  ramp_idx :: nat
  ramp_action :: nat
  ramp_size :: int
  ramp_pools :: "nat \<Rightarrow> int"

text \<open>\<open>int\<close> of a float.\<close>

definition int_of :: "real \<Rightarrow> int" where
  "int_of x = (if x \<ge> 0 then \<lfloor>x\<rfloor> else - \<lfloor>- x\<rfloor>)"

definition grow_pool :: "nat \<Rightarrow> int \<Rightarrow> ramp \<Rightarrow> ramp" where
  "grow_pool k amount s = s\<lparr>ramp_pools := (ramp_pools s)(k := ramp_pools s k + amount), ramp_size := ramp_size s + amount\<rparr>"

definition ramp_up :: "(nat \<Rightarrow> nat) \<Rightarrow> int \<Rightarrow> real \<Rightarrow> ramp \<Rightarrow> ramp" where
  "ramp_up sess batch_size gradient s =
     (let amount = int_of (gradient * real_of_int batch_size); goal = ramp_size s + amount; k = sess (ramp_action s)
      in if goal < batch_size then grow_pool k amount s
         else if goal > batch_size then grow_pool k (batch_size - ramp_size s) s
         else s)"

definition ramped_step :: "nat \<Rightarrow> (nat \<Rightarrow> nat) \<Rightarrow> int \<Rightarrow> real \<Rightarrow> real option \<Rightarrow> ramp \<Rightarrow> real \<Rightarrow> ramp res" where
  "ramped_step n sess batch_size gradient interval s r =
     (let s = s\<lparr>ramp_idx := ramp_idx s + 1\<rparr>
      in if ramp_size s = 0 then Inl ZeroDivisionError
         else (case (if int (ramp_idx s) mod ramp_size s = 0
                     then (case sleep interval of Inl x \<Rightarrow> Inl x | Inr _ \<Rightarrow> Inr (ramp_up sess batch_size gradient s))
                     else Inr s) of
                 Inl x \<Rightarrow> Inl x
               | Inr s \<Rightarrow>
                   (case next_action n (ramp_action s) of
                      Inl x \<Rightarrow> Inl x
                    | Inr a \<Rightarrow> (case hook_at n a of Inl x \<Rightarrow> Inl x | Inr _ \<Rightarrow> Inr (s\<lparr>ramp_action := a\<rparr>)))))"

text \<open>Before the loop the pool of the session of the first action is shrunk to the first generation.\<close>

definition ramped_start :: "(nat \<Rightarrow> nat) \<Rightarrow> int \<Rightarrow> real \<Rightarrow> (nat \<Rightarrow> int) \<Rightarrow> ramp" where
  "ramped_start sess batch_size gradient pools =
     (let g = int_of (real_of_int batch_size * gradient)
      in \<lparr>ramp_idx = 0, ramp_action = 0, ramp_size = g, ramp_pools = pools(sess 0 := pools (sess 0) - (batch_size - g))\<rparr>)"

definition ramped_generator :: "nat \<Rightarrow> (nat \<Rightarrow> nat) \<Rightarrow> int \<Rightarrow> real \<Rightarrow> real option \<Rightarrow> (nat \<Rightarrow> int) \<Rightarrow> real \<Rightarrow> real list \<Rightarrow>
    nat list \<times> generator_end" where
  "ramped_generator n sess batch_size gradient interval pools total_time rs =
     (if n = 0 then ([], Raised IndexError)
      else run_generator ramp_action (ramped_step n sess batch_size gradient interval) (\<lambda>r. r) total_time (ramped_start sess batch_size gradient pools) 0 rs)"

text \<open>The weighted persona; the samples are the results of \<open>random.choices\<close>, every start has a reading. A sample is
  always started completely. Exhausted readings or samples leave it running.\<close>

fun weighted_sample :: "nat \<Rightarrow> nat list \<Rightarrow> real \<Rightarrow> real list \<Rightarrow> nat list \<times> (real \<times> real list) option \<times> generator_end" where
  "weighted_sample n [] e rs = ([], Some (e, rs), Running)"
| "weighted_sample n (a # as) e [] = ([a], None, Running)"
| "weighted_sample n (a # as) e (r # rs) =
     (case hook_at n a of
        Inl x \<Rightarrow> ([a], None, Raised x)
      | Inr _ \<Rightarrow> (case weighted_sample n as r rs of (ys, rest, z) \<Rightarrow> (a # ys, rest, z)))"

fun weighted_loop :: "nat \<Rightarrow> real \<Rightarrow> nat list list \<Rightarrow> real \<Rightarrow> real list \<Rightarrow> nat list \<times> generator_end" where
  "weighted_loop n total_time [] e rs = (if e < total_time then ([], Running) else ([], Ended))"
| "weighted_loop n total_time (as # samples) e rs =
     (if e < total_time
      then (case weighted_sample n as e rs of
              (ys, Some (e', rs'), z) \<Rightarrow> (case weighted_loop n total_time samples e' rs' of (zs, z') \<Rightarrow> (ys @ zs, z'))
            | (ys, None, z) \<Rightarrow> (ys, z))
      else ([], Ended))"

definition weighted_generator :: "nat \<Rightarrow> real \<Rightarrow> nat list list \<Rightarrow> real list \<Rightarrow> nat list \<times> generator_end" where
  "weighted_generator n total_time samples rs = weighted_loop n total_time samples 0 rs"

text \<open>The persona with a constant arrival rate: a reading is the elapsed time, the number of completed requests and
  the size of the session's pool. The count of completed requests is a property without a setter, so
  resetting it raises.\<close>

definition arrival_step :: "nat \<Rightarrow> real option \<Rightarrow> nat \<times> nat \<Rightarrow> real \<times> nat \<times> nat \<Rightarrow> (nat \<times> nat) res" where
  "arrival_step n interval s r =
     (case r of (e, completed, pool) \<Rightarrow>
        let i = fst s + 1
        in (case hook_at n (snd s) of
              Inl x \<Rightarrow> Inl x
            | Inr _ \<Rightarrow>
                (if pool = 0 then Inl ZeroDivisionError
                 else (case (if i mod pool = 0 then (if completed > 0 then Inl AttributeError else sleep interval) else Inr ()) of
                         Inl x \<Rightarrow> Inl x
                       | Inr _ \<Rightarrow> (case next_action n (snd s) of Inl x \<Rightarrow> Inl x | Inr a \<Rightarrow> Inr (i, a))))))"

definition arrival_generator :: "nat \<Rightarrow> real option \<Rightarrow> real \<Rightarrow> (real \<times> nat \<times> nat) list \<Rightarrow> nat list \<times> generator_end" where
  "arrival_generator n interval total_time rs = run_generator snd (arrival_step n interval) fst total_time (0, 0) 0 rs"

text \<open>The persona that follows a distribution: the test is divided into intervals, each with its pool size.\<close>

record distribution_state =
  dist_idx :: nat
  dist_action :: nat
  dist_interval :: nat
  dist_limit :: real

definition interval_periods :: "int \<Rightarrow> int list \<Rightarrow> int list" where
  "interval_periods total_time limits =
     (let m = int (length limits); periods = replicate (length limits) (total_time div m)
      in if total_time mod m > 0 then periods[length limits - 1 := last periods + total_time mod m] else periods)"

definition distribution_step :: "nat \<Rightarrow> nat \<Rightarrow> real option \<Rightarrow> int \<Rightarrow> int list \<Rightarrow> distribution_state \<Rightarrow> real \<Rightarrow> distribution_state res" where
  "distribution_step n batch_size interval total_time limits s r =
     (let i = dist_idx s + 1
      in if batch_size = 0 then Inl ZeroDivisionError
         else (case (if i mod batch_size = 0 then sleep interval else Inr ()) of
                 Inl x \<Rightarrow> Inl x
               | Inr _ \<Rightarrow>
                   (case next_action n (dist_action s) of
                      Inl x \<Rightarrow> Inl x
                    | Inr a \<Rightarrow>
                        (if r \<ge> dist_limit s \<and> r < real_of_int total_time
                         then (let k = dist_interval s + 1
                               in case py_index (interval_periods total_time limits) (int k) of
                                    Inl x \<Rightarrow> Inl x
                                  | Inr p \<Rightarrow>
                                      Inr \<lparr>dist_idx = i, dist_action = a, dist_interval = k, dist_limit = dist_limit s + real_of_int p\<rparr>)
                         else Inr (s\<lparr>dist_idx := i, dist_action := a\<rparr>)))))"

definition distribution_generator :: "nat \<Rightarrow> nat \<Rightarrow> real option \<Rightarrow> int \<Rightarrow> int list \<Rightarrow> real list \<Rightarrow> nat list \<times> generator_end" where
  "distribution_generator n batch_size interval total_time limits rs =
     (if limits = [] then ([], Raised ZeroDivisionError)
      else run_generator dist_action (distribution_step n batch_size interval total_time limits) (\<lambda>r. r) (real_of_int total_time)
             \<lparr>dist_idx = 0, dist_action = 0, dist_interval = 0, dist_limit = real_of_int (hd (interval_periods total_time limits))\<rparr> 0 rs)"

text \<open>The persona with a ramped interval: a reading is the elapsed time and the time since the last pause; the state is
  the number of starts and the time to the next pause.\<close>

definition interval_step :: "nat \<Rightarrow> real \<Rightarrow> real \<Rightarrow> nat \<times> real \<Rightarrow> real \<times> real \<Rightarrow> (nat \<times> real) res" where
  "interval_step n gradient interval s r =
     (let i = fst s + 1; following = snd s + interval * gradient
      in case hook_at n (fst s mod n) of
           Inl x \<Rightarrow> Inl x
         | Inr _ \<Rightarrow> Inr (i, if snd r \<ge> snd s then if following < interval then following else interval else snd s))"

definition interval_generator :: "nat \<Rightarrow> real \<Rightarrow> real option \<Rightarrow> real \<Rightarrow> (real \<times> real) list \<Rightarrow> nat list \<times> generator_end" where
  "interval_generator n gradient interval total_time rs =
     (case interval of
        None \<Rightarrow> ([], Raised TypeError)
      | Some t \<Rightarrow>
          if n = 0 \<and> 0 < total_time then ([], Raised ZeroDivisionError)
          else run_generator (\<lambda>s. fst s mod n) (interval_step n gradient t) fst total_time (0, t * gradient) 0 rs)"

section \<open>Which actions are started\<close>

text \<open>The number of starts: one, and one more for every reading before the end of the time.\<close>

fun starts :: "real \<Rightarrow> real \<Rightarrow> real list \<Rightarrow> nat" where
  "starts total_time e [] = (if e < total_time then 1 else 0)"
| "starts total_time e (r # rs) = (if e < total_time then 1 + starts total_time r rs else 0)"

fun ending :: "real \<Rightarrow> real \<Rightarrow> real list \<Rightarrow> generator_end" where
  "ending total_time e [] = (if e < total_time then Running else Ended)"
| "ending total_time e (r # rs) = (if e < total_time then ending total_time r rs else Ended)"

lemma map_shift: "map f [0..<Suc m] = f 0 # map (\<lambda>k. f (Suc k)) [0..<m]"
  by (simp add: upt_conv_Cons map_Suc_upt [symmetric] del: upt_Suc)

text \<open>A generator whose steps keep an invariant that knows the number of starts.\<close>

lemma generator_invariant:
  assumes "I 0 s" "\<And>k s r. I k s \<Longrightarrow> \<exists>s'. step s r = Inr s' \<and> I (Suc k) s'" "\<And>k s. I k s \<Longrightarrow> pick s = f k"
  shows "run_generator pick step elapsed total_time s e rs =
    (map f [0..<starts total_time e (map elapsed rs)], ending total_time e (map elapsed rs))"
  using assms
proof (induction rs arbitrary: s e I f)
  case (Cons r rs)
  obtain s' where s': "step s r = Inr s'" "I (Suc 0) s'" using Cons.prems(1,2) by blast
  have "run_generator pick step elapsed total_time s' (elapsed r) rs =
      (map (\<lambda>k. f (Suc k)) [0..<starts total_time (elapsed r) (map elapsed rs)], ending total_time (elapsed r) (map elapsed rs))"
    using Cons.IH [of "\<lambda>k. I (Suc k)" s' "\<lambda>k. f (Suc k)"] s'(2) Cons.prems(2,3) by simp
  then show ?case using s'(1) Cons.prems(1,3) by (simp add: map_shift del: upt_Suc)
qed simp

lemma generator_follows:
  assumes "\<And>k r. step (st k) r = Inr (st (Suc k))"
  shows "run_generator pick step elapsed total_time (st 0) e rs =
    (map (\<lambda>k. pick (st k)) [0..<starts total_time e (map elapsed rs)], ending total_time e (map elapsed rs))"
  by (rule generator_invariant [where I = "\<lambda>k s. s = st k"]) (use assms in auto)

lemma next_action_ok [simp]: "n > 0 \<Longrightarrow> next_action n a = Inr ((a + 1) mod n)"
  by (simp add: next_action_def)

lemma hook_at_ok [simp]: "a < n \<Longrightarrow> hook_at n a = Inr ()"
  by (simp add: hook_at_def)

text \<open>The default persona starts the actions in turn until the time is over.\<close>

theorem default_takes_turns:
  assumes "0 < n"
  shows "default_generator n total_time rs = (map (\<lambda>k. k mod n) [0..<starts total_time 0 rs], ending total_time 0 rs)"
  using generator_follows [of "default_step n" "\<lambda>k. k mod n" "\<lambda>a. a" "\<lambda>r. r" total_time 0 rs] assms
  by (simp add: default_generator_def default_step_def mod_Suc_eq)

theorem default_takes_turns_witness:
  "default_generator 2 10 [1, 4, 11] = (map (\<lambda>k. k mod 2) [0..<starts 10 0 [1, 4, 11]], ending 10 0 [1, 4, 11])"
  by (rule default_takes_turns) simp

text \<open>The persona without waiting starts the same actions.\<close>

theorem cyclic_equals_default:
  assumes "0 < n"
  shows "cyclic_generator n total_time rs = default_generator n total_time rs"
proof -
  have "cyclic_generator n total_time rs = (map (\<lambda>k. k mod n) [0..<starts total_time 0 rs], ending total_time 0 rs)"
    using generator_follows [of "\<lambda>i r. Inr (i + 1)" "\<lambda>k. k" "\<lambda>i. i mod n" "\<lambda>r. r" total_time 0 rs] assms
    by (simp add: cyclic_generator_def)
  moreover have "default_generator n total_time rs = (map (\<lambda>k. k mod n) [0..<starts total_time 0 rs], ending total_time 0 rs)"
    using generator_follows [of "default_step n" "\<lambda>k. k mod n" "\<lambda>a. a" "\<lambda>r. r" total_time 0 rs] assms
    by (simp add: default_generator_def default_step_def mod_Suc_eq)
  ultimately show ?thesis by simp
qed

theorem cyclic_equals_default_witness: "cyclic_generator 3 10 [1, 2, 10] = default_generator 3 10 [1, 2, 10]"
  by (rule cyclic_equals_default) simp

lemma div_Suc_eq: "0 < (m::nat) \<Longrightarrow> Suc k div m = (if Suc k mod m = 0 then Suc (k div m) else k div m)"
  by (simp add: div_Suc)

text \<open>C14: The batched persona starts each action as often as the batch is large, then the next one.\<close>

theorem batched_blocks:
  assumes "0 < n" "0 < batch_size"
  shows "batched_generator n batch_size (Some t) total_time rs =
    (map (\<lambda>k. (k div batch_size) mod n) [0..<starts total_time 0 rs], ending total_time 0 rs)"
proof -
  have "batched_step n batch_size (Some t) (k, (k div batch_size) mod n) r = Inr (Suc k, (Suc k div batch_size) mod n)" for k r
    using assms div_Suc_eq [of batch_size k] by (simp add: batched_step_def sleep_def Let_def mod_Suc_eq)
  then show ?thesis
    using generator_follows [of "batched_step n batch_size (Some t)" "\<lambda>k. (k, (k div batch_size) mod n)" snd "\<lambda>r. r" total_time 0 rs] assms
    by (simp add: batched_generator_def)
qed

theorem batched_blocks_witness:
  "batched_generator 2 3 (Some 0) 10 [1, 2, 3, 4, 12] = (map (\<lambda>k. (k div 3) mod 2) [0..<starts 10 0 [1, 2, 3, 4, 12]], ending 10 0 [1, 2, 3, 4, 12])"
  by (rule batched_blocks) simp_all

text \<open>The persona with a constant spawn rate starts the actions in turn; the size of the batch only spaces the starts.\<close>

lemma spawn_takes_turns:
  assumes "0 < n" "0 < batch_size"
  shows "spawn_generator n batch_size (Some t) total_time rs = (map (\<lambda>k. k mod n) [0..<starts total_time 0 rs], ending total_time 0 rs)"
proof -
  have "spawn_step n batch_size (Some t) (k, k mod n) r = Inr (Suc k, Suc k mod n)" for k r
    using assms by (simp add: spawn_step_def sleep_def Let_def mod_Suc_eq)
  then show ?thesis
    using generator_follows [of "spawn_step n batch_size (Some t)" "\<lambda>k. (k, k mod n)" snd "\<lambda>r. r" total_time 0 rs] assms
    by (simp add: spawn_generator_def)
qed

text \<open>With a ramped interval the actions are started in turn as well, and the time between two pauses never exceeds the
  interval when the gradient is at most 1.\<close>

lemma interval_takes_turns:
  assumes "0 < n"
  shows "interval_generator n gradient (Some t) total_time rs =
    (map (\<lambda>k. k mod n) [0..<starts total_time 0 (map fst rs)], ending total_time 0 (map fst rs))"
proof -
  have "run_generator (\<lambda>s. fst s mod n) (interval_step n gradient t) fst total_time (0, t * gradient) 0 rs =
      (map (\<lambda>k. k mod n) [0..<starts total_time 0 (map fst rs)], ending total_time 0 (map fst rs))"
    by (rule generator_invariant [where I = "\<lambda>k s. fst s = k"]) (use assms in \<open>simp_all add: interval_step_def Let_def\<close>)
  then show ?thesis using assms by (simp add: interval_generator_def)
qed

lemma interval_bounded:
  assumes "interval_step n gradient t s r = Inr s'" "snd s \<le> t"
  shows "snd s' \<le> t"
  using assms by (auto simp: interval_step_def Let_def split: sum.splits if_splits)

text \<open>Every generator starts an action only while time is left and ends at the first reading after it.\<close>

lemma generator_ends:
  assumes "\<exists>r \<in> set rs. elapsed r \<ge> total_time"
  shows "snd (run_generator pick step elapsed total_time s e rs) \<noteq> Running"
  using assms
proof (induction rs arbitrary: s e)
  case (Cons r rs)
  show ?case
  proof (cases "elapsed r \<ge> total_time")
    case True
    then have "snd (run_generator pick step elapsed total_time s' (elapsed r) rs) = Ended" for s' by (cases rs) simp_all
    then show ?thesis by (auto split: sum.split prod.split) (metis generator_end.distinct(1) snd_conv)
  next
    case False
    then have "\<exists>r \<in> set rs. elapsed r \<ge> total_time" using Cons.prems by auto
    from Cons.IH [OF this] show ?thesis by (auto split: sum.split prod.split) (metis snd_conv)
  qed
qed simp

section \<open>The intervals of a distribution\<close>

lemma sum_replicate: "sum_list (replicate m (p::int)) = int m * p"
  by (induction m) (simp_all add: algebra_simps)

lemma interval_periods_ok:
  assumes "limits \<noteq> []"
  shows "length (interval_periods total_time limits) = length limits" "sum_list (interval_periods total_time limits) = total_time"
proof -
  let ?m = "length limits"
  have m: "0 < ?m" using assms by simp
  show "length (interval_periods total_time limits) = ?m" by (simp add: interval_periods_def Let_def)
  obtain j where j: "?m = Suc j" using m by (cases ?m) simp_all
  have r: "0 \<le> total_time mod int ?m" using m by simp
  have "(replicate (Suc j) p)[j := q] = replicate j p @ [q]" for p q :: int
    by (induction j) simp_all
  then have "sum_list ((replicate ?m p)[?m - 1 := last (replicate ?m p) + q]) = int ?m * p + q" for p q :: int
    using j by (simp add: sum_replicate algebra_simps)
  then have "sum_list (interval_periods total_time limits) = int ?m * (total_time div int ?m) + total_time mod int ?m"
    using r by (auto simp: interval_periods_def Let_def sum_replicate)
  then show "sum_list (interval_periods total_time limits) = total_time" by simp
qed

text \<open>C13: The persona that follows a distribution never runs out of intervals: the last one ends with the test, so the
  actions are started in turn to the end.\<close>

theorem distribution_stays_in_range:
  assumes "0 < n" "0 < batch_size" "limits \<noteq> []"
  shows "distribution_generator n batch_size (Some t) total_time limits rs =
    (map (\<lambda>k. k mod n) [0..<starts (real_of_int total_time) 0 rs], ending (real_of_int total_time) 0 rs)"
proof -
  let ?ps = "interval_periods total_time limits"
  define I where "I = (\<lambda>k (s :: distribution_state). dist_idx s = k \<and> dist_action s = k mod n \<and> dist_interval s < length limits \<and>
    dist_limit s = real_of_int (sum_list (take (dist_interval s + 1) ?ps)))"
  let ?s = "\<lparr>dist_idx = 0, dist_action = 0, dist_interval = 0, dist_limit = real_of_int (hd ?ps)\<rparr>"
  note ok = interval_periods_ok [OF assms(3), of total_time]
  have "I 0 ?s" using ok(1) assms by (cases ?ps) (auto simp: I_def)
  moreover have "\<exists>s'. distribution_step n batch_size (Some t) total_time limits s r = Inr s' \<and> I (Suc k) s'" if "I k s" for k s r
  proof (cases "r \<ge> dist_limit s \<and> r < real_of_int total_time")
    case True
    have "dist_interval s + 1 < length limits"
    proof (rule ccontr)
      assume "\<not> dist_interval s + 1 < length limits"
      then have "take (dist_interval s + 1) ?ps = ?ps" using ok(1) by simp
      then show False using True that ok(2) by (simp add: I_def)
    qed
    moreover from this have "py_index ?ps (int (dist_interval s + 1)) = Inr (?ps ! (dist_interval s + 1))" using ok(1) by (simp add: py_index_def nat_add_distrib)
    moreover from calculation have "sum_list (take (Suc (Suc (dist_interval s))) ?ps) = sum_list (take (Suc (dist_interval s)) ?ps) + ?ps ! Suc (dist_interval s)"
      using ok(1) by (simp add: take_Suc_conv_app_nth)
    ultimately show ?thesis
      using True that assms(1,2) by (simp add: distribution_step_def Let_def sleep_def I_def mod_Suc_eq)
  next
    case False
    then show ?thesis using that assms(1,2) by (auto simp: distribution_step_def Let_def sleep_def I_def mod_Suc_eq)
  qed
  moreover have "dist_action s = k mod n" if "I k s" for k s using that by (simp add: I_def)
  ultimately have "run_generator dist_action (distribution_step n batch_size (Some t) total_time limits) (\<lambda>r. r) (real_of_int total_time) ?s 0 rs =
      (map (\<lambda>k. k mod n) [0..<starts (real_of_int total_time) 0 (map (\<lambda>r. r) rs)], ending (real_of_int total_time) 0 (map (\<lambda>r. r) rs))"
    by (rule generator_invariant)
  then show ?thesis using assms(3) by (simp add: distribution_generator_def)
qed

theorem distribution_stays_in_range_witness:
  "distribution_generator 2 5 (Some 0) 10 [3, 8, 4] [2, 5, 9.5, 10] =
     (map (\<lambda>k. k mod 2) [0..<starts (real_of_int 10) 0 [2, 5, 9.5, 10]], ending (real_of_int 10) 0 [2, 5, 9.5, 10])"
  by (rule distribution_stays_in_range) simp_all

section \<open>The ramped persona\<close>

text \<open>When the gradient gives less than one action, the first turn divides by zero.\<close>

theorem ramped_small_batch_raises:
  assumes "0 < n" "0 \<le> real_of_int batch_size * gradient" "real_of_int batch_size * gradient < 1" "0 < total_time"
  shows "ramped_generator n sess batch_size gradient interval pools total_time (r # rs) = ([0], Raised ZeroDivisionError)"
proof -
  have "int_of (real_of_int batch_size * gradient) = 0" using assms(2,3) by (simp add: int_of_def floor_eq_iff)
  then show ?thesis using assms(1,4) by (simp add: ramped_generator_def ramped_start_def ramped_step_def Let_def)
qed

theorem ramped_small_batch_raises_witness:
  "ramped_generator 1 (\<lambda>a. a) 9 (1 / 10) (Some 0) (\<lambda>_. 9) 60 [0, 61] = ([0], Raised ZeroDivisionError)"
  by (rule ramped_small_batch_raises) simp_all

text \<open>All steps of a persona one after the other.\<close>

fun advance :: "('s \<Rightarrow> 'r \<Rightarrow> 's res) \<Rightarrow> 's \<Rightarrow> 'r list \<Rightarrow> 's res" where
  "advance step s [] = Inr s"
| "advance step s (r # rs) = (case step s r of Inl x \<Rightarrow> Inl x | Inr s' \<Rightarrow> advance step s' rs)"

definition ramp_ok :: "nat \<Rightarrow> (nat \<Rightarrow> nat) \<Rightarrow> int \<Rightarrow> ramp \<Rightarrow> bool" where
  "ramp_ok n sess batch_size s \<longleftrightarrow> 0 < ramp_size s \<and> ramp_size s \<le> batch_size \<and> ramp_action s < n \<and>
     (\<Sum>a<n. ramp_pools s (sess a)) = int n * batch_size - (batch_size - ramp_size s)"

lemma grow_sum:
  assumes "inj_on sess {..<n}" "a < (n::nat)"
  shows "(\<Sum>b<n. (pools(sess a := pools (sess a) + (k::int))) (sess b)) = (\<Sum>b<n. pools (sess b)) + k"
proof -
  have "(\<Sum>b<n. (pools(sess a := pools (sess a) + k)) (sess b)) = (\<Sum>b<n. pools (sess b) + (if b = a then k else 0))"
    by (rule sum.cong) (use assms in \<open>auto dest: inj_onD\<close>)
  also have "\<dots> = (\<Sum>b<n. pools (sess b)) + k" using assms(2) by (simp add: sum.distrib)
  finally show ?thesis .
qed

lemma ramp_up_ok:
  assumes "ramp_ok n sess batch_size s" "inj_on sess {..<n}" "0 \<le> gradient"
  shows "ramp_ok n sess batch_size (ramp_up sess batch_size gradient s)"
proof -
  have b: "0 < batch_size" "ramp_action s < n" using assms(1) by (simp_all add: ramp_ok_def)
  have p: "0 \<le> int_of (gradient * real_of_int batch_size)" using assms(3) b by (simp add: int_of_def)
  have "ramp_ok n sess batch_size (grow_pool (sess (ramp_action s)) k s)" if "0 \<le> k" "ramp_size s + k \<le> batch_size" for k
    using assms(1) that grow_sum [OF assms(2) b(2), of "ramp_pools s" k] by (simp add: ramp_ok_def grow_pool_def)
  then show ?thesis using assms(1) p by (auto simp: ramp_up_def Let_def ramp_ok_def)
qed

lemma ramped_step_ok:
  assumes "ramp_ok n sess batch_size s" "inj_on sess {..<n}" "0 \<le> gradient"
  shows "\<exists>s'. ramped_step n sess batch_size gradient (Some t) s r = Inr s' \<and> ramp_ok n sess batch_size s' \<and>
    ramp_action s' = (ramp_action s + 1) mod n \<and> ramp_size s \<le> ramp_size s'"
proof -
  let ?s = "s\<lparr>ramp_idx := ramp_idx s + 1\<rparr>"
  have a: "ramp_action (ramp_up sess batch_size gradient u) = ramp_action u" for u by (simp add: ramp_up_def grow_pool_def Let_def)
  have ok: "ramp_ok n sess batch_size ?s" using assms(1) by (simp add: ramp_ok_def)
  note up = ramp_up_ok [OF ok assms(2,3)]
  have n: "0 < n" "ramp_size s \<noteq> 0" "0 < batch_size" using assms(1) by (auto simp: ramp_ok_def)
  have p: "0 \<le> int_of (gradient * real_of_int batch_size)" using assms(3) n(3) by (simp add: int_of_def)
  have mono: "ramp_size ?s \<le> ramp_size (ramp_up sess batch_size gradient ?s)"
    using p assms(1) by (auto simp: ramp_up_def grow_pool_def Let_def ramp_ok_def)
  have move: "ramp_ok n sess batch_size (u\<lparr>ramp_action := b mod n\<rparr>)" if "ramp_ok n sess batch_size u" for u b
    using that n(1) by (simp add: ramp_ok_def)
  show ?thesis
    using n up ok a [of ?s] mono move [OF up] move [OF ok]
    by (cases "int (ramp_idx s + 1) mod ramp_size s = 0") (simp_all add: ramped_step_def Let_def sleep_def)
qed

text \<open>With a session per action the ramp never goes beyond the batch size and never back; the pools together always
  hold the batch size for every action, less what the ramp still lacks.\<close>

theorem ramped_pools_in_step:
  assumes "0 < n" "inj_on sess {..<n}" "0 \<le> gradient" "gradient \<le> 1" "1 \<le> real_of_int batch_size * gradient" "0 \<le> batch_size"
    "\<forall>a < n. pools (sess a) = batch_size"
  shows "\<exists>s. advance (ramped_step n sess batch_size gradient (Some t)) (ramped_start sess batch_size gradient pools) rs = Inr s \<and>
    ramp_size s \<le> batch_size \<and> ramp_size (ramped_start sess batch_size gradient pools) \<le> ramp_size s \<and>
    (\<Sum>a<n. ramp_pools s (sess a)) = int n * batch_size - (batch_size - ramp_size s)"
proof -
  let ?start = "ramped_start sess batch_size gradient pools"
  let ?g = "int_of (real_of_int batch_size * gradient)"
  have "real_of_int batch_size * gradient \<le> real_of_int batch_size" using assms(4,6) by (simp add: mult_left_le)
  then have g: "0 < ?g" "?g \<le> batch_size" using assms(5) by (auto simp: int_of_def le_floor_iff floor_le_iff)
  have "(\<Sum>a<n. pools (sess a)) = int n * batch_size" using assms(7) by simp
  moreover have "pools (sess 0) - (batch_size - ?g) = pools (sess 0) + - (batch_size - ?g)" by simp
  ultimately have sum0: "(\<Sum>a<n. (pools(sess 0 := pools (sess 0) - (batch_size - ?g))) (sess a)) = int n * batch_size - (batch_size - ?g)"
    using grow_sum [OF assms(2,1), of pools "- (batch_size - ?g)"] by (simp only:)
  have start: "ramp_ok n sess batch_size ?start"
    using g assms(1) sum0 by (simp add: ramp_ok_def ramped_start_def Let_def)
  have "\<exists>s. advance (ramped_step n sess batch_size gradient (Some t)) u rs = Inr s \<and> ramp_ok n sess batch_size s \<and> ramp_size u \<le> ramp_size s"
    if "ramp_ok n sess batch_size u" for u
    using that
  proof (induction rs arbitrary: u)
    case (Cons r rs)
    obtain v where v: "ramped_step n sess batch_size gradient (Some t) u r = Inr v" "ramp_ok n sess batch_size v" "ramp_size u \<le> ramp_size v"
      using ramped_step_ok [OF Cons.prems assms(2,3)] by blast
    from Cons.IH [OF v(2)] show ?case using v(1,3) by fastforce
  qed simp
  from this [OF start] show ?thesis by (auto simp: ramp_ok_def)
qed

theorem ramped_pools_in_step_witness:
  "\<exists>s. advance (ramped_step 2 (\<lambda>a. a) 10 (1 / 2) (Some 0)) (ramped_start (\<lambda>a. a) 10 (1 / 2) (\<lambda>_. 10)) [1, 2, 3, 4, 5, 6] = Inr s \<and>
     (\<Sum>a<2. ramp_pools s a) = 20 - (10 - ramp_size s)"
  using ramped_pools_in_step [of 2 "\<lambda>a. a" "1 / 2" 10 "\<lambda>_. 10" 0 "[1, 2, 3, 4, 5, 6]"] by auto

text \<open>When the growth divides the batch size, the last generation is never reached: the code handles a next size
  below and above the batch size, but not the batch size itself. This is so for the default
  settings.\<close>

theorem ramp_never_full:
  assumes "0 < n" "amount = int_of (real_of_int batch_size * gradient)" "0 < amount" "amount < batch_size" "amount dvd batch_size"
  shows "\<exists>s. advance (ramped_step n sess batch_size gradient (Some t)) (ramped_start sess batch_size gradient pools) rs = Inr s \<and>
    ramp_size s \<le> batch_size - amount"
proof -
  define ok where "ok = (\<lambda>s :: ramp. 0 < ramp_size s \<and> ramp_size s < batch_size \<and> amount dvd ramp_size s)"
  have a: "int_of (gradient * real_of_int batch_size) = amount" using assms(2) by (simp add: mult.commute)
  have below: "u \<le> batch_size - amount" if "u < batch_size" "amount dvd u" for u
  proof -
    have "amount \<le> batch_size - u" using that assms(5) by (intro zdvd_imp_le dvd_diff) simp_all
    then show ?thesis by simp
  qed
  have up: "ok (ramp_up sess batch_size gradient s)" if "ok s" for s
    using that below [of "ramp_size s"] assms(3) by (auto simp: ok_def ramp_up_def grow_pool_def Let_def a)
  have keep: "ok (s\<lparr>ramp_idx := i\<rparr>)" "ok (s\<lparr>ramp_action := i\<rparr>)" if "ok s" for s i using that by (simp_all add: ok_def)
  have step: "\<exists>s'. ramped_step n sess batch_size gradient (Some t) s r = Inr s' \<and> ok s'" if "ok s" for s r
  proof -
    have "ramp_size s \<noteq> 0" using that by (simp add: ok_def)
    then show ?thesis
      using up [OF keep(1) [OF that, of "ramp_idx s + 1"]] keep(1) [OF that, of "ramp_idx s + 1"] keep(2) assms(1)
      by (cases "int (ramp_idx s + 1) mod ramp_size s = 0") (simp_all add: ramped_step_def Let_def sleep_def)
  qed
  have "\<exists>s. advance (ramped_step n sess batch_size gradient (Some t)) u rs = Inr s \<and> ok s" if "ok u" for u
    using that
  proof (induction rs arbitrary: u)
    case (Cons r rs)
    then show ?case using step [OF Cons.prems, of r] by fastforce
  qed simp
  moreover have "ok (ramped_start sess batch_size gradient pools)"
    using assms(3,4) by (simp add: ok_def ramped_start_def Let_def flip: assms(2))
  ultimately show ?thesis using below by (fastforce simp: ok_def)
qed

theorem ramp_never_full_witness:
  "\<exists>s. advance (ramped_step 1 (\<lambda>a. a) 1000 (1 / 10) (Some 0)) (ramped_start (\<lambda>a. a) 1000 (1 / 10) (\<lambda>_. 1000)) (replicate 100000 0) = Inr s \<and>
     ramp_size s \<le> 1000 - 100"
  by (rule ramp_never_full) (simp_all add: int_of_def)

section \<open>The weighted persona and the constant arrival rate\<close>

lemma sample_started:
  assumes "\<forall>a \<in> set as. a < n" "length as \<le> length rs"
  shows "weighted_sample n as e rs = (as, Some (if as = [] then e else rs ! (length as - 1), drop (length as) rs), Running)"
  using assms
proof (induction as arbitrary: e rs)
  case (Cons a as)
  then obtain r rs' where "rs = r # rs'" by (cases rs) auto
  then show ?case using Cons by (cases as) auto
qed simp

text \<open>The weighted persona looks at the time only between two samples: when the time is over after the first start, all
  the other actions of the sample are started nevertheless.\<close>

theorem weighted_overruns:
  assumes "as \<noteq> []" "\<forall>a \<in> set as. a < n" "length as \<le> length rs" "\<forall>r \<in> set rs. r \<ge> total_time" "0 < total_time"
  shows "weighted_generator n total_time (as # samples) rs = (as, Ended)"
proof -
  have "rs ! (length as - 1) \<in> set rs" using assms(1,3) by (intro nth_mem) (cases as, auto)
  then have "\<not> rs ! (length as - 1) < total_time" using assms(4) by auto
  then have "weighted_loop n total_time samples (rs ! (length as - 1)) rs' = ([], Ended)" for rs' by (cases samples) simp_all
  then show ?thesis using assms(1,5) sample_started [OF assms(2,3), of 0] by (simp add: weighted_generator_def)
qed

theorem weighted_overruns_witness: "weighted_generator 2 1 [[0, 1, 1, 0]] [2, 3, 4, 5] = ([0, 1, 1, 0], Ended)"
  by (rule weighted_overruns) simp_all

text \<open>With an empty batch the weighted persona loops for ever without reading the clock and without giving up the
  event loop.\<close>

theorem weighted_spins:
  assumes "0 < total_time"
  shows "weighted_generator n total_time (replicate k []) rs = ([], Running)"
proof -
  have "weighted_loop n total_time (replicate k []) 0 rs = ([], Running)" by (induction k) (use assms in simp_all)
  then show ?thesis by (simp add: weighted_generator_def)
qed

theorem weighted_spins_witness: "weighted_generator 1 60 (replicate 1000 []) [] = ([], Running)"
  by (rule weighted_spins) simp

text \<open>The persona with a constant arrival rate raises as soon as a pool is through and a request has completed.\<close>

theorem arrival_raises:
  assumes "0 < n" "0 < p" "length rs = p" "\<forall>(e, completed, pool) \<in> set rs. e < total_time \<and> pool = p" "0 < total_time"
    "fst (snd (last rs)) > 0"
  shows "arrival_generator n (Some t) total_time (rs @ later) = (map (\<lambda>k. k mod n) [0..<p], Raised AttributeError)"
proof -
  have "run_generator snd (arrival_step n (Some t)) fst total_time (k, k mod n) e (rs @ later) =
      (map (\<lambda>i. (k + i) mod n) [0..<length rs], Raised AttributeError)"
    if "e < total_time" "k + length rs = p" "rs \<noteq> []" "\<forall>(e, completed, pool) \<in> set rs. e < total_time \<and> pool = p" "fst (snd (last rs)) > 0"
    for k e rs
    using that
  proof (induction rs arbitrary: k e)
    case (Cons r rs)
    obtain e' c where r: "r = (e', c, p)" "e' < total_time" using Cons.prems(4) by (cases r) auto
    show ?case
    proof (cases "rs = []")
      case True
      then show ?thesis using Cons.prems r assms(1,2) by (simp add: arrival_step_def Let_def)
    next
      case False
      then have "Suc k mod p \<noteq> 0" using Cons.prems(2) by (cases rs) simp_all
      then have "arrival_step n (Some t) (k, k mod n) r = Inr (Suc k, Suc k mod n)"
        using r assms(1,2) by (simp add: arrival_step_def Let_def mod_Suc_eq)
      then show ?thesis using Cons.IH [of e' "Suc k"] Cons.prems False r by (simp add: map_shift del: upt_Suc)
    qed
  qed simp
  from this [of 0 0 rs] show ?thesis using assms by (auto simp: arrival_generator_def)
qed

theorem arrival_raises_witness:
  "arrival_generator 2 (Some 0) 60 ([(1, 0, 3), (2, 0, 3), (3, 1, 3)] @ [(4, 2, 3)]) = (map (\<lambda>k. k mod 2) [0..<3], Raised AttributeError)"
  by (rule arrival_raises) simp_all

end
