(* ===== verification/Batch_Semaphore.thy ===== *)
theory Batch_Semaphore
  imports Py_Prelude
begin

text \<open>
  The semaphore that gives the workers of a pool to stages (\<open>batched_semaphore.py\<close>) and its use by
  \<open>BatchExecutor._execute_stage\<close>. Tasks are numbers; \<open>want t\<close> is the number of workers task \<open>t\<close>
  asks for. A task is in at most one place: in the queue of waiters, woken but not yet resumed, to be
  resumed by a cancellation, holding its workers, or failed while holding them. The event loop runs one
  event at a time; the code between two \<open>await\<close>s is one event.
\<close>

section \<open>State\<close>

text \<open>
  The flag of a waiter is \<open>done()\<close> of its future: a cancelled future stays in the queue until
  \<open>_wake_up_next\<close> meets it. \<open>woken\<close> holds the tasks whose future has got its result, \<open>raising\<close> those
  that will be resumed by a \<open>CancelledError\<close>.
\<close>

record semaphore =
  sem_value :: int
  sem_waiters :: "(nat \<times> bool) list"
  wakeup_scheduled :: bool
  woken :: "nat list"
  raising :: "nat list"
  holding :: "nat list"
  lost :: "nat list"

definition BatchedSemaphore :: "int \<Rightarrow> semaphore res" where
  "BatchedSemaphore n =
     (if n < 0 then Inl ValueError
      else Inr \<lparr>sem_value = n, sem_waiters = [], wakeup_scheduled = False, woken = [], raising = [], holding = [], lost = []\<rparr>)"

definition locked :: "semaphore \<Rightarrow> bool" where
  "locked s \<longleftrightarrow> sem_value s = 0"

section \<open>Operations\<close>

text \<open>\<open>_wake_up_next\<close>: futures that are done are dropped, the first other one gets its result.\<close>

fun next_waiter :: "(nat \<times> bool) list \<Rightarrow> nat option \<times> (nat \<times> bool) list" where
  "next_waiter [] = (None, [])"
| "next_waiter ((t, cancelled) # ws) = (if cancelled then next_waiter ws else (Some t, ws))"

definition wake_up_next :: "semaphore \<Rightarrow> semaphore" where
  "wake_up_next s =
     (case next_waiter (sem_waiters s) of
        (None, ws) \<Rightarrow> s\<lparr>sem_waiters := ws\<rparr>
      | (Some t, ws) \<Rightarrow> s\<lparr>sem_waiters := ws, woken := woken s @ [t], wakeup_scheduled := True\<rparr>)"

text \<open>The test of the loop of \<open>acquire\<close>: the task waits with a new future, or takes its workers.\<close>

definition try_acquire :: "(nat \<Rightarrow> int) \<Rightarrow> nat \<Rightarrow> semaphore \<Rightarrow> semaphore" where
  "try_acquire want t s =
     (if wakeup_scheduled s \<or> sem_value s \<le> 0 then s\<lparr>sem_waiters := sem_waiters s @ [(t, False)]\<rparr>
      else s\<lparr>sem_value := sem_value s - want t, holding := t # holding s\<rparr>)"

definition resume :: "(nat \<Rightarrow> int) \<Rightarrow> nat \<Rightarrow> semaphore \<Rightarrow> semaphore" where
  "resume want t s = try_acquire want t (s\<lparr>woken := remove1 t (woken s), wakeup_scheduled := False\<rparr>)"

definition release :: "(nat \<Rightarrow> int) \<Rightarrow> nat \<Rightarrow> semaphore \<Rightarrow> semaphore" where
  "release want t s = wake_up_next (s\<lparr>sem_value := sem_value s + want t, holding := remove1 t (holding s)\<rparr>)"

text \<open>
  Cancelling a task cancels the future it waits for; a woken task keeps its result and meets the error
  when it is resumed. Only then \<open>acquire\<close> wakes the next waiter; the flag is not reset.
\<close>

definition cancel_waiter :: "nat \<Rightarrow> semaphore \<Rightarrow> semaphore" where
  "cancel_waiter t s =
     s\<lparr>sem_waiters := map (\<lambda>w. if fst w = t then (t, True) else w) (sem_waiters s), raising := t # raising s\<rparr>"

definition cancel_woken :: "nat \<Rightarrow> semaphore \<Rightarrow> semaphore" where
  "cancel_woken t s = s\<lparr>woken := remove1 t (woken s), raising := t # raising s\<rparr>"

definition raise_cancelled :: "nat \<Rightarrow> semaphore \<Rightarrow> semaphore" where
  "raise_cancelled t s = wake_up_next (s\<lparr>raising := remove1 t (raising s)\<rparr>)"

text \<open>When the batch of a stage raises, \<open>_execute_stage\<close> ends without the call of \<open>release\<close>.\<close>

definition stage_raises :: "nat \<Rightarrow> semaphore \<Rightarrow> semaphore" where
  "stage_raises t s = s\<lparr>holding := remove1 t (holding s), lost := t # lost s\<rparr>"

section \<open>Steps\<close>

datatype sem_event = Acquire nat | Resume nat | Release nat | Raise nat | Cancel nat | Cancelled nat

definition busy :: "semaphore \<Rightarrow> nat \<Rightarrow> bool" where
  "busy s t \<longleftrightarrow> t \<in> fst ` set (sem_waiters s) \<union> set (woken s) \<union> set (raising s) \<union> set (holding s) \<union> set (lost s)"

fun sem_step :: "(nat \<Rightarrow> int) \<Rightarrow> sem_event \<Rightarrow> semaphore \<Rightarrow> semaphore option" where
  "sem_step want (Acquire t) s = (if busy s t then None else Some (try_acquire want t s))"
| "sem_step want (Resume t) s = (if t \<in> set (woken s) then Some (resume want t s) else None)"
| "sem_step want (Release t) s = (if t \<in> set (holding s) then Some (release want t s) else None)"
| "sem_step want (Raise t) s = (if t \<in> set (holding s) then Some (stage_raises t s) else None)"
| "sem_step want (Cancel t) s =
     (if t \<in> set (woken s) then Some (cancel_woken t s)
      else if (t, False) \<in> set (sem_waiters s) then Some (cancel_waiter t s) else None)"
| "sem_step want (Cancelled t) s = (if t \<in> set (raising s) then Some (raise_cancelled t s) else None)"

fun sem_run :: "(nat \<Rightarrow> int) \<Rightarrow> sem_event list \<Rightarrow> semaphore \<Rightarrow> semaphore option" where
  "sem_run want [] s = Some s"
| "sem_run want (e # es) s = (case sem_step want e s of None \<Rightarrow> None | Some s' \<Rightarrow> sem_run want es s')"

text \<open>A property that every event keeps is kept by a run.\<close>

lemma sem_run_invariant:
  assumes "\<And>e s s'. e \<in> set es \<Longrightarrow> I s \<Longrightarrow> sem_step want e s = Some s' \<Longrightarrow> I s'" "sem_run want es s = Some s'" "I s"
  shows "I s'"
  using assms by (induction es arbitrary: s) (auto split: option.splits)

lemma sem_run_append: "sem_run want (es @ fs) s = (case sem_run want es s of None \<Rightarrow> None | Some s' \<Rightarrow> sem_run want fs s')"
  by (induction es arbitrary: s) (simp_all split: option.split)

lemma wake_up_next_fields [simp]:
  "sem_value (wake_up_next s) = sem_value s" "holding (wake_up_next s) = holding s" "raising (wake_up_next s) = raising s"
  "lost (wake_up_next s) = lost s"
  by (simp_all add: wake_up_next_def split: prod.split option.split)

section \<open>Workers\<close>

text \<open>The workers that are given out, those that a failed stage has kept included.\<close>

definition given_out :: "(nat \<Rightarrow> int) \<Rightarrow> semaphore \<Rightarrow> int" where
  "given_out want s = sum_list (map want (holding s)) + sum_list (map want (lost s))"

lemma sum_list_remove1_int: "t \<in> set ts \<Longrightarrow> sum_list (map (want :: nat \<Rightarrow> int) (remove1 t ts)) = sum_list (map want ts) - want t"
  by (induction ts) auto

lemma given_out_step:
  assumes "sem_step want e s = Some s'"
  shows "sem_value s' + given_out want s' = sem_value s + given_out want s"
  using assms
  by (cases e) (auto simp: given_out_def try_acquire_def resume_def release_def cancel_waiter_def cancel_woken_def
      raise_cancelled_def stage_raises_def sum_list_remove1_int split: if_splits)

lemma pool_of_four: "BatchedSemaphore 4 =
    Inr \<lparr>sem_value = 4, sem_waiters = [], wakeup_scheduled = False, woken = [], raising = [], holding = [], lost = []\<rparr>"
  by (simp add: BatchedSemaphore_def)

lemmas sem_eval = busy_def try_acquire_def release_def resume_def wake_up_next_def cancel_woken_def raise_cancelled_def

text \<open>The counter and the workers given out always add up to the size of the pool.\<close>

theorem workers_conserved:
  assumes "BatchedSemaphore n = Inr s" "sem_run want es s = Some s'"
  shows "sem_value s' + given_out want s' = n"
proof (rule sem_run_invariant [OF _ assms(2), where I = "\<lambda>s. sem_value s + given_out want s = n"])
  show "sem_value s + given_out want s = n"
    using assms(1) by (auto simp: BatchedSemaphore_def given_out_def split: if_splits)
qed (simp add: given_out_step)

theorem workers_conserved_witness:
  "\<exists>s s'. BatchedSemaphore 4 = Inr s \<and> sem_run (\<lambda>_. 3) [Acquire 0, Acquire 1, Acquire 2, Release 0] s = Some s' \<and>
     woken s' = [2] \<and> sem_value s' + given_out (\<lambda>_. 3) s' = 4"
proof -
  have "\<exists>s'. sem_run (\<lambda>_. 3) [Acquire 0, Acquire 1, Acquire 2, Release 0] (projr (BatchedSemaphore 4)) = Some s' \<and> woken s' = [2]"
    by (simp add: pool_of_four sem_eval)
  then show ?thesis using workers_conserved [OF pool_of_four] unfolding pool_of_four sum.sel by blast
qed

text \<open>The pool can be overdrawn, by less than the largest request: the counter stays above its negation.\<close>

theorem overdraft_bounded:
  assumes "BatchedSemaphore n = Inr s" "\<forall>t. 0 \<le> want t \<and> want t \<le> k" "0 < k" "sem_run want es s = Some s'"
  shows "- k < sem_value s'"
proof (rule sem_run_invariant [OF _ assms(4), where I = "\<lambda>s. - k < sem_value s"])
  show "- k < sem_value s" using assms(1,3) by (auto simp: BatchedSemaphore_def split: if_splits)
next
  fix e s s'
  assume k: "- k < sem_value s" "sem_step want e s = Some s'"
  have w: "0 \<le> want t" for t using assms(2) by simp
  have b: "- k < v - want t" if "\<not> v \<le> 0" for v t
  proof -
    from assms(2) have "want t \<le> k" by blast
    then show ?thesis using that by linarith
  qed
  show "- k < sem_value s'" using k w b
    by (cases e) (auto simp: try_acquire_def resume_def release_def cancel_waiter_def cancel_woken_def raise_cancelled_def
        stage_raises_def add_nonneg_pos intro: less_le_trans split: if_splits)
qed

section \<open>Progress\<close>

text \<open>
  As long as no stage raises and nothing is cancelled: a scheduled wake-up belongs to a woken task, and a
  waiting task has one that is woken or that will release its workers.
\<close>

definition progress :: "(nat \<Rightarrow> int) \<Rightarrow> int \<Rightarrow> semaphore \<Rightarrow> bool" where
  "progress want n s \<longleftrightarrow> sem_value s + given_out want s = n \<and> lost s = [] \<and> raising s = [] \<and>
     (\<forall>w \<in> set (sem_waiters s). \<not> snd w) \<and> (wakeup_scheduled s \<longrightarrow> woken s \<noteq> []) \<and>
     (sem_waiters s \<noteq> [] \<longrightarrow> woken s \<noteq> [] \<or> holding s \<noteq> [])"

fun plain_event :: "sem_event \<Rightarrow> bool" where
  "plain_event (Acquire t) = True"
| "plain_event (Resume t) = True"
| "plain_event (Release t) = True"
| "plain_event (Raise t) = False"
| "plain_event (Cancel t) = False"
| "plain_event (Cancelled t) = False"

lemma no_workers_held: "0 < n \<Longrightarrow> sem_value s + given_out want s = n \<Longrightarrow> lost s = [] \<Longrightarrow> sem_value s \<le> 0 \<Longrightarrow> holding s \<noteq> []"
  by (auto simp: given_out_def)

lemma progress_try_acquire:
  assumes "0 < n" "sem_value s + given_out want s = n" "lost s = []" "raising s = []" "\<forall>w \<in> set (sem_waiters s). \<not> snd w"
    "wakeup_scheduled s \<longrightarrow> woken s \<noteq> []"
  shows "progress want n (try_acquire want t s)"
  using assms no_workers_held [OF assms(1-3)] by (auto simp: progress_def try_acquire_def given_out_def)

lemma progress_wake_up:
  assumes "sem_value s + given_out want s = n" "lost s = []" "raising s = []" "\<forall>w \<in> set (sem_waiters s). \<not> snd w"
    "wakeup_scheduled s \<longrightarrow> woken s \<noteq> []"
  shows "progress want n (wake_up_next s)"
proof (cases "sem_waiters s")
  case Nil
  then show ?thesis using assms by (simp add: progress_def wake_up_next_def given_out_def)
next
  case (Cons w ws)
  then show ?thesis using assms by (cases w) (auto simp: progress_def wake_up_next_def given_out_def)
qed

lemma progress_step:
  assumes "0 < n" "plain_event e" "progress want n s" "sem_step want e s = Some s'"
  shows "progress want n s'"
proof (cases e)
  case (Acquire t)
  then show ?thesis using assms progress_try_acquire [of n s want t] by (auto simp: progress_def [of want n s] split: if_splits)
next
  case (Resume t)
  then show ?thesis using assms progress_try_acquire [of n "s\<lparr>woken := remove1 t (woken s), wakeup_scheduled := False\<rparr>" want t]
    by (auto simp: progress_def [of want n s] resume_def given_out_def split: if_splits)
next
  case (Release t)
  then show ?thesis
    using assms progress_wake_up [of "s\<lparr>sem_value := sem_value s + want t, holding := remove1 t (holding s)\<rparr>" want n]
    by (auto simp: progress_def [of want n s] release_def given_out_def sum_list_remove1_int split: if_splits)
qed (use assms(2) in auto)

text \<open>C17: As long as no stage raises and no task is cancelled the stages never deadlock: whenever a task waits
  for workers, a woken task can be resumed or a task that holds workers can release them.\<close>

theorem waiting_task_has_runner:
  assumes "BatchedSemaphore n = Inr s" "0 < n" "\<forall>e \<in> set es. plain_event e" "sem_run want es s = Some s'" "sem_waiters s' \<noteq> []"
  shows "\<exists>t s''. sem_step want (Resume t) s' = Some s'' \<or> sem_step want (Release t) s' = Some s''"
proof -
  have "progress want n s'"
  proof (rule sem_run_invariant [OF _ assms(4)])
    show "progress want n s" using assms(1) by (auto simp: BatchedSemaphore_def progress_def given_out_def split: if_splits)
    show "progress want n s2" if "e \<in> set es" "progress want n s1" "sem_step want e s1 = Some s2" for e s1 s2
      using progress_step [OF assms(2) _ that(2,3)] assms(3) that(1) by simp
  qed
  then have "woken s' \<noteq> [] \<or> holding s' \<noteq> []" using assms(5) by (simp add: progress_def)
  then show ?thesis by (metis list.set_intros(1) neq_Nil_conv sem_step.simps(2,3))
qed

theorem overdraft_bounded_witness:
  "\<exists>s s'. BatchedSemaphore 4 = Inr s \<and> sem_run (\<lambda>_. 3) [Acquire 0, Acquire 1] s = Some s' \<and> sem_value s' = - 2 \<and> - 3 < sem_value s'"
proof -
  have "\<exists>s'. sem_run (\<lambda>_. 3) [Acquire 0, Acquire 1] (projr (BatchedSemaphore 4)) = Some s' \<and> sem_value s' = - 2"
    by (simp add: pool_of_four sem_eval)
  moreover have "\<forall>t :: nat. 0 \<le> (3 :: int) \<and> (3 :: int) \<le> 3" by simp
  ultimately show ?thesis using overdraft_bounded [OF pool_of_four, of "\<lambda>_. 3" 3] unfolding pool_of_four sum.sel by force
qed

theorem waiting_task_has_runner_witness:
  "\<exists>s s'. BatchedSemaphore 4 = Inr s \<and> sem_run (\<lambda>_. 4) [Acquire 0, Acquire 1] s = Some s' \<and> sem_waiters s' = [(1, False)] \<and>
     (\<exists>t s''. sem_step (\<lambda>_. 4) (Resume t) s' = Some s'' \<or> sem_step (\<lambda>_. 4) (Release t) s' = Some s'')"
proof -
  have "\<exists>s'. sem_run (\<lambda>_. 4) [Acquire 0, Acquire 1] (projr (BatchedSemaphore 4)) = Some s' \<and> sem_waiters s' = [(1, False)]"
    by (simp add: pool_of_four sem_eval)
  then obtain s' where s': "sem_run (\<lambda>_. 4) [Acquire 0, Acquire 1] (projr (BatchedSemaphore 4)) = Some s'" "sem_waiters s' = [(1, False)]"
    by blast
  have "\<exists>t s''. sem_step (\<lambda>_. 4) (Resume t) s' = Some s'' \<or> sem_step (\<lambda>_. 4) (Release t) s' = Some s''"
    by (rule waiting_task_has_runner [OF pool_of_four _ _ s'(1) [unfolded pool_of_four sum.sel]]) (simp_all add: s'(2))
  then show ?thesis using s' unfolding pool_of_four sum.sel by blast
qed

section \<open>Where the semaphore gets stuck\<close>

text \<open>
  The flag of a scheduled wake-up is set, no task is woken and none holds workers: the tasks \<open>us\<close> wait.
\<close>

definition wakeup_left :: "int \<Rightarrow> nat list \<Rightarrow> semaphore \<Rightarrow> bool" where
  "wakeup_left v us s \<longleftrightarrow> holding s = [] \<and> woken s = [] \<and> wakeup_scheduled s \<and> sem_waiters s = map (\<lambda>u. (u, False)) us \<and>
     sem_value s = v"

lemma acquire_all_wait:
  assumes "wakeup_left v us s" "sem_run want (map Acquire ts) s = Some s'"
  shows "wakeup_left v (us @ ts) s'"
  using assms
proof (induction ts arbitrary: s us)
  case (Cons t ts)
  then obtain s2 where s2: "sem_step want (Acquire t) s = Some s2" "sem_run want (map Acquire ts) s2 = Some s'"
    by (auto split: option.splits)
  then have "wakeup_left v (us @ [t]) s2"
    using Cons.prems(1) by (auto simp: wakeup_left_def try_acquire_def split: if_splits)
  then show ?case using Cons.IH [of "us @ [t]" s2] s2(2) by simp
qed simp

text \<open>When the only woken task is cancelled before it resumes and nobody else waits or holds workers, the
  flag of the scheduled wake-up stays set for ever: every later task waits although all workers are free.\<close>

theorem cancelled_wakeup_deadlocks:
  assumes "woken s = [t]" "raising s = []" "holding s = []" "sem_waiters s = []" "wakeup_scheduled s"
    "sem_run want ([Cancel t, Cancelled t] @ map Acquire us) s = Some s'"
  shows "holding s' = [] \<and> woken s' = [] \<and> sem_waiters s' = map (\<lambda>u. (u, False)) us \<and> sem_value s' = sem_value s"
proof -
  obtain s1 where s1: "sem_run want [Cancel t, Cancelled t] s = Some s1" "wakeup_left (sem_value s) [] s1"
    using assms(1-5) by (auto simp: wakeup_left_def cancel_woken_def raise_cancelled_def wake_up_next_def)
  then have "sem_run want (map Acquire us) s1 = Some s'" using assms(6) by (simp only: sem_run_append) simp
  then have "wakeup_left (sem_value s) us s'" using acquire_all_wait [OF s1(2)] by simp
  then show ?thesis by (simp add: wakeup_left_def)
qed

theorem cancelled_wakeup_deadlocks_witness:
  "\<exists>s s'. BatchedSemaphore 4 = Inr s \<and> sem_run (\<lambda>_. 4) [Acquire 0, Acquire 1, Release 0, Cancel 1, Cancelled 1, Acquire 2] s = Some s' \<and>
     sem_value s' = 4 \<and> holding s' = [] \<and> woken s' = [] \<and> sem_waiters s' = [(2, False)]"
proof -
  obtain s where s: "BatchedSemaphore 4 = Inr s" using pool_of_four by blast
  then have "s = \<lparr>sem_value = 4, sem_waiters = [], wakeup_scheduled = False, woken = [], raising = [], holding = [], lost = []\<rparr>"
    by (simp add: BatchedSemaphore_def)
  then have "\<exists>s1. sem_run (\<lambda>_. 4) [Acquire 0, Acquire 1, Release 0] s = Some s1 \<and> woken s1 = [1] \<and> raising s1 = [] \<and>
    holding s1 = [] \<and> sem_waiters s1 = [] \<and> wakeup_scheduled s1 \<and> sem_value s1 = 4 \<and> lost s1 = []"
    by (simp add: sem_eval)
  then obtain s1 where s1: "sem_run (\<lambda>_. 4) [Acquire 0, Acquire 1, Release 0] s = Some s1" "woken s1 = [1]" "raising s1 = []"
    "holding s1 = []" "sem_waiters s1 = []" "wakeup_scheduled s1" "sem_value s1 = 4" "lost s1 = []"
    by blast
  then obtain s' where s': "sem_run (\<lambda>_. 4) ([Cancel 1, Cancelled 1] @ map Acquire [2]) s1 = Some s'"
    by (auto simp: sem_eval)
  have "sem_run (\<lambda>_. 4) ([Acquire 0, Acquire 1, Release 0] @ [Cancel 1, Cancelled 1] @ map Acquire [2]) s = Some s'"
    using s1(1) s' by (simp only: sem_run_append) simp
  moreover have "holding s' = [] \<and> woken s' = [] \<and> sem_waiters s' = map (\<lambda>u. (u, False)) [2] \<and> sem_value s' = sem_value s1"
    by (rule cancelled_wakeup_deadlocks [OF s1(2-6) s'])
  ultimately show ?thesis using s s1(7) by auto
qed

text \<open>A release wakes one waiter only, however many workers come back: when two tasks wait for one worker
  each and a task returns two or more, the second goes on waiting while workers are free and nothing is
  left to wake it but the release of the first.\<close>

theorem second_waiter_stranded:
  assumes "holding s = [t]" "sem_value s = 0" "woken s = []" "raising s = []" "sem_waiters s = [(u, False), (v, False)]"
    "\<not> wakeup_scheduled s" "want t = k" "1 < k" "want u = 1" "u \<noteq> v"
  shows "\<exists>s'. sem_run want [Release t, Resume u] s = Some s' \<and> sem_value s' = k - 1 \<and> woken s' = [] \<and>
    sem_waiters s' = [(v, False)] \<and> holding s' = [u]"
  using assms by (simp add: release_def wake_up_next_def resume_def try_acquire_def)

theorem second_waiter_stranded_witness:
  "\<exists>s s'. BatchedSemaphore 4 = Inr s \<and> sem_run (\<lambda>t. if t = 0 then 4 else 1) [Acquire 0, Acquire 1, Acquire 2, Release 0, Resume 1] s = Some s' \<and>
     sem_value s' = 3 \<and> woken s' = [] \<and> sem_waiters s' = [(2, False)]"
proof -
  let ?want = "\<lambda>t. if t = 0 then 4 else 1"
  obtain s where s: "BatchedSemaphore 4 = Inr s" using pool_of_four by blast
  then have "s = \<lparr>sem_value = 4, sem_waiters = [], wakeup_scheduled = False, woken = [], raising = [], holding = [], lost = []\<rparr>"
    by (simp add: pool_of_four)
  then have "\<exists>s1. sem_run ?want [Acquire 0, Acquire 1, Acquire 2] s = Some s1 \<and> holding s1 = [0] \<and> sem_value s1 = 0 \<and>
    woken s1 = [] \<and> raising s1 = [] \<and> sem_waiters s1 = [(1, False), (2, False)] \<and> \<not> wakeup_scheduled s1"
    by (simp add: sem_eval)
  then obtain s1 where s1: "sem_run ?want [Acquire 0, Acquire 1, Acquire 2] s = Some s1" "holding s1 = [0]" "sem_value s1 = 0"
    "woken s1 = []" "raising s1 = []" "sem_waiters s1 = [(1, False), (2, False)]" "\<not> wakeup_scheduled s1"
    by blast
  obtain s' where s': "sem_run ?want [Release 0, Resume 1] s1 = Some s'" "sem_value s' = 4 - 1" "woken s' = []"
    "sem_waiters s' = [(2, False)]"
    using second_waiter_stranded [OF s1(2-7), of ?want 4] by auto
  have "sem_run ?want ([Acquire 0, Acquire 1, Acquire 2] @ [Release 0, Resume 1]) s = Some s'"
    using s1(1) s'(1) by (simp only: sem_run_append) simp
  then show ?thesis using s s' by auto
qed

text \<open>A stage that raises keeps its workers: when the lost ones use up the pool, every later task waits.\<close>

lemma raised_workers_lost:
  assumes "sem_value s + given_out want s = n" "n \<le> sum_list (map want (lost s))" "\<forall>t. 0 \<le> want t" "\<not> busy s t"
  shows "\<exists>s'. sem_step want (Acquire t) s = Some s' \<and> sem_waiters s' = sem_waiters s @ [(t, False)]"
proof -
  have "0 \<le> sum_list (map want (holding s))" by (rule sum_list_nonneg) (use assms(3) in auto)
  then have "sem_value s \<le> 0" using assms(1,2) by (simp add: given_out_def)
  then show ?thesis using assms(4) by (simp add: try_acquire_def)
qed

end
