(* ===== verification/Circuit_Breaker.thy ===== *)
theory Circuit_Breaker
  imports Py_Prelude Complex_Main
begin

text \<open>
  The circuit breaker of the HTTP middleware (\<open>distributed/middleware/circuit_breaker\<close>). A request is two
  events: its arrival up to the call of the handler (\<open>breaker_arrive\<close>: the rejection test and the
  transitions of the state) and its end (\<open>breaker_end\<close>: the counters and the trip); the handlers of other
  requests may run between the two, a rejected request ends at once. The clock of the loop is read once per
  event, floats are reals, the random draw is an argument.
\<close>

section \<open>State\<close>

datatype breaker_state = CLOSED | HALF_OPEN | OPEN

record breaker =
  failure_threshold :: real
  rejection_sensitivity :: real
  failure_window :: real
  failed :: nat
  succeeded :: nat
  total_completed :: nat
  rate_per_sec :: real
  rate_per_sec_succeeded :: real
  rate_per_sec_failed :: real
  previous_count :: nat
  previous_count_succeeded :: nat
  previous_count_failed :: nat
  current_time :: real
  state_of :: breaker_state
  closed_window_start :: "real option"
  closed_elapsed :: real
  half_open_window_start :: "real option"
  half_open_elapsed :: real

text \<open>The constructor and \<open>__setup__\<close> at time \<open>now\<close>.\<close>

definition CircuitBreaker :: "real \<Rightarrow> real \<Rightarrow> real \<Rightarrow> real \<Rightarrow> breaker" where
  "CircuitBreaker threshold sensitivity window now =
     \<lparr>failure_threshold = threshold, rejection_sensitivity = sensitivity, failure_window = window,
      failed = 0, succeeded = 0, total_completed = 0, rate_per_sec = 0, rate_per_sec_succeeded = 0, rate_per_sec_failed = 0,
      previous_count = 0, previous_count_succeeded = 0, previous_count_failed = 0, current_time = now, state_of = CLOSED,
      closed_window_start = None, closed_elapsed = 0, half_open_window_start = None, half_open_elapsed = 0\<rparr>"

section \<open>Rates\<close>

text \<open>\<open>int\<close> of a float rounds towards zero.\<close>

definition int_of_real :: "real \<Rightarrow> int" where
  "int_of_real x = (if 0 \<le> x then \<lfloor>x\<rfloor> else \<lceil>x\<rceil>)"

definition trip_breaker :: "breaker \<Rightarrow> bool" where
  "trip_breaker b \<longleftrightarrow> int_of_real (rate_per_sec_failed b) > int_of_real (max (rate_per_sec b * failure_threshold b) 1)"

text \<open>A new window begins once more than its length has passed; the counts become the previous ones.\<close>

definition turn_window :: "real \<Rightarrow> breaker \<Rightarrow> breaker" where
  "turn_window now b =
     (if now - current_time b > failure_window b
      then b\<lparr>current_time := of_int \<lfloor>now / failure_window b\<rfloor> * failure_window b,
             previous_count := total_completed b, previous_count_succeeded := succeeded b, previous_count_failed := failed b,
             failed := 0, succeeded := 0, total_completed := 0\<rparr>
      else b)"

definition window_rate :: "real \<Rightarrow> breaker \<Rightarrow> nat \<Rightarrow> nat \<Rightarrow> real" where
  "window_rate now b previous current = real previous * (failure_window b - (now - current_time b)) / failure_window b + real current"

definition set_rates :: "real \<Rightarrow> breaker \<Rightarrow> breaker" where
  "set_rates now b =
     b\<lparr>rate_per_sec := window_rate now b (previous_count b) (total_completed b),
       rate_per_sec_succeeded := window_rate now b (previous_count_succeeded b) (succeeded b),
       rate_per_sec_failed := window_rate now b (previous_count_failed b) (failed b)\<rparr>"

definition overload :: "breaker \<Rightarrow> real" where
  "overload b = max ((rate_per_sec b - rate_per_sec_succeeded b / (1 - failure_threshold b)) / (rate_per_sec b + 1)) 0"

definition rejection_probability :: "breaker \<Rightarrow> real" where
  "rejection_probability b = overload b powr (1 / rejection_sensitivity b)"

text \<open>\<open>reject_request\<close> raises where a divisor is 0, and for a negative power of 0.\<close>

definition divides_by_zero :: "breaker \<Rightarrow> bool" where
  "divides_by_zero b \<longleftrightarrow> failure_window b = 0 \<or> failure_threshold b = 1 \<or> rate_per_sec b + 1 = 0 \<or> rejection_sensitivity b = 0 \<or>
     rejection_sensitivity b < 0 \<and> overload b = 0"

definition reject_request :: "real \<Rightarrow> real \<Rightarrow> breaker \<Rightarrow> (bool \<times> breaker) res" where
  "reject_request now draw b =
     (let b = set_rates now (turn_window now b)
      in if divides_by_zero b then Inl (GenericException ''ZeroDivisionError'') else Inr (draw < rejection_probability b, b))"

section \<open>Requests\<close>

text \<open>
  The first \<open>if\<close> chain: an open breaker rejects while the elapsed time it has recorded is below the
  window, and becomes half open otherwise. Subtracting None raises.
\<close>

definition while_open :: "real \<Rightarrow> bool \<Rightarrow> breaker \<Rightarrow> (bool \<times> breaker) res" where
  "while_open now reject b =
     (if state_of b = OPEN \<and> closed_elapsed b < failure_window b
      then (case closed_window_start b of
              None \<Rightarrow> Inl TypeError
            | Some t \<Rightarrow> Inr (True, b\<lparr>closed_elapsed := now - t\<rparr>))
      else if state_of b = OPEN
      then Inr (reject, b\<lparr>state_of := HALF_OPEN, half_open_window_start := Some now, closed_elapsed := 0\<rparr>)
      else Inr (reject, b))"

definition while_half_open :: "real \<Rightarrow> breaker \<Rightarrow> breaker res" where
  "while_half_open now b =
     (if state_of b = HALF_OPEN \<and> half_open_elapsed b < failure_window b
      then (case half_open_window_start b of
              None \<Rightarrow> Inl TypeError
            | Some t \<Rightarrow> Inr (b\<lparr>half_open_elapsed := now - t\<rparr>))
      else if state_of b = HALF_OPEN then Inr (b\<lparr>state_of := CLOSED, half_open_elapsed := 0\<rparr>)
      else Inr b)"

definition breaker_arrive :: "real \<Rightarrow> real \<Rightarrow> breaker \<Rightarrow> (bool \<times> breaker) res" where
  "breaker_arrive now draw b =
     (case reject_request now draw b of
        Inl e \<Rightarrow> Inl e
      | Inr (reject, b) \<Rightarrow>
          (case while_open now reject b of
             Inl e \<Rightarrow> Inl e
           | Inr (reject, b) \<Rightarrow> (case while_half_open now b of Inl e \<Rightarrow> Inl e | Inr b \<Rightarrow> Inr (reject, b))))"

text \<open>The answer of the handler: a status, or an exception (the time limit included).\<close>

datatype handler_outcome = Answered int | Failed

definition handled_status :: "handler_outcome \<Rightarrow> int" where
  "handled_status r = (case r of Answered s \<Rightarrow> s | Failed \<Rightarrow> 504)"

definition count_status :: "int \<Rightarrow> breaker \<Rightarrow> breaker" where
  "count_status status b =
     (let b = (if status \<ge> 400 then b\<lparr>failed := failed b + 1\<rparr> else b\<lparr>succeeded := succeeded b + 1\<rparr>)
      in b\<lparr>total_completed := total_completed b + 1\<rparr>)"

definition trip :: "real \<Rightarrow> breaker \<Rightarrow> breaker" where
  "trip now b =
     (if trip_breaker b \<and> (state_of b = CLOSED \<or> state_of b = HALF_OPEN)
      then b\<lparr>state_of := OPEN, closed_window_start := Some now, half_open_elapsed := 0\<rparr> else b)"

definition breaker_end :: "real \<Rightarrow> handler_outcome \<Rightarrow> breaker \<Rightarrow> int \<times> breaker" where
  "breaker_end now r b = (handled_status r, trip now (count_status (handled_status r) b))"

text \<open>One request alone: \<open>now\<close> is its arrival, \<open>later\<close> its end.\<close>

definition breaker_run :: "real \<Rightarrow> real \<Rightarrow> real \<Rightarrow> handler_outcome \<Rightarrow> breaker \<Rightarrow> (int \<times> breaker) res" where
  "breaker_run now draw later r b =
     (case breaker_arrive now draw b of
        Inl e \<Rightarrow> Inl e
      | Inr (reject, b) \<Rightarrow> Inr (if reject then (503, trip now b) else breaker_end later r b))"

section \<open>Interleaved requests\<close>

text \<open>The state with the number of requests whose handler runs.\<close>

datatype breaker_event = Arrive real real | End real handler_outcome

fun breaker_step :: "breaker_event \<Rightarrow> nat \<times> breaker \<Rightarrow> (nat \<times> breaker) res" where
  "breaker_step (Arrive now draw) (running, b) =
     (case breaker_arrive now draw b of
        Inl e \<Rightarrow> Inl e
      | Inr (reject, b) \<Rightarrow> Inr (if reject then (running, trip now b) else (running + 1, b)))"
| "breaker_step (End now r) (running, b) =
     Inr (if running = 0 then (running, b) else (running - 1, snd (breaker_end now r b)))"

fun breaker_steps :: "breaker_event list \<Rightarrow> nat \<times> breaker \<Rightarrow> (nat \<times> breaker) res" where
  "breaker_steps [] s = Inr s"
| "breaker_steps (e # es) s = (case breaker_step e s of Inl err \<Rightarrow> Inl err | Inr s \<Rightarrow> breaker_steps es s)"

section \<open>Invariant\<close>

text \<open>
  The counters add up, so do the rates, which are not negative, the starts of the windows are known in
  the states that read them, and the elapsed times are 0 outside their states.
\<close>

definition config_ok :: "breaker \<Rightarrow> bool" where
  "config_ok b \<longleftrightarrow> 0 < failure_window b \<and> failure_threshold b \<noteq> 1 \<and> 0 < rejection_sensitivity b"

definition counts_ok :: "breaker \<Rightarrow> bool" where
  "counts_ok b \<longleftrightarrow> total_completed b = failed b + succeeded b \<and>
     previous_count b = previous_count_failed b + previous_count_succeeded b"

definition rates_ok :: "breaker \<Rightarrow> bool" where
  "rates_ok b \<longleftrightarrow> rate_per_sec b = rate_per_sec_failed b + rate_per_sec_succeeded b \<and>
     0 \<le> rate_per_sec_failed b \<and> 0 \<le> rate_per_sec_succeeded b"

definition windows_ok :: "breaker \<Rightarrow> bool" where
  "windows_ok b \<longleftrightarrow>
     (state_of b = OPEN \<longrightarrow> closed_window_start b \<noteq> None) \<and> (state_of b = HALF_OPEN \<longrightarrow> half_open_window_start b \<noteq> None) \<and>
     (state_of b \<noteq> OPEN \<longrightarrow> closed_elapsed b = 0) \<and> (state_of b \<noteq> HALF_OPEN \<longrightarrow> half_open_elapsed b = 0)"

definition breaker_inv :: "breaker \<Rightarrow> bool" where
  "breaker_inv b \<longleftrightarrow> config_ok b \<and> counts_ok b \<and> rates_ok b \<and> windows_ok b"

lemma window_rate_add: "window_rate now b (m + n) (j + k) = window_rate now b m j + window_rate now b n k"
proof -
  have "(x + y) * d / w = x * d / w + y * d / w" for x y d w :: real by (simp add: add_divide_distrib distrib_right)
  then show ?thesis by (simp add: window_rate_def)
qed

text \<open>After \<open>turn_window\<close> the current window has begun at most one length ago.\<close>

lemma turn_window_recent: "0 < failure_window b \<Longrightarrow> now - current_time (turn_window now b) \<le> failure_window b"
proof -
  assume w: "0 < failure_window b"
  have "now / failure_window b < of_int \<lfloor>now / failure_window b\<rfloor> + 1" by linarith
  then have "now < (of_int \<lfloor>now / failure_window b\<rfloor> + 1) * failure_window b" using w by (simp add: field_simps)
  then have "now - of_int \<lfloor>now / failure_window b\<rfloor> * failure_window b \<le> failure_window b" by (simp add: distrib_right)
  then show ?thesis by (simp add: turn_window_def)
qed

lemma turn_window_fields [simp]:
  "failure_window (turn_window now b) = failure_window b" "failure_threshold (turn_window now b) = failure_threshold b"
  "rejection_sensitivity (turn_window now b) = rejection_sensitivity b" "state_of (turn_window now b) = state_of b"
  "closed_window_start (turn_window now b) = closed_window_start b" "closed_elapsed (turn_window now b) = closed_elapsed b"
  "half_open_window_start (turn_window now b) = half_open_window_start b" "half_open_elapsed (turn_window now b) = half_open_elapsed b"
  by (simp_all add: turn_window_def)

lemma window_rate_nonneg: "0 < failure_window b \<Longrightarrow> now - current_time b \<le> failure_window b \<Longrightarrow> 0 \<le> window_rate now b m k"
  by (simp add: window_rate_def)

lemma counts_turn: "counts_ok b \<Longrightarrow> counts_ok (turn_window now b)"
  by (simp add: counts_ok_def turn_window_def)

lemma set_rates_ok:
  assumes "counts_ok b" "0 < failure_window b" "now - current_time b \<le> failure_window b"
  shows "rates_ok (set_rates now b)"
  using assms by (simp add: rates_ok_def set_rates_def counts_ok_def window_rate_add window_rate_nonneg)

lemma set_rates_keeps: "config_ok (set_rates now b) = config_ok b" "counts_ok (set_rates now b) = counts_ok b"
  "windows_ok (set_rates now b) = windows_ok b"
  by (simp_all add: set_rates_def config_ok_def counts_ok_def windows_ok_def)

lemma inv_rates: "breaker_inv b \<Longrightarrow> breaker_inv (set_rates now (turn_window now b))"
proof -
  assume "breaker_inv b"
  then have "config_ok b" "counts_ok b" "windows_ok b" by (simp_all add: breaker_inv_def)
  moreover from this have "rates_ok (set_rates now (turn_window now b))"
    using turn_window_recent [of b now] by (intro set_rates_ok) (simp_all add: counts_turn config_ok_def)
  ultimately show ?thesis by (simp add: breaker_inv_def set_rates_keeps counts_turn) (simp add: config_ok_def windows_ok_def)
qed

lemma inv_divides: "breaker_inv b \<Longrightarrow> \<not> divides_by_zero b"
  by (auto simp: breaker_inv_def config_ok_def rates_ok_def divides_by_zero_def)

lemma reject_request_eq:
  "breaker_inv b \<Longrightarrow> reject_request now draw b =
     Inr (draw < rejection_probability (set_rates now (turn_window now b)), set_rates now (turn_window now b))"
  using inv_divides [OF inv_rates] by (simp add: reject_request_def Let_def)

lemma inv_while_open: "breaker_inv b \<Longrightarrow> \<exists>r b'. while_open now reject b = Inr (r, b') \<and> breaker_inv b'"
  by (auto simp: while_open_def breaker_inv_def config_ok_def counts_ok_def rates_ok_def windows_ok_def)

lemma inv_while_half_open: "breaker_inv b \<Longrightarrow> \<exists>b'. while_half_open now b = Inr b' \<and> breaker_inv b'"
  by (auto simp: while_half_open_def breaker_inv_def config_ok_def counts_ok_def rates_ok_def windows_ok_def)

lemma inv_trip: "breaker_inv b \<Longrightarrow> breaker_inv (trip now b)"
  by (auto simp: breaker_inv_def config_ok_def counts_ok_def rates_ok_def windows_ok_def trip_def)

lemma inv_count: "breaker_inv b \<Longrightarrow> breaker_inv (count_status status b)"
  by (auto simp: breaker_inv_def config_ok_def counts_ok_def rates_ok_def windows_ok_def count_status_def Let_def)

lemma inv_arrive: "breaker_inv b \<Longrightarrow> \<exists>reject b'. breaker_arrive now draw b = Inr (reject, b') \<and> breaker_inv b'"
proof -
  assume i: "breaker_inv b"
  let ?b = "set_rates now (turn_window now b)" and ?r = "draw < rejection_probability (set_rates now (turn_window now b))"
  obtain r b1 where b1: "while_open now ?r ?b = Inr (r, b1)" "breaker_inv b1"
    using inv_while_open [OF inv_rates [OF i]] by blast
  moreover obtain b2 where "while_half_open now b1 = Inr b2" "breaker_inv b2"
    using inv_while_half_open [OF b1(2)] by blast
  ultimately show ?thesis by (simp add: breaker_arrive_def reject_request_eq [OF i])
qed

lemma inv_step: "breaker_inv (snd s) \<Longrightarrow> \<exists>s'. breaker_step e s = Inr s' \<and> breaker_inv (snd s')"
proof -
  assume i: "breaker_inv (snd s)"
  obtain running b where s: "s = (running, b)" by (cases s)
  show ?thesis
  proof (cases e)
    case (Arrive now draw)
    obtain reject b' where "breaker_arrive now draw b = Inr (reject, b')" "breaker_inv b'"
      using inv_arrive i s by (metis snd_conv)
    then show ?thesis by (simp add: s Arrive inv_trip)
  next
    case (End now r)
    then show ?thesis using i by (simp add: s breaker_end_def inv_trip inv_count)
  qed
qed

text \<open>C19: With a window longer than 0, a threshold other than 1 and a positive sensitivity the breaker never
  raises, however the requests arrive, interleave and end: no divisor is 0 and no start of a window is
  read that is not set; its counters and its rates add up.\<close>

theorem breaker_never_raises:
  assumes "0 < window" "threshold \<noteq> 1" "0 < sensitivity"
  shows "\<exists>running b. breaker_steps es (0, CircuitBreaker threshold sensitivity window now) = Inr (running, b) \<and> breaker_inv b"
proof -
  have "\<exists>s'. breaker_steps es s = Inr s' \<and> breaker_inv (snd s')" if "breaker_inv (snd s)" for s
    using that
  proof (induction es arbitrary: s)
    case (Cons e es)
    then obtain s' where "breaker_step e s = Inr s'" "breaker_inv (snd s')" using inv_step by blast
    then show ?case using Cons.IH by simp
  qed simp
  moreover have "breaker_inv (CircuitBreaker threshold sensitivity window now)"
    using assms by (simp add: breaker_inv_def config_ok_def counts_ok_def rates_ok_def windows_ok_def CircuitBreaker_def)
  ultimately show ?thesis by fastforce
qed

theorem breaker_never_raises_witness:
  "\<exists>running b. breaker_steps [Arrive 1 (1 / 2), Arrive 2 (1 / 2), End 3 Failed] (0, CircuitBreaker (1 / 5) 2 60 0) = Inr (running, b) \<and>
     breaker_inv b"
  by (rule breaker_never_raises) simp_all

section \<open>Rejection\<close>

lemma set_rates_fields [simp]:
  "failure_window (set_rates now b) = failure_window b" "failure_threshold (set_rates now b) = failure_threshold b"
  "state_of (set_rates now b) = state_of b" "closed_window_start (set_rates now b) = closed_window_start b"
  "closed_elapsed (set_rates now b) = closed_elapsed b" "half_open_window_start (set_rates now b) = half_open_window_start b"
  "half_open_elapsed (set_rates now b) = half_open_elapsed b" "failed (set_rates now b) = failed b"
  "current_time (set_rates now b) = current_time b" "rejection_sensitivity (set_rates now b) = rejection_sensitivity b"
  by (simp_all add: set_rates_def)

lemma no_overload:
  assumes "rates_ok b" "failure_threshold b < 1" "rate_per_sec_failed b \<le> failure_threshold b * rate_per_sec b"
  shows "overload b = 0"
proof -
  have "rate_per_sec b * (1 - failure_threshold b) \<le> rate_per_sec_succeeded b"
    using assms(1,3) by (simp add: rates_ok_def algebra_simps)
  then have "rate_per_sec b \<le> rate_per_sec_succeeded b / (1 - failure_threshold b)"
    using assms(2) by (simp add: field_simps)
  moreover have "0 < rate_per_sec b + 1" using assms(1) by (simp add: rates_ok_def)
  ultimately show ?thesis by (simp add: overload_def divide_nonpos_pos)
qed

text \<open>A breaker that is not open rejects nothing as long as the failed requests of the sliding window are at
  most the threshold's share of all of them.\<close>

theorem few_failures_never_rejected:
  assumes "breaker_inv b" "failure_threshold b < 1" "0 \<le> draw" "state_of b \<noteq> OPEN"
    "rate_per_sec_failed (set_rates now (turn_window now b)) \<le> failure_threshold b * rate_per_sec (set_rates now (turn_window now b))"
  shows "\<exists>b'. breaker_arrive now draw b = Inr (False, b')"
proof -
  let ?b = "set_rates now (turn_window now b)"
  have i: "breaker_inv ?b" using inv_rates [OF assms(1)] .
  then have "overload ?b = 0" using no_overload [of ?b] assms(2,5) by (simp add: breaker_inv_def)
  then have "reject_request now draw b = Inr (False, ?b)"
    using assms(3) by (simp add: reject_request_eq [OF assms(1)] rejection_probability_def)
  moreover have "while_open now False ?b = Inr (False, ?b)" using assms(4) by (simp add: while_open_def)
  moreover obtain b' where "while_half_open now ?b = Inr b'" using inv_while_half_open [OF i] by blast
  ultimately show ?thesis by (simp add: breaker_arrive_def)
qed

theorem few_failures_never_rejected_witness:
  "\<exists>b'. breaker_arrive 5 0 (CircuitBreaker (1 / 5) 2 60 0) = Inr (False, b')"
  by (rule few_failures_never_rejected)
    (simp_all add: breaker_inv_def config_ok_def counts_ok_def rates_ok_def windows_ok_def CircuitBreaker_def set_rates_def
      turn_window_def window_rate_def)

section \<open>Transitions\<close>

lemma arrive_open:
  assumes "breaker_inv b" "state_of b = OPEN" "closed_elapsed b < failure_window b" "closed_window_start b = Some t"
  shows "breaker_arrive now draw b = Inr (True, (set_rates now (turn_window now b))\<lparr>closed_elapsed := now - t\<rparr>)"
  using assms(2-4) by (simp add: breaker_arrive_def reject_request_eq [OF assms(1)] while_open_def while_half_open_def)

lemma arrive_half_opens:
  assumes "breaker_inv b" "state_of b = OPEN" "\<not> closed_elapsed b < failure_window b"
  shows "\<exists>reject. breaker_arrive now draw b = Inr (reject, (set_rates now (turn_window now b))
    \<lparr>state_of := HALF_OPEN, half_open_window_start := Some now, closed_elapsed := 0, half_open_elapsed := 0\<rparr>)"
proof -
  have "half_open_elapsed b = 0" "0 < failure_window b"
    using assms(1,2) by (simp_all add: breaker_inv_def windows_ok_def config_ok_def)
  then show ?thesis
    using assms(2,3) by (simp add: breaker_arrive_def reject_request_eq [OF assms(1)] while_open_def while_half_open_def)
qed

lemma arrive_half_open:
  assumes "breaker_inv b" "state_of b = HALF_OPEN" "half_open_elapsed b < failure_window b" "half_open_window_start b = Some t"
  shows "\<exists>reject. breaker_arrive now draw b = Inr (reject, (set_rates now (turn_window now b))\<lparr>half_open_elapsed := now - t\<rparr>)"
  using assms(2-4) by (simp add: breaker_arrive_def reject_request_eq [OF assms(1)] while_open_def while_half_open_def)

lemma arrive_closes:
  assumes "breaker_inv b" "state_of b = HALF_OPEN" "\<not> half_open_elapsed b < failure_window b"
  shows "\<exists>reject. breaker_arrive now draw b =
    Inr (reject, (set_rates now (turn_window now b))\<lparr>state_of := CLOSED, half_open_elapsed := 0\<rparr>)"
  using assms(2,3) by (simp add: breaker_arrive_def reject_request_eq [OF assms(1)] while_open_def while_half_open_def)

lemma arrive_closed:
  assumes "breaker_inv b" "state_of b = CLOSED"
  shows "\<exists>reject. breaker_arrive now draw b = Inr (reject, set_rates now (turn_window now b))"
  using assms(2) by (simp add: breaker_arrive_def reject_request_eq [OF assms(1)] while_open_def while_half_open_def)

lemmas arrive_cases = arrive_open arrive_half_opens arrive_half_open arrive_closes arrive_closed

text \<open>An arrival moves the breaker only from open to half open and from half open to closed, the latter only
  when the recorded elapsed time has reached the window; only failed requests open it again.\<close>

theorem breaker_transitions:
  assumes "breaker_inv b" "breaker_arrive now draw b = Inr (reject, b')"
  shows "state_of b' = state_of b \<or> state_of b = OPEN \<and> state_of b' = HALF_OPEN \<and> failure_window b \<le> closed_elapsed b \<or>
    state_of b = HALF_OPEN \<and> state_of b' = CLOSED \<and> failure_window b \<le> half_open_elapsed b"
proof (cases "state_of b")
  case OPEN
  show ?thesis
  proof (cases "closed_elapsed b < failure_window b")
    case True
    moreover obtain t where "closed_window_start b = Some t" using assms(1) OPEN by (auto simp: breaker_inv_def windows_ok_def)
    ultimately show ?thesis using arrive_open [OF assms(1) OPEN] assms(2) by auto
  next
    case False
    then show ?thesis using arrive_half_opens [OF assms(1) OPEN False, of now draw] assms(2) OPEN by auto
  qed
next
  case HALF_OPEN
  show ?thesis
  proof (cases "half_open_elapsed b < failure_window b")
    case True
    moreover obtain t where "half_open_window_start b = Some t" using assms(1) HALF_OPEN by (auto simp: breaker_inv_def windows_ok_def)
    ultimately show ?thesis using arrive_half_open [OF assms(1) HALF_OPEN, of t now draw] assms(2) by auto
  next
    case False
    then show ?thesis using arrive_closes [OF assms(1) HALF_OPEN False, of now draw] assms(2) HALF_OPEN by auto
  qed
next
  case CLOSED
  then show ?thesis using arrive_closed [OF assms(1) CLOSED, of now draw] assms(2) by auto
qed

text \<open>The first request after the breaker has opened is rejected, however late it comes: the elapsed time it
  is compared with is the one recorded before it.\<close>

theorem first_request_rejected:
  assumes "breaker_inv b" "trip_breaker b" "state_of b \<noteq> OPEN"
  shows "\<exists>b'. breaker_arrive now draw (trip t b) = Inr (True, b') \<and> state_of b' = OPEN \<and> closed_elapsed b' = now - t"
proof -
  have b: "breaker_inv (trip t b)" "state_of (trip t b) = OPEN" "closed_window_start (trip t b) = Some t"
    "closed_elapsed (trip t b) = 0" "0 < failure_window (trip t b)"
    using assms inv_trip [OF assms(1)] by (auto simp: trip_def breaker_inv_def windows_ok_def config_ok_def) (cases "state_of b"; simp)+
  then show ?thesis using arrive_open [OF b(1,2) _ b(3), of now draw] by simp
qed

text \<open>A breaker whose window of ten seconds holds three failed requests, as it trips at its next request.\<close>

definition example_breaker :: breaker where
  "example_breaker = (CircuitBreaker (1 / 5) 2 10 0)
     \<lparr>failed := 3, total_completed := 3, rate_per_sec := 3, rate_per_sec_failed := 3\<rparr>"

lemma example_breaker_ok: "breaker_inv example_breaker" "trip_breaker example_breaker" "state_of example_breaker = CLOSED"
  "current_time example_breaker = 0" "failure_window example_breaker = 10"
  by (simp_all add: example_breaker_def CircuitBreaker_def breaker_inv_def config_ok_def counts_ok_def rates_ok_def windows_ok_def
      trip_breaker_def int_of_real_def)

theorem breaker_transitions_witness:
  "\<exists>reject b. breaker_arrive 5 0 example_breaker = Inr (reject, b) \<and> state_of b = CLOSED"
proof -
  obtain reject b where r: "breaker_arrive 5 0 example_breaker = Inr (reject, b)"
    using inv_arrive [OF example_breaker_ok(1)] by blast
  show ?thesis using r breaker_transitions [OF example_breaker_ok(1) r] example_breaker_ok(3) by simp
qed

theorem first_request_rejected_witness:
  "\<exists>b. breaker_arrive 1000 1 (trip 5 example_breaker) = Inr (True, b) \<and> state_of b = OPEN \<and> closed_elapsed b = 995"
  using first_request_rejected [OF example_breaker_ok(1,2), of 1000 1 5] by (simp add: example_breaker_ok(3))

section \<open>Recovery\<close>

text \<open>A request that arrives more than a window after the current one began starts a new one.\<close>

lemma turn_window_fresh:
  assumes "0 < failure_window b" "failure_window b < now - current_time b"
  shows "current_time (turn_window now b) \<le> now" "failed (turn_window now b) = 0"
    "previous_count_failed (turn_window now b) = failed b"
proof -
  have "of_int \<lfloor>now / failure_window b\<rfloor> \<le> now / failure_window b" by simp
  then have "of_int \<lfloor>now / failure_window b\<rfloor> * failure_window b \<le> now"
    using pos_le_divide_eq [OF assms(1)] by blast
  then show "current_time (turn_window now b) \<le> now" using assms(2) by (simp add: turn_window_def)
qed (use assms(2) in \<open>simp_all add: turn_window_def\<close>)

lemma fresh_rate:
  assumes "0 < failure_window b" "failure_window b < now - current_time b" "failed b \<le> 1"
  shows "rate_per_sec_failed (set_rates now (turn_window now b)) \<le> 1"
proof -
  let ?b = "turn_window now b"
  have "real (failed b) * (failure_window b - (now - current_time ?b)) \<le> 1 * failure_window b"
    using assms(1,3) turn_window_fresh(1) [OF assms(1,2)] turn_window_recent [OF assms(1), of now] by (intro mult_mono) auto
  then show ?thesis
    using assms(1) turn_window_fresh(2,3) [OF assms(1,2)] by (simp add: set_rates_def window_rate_def divide_le_eq)
qed

lemma no_trip: "rate_per_sec_failed b \<le> 1 \<Longrightarrow> trip now b = b"
proof -
  assume "rate_per_sec_failed b \<le> 1"
  then have "int_of_real (rate_per_sec_failed b) \<le> 1" by (auto simp: int_of_real_def)
  moreover have "1 \<le> int_of_real (max (rate_per_sec b * failure_threshold b) 1)" by (auto simp: int_of_real_def le_floor_iff)
  ultimately show ?thesis by (simp add: trip_def trip_breaker_def)
qed

text \<open>
  However long no request came, the counts of the last window with requests are the previous ones: at a
  multiple of the window its failures weigh as if it had just ended.
\<close>

theorem old_failures_count_fully:
  assumes "0 < failure_window b" "now = of_int n * failure_window b" "failure_window b < now - current_time b"
  shows "rate_per_sec_failed (set_rates now (turn_window now b)) = real (failed b)"
proof -
  have "current_time (turn_window now b) = now" using assms by (simp add: turn_window_def)
  then show ?thesis
    using assms(1) turn_window_fresh(2,3) [OF assms(1,3)] by (simp add: set_rates_def window_rate_def)
qed

text \<open>What a request leaves that arrives in a fresh window after at most one failure, or at an open breaker.\<close>

definition quiet :: "real \<Rightarrow> breaker \<Rightarrow> breaker \<Rightarrow> bool" where
  "quiet now b b' \<longleftrightarrow> breaker_inv b' \<and> failed b' \<le> 1 \<and> current_time b' \<le> now \<and> failure_window b' = failure_window b"

lemma count_status_fields:
  "state_of (count_status s b) = state_of b" "closed_window_start (count_status s b) = closed_window_start b"
  "closed_elapsed (count_status s b) = closed_elapsed b" "half_open_window_start (count_status s b) = half_open_window_start b"
  "half_open_elapsed (count_status s b) = half_open_elapsed b" "failed (count_status s b) \<le> failed b + 1"
  "current_time (count_status s b) = current_time b" "failure_window (count_status s b) = failure_window b"
  "rate_per_sec_failed (count_status s b) = rate_per_sec_failed b"
  by (simp_all add: count_status_def Let_def)

lemma run_quiet:
  assumes "breaker_arrive now draw b = Inr (reject, b1)" "breaker_inv b1" "failed b1 = 0" "current_time b1 \<le> now"
    "failure_window b1 = failure_window b" "rate_per_sec_failed b1 \<le> 1"
  shows "\<exists>s b'. breaker_run now draw later r b = Inr (s, b') \<and> quiet now b b' \<and> state_of b' = state_of b1 \<and>
    closed_elapsed b' = closed_elapsed b1 \<and> half_open_window_start b' = half_open_window_start b1 \<and>
    half_open_elapsed b' = half_open_elapsed b1"
proof (cases reject)
  case True
  then show ?thesis using assms by (simp add: breaker_run_def no_trip quiet_def)
next
  case False
  have "trip later (count_status (handled_status r) b1) = count_status (handled_status r) b1"
    using assms(6) by (intro no_trip) (simp add: count_status_fields)
  then show ?thesis
    using False assms count_status_fields(6) [of "handled_status r" b1] inv_count [OF assms(2)]
    by (simp add: breaker_run_def breaker_end_def quiet_def count_status_fields)
qed

lemma rejected_while_open:
  assumes "breaker_inv b" "state_of b = OPEN" "closed_elapsed b < failure_window b" "closed_window_start b = Some t"
    "failure_window b < now - current_time b"
  shows "\<exists>b'. breaker_run now draw later r b = Inr (503, b') \<and> quiet now b b' \<and> state_of b' = OPEN \<and> closed_elapsed b' = now - t"
proof -
  let ?b = "(set_rates now (turn_window now b))\<lparr>closed_elapsed := now - t\<rparr>"
  have w: "0 < failure_window b" using assms(1) by (simp add: breaker_inv_def config_ok_def)
  have "breaker_inv ?b"
    using inv_arrive [OF assms(1), of now draw] arrive_open [OF assms(1-4), of now draw] by simp
  then have "quiet now b ?b" using turn_window_fresh [OF w assms(5)] by (simp add: quiet_def)
  then show ?thesis using assms(2) by (simp add: breaker_run_def arrive_open [OF assms(1-4)] trip_def)
qed

lemma quiet_arrive:
  assumes "breaker_inv b" "failed b \<le> 1" "failure_window b < now - current_time b"
    "breaker_arrive now draw b = Inr (reject, b1)" "b1 = (set_rates now (turn_window now b))
      \<lparr>state_of := q, half_open_window_start := h, closed_elapsed := c, half_open_elapsed := e\<rparr>"
  shows "\<exists>s b'. breaker_run now draw later r b = Inr (s, b') \<and> quiet now b b' \<and> state_of b' = q \<and>
    closed_elapsed b' = c \<and> half_open_window_start b' = h \<and> half_open_elapsed b' = e"
proof -
  have w: "0 < failure_window b" using assms(1) by (simp add: breaker_inv_def config_ok_def)
  have "breaker_inv b1" using inv_arrive [OF assms(1), of now draw] assms(4) by auto
  then show ?thesis
    using run_quiet [OF assms(4), of later r] turn_window_fresh [OF w assms(3)] fresh_rate [OF w assms(3,2)] assms(5) by simp
qed

text \<open>The second, third and fourth request after the opening.\<close>

lemma second_half_opens:
  assumes "breaker_inv b" "failed b \<le> 1" "failure_window b < now - current_time b" "state_of b = OPEN"
    "failure_window b \<le> closed_elapsed b"
  shows "\<exists>s b'. breaker_run now draw later r b = Inr (s, b') \<and> quiet now b b' \<and> state_of b' = HALF_OPEN \<and>
    half_open_window_start b' = Some now \<and> half_open_elapsed b' = 0"
proof -
  obtain x where x: "breaker_arrive now draw b = Inr (x, (set_rates now (turn_window now b))
      \<lparr>state_of := HALF_OPEN, half_open_window_start := Some now, closed_elapsed := 0, half_open_elapsed := 0\<rparr>)"
    using arrive_half_opens [OF assms(1,4)] assms(5) by force
  show ?thesis using quiet_arrive [OF assms(1-3) x refl] by blast
qed

lemma third_half_open:
  assumes "breaker_inv b" "failed b \<le> 1" "failure_window b < now - current_time b" "state_of b = HALF_OPEN"
    "half_open_elapsed b = 0" "half_open_window_start b = Some t"
  shows "\<exists>s b'. breaker_run now draw later r b = Inr (s, b') \<and> quiet now b b' \<and> state_of b' = HALF_OPEN \<and>
    half_open_elapsed b' = now - t"
proof -
  let ?b = "(set_rates now (turn_window now b))\<lparr>half_open_elapsed := now - t\<rparr>"
  have "half_open_elapsed b < failure_window b" using assms(1,5) by (simp add: breaker_inv_def config_ok_def)
  then obtain x where x: "breaker_arrive now draw b = Inr (x, ?b)"
    using arrive_half_open [OF assms(1,4) _ assms(6)] by blast
  have "?b = (set_rates now (turn_window now b))
      \<lparr>state_of := HALF_OPEN, half_open_window_start := Some t, closed_elapsed := closed_elapsed b, half_open_elapsed := now - t\<rparr>"
    by (rule breaker.equality) (simp_all add: assms(4,6))
  then show ?thesis using quiet_arrive [OF assms(1-3) x] by blast
qed

lemma fourth_closes:
  assumes "breaker_inv b" "failed b \<le> 1" "failure_window b < now - current_time b" "state_of b = HALF_OPEN"
    "failure_window b \<le> half_open_elapsed b"
  shows "\<exists>s b'. breaker_run now draw later r b = Inr (s, b') \<and> state_of b' = CLOSED"
proof -
  let ?b = "(set_rates now (turn_window now b))\<lparr>state_of := CLOSED, half_open_elapsed := 0\<rparr>"
  obtain x where x: "breaker_arrive now draw b = Inr (x, ?b)"
    using arrive_closes [OF assms(1,4)] assms(5) by force
  have "?b = (set_rates now (turn_window now b))\<lparr>state_of := CLOSED, half_open_window_start := half_open_window_start b,
      closed_elapsed := closed_elapsed b, half_open_elapsed := 0\<rparr>"
    by (rule breaker.equality) simp_all
  then show ?thesis using quiet_arrive [OF assms(1-3) x] by blast
qed

text \<open>C9: An opened breaker recovers: of four requests that come more than a window apart the first is answered 503,
  whatever its handler would have answered, and the breaker stays open; after the second and the third it is half
  open and after the fourth closed, whatever the handlers answer and whatever is drawn. The requests follow one
  another without overlapping.\<close>

theorem breaker_recovers:
  assumes "breaker_inv b" "trip_breaker b" "state_of b \<noteq> OPEN" "current_time b \<le> t" "failure_window b < t1 - t"
    "failure_window b < t2 - t1" "failure_window b < t3 - t2" "failure_window b < t4 - t3"
  shows "\<exists>b1 s2 b2 s3 b3 s4 b4.
    breaker_run t1 d1 e1 r1 (trip t b) = Inr (503, b1) \<and> state_of b1 = OPEN \<and>
    breaker_run t2 d2 e2 r2 b1 = Inr (s2, b2) \<and> state_of b2 = HALF_OPEN \<and>
    breaker_run t3 d3 e3 r3 b2 = Inr (s3, b3) \<and> state_of b3 = HALF_OPEN \<and>
    breaker_run t4 d4 e4 r4 b3 = Inr (s4, b4) \<and> state_of b4 = CLOSED"
proof -
  let ?b = "trip t b" and ?w = "failure_window b"
  have w: "0 < ?w" using assms(1) by (simp add: breaker_inv_def config_ok_def)
  have b: "breaker_inv ?b" "state_of ?b = OPEN" "closed_window_start ?b = Some t" "closed_elapsed ?b = 0"
    "failure_window ?b = ?w" "current_time ?b = current_time b"
    using assms(1-3) inv_trip [OF assms(1)] by (auto simp: trip_def breaker_inv_def windows_ok_def) (cases "state_of b"; simp)+
  obtain b1 where b1: "breaker_run t1 d1 e1 r1 ?b = Inr (503, b1)" "quiet t1 ?b b1" "state_of b1 = OPEN" "closed_elapsed b1 = t1 - t"
  proof -
    have "closed_elapsed ?b < failure_window ?b" "failure_window ?b < t1 - current_time ?b" using b w assms(4,5) by simp_all
    then show ?thesis using rejected_while_open [OF b(1,2) _ b(3), of t1 d1 e1 r1] that by blast
  qed
  have q1: "breaker_inv b1" "failed b1 \<le> 1" "current_time b1 \<le> t1" "failure_window b1 = ?w"
    using b1(2) b(5) by (simp_all add: quiet_def)
  obtain s2 b2 where b2: "breaker_run t2 d2 e2 r2 b1 = Inr (s2, b2)" "quiet t2 b1 b2" "state_of b2 = HALF_OPEN"
    "half_open_window_start b2 = Some t2" "half_open_elapsed b2 = 0"
  proof -
    have "failure_window b1 < t2 - current_time b1" "failure_window b1 \<le> closed_elapsed b1" using q1 b1(4) assms(5,6) by simp_all
    then show ?thesis using second_half_opens [OF q1(1,2) _ b1(3)] that by blast
  qed
  have q2: "breaker_inv b2" "failed b2 \<le> 1" "current_time b2 \<le> t2" "failure_window b2 = ?w"
    using b2(2) q1(4) by (simp_all add: quiet_def)
  obtain s3 b3 where b3: "breaker_run t3 d3 e3 r3 b2 = Inr (s3, b3)" "quiet t3 b2 b3" "state_of b3 = HALF_OPEN"
    "half_open_elapsed b3 = t3 - t2"
  proof -
    have "failure_window b2 < t3 - current_time b2" using q2 assms(7) by simp
    then show ?thesis using third_half_open [OF q2(1,2) _ b2(3,5,4)] that by blast
  qed
  have q3: "breaker_inv b3" "failed b3 \<le> 1" "current_time b3 \<le> t3" "failure_window b3 = ?w"
    using b3(2) q2(4) by (simp_all add: quiet_def)
  obtain s4 b4 where b4: "breaker_run t4 d4 e4 r4 b3 = Inr (s4, b4)" "state_of b4 = CLOSED"
  proof -
    have "failure_window b3 < t4 - current_time b3" "failure_window b3 \<le> half_open_elapsed b3" using q3 b3(4) assms(7,8) by simp_all
    then show ?thesis using fourth_closes [OF q3(1,2) _ b3(3)] that by blast
  qed
  show ?thesis using b1(1,3) b2(1,3) b3(1,3) b4 by blast
qed

theorem breaker_recovers_witness:
  "\<exists>b1 s2 b2 s3 b3 s4 b4.
    breaker_run 16 0 17 (Answered 200) (trip 5 example_breaker) = Inr (503, b1) \<and> state_of b1 = OPEN \<and>
    breaker_run 27 0 28 Failed b1 = Inr (s2, b2) \<and> state_of b2 = HALF_OPEN \<and>
    breaker_run 38 0 39 (Answered 200) b2 = Inr (s3, b3) \<and> state_of b3 = HALF_OPEN \<and>
    breaker_run 49 0 50 (Answered 200) b3 = Inr (s4, b4) \<and> state_of b4 = CLOSED"
  by (rule breaker_recovers [OF example_breaker_ok(1,2)]) (simp_all add: example_breaker_ok)

end
