(* ===== verification/Spec2Isabelle.thy ===== *)
theory Spec2Isabelle
  imports Http1_Request Http_Server Hpack_Properties Frame_Properties Http2_Result Raft_Tasks Rate_Limiters Dns_Cache Graph_Run Client_Pool Persona_Generators Batch_Semaphore Circuit_Breaker
    Huffman_Check_0 Huffman_Check_1 Huffman_Check_2 Huffman_Check_3
begin

text \<open>
  A verification development for hedra, a load testing tool written in Python.

  \<^bold>\<open>The program.\<close> A test is a set of stages (set up, optimise, execute, analyse, submit, ...). They are
  assembled into a graph whose edges are transitions, and the graph is run generation by generation; the
  stages of a generation share the workers of the machine. An execute stage starts the actions of the
  user at the pace of a persona, and the client of a protocol engine sends them over a pool of
  connections. The engines for HTTP/1 and HTTP/2 (\<open>core/engines/types\<close>, with the HPACK code in its
  \<open>common\<close>) are written from scratch. Several instances of hedra form a cluster (\<open>distributed\<close>): the
  nodes find each other by DNS, monitor each other, elect a leader and replicate a log of entries with
  unique ids; their HTTP servers route requests to handlers through layers of middleware (CORS, CSRF,
  compression, a circuit breaker) and limit the rate of requests.

  \<^bold>\<open>How the parts interact.\<close> The table of transitions decides which edges of the graph can run
  (\<open>Stage_Graph\<close>); the groups of a generation receive their workers from the batches
  (\<open>Stage_Batches\<close>) through the batched semaphore (\<open>Batch_Semaphore\<close>), and their transitions are run
  with retries (\<open>Graph_Run\<close>). In a stage the generator of the persona (\<open>Persona_Generators\<close>) starts an
  action whenever fewer than a bound are active; the client waits for a connection of its pool
  (\<open>Client_Pool\<close>). An HTTP/1 connection writes the bytes of the request and reads the response from
  its stream reader (\<open>Http1_Request\<close>, \<open>Stream_Reader\<close>, \<open>Http1_Response\<close>). An HTTP/2 action encodes its
  headers with the HPACK encoder, whose dynamic table mirrors the table of the peer. The connection
  numbers the streams; the pipe writes the preface, HEADERS and DATA frames and reads the answer: bytes
  go through the frame buffer, the frames change windows and settings, DATA grows the body, and the block
  of a HEADERS frame is kept and decoded when a property of the result is first read. In a cluster the
  monitor is the base class of the replication controller: the failure of a leader that the monitor
  finds starts an election, and the handlers of a node read and change its term, its role, its leaders
  and its log; the ids of the entries come from the node's snowflake generator, and order the log. A
  request between nodes is written by the client's message, parsed lazily by the server, admitted by a
  limiter, answered by the handler inside its wrappers, and its reply is parsed by the client
  (\<open>Http_Messages\<close>, \<open>Http_Middleware\<close>, \<open>Http_Compression\<close>, \<open>Http_Server\<close>).

  \<^bold>\<open>The theories.\<close>
  \<^item> \<open>Py_Prelude\<close>: errors, results, slices, negative indices, dictionaries, byte strings.
    \<open>Py_Struct\<close>: the \<open>struct\<close> formats.
  \<^item> \<open>Hpack_Integer\<close>: \<open>encode_integer\<close>, \<open>decode_integer\<close> of \<open>encoder.py\<close>.
  \<^item> \<open>Huffman_Codes\<close>, \<open>Huffman_Table_0\<close> to \<open>3\<close>, \<open>Huffman_Paths\<close>, \<open>Huffman_Prefix\<close>,
    \<open>Huffman_Check_0\<close> to \<open>3\<close>, \<open>Huffman_Decoder\<close>: the whole code table (\<open>hpack/constants.py\<close>), the
    nibble automaton (\<open>hpack/huffman_table.py\<close>), the encoder; the automaton is checked node by
    node against the code.
  \<^item> \<open>Header_Table\<close>: \<open>hpack/table.py\<close>, with the \<open>lru_cache\<close> of \<open>get_by_index\<close> as part of the
    state. \<open>Header_Store\<close>: the bounded list it refines, as a locale.
  \<^item> \<open>Hpack_Encoder\<close>, \<open>Hpack_Decoder\<close>, \<open>Hpack_Roundtrip\<close>, \<open>Hpack_Properties\<close>: the two classes and
    the sessions in which their tables stay in step. \<open>Deferred_Headers\<close>:
    \<open>events/deferred_headers_event.py\<close>.
  \<^item> \<open>Http2_Frame\<close>, \<open>Frame_Buffer\<close>, \<open>Frame_Roundtrip\<close>, \<open>Frame_Properties\<close>: \<open>frames/types/base_frame.py\<close>
    and \<open>frames/frame_buffer.py\<close>.
  \<^item> \<open>Window_Manager\<close>, \<open>Http2_Settings\<close>: \<open>windows/window_manager.py\<close>, \<open>streams/stream_settings.py\<close>.
  \<^item> \<open>Http2_Request\<close>: \<open>action.py\<close>, \<open>stream.py\<close>, \<open>connection.py\<close> and the sending half of \<open>pipe.py\<close>.
    \<open>Http2_Response\<close>: \<open>receive_response\<close> of \<open>pipe.py\<close>. \<open>Http2_Result\<close>: \<open>result.py\<close>.
  \<^item> \<open>Stream_Reader\<close>: \<open>common/protocols/shared/reader.py\<close>. \<open>Http1_Request\<close>: \<open>http/action.py\<close> and the
    path of \<open>common/url.py\<close>. \<open>Http1_Response\<close>: \<open>connection.py\<close> and \<open>execute_prepared_request\<close> of
    \<open>http/client.py\<close>. \<open>Client_Pool\<close>: the pool, its semaphore and the counters of \<open>http/client.py\<close>.
  \<^item> \<open>Stage_Batches\<close>: the two partitions of \<open>base/parallel\<close>. \<open>Batch_Semaphore\<close>: \<open>batched_semaphore.py\<close> and the
    executor that uses it. \<open>Stage_Graph\<close>: \<open>transitions\<close> and the assembly of \<open>core/graphs\<close>.
    \<open>Graph_Run\<close>: \<open>transition.py\<close>, \<open>transition_group.py\<close> and the loop of \<open>graph.py\<close>.
  \<^item> \<open>Persona_Generators\<close>: the action generators of \<open>core/personas/types\<close>.
  \<^item> \<open>Snowflake_Ids\<close>: \<open>distributed/snowflake\<close>. \<open>Log_Queue\<close>: \<open>replication/log_queue.py\<close>.
    \<open>Raft_Node\<close>, \<open>Raft_Tasks\<close>: \<open>replication/replication_controller.py\<close>, its hooks and election, then its
    background rounds, retries and reaction to failures.
  \<^item> \<open>Monitor_Node\<close>, \<open>Monitor_Suspicion\<close>: \<open>monitoring/monitor_service.py\<close>, the state of the failure
    detector with its hooks, then suspicion.
  \<^item> \<open>Rate_Limiters\<close>: \<open>rate_limiting/limiters\<close>. \<open>Circuit_Breaker\<close>: \<open>middleware/circuit_breaker\<close>.
  \<^item> \<open>Http_Messages\<close>: \<open>models/http\<close>. \<open>Http_Middleware\<close>, \<open>Http_Compression\<close>: \<open>middleware\<close>, with a store of
    the dictionaries that responses and handlers share. \<open>Http_Server\<close>: \<open>rate_limiting/limiter.py\<close> and
    \<open>_route_request\<close> of \<open>connection/tcp/mercury_sync_http_connection.py\<close>.
  \<^item> \<open>Dns_Names\<close>, \<open>Ip_Text\<close>, \<open>Dns_Records\<close>, \<open>Dns_Message\<close>: names with compression, the text of addresses,
    the data of each record type and whole messages under \<open>discovery/dns/core\<close> and \<open>models/dns\<close>.
    \<open>Dns_Cache\<close>: the trie of names with its expiry, and the resolver that answers from it.
  \<^item> This theory: properties that span the encoder, the frames, the pipe and the peer.

  \<^bold>\<open>Reading the model.\<close> A class is a record and a method a function from the old state to the new
  state and a result; exceptions are the left side of a sum (\<open>py_error\<close>), with the state as the
  exception leaves it. Bytes are \<open>8 word\<close>, Python integers \<open>int\<close>, floats \<open>real\<close>. What comes from
  outside is an argument: the chunks of the socket, the clock, the random choices, the messages of other
  nodes. A coroutine is cut at its awaits: each piece is one step, and the interleavings are the
  sequences of steps; a coroutine that waits is in the state, as in the node of the controller, whose log updates
  and elections are suspended between their pieces, or the state after a wait is another, arbitrary one, as where a
  failure is notified. Library code is a parameter: the topological generations of a graph come from
  networkx, and the theorems about them assume its documented contract, which the witnesses meet
  with an algorithm of Kahn's kind.

  \<^bold>\<open>What is shown.\<close> Round trips: integers, Huffman strings, header lists, frames, DNS messages, and the
  headers and body of a request from the action to the peer (HTTP/2, its header block copied into a bytes object) or to
  the reader (HTTP/1); and from a client of a node through its server back to the client.
  Refinement: the header table implements the bounded list, the log queue a map from timestamps to
  entries, the DNS cache a set of live records. Invariants and safety: the tables of both sides
  stay in step, the receive window never starves, every read of a stream conserves it, every vote request
  is answered unless the leader of a later term is still to be recorded, nodes with the same view elect the same leader, the buckets limit the rate, a pool hands
  a connection to one task at a time, the state of the monitor is well formed, the batches of stages
  fit the workers, a generation runs after all it depends on, a forged request does not reach a handler
  that CSRF guards. Progress: a response whose DATA frames
  arrive one per read is returned complete, every waiting task of the semaphore has a runner to wake it,
  a suspicion ends, the breaker recovers, a run completes exactly when no execution of a
  transition of it fails. The theorems about defects state exactly what the code does where it does not do
  what it means to: the stale cache, data lost when frames arrive together, acknowledgements of
  acknowledgements, the reading loop at the end of a connection, a term that falls back, a mixed
  group of which only one transition runs, a branch that is shorter than its siblings and is skipped, a
  ramped persona that never fills its pool, an extended pool that admits more requests than it has
  connections, a cookie that is sent to other clients, a check that comes after the handler.

  \<^bold>\<open>Fuel and bounds.\<close> \<open>submit_loop\<close> has fuel because a negative flow window makes its loop run
  forever; the length of the body plus one is enough otherwise. The reading loops of a response
  run over the list of chunks read so far, and None means that they wait for more. The waiting
  loops of a limiter, of a suspicion and of a generator run over the list of clock readings or of the
  observations between two awaits, so that a loop that spins forever is one that consumes every finite
  list. A transition is retried at most its number of retries, and its edge
  keeps the attempts made and the exception stored from one execution to the next. Runs of a pool, of a semaphore and of a
  breaker are lists of events of any length. All other loops are total functions.

  \<^bold>\<open>Not modelled.\<close> Sockets, TLS, encryption, compression and pickling (effects of libraries), logging
  and metrics; the recursive DNS resolver and the registrar, which send requests to other name
  servers; hooks, which call the code of the user, the histories the edges of a graph pass between
  stages, and what the stages themselves do; the engines for other protocols, which mostly call
  libraries; the sockets and the waiters of the clients of nodes; reports, data connectors, experiments, the command
  line and plugins, which are adapters to services and libraries outside the repository. The floating
  point rounding of the limiters, the breaker and the distributions is not modelled.
\<close>

section \<open>Request headers over the wire\<close>

definition request_frame :: "int \<Rightarrow> bytes \<Rightarrow> frame" where
  "request_frame sid block = Frame_init sid 0x01 {END_HEADERS} 0 (no_kwargs\<lparr>kw_data := Some block\<rparr>)"

lemma request_frame_ok:
  assumes "fits 31 sid" "length block < 2 ^ 24"
  shows "wf_frame (request_frame sid block)" "deliverable (request_frame sid block)"
  using assms
  by (simp_all add: request_frame_def wf_frame_def wf_payload_def wf_padding_def fits_def deliverable_def
      type_flags_def Frame_init_def parse_flags_def frame_dispatch_def frame_defaults_def no_kwargs_def
      kw_get_def frame_types_def serialize_body_def padding_data_def data_bytes_def zero_bytes_def)

lemma request_frame_view: "frame_view (request_frame sid block) = Headers block 0 None"
  by (simp add: request_frame_def frame_view_def Frame_init_def parse_flags_def frame_dispatch_def
      frame_defaults_def no_kwargs_def kw_get_def)

text \<open>The header block of a request, sent as one HEADERS frame, comes out of the receive buffer
  of the peer as a HEADERS frame for the same stream whose data, copied into a bytes object, decodes to
  exactly the headers the encoder was given.\<close>

theorem headers_over_the_wire:
  assumes "hpack_session self e st used" "distinct (used @ dynamic_refs (sizes_sent e) headers h)"
    "enc_encode e headers h = (e', Inr block)" "length block < 2 ^ 24" "fits 31 sid"
    "headers_buffer fb = []"
  shows "\<exists>bs g st' es. snd (serialize (request_frame sid block)) = Inr bs \<and>
    buffer_round (fb\<lparr>fb_data := bs @ rest\<rparr>) = (fb\<lparr>fb_data := rest\<rparr>, Next (Some g)) \<and>
    stream_id g = sid \<and> frame_view g = Headers block 0 None \<and>
    dec_decode self st False block = (st', Inr es) \<and> map raw_entry es = headers"
proof -
  obtain f' bs g where s: "serialize (request_frame sid block) = (f', Inr bs)"
    "buffer_round (fb\<lparr>fb_data := bs @ rest\<rparr>) = (fb\<lparr>fb_data := rest\<rparr>, Next (Some g))"
    "same_frame g (request_frame sid block)"
    by (rule serialize_buffer_round [OF request_frame_ok [OF assms(5,4)] assms(6)])
  note i = session_in_step [OF assms(1), THEN conjunct1] session_in_step [OF assms(1), THEN conjunct2]
  obtain st' es where "dec_decode self st False block = (st', Inr es)" "map raw_entry es = headers"
    by (rule enc_decode_block [OF i assms(2)]) (use assms(3) in simp)
  moreover have "stream_id (request_frame sid block) = sid"
    by (simp add: request_frame_def Frame_init_def parse_flags_def frame_dispatch_def frame_defaults_def)
  ultimately show ?thesis using s request_frame_view by (auto simp: same_frame_def)
qed

theorem headers_over_the_wire_witness:
  "\<exists>bs g st' es. snd (serialize (request_frame 1 [0x40, 1, 0x61, 1, 0x31])) = Inr bs \<and>
    buffer_round (FrameBuffer_init\<lparr>fb_data := bs @ [0]\<rparr>) = (FrameBuffer_init\<lparr>fb_data := [0]\<rparr>, Next (Some g)) \<and>
    stream_id g = 1 \<and> frame_view g = Headers [0x40, 1, 0x61, 1, 0x31] 0 None \<and>
    dec_decode 0 fresh_decoder False [0x40, 1, 0x61, 1, 0x31] = (st', Inr es) \<and> map raw_entry es = [([97], [49])]"
proof -
  obtain e' where e: "enc_encode Encoder_init [([97], [49])] False = (e', Inr [0x40, 1, 0x61, 1, 0x31])"
    by (simp add: enc_encode_def Encoder_init_def enc_add_def enc_insert_def table_run encode_short_literals)
  have "distinct ([] @ dynamic_refs (sizes_sent Encoder_init) [([97], [49])] False)"
    by (simp only: dynamic_refs_init append_Nil distinct.simps)
  then show ?thesis
    by (rule headers_over_the_wire [OF session_init _ e]) (simp_all add: fits_def FrameBuffer_init_def)
qed

section \<open>A request from the action to the peer\<close>

lemma split_chunks_concat: "0 < n \<Longrightarrow> length bs \<le> k \<Longrightarrow> concat (split_chunks k n bs) = bs"
  by (induction k n bs rule: split_chunks.induct) auto

text \<open>C2: From the action to the peer: let the header table of the peer be in step with that of the encoder, no
  dynamic index occur twice in the session, the table sizes of the action's encoder and of the pipe's agree, and the
  block that setup_headers encodes fit in one frame. Then send_request_headers writes a HEADERS frame which comes out
  of the peer's receive buffer, for the same stream and with just this block, with END_STREAM when there is no body.
  The block, copied into a bytes object, decodes to the header list of the request; as the buffer of this code
  delivers it, a slice of a bytearray, no nonempty block can be decoded, decode raises.\<close>

theorem request_reaches_peer:
  assumes "hpack_session self (hpack_encoder a) d used"
    "distinct (used @ dynamic_refs (sizes_sent (hpack_encoder a)) (request_headers a) True)"
    "setup_headers a = (a', Inr ())" "encoded_headers a' = Some [chunk]" "length chunk < 2 ^ 24"
    "pipe_ok p" "maxsize (enc_table (hpack_encoder a')) = maxsize (enc_table (p_encoder p))"
    "headers_template (headers_frame st)" "headers_buffer fb = []"
  shows "\<exists>p' st' g d' es. send_request_headers p st a' = Inr (p', st', a') \<and>
    buffer_round (fb\<lparr>fb_data := last (written st') @ rest\<rparr>) = (fb\<lparr>fb_data := rest\<rparr>, Next (Some g)) \<and>
    stream_id g = stream_id (headers_frame st) \<and> frame_view g = Headers chunk 0 None \<and>
    (encoded_data a = None \<longrightarrow> END_STREAM \<in> flags g) \<and>
    dec_decode self d False chunk = (d', Inr es) \<and> map raw_entry es = request_headers a \<and>
    (chunk \<noteq> [] \<longrightarrow> (\<exists>err. dec_decode self d True chunk = (d, Inl err)))"
proof -
  note i = session_in_step [OF assms(1), THEN conjunct1] session_in_step [OF assms(1), THEN conjunct2]
  obtain e' block d' es where e: "enc_encode (hpack_encoder a) (request_headers a) True = (e', Inr block)"
    "dec_decode self d False block = (d', Inr es)" "map raw_entry es = request_headers a"
    by (rule enc_decode_block [OF i assms(2)])
  have a': "a' = a\<lparr>hpack_encoder := e', encoded_headers := Some (split_chunks (length block) ACTION_MAX_FRAME_SIZE block)\<rparr>"
    using assms(3) e(1) by (simp add: setup_headers_def)
  have "concat (split_chunks (length block) ACTION_MAX_FRAME_SIZE block) = block"
    by (rule split_chunks_concat) (simp_all add: ACTION_MAX_FRAME_SIZE_def)
  with a' assms(4) have block: "block = chunk" by simp
  note hf = sent_headers_frame_ok [OF assms(8,5), of a']
  obtain p' st' where s: "send_request_headers p st a' = Inr (p', st', a')"
    "written st' = written st @ (if \<not> init_sent p \<or> reset_connection st then [connection_data st] else []) @
       [wire (sent_headers_frame st a' chunk)]"
    by (rule send_request_headers_ok [OF assms(6,8,4,5,7)])
  have "wf_frame (sent_headers_frame st a' chunk)" using hf(1) by (simp add: headers_template_def)
  then obtain f' bs g where g: "serialize (sent_headers_frame st a' chunk) = (f', Inr bs)"
    "buffer_round (fb\<lparr>fb_data := bs @ rest\<rparr>) = (fb\<lparr>fb_data := rest\<rparr>, Next (Some g))"
    "same_frame g (sent_headers_frame st a' chunk)"
    by (rule serialize_buffer_round [OF _ hf(2) assms(9)])
  have "last (written st') = bs" using s(2) g(1) by (simp add: wire_def)
  moreover have "encoded_data a = None \<longrightarrow> END_STREAM \<in> flags (sent_headers_frame st a' chunk)"
    using a' by (simp add: sent_headers_frame_def Let_def)
  moreover have "chunk \<noteq> [] \<longrightarrow> (\<exists>err. dec_decode self d True chunk = (d, Inl err))" using dec_decode_writable by blast
  ultimately show ?thesis using s(1) g(2,3) hf(3,4) e(2,3) block by (auto simp: same_frame_def)
qed

text \<open>The row of the static table's mapping for one name.\<close>

fun mapping_at :: "'a \<Rightarrow> int \<Rightarrow> ('a \<times> 'b) list \<Rightarrow> (int \<times> ('b \<rightharpoonup> int)) option \<Rightarrow> (int \<times> ('b \<rightharpoonup> int)) option" where
  "mapping_at n i [] r = r"
| "mapping_at n i ((name, val) # rest) r =
     mapping_at n (i + 1) rest
       (if name = n then (case r of None \<Rightarrow> Some (i, [val \<mapsto> i]) | Some (first, values) \<Rightarrow> Some (first, values(val \<mapsto> i))) else r)"

lemma build_mapping_at: "build_static_table_mapping i xs m n = mapping_at n i xs (m n)"
proof (induction xs arbitrary: i m)
  case (Cons x xs)
  then show ?case by (cases x; cases "m n"; cases "m (fst x)") auto
qed simp

lemma b_lit_inject: "b_lit s = b_lit t \<longleftrightarrow> s = t"
proof -
  have "inj (of_char :: char \<Rightarrow> byte)"
  proof (rule injI)
    fix c d :: char
    assume "(of_char c :: byte) = of_char d"
    then have "unat (word_of_nat (of_char c) :: byte) = unat (word_of_nat (of_char d) :: byte)" by (simp add: of_nat_of_char)
    moreover have "(of_char x :: nat) < 256" for x by simp
    ultimately show "c = d" by (simp only: unat_word_of_nat_byte of_char_eq_iff)
  qed
  then show ?thesis by (simp add: b_lit_def)
qed

lemma static_rows:
  "STATIC_TABLE_MAPPING (b_lit '':authority'') = Some (1, [[] \<mapsto> 1])"
  "STATIC_TABLE_MAPPING (b_lit '':method'') = Some (2, [b_lit ''GET'' \<mapsto> 2, b_lit ''POST'' \<mapsto> 3])"
  "STATIC_TABLE_MAPPING (b_lit '':path'') = Some (4, [b_lit ''/'' \<mapsto> 4, b_lit ''/index.html'' \<mapsto> 5])"
  "STATIC_TABLE_MAPPING (b_lit '':scheme'') = Some (6, [b_lit ''http'' \<mapsto> 6, b_lit ''https'' \<mapsto> 7])"
  unfolding STATIC_TABLE_MAPPING_def build_mapping_at STATIC_TABLE_def
  by (simp_all add: b_lit_inject) (simp add: b_lit_def)

definition example_request :: http2_action where
  "example_request = (example_action None)\<lparr>act_method := b_lit ''GET'', authority := []\<rparr>"

lemma enc_run:
  "table_search t (b_lit '':method'') (b_lit ''GET'') = Some (2, PyBytes (b_lit '':method''), Some (PyBytes (b_lit ''GET'')))"
  "table_search t (b_lit '':authority'') [] = Some (1, PyBytes (b_lit '':authority''), Some (PyBytes []))"
  "table_search t (b_lit '':scheme'') (b_lit ''https'') = Some (7, PyBytes (b_lit '':scheme''), Some (PyBytes (b_lit ''https'')))"
  "table_search t (b_lit '':path'') (b_lit ''/'') = Some (4, PyBytes (b_lit '':path''), Some (PyBytes (b_lit ''/'')))"
  by (simp_all add: table_search_def static_rows b_lit_inject)

lemma enc_small: "encode_indexed 2 = Inr [0x82]" "encode_indexed 7 = Inr [0x87]" "encode_indexed 4 = Inr [0x84]"
  "encode_integer 1 6 = Inr [1]" "encode_length [] True = Inr [0x80]"
  by code_simp+

lemma enc_empty: "encode_indexed_literal 1 [] INDEX_INCREMENTAL True = Inr [0x41, 0x80]"
  by (simp add: encode_indexed_literal_def enc_small encode_string_def huffman_coder_encode_def huffman_encode_def
    or_first_def INDEX_INCREMENTAL_def)

lemma example_request_setup:
  "\<exists>e'. setup_headers example_request = (example_request\<lparr>hpack_encoder := e', encoded_headers := Some [[0x82, 0x41, 0x80, 0x87, 0x84]]\<rparr>, Inr ()) \<and>
    maxsize (enc_table e') = 4096"
  "dynamic_refs (sizes_sent Encoder_init) (request_headers example_request) True = []"
  by (simp_all add: setup_headers_def enc_encode_def example_request_def example_action_def Encoder_init_def request_headers_def
      enc_add_def enc_insert_def enc_run enc_small enc_empty table_add_def shrink_def shrink_loop.simps HeaderTable_init_def field_size_def
      ACTION_MAX_FRAME_SIZE_def b_lit_inject [of _ "[]", unfolded b_lit_def [of "[]"], simplified] dynamic_ref_def STATIC_TABLE_LENGTH_eq sizes_sent_def)

theorem request_reaches_peer_witness:
  "\<exists>e' p' st' g d' es.
    send_request_headers example_pipe example_stream
        (example_request\<lparr>hpack_encoder := e', encoded_headers := Some [[0x82, 0x41, 0x80, 0x87, 0x84]]\<rparr>) =
      Inr (p', st', example_request\<lparr>hpack_encoder := e', encoded_headers := Some [[0x82, 0x41, 0x80, 0x87, 0x84]]\<rparr>) \<and>
    buffer_round (FrameBuffer_init\<lparr>fb_data := last (written st') @ []\<rparr>) = (FrameBuffer_init\<lparr>fb_data := []\<rparr>, Next (Some g)) \<and>
    END_STREAM \<in> flags g \<and>
    dec_decode 0 fresh_decoder False [0x82, 0x41, 0x80, 0x87, 0x84] = (d', Inr es) \<and> map raw_entry es = request_headers example_request \<and>
    (\<exists>err. dec_decode 0 fresh_decoder True [0x82, 0x41, 0x80, 0x87, 0x84] = (fresh_decoder, Inl err))"
proof -
  obtain e' where e: "setup_headers example_request =
      (example_request\<lparr>hpack_encoder := e', encoded_headers := Some [[0x82, 0x41, 0x80, 0x87, 0x84]]\<rparr>, Inr ())"
    "maxsize (enc_table e') = 4096"
    using example_request_setup(1) by blast
  have a: "hpack_encoder example_request = Encoder_init" "encoded_data example_request = None"
    by (simp_all add: example_request_def example_action_def)
  have "distinct ([] @ dynamic_refs (sizes_sent (hpack_encoder example_request)) (request_headers example_request) True)"
    using example_request_setup(2) a(1) by simp
  from request_reaches_peer [OF _ this e(1), of 0 fresh_decoder "[0x82, 0x41, 0x80, 0x87, 0x84]" example_pipe example_stream FrameBuffer_init "[]"]
  show ?thesis
    using session_init [of 0] a e(2) example_pipe_simps example_template
    by (fastforce simp: FrameBuffer_init_def Encoder_init_def HeaderTable_init_def)
qed

end
